(* ===== verification/GoPrelude.thy ===== *)
theory GoPrelude
  imports Main "HOL-Library.Sublist" "HOL-Library.Char_ord" "HOL-Library.List_Lexorder"
begin

text \<open>
  The prelude of the development: the parts of Go and of its standard library that the
  unyolo packages rest on, as executable definitions, with the lemmas every component shares.

  \<^item> A Go \<^verbatim>\<open>string\<close> is a list of bytes (\<open>string\<close>, a \<open>char list\<close>); functions of Go that
    walk code points decode UTF-8 explicitly (\<open>decodeRune\<close>).
  \<^item> A Go \<^verbatim>\<open>map[string]T\<close> is an association list: one iteration order of the map. Lookups are
    \<open>map_of\<close>; results that Go's random iteration order could influence are shown not to
    depend on it where it matters.
  \<^item> A Go \<^verbatim>\<open>error\<close> result is \<open>'e option\<close> (\<open>None\<close> is \<^verbatim>\<open>nil\<close>); a \<^verbatim>\<open>(T, error)\<close> result is \<open>'e + 'a\<close>.
  \<^item> A \<^verbatim>\<open>time.Time\<close> is an \<open>int\<close> of nanoseconds since Go's zero time, so \<^verbatim>\<open>IsZero\<close> is \<open>t = 0\<close>; a
    \<^verbatim>\<open>time.Duration\<close> is an \<open>int\<close> of nanoseconds, wrapped to 64 bits where the code multiplies.
\<close>

named_theorems go_result "rules that open error and result combinators"
named_theorems go_map "rules on Go maps as association lists"

type_synonym 'a gomap = "(string \<times> 'a) list"
type_synonym gotime = int
type_synonym duration = int

section \<open>Errors and results\<close>

text \<open>A loop that returns the first error of its body.\<close>

fun firstError :: "('a \<Rightarrow> 'e option) \<Rightarrow> 'a list \<Rightarrow> 'e option" where
  "firstError f [] = None"
| "firstError f (x # xs) = (case f x of Some e \<Rightarrow> Some e | None \<Rightarrow> firstError f xs)"

text \<open>\<^verbatim>\<open>if err := a; err != nil { return err }; return b\<close>.\<close>

definition orElse :: "'e option \<Rightarrow> 'e option \<Rightarrow> 'e option" where
  "orElse a b = (case a of Some e \<Rightarrow> Some e | None \<Rightarrow> b)"

text \<open>\<^verbatim>\<open>if cond { return errors.New(...) }\<close> as an error value.\<close>

definition failIf :: "bool \<Rightarrow> 'e \<Rightarrow> 'e option" where
  "failIf b e = (if b then Some e else None)"

text \<open>\<^verbatim>\<open>x, err := r; if err != nil { return err }; return f(x)\<close>.\<close>

definition bindR :: "'e + 'a \<Rightarrow> ('a \<Rightarrow> 'e + 'b) \<Rightarrow> 'e + 'b" where
  "bindR r f = (case r of Inl e \<Rightarrow> Inl e | Inr x \<Rightarrow> f x)"

text \<open>\<^verbatim>\<open>if err := e; err != nil { return err }\<close> before a result.\<close>

definition guardR :: "'e option \<Rightarrow> 'e + 'a \<Rightarrow> 'e + 'a" where
  "guardR e r = (case e of Some x \<Rightarrow> Inl x | None \<Rightarrow> r)"

text \<open>A loop that appends each converted element and stops at the first error.\<close>

fun traverseR :: "('a \<Rightarrow> 'e + 'b) \<Rightarrow> 'a list \<Rightarrow> 'e + 'b list" where
  "traverseR f [] = Inr []"
| "traverseR f (x # xs) =
     (case f x of Inl e \<Rightarrow> Inl e
      | Inr y \<Rightarrow> (case traverseR f xs of Inl e \<Rightarrow> Inl e | Inr ys \<Rightarrow> Inr (y # ys)))"

lemma firstError_None [simp, go_result]:
  "firstError f xs = None \<longleftrightarrow> (\<forall>x\<in>set xs. f x = None)"
  by (induction xs) (auto split: option.splits)

lemma firstError_Some_in: "firstError f xs = Some e \<Longrightarrow> \<exists>x\<in>set xs. f x = Some e"
  by (induction xs) (auto split: option.splits)

lemma orElse_None [simp, go_result]: "orElse a b = None \<longleftrightarrow> a = None \<and> b = None"
  by (auto simp: orElse_def split: option.splits)

lemma failIf_None [simp, go_result]: "failIf b e = None \<longleftrightarrow> \<not> b"
  by (simp add: failIf_def)

lemma failIf_Some [simp]: "failIf b e = Some e' \<longleftrightarrow> b \<and> e' = e"
  by (auto simp: failIf_def)

lemma bindR_Inr [simp, go_result]: "bindR r f = Inr y \<longleftrightarrow> (\<exists>x. r = Inr x \<and> f x = Inr y)"
  by (cases r) (auto simp: bindR_def)

lemma guardR_Inr [simp, go_result]: "guardR e r = Inr y \<longleftrightarrow> e = None \<and> r = Inr y"
  by (cases e) (auto simp: guardR_def)

lemma traverseR_Inr:
  "traverseR f xs = Inr ys \<longleftrightarrow> list_all2 (\<lambda>x y. f x = Inr y) xs ys"
proof (induction xs arbitrary: ys)
  case (Cons x xs)
  show ?case
  proof (cases "f x")
    case (Inr y)
    then show ?thesis
      by (cases "traverseR f xs") (auto simp: list_all2_Cons1 Cons.IH[symmetric])
  qed (auto simp: list_all2_Cons1)
qed auto

lemma traverseR_in:
  "traverseR f xs = Inr ys \<Longrightarrow> y \<in> set ys \<Longrightarrow> \<exists>x\<in>set xs. f x = Inr y"
  by (induction xs arbitrary: ys) (auto split: sum.splits)

lemma list_all_in: "list_all P xs \<Longrightarrow> x \<in> set xs \<Longrightarrow> P x"
  by (simp add: list_all_iff)

lemma list_all_entry: "list_all (\<lambda>(k, v). P k v) m \<Longrightarrow> (k, v) \<in> set m \<Longrightarrow> P k v"
  by (auto simp: list_all_iff)

section \<open>Go maps as association lists\<close>

text \<open>\<^verbatim>\<open>m[k]\<close> on a map of slices: the nil slice where the key is missing.\<close>

definition sliceAt :: "'a list gomap \<Rightarrow> string \<Rightarrow> 'a list" where
  "sliceAt m k = (case map_of m k of Some v \<Rightarrow> v | None \<Rightarrow> [])"

text \<open>\<^verbatim>\<open>m[k]\<close> on a map of strings: the empty string where the key is missing.\<close>

definition stringAt :: "string gomap \<Rightarrow> string \<Rightarrow> string" where
  "stringAt m k = (case map_of m k of Some v \<Rightarrow> v | None \<Rightarrow> [])"

definition hasKey :: "'a gomap \<Rightarrow> string \<Rightarrow> bool" where
  "hasKey m k = (map_of m k \<noteq> None)"

text \<open>A list is a Go map when no key is bound twice.\<close>

definition isMap :: "'a gomap \<Rightarrow> bool" where
  "isMap m = distinct (map fst m)"

text \<open>\<^verbatim>\<open>m[k] = v\<close>.\<close>

fun mapSet :: "string \<Rightarrow> 'a \<Rightarrow> 'a gomap \<Rightarrow> 'a gomap" where
  "mapSet k v [] = [(k, v)]"
| "mapSet k v ((k', v') # m) = (if k' = k then (k, v) # m else (k', v') # mapSet k v m)"

lemma hasKey_iff [go_map]: "hasKey m k \<longleftrightarrow> k \<in> fst ` set m"
  by (simp add: hasKey_def map_of_eq_None_iff)

lemma isMap_lookup [go_map]: "isMap m \<Longrightarrow> (k, v) \<in> set m \<longleftrightarrow> map_of m k = Some v"
  by (auto simp: isMap_def)

lemma sliceAt_entry: "isMap m \<Longrightarrow> (k, v) \<in> set m \<Longrightarrow> sliceAt m k = v"
  by (simp add: sliceAt_def isMap_lookup)

lemma mapSet_lookup [simp, go_map]: "map_of (mapSet k v m) = (map_of m)(k \<mapsto> v)"
  by (induction k v m rule: mapSet.induct) (auto simp: fun_eq_iff)

lemma mapSet_keys: "fst ` set (mapSet k v m) = insert k (fst ` set m)"
  by (induction k v m rule: mapSet.induct) auto

lemma mapSet_isMap [simp]: "isMap m \<Longrightarrow> isMap (mapSet k v m)"
  unfolding isMap_def
proof (induction k v m rule: mapSet.induct)
  case (2 k v k' v' m)
  have "k' \<noteq> k \<Longrightarrow> k' \<notin> fst ` set m \<Longrightarrow> k' \<notin> fst ` set (mapSet k v m)"
    by (simp add: mapSet_keys)
  then show ?case using 2 by auto
qed simp

text \<open>
  Two iteration orders of the same Go map: the same entries, no key twice. A universally
  quantified scan over the entries cannot tell them apart.
\<close>

definition sameMap :: "'a gomap \<Rightarrow> 'a gomap \<Rightarrow> bool" where
  "sameMap m m' \<longleftrightarrow> isMap m \<and> isMap m' \<and> set m = set m'"

lemma sameMap_lookup: "sameMap m m' \<Longrightarrow> map_of m = map_of m'"
  by (auto simp: sameMap_def isMap_def intro!: map_of_inject_set[THEN iffD2])

lemma sameMap_sliceAt: "sameMap m m' \<Longrightarrow> sliceAt m = sliceAt m'"
  by (simp add: fun_eq_iff sliceAt_def sameMap_lookup)

lemma sameMap_length: "sameMap m m' \<Longrightarrow> length m = length m'"
  by (metis distinct_card distinct_map isMap_def sameMap_def)

end
