(* ===== verification/GoStrings.thy ===== *)
theory GoStrings
  imports GoPrelude
begin

text \<open>
  Go strings as byte lists: UTF-8 decoding (\<^verbatim>\<open>unicode/utf8\<close>), the functions of \<^verbatim>\<open>strings\<close>,
  \<^verbatim>\<open>slices\<close> and \<^verbatim>\<open>strconv\<close> that the authorization packages call, and the lemmas on splitting,
  trimming and sorting that the components use.
\<close>

definition byte :: "char \<Rightarrow> nat" where
  "byte c = of_char c"

section \<open>UTF-8\<close>

definition runeError :: nat where
  "runeError = 65533"

definition contByte :: "nat \<Rightarrow> bool" where
  "contByte b = (128 \<le> b \<and> b \<le> 191)"

text \<open>The bytes a second byte may have after a three- or four-byte lead byte.\<close>

definition secondOk :: "nat \<Rightarrow> nat \<Rightarrow> bool" where
  "secondOk b0 b1 =
     (if b0 = 224 then 160 \<le> b1 \<and> b1 \<le> 191
      else if b0 = 237 then 128 \<le> b1 \<and> b1 \<le> 159
      else if b0 = 240 then 144 \<le> b1 \<and> b1 \<le> 191
      else if b0 = 244 then 128 \<le> b1 \<and> b1 \<le> 143
      else contByte b1)"

text \<open>\<^verbatim>\<open>utf8.DecodeRuneInString\<close>: the code point and its width; \<open>(runeError, 1)\<close> on bad bytes.\<close>

definition decodeRune :: "string \<Rightarrow> nat \<times> nat" where
  "decodeRune s =
     (case s of
        [] \<Rightarrow> (runeError, 0)
      | c0 # t \<Rightarrow>
          (let b0 = byte c0 in
           if b0 < 128 then (b0, 1)
           else if 194 \<le> b0 \<and> b0 \<le> 223 then
             (case t of c1 # _ \<Rightarrow>
                 if contByte (byte c1) then ((b0 - 192) * 64 + (byte c1 - 128), 2)
                 else (runeError, 1)
              | [] \<Rightarrow> (runeError, 1))
           else if 224 \<le> b0 \<and> b0 \<le> 239 then
             (case t of c1 # c2 # _ \<Rightarrow>
                 if secondOk b0 (byte c1) \<and> contByte (byte c2)
                 then ((b0 - 224) * 4096 + (byte c1 - 128) * 64 + (byte c2 - 128), 3)
                 else (runeError, 1)
              | _ \<Rightarrow> (runeError, 1))
           else if 240 \<le> b0 \<and> b0 \<le> 244 then
             (case t of c1 # c2 # c3 # _ \<Rightarrow>
                 if secondOk b0 (byte c1) \<and> contByte (byte c2) \<and> contByte (byte c3)
                 then ((b0 - 240) * 262144 + (byte c1 - 128) * 4096 + (byte c2 - 128) * 64
                        + (byte c3 - 128), 4)
                 else (runeError, 1)
              | _ \<Rightarrow> (runeError, 1))
           else (runeError, 1)))"

definition runeWidth :: "string \<Rightarrow> nat" where
  "runeWidth s = snd (decodeRune s)"

lemma runeWidth_pos [simp]: "s \<noteq> [] \<Longrightarrow> 0 < runeWidth s"
  by (auto simp: runeWidth_def decodeRune_def Let_def split: list.splits)

lemma runeWidth_le [simp]: "runeWidth s \<le> length s"
  by (auto simp: runeWidth_def decodeRune_def Let_def split: list.splits)

lemma runeWidth_ascii: "byte c < 128 \<Longrightarrow> runeWidth (c # s) = 1"
  by (simp add: runeWidth_def decodeRune_def)

text \<open>\<^verbatim>\<open>utf8.ValidString\<close>.\<close>

function validUTF8 :: "string \<Rightarrow> bool" where
  "validUTF8 s =
     (if s = [] then True
      else decodeRune s \<noteq> (runeError, 1) \<and> validUTF8 (drop (runeWidth s) s))"
  by pat_completeness auto
termination
  by (relation "measure length") auto

declare validUTF8.simps [simp del]

lemma validUTF8_Nil [simp]: "validUTF8 []"
  by (subst validUTF8.simps) simp

lemma validUTF8_step:
  "s \<noteq> [] \<Longrightarrow> validUTF8 s \<Longrightarrow> decodeRune s \<noteq> (runeError, 1) \<and> validUTF8 (drop (runeWidth s) s)"
  by (subst (asm) validUTF8.simps) simp

text \<open>
  The bytes \<^verbatim>\<open>WriteRune\<close> writes for the code point a \<^verbatim>\<open>for range\<close> loop decodes at the head of
  \<open>s\<close>: the decoded bytes themselves, or the encoding of U+FFFD for a bad byte.
\<close>

definition runeBytes :: "string \<Rightarrow> string" where
  "runeBytes s =
     (if decodeRune s = (runeError, 1) then [CHR 0xEF, CHR 0xBF, CHR 0xBD]
      else take (runeWidth s) s)"

lemma runeBytes_valid: "decodeRune s \<noteq> (runeError, 1) \<Longrightarrow> runeBytes s = take (runeWidth s) s"
  by (simp add: runeBytes_def)

text \<open>A continuation or lead byte of a longer rune is never an ASCII byte.\<close>

lemma wideRune_head:
  "decodeRune (c # s) \<noteq> (runeError, 1) \<Longrightarrow> runeWidth (c # s) \<noteq> 1 \<Longrightarrow> \<not> byte c < 128"
  by (auto simp: runeWidth_def decodeRune_def)

lemma wideRune_bytes:
  assumes "decodeRune (c # s) \<noteq> (runeError, 1)" and "\<not> byte c < 128"
    and "x \<in> set (take (runeWidth (c # s)) (c # s))"
  shows "\<not> byte x < 128"
  using assms
  by (auto simp: runeWidth_def decodeRune_def Let_def contByte_def secondOk_def
      split: if_splits list.splits)

lemma validRune_narrow:
  assumes "decodeRune (c # s) \<noteq> (runeError, 1)"
  shows "runeWidth (c # s) = 1 \<longleftrightarrow> byte c < 128"
  using assms
  by (auto simp: runeWidth_def decodeRune_def Let_def split: if_splits list.splits)

lemma validUTF8_ascii: "list_all (\<lambda>c. byte c < 128) s \<Longrightarrow> validUTF8 s"
proof (induction s)
  case (Cons c s)
  then show ?case
    by (subst validUTF8.simps) (auto simp: runeWidth_ascii decodeRune_def runeError_def)
qed simp

section \<open>The strings package\<close>

text \<open>The UTF-8 encodings of the code points for which \<^verbatim>\<open>unicode.IsSpace\<close> holds.\<close>

definition spaceRunes :: "string list" where
  "spaceRunes =
     [[CHR 0x09], [CHR 0x0A], [CHR 0x0B], [CHR 0x0C], [CHR 0x0D], [CHR 0x20],
      [CHR 0xC2, CHR 0x85], [CHR 0xC2, CHR 0xA0], [CHR 0xE1, CHR 0x9A, CHR 0x80],
      [CHR 0xE2, CHR 0x80, CHR 0x80], [CHR 0xE2, CHR 0x80, CHR 0x81], [CHR 0xE2, CHR 0x80, CHR 0x82],
      [CHR 0xE2, CHR 0x80, CHR 0x83], [CHR 0xE2, CHR 0x80, CHR 0x84], [CHR 0xE2, CHR 0x80, CHR 0x85],
      [CHR 0xE2, CHR 0x80, CHR 0x86], [CHR 0xE2, CHR 0x80, CHR 0x87], [CHR 0xE2, CHR 0x80, CHR 0x88],
      [CHR 0xE2, CHR 0x80, CHR 0x89], [CHR 0xE2, CHR 0x80, CHR 0x8A], [CHR 0xE2, CHR 0x80, CHR 0xA8],
      [CHR 0xE2, CHR 0x80, CHR 0xA9], [CHR 0xE2, CHR 0x80, CHR 0xAF], [CHR 0xE2, CHR 0x81, CHR 0x9F],
      [CHR 0xE3, CHR 0x80, CHR 0x80]]"

text \<open>Removes every leading word of \<open>ws\<close>, as long as there is one; empty words do not count.\<close>

function stripLeading :: "string list \<Rightarrow> string \<Rightarrow> string" where
  "stripLeading ws s =
     (case List.find (\<lambda>w. w \<noteq> [] \<and> prefix w s) ws of
        None \<Rightarrow> s
      | Some w \<Rightarrow> stripLeading ws (drop (length w) s))"
  by pat_completeness auto
termination
  by (relation "measure (\<lambda>(ws, s). length s)") (auto simp: find_Some_iff prefix_def)

declare stripLeading.simps [simp del]

text \<open>\<^verbatim>\<open>strings.TrimSpace\<close>.\<close>

definition trimSpace :: "string \<Rightarrow> string" where
  "trimSpace s = rev (stripLeading (map rev spaceRunes) (rev (stripLeading spaceRunes s)))"

definition blank :: "string \<Rightarrow> bool" where
  "blank s = (trimSpace s = [])"

lemma stripLeading_suffix: "suffix (stripLeading ws s) s"
proof (induction ws s rule: stripLeading.induct)
  case (1 ws s)
  show ?case
  proof (cases "List.find (\<lambda>w. w \<noteq> [] \<and> prefix w s) ws")
    case None
    then show ?thesis by (subst stripLeading.simps) simp
  next
    case (Some w)
    then have "suffix (stripLeading ws (drop (length w) s)) (drop (length w) s)"
      by (rule "1.IH")
    then show ?thesis
      using Some by (subst stripLeading.simps) (auto intro: suffix_order.trans suffix_drop)
  qed
qed

lemma stripLeading_Nil [simp]: "stripLeading ws [] = []"
  using stripLeading_suffix[of ws "[]"] by simp

lemma trimSpace_Nil [simp]: "trimSpace [] = []"
  by (simp add: trimSpace_def)

lemma blank_Nil [simp]: "blank []"
  by (simp add: blank_def)

lemma trimSpace_sublist: "sublist (trimSpace s) s"
proof -
  have "suffix (rev (trimSpace s)) (rev (stripLeading spaceRunes s))"
    by (simp add: trimSpace_def stripLeading_suffix)
  then have "prefix (trimSpace s) (stripLeading spaceRunes s)"
    by (simp add: suffix_to_prefix)
  then show ?thesis
    using stripLeading_suffix[of spaceRunes s]
    by (metis prefix_imp_sublist sublist_order.order_trans suffix_imp_sublist)
qed

lemma stripLeading_done:
  "List.find (\<lambda>w. w \<noteq> [] \<and> prefix w (stripLeading ws s)) ws = None"
proof (induction ws s rule: stripLeading.induct)
  case (1 ws s)
  show ?case
  proof (cases "List.find (\<lambda>w. w \<noteq> [] \<and> prefix w s) ws")
    case None
    then show ?thesis by (subst stripLeading.simps) simp
  next
    case (Some w)
    then show ?thesis using "1.IH"[OF Some] by (subst stripLeading.simps) simp
  qed
qed

lemma stripLeading_fixed:
  "(\<And>w. w \<in> set ws \<Longrightarrow> w \<noteq> [] \<Longrightarrow> \<not> prefix w s) \<Longrightarrow> stripLeading ws s = s"
  by (subst stripLeading.simps) (auto simp: find_None_iff split: option.splits dest: find_Some_iff[THEN iffD1])

lemma trimSpace_idem [simp]: "trimSpace (trimSpace s) = trimSpace s"
proof -
  let ?a = "stripLeading spaceRunes s"
  let ?b = "stripLeading (map rev spaceRunes) (rev ?a)"
  have t: "trimSpace s = rev ?b"
    by (simp add: trimSpace_def)
  have "prefix (rev ?b) ?a"
    using stripLeading_suffix[of "map rev spaceRunes" "rev ?a"] by (simp add: suffix_to_prefix)
  then have "\<not> prefix w (rev ?b)" if "w \<in> set spaceRunes" "w \<noteq> []" for w
    using stripLeading_done[of spaceRunes s] that prefix_order.trans by (auto simp: find_None_iff)
  then have front: "stripLeading spaceRunes (rev ?b) = rev ?b"
    by (rule stripLeading_fixed)
  have "stripLeading (map rev spaceRunes) ?b = ?b"
    using stripLeading_done[of "map rev spaceRunes" "rev ?a"] by (intro stripLeading_fixed) (auto simp: find_None_iff)
  then show ?thesis
    unfolding t trimSpace_def front by simp
qed

text \<open>\<^verbatim>\<open>strings.Split\<close> at one byte.\<close>

fun splitOn :: "char \<Rightarrow> string \<Rightarrow> string list" where
  "splitOn c [] = [[]]"
| "splitOn c (x # xs) =
     (if x = c then [] # splitOn c xs
      else (case splitOn c xs of [] \<Rightarrow> [[x]] | p # ps \<Rightarrow> (x # p) # ps))"

fun joinWith :: "char \<Rightarrow> string list \<Rightarrow> string" where
  "joinWith c [] = []"
| "joinWith c [p] = p"
| "joinWith c (p # q # ps) = p @ c # joinWith c (q # ps)"

lemma splitOn_nonempty [simp]: "splitOn c s \<noteq> []"
  by (induction s) (auto split: list.splits)

lemma joinWith_Cons: "ps \<noteq> [] \<Longrightarrow> joinWith c (p # ps) = p @ c # joinWith c ps"
  by (cases ps) auto

lemma join_split [simp]: "joinWith c (splitOn c s) = s"
proof (induction s)
  case (Cons x xs)
  show ?case
  proof (cases "splitOn c xs")
    case (Cons p ps)
    then show ?thesis using Cons.IH by (cases ps) (auto simp: joinWith_Cons)
  qed simp
qed simp

lemma splitOn_no_sep: "p \<in> set (splitOn c s) \<Longrightarrow> c \<notin> set p"
  by (induction s arbitrary: p) (auto split: list.splits if_splits)

lemma splitOn_append: "c \<notin> set p \<Longrightarrow> splitOn c (p @ c # r) = p # splitOn c r"
  by (induction p) auto

lemma splitOn_single: "c \<notin> set p \<Longrightarrow> splitOn c p = [p]"
  by (induction p) auto

lemma split_join:
  "ps \<noteq> [] \<Longrightarrow> \<forall>p\<in>set ps. c \<notin> set p \<Longrightarrow> splitOn c (joinWith c ps) = ps"
  by (induction c ps rule: joinWith.induct) (auto simp: splitOn_append splitOn_single)

lemma splitOn_eq_iff [simp]: "splitOn c s = splitOn c t \<longleftrightarrow> s = t"
  by (metis join_split)

text \<open>\<^verbatim>\<open>strings.Contains\<close>, \<^verbatim>\<open>strings.ContainsAny\<close> (ASCII sets), \<^verbatim>\<open>strings.Count\<close> of one byte.\<close>

fun containsSub :: "string \<Rightarrow> string \<Rightarrow> bool" where
  "containsSub w [] = (w = [])"
| "containsSub w (x # xs) = (prefix w (x # xs) \<or> containsSub w xs)"

definition containsAny :: "string \<Rightarrow> string \<Rightarrow> bool" where
  "containsAny s cs = list_ex (\<lambda>c. c \<in> set cs) s"

definition countByte :: "char \<Rightarrow> string \<Rightarrow> nat" where
  "countByte c s = length (filter (\<lambda>x. x = c) s)"

text \<open>\<^verbatim>\<open>strings.TrimSuffix\<close> and \<^verbatim>\<open>strings.HasSuffix\<close>.\<close>

definition hasSuffix :: "string \<Rightarrow> string \<Rightarrow> bool" where
  "hasSuffix s w = suffix w s"

definition trimSuffix :: "string \<Rightarrow> string \<Rightarrow> string" where
  "trimSuffix s w = (if suffix w s then take (length s - length w) s else s)"

lemma containsSub_sublist: "containsSub w s \<longleftrightarrow> sublist w s"
  by (induction s) (auto simp: sublist_Cons_right)

section \<open>Sorting and comparing slices\<close>

text \<open>\<^verbatim>\<open>slices.Compact\<close>: drops an element equal to its predecessor.\<close>

fun compact :: "'a list \<Rightarrow> 'a list" where
  "compact [] = []"
| "compact [x] = [x]"
| "compact (x # y # xs) = (if x = y then compact (y # xs) else x # compact (y # xs))"

lemma set_compact [simp]: "set (compact xs) = set xs"
  by (induction xs rule: compact.induct) auto

lemma compact_hd: "compact (x # xs) = x # tl (compact (x # xs))"
proof (induction xs arbitrary: x)
  case (Cons y ys)
  then show ?case by (cases "x = y") auto
qed simp

lemma compact_eq_remdups_adj: "compact xs = remdups_adj xs"
  by (induction xs rule: compact.induct) (auto split: list.splits)

lemma compact_sorted: "sorted xs \<Longrightarrow> sorted (compact xs) \<and> distinct (compact xs)"
proof (induction xs rule: compact.induct)
  case (3 x y xs)
  then have ih: "sorted (compact (y # xs)) \<and> distinct (compact (y # xs))"
    by (cases "x = y") simp_all
  show ?case
  proof (cases "x = y")
    case False
    with 3 have "\<forall>z\<in>set (y # xs). x < z"
      by (auto simp: order.strict_iff_order dest: order.antisym)
    then have "\<forall>z\<in>set (compact (y # xs)). x < z"
      by (simp only: set_compact)
    then show ?thesis
      using False ih by (auto intro: less_imp_le)
  qed (use ih in simp)
qed simp_all

lemma compact_sort_canonical: "compact (sort xs) = sorted_list_of_set (set xs)"
  using compact_sorted[of "sort xs"]
  by (metis set_compact set_sort sorted_list_of_set.idem_if_sorted_distinct sorted_sort)

section \<open>The strconv package\<close>

definition isDigit :: "char \<Rightarrow> bool" where
  "isDigit c = (48 \<le> byte c \<and> byte c \<le> 57)"

fun digitsValue :: "nat \<Rightarrow> string \<Rightarrow> nat" where
  "digitsValue acc [] = acc"
| "digitsValue acc (c # cs) = digitsValue (acc * 10 + (byte c - 48)) cs"

text \<open>\<^verbatim>\<open>strconv.ParseInt(s, 10, 64)\<close>: \<open>None\<close> on bad syntax and out of range.\<close>

definition parseInt64 :: "string \<Rightarrow> int option" where
  "parseInt64 s =
     (let neg = (case s of c # _ \<Rightarrow> c = CHR ''-'' | [] \<Rightarrow> False);
          ds = (case s of c # cs \<Rightarrow> if c = CHR ''+'' \<or> c = CHR ''-'' then cs else s | [] \<Rightarrow> []);
          v = digitsValue 0 ds
      in if ds = [] \<or> \<not> list_all isDigit ds then None
         else if neg then (if v \<le> 2 ^ 63 then Some (- int v) else None)
         else if v < 2 ^ 63 then Some (int v) else None)"

lemma parseInt64_range: "parseInt64 s = Some v \<Longrightarrow> - (2 ^ 63) \<le> v \<and> v < 2 ^ 63"
  by (auto simp: parseInt64_def Let_def split: if_splits)

text \<open>64-bit wrap-around of a Go \<^verbatim>\<open>int64\<close> (also \<^verbatim>\<open>int\<close> and \<^verbatim>\<open>time.Duration\<close>) result.\<close>

definition wrap64 :: "int \<Rightarrow> int" where
  "wrap64 v = (v + 2 ^ 63) mod 2 ^ 64 - 2 ^ 63"

lemma wrap64_id: "- (2 ^ 63) \<le> v \<Longrightarrow> v < 2 ^ 63 \<Longrightarrow> wrap64 v = v"
  by (simp add: wrap64_def)

lemma wrap64_range: "- (2 ^ 63) \<le> wrap64 v \<and> wrap64 v < 2 ^ 63"
  by (simp add: wrap64_def)

text \<open>\<^verbatim>\<open>strconv.Itoa\<close> on the non-negative numbers, and that parsing reads it back.\<close>

definition digitChar :: "nat \<Rightarrow> char" where
  "digitChar d = char_of (48 + d)"

fun itoaNat :: "nat \<Rightarrow> string" where
  "itoaNat n = (if n < 10 then [digitChar n] else itoaNat (n div 10) @ [digitChar (n mod 10)])"

declare itoaNat.simps [simp del]

lemma byte_digitChar: "d < 10 \<Longrightarrow> byte (digitChar d) = 48 + d"
  by (simp add: byte_def digitChar_def)

lemma digitsValue_append: "digitsValue a (xs @ ys) = digitsValue (digitsValue a xs) ys"
  by (induction xs arbitrary: a) auto

lemma digitsValue_itoa: "digitsValue 0 (itoaNat n) = n"
proof (induction n rule: itoaNat.induct)
  case (1 n)
  show ?case
  proof (cases "n < 10")
    case True
    then show ?thesis by (simp add: itoaNat.simps[of n] byte_digitChar)
  next
    case False
    with 1 have "digitsValue 0 (itoaNat (n div 10)) = n div 10" by simp
    with False show ?thesis
      by (simp add: itoaNat.simps[of n] digitsValue_append byte_digitChar)
  qed
qed

lemma itoa_digits: "list_all isDigit (itoaNat n)"
proof (induction n rule: itoaNat.induct)
  case (1 n)
  then show ?case
    by (cases "n < 10") (auto simp: itoaNat.simps[of n] isDigit_def byte_digitChar)
qed

lemma itoa_nonempty: "itoaNat n \<noteq> []"
  by (subst itoaNat.simps) simp

lemma itoa_no_leading_zero: "0 < n \<Longrightarrow> byte (hd (itoaNat n)) \<noteq> 48"
proof (induction n rule: itoaNat.induct)
  case (1 n)
  show ?case
  proof (cases "n < 10")
    case True
    then show ?thesis using 1 by (simp add: itoaNat.simps[of n] byte_digitChar)
  next
    case False
    then show ?thesis using 1 itoa_nonempty[of "n div 10"] by (simp add: itoaNat.simps[of n])
  qed
qed

lemma itoa_head_sign: "hd (itoaNat n) \<noteq> CHR ''-'' \<and> hd (itoaNat n) \<noteq> CHR ''+''"
proof -
  have "isDigit (hd (itoaNat n))"
    using itoa_digits[of n] itoa_nonempty[of n] by (cases "itoaNat n") auto
  then show ?thesis by (auto simp: isDigit_def byte_def)
qed

lemma parseInt64_itoa: "n < 2 ^ 63 \<Longrightarrow> parseInt64 (itoaNat n) = Some (int n)"
  using itoa_digits[of n] itoa_nonempty[of n] itoa_head_sign[of n] digitsValue_itoa[of n]
  by (cases "itoaNat n") (auto simp: parseInt64_def Let_def)

end
