(* ===== verification/UseBudget.thy ===== *)
theory UseBudget
  imports GoStrings
begin

text \<open>
  \<^verbatim>\<open>authorization/budget/limit.go\<close>: the use budget of a grant, a positive count or unlimited
  (the value 0), its JSON form, and the contract a client of the budget relies on: a
  reservation that the budget allows, and a commit of a reservation, stay within it.
\<close>

section \<open>Limit\<close>

type_synonym Limit = int

definition Unlimited :: Limit where "Unlimited = 0"
definition SingleUse :: Limit where "SingleUse = 1"
definition MaxFiniteUses :: Limit where "MaxFiniteUses = 1000000"

definition IsUnlimited :: "Limit \<Rightarrow> bool" where
  "IsUnlimited l = (l = Unlimited)"

definition IsFinite :: "Limit \<Rightarrow> bool" where
  "IsFinite l = (l > Unlimited)"

definition Allows :: "Limit \<Rightarrow> int \<Rightarrow> int \<Rightarrow> bool" where
  "Allows l used reserved = (IsUnlimited l \<or> used + reserved < l)"

definition Exhausted :: "Limit \<Rightarrow> int \<Rightarrow> bool" where
  "Exhausted l used = (IsFinite l \<and> used \<ge> l)"

definition Remaining :: "Limit \<Rightarrow> int \<Rightarrow> int \<Rightarrow> int \<times> bool" where
  "Remaining l used reserved =
     (if IsUnlimited l then (0, False) else (max (l - used - reserved) 0, True))"

lemmas limit_defs = Unlimited_def SingleUse_def MaxFiniteUses_def IsUnlimited_def IsFinite_def
  Allows_def Exhausted_def Remaining_def

section \<open>JSON form\<close>

datatype limitError = LimitSyntax | LimitRange

text \<open>\<^verbatim>\<open>json.Unmarshal\<close> of one integer literal: JSON white space around a JSON integer.\<close>

definition jsonSpaces :: "string list" where
  "jsonSpaces = [[CHR 0x20], [CHR 0x09], [CHR 0x0D], [CHR 0x0A]]"

definition jsonTrim :: "string \<Rightarrow> string" where
  "jsonTrim s = rev (stripLeading jsonSpaces (rev (stripLeading jsonSpaces s)))"

definition jsonIntLiteral :: "string \<Rightarrow> bool" where
  "jsonIntLiteral s =
     (let ds = (case s of c # cs \<Rightarrow> if c = CHR ''-'' then cs else s | [] \<Rightarrow> [])
      in ds \<noteq> [] \<and> list_all isDigit ds \<and> (length ds = 1 \<or> hd ds \<noteq> CHR ''0''))"

definition jsonInt :: "string \<Rightarrow> int option" where
  "jsonInt s = (if jsonIntLiteral (jsonTrim s) then parseInt64 (jsonTrim s) else None)"

definition Limit_MarshalJSON :: "Limit \<Rightarrow> string" where
  "Limit_MarshalJSON l =
     (if IsUnlimited l then ''null''
      else if l < 0 then CHR ''-'' # itoaNat (nat (- l)) else itoaNat (nat l))"

definition Limit_UnmarshalJSON :: "string \<Rightarrow> limitError + Limit" where
  "Limit_UnmarshalJSON s =
     (if trimSpace s = ''null'' then Inr Unlimited
      else (case jsonInt s of
              None \<Rightarrow> Inl LimitSyntax
            | Some v \<Rightarrow>
                if v < SingleUse \<or> v > MaxFiniteUses then Inl LimitRange else Inr v))"

record OptionalLimit =
  ol_Limit :: Limit
  ol_Specified :: bool

definition Finite :: "int \<Rightarrow> OptionalLimit" where
  "Finite v = \<lparr>ol_Limit = v, ol_Specified = True\<rparr>"

definition NoLimit :: OptionalLimit where
  "NoLimit = \<lparr>ol_Limit = Unlimited, ol_Specified = True\<rparr>"

definition Optional_UnmarshalJSON :: "string \<Rightarrow> limitError + OptionalLimit" where
  "Optional_UnmarshalJSON s =
     (case Limit_UnmarshalJSON s of
        Inl e \<Rightarrow> Inl e
      | Inr l \<Rightarrow> Inr \<lparr>ol_Limit = l, ol_Specified = True\<rparr>)"

definition Optional_MarshalJSON :: "OptionalLimit \<Rightarrow> string" where
  "Optional_MarshalJSON o1 = Limit_MarshalJSON (ol_Limit o1)"

section \<open>The contract of a use budget\<close>

text \<open>
  What the grant store relies on. \<open>capacity\<close> is the abstract budget: \<open>None\<close> for no ceiling.
\<close>

locale use_budget =
  fixes capacity :: "'l \<Rightarrow> int option"
    and allows :: "'l \<Rightarrow> int \<Rightarrow> int \<Rightarrow> bool"
    and exhausted :: "'l \<Rightarrow> int \<Rightarrow> bool"
    and remaining :: "'l \<Rightarrow> int \<Rightarrow> int \<Rightarrow> int \<times> bool"
  assumes allows_spec: "allows l u r \<longleftrightarrow> (case capacity l of None \<Rightarrow> True | Some n \<Rightarrow> u + r < n)"
    and exhausted_spec: "exhausted l u \<longleftrightarrow> (case capacity l of None \<Rightarrow> False | Some n \<Rightarrow> 0 < n \<and> n \<le> u)"
    and remaining_spec:
      "remaining l u r = (case capacity l of None \<Rightarrow> (0, False) | Some n \<Rightarrow> (max (n - u - r) 0, True))"
begin

definition within :: "'l \<Rightarrow> int \<Rightarrow> int \<Rightarrow> bool" where
  "within l u r \<longleftrightarrow> (case capacity l of None \<Rightarrow> True | Some n \<Rightarrow> u + r \<le> n)"

lemma within_reserve: "allows l u r \<Longrightarrow> within l u (r + 1)"
  by (auto simp: within_def allows_spec split: option.splits)

lemma within_commit: "within l u (r + 1) \<Longrightarrow> within l (u + 1) r"
  by (auto simp: within_def split: option.splits)

lemma within_release: "within l u (r + 1) \<Longrightarrow> within l u r"
  by (auto simp: within_def split: option.splits)

lemma exhausted_blocks: "exhausted l u \<Longrightarrow> 0 \<le> r \<Longrightarrow> \<not> allows l u r"
  by (auto simp: exhausted_spec allows_spec split: option.splits)

lemma remaining_positive: "allows l u r \<longleftrightarrow> \<not> snd (remaining l u r) \<or> 0 < fst (remaining l u r)"
  by (auto simp: remaining_spec allows_spec split: option.splits)

end

definition limitCapacity :: "Limit \<Rightarrow> int option" where
  "limitCapacity l = (if IsUnlimited l then None else Some l)"

interpretation limit: use_budget limitCapacity Allows Exhausted Remaining
  by unfold_locales (auto simp: limitCapacity_def limit_defs)

lemma limit_within: "limit.within l u r \<longleftrightarrow> IsUnlimited l \<or> u + r \<le> l"
  by (simp add: limit.within_def limitCapacity_def)

section \<open>Round trip of the JSON form\<close>

lemma stripLeading_head: "s = [] \<or> (\<forall>w\<in>set ws. w = [] \<or> hd w \<noteq> hd s) \<Longrightarrow> stripLeading ws s = s"
  by (rule stripLeading_fixed) (auto simp: prefix_def)

lemma digit_not_space:
  "isDigit c \<Longrightarrow> w \<in> set spaceRunes \<or> w \<in> set (map rev spaceRunes) \<or> w \<in> set jsonSpaces \<Longrightarrow> hd w \<noteq> c"
  by (auto simp: spaceRunes_def jsonSpaces_def isDigit_def byte_def)

lemma digits_no_trim:
  assumes "list_all isDigit s"
  shows "jsonTrim s = s" "trimSpace s = s"
proof -
  have hdd: "isDigit (hd s)" "isDigit (hd (rev s))" if "s \<noteq> []"
    using assms that by (auto simp: list_all_iff hd_rev)
  have fixed: "stripLeading ws s = s \<and> stripLeading ws (rev s) = rev s"
    if "\<And>w c. isDigit c \<Longrightarrow> w \<in> set ws \<Longrightarrow> hd w \<noteq> c" for ws
    using that hdd by (cases "s = []") (auto intro!: stripLeading_head)
  have "stripLeading jsonSpaces s = s" "stripLeading jsonSpaces (rev s) = rev s"
    "stripLeading spaceRunes s = s" "stripLeading (map rev spaceRunes) (rev s) = rev s"
    using fixed[of jsonSpaces] fixed[of spaceRunes] fixed[of "map rev spaceRunes"] digit_not_space
    by blast+
  then show "jsonTrim s = s" "trimSpace s = s"
    by (simp_all add: jsonTrim_def trimSpace_def)
qed

lemma itoa_json: "0 < n \<Longrightarrow> n < 2 ^ 63 \<Longrightarrow> jsonInt (itoaNat n) = Some (int n)"
proof -
  assume n: "0 < n" "n < 2 ^ 63"
  have "jsonIntLiteral (itoaNat n)"
    using itoa_digits[of n] itoa_nonempty[of n] itoa_head_sign[of n] itoa_no_leading_zero[OF n(1)]
    by (cases "itoaNat n") (auto simp: jsonIntLiteral_def Let_def byte_def)
  then show ?thesis
    using n by (simp add: jsonInt_def digits_no_trim itoa_digits parseInt64_itoa)
qed

lemma digits_not_null: "list_all isDigit s \<Longrightarrow> s \<noteq> ''null''"
  by (auto simp: isDigit_def byte_def)

lemma limit_json_null: "trimSpace ''null'' = ''null''"
proof -
  have "stripLeading spaceRunes ''null'' = ''null''"
    "stripLeading (map rev spaceRunes) (rev ''null'') = rev ''null''"
    by (rule stripLeading_head, simp add: spaceRunes_def)+
  then show ?thesis by (simp add: trimSpace_def)
qed

lemma Limit_UnmarshalJSON_range: "Limit_UnmarshalJSON s = Inr l \<Longrightarrow> 0 \<le> l \<and> l \<le> MaxFiniteUses"
  by (auto simp: Limit_UnmarshalJSON_def limit_defs split: if_splits option.splits)

section \<open>Property\<close>

text \<open>
  A use limit survives its JSON form: decoding what \<^verbatim>\<open>MarshalJSON\<close> writes gives the limit back exactly
  for the limits the package accepts (unlimited, or 1 up to the maximum); every other value is rejected.
\<close>

lemma Limit_json_roundtrip:
  "Limit_UnmarshalJSON (Limit_MarshalJSON l) = Inr l \<longleftrightarrow> 0 \<le> l \<and> l \<le> MaxFiniteUses"
proof
  assume "Limit_UnmarshalJSON (Limit_MarshalJSON l) = Inr l"
  then show "0 \<le> l \<and> l \<le> MaxFiniteUses" by (rule Limit_UnmarshalJSON_range)
next
  assume l: "0 \<le> l \<and> l \<le> MaxFiniteUses"
  show "Limit_UnmarshalJSON (Limit_MarshalJSON l) = Inr l"
  proof (cases "l = 0")
    case True
    then show ?thesis by (simp add: Limit_MarshalJSON_def Limit_UnmarshalJSON_def limit_defs limit_json_null)
  next
    case False
    then have m: "Limit_MarshalJSON l = itoaNat (nat l)" and n: "0 < nat l" "nat l < 2 ^ 63"
      using l by (auto simp: Limit_MarshalJSON_def limit_defs)
    have "trimSpace (itoaNat (nat l)) \<noteq> ''null''"
      using digits_no_trim(2)[OF itoa_digits] digits_not_null[OF itoa_digits] by simp
    then show ?thesis
      using l itoa_json[OF n] False by (simp add: m Limit_UnmarshalJSON_def limit_defs)
  qed
qed

end
