(* ===== verification/PolicyTypes.thy ===== *)
theory PolicyTypes
  imports UseBudget
begin

text \<open>
  \<^verbatim>\<open>authorization/policy/types.go\<close> and \<^verbatim>\<open>registry.go\<close>: the vocabulary of the policy engine, the
  provider registry and its validation, and the validation of a classified request against it.

  A Go string type with named constants (\<^verbatim>\<open>Effect\<close>, \<^verbatim>\<open>MatchMode\<close>, ...) is a datatype with one
  constructor per constant and one for any other text; \<^verbatim>\<open>""\<close> is its own constructor where the
  code gives it a default. Error texts are constructors of \<open>policyError\<close> with the values the
  text quotes.
\<close>

section \<open>types.go\<close>

datatype Effect = EffectAllow | EffectRequest | EffectDeny | EffectNoMatch | EffectOther string

datatype CredentialUse =
  CredentialUseUnset | CredentialUseNone | CredentialUseManaged | CredentialUseOther string

datatype MatchMode =
  MatchUnset | MatchGlob | MatchAnyGlob | MatchPathGlob | MatchRecursivePathGlob
  | MatchPathOutsidePrefix | MatchIntegerMaximum | MatchOther string

datatype GrantMode = GrantModeUnset | GrantModeWindow | GrantModeExecution | GrantModeOther string

record Target =
  target_Kind :: string
  target_Fields :: "string list gomap"

record Request =
  req_Client :: string
  req_Operation :: string
  req_Target :: Target
  req_Attrs :: "string list gomap"

record TargetMatcher =
  tm_Kind :: string
  tm_Fields :: "string list gomap"

record GrantPolicy =
  gp_Mode :: GrantMode
  gp_DefaultMinutes :: int
  gp_MaxMinutes :: int
  gp_RequestTTLMinutes :: int
  gp_DefaultMaxUses :: Limit
  gp_MaxUses :: Limit

record Rule =
  rule_ID :: string
  rule_Effect :: Effect
  rule_Clients :: "string list"
  rule_Operations :: "string list"
  rule_Targets :: "TargetMatcher list"
  rule_Attrs :: "string list gomap"
  rule_CredentialUses :: "CredentialUse list"
  rule_GrantPolicy :: "GrantPolicy option"
  rule_Description :: string

text \<open>\<^verbatim>\<open>policy.Grant\<close>, an active generated allow rule.\<close>

record PolicyGrant =
  pg_ID :: string
  pg_Client :: string
  pg_Operation :: string
  pg_Target :: Target
  pg_Attrs :: "string list gomap"
  pg_ExpiresAt :: gotime
  pg_UsesLeft :: int
  pg_Unlimited :: bool

section \<open>registry.go: the provider registry\<close>

record OperationSpec =
  op_TargetKinds :: "string list"
  op_Attrs :: "string list"
  op_CredentialUses :: "CredentialUse list"
  op_Grantable :: bool
  op_GrantMode :: GrantMode
  op_GrantModes :: "GrantMode list"
  op_MaxGrantMinutes :: int
  op_MaxGrantUses :: Limit
  op_DisallowUnlimitedGrantUses :: bool

record FieldSpec =
  field_Required :: bool
  field_Match :: MatchMode

record TargetSpec =
  spec_Fields :: "FieldSpec gomap"

record AttrSpec =
  attr_Match :: MatchMode
  attr_GrantMatch :: MatchMode
  attr_GrantMayOmit :: bool

record Registry =
  reg_Operations :: "OperationSpec gomap"
  reg_Targets :: "TargetSpec gomap"
  reg_Attrs :: "AttrSpec gomap"

text \<open>The zero values that an index of a Go map yields for a missing key.\<close>

definition zeroOperationSpec :: OperationSpec where
  "zeroOperationSpec =
     \<lparr>op_TargetKinds = [], op_Attrs = [], op_CredentialUses = [], op_Grantable = False,
      op_GrantMode = GrantModeUnset, op_GrantModes = [], op_MaxGrantMinutes = 0,
      op_MaxGrantUses = 0, op_DisallowUnlimitedGrantUses = False\<rparr>"

definition opAt :: "Registry \<Rightarrow> string \<Rightarrow> OperationSpec" where
  "opAt r name = (case map_of (reg_Operations r) name of Some s \<Rightarrow> s | None \<Rightarrow> zeroOperationSpec)"

definition targetAt :: "Registry \<Rightarrow> string \<Rightarrow> TargetSpec" where
  "targetAt r kind =
     (case map_of (reg_Targets r) kind of Some s \<Rightarrow> s | None \<Rightarrow> \<lparr>spec_Fields = []\<rparr>)"

definition attrAt :: "Registry \<Rightarrow> string \<Rightarrow> AttrSpec" where
  "attrAt r name =
     (case map_of (reg_Attrs r) name of Some s \<Rightarrow> s
      | None \<Rightarrow> \<lparr>attr_Match = MatchUnset, attr_GrantMatch = MatchUnset, attr_GrantMayOmit = False\<rparr>)"

definition fieldAt :: "TargetSpec \<Rightarrow> string \<Rightarrow> FieldSpec" where
  "fieldAt s name =
     (case map_of (spec_Fields s) name of Some f \<Rightarrow> f
      | None \<Rightarrow> \<lparr>field_Required = False, field_Match = MatchUnset\<rparr>)"

datatype policyError =
    RegistryOperationsEmpty
  | RegistryTargetsEmpty
  | OperationNameRequired
  | OperationTargetKindsEmpty string
  | OperationUnknownTargetKind string string
  | OperationUnknownAttr string string
  | OperationUnsupportedCredentialUse string CredentialUse
  | OperationRepeatsCredentialUse string CredentialUse
  | NotGrantableSettings string
  | OperationUnsupportedGrantMode string GrantMode
  | OperationUnsupportedAllowedMode string GrantMode
  | OperationDefaultModeNotAllowed string
  | OperationMaxDuration string
  | OperationMaxUses string
  | OperationReusableExecution string
  | TargetKindRequired
  | TargetFieldNameRequired string
  | TargetFieldMatchMode string string MatchMode
  | AttrNameRequired
  | AttrMatchMode string MatchMode
  | AttrGrantMatchMode string MatchMode
  | UnknownOperation string
  | UnknownTargetKind string
  | OperationTargetKind string string
  | UnsupportedCredentialUse CredentialUse
  | OperationCredentialUse string CredentialUse
  | TargetRequiresField string string
  | TargetUnsupportedField string string
  | AtTargetField string string policyError
  | UnknownAttr string
  | OperationAttr string string
  | AtAttr string policyError
  | ValuesEmpty
  | ValueEmpty
  | ValueTooLong
  | ValueTooManySegments
  | ValueNotInteger

section \<open>registry.go: defaults and closed sets\<close>

definition defaultedMatchMode :: "MatchMode \<Rightarrow> MatchMode" where
  "defaultedMatchMode m = (if m = MatchUnset then MatchGlob else m)"

definition validMatchMode :: "MatchMode \<Rightarrow> bool" where
  "validMatchMode m =
     (m = MatchGlob \<or> m = MatchAnyGlob \<or> m = MatchPathGlob \<or> m = MatchRecursivePathGlob
      \<or> m = MatchPathOutsidePrefix \<or> m = MatchIntegerMaximum)"

definition defaultedGrantMode :: "GrantMode \<Rightarrow> GrantMode" where
  "defaultedGrantMode m = (if m = GrantModeUnset then GrantModeWindow else m)"

definition validGrantMode :: "GrantMode \<Rightarrow> bool" where
  "validGrantMode m = (m = GrantModeWindow \<or> m = GrantModeExecution)"

definition defaultedCredentialUse :: "CredentialUse \<Rightarrow> CredentialUse" where
  "defaultedCredentialUse u = (if u = CredentialUseUnset then CredentialUseManaged else u)"

definition validCredentialUse :: "CredentialUse \<Rightarrow> bool" where
  "validCredentialUse u = (u = CredentialUseNone \<or> u = CredentialUseManaged)"

definition SupportsCredentialUse :: "OperationSpec \<Rightarrow> CredentialUse \<Rightarrow> bool" where
  "SupportsCredentialUse op use0 =
     (let use = defaultedCredentialUse use0
      in if op_CredentialUses op = [] then use = CredentialUseManaged
         else use \<in> set (op_CredentialUses op))"

definition allowsGrantMode :: "OperationSpec \<Rightarrow> GrantMode \<Rightarrow> bool" where
  "allowsGrantMode op mode =
     (if op_GrantModes op = [] then defaultedGrantMode (op_GrantMode op) = mode
      else mode \<in> set (op_GrantModes op))"

definition AllowsGrantMode :: "OperationSpec \<Rightarrow> GrantMode \<Rightarrow> bool" where
  "AllowsGrantMode op mode = (op_Grantable op \<and> allowsGrantMode op mode)"

text \<open>\<^verbatim>\<open>Registry.Operation\<close>: the clone of its slices is the value itself.\<close>

definition Registry_Operation :: "Registry \<Rightarrow> string \<Rightarrow> OperationSpec option" where
  "Registry_Operation r name = map_of (reg_Operations r) name"

section \<open>registry.go: Registry.Validate\<close>

definition absoluteMaxGrantMinutes :: int where
  "absoluteMaxGrantMinutes = 7 * 24 * 60"

fun credentialUsesLoop :: "string \<Rightarrow> CredentialUse list \<Rightarrow> CredentialUse list \<Rightarrow> policyError option" where
  "credentialUsesLoop name seen [] = None"
| "credentialUsesLoop name seen (u # us) =
     (if \<not> validCredentialUse u then Some (OperationUnsupportedCredentialUse name u)
      else if u \<in> set seen then Some (OperationRepeatsCredentialUse name u)
      else credentialUsesLoop name (u # seen) us)"

definition validateOperationCredentialUses :: "string \<Rightarrow> CredentialUse list \<Rightarrow> policyError option" where
  "validateOperationCredentialUses name uses = credentialUsesLoop name [] uses"

definition validateNonGrantableOperationModes :: "string \<Rightarrow> OperationSpec \<Rightarrow> policyError option" where
  "validateNonGrantableOperationModes name op =
     failIf (op_GrantMode op \<noteq> GrantModeUnset \<or> op_GrantModes op \<noteq> [] \<or> op_MaxGrantMinutes op \<noteq> 0
             \<or> op_MaxGrantUses op \<noteq> 0 \<or> op_DisallowUnlimitedGrantUses op)
       (NotGrantableSettings name)"

definition validateOperationGrantDuration :: "string \<Rightarrow> int \<Rightarrow> policyError option" where
  "validateOperationGrantDuration name minutes =
     failIf (minutes < 0 \<or> minutes > absoluteMaxGrantMinutes) (OperationMaxDuration name)"

definition validateOperationGrantUses :: "string \<Rightarrow> Limit \<Rightarrow> policyError option" where
  "validateOperationGrantUses name uses =
     failIf (uses < 0 \<or> uses > MaxFiniteUses) (OperationMaxUses name)"

definition validateOperationGrantBounds :: "string \<Rightarrow> OperationSpec \<Rightarrow> policyError option" where
  "validateOperationGrantBounds name op =
     orElse (validateOperationGrantDuration name (op_MaxGrantMinutes op))
      (orElse (validateOperationGrantUses name (op_MaxGrantUses op))
        (failIf (defaultedGrantMode (op_GrantMode op) = GrantModeExecution \<and> op_MaxGrantUses op > 1)
           (OperationReusableExecution name)))"

definition validateAllowedGrantModes :: "string \<Rightarrow> OperationSpec \<Rightarrow> policyError option" where
  "validateAllowedGrantModes name op =
     orElse (firstError (\<lambda>m. failIf (\<not> validGrantMode m) (OperationUnsupportedAllowedMode name m))
              (op_GrantModes op))
       (failIf (op_GrantModes op \<noteq> [] \<and> defaultedGrantMode (op_GrantMode op) \<notin> set (op_GrantModes op))
          (OperationDefaultModeNotAllowed name))"

definition validateOperationGrantMode :: "string \<Rightarrow> OperationSpec \<Rightarrow> policyError option" where
  "validateOperationGrantMode name op =
     (if \<not> op_Grantable op then validateNonGrantableOperationModes name op
      else orElse (failIf (\<not> validGrantMode (defaultedGrantMode (op_GrantMode op)))
                     (OperationUnsupportedGrantMode name (op_GrantMode op)))
            (orElse (validateAllowedGrantModes name op) (validateOperationGrantBounds name op)))"

definition validateOperation :: "Registry \<Rightarrow> string \<Rightarrow> OperationSpec \<Rightarrow> policyError option" where
  "validateOperation r name op =
     orElse (failIf (op_TargetKinds op = []) (OperationTargetKindsEmpty name))
      (orElse (firstError (\<lambda>k. failIf (\<not> hasKey (reg_Targets r) k) (OperationUnknownTargetKind name k))
                 (op_TargetKinds op))
       (orElse (firstError (\<lambda>a. failIf (\<not> hasKey (reg_Attrs r) a) (OperationUnknownAttr name a))
                  (op_Attrs op))
        (orElse (validateOperationCredentialUses name (op_CredentialUses op))
           (validateOperationGrantMode name op))))"

definition validateOperations :: "Registry \<Rightarrow> policyError option" where
  "validateOperations r =
     firstError (\<lambda>(name, op). orElse (failIf (blank name) OperationNameRequired) (validateOperation r name op))
       (reg_Operations r)"

definition validateTargetSpecs :: "Registry \<Rightarrow> policyError option" where
  "validateTargetSpecs r =
     firstError (\<lambda>(kind, target).
        orElse (failIf (blank kind) TargetKindRequired)
          (firstError (\<lambda>(field, spec).
              orElse (failIf (blank field) (TargetFieldNameRequired kind))
                (failIf (\<not> validMatchMode (defaultedMatchMode (field_Match spec)))
                   (TargetFieldMatchMode kind field (field_Match spec))))
            (spec_Fields target)))
       (reg_Targets r)"

definition validateAttrSpecs :: "Registry \<Rightarrow> policyError option" where
  "validateAttrSpecs r =
     firstError (\<lambda>(attr, spec).
        orElse (failIf (blank attr) AttrNameRequired)
          (orElse (failIf (\<not> validMatchMode (defaultedMatchMode (attr_Match spec)))
                     (AttrMatchMode attr (attr_Match spec)))
             (failIf (attr_GrantMatch spec \<noteq> MatchUnset \<and> \<not> validMatchMode (attr_GrantMatch spec))
                (AttrGrantMatchMode attr (attr_GrantMatch spec)))))
       (reg_Attrs r)"

definition validateTargets :: "Registry \<Rightarrow> policyError option" where
  "validateTargets r = orElse (validateTargetSpecs r) (validateAttrSpecs r)"

definition Registry_validate :: "Registry \<Rightarrow> policyError option" where
  "Registry_validate r =
     orElse (failIf (reg_Operations r = []) RegistryOperationsEmpty)
      (orElse (failIf (reg_Targets r = []) RegistryTargetsEmpty)
        (orElse (validateOperations r) (validateTargets r)))"

section \<open>registry.go: ValidateRequest\<close>

definition maxPathPatternBytes :: nat where "maxPathPatternBytes = 1024"
definition maxPathValueBytes :: nat where "maxPathValueBytes = 4096"
definition maxPathSegments :: nat where "maxPathSegments = 256"

definition validatePathRequestValue :: "string \<Rightarrow> policyError option" where
  "validatePathRequestValue v =
     orElse (failIf (length v > maxPathValueBytes) ValueTooLong)
       (failIf (countByte (CHR ''/'') v \<ge> maxPathSegments) ValueTooManySegments)"

definition validateIntegerRequestValue :: "string \<Rightarrow> policyError option" where
  "validateIntegerRequestValue v =
     (case parseInt64 v of None \<Rightarrow> Some ValueNotInteger
      | Some n \<Rightarrow> failIf (n < 0) ValueNotInteger)"

definition validateRequestValue :: "string \<Rightarrow> MatchMode \<Rightarrow> policyError option" where
  "validateRequestValue v mode =
     (if blank v then Some ValueEmpty
      else (case defaultedMatchMode mode of
              MatchPathGlob \<Rightarrow> validatePathRequestValue v
            | MatchRecursivePathGlob \<Rightarrow> validatePathRequestValue v
            | MatchPathOutsidePrefix \<Rightarrow> validatePathRequestValue v
            | MatchIntegerMaximum \<Rightarrow> validateIntegerRequestValue v
            | _ \<Rightarrow> None))"

definition validateRequestValues :: "string list \<Rightarrow> MatchMode \<Rightarrow> policyError option" where
  "validateRequestValues values mode =
     (if values = [] then Some ValuesEmpty
      else firstError (\<lambda>v. validateRequestValue v mode) values)"

definition validateRequestTarget :: "Target \<Rightarrow> TargetSpec \<Rightarrow> policyError option" where
  "validateRequestTarget target spec =
     orElse
       (firstError (\<lambda>(name, fs).
           failIf (field_Required fs \<and> sliceAt (target_Fields target) name = [])
             (TargetRequiresField (target_Kind target) name))
          (spec_Fields spec))
       (firstError (\<lambda>(name, values).
           (case map_of (spec_Fields spec) name of
              None \<Rightarrow> Some (TargetUnsupportedField (target_Kind target) name)
            | Some fs \<Rightarrow>
                map_option (AtTargetField (target_Kind target) name)
                  (validateRequestValues values (field_Match fs))))
          (target_Fields target))"

definition validateRequestAttrs ::
  "string \<Rightarrow> string list gomap \<Rightarrow> OperationSpec \<Rightarrow> AttrSpec gomap \<Rightarrow> policyError option" where
  "validateRequestAttrs operation attrs op registryAttrs =
     firstError (\<lambda>(name, values).
        (case map_of registryAttrs name of
           None \<Rightarrow> Some (UnknownAttr name)
         | Some spec \<Rightarrow>
             if name \<notin> set (op_Attrs op) then Some (OperationAttr operation name)
             else map_option (AtAttr name) (validateRequestValues values (attr_Match spec))))
       attrs"

definition validateRequest :: "Registry \<Rightarrow> Request \<Rightarrow> policyError option" where
  "validateRequest r request =
     (case map_of (reg_Operations r) (req_Operation request) of
        None \<Rightarrow> Some (UnknownOperation (req_Operation request))
      | Some op \<Rightarrow>
          (case map_of (reg_Targets r) (target_Kind (req_Target request)) of
             None \<Rightarrow> Some (UnknownTargetKind (target_Kind (req_Target request)))
           | Some target \<Rightarrow>
               if target_Kind (req_Target request) \<notin> set (op_TargetKinds op) then
                 Some (OperationTargetKind (req_Operation request) (target_Kind (req_Target request)))
               else orElse (validateRequestTarget (req_Target request) target)
                      (validateRequestAttrs (req_Operation request) (req_Attrs request) op (reg_Attrs r))))"

definition validateRequestCredentialUse :: "Registry \<Rightarrow> string \<Rightarrow> CredentialUse \<Rightarrow> policyError option" where
  "validateRequestCredentialUse r operation use0 =
     (case map_of (reg_Operations r) operation of
        None \<Rightarrow> Some (UnknownOperation operation)
      | Some op \<Rightarrow>
          (let use = defaultedCredentialUse use0
           in if \<not> validCredentialUse use then Some (UnsupportedCredentialUse use)
              else if \<not> SupportsCredentialUse op use then Some (OperationCredentialUse operation use)
              else None))"

lemma validCredentialUse_defaulted [simp]:
  "validCredentialUse u \<Longrightarrow> defaultedCredentialUse u = u"
  by (auto simp: validCredentialUse_def defaultedCredentialUse_def)

lemma defaulted_idem [simp]:
  "defaultedCredentialUse (defaultedCredentialUse u) = defaultedCredentialUse u"
  "defaultedMatchMode (defaultedMatchMode m) = defaultedMatchMode m"
  by (auto simp: defaultedCredentialUse_def defaultedMatchMode_def)

end
