(* ===== verification/PathMatch.thy ===== *)
theory PathMatch
  imports GoStrings
begin

text \<open>
  \<^verbatim>\<open>path.Match\<close> of Go's standard library, byte for byte: the chunk scanner, the chunk matcher
  with its character classes, and the search behind a star. The policy package delegates
  every glob to it. The lemmas show that a malformed pattern is malformed for every name, that
  a pattern without metacharacters matches exactly its unescaped text, and that the literal
  prefix of a pattern is a prefix of every name it matches.
\<close>

section \<open>Definitions\<close>

datatype chunkResult = BadChunk | NoChunk | Chunk string

text \<open>\<^verbatim>\<open>scanChunk\<close> after its leading stars: the chunk up to the next star outside a class.\<close>

fun scanBody :: "bool \<Rightarrow> string \<Rightarrow> string \<times> string" where
  "scanBody inrange [] = ([], [])"
| "scanBody inrange (c # cs) =
     (if c = CHR 0x5C then
        (case cs of [] \<Rightarrow> ([c], [])
         | d # ds \<Rightarrow> (c # d # fst (scanBody inrange ds), snd (scanBody inrange ds)))
      else if c = CHR ''['' then (c # fst (scanBody True cs), snd (scanBody True cs))
      else if c = CHR '']'' then (c # fst (scanBody False cs), snd (scanBody False cs))
      else if c = CHR ''*'' \<and> \<not> inrange then ([], c # cs)
      else (c # fst (scanBody inrange cs), snd (scanBody inrange cs)))"

declare scanBody.simps(2) [simp del]

text \<open>\<^verbatim>\<open>getEsc\<close>: one possibly escaped code point of a class; \<open>None\<close> is \<^verbatim>\<open>ErrBadPattern\<close>.\<close>

definition getEsc :: "string \<Rightarrow> (nat \<times> string) option" where
  "getEsc chunk =
     (case chunk of [] \<Rightarrow> None
      | c # cs \<Rightarrow>
          if c = CHR ''-'' \<or> c = CHR '']'' then None
          else (let body = (if c = CHR 0x5C then cs else chunk);
                    rest = drop (runeWidth body) body
                in if body = [] \<or> decodeRune body = (runeError, 1) \<or> rest = [] then None
                   else Some (fst (decodeRune body), rest)))"

lemma getEsc_shorter: "getEsc chunk = Some (r, rest) \<Longrightarrow> length rest < length chunk"
  unfolding getEsc_def Let_def
  by (auto split: list.splits if_splits)

lemma getEsc_rest: "getEsc chunk = Some (r, rest) \<Longrightarrow> rest \<noteq> []"
  by (auto simp: getEsc_def Let_def split: list.splits if_splits)

text \<open>The class loop of \<^verbatim>\<open>matchChunk\<close>: has a range been read, has one matched so far.\<close>

function parseRanges :: "nat \<Rightarrow> bool \<Rightarrow> bool \<Rightarrow> string \<Rightarrow> (bool \<times> string) option" where
  "parseRanges r some matched chunk =
     (if chunk \<noteq> [] \<and> hd chunk = CHR '']'' \<and> some then Some (matched, tl chunk)
      else (case getEsc chunk of None \<Rightarrow> None
            | Some (lo, c1) \<Rightarrow>
                if hd c1 = CHR ''-'' then
                  (case getEsc (tl c1) of None \<Rightarrow> None
                   | Some (hi, c2) \<Rightarrow> parseRanges r True (matched \<or> lo \<le> r \<and> r \<le> hi) c2)
                else parseRanges r True (matched \<or> lo \<le> r \<and> r \<le> lo) c1))"
  by pat_completeness auto
termination
  by (relation "measure (\<lambda>(r, n, m, chunk). length chunk)")
    (auto dest!: getEsc_shorter)

declare parseRanges.simps [simp del]

text \<open>A class after its opening bracket: whether it matches the code point, and the rest.\<close>

definition parseClass :: "nat \<Rightarrow> string \<Rightarrow> (bool \<times> string) option" where
  "parseClass r chunk =
     (let negated = (chunk \<noteq> [] \<and> hd chunk = CHR ''^'');
          body = (if negated then tl chunk else chunk)
      in map_option (\<lambda>(m, rest). (m \<noteq> negated, rest)) (parseRanges r False False body))"

lemma parseRanges_shorter:
  "parseRanges r some m chunk = Some (m', rest) \<Longrightarrow> length rest < length chunk"
proof (induction r some m chunk arbitrary: rest rule: parseRanges.induct)
  case (1 r some m chunk)
  show ?case
  proof (cases "chunk \<noteq> [] \<and> hd chunk = CHR '']'' \<and> some")
    case True
    with 1(3) show ?thesis by (cases chunk) (auto simp: parseRanges.simps)
  next
    case False
    note unf = parseRanges.simps[of r some m chunk]
    from 1(3) False obtain lo c1 where e1: "getEsc chunk = Some (lo, c1)"
      by (auto simp: unf split: option.splits)
    show ?thesis
    proof (cases "hd c1 = CHR ''-''")
      case True
      with 1(3) False e1 obtain hi c2 where e2: "getEsc (tl c1) = Some (hi, c2)"
        by (auto simp: unf split: option.splits)
      then have "length rest < length c2"
        using 1(1)[OF False e1 refl True e2 refl] 1(3) False True e1 by (simp add: unf)
      then show ?thesis
        using getEsc_shorter[OF e1] getEsc_shorter[OF e2] by simp
    next
      case neq: False
      then have "length rest < length c1"
        using 1(2)[OF False e1 refl neq] 1(3) False e1 by (simp add: unf)
      then show ?thesis
        using getEsc_shorter[OF e1] by simp
    qed
  qed
qed

lemma parseClass_shorter: "parseClass r chunk = Some (m, rest) \<Longrightarrow> length rest < length chunk"
  unfolding parseClass_def Let_def
  by (auto dest!: parseRanges_shorter split: if_splits)

text \<open>
  \<^verbatim>\<open>matchChunk\<close>. The second argument is the rest of the name, \<open>None\<close> once the match has
  failed: Go goes on parsing the chunk to report a malformed pattern.
\<close>

function matchChunk :: "string \<Rightarrow> string option \<Rightarrow> chunkResult" where
  "matchChunk [] st = (case st of None \<Rightarrow> NoChunk | Some s \<Rightarrow> Chunk s)"
| "matchChunk (c # cs) st0 =
     (let st = (if st0 = Some [] then None else st0) in
      if c = CHR ''['' then
        (let r = (case st of None \<Rightarrow> 0 | Some s \<Rightarrow> fst (decodeRune s));
             st1 = map_option (\<lambda>s. drop (runeWidth s) s) st
         in (case parseClass r cs of None \<Rightarrow> BadChunk
             | Some (ok, rest) \<Rightarrow> matchChunk rest (if ok then st1 else None)))
      else if c = CHR ''?'' then
        matchChunk cs (case st of None \<Rightarrow> None
          | Some s \<Rightarrow> if hd s = CHR ''/'' then None else Some (drop (runeWidth s) s))
      else if c = CHR 0x5C then
        (case cs of [] \<Rightarrow> BadChunk
         | d # ds \<Rightarrow> matchChunk ds (case st of None \<Rightarrow> None
             | Some s \<Rightarrow> if d = hd s then Some (tl s) else None))
      else matchChunk cs (case st of None \<Rightarrow> None
             | Some s \<Rightarrow> if c = hd s then Some (tl s) else None))"
  by pat_completeness auto
termination
  by (relation "measure (\<lambda>(chunk, st). length chunk)") (auto dest: parseClass_shorter)

declare matchChunk.simps(2) [simp del]

text \<open>The search behind a star: skips bytes of the name, never a slash.\<close>

fun starSearch :: "string \<Rightarrow> bool \<Rightarrow> string \<Rightarrow> chunkResult" where
  "starSearch chunk lastChunk [] = NoChunk"
| "starSearch chunk lastChunk (x # xs) =
     (if x = CHR ''/'' then NoChunk
      else (case matchChunk chunk (Some xs) of
              BadChunk \<Rightarrow> BadChunk
            | NoChunk \<Rightarrow> starSearch chunk lastChunk xs
            | Chunk t \<Rightarrow> if lastChunk \<and> t \<noteq> [] then starSearch chunk lastChunk xs else Chunk t))"

definition dropStars :: "string \<Rightarrow> string" where
  "dropStars p = dropWhile (\<lambda>c. c = CHR ''*'') p"

lemma scanBody_append: "fst (scanBody inr p) @ snd (scanBody inr p) = p"
proof (induction inr p rule: scanBody.induct)
  case (2 inr c cs)
  show ?case
    unfolding scanBody.simps(2)[of inr c cs] using 2 by (auto split: list.splits)
qed simp

lemma scanBody_empty: "fst (scanBody False p) = [] \<Longrightarrow> p \<noteq> [] \<Longrightarrow> hd p = CHR ''*''"
  by (cases p) (auto simp: scanBody.simps(2) split: if_splits list.splits)

lemma dropStars_Cons [simp]:
  "dropStars [] = []" "dropStars (c # p) = (if c = CHR ''*'' then dropStars p else c # p)"
  by (simp_all add: dropStars_def)

lemma dropStars_hd: "dropStars p \<noteq> [] \<Longrightarrow> hd (dropStars p) \<noteq> CHR ''*''"
  by (induction p) auto

lemma dropStars_length: "length (dropStars p) \<le> length p"
  by (simp add: dropStars_def length_dropWhile_le)

lemma scan_lengths: "length (fst (scanBody inr p)) + length (snd (scanBody inr p)) = length p"
  using arg_cong[OF scanBody_append[of inr p], of length] by simp

lemma scan_rest_shorter:
  assumes "p \<noteq> []"
  shows "length (snd (scanBody False (dropStars p))) < length p"
proof (cases "hd p = CHR ''*''")
  case True
  then have "length (dropStars p) < length p"
    using assms by (cases p) (auto simp: less_Suc_eq_le dropStars_length)
  then show ?thesis
    using scan_lengths[of False "dropStars p"] by simp
next
  case False
  then have "dropStars p = p"
    using assms by (cases p) auto
  moreover have "0 < length (fst (scanBody False p))"
    using False assms scanBody_empty by blast
  ultimately show ?thesis
    using scan_lengths[of False p] unfolding \<open>dropStars p = p\<close> by linarith
qed

text \<open>The check of the rest of the pattern before \<^verbatim>\<open>Match\<close> returns false.\<close>

function restValid :: "string \<Rightarrow> bool" where
  "restValid p =
     (if p = [] then True
      else matchChunk (fst (scanBody False (dropStars p))) None \<noteq> BadChunk
           \<and> restValid (snd (scanBody False (dropStars p))))"
  by pat_completeness auto
termination
  by (relation "measure length") (auto simp: scan_rest_shorter)

declare restValid.simps [simp del]

text \<open>\<^verbatim>\<open>path.Match\<close>: \<open>None\<close> is \<^verbatim>\<open>ErrBadPattern\<close>.\<close>

function pathMatch :: "string \<Rightarrow> string \<Rightarrow> bool option" where
  "pathMatch p name =
     (if p = [] then Some (name = [])
      else
        (let star = (hd p = CHR ''*'');
             chunk = fst (scanBody False (dropStars p));
             rest = snd (scanBody False (dropStars p));
             refuse = (if restValid rest then Some False else None)
         in
         if star \<and> chunk = [] then Some (CHR ''/'' \<notin> set name)
         else
           (case matchChunk chunk (Some name) of
              BadChunk \<Rightarrow> None
            | found \<Rightarrow>
                (case found of
                   Chunk t \<Rightarrow>
                     if t = [] \<or> rest \<noteq> [] then pathMatch rest t
                     else if star then
                       (case starSearch chunk (rest = []) name of
                          BadChunk \<Rightarrow> None
                        | Chunk t' \<Rightarrow> pathMatch rest t'
                        | NoChunk \<Rightarrow> refuse)
                     else refuse
                 | _ \<Rightarrow>
                     if star then
                       (case starSearch chunk (rest = []) name of
                          BadChunk \<Rightarrow> None
                        | Chunk t' \<Rightarrow> pathMatch rest t'
                        | NoChunk \<Rightarrow> refuse)
                     else refuse))))"
  by pat_completeness auto
termination
  by (relation "measure (\<lambda>(p, name). length p)") (auto simp: scan_rest_shorter)

declare pathMatch.simps [simp del]

text \<open>How the repository calls it: a match counts only without an error.\<close>

definition globMatches :: "string \<Rightarrow> string \<Rightarrow> bool" where
  "globMatches p name = (pathMatch p name = Some True)"

section \<open>A malformed pattern is malformed for every name\<close>

lemma parseRanges_rest_indep:
  "map_option snd (parseRanges r some m chunk) = map_option snd (parseRanges r' some m' chunk)"
proof (induction r some m chunk arbitrary: m' rule: parseRanges.induct)
  case (1 r some m chunk)
  show ?case
  proof (cases "chunk \<noteq> [] \<and> hd chunk = CHR '']'' \<and> some")
    case True
    then show ?thesis
      unfolding parseRanges.simps[of r some m chunk] parseRanges.simps[of r' some m' chunk] by simp
  next
    case False
    note unf = parseRanges.simps[of r some m chunk] parseRanges.simps[of r' some m' chunk]
    show ?thesis
    proof (cases "getEsc chunk")
      case None
      then show ?thesis using False by (simp add: unf)
    next
      case (Some p)
      then obtain lo c1 where e1: "getEsc chunk = Some (lo, c1)" by (cases p) auto
      show ?thesis
      proof (cases "hd c1 = CHR ''-''")
        case True
        show ?thesis
        proof (cases "getEsc (tl c1)")
          case None
          then show ?thesis using False True e1 by (simp add: unf)
        next
          case (Some q)
          then obtain hi c2 where e2: "getEsc (tl c1) = Some (hi, c2)" by (cases q) auto
          show ?thesis
            unfolding unf if_not_P[OF False]
            using True 1(1)[OF False e1 refl True e2 refl] by (simp add: e1 e2)
        qed
      next
        case neq: False
        show ?thesis
          unfolding unf if_not_P[OF False]
          using neq 1(2)[OF False e1 refl neq] by (simp add: e1)
      qed
    qed
  qed
qed

lemma parseClass_rest_indep:
  "map_option snd (parseClass r chunk) = map_option snd (parseClass r' chunk)"
  by (simp add: parseClass_def Let_def option.map_comp comp_def case_prod_unfold parseRanges_rest_indep[of r])

lemma parseClass_cases_indep:
  obtains (bad) "\<And>r. parseClass r chunk = None"
  | (rest) rest where "\<And>r. \<exists>ok. parseClass r chunk = Some (ok, rest)"
proof (cases "parseClass 0 chunk")
  case None
  then have "map_option snd (parseClass r chunk) = None" for r
    unfolding parseClass_rest_indep[of r chunk 0] by simp
  then show ?thesis using bad by simp
next
  case (Some p)
  then have "map_option snd (parseClass r chunk) = Some (snd p)" for r
    unfolding parseClass_rest_indep[of r chunk 0] by simp
  then show ?thesis using rest by (metis map_option_eq_Some prod.collapse)
qed

lemma matchChunk_bad_indep: "matchChunk chunk st = BadChunk \<longleftrightarrow> matchChunk chunk st' = BadChunk"
proof (induction chunk arbitrary: st st' rule: length_induct)
  case (1 chunk)
  show ?case
  proof (cases chunk)
    case Nil
    then show ?thesis by (auto split: option.splits)
  next
    case (Cons c cs)
    have IH: "length r < length chunk \<Longrightarrow> (matchChunk r a = BadChunk) = (matchChunk r b = BadChunk)" for r a b
      using 1 by blast
    note unf = matchChunk.simps(2)[of c cs st] matchChunk.simps(2)[of c cs st']
    consider "c = CHR ''[''" | "c \<noteq> CHR ''[''" "c = CHR 0x5C" | "c \<noteq> CHR ''[''" "c \<noteq> CHR 0x5C"
      by blast
    then show ?thesis
    proof cases
      case 1
      show ?thesis
      proof (cases rule: parseClass_cases_indep[of cs])
        case bad
        then show ?thesis using 1 unfolding Cons unf by (simp add: Let_def)
      next
        case (rest rest)
        have "length rest < length chunk"
          using rest[of 0] Cons by (auto dest: parseClass_shorter)
        then have IHr: "(matchChunk rest a = BadChunk) = (matchChunk rest b = BadChunk)" for a b
          by (rule IH)
        have "\<exists>z. matchChunk (c # cs) x = matchChunk rest z" for x
          using 1 rest[of "case (if x = Some [] then None else x) of None \<Rightarrow> 0 | Some s \<Rightarrow> fst (decodeRune s)"]
          unfolding matchChunk.simps(2)[of c cs x] Let_def by auto
        then show ?thesis using Cons IHr by metis
      qed
    next
      case 2
      show ?thesis
      proof (cases cs)
        case Nil
        then show ?thesis using 2 unfolding Cons unf by (simp add: Let_def)
      next
        case (Cons d ds)
        then have "\<exists>z. matchChunk (c # cs) x = matchChunk ds z" for x
          using 2 unfolding matchChunk.simps(2)[of c cs x] Let_def by auto
        then show ?thesis using \<open>chunk = c # cs\<close> Cons IH[of ds] by (metis length_Cons less_SucI lessI)
      qed
    next
      case 3
      then have "\<exists>z. matchChunk (c # cs) x = matchChunk cs z" for x
        by (auto simp: matchChunk.simps(2)[of c cs x] Let_def)
      then show ?thesis using Cons IH[of cs] by (metis length_Cons lessI)
    qed
  qed
qed

lemma starSearch_bad: "starSearch chunk l name = BadChunk \<Longrightarrow> matchChunk chunk None = BadChunk"
  by (induction chunk l name rule: starSearch.induct)
    (auto split: if_splits chunkResult.splits dest: matchChunk_bad_indep[THEN iffD1])

lemma scan_empty_chunk: "fst (scanBody False (dropStars p)) = [] \<Longrightarrow> dropStars p = []"
  using scanBody_empty dropStars_hd by blast

text \<open>
  The validator calls \<^verbatim>\<open>path.Match(pattern, "value")\<close> and keeps the error: that error
  is a property of the pattern alone.
\<close>

theorem pathMatch_bad_iff: "pathMatch p name = None \<longleftrightarrow> \<not> restValid p"
proof (induction p arbitrary: name rule: length_induct)
  case (1 p)
  let ?chunk = "fst (scanBody False (dropStars p))" and ?rest = "snd (scanBody False (dropStars p))"
  note unf = pathMatch.simps[of p name]
  show ?case
  proof (cases "p = []")
    case True
    then show ?thesis by (simp add: pathMatch.simps restValid.simps)
  next
    case ne: False
    have rv: "restValid p \<longleftrightarrow> matchChunk ?chunk None \<noteq> BadChunk \<and> restValid ?rest"
      using ne by (subst restValid.simps) simp
    show ?thesis
    proof (cases "hd p = CHR ''*'' \<and> ?chunk = []")
      case True
      then have "dropStars p = []" using scan_empty_chunk by blast
      with True ne show ?thesis by (simp add: unf rv restValid.simps[of "[]"])
    next
      case nostar: False
      show ?thesis
      proof (cases "matchChunk ?chunk None = BadChunk")
        case True
        then have "matchChunk ?chunk (Some name) = BadChunk"
          using matchChunk_bad_indep by blast
        then show ?thesis using ne nostar True by (simp add: unf rv Let_def)
      next
        case ok: False
        then have ok': "matchChunk ?chunk (Some name) \<noteq> BadChunk" "starSearch ?chunk l name \<noteq> BadChunk" for l
          using matchChunk_bad_indep starSearch_bad by blast+
        have IH: "(pathMatch ?rest t = None) = (\<not> restValid ?rest)" for t
          using 1 scan_rest_shorter[OF ne] by blast
        show ?thesis
        proof (cases "restValid ?rest")
          case True
          then have "\<exists>y. pathMatch ?rest t = Some y" for t
            using IH[of t] by auto
          then show ?thesis
            using ne nostar ok ok' True by (auto simp: unf rv Let_def split: chunkResult.splits)
        next
          case False
          then have "pathMatch ?rest t = None" for t
            using IH[of t] by auto
          then show ?thesis
            using ne nostar ok ok' False by (auto simp: unf rv Let_def split: chunkResult.splits)
        qed
      qed
    qed
  qed
qed

section \<open>Literal patterns and literal prefixes\<close>

definition globMeta :: "char \<Rightarrow> bool" where
  "globMeta c = (c = CHR ''*'' \<or> c = CHR ''?'' \<or> c = CHR ''['')"

text \<open>The text before the first metacharacter, unescaped.\<close>

fun litPrefix :: "string \<Rightarrow> string" where
  "litPrefix [] = []"
| "litPrefix (c # cs) =
     (if c = CHR 0x5C then (case cs of [] \<Rightarrow> [] | d # ds \<Rightarrow> d # litPrefix ds)
      else if globMeta c then [] else c # litPrefix cs)"

text \<open>The text of a pattern without metacharacters, unescaped.\<close>

fun litWhole :: "string \<Rightarrow> string option" where
  "litWhole [] = Some []"
| "litWhole (c # cs) =
     (if c = CHR 0x5C then (case cs of [] \<Rightarrow> None | d # ds \<Rightarrow> map_option ((#) d) (litWhole ds))
      else if globMeta c then None else map_option ((#) c) (litWhole cs))"

declare litPrefix.simps(2) [simp del] litWhole.simps(2) [simp del]

lemma litPrefix_simps [simp]:
  "litPrefix [CHR 0x5C] = []"
  "litPrefix (CHR 0x5C # d # ds) = d # litPrefix ds"
  "c \<noteq> CHR 0x5C \<Longrightarrow> globMeta c \<Longrightarrow> litPrefix (c # cs) = []"
  "c \<noteq> CHR 0x5C \<Longrightarrow> \<not> globMeta c \<Longrightarrow> litPrefix (c # cs) = c # litPrefix cs"
  by (simp_all add: litPrefix.simps(2))

lemma litWhole_simps [simp]:
  "litWhole [CHR 0x5C] = None"
  "litWhole (CHR 0x5C # d # ds) = map_option ((#) d) (litWhole ds)"
  "c \<noteq> CHR 0x5C \<Longrightarrow> globMeta c \<Longrightarrow> litWhole (c # cs) = None"
  "c \<noteq> CHR 0x5C \<Longrightarrow> \<not> globMeta c \<Longrightarrow> litWhole (c # cs) = map_option ((#) c) (litWhole cs)"
  by (simp_all add: litWhole.simps(2))

lemma scanBody_simps [simp]:
  "scanBody inr [CHR 0x5C] = ([CHR 0x5C], [])"
  "scanBody inr (CHR 0x5C # d # ds) = (CHR 0x5C # d # fst (scanBody inr ds), snd (scanBody inr ds))"
  "c \<noteq> CHR 0x5C \<Longrightarrow> \<not> globMeta c \<Longrightarrow>
     scanBody False (c # cs) = (c # fst (scanBody False cs), snd (scanBody False cs))"
  by (auto simp: scanBody.simps(2) globMeta_def)

text \<open>Cases on the head of a pattern: an escape, a metacharacter or a literal byte.\<close>

lemma glob_head_cases:
  obtains (nil) "p = []"
  | (dangling) "p = [CHR 0x5C]"
  | (escape) d ds where "p = CHR 0x5C # d # ds"
  | (meta) c cs where "p = c # cs" "c \<noteq> CHR 0x5C" "globMeta c"
  | (literal) c cs where "p = c # cs" "c \<noteq> CHR 0x5C" "\<not> globMeta c"
proof (cases p)
  case (Cons c cs)
  then show ?thesis
    using dangling escape meta literal by (cases "c = CHR 0x5C"; cases cs) blast+
qed (use nil in blast)

lemma litPrefix_whole: "litWhole p = Some l \<Longrightarrow> litPrefix p = l"
proof (induction p arbitrary: l rule: length_induct)
  case (1 p)
  then show ?case by (cases rule: glob_head_cases[of p]) auto
qed

lemma matchChunk_None [simp]: "matchChunk chunk None \<noteq> Chunk t"
proof (induction chunk rule: length_induct)
  case (1 chunk)
  show ?case
  proof (cases chunk)
    case (Cons c cs)
    then have "\<And>r. length r < length chunk \<Longrightarrow> matchChunk r None \<noteq> Chunk t"
      using 1 by blast
    then show ?thesis
      unfolding Cons matchChunk.simps(2)[of c cs None]
      by (cases cs) (auto simp: Let_def split: option.splits dest: parseClass_shorter)
  qed simp
qed

text \<open>One step of the chunk matcher on a byte that is neither a class nor a question mark.\<close>

lemma matchChunk_byte:
  assumes "\<not> globMeta c \<or> c = CHR ''*''" and "c \<noteq> CHR 0x5C"
    and "matchChunk (c # cs) (Some s) = Chunk t"
  shows "\<exists>s'. s = c # s' \<and> matchChunk cs (Some s') = Chunk t"
  using assms unfolding matchChunk.simps(2)[of c cs "Some s"] globMeta_def
  by (cases s) (auto simp: Let_def split: if_splits)

lemma matchChunk_escape:
  assumes "matchChunk (CHR 0x5C # cs) (Some s) = Chunk t"
  shows "\<exists>d ds s'. cs = d # ds \<and> s = d # s' \<and> matchChunk ds (Some s') = Chunk t"
  using assms unfolding matchChunk.simps(2)[of "CHR 0x5C" cs "Some s"]
  by (cases s; cases cs) (auto simp: Let_def split: if_splits)

lemma matchChunk_litPrefix: "matchChunk chunk (Some s) = Chunk t \<Longrightarrow> prefix (litPrefix chunk) s"
proof (induction chunk arbitrary: s rule: length_induct)
  case (1 p)
  show ?case
  proof (cases rule: glob_head_cases[of p])
    case (escape d ds)
    then obtain s' where "s = d # s'" "matchChunk ds (Some s') = Chunk t"
      using 1(2) matchChunk_escape[of "d # ds" s t] by auto
    then show ?thesis using 1(1) escape by simp
  next
    case (literal c cs)
    then obtain s' where "s = c # s'" "matchChunk cs (Some s') = Chunk t"
      using 1(2) matchChunk_byte[of c cs s t] by auto
    then show ?thesis using 1(1) literal by simp
  qed auto
qed

lemma matchChunk_literal_byte:
  "c \<noteq> CHR 0x5C \<Longrightarrow> \<not> globMeta c \<Longrightarrow> matchChunk (c # cs) (Some (c # s)) = matchChunk cs (Some s)"
  by (simp add: matchChunk.simps(2) globMeta_def)

lemma matchChunk_literal_escape:
  "matchChunk (CHR 0x5C # d # ds) (Some (d # s)) = matchChunk ds (Some s)"
  by (simp add: matchChunk.simps(2))

lemma matchChunk_litWhole:
  "litWhole chunk = Some l \<Longrightarrow> matchChunk chunk (Some s) = Chunk t \<longleftrightarrow> s = l @ t"
proof (induction chunk arbitrary: l s rule: length_induct)
  case (1 p)
  show ?case
  proof (cases rule: glob_head_cases[of p])
    case (escape d ds)
    then obtain l' where l: "litWhole ds = Some l'" "l = d # l'" using 1(2) by auto
    have "matchChunk ds (Some s') = Chunk t \<longleftrightarrow> s' = l' @ t" for s'
      using 1(1) escape l by simp
    then show ?thesis
      using escape l matchChunk_escape[of "d # ds" s t] matchChunk_literal_escape[of d ds "l' @ t"] by auto
  next
    case (literal c cs)
    then obtain l' where l: "litWhole cs = Some l'" "l = c # l'" using 1(2) by auto
    have "matchChunk cs (Some s') = Chunk t \<longleftrightarrow> s' = l' @ t" for s'
      using 1(1) literal l by simp
    then show ?thesis
      using literal l matchChunk_byte[of c cs s t] matchChunk_literal_byte[of c cs "l' @ t"] by auto
  qed (use 1(2) in auto)
qed

lemma scanBody_litPrefix: "litPrefix (fst (scanBody False p)) = litPrefix p"
proof (induction p rule: length_induct)
  case (1 p)
  show ?case
  proof (cases rule: glob_head_cases[of p])
    case (meta c cs)
    then have "fst (scanBody False (c # cs)) = [] \<or> (\<exists>xs. fst (scanBody False (c # cs)) = c # xs)"
      by (auto simp: scanBody.simps(2) globMeta_def)
    then show ?thesis using meta by auto
  qed (use 1 in auto)
qed

lemma scanBody_litWhole: "litWhole p = Some l \<Longrightarrow> scanBody False p = (p, [])"
proof (induction p arbitrary: l rule: length_induct)
  case (1 p)
  then show ?case by (cases rule: glob_head_cases[of p]) auto
qed

text \<open>Without a leading star a match needs the first chunk at the start of the name.\<close>

lemma pathMatch_first_chunk:
  assumes "p \<noteq> []" "hd p \<noteq> CHR ''*''" "pathMatch p name = Some True"
  shows "\<exists>t. matchChunk (fst (scanBody False p)) (Some name) = Chunk t
    \<and> (t = [] \<or> snd (scanBody False p) \<noteq> []) \<and> pathMatch (snd (scanBody False p)) t = Some True"
proof -
  have "dropStars p = p" using assms(1,2) by (cases p) auto
  then show ?thesis
    using assms unfolding pathMatch.simps[of p name]
    by (auto simp: Let_def split: chunkResult.splits if_splits)
qed

theorem pathMatch_litPrefix:
  assumes "pathMatch p name = Some True"
  shows "prefix (litPrefix p) name"
proof (cases "p = [] \<or> hd p = CHR ''*''")
  case True
  then show ?thesis by (cases p) (auto simp: globMeta_def)
next
  case False
  then obtain t where "matchChunk (fst (scanBody False p)) (Some name) = Chunk t"
    using pathMatch_first_chunk assms by blast
  then show ?thesis
    using matchChunk_litPrefix[of "fst (scanBody False p)"] by (simp add: scanBody_litPrefix)
qed

theorem pathMatch_litWhole:
  assumes "litWhole p = Some l"
  shows "pathMatch p name = Some (name = l)"
proof (cases "p = []")
  case True
  then show ?thesis using assms by (simp add: pathMatch.simps)
next
  case False
  have star: "hd p \<noteq> CHR ''*''"
    using False assms by (cases p) (auto simp: globMeta_def)
  then have ds: "dropStars p = p" using False by (cases p) auto
  have sc: "scanBody False p = (p, [])" using scanBody_litWhole[OF assms] .
  have ok: "matchChunk p (Some name) \<noteq> BadChunk"
    using matchChunk_litWhole[OF assms, of l "[]"] matchChunk_bad_indep[of p "Some name" "Some l"] by auto
  show ?thesis
  proof (cases "matchChunk p (Some name)")
    case (Chunk t)
    then have "name = l @ t" using matchChunk_litWhole[OF assms] by blast
    then show ?thesis
      using False star ds sc Chunk unfolding pathMatch.simps[of p name]
      by (auto simp: Let_def pathMatch.simps[of "[]"] restValid.simps[of "[]"])
  next
    case NoChunk
    then have "name \<noteq> l" using matchChunk_litWhole[OF assms, of name "[]"] by auto
    then show ?thesis
      using False star ds sc NoChunk unfolding pathMatch.simps[of p name]
      by (auto simp: restValid.simps[of "[]"])
  qed (use ok in simp)
qed

lemma globMatches_litWhole: "litWhole p = Some l \<Longrightarrow> globMatches p name \<longleftrightarrow> name = l"
  by (simp add: globMatches_def pathMatch_litWhole)

lemma globMatches_litPrefix: "globMatches p name \<Longrightarrow> prefix (litPrefix p) name"
  by (simp add: globMatches_def pathMatch_litPrefix)

end
