(* ===== verification/PolicyMatch.thy ===== *)
theory PolicyMatch
  imports PolicyTypes PathMatch
begin

text \<open>
  \<^verbatim>\<open>authorization/policy/match.go\<close> and \<^verbatim>\<open>values.go\<close>: how rules and grants match a request. The glob
  modes call \<^verbatim>\<open>path.Match\<close>; the path mode simulates an automaton over path segments; the recursive
  mode compiles a pattern to a regular expression. The expression is kept as the list of
  fragments the code writes, one constructor per fragment, with the meaning Go's \<^verbatim>\<open>regexp\<close> gives them.
  The lemmas relate the automaton to a recursive reading of the pattern and the
  compiled expression of a literal pattern to equality.
\<close>

section \<open>Patterns and values\<close>

definition slicesContains :: "string list \<Rightarrow> string \<Rightarrow> bool" where
  "slicesContains values want = list_ex (\<lambda>v. v = want) values"

definition attrRelevantToOperation :: "Registry \<Rightarrow> string \<Rightarrow> string \<Rightarrow> bool" where
  "attrRelevantToOperation r name operation = slicesContains (op_Attrs (opAt r operation)) name"

definition patternsMatch :: "string list \<Rightarrow> string \<Rightarrow> bool" where
  "patternsMatch patterns value =
     (if blank value then False else list_ex (\<lambda>p. globMatches p value) patterns)"

text \<open>\<^verbatim>\<open>closeDoubleStarStates\<close>: a set state on a \<^verbatim>\<open>**\<close> segment also sets the next one, left to right.\<close>

definition closeDoubleStarStates :: "bool list \<Rightarrow> string list \<Rightarrow> bool list" where
  "closeDoubleStarStates states patterns =
     fold (\<lambda>i st. if st ! i \<and> patterns ! i = ''**'' then st[i + 1 := True] else st)
       [0..<length patterns] states"

definition advancePathStates :: "bool list \<Rightarrow> string list \<Rightarrow> string \<Rightarrow> bool list" where
  "advancePathStates states patterns value =
     closeDoubleStarStates
       (fold (\<lambda>i next. if \<not> states ! i then next
                       else if patterns ! i = ''**'' then next[i := True]
                       else if globMatches (patterns ! i) value then next[i + 1 := True]
                       else next)
         [0..<length patterns] (replicate (length states) False))
       patterns"

definition pathSegmentsMatch :: "string list \<Rightarrow> string list \<Rightarrow> bool" where
  "pathSegmentsMatch patterns values =
     fold (\<lambda>v states. advancePathStates states patterns v) values
       (closeDoubleStarStates (True # replicate (length patterns) False) patterns)
     ! length patterns"

definition pathPatternsMatch :: "string list \<Rightarrow> string \<Rightarrow> bool" where
  "pathPatternsMatch patterns value =
     (if blank value \<or> length value > maxPathValueBytes \<or> countByte (CHR ''/'') value \<ge> maxPathSegments
      then False
      else list_ex (\<lambda>p. pathSegmentsMatch (splitOn (CHR ''/'') p) (splitOn (CHR ''/'') value)) patterns)"

definition pathOutsidePrefixes :: "string list \<Rightarrow> string \<Rightarrow> bool" where
  "pathOutsidePrefixes prefs value =
     list_all (\<lambda>p0. let p = trimSuffix p0 ''/''
                    in \<not> (value = p \<or> prefix (p @ ''/'') value)) prefs"

definition integerMaximumMatches :: "string list \<Rightarrow> string \<Rightarrow> bool" where
  "integerMaximumMatches ceilings value =
     (case parseInt64 value of
        None \<Rightarrow> False
      | Some actual \<Rightarrow>
          if actual < 0 then False
          else list_ex (\<lambda>raw. case parseInt64 raw of None \<Rightarrow> False | Some c \<Rightarrow> actual \<le> c) ceilings)"

section \<open>The recursive path mode\<close>

text \<open>
  The fragments \<^verbatim>\<open>recursivePathExpression\<close> writes: a quoted byte, \<^verbatim>\<open>(?s:.*)\<close>, \<^verbatim>\<open>[^/]*\<close>, \<^verbatim>\<open>[^/]\<close>,
  \<^verbatim>\<open>(?s:(?:.*/)?)\<close>, \<^verbatim>\<open>(?s:(?:/.*)?)\<close> and \<^verbatim>\<open>(?s:(?:/.*)?/)\<close>.
\<close>

datatype reFragment = ReByte char | ReAny | ReSegStar | ReSegOne | ReLeading | ReTrailing | ReMiddle

text \<open>The suffixes of a text at code point boundaries.\<close>

function runeSuffixes :: "string \<Rightarrow> string list" where
  "runeSuffixes s = s # (if s = [] then [] else runeSuffixes (drop (runeWidth s) s))"
  by pat_completeness auto
termination
  by (relation "measure length") auto

function segSuffixes :: "string \<Rightarrow> string list" where
  "segSuffixes s =
     s # (if s = [] \<or> hd s = CHR ''/'' then [] else segSuffixes (drop (runeWidth s) s))"
  by pat_completeness auto
termination
  by (relation "measure length") auto

declare runeSuffixes.simps [simp del] segSuffixes.simps [simp del]

definition afterSlash :: "string list \<Rightarrow> string list" where
  "afterSlash ts = map tl (filter (\<lambda>t. t \<noteq> [] \<and> hd t = CHR ''/'') ts)"

text \<open>What may remain of a text after one fragment has matched its start.\<close>

fun reStep :: "reFragment \<Rightarrow> string \<Rightarrow> string list" where
  "reStep (ReByte c) s = (case s of x # xs \<Rightarrow> if x = c then [xs] else [] | [] \<Rightarrow> [])"
| "reStep ReAny s = runeSuffixes s"
| "reStep ReSegStar s = segSuffixes s"
| "reStep ReSegOne s = (if s = [] \<or> hd s = CHR ''/'' then [] else [drop (runeWidth s) s])"
| "reStep ReLeading s = s # afterSlash (runeSuffixes s)"
| "reStep ReTrailing s = s # (if s \<noteq> [] \<and> hd s = CHR ''/'' then runeSuffixes (tl s) else [])"
| "reStep ReMiddle s =
     afterSlash (s # (if s \<noteq> [] \<and> hd s = CHR ''/'' then runeSuffixes (tl s) else []))"

text \<open>\<^verbatim>\<open>MatchString\<close> of the expression between \<^verbatim>\<open>^\<close> and \<^verbatim>\<open>$\<close>.\<close>

fun reMatch :: "reFragment list \<Rightarrow> string \<Rightarrow> bool" where
  "reMatch [] s = (s = [])"
| "reMatch (f # fs) s = list_ex (reMatch fs) (reStep f s)"

text \<open>
  \<^verbatim>\<open>recursiveSegmentExpression\<close>: the quoted segment with \<^verbatim>\<open>\*\*\<close>, \<^verbatim>\<open>\*\<close> and \<^verbatim>\<open>\?\<close> replaced in this
  order; a backslash before a star is always the star's own quote.
\<close>

fun recursiveSegmentExpression :: "string \<Rightarrow> reFragment list" where
  "recursiveSegmentExpression [] = []"
| "recursiveSegmentExpression (c # cs) =
     (if c = CHR ''*'' then
        (case cs of
           d # ds \<Rightarrow> if d = CHR ''*'' then ReAny # recursiveSegmentExpression ds
                     else ReSegStar # recursiveSegmentExpression cs
         | [] \<Rightarrow> [ReSegStar])
      else if c = CHR ''?'' then ReSegOne # recursiveSegmentExpression cs
      else ReByte c # recursiveSegmentExpression cs)"

definition appendCompleteDoubleStar :: "nat \<Rightarrow> nat \<Rightarrow> reFragment" where
  "appendCompleteDoubleStar index count =
     (if count = 1 then ReAny else if index = 0 then ReLeading
      else if index = count - 1 then ReTrailing else ReMiddle)"

fun compactLoop :: "string list \<Rightarrow> string list \<Rightarrow> string list" where
  "compactLoop out [] = out"
| "compactLoop out (s # ss) =
     (if s = ''**'' \<and> out \<noteq> [] \<and> last out = ''**'' then compactLoop out ss
      else compactLoop (out @ [s]) ss)"

definition compactRecursiveSegments :: "string list \<Rightarrow> string list" where
  "compactRecursiveSegments segments = compactLoop [] segments"

fun expressionLoop :: "nat \<Rightarrow> bool \<Rightarrow> nat \<Rightarrow> string list \<Rightarrow> reFragment list" where
  "expressionLoop count separatorBeforeNext index [] = []"
| "expressionLoop count separatorBeforeNext index (s # ss) =
     (if s = ''**'' then
        appendCompleteDoubleStar index count # expressionLoop count False (index + 1) ss
      else (if separatorBeforeNext then [ReByte (CHR ''/'')] else [])
           @ recursiveSegmentExpression s @ expressionLoop count True (index + 1) ss)"

definition recursivePathExpression :: "string \<Rightarrow> reFragment list" where
  "recursivePathExpression pattern =
     (let segments = compactRecursiveSegments (splitOn (CHR ''/'') pattern)
      in expressionLoop (length segments) False 0 segments)"

text \<open>A pattern that is not valid UTF-8 does not compile and is skipped.\<close>

definition compileRecursivePathPatterns :: "string list \<Rightarrow> reFragment list list" where
  "compileRecursivePathPatterns patterns =
     map recursivePathExpression (filter validUTF8 patterns)"

definition compiledRecursivePathPatternsMatch :: "reFragment list list \<Rightarrow> string \<Rightarrow> bool" where
  "compiledRecursivePathPatternsMatch patterns value = list_ex (\<lambda>p. reMatch p value) patterns"

definition validPathValue :: "string \<Rightarrow> bool" where
  "validPathValue v =
     (\<not> blank v \<and> length v \<le> maxPathValueBytes \<and> countByte (CHR ''/'') v < maxPathSegments)"

definition recursivePathPatternsMatch :: "string list \<Rightarrow> string \<Rightarrow> bool" where
  "recursivePathPatternsMatch patterns value =
     (if \<not> validPathValue value then False
      else compiledRecursivePathPatternsMatch (compileRecursivePathPatterns patterns) value)"

fun recursiveValuesLoop :: "reFragment list list \<Rightarrow> bool \<Rightarrow> string list \<Rightarrow> bool option" where
  "recursiveValuesLoop compiled requireAll [] = None"
| "recursiveValuesLoop compiled requireAll (v # vs) =
     (let matched = validPathValue v \<and> compiledRecursivePathPatternsMatch compiled v
      in if requireAll \<noteq> matched then Some (\<not> requireAll)
         else recursiveValuesLoop compiled requireAll vs)"

definition recursivePathValuesMatch :: "string list \<Rightarrow> string list \<Rightarrow> bool \<Rightarrow> bool" where
  "recursivePathValuesMatch patterns values requireAll =
     (case recursiveValuesLoop (compileRecursivePathPatterns patterns) requireAll values of
        Some b \<Rightarrow> b
      | None \<Rightarrow> requireAll \<and> length values > 0)"

section \<open>Matching value sets\<close>

definition valuesMatch :: "MatchMode \<Rightarrow> string list \<Rightarrow> string \<Rightarrow> bool" where
  "valuesMatch mode patterns value =
     (case defaultedMatchMode mode of
        MatchGlob \<Rightarrow> patternsMatch patterns value
      | MatchAnyGlob \<Rightarrow> patternsMatch patterns value
      | MatchPathGlob \<Rightarrow> pathPatternsMatch patterns value
      | MatchRecursivePathGlob \<Rightarrow> recursivePathPatternsMatch patterns value
      | MatchPathOutsidePrefix \<Rightarrow> pathOutsidePrefixes patterns value
      | MatchIntegerMaximum \<Rightarrow> integerMaximumMatches patterns value
      | _ \<Rightarrow> False)"

definition anyValueMatches :: "MatchMode \<Rightarrow> string list \<Rightarrow> string list \<Rightarrow> bool" where
  "anyValueMatches mode patterns values =
     (if defaultedMatchMode mode = MatchRecursivePathGlob
      then recursivePathValuesMatch patterns values False
      else list_ex (valuesMatch mode patterns) values)"

definition allValuesMatch :: "MatchMode \<Rightarrow> string list \<Rightarrow> string list \<Rightarrow> bool" where
  "allValuesMatch mode patterns values =
     (if values = [] then False
      else if defaultedMatchMode mode = MatchRecursivePathGlob
      then recursivePathValuesMatch patterns values True
      else if defaultedMatchMode mode = MatchAnyGlob then anyValueMatches mode patterns values
      else list_all (valuesMatch mode patterns) values)"

definition effectValuesMatch :: "Effect \<Rightarrow> MatchMode \<Rightarrow> string list \<Rightarrow> string list \<Rightarrow> bool" where
  "effectValuesMatch effect mode patterns values =
     (if effect = EffectDeny then anyValueMatches mode patterns values
      else allValuesMatch mode patterns values)"

section \<open>Matching rules\<close>

definition attrsMatch ::
  "Registry \<Rightarrow> Effect \<Rightarrow> string list gomap \<Rightarrow> string \<Rightarrow> string list gomap \<Rightarrow> bool" where
  "attrsMatch r effect patterns operation attrs =
     list_all (\<lambda>(name, allowed).
        \<not> attrRelevantToOperation r name operation
        \<or> (case map_of attrs name of
             None \<Rightarrow> False
           | Some values \<Rightarrow> effectValuesMatch effect (attr_Match (attrAt r name)) allowed values))
       patterns"

definition targetFieldsMatch ::
  "TargetSpec \<Rightarrow> Effect \<Rightarrow> string list gomap \<Rightarrow> string list gomap \<Rightarrow> bool" where
  "targetFieldsMatch spec effect patterns flds =
     list_all (\<lambda>(name, allowed).
        effectValuesMatch effect (field_Match (fieldAt spec name)) allowed (sliceAt flds name))
       patterns"

definition targetsMatch :: "Registry \<Rightarrow> Effect \<Rightarrow> TargetMatcher list \<Rightarrow> Target \<Rightarrow> bool" where
  "targetsMatch r effect matchers target =
     list_ex (\<lambda>m. tm_Kind m = target_Kind target
        \<and> targetFieldsMatch (targetAt r (target_Kind target)) effect (tm_Fields m) (target_Fields target))
       matchers"

definition ruleCredentialUseMatches :: "Rule \<Rightarrow> CredentialUse \<Rightarrow> bool" where
  "ruleCredentialUseMatches rule use0 =
     (let use = defaultedCredentialUse use0
      in if rule_CredentialUses rule = []
         then rule_Effect rule = EffectDeny \<or> use = CredentialUseManaged
         else list_ex (\<lambda>allowed. allowed = use) (rule_CredentialUses rule))"

definition ruleMatches :: "Registry \<Rightarrow> Rule \<Rightarrow> Request \<Rightarrow> CredentialUse \<Rightarrow> bool" where
  "ruleMatches r rule request use =
     (ruleCredentialUseMatches rule use
      \<and> patternsMatch (rule_Clients rule) (req_Client request)
      \<and> patternsMatch (rule_Operations rule) (req_Operation request)
      \<and> targetsMatch r (rule_Effect rule) (rule_Targets rule) (req_Target request)
      \<and> attrsMatch r (rule_Effect rule) (rule_Attrs rule) (req_Operation request) (req_Attrs request))"

section \<open>Matching grants\<close>

text \<open>\<^verbatim>\<open>copyx.CanonicalStringSlice\<close>, \<^verbatim>\<open>copyx.StringSlicesEqual\<close>.\<close>

definition CanonicalStringSlice :: "string list \<Rightarrow> string list" where
  "CanonicalStringSlice values = (if values = [] then [] else compact (sort values))"

definition StringSlicesEqual :: "string list \<Rightarrow> string list \<Rightarrow> bool" where
  "StringSlicesEqual left right = (CanonicalStringSlice left = CanonicalStringSlice right)"

definition grantAttrConstraintMatches :: "AttrSpec \<Rightarrow> string list \<Rightarrow> string list \<Rightarrow> bool" where
  "grantAttrConstraintMatches spec allowed values =
     (if attr_GrantMatch spec = MatchUnset then StringSlicesEqual allowed values
      else allValuesMatch (attr_GrantMatch spec) allowed values)"

definition unconstrainedGrantAttrsAllowed ::
  "Registry \<Rightarrow> string list gomap \<Rightarrow> string list gomap \<Rightarrow> bool" where
  "unconstrainedGrantAttrsAllowed r constraints attrs =
     list_all (\<lambda>(name, _). hasKey constraints name \<or> attr_GrantMayOmit (attrAt r name)) attrs"

definition grantAttrsMatch :: "Registry \<Rightarrow> string list gomap \<Rightarrow> string list gomap \<Rightarrow> bool" where
  "grantAttrsMatch r constraints attrs =
     (if length constraints > length attrs then False
      else list_all (\<lambda>(name, allowed).
             (case map_of attrs name of
                None \<Rightarrow> False
              | Some values \<Rightarrow> grantAttrConstraintMatches (attrAt r name) allowed values)) constraints
           \<and> unconstrainedGrantAttrsAllowed r constraints attrs)"

definition requiredGrantTargetFieldsPresent :: "TargetSpec \<Rightarrow> string list gomap \<Rightarrow> bool" where
  "requiredGrantTargetFieldsPresent spec flds =
     list_all (\<lambda>(name, field). \<not> (field_Required field \<and> sliceAt flds name = [])) (spec_Fields spec)"

definition grantTargetMatches :: "Registry \<Rightarrow> Target \<Rightarrow> Target \<Rightarrow> bool" where
  "grantTargetMatches r constraint target =
     (if target_Kind constraint \<noteq> target_Kind target then False
      else (case map_of (reg_Targets r) (target_Kind target) of
              None \<Rightarrow> False
            | Some spec \<Rightarrow>
                requiredGrantTargetFieldsPresent spec (target_Fields constraint)
                \<and> list_all (\<lambda>(name, patterns).
                     (case map_of (spec_Fields spec) name of
                        None \<Rightarrow> False
                      | Some field \<Rightarrow>
                          allValuesMatch (field_Match field) patterns (sliceAt (target_Fields target) name)))
                   (target_Fields constraint)))"

definition grantMatches :: "Registry \<Rightarrow> PolicyGrant \<Rightarrow> Request \<Rightarrow> bool" where
  "grantMatches r grant request =
     (if pg_Client grant \<noteq> req_Client request \<or> pg_Operation grant \<noteq> req_Operation request then False
      else if \<not> grantTargetMatches r (pg_Target grant) (req_Target request) then False
      else if \<not> grantAttrsMatch r (pg_Attrs grant) (req_Attrs request) then False
      else pg_Unlimited grant \<or> pg_UsesLeft grant > 0)"

section \<open>values.go\<close>

definition SingletonValues :: "string gomap \<Rightarrow> string list gomap" where
  "SingletonValues values = map (\<lambda>(k, v). (k, [v])) values"

definition FirstValue :: "string list \<Rightarrow> string" where
  "FirstValue values = (case values of [] \<Rightarrow> [] | v # _ \<Rightarrow> v)"

definition MatchAll :: "MatchMode \<Rightarrow> string list \<Rightarrow> string list \<Rightarrow> bool" where
  "MatchAll mode patterns values = allValuesMatch mode patterns values"

section \<open>The segment automaton against a recursive reading\<close>

text \<open>What a path pattern means: \<^verbatim>\<open>**\<close> stands for any number of segments, any other segment
  is a glob for one segment.\<close>

fun segSpec :: "string list \<Rightarrow> string list \<Rightarrow> bool" where
  "segSpec [] vs = (vs = [])"
| "segSpec (p # ps) vs =
     (if p = ''**'' then segSpec ps vs \<or> (case vs of [] \<Rightarrow> False | _ # vs' \<Rightarrow> segSpec (p # ps) vs')
      else (case vs of [] \<Rightarrow> False | v # vs' \<Rightarrow> globMatches p v \<and> segSpec ps vs'))"

declare segSpec.simps(2) [simp del]

lemma segSpec_star: "segSpec (''**'' # ps) vs \<longleftrightarrow> (\<exists>xs ys. vs = xs @ ys \<and> segSpec ps ys)"
proof (induction vs)
  case Nil
  then show ?case by (simp add: segSpec.simps(2))
next
  case (Cons v vs)
  have "(\<exists>xs ys. v # vs = xs @ ys \<and> segSpec ps ys)
    \<longleftrightarrow> segSpec ps (v # vs) \<or> (\<exists>xs ys. vs = xs @ ys \<and> segSpec ps ys)"
    by (auto simp: Cons_eq_append_conv)
  then show ?case by (simp add: segSpec.simps(2)[of _ _ "v # vs"] Cons.IH)
qed

lemma segSpec_glob:
  "p \<noteq> ''**'' \<Longrightarrow> segSpec (p # ps) vs \<longleftrightarrow> (\<exists>v ys. vs = v # ys \<and> globMatches p v \<and> segSpec ps ys)"
  by (auto simp: segSpec.simps(2) split: list.splits)

lemma segSpec_append:
  "segSpec (ps @ qs) vs \<longleftrightarrow> (\<exists>xs ys. vs = xs @ ys \<and> segSpec ps xs \<and> segSpec qs ys)"
proof (induction ps arbitrary: vs)
  case (Cons p ps)
  show ?case
  proof (cases "p = ''**''")
    case True
    have "(\<exists>a b. vs = a @ b \<and> (\<exists>xs ys. b = xs @ ys \<and> segSpec ps xs \<and> segSpec qs ys))
      \<longleftrightarrow> (\<exists>xs ys. vs = xs @ ys \<and> (\<exists>a b. xs = a @ b \<and> segSpec ps b) \<and> segSpec qs ys)"
      by (auto, metis append_assoc, metis append_assoc)
    then show ?thesis using True by (simp add: segSpec_star Cons.IH)
  next
    case False
    have "(\<exists>v zs. vs = v # zs \<and> globMatches p v \<and> (\<exists>xs ys. zs = xs @ ys \<and> segSpec ps xs \<and> segSpec qs ys))
      \<longleftrightarrow> (\<exists>xs ys. vs = xs @ ys \<and> (\<exists>v zs. xs = v # zs \<and> globMatches p v \<and> segSpec ps zs) \<and> segSpec qs ys)"
      by (auto, metis append_Cons, blast)
    then show ?thesis using False by (simp add: segSpec_glob Cons.IH)
  qed
qed simp

lemma segSpec_single: "p \<noteq> ''**'' \<Longrightarrow> segSpec [p] ys \<longleftrightarrow> (\<exists>v. ys = [v] \<and> globMatches p v)"
  by (auto simp: segSpec_glob)

lemma segSpec_snoc_glob:
  "p \<noteq> ''**'' \<Longrightarrow> segSpec (ps @ [p]) vs \<longleftrightarrow> (\<exists>xs v. vs = xs @ [v] \<and> segSpec ps xs \<and> globMatches p v)"
  by (auto simp: segSpec_append segSpec_single)

lemma segSpec_snoc_star: "segSpec (ps @ [''**'']) vs \<longleftrightarrow> (\<exists>xs ys. vs = xs @ ys \<and> segSpec ps xs)"
  by (auto simp: segSpec_append segSpec_star)

text \<open>What the automaton's state \<open>i\<close> records after the values \<open>w\<close>: on a \<^verbatim>\<open>**\<close> segment the
  segment may already have taken some of them.\<close>

definition stateSpec :: "string list \<Rightarrow> nat \<Rightarrow> string list \<Rightarrow> bool" where
  "stateSpec ps i w =
     (if i < length ps \<and> ps ! i = ''**'' then segSpec (take (Suc i) ps) w else segSpec (take i ps) w)"

lemma stateSpec_star: "i < length ps \<Longrightarrow> ps ! i = ''**'' \<Longrightarrow> stateSpec ps i w = segSpec (take i ps @ [''**'']) w"
  by (simp add: stateSpec_def take_Suc_conv_app_nth)

lemma stateSpec_0_Nil: "stateSpec ps 0 []"
  by (cases ps) (auto simp: stateSpec_def segSpec_star)

lemma segSpec_snoc_Nil: "segSpec (ps @ [p]) [] \<longleftrightarrow> segSpec ps [] \<and> p = ''**''"
  by (cases "p = ''**''") (auto simp: segSpec_snoc_star segSpec_snoc_glob)

lemma segSpec_take_Nil:
  "i < length ps \<Longrightarrow> segSpec (take (Suc i) ps) [] \<longleftrightarrow> segSpec (take i ps) [] \<and> ps ! i = ''**''"
  by (simp add: take_Suc_conv_app_nth segSpec_snoc_Nil)

lemma stateSpec_Suc_Nil:
  "i < length ps \<Longrightarrow> stateSpec ps (Suc i) [] \<longleftrightarrow> stateSpec ps i [] \<and> ps ! i = ''**''"
  using segSpec_take_Nil[of i ps] segSpec_take_Nil[of "Suc i" ps] by (auto simp: stateSpec_def)

lemma stateSpec_0_snoc: "stateSpec ps 0 (w @ [v]) \<longleftrightarrow> stateSpec ps 0 w \<and> 0 < length ps \<and> ps ! 0 = ''**''"
  by (cases ps) (auto simp: stateSpec_def segSpec_star)

lemma append_snoc_split:
  "(\<exists>xs ys. w @ [v] = xs @ ys \<and> P xs) \<longleftrightarrow> P (w @ [v]) \<or> (\<exists>xs ys. w = xs @ ys \<and> P xs)"
proof -
  have "\<exists>xs ys. w = xs @ ys \<and> P xs" if "w @ [v] = xs @ ys" "P xs" "\<not> P (w @ [v])" for xs ys
  proof (cases ys rule: rev_exhaust)
    case Nil
    then show ?thesis using that by simp
  next
    case (snoc zs z)
    then show ?thesis using that by auto
  qed
  then show ?thesis by (metis append.assoc append.right_neutral)
qed

lemma segSpec_Suc_star_snoc:
  "i < length ps \<Longrightarrow> ps ! i = ''**'' \<Longrightarrow>
   segSpec (take (Suc i) ps) (w @ [v]) \<longleftrightarrow> segSpec (take i ps) (w @ [v]) \<or> segSpec (take (Suc i) ps) w"
  using append_snoc_split[of w v "segSpec (take i ps)"]
  by (simp add: take_Suc_conv_app_nth segSpec_snoc_star)

lemma segSpec_Suc_glob_snoc:
  "i < length ps \<Longrightarrow> ps ! i \<noteq> ''**'' \<Longrightarrow>
   segSpec (take (Suc i) ps) (w @ [v]) \<longleftrightarrow> segSpec (take i ps) w \<and> globMatches (ps ! i) v"
  by (auto simp: take_Suc_conv_app_nth segSpec_snoc_glob)

lemma stateSpec_Suc_snoc:
  assumes "i < length ps"
  shows "stateSpec ps (Suc i) (w @ [v]) \<longleftrightarrow>
    (Suc i < length ps \<and> ps ! Suc i = ''**'' \<and> stateSpec ps (Suc i) w)
    \<or> (ps ! i \<noteq> ''**'' \<and> stateSpec ps i w \<and> globMatches (ps ! i) v)
    \<or> (ps ! i = ''**'' \<and> stateSpec ps i (w @ [v]))"
  using assms segSpec_Suc_star_snoc[of "Suc i" ps w v] segSpec_Suc_glob_snoc[of i ps w v]
  by (auto simp: stateSpec_def)

section \<open>The automaton's steps\<close>

lemma fold_upt_length:
  "(\<And>i st. length (f i st) = length st) \<Longrightarrow> length (fold f is st) = length st"
  by (induction "is" arbitrary: st) auto

text \<open>The closure as a recursive predicate: a state is set when it was, or when the state before
  it is set on a \<^verbatim>\<open>**\<close> segment.\<close>

fun closed :: "bool list \<Rightarrow> string list \<Rightarrow> nat \<Rightarrow> bool" where
  "closed st ps 0 = st ! 0"
| "closed st ps (Suc i) = (st ! Suc i \<or> (closed st ps i \<and> ps ! i = ''**''))"

lemma closeDoubleStarStates_upto:
  fixes ps :: "string list"
  assumes "length st = Suc n" and "k \<le> n"
  defines "out \<equiv> fold (\<lambda>i st. if st ! i \<and> ps ! i = ''**'' then st[i + 1 := True] else st) [0..<k] st"
  shows "length out = Suc n \<and> (\<forall>i \<le> n. out ! i = (if i \<le> k then closed st ps i else st ! i))"
  using assms(2) unfolding out_def
proof (induction k)
  case (Suc k)
  let ?out = "fold (\<lambda>i st. if st ! i \<and> ps ! i = ''**'' then st[i + 1 := True] else st) [0..<k] st"
  have IH: "length ?out = Suc n" "\<And>i. i \<le> n \<Longrightarrow> ?out ! i = (if i \<le> k then closed st ps i else st ! i)"
    using Suc by auto
  have "?out ! k = closed st ps k" "?out ! Suc k = st ! Suc k" using IH(2) Suc.prems by auto
  then show ?case using IH Suc.prems by (auto simp: nth_list_update le_Suc_eq)
qed (use assms(1) in auto)

lemma closeDoubleStarStates_nth:
  "length st = Suc (length ps) \<Longrightarrow> i \<le> length ps \<Longrightarrow>
   closeDoubleStarStates st ps ! i = closed st ps i"
  using closeDoubleStarStates_upto[of st "length ps" "length ps" ps]
  by (simp add: closeDoubleStarStates_def)

lemma closeDoubleStarStates_length [simp]: "length (closeDoubleStarStates st ps) = length st"
  unfolding closeDoubleStarStates_def by (rule fold_upt_length) simp

lemma advance_raw_nth:
  assumes "length st = Suc n" and "k \<le> n" and "i \<le> n"
  shows "fold (\<lambda>i next. if \<not> st ! i then next
                       else if ps ! i = ''**'' then next[i := True]
                       else if globMatches (ps ! i) v then next[i + 1 := True]
                       else next) [0..<k] (replicate (length st) False) ! i
    \<longleftrightarrow> (i < k \<and> st ! i \<and> ps ! i = ''**'')
      \<or> (0 < i \<and> i \<le> k \<and> st ! (i - 1) \<and> ps ! (i - 1) \<noteq> ''**'' \<and> globMatches (ps ! (i - 1)) v)"
  using assms(2)
proof (induction k)
  case 0
  then show ?case using assms(1,3) by (cases i) (simp_all del: replicate_Suc)
next
  case (Suc k)
  let ?f = "\<lambda>i next. if \<not> st ! i then next else if ps ! i = ''**'' then next[i := True]
    else if globMatches (ps ! i) v then next[i + 1 := True] else next"
  define out where "out = fold ?f [0..<k] (replicate (length st) False)"
  have len: "length out = Suc n" unfolding out_def by (subst fold_upt_length) (auto simp: assms(1))
  have IH: "out ! i \<longleftrightarrow> (i < k \<and> st ! i \<and> ps ! i = ''**'')
      \<or> (0 < i \<and> i \<le> k \<and> st ! (i - 1) \<and> ps ! (i - 1) \<noteq> ''**'' \<and> globMatches (ps ! (i - 1)) v)"
    using Suc unfolding out_def by simp
  have "?f k out ! i \<longleftrightarrow> (i < Suc k \<and> st ! i \<and> ps ! i = ''**'')
      \<or> (0 < i \<and> i \<le> Suc k \<and> st ! (i - 1) \<and> ps ! (i - 1) \<noteq> ''**'' \<and> globMatches (ps ! (i - 1)) v)"
    using IH len assms(3) Suc.prems by (cases "i = Suc k"; cases "i = k") (auto simp: nth_list_update)
  moreover have "fold ?f [0..<Suc k] (replicate (length st) False) = ?f k out" by (simp add: out_def)
  ultimately show ?case by (simp only:)
qed

lemma advancePathStates_length [simp]: "length (advancePathStates st ps v) = length st"
  unfolding advancePathStates_def by (simp, subst fold_upt_length) auto

lemma initial_states_spec:
  "i \<le> length ps \<Longrightarrow>
   closed (True # replicate (length ps) False) ps i \<longleftrightarrow> stateSpec ps i []"
  by (induction i) (auto simp: stateSpec_0_Nil stateSpec_Suc_Nil)

lemma advancePathStates_spec:
  assumes len: "length st = Suc (length ps)"
    and spec: "\<And>i. i \<le> length ps \<Longrightarrow> st ! i = stateSpec ps i w"
    and i: "i \<le> length ps"
  shows "advancePathStates st ps v ! i = stateSpec ps i (w @ [v])"
proof -
  let ?raw = "fold (\<lambda>i next. if \<not> st ! i then next
                       else if ps ! i = ''**'' then next[i := True]
                       else if globMatches (ps ! i) v then next[i + 1 := True]
                       else next) [0..<length ps] (replicate (length st) False)"
  have raw_len: "length ?raw = Suc (length ps)" by (subst fold_upt_length) (auto simp: len)
  note raw = advance_raw_nth[OF len order_refl, of _ ps v]
  have "closed ?raw ps i = stateSpec ps i (w @ [v])" using i
  proof (induction i)
    case 0
    then show ?case by (simp add: raw spec stateSpec_0_snoc conj_ac)
  next
    case (Suc i)
    then show ?case by (auto simp: raw spec stateSpec_Suc_snoc)
  qed
  then show ?thesis
    using closeDoubleStarStates_nth[OF raw_len i] by (simp add: advancePathStates_def)
qed

lemma automaton_spec:
  assumes "length st = Suc (length ps)" and "\<And>i. i \<le> length ps \<Longrightarrow> st ! i = stateSpec ps i w"
  shows "fold (\<lambda>v states. advancePathStates states ps v) vs st ! length ps = stateSpec ps (length ps) (w @ vs)"
  using assms
proof (induction vs arbitrary: st w)
  case (Cons v vs)
  then show ?case
    using Cons.IH[of "advancePathStates st ps v" "w @ [v]"] advancePathStates_spec[of st ps w] by simp
qed simp

lemma pathSegmentsMatch_spec: "pathSegmentsMatch ps vs \<longleftrightarrow> segSpec ps vs"
proof -
  let ?st = "closeDoubleStarStates (True # replicate (length ps) False) ps"
  have "?st ! i = stateSpec ps i []" if "i \<le> length ps" for i
    using that by (simp add: closeDoubleStarStates_nth initial_states_spec)
  then show ?thesis
    using automaton_spec[of ?st ps "[]" vs] by (simp add: pathSegmentsMatch_def stateSpec_def)
qed

section \<open>Patterns without metacharacters\<close>

definition plain :: "string \<Rightarrow> bool" where
  "plain s = (CHR ''*'' \<notin> set s \<and> CHR ''?'' \<notin> set s)"

lemma plain_not_star: "plain s \<Longrightarrow> s \<noteq> ''**''"
  by (auto simp: plain_def)

lemma recursiveSegmentExpression_plain: "plain s \<Longrightarrow> recursiveSegmentExpression s = map ReByte s"
  by (induction s) (auto simp: plain_def)

lemma compactLoop_plain: "list_all plain ss \<Longrightarrow> compactLoop out ss = out @ ss"
  by (induction ss arbitrary: out) (auto simp: plain_not_star)

lemma expressionLoop_plain:
  "list_all plain ss \<Longrightarrow>
   expressionLoop n sep i ss = (if sep \<and> ss \<noteq> [] then [ReByte (CHR ''/'')] else [])
     @ map ReByte (joinWith (CHR ''/'') ss)"
proof (induction ss arbitrary: sep i)
  case (Cons s ss)
  then show ?case
    by (cases ss) (auto simp: plain_not_star recursiveSegmentExpression_plain)
qed simp

lemma reMatch_bytes: "reMatch (map ReByte p) s \<longleftrightarrow> s = p"
  by (induction p arbitrary: s) (auto split: list.splits)

lemma splitOn_chars: "q \<in> set (splitOn c s) \<Longrightarrow> set q \<subseteq> set s"
proof (induction s arbitrary: q)
  case (Cons x xs)
  show ?case
  proof (cases "splitOn c xs")
    case (Cons p ps)
    then show ?thesis using Cons.IH[of p] Cons.IH[of q] Cons.prems by (cases "x = c") auto
  qed simp
qed simp

lemma splitOn_plain: "plain p \<Longrightarrow> list_all plain (splitOn (CHR ''/'') p)"
  using splitOn_chars[of _ "CHR ''/''" p] by (force simp: list_all_iff plain_def)

lemma recursive_plain_match: "plain p \<Longrightarrow> reMatch (recursivePathExpression p) v \<longleftrightarrow> v = p"
  by (simp add: recursivePathExpression_def compactRecursiveSegments_def Let_def compactLoop_plain
      expressionLoop_plain splitOn_plain reMatch_bytes join_split)

section \<open>Value sets as quantifiers\<close>

lemma recursivePathPatternsMatch_iff:
  "recursivePathPatternsMatch ps v \<longleftrightarrow>
   validPathValue v \<and> (\<exists>p\<in>set ps. validUTF8 p \<and> reMatch (recursivePathExpression p) v)"
  by (auto simp: recursivePathPatternsMatch_def compiledRecursivePathPatternsMatch_def
      compileRecursivePathPatterns_def list_ex_iff)

lemma recursiveValuesLoop_any:
  "recursiveValuesLoop (compileRecursivePathPatterns ps) False vs
   = (if list_ex (recursivePathPatternsMatch ps) vs then Some True else None)"
  by (induction vs) (auto simp: recursivePathPatternsMatch_def Let_def)

lemma recursiveValuesLoop_all:
  "recursiveValuesLoop (compileRecursivePathPatterns ps) True vs
   = (if list_all (recursivePathPatternsMatch ps) vs then None else Some False)"
  by (induction vs) (auto simp: recursivePathPatternsMatch_def Let_def)

lemma recursivePathValuesMatch_any:
  "recursivePathValuesMatch ps vs False \<longleftrightarrow> list_ex (recursivePathPatternsMatch ps) vs"
  by (simp add: recursivePathValuesMatch_def recursiveValuesLoop_any)

lemma recursivePathValuesMatch_all:
  "recursivePathValuesMatch ps vs True \<longleftrightarrow> vs \<noteq> [] \<and> list_all (recursivePathPatternsMatch ps) vs"
  by (simp add: recursivePathValuesMatch_def recursiveValuesLoop_all)

lemma valuesMatch_recursive:
  "defaultedMatchMode mode = MatchRecursivePathGlob \<Longrightarrow>
   valuesMatch mode ps = recursivePathPatternsMatch ps"
  by (simp add: valuesMatch_def fun_eq_iff)

lemma anyValueMatches_iff: "anyValueMatches mode ps vs \<longleftrightarrow> (\<exists>v\<in>set vs. valuesMatch mode ps v)"
  by (simp add: anyValueMatches_def recursivePathValuesMatch_any valuesMatch_recursive list_ex_iff)

lemma allValuesMatch_iff:
  "allValuesMatch mode ps vs \<longleftrightarrow>
   (if defaultedMatchMode mode = MatchAnyGlob then \<exists>v\<in>set vs. valuesMatch mode ps v
    else vs \<noteq> [] \<and> (\<forall>v\<in>set vs. valuesMatch mode ps v))"
  by (auto simp: allValuesMatch_def recursivePathValuesMatch_all valuesMatch_recursive list_all_iff
      anyValueMatches_iff)

lemma allValuesMatch_imp_any: "allValuesMatch mode ps vs \<Longrightarrow> anyValueMatches mode ps vs"
  by (auto simp: allValuesMatch_iff anyValueMatches_iff split: if_splits) (metis list.set_intros(1) neq_Nil_conv)

section \<open>Properties\<close>

text \<open>
  C40. The path mode's state-set automaton decides exactly the recursive reading of a pattern: \<^verbatim>\<open>**\<close> stands for
  any number of segments, every other segment is a glob for one segment.
\<close>

theorem pathSegmentsMatch_is_reference: "pathSegmentsMatch patterns values \<longleftrightarrow> segSpec patterns values"
  by (rule pathSegmentsMatch_spec)

text \<open>
  Deny rules match as soon as one value matches; other rules need every value to match (one, in the
  any-glob mode) and at least one value. This holds in every mode, although the recursive mode has
  its own loop.
\<close>

lemma effectValuesMatch_quantifiers:
  "effectValuesMatch effect mode patterns values \<longleftrightarrow>
     (if effect = EffectDeny \<or> defaultedMatchMode mode = MatchAnyGlob
      then \<exists>v\<in>set values. valuesMatch mode patterns v
      else values \<noteq> [] \<and> (\<forall>v\<in>set values. valuesMatch mode patterns v))"
  by (simp add: effectValuesMatch_def anyValueMatches_iff allValuesMatch_iff)

end
