(* ===== verification/GrantTypes.thy ===== *)
theory GrantTypes
  imports PolicyMatch
begin

text \<open>
  The data of the grant store: \<^verbatim>\<open>authorization/grants/grants.go\<close>, \<^verbatim>\<open>uses.go\<close>, \<^verbatim>\<open>lifecycle.go\<close>,
  \<^verbatim>\<open>metadata.go\<close> and \<^verbatim>\<open>authorization/activation/failure.go\<close>. A grant, a use of it, a lifecycle event, an operator
  decision record, the durable state that holds them, and the validation that every load performs.

  Revisions and counts are Go integers that only grow by one; they are unbounded here. A zero
  time is 0. JSON decoding and file or SQLite access sit outside: \<open>fileData\<close> is the decoded state.
\<close>

section \<open>Activation failures\<close>

datatype Code =
    CodeUnset | CodePlanUnavailable | CodePlanMismatch | CodeCredentialChanged | CodeCredentialInsufficient
  | CodeConstraintExceeded | CodeStorageUnavailable | CodeTemporarilyUnavailable | CodeInternalError | CodeOther string

datatype Stage = StagePlan | StageCredential | StageConstraints | StageStorage | StageDependency | StageInternal

record Failure =
  fail_Code :: Code
  fail_Stage :: Stage
  fail_Retryable :: bool

text \<open>\<^verbatim>\<open>specifications\<close>.\<close>

definition specifications :: "Code \<Rightarrow> (Stage \<times> bool) option" where
  "specifications c =
     (case c of
        CodePlanUnavailable \<Rightarrow> Some (StagePlan, False)
      | CodePlanMismatch \<Rightarrow> Some (StagePlan, False)
      | CodeCredentialChanged \<Rightarrow> Some (StageCredential, False)
      | CodeCredentialInsufficient \<Rightarrow> Some (StageCredential, False)
      | CodeConstraintExceeded \<Rightarrow> Some (StageConstraints, False)
      | CodeStorageUnavailable \<Rightarrow> Some (StageStorage, True)
      | CodeTemporarilyUnavailable \<Rightarrow> Some (StageDependency, True)
      | CodeInternalError \<Rightarrow> Some (StageInternal, True)
      | _ \<Rightarrow> None)"

definition Failure_New :: "Code \<Rightarrow> Failure" where
  "Failure_New code =
     (case specifications code of
        None \<Rightarrow> \<lparr>fail_Code = CodeInternalError, fail_Stage = StageInternal, fail_Retryable = True\<rparr>
      | Some (stage, retryable) \<Rightarrow> \<lparr>fail_Code = code, fail_Stage = stage, fail_Retryable = retryable\<rparr>)"

definition Known :: "Code \<Rightarrow> bool" where
  "Known code = (specifications code \<noteq> None)"

section \<open>Grants, uses, events and decision records\<close>

datatype Status =
    StatusUnset | StatusPending | StatusActive | StatusDenied | StatusFailed | StatusExpired
  | StatusConsumed | StatusRevoked | StatusCanceled | StatusOther string

datatype UseState = UseReserved | UseCommitted | UseReleased | UseRetained | UseOther string

datatype EventKind =
    EventRequestCreated | EventRequestApproved | EventRequestDenied | EventRequestFailed | EventRequestCanceled
  | EventRequestExpired | EventGrantRevoked | EventGrantReserved | EventGrantConsumed | EventGrantReleased
  | EventExecutionSucceeded | EventExecutionFailed | EventExecutionAmbiguous | EventOther string

record Grant =
  g_ID :: string
  g_Client :: string
  g_ClientRequestID :: string
  g_Operation :: string
  g_Target :: Target
  g_Attrs :: "string list gomap"
  g_Metadata :: "string gomap"
  g_Reason :: string
  g_Status :: Status
  g_Revision :: int
  g_CreatedAt :: gotime
  g_PendingExpiresAt :: gotime
  g_ExpiresAt :: gotime
  g_Duration :: duration
  g_RequestedDuration :: duration
  g_PendingTimeout :: duration
  g_DecidedAt :: gotime
  g_DecidedBy :: string
  g_DecidedOnBehalfOf :: string
  g_FailureCode :: Code
  g_FailureReference :: string
  g_FailedAt :: gotime
  g_UsedAt :: gotime
  g_UsedCount :: int
  g_UseRevision :: int
  g_ReservedCount :: int
  g_ReservedAt :: gotime
  g_ReservationRetained :: bool
  g_ReservationRevision :: int
  g_MaxUses :: Limit
  g_RequestedMaxUses :: Limit
  g_RequestedMaxUsesDefaulted :: bool
  g_ExpiredFrom :: Status

definition zeroGrant :: Grant where
  "zeroGrant =
     \<lparr>g_ID = [], g_Client = [], g_ClientRequestID = [], g_Operation = [],
      g_Target = \<lparr>target_Kind = [], target_Fields = []\<rparr>, g_Attrs = [], g_Metadata = [], g_Reason = [],
      g_Status = StatusUnset, g_Revision = 0, g_CreatedAt = 0, g_PendingExpiresAt = 0, g_ExpiresAt = 0,
      g_Duration = 0, g_RequestedDuration = 0, g_PendingTimeout = 0, g_DecidedAt = 0, g_DecidedBy = [],
      g_DecidedOnBehalfOf = [], g_FailureCode = CodeUnset, g_FailureReference = [], g_FailedAt = 0, g_UsedAt = 0,
      g_UsedCount = 0, g_UseRevision = 0, g_ReservedCount = 0, g_ReservedAt = 0, g_ReservationRetained = False,
      g_ReservationRevision = 0, g_MaxUses = 0, g_RequestedMaxUses = 0, g_RequestedMaxUsesDefaulted = False,
      g_ExpiredFrom = StatusUnset\<rparr>"

record GrantUse =
  u_GrantID :: string
  u_RequestID :: string
  u_Operation :: string
  u_State :: UseState
  u_Revision :: int
  u_CreatedAt :: gotime
  u_UpdatedAt :: gotime
  u_SettledAt :: gotime

record lifecycleEventRecord =
  ev_Sequence :: nat
  ev_Kind :: EventKind
  ev_GrantID :: string
  ev_Status :: Status
  ev_UsedCount :: int
  ev_ReservedCount :: int
  ev_Revision :: int
  ev_Time :: gotime
  ev_Approver :: string
  ev_PreviousStatus :: Status
  ev_PreviousRevision :: int
  ev_ExpectedRevision :: int

record decisionRecord =
  dr_Scope :: string
  dr_CommandHash :: string
  dr_Result :: Grant
  dr_Previous :: Grant
  dr_EventCursor :: string
  dr_FailureCode :: Code
  dr_FailureReference :: string
  dr_CommittedAt :: gotime

record fileData =
  fd_Grants :: "Grant list"
  fd_Uses :: "GrantUse list"
  fd_Events :: "lifecycleEventRecord list"
  fd_NextEvent :: nat
  fd_DecisionRecords :: "decisionRecord list"

text \<open>The state of a store without a file.\<close>

definition emptyState :: fileData where
  "emptyState = \<lparr>fd_Grants = [], fd_Uses = [], fd_Events = [], fd_NextEvent = 1, fd_DecisionRecords = []\<rparr>"

datatype grantError =
    ErrNotFound | ErrNotPending | ErrNotActive | ErrIdempotencyConflict | ErrUnsupportedState | ErrCapacity
  | ErrInvalidCursor | ErrCursorExpired | ErrUseIdentityConflict | ErrUseSettled
  | ErrRevisionConflict Grant | ErrInvalidCommand | ErrInvalidTransition | ErrConstraintExceeded
  | ErrInvalidQuery | ErrInvalidGrantCursor
  | ErrActivation Failure
  | ErrRequired | ErrReasonRequired | ErrNameRequired string | ErrValuesEmpty string string | ErrEmptyValue string string
  | ErrMetadataMode | ErrMetadataEntries | ErrMetadataKey string | ErrMetadataValue string
  | ErrDurationExceeds | ErrMaxUsesNegative | ErrMaxUsesExceeds
  | ErrEventsOrder | ErrNextEvent | ErrEventLimit | ErrExecutionKind
  | ErrPlanInvalid | ErrPlanDigest | ErrPlanConflict | ErrSQLiteRequired
  | ErrNewID | ErrSave
  | ErrOther string
  | ErrUnsupported grantError
  | ErrJoin grantError grantError

text \<open>\<^verbatim>\<open>activation.As\<close>: the first typed failure in an error's tree.\<close>

fun Failure_As :: "grantError \<Rightarrow> Failure option" where
  "Failure_As (ErrActivation f) = Some f"
| "Failure_As (ErrUnsupported e) = Failure_As e"
| "Failure_As (ErrJoin a b) = (case Failure_As a of Some f \<Rightarrow> Some f | None \<Rightarrow> Failure_As b)"
| "Failure_As _ = None"

definition Classify :: "grantError \<Rightarrow> Failure" where
  "Classify e = (case Failure_As e of Some f \<Rightarrow> f | None \<Rightarrow> Failure_New CodeInternalError)"

section \<open>Store options\<close>

text \<open>The clock and the identifier source of \<^verbatim>\<open>Options\<close> are arguments of the operations that call them.\<close>

record Options =
  o_PendingTimeout :: duration
  o_DefaultDuration :: duration
  o_MaxDuration :: duration
  o_ReservationTimeout :: duration
  o_MaxEvents :: int
  o_MaxPendingPerClient :: int
  o_MaxPendingGlobal :: int

definition minute :: duration where "minute = 60 * 1000000000"

definition defaultPendingTimeout :: duration where "defaultPendingTimeout = 5 * minute"
definition defaultDuration :: duration where "defaultDuration = 5 * minute"
definition defaultMaxDuration :: duration where "defaultMaxDuration = 60 * minute"
definition defaultReservationTimeout :: duration where "defaultReservationTimeout = 5 * minute"
definition defaultMaxEvents :: int where "defaultMaxEvents = 10000"
definition defaultMaxPendingPerClient :: int where "defaultMaxPendingPerClient = 10"
definition defaultMaxPendingGlobal :: int where "defaultMaxPendingGlobal = 512"

definition defaultStoreBounds :: "Options \<Rightarrow> Options" where
  "defaultStoreBounds opts =
     \<lparr>o_PendingTimeout = (if o_PendingTimeout opts \<le> 0 then defaultPendingTimeout else o_PendingTimeout opts),
      o_DefaultDuration = (if o_DefaultDuration opts \<le> 0 then defaultDuration else o_DefaultDuration opts),
      o_MaxDuration = (if o_MaxDuration opts \<le> 0 then defaultMaxDuration else o_MaxDuration opts),
      o_ReservationTimeout = (if o_ReservationTimeout opts \<le> 0 then defaultReservationTimeout else o_ReservationTimeout opts),
      o_MaxEvents = (if o_MaxEvents opts \<le> 0 then defaultMaxEvents else o_MaxEvents opts),
      o_MaxPendingPerClient = (if o_MaxPendingPerClient opts \<le> 0 then defaultMaxPendingPerClient else o_MaxPendingPerClient opts),
      o_MaxPendingGlobal = (if o_MaxPendingGlobal opts \<le> 0 then defaultMaxPendingGlobal else o_MaxPendingGlobal opts)\<rparr>"

text \<open>What \<^verbatim>\<open>defaultStoreBounds\<close> establishes.\<close>

definition validOptions :: "Options \<Rightarrow> bool" where
  "validOptions opts =
     (0 < o_PendingTimeout opts \<and> 0 < o_DefaultDuration opts \<and> 0 < o_MaxDuration opts \<and> 0 < o_ReservationTimeout opts
      \<and> 0 < o_MaxEvents opts \<and> 0 < o_MaxPendingPerClient opts \<and> 0 < o_MaxPendingGlobal opts)"

lemma defaultStoreBounds_valid: "validOptions (defaultStoreBounds opts)"
  by (simp add: validOptions_def defaultStoreBounds_def defaultPendingTimeout_def defaultDuration_def
      defaultMaxDuration_def defaultReservationTimeout_def defaultMaxEvents_def defaultMaxPendingPerClient_def
      defaultMaxPendingGlobal_def minute_def)

section \<open>Metadata and value maps\<close>

definition MetadataMode :: string where "MetadataMode = ''grant_mode''"
definition maxMetadataEntries :: nat where "maxMetadataEntries = 32"
definition maxMetadataKeyBytes :: nat where "maxMetadataKeyBytes = 128"
definition maxMetadataValueBytes :: nat where "maxMetadataValueBytes = 4096"

definition normalizeRequestMetadata :: "string gomap \<Rightarrow> string gomap" where
  "normalizeRequestMetadata metadata =
     (if hasKey metadata MetadataMode then metadata else mapSet MetadataMode ''window'' metadata)"

definition validMetadataMode :: "string \<Rightarrow> bool" where
  "validMetadataMode mode = (mode = ''window'' \<or> mode = ''execution'')"

definition validateMetadataEntry :: "string \<Rightarrow> string \<Rightarrow> grantError option" where
  "validateMetadataEntry key value =
     orElse (failIf (trimSpace key \<noteq> key \<or> key = [] \<or> length key > maxMetadataKeyBytes) (ErrMetadataKey key))
       (failIf (blank value \<or> length value > maxMetadataValueBytes) (ErrMetadataValue key))"

definition validateMetadata :: "string gomap \<Rightarrow> grantError option" where
  "validateMetadata metadata =
     orElse (failIf (\<not> validMetadataMode (stringAt metadata MetadataMode)) ErrMetadataMode)
      (orElse (failIf (length metadata > maxMetadataEntries) ErrMetadataEntries)
        (firstError (\<lambda>(k, v). validateMetadataEntry k v) metadata))"

definition stringMapsEqual :: "string gomap \<Rightarrow> string gomap \<Rightarrow> bool" where
  "stringMapsEqual left right =
     (length left = length right \<and> list_all (\<lambda>(k, v). stringAt right k = v) left)"

definition StringSliceMapsEqual :: "string list gomap \<Rightarrow> string list gomap \<Rightarrow> bool" where
  "StringSliceMapsEqual left right =
     (length left = length right
      \<and> list_all (\<lambda>(k, lv). case map_of right k of None \<Rightarrow> False | Some rv \<Rightarrow> StringSlicesEqual lv rv) left)"

definition CanonicalStringSliceMap :: "string list gomap \<Rightarrow> string list gomap" where
  "CanonicalStringSliceMap m = map (\<lambda>(k, v). (k, CanonicalStringSlice v)) m"

definition validateValueMap :: "string \<Rightarrow> string list gomap \<Rightarrow> grantError option" where
  "validateValueMap kind values =
     firstError (\<lambda>(name, vs).
        orElse (failIf (blank name) (ErrNameRequired kind))
         (orElse (failIf (vs = []) (ErrValuesEmpty kind name))
           (firstError (\<lambda>v. failIf (blank v) (ErrEmptyValue kind name)) vs)))
       values"

text \<open>\<^verbatim>\<open>plandigest.Valid\<close>: 64 hexadecimal digits.\<close>

definition hexDigit :: "char \<Rightarrow> bool" where
  "hexDigit c = (isDigit c \<or> c \<in> set ''abcdefABCDEF'')"

definition plandigest_Valid :: "string \<Rightarrow> bool" where
  "plandigest_Valid value = (length value = 64 \<and> list_all hexDigit value)"

fun planDigestLoop :: "string \<Rightarrow> string gomap \<Rightarrow> grantError + string" where
  "planDigestLoop found [] = Inr found"
| "planDigestLoop found ((key, value) # m) =
     (if \<not> hasSuffix key ''_plan_digest'' then planDigestLoop found m
      else if \<not> plandigest_Valid value then Inl ErrPlanDigest
      else if found \<noteq> [] \<and> found \<noteq> value then Inl ErrPlanConflict
      else planDigestLoop value m)"

definition metadataPlanDigest :: "string gomap \<Rightarrow> grantError + string" where
  "metadataPlanDigest metadata = planDigestLoop [] metadata"

section \<open>Operator identities\<close>

definition maxApproverBytes :: nat where "maxApproverBytes = 200"

text \<open>\<^verbatim>\<open>unicode.IsControl\<close>.\<close>

definition isControl :: "nat \<Rightarrow> bool" where
  "isControl r = (r < 32 \<or> 127 \<le> r \<and> r < 160)"

function noControlRunes :: "string \<Rightarrow> bool" where
  "noControlRunes s =
     (if s = [] then True
      else if isControl (fst (decodeRune s)) then False
      else noControlRunes (drop (runeWidth s) s))"
  by pat_completeness auto
termination
  by (relation "measure length") auto

declare noControlRunes.simps [simp del]

definition safeOperatorIdentity :: "string \<Rightarrow> bool" where
  "safeOperatorIdentity value =
     (if length value > maxApproverBytes \<or> \<not> validUTF8 value then False else noControlRunes value)"

section \<open>Validation of loaded state\<close>

definition validStoredStatus :: "Status \<Rightarrow> bool" where
  "validStoredStatus status =
     (case status of StatusUnset \<Rightarrow> False | StatusOther _ \<Rightarrow> False | _ \<Rightarrow> True)"

definition validGrantIdentity :: "Grant \<Rightarrow> string list \<Rightarrow> bool" where
  "validGrantIdentity grant seen =
     (g_ID grant \<noteq> [] \<and> g_ID grant \<notin> set seen \<and> g_Client grant \<noteq> [] \<and> g_Operation grant \<noteq> []
      \<and> target_Kind (g_Target grant) \<noteq> [] \<and> g_Reason grant \<noteq> [])"

definition validGrantFailure :: "Grant \<Rightarrow> bool" where
  "validGrantFailure grant =
     (if g_Status grant = StatusFailed then
        Known (g_FailureCode grant) \<and> g_FailedAt grant \<noteq> 0 \<and> length (g_FailureReference grant) \<le> 128
        \<and> (g_FailureReference grant = [] \<or> safeOperatorIdentity (g_FailureReference grant))
      else g_FailureCode grant = CodeUnset \<and> g_FailureReference grant = [] \<and> g_FailedAt grant = 0)"

definition validGrantLifecycle :: "Grant \<Rightarrow> bool" where
  "validGrantLifecycle grant =
     (validStoredStatus (g_Status grant) \<and> validGrantFailure grant \<and> g_Revision grant \<ge> 1
      \<and> g_CreatedAt grant \<noteq> 0 \<and> g_PendingExpiresAt grant \<noteq> 0 \<and> g_Duration grant > 0
      \<and> g_RequestedDuration grant > 0 \<and> g_PendingTimeout grant > 0)"

definition validGrantUsage :: "Grant \<Rightarrow> bool" where
  "validGrantUsage grant =
     (g_MaxUses grant \<ge> 0 \<and> g_RequestedMaxUses grant \<ge> 0 \<and> g_UsedCount grant \<ge> 0
      \<and> g_ReservedCount grant \<ge> 0 \<and> g_UseRevision grant \<ge> g_UsedCount grant)"

definition validGrantReservation :: "Grant \<Rightarrow> bool" where
  "validGrantReservation grant =
     (g_ReservedCount grant = 0 \<or> (g_ReservedAt grant \<noteq> 0 \<and> g_ReservationRevision grant \<ge> 1))"

definition validateLoadedGrantMaps :: "Grant \<Rightarrow> grantError option" where
  "validateLoadedGrantMaps grant =
     map_option ErrUnsupported
       (orElse (validateValueMap ''target field'' (target_Fields (g_Target grant)))
         (orElse (validateValueMap ''attr'' (g_Attrs grant)) (validateMetadata (g_Metadata grant))))"

definition validateLoadedGrant :: "Grant \<Rightarrow> string list \<Rightarrow> grantError option" where
  "validateLoadedGrant grant seen =
     (if \<not> validGrantIdentity grant seen \<or> \<not> validGrantLifecycle grant \<or> \<not> validGrantUsage grant
         \<or> \<not> validGrantReservation grant
      then Some ErrUnsupportedState else validateLoadedGrantMaps grant)"

fun loadedGrantsLoop :: "string list \<Rightarrow> Grant list \<Rightarrow> grantError option" where
  "loadedGrantsLoop seen [] = None"
| "loadedGrantsLoop seen (g # gs) =
     orElse (validateLoadedGrant g seen) (loadedGrantsLoop (g_ID g # seen) gs)"

definition validateLoadedGrants :: "Grant list \<Rightarrow> grantError option" where
  "validateLoadedGrants items = loadedGrantsLoop [] items"

definition validUseIdentity :: "string \<Rightarrow> string \<Rightarrow> string \<Rightarrow> bool" where
  "validUseIdentity grantID requestID operation =
     (grantID \<noteq> [] \<and> length grantID \<le> 128 \<and> requestID \<noteq> [] \<and> length requestID \<le> 128
      \<and> operation \<noteq> [] \<and> length operation \<le> 128
      \<and> \<not> containsAny requestID [CHR '' '', CHR 0x09, CHR 0x0D, CHR 0x0A])"

definition validUseState :: "UseState \<Rightarrow> bool" where
  "validUseState state = (case state of UseOther _ \<Rightarrow> False | _ \<Rightarrow> True)"

definition useStateSettled :: "UseState \<Rightarrow> bool" where
  "useStateSettled state = (state = UseCommitted \<or> state = UseReleased)"

definition validUseSettlementTime :: "GrantUse \<Rightarrow> bool" where
  "validUseSettlementTime use =
     ((u_State use = UseCommitted \<or> u_State use = UseReleased) = (u_SettledAt use \<noteq> 0)
      \<and> (u_SettledAt use = 0 \<or> \<not> u_SettledAt use < u_UpdatedAt use))"

definition validLoadedUseLifecycle :: "GrantUse \<Rightarrow> bool" where
  "validLoadedUseLifecycle use =
     (if \<not> validUseState (u_State use) \<or> u_Revision use < 1 then False
      else u_CreatedAt use \<noteq> 0 \<and> \<not> u_UpdatedAt use < u_CreatedAt use \<and> validUseSettlementTime use)"

definition validLoadedUseIdentity :: "GrantUse \<Rightarrow> Grant \<Rightarrow> bool" where
  "validLoadedUseIdentity use grant =
     (validUseIdentity (u_GrantID use) (u_RequestID use) (u_Operation use) \<and> g_Operation grant = u_Operation use)"

definition validLoadedUse :: "GrantUse \<Rightarrow> Grant \<Rightarrow> bool" where
  "validLoadedUse use grant = (validLoadedUseIdentity use grant \<and> validLoadedUseLifecycle use)"

section \<open>Aggregates of a grant's uses\<close>

definition aggregateGrantUse :: "Grant \<Rightarrow> GrantUse \<Rightarrow> Grant" where
  "aggregateGrantUse grant use =
     (case u_State use of
        UseCommitted \<Rightarrow>
          grant\<lparr>g_UsedCount := g_UsedCount grant + 1,
                g_UsedAt := (if g_UsedAt grant < u_SettledAt use then u_SettledAt use else g_UsedAt grant)\<rparr>
      | UseReserved \<Rightarrow>
          grant\<lparr>g_ReservedCount := g_ReservedCount grant + 1,
                g_ReservedAt := (if g_ReservedAt grant = 0 \<or> u_UpdatedAt use < g_ReservedAt grant
                                 then u_UpdatedAt use else g_ReservedAt grant)\<rparr>
      | UseRetained \<Rightarrow>
          grant\<lparr>g_ReservedCount := g_ReservedCount grant + 1,
                g_ReservedAt := (if g_ReservedAt grant = 0 \<or> u_UpdatedAt use < g_ReservedAt grant
                                 then u_UpdatedAt use else g_ReservedAt grant),
                g_ReservationRetained := True\<rparr>
      | _ \<Rightarrow> grant)"

definition aggregateGrantUses :: "Grant \<Rightarrow> GrantUse list \<Rightarrow> Grant" where
  "aggregateGrantUses grant uses =
     fold (\<lambda>use g. if u_GrantID use = g_ID g then aggregateGrantUse g use else g) uses
       (grant\<lparr>g_UsedCount := 0, g_ReservedCount := 0, g_ReservedAt := 0, g_ReservationRetained := False, g_UsedAt := 0\<rparr>)"

definition useRevisionTotal :: "string \<Rightarrow> GrantUse list \<Rightarrow> int" where
  "useRevisionTotal grantID uses = sum_list (map u_Revision (filter (\<lambda>u. u_GrantID u = grantID) uses))"

record grantUseAggregate =
  agg_UsedCount :: int
  agg_ReservedCount :: int
  agg_UseRevision :: int
  agg_ReservationRevision :: int
  agg_ReservationRetained :: bool
  agg_UsedAt :: gotime
  agg_ReservedAt :: gotime

definition grantUseAggregateFromGrant :: "Grant \<Rightarrow> grantUseAggregate" where
  "grantUseAggregateFromGrant grant =
     \<lparr>agg_UsedCount = g_UsedCount grant, agg_ReservedCount = g_ReservedCount grant,
      agg_UseRevision = g_UseRevision grant, agg_ReservationRevision = g_ReservationRevision grant,
      agg_ReservationRetained = g_ReservationRetained grant, agg_UsedAt = g_UsedAt grant,
      agg_ReservedAt = g_ReservedAt grant\<rparr>"

definition wantedAggregate :: "Grant \<Rightarrow> GrantUse list \<Rightarrow> grantUseAggregate" where
  "wantedAggregate grant uses =
     (let aggregated = aggregateGrantUses grant uses
      in \<lparr>agg_UsedCount = g_UsedCount aggregated, agg_ReservedCount = g_ReservedCount aggregated,
          agg_UseRevision = g_UsedCount aggregated, agg_ReservationRevision = useRevisionTotal (g_ID grant) uses,
          agg_ReservationRetained = g_ReservationRetained aggregated, agg_UsedAt = g_UsedAt aggregated,
          agg_ReservedAt = g_ReservedAt aggregated\<rparr>)"

definition validateLoadedUseAggregates :: "Grant list \<Rightarrow> GrantUse list \<Rightarrow> grantError option" where
  "validateLoadedUseAggregates grants uses =
     firstError (\<lambda>g. failIf (grantUseAggregateFromGrant g \<noteq> wantedAggregate g uses) ErrUnsupportedState) grants"

definition grantSnapshots :: "Grant list \<Rightarrow> Grant gomap" where
  "grantSnapshots grants = fold (\<lambda>g m. mapSet (g_ID g) g m) grants []"

fun useRecordsLoop :: "Grant gomap \<Rightarrow> string list \<Rightarrow> GrantUse list \<Rightarrow> grantError option" where
  "useRecordsLoop grantByID seen [] = None"
| "useRecordsLoop grantByID seen (u # us) =
     (case map_of grantByID (u_GrantID u) of
        None \<Rightarrow> Some ErrUnsupportedState
      | Some grant \<Rightarrow>
          if u_RequestID u \<in> set seen \<or> \<not> validLoadedUse u grant then Some ErrUnsupportedState
          else useRecordsLoop grantByID (u_RequestID u # seen) us)"

definition validateLoadedUseRecords :: "Grant gomap \<Rightarrow> GrantUse list \<Rightarrow> grantError option" where
  "validateLoadedUseRecords grantByID uses = useRecordsLoop grantByID [] uses"

definition validateLoadedUses :: "Grant list \<Rightarrow> GrantUse list \<Rightarrow> grantError option" where
  "validateLoadedUses grants uses =
     orElse (validateLoadedUseRecords (grantSnapshots grants) uses) (validateLoadedUseAggregates grants uses)"

fun eventOrderLoop :: "nat \<Rightarrow> lifecycleEventRecord list \<Rightarrow> grantError + nat" where
  "eventOrderLoop previous [] = Inr previous"
| "eventOrderLoop previous (e # es) =
     (if ev_Sequence e = 0 \<or> ev_Sequence e \<le> previous then Inl ErrEventsOrder
      else eventOrderLoop (ev_Sequence e) es)"

definition normalizeLoadedEvents :: "fileData \<Rightarrow> grantError option" where
  "normalizeLoadedEvents data =
     (case eventOrderLoop 0 (fd_Events data) of
        Inl e \<Rightarrow> Some e
      | Inr previous \<Rightarrow> failIf (fd_NextEvent data = 0 \<or> fd_NextEvent data \<le> previous) ErrNextEvent)"

definition load :: "fileData \<Rightarrow> grantError + fileData" where
  "load data =
     guardR (validateLoadedGrants (fd_Grants data))
      (guardR (validateLoadedUses (fd_Grants data) (fd_Uses data))
        (guardR (normalizeLoadedEvents data) (Inr data)))"

section \<open>What a successful load guarantees\<close>

definition validGrant :: "Grant \<Rightarrow> bool" where
  "validGrant g =
     (validGrantIdentity g [] \<and> validGrantLifecycle g \<and> validGrantUsage g \<and> validGrantReservation g
      \<and> validateLoadedGrantMaps g = None)"

definition usesOf :: "string \<Rightarrow> GrantUse list \<Rightarrow> GrantUse list" where
  "usesOf i uses = filter (\<lambda>u. u_GrantID u = i) uses"

definition eventsOrdered :: "lifecycleEventRecord list \<Rightarrow> nat \<Rightarrow> bool" where
  "eventsOrdered evs next \<longleftrightarrow> sorted_wrt (<) (map ev_Sequence evs) \<and> 0 \<notin> ev_Sequence ` set evs
     \<and> 0 < next \<and> (\<forall>e\<in>set evs. ev_Sequence e < next)"

definition validData :: "fileData \<Rightarrow> bool" where
  "validData data \<longleftrightarrow>
     distinct (map g_ID (fd_Grants data)) \<and> (\<forall>g\<in>set (fd_Grants data). validGrant g)
     \<and> distinct (map u_RequestID (fd_Uses data))
     \<and> (\<forall>u\<in>set (fd_Uses data). \<exists>g\<in>set (fd_Grants data). g_ID g = u_GrantID u \<and> validLoadedUse u g)
     \<and> (\<forall>g\<in>set (fd_Grants data). grantUseAggregateFromGrant g = wantedAggregate g (fd_Uses data))
     \<and> eventsOrdered (fd_Events data) (fd_NextEvent data)"

lemma validGrantIdentity_seen: "validGrantIdentity g seen \<longleftrightarrow> validGrantIdentity g [] \<and> g_ID g \<notin> set seen"
  by (auto simp: validGrantIdentity_def)

lemma loadedGrantsLoop_None:
  "loadedGrantsLoop seen gs = None \<longleftrightarrow>
   distinct (map g_ID gs) \<and> set seen \<inter> g_ID ` set gs = {} \<and> (\<forall>g\<in>set gs. validGrant g)"
proof (induction seen gs rule: loadedGrantsLoop.induct)
  case (2 seen g gs)
  have "validateLoadedGrant g seen = None \<longleftrightarrow> g_ID g \<notin> set seen \<and> validGrant g"
    using validGrantIdentity_seen[of g seen] by (auto simp: validateLoadedGrant_def validGrant_def)
  then show ?case using 2 by auto
qed simp

lemma find_snoc:
  "List.find P (xs @ [y]) = (case List.find P xs of Some x \<Rightarrow> Some x | None \<Rightarrow> if P y then Some y else None)"
  by (induction xs) auto

lemma snapshot_loop:
  "map_of (fold (\<lambda>g m. mapSet (g_ID g) g m) gs m) k =
     (case List.find (\<lambda>g. g_ID g = k) (rev gs) of Some g \<Rightarrow> Some g | None \<Rightarrow> map_of m k)"
proof (induction gs arbitrary: m)
  case (Cons g gs)
  then show ?case by (cases "List.find (\<lambda>g. g_ID g = k) (rev gs)") (auto simp: find_snoc)
qed simp

lemma snapshot_find: "map_of (grantSnapshots gs) k = List.find (\<lambda>g. g_ID g = k) (rev gs)"
  by (simp add: grantSnapshots_def snapshot_loop split: option.splits)

lemma find_unique:
  "distinct (map g_ID gs) \<Longrightarrow> List.find (\<lambda>g. g_ID g = k) gs = Some g \<longleftrightarrow> g \<in> set gs \<and> g_ID g = k"
  by (induction gs) auto

lemma snapshot_unique:
  "distinct (map g_ID gs) \<Longrightarrow> map_of (grantSnapshots gs) k = Some g \<longleftrightarrow> g \<in> set gs \<and> g_ID g = k"
  using find_unique[of "rev gs" k g] by (simp add: snapshot_find rev_map[symmetric])

lemma useRecordsLoop_None:
  assumes "distinct (map g_ID gs)"
  shows "useRecordsLoop (grantSnapshots gs) seen us = None \<longleftrightarrow>
    distinct (map u_RequestID us) \<and> set seen \<inter> u_RequestID ` set us = {}
    \<and> (\<forall>u\<in>set us. \<exists>g\<in>set gs. g_ID g = u_GrantID u \<and> validLoadedUse u g)"
proof (induction us arbitrary: seen)
  case (Cons u us)
  show ?case
  proof (cases "map_of (grantSnapshots gs) (u_GrantID u)")
    case None
    then have "\<not> (\<exists>g\<in>set gs. g_ID g = u_GrantID u)"
      using snapshot_unique[OF assms] by (metis option.distinct(1))
    then show ?thesis using None by auto
  next
    case (Some g)
    then have g: "g \<in> set gs" "g_ID g = u_GrantID u" using snapshot_unique[OF assms] by auto
    moreover have "g' = g" if "g' \<in> set gs" "g_ID g' = u_GrantID u" for g'
      using that Some snapshot_unique[OF assms] by (metis option.inject)
    ultimately have "(\<exists>g\<in>set gs. g_ID g = u_GrantID u \<and> validLoadedUse u g) \<longleftrightarrow> validLoadedUse u g" by blast
    then show ?thesis using Some Cons.IH by auto
  qed
qed simp

lemma eventOrderLoop_Inr:
  "eventOrderLoop previous es = Inr l \<longleftrightarrow>
   sorted_wrt (<) (previous # map ev_Sequence es) \<and> l = last (previous # map ev_Sequence es)"
proof (induction es arbitrary: previous)
  case (Cons e es)
  show ?case
  proof (cases "ev_Sequence e = 0 \<or> ev_Sequence e \<le> previous")
    case True
    then show ?thesis by auto
  next
    case False
    then show ?thesis using Cons.IH[of "ev_Sequence e"] by (auto intro: less_trans[of previous "ev_Sequence e"])
  qed
qed auto

lemma sorted_last_less:
  "sorted_wrt (<) (p # xs) \<Longrightarrow> (last (p # xs) < (n::nat)) \<longleftrightarrow> (\<forall>x\<in>set (p # xs). x < n)"
proof (induction xs arbitrary: p)
  case (Cons x xs)
  then have "last (x # xs) < n \<longleftrightarrow> (\<forall>y\<in>set (x # xs). y < n)" "p < x" by auto
  then show ?case by auto
qed simp

lemma normalizeLoadedEvents_None:
  "normalizeLoadedEvents data = None \<longleftrightarrow> eventsOrdered (fd_Events data) (fd_NextEvent data)"
proof (cases "eventOrderLoop 0 (fd_Events data)")
  case (Inl e)
  then have "\<not> sorted_wrt (<) (0 # map ev_Sequence (fd_Events data))"
    using eventOrderLoop_Inr[of 0 "fd_Events data"] by auto
  then have "\<not> eventsOrdered (fd_Events data) (fd_NextEvent data)"
    by (auto simp: eventsOrdered_def)
  then show ?thesis by (simp add: normalizeLoadedEvents_def Inl)
next
  case (Inr l)
  then have s: "sorted_wrt (<) (0 # map ev_Sequence (fd_Events data))" "l = last (0 # map ev_Sequence (fd_Events data))"
    using eventOrderLoop_Inr by auto
  have "l < fd_NextEvent data \<longleftrightarrow> (\<forall>x\<in>set (0 # map ev_Sequence (fd_Events data)). x < fd_NextEvent data)"
    using sorted_last_less[OF s(1)] s(2) by simp
  then show ?thesis using s(1) by (auto simp: normalizeLoadedEvents_def Inr eventsOrdered_def)
qed

lemma load_iff: "load data = Inr d \<longleftrightarrow> d = data \<and> validData data"
  unfolding load_def validateLoadedUses_def validateLoadedGrants_def validateLoadedUseRecords_def guardR_Inr orElse_None
    loadedGrantsLoop_None normalizeLoadedEvents_None validData_def validateLoadedUseAggregates_def
  using useRecordsLoop_None[of "fd_Grants data" "[]" "fd_Uses data"] by (auto simp del: sorted_wrt.simps)

lemma load_valid: "validData data \<Longrightarrow> load data = Inr data"
  by (simp add: load_iff)

lemma emptyState_valid: "validData emptyState"
  by (simp add: validData_def emptyState_def eventsOrdered_def)

section \<open>Aggregates as counts\<close>

lemma aggregate_other_fields [simp]:
  "g_ID (aggregateGrantUse g u) = g_ID g" "g_MaxUses (aggregateGrantUse g u) = g_MaxUses g"
  by (simp_all add: aggregateGrantUse_def split: UseState.splits)

definition reservedState :: "UseState \<Rightarrow> bool" where
  "reservedState s = (s = UseReserved \<or> s = UseRetained)"

definition committedUses :: "string \<Rightarrow> GrantUse list \<Rightarrow> int" where
  "committedUses i uses = int (length (filter (\<lambda>u. u_State u = UseCommitted) (usesOf i uses)))"

definition reservedUses :: "string \<Rightarrow> GrantUse list \<Rightarrow> int" where
  "reservedUses i uses = int (length (filter (\<lambda>u. reservedState (u_State u)) (usesOf i uses)))"

end
