(* ===== verification/GrantLifecycle.thy ===== *)
theory GrantLifecycle
  imports GrantTypes
begin

text \<open>
  \<^verbatim>\<open>authorization/grants/lifecycle.go\<close> and \<^verbatim>\<open>lifecycle_helpers.go\<close>, and the store's update path from
  \<^verbatim>\<open>grants.go\<close>: expiry, stale reservations, the lifecycle events a change produces, and the
  load-mutate-reconcile-save cycle that every writing operation runs under the store's lock.

  \<^item> The readings of \<^verbatim>\<open>opts.Now()\<close> in one operation are the fields of a \<open>Clock\<close>, one per call site in
    the order of the code; events read the clock once each, so their readings are a function of the sequence number.
  \<^item> An operation maps the durable state to the durable state afterwards and a result. A failed
    save (\<open>saves = False\<close>) leaves the state as it was.
  \<^item> The lock makes operations atomic; waking waiters (\<^verbatim>\<open>signalNewEvents\<close>) has no durable effect.
\<close>

record Clock =
  ck_expire :: gotime
  ck_retain :: gotime
  ck_again :: gotime
  ck_mutate :: gotime
  ck_event :: "nat \<Rightarrow> gotime"
  ck_commit :: gotime

section \<open>Lookups and expiry\<close>

fun findGrantIndex :: "Grant list \<Rightarrow> string \<Rightarrow> (nat \<times> Grant) option" where
  "findGrantIndex [] i = None"
| "findGrantIndex (g # gs) i =
     (if g_ID g = i then Some (0, g) else map_option (\<lambda>(k, x). (Suc k, x)) (findGrantIndex gs i))"

definition findGrant :: "Grant list \<Rightarrow> string \<Rightarrow> grantError + nat \<times> Grant" where
  "findGrant grants i = (case findGrantIndex grants i of Some r \<Rightarrow> Inr r | None \<Rightarrow> Inl ErrNotFound)"

definition expireGrant :: "gotime \<Rightarrow> Grant \<Rightarrow> Grant option" where
  "expireGrant now grant =
     (if g_Status grant = StatusPending \<and> \<not> now < g_PendingExpiresAt grant then
        Some (grant\<lparr>g_ExpiredFrom := g_Status grant, g_Status := StatusExpired, g_DecidedAt := now\<rparr>)
      else if g_Status grant = StatusActive \<and> \<not> now < g_ExpiresAt grant then
        Some (grant\<lparr>g_ExpiredFrom := g_Status grant, g_Status := StatusExpired\<rparr>)
      else None)"

definition expireDue :: "gotime \<Rightarrow> fileData \<Rightarrow> fileData \<times> bool" where
  "expireDue now data =
     (data\<lparr>fd_Grants := map (\<lambda>g. case expireGrant now g of Some g' \<Rightarrow> g' | None \<Rightarrow> g) (fd_Grants data)\<rparr>,
      list_ex (\<lambda>g. expireGrant now g \<noteq> None) (fd_Grants data))"

definition reservationCanSettle :: "Status \<Rightarrow> bool" where
  "reservationCanSettle status = (status = StatusActive \<or> status = StatusExpired \<or> status = StatusRevoked)"

definition useReservationIsStale :: "GrantUse \<Rightarrow> Grant \<Rightarrow> gotime \<Rightarrow> duration \<Rightarrow> bool" where
  "useReservationIsStale use grant now timeout =
     (u_State use = UseReserved \<and> reservationCanSettle (g_Status grant)
      \<and> (u_UpdatedAt use = 0 \<or> \<not> now < u_UpdatedAt use + timeout))"

definition grantCanUse :: "Grant \<Rightarrow> gotime \<Rightarrow> bool" where
  "grantCanUse grant now =
     (g_Status grant = StatusActive \<and> now < g_ExpiresAt grant
      \<and> Allows (g_MaxUses grant) (g_UsedCount grant) (g_ReservedCount grant))"

section \<open>Stale reservations\<close>

definition staleUse :: "Grant list \<Rightarrow> gotime \<Rightarrow> duration \<Rightarrow> GrantUse \<Rightarrow> bool" where
  "staleUse grants now timeout use =
     (case findGrant grants (u_GrantID use) of
        Inl _ \<Rightarrow> False
      | Inr (_, grant) \<Rightarrow> useReservationIsStale use grant now timeout)"

definition retainUse :: "gotime \<Rightarrow> GrantUse \<Rightarrow> GrantUse" where
  "retainUse now use = use\<lparr>u_State := UseRetained, u_Revision := u_Revision use + 1, u_UpdatedAt := now\<rparr>"

text \<open>The number of retained uses per grant; the grants are then aggregated again.\<close>

definition revisionDelta :: "Grant list \<Rightarrow> gotime \<Rightarrow> duration \<Rightarrow> GrantUse list \<Rightarrow> string \<Rightarrow> int" where
  "revisionDelta grants now timeout uses i =
     int (length (filter (\<lambda>u. u_GrantID u = i \<and> staleUse grants now timeout u) uses))"

definition retainStaleReservations :: "Options \<Rightarrow> gotime \<Rightarrow> fileData \<Rightarrow> fileData \<times> bool" where
  "retainStaleReservations opts now data =
     (let stale = staleUse (fd_Grants data) now (o_ReservationTimeout opts);
          uses = map (\<lambda>u. if stale u then retainUse now u else u) (fd_Uses data);
          delta = revisionDelta (fd_Grants data) now (o_ReservationTimeout opts) (fd_Uses data);
          grants = map (\<lambda>g. if delta (g_ID g) = 0 then g
                            else aggregateGrantUses (g\<lparr>g_ReservationRevision := g_ReservationRevision g + delta (g_ID g)\<rparr>) uses)
                     (fd_Grants data)
      in (data\<lparr>fd_Uses := uses, fd_Grants := grants\<rparr>, list_ex stale (fd_Uses data)))"

definition prepareLifecycle :: "Options \<Rightarrow> Clock \<Rightarrow> fileData \<Rightarrow> fileData \<times> bool" where
  "prepareLifecycle opts ck data =
     (let (data1, expired) = expireDue (ck_expire ck) data;
          (data2, retained) = retainStaleReservations opts (ck_retain ck) data1
      in (data2, expired \<or> retained))"

section \<open>Lifecycle events\<close>

definition statusEventKinds :: "Grant \<Rightarrow> Grant \<Rightarrow> EventKind list" where
  "statusEventKinds before after =
     (if g_Status before = g_Status after then []
      else (case g_Status after of
              StatusActive \<Rightarrow> [EventRequestApproved]
            | StatusDenied \<Rightarrow> [EventRequestDenied]
            | StatusFailed \<Rightarrow> [EventRequestFailed]
            | StatusCanceled \<Rightarrow> [EventRequestCanceled]
            | StatusExpired \<Rightarrow> [EventRequestExpired]
            | StatusRevoked \<Rightarrow> [EventGrantRevoked]
            | _ \<Rightarrow> []))"

definition lifecycleKinds :: "Grant option \<Rightarrow> Grant \<Rightarrow> EventKind list" where
  "lifecycleKinds previous after =
     (case previous of
        None \<Rightarrow> [EventRequestCreated]
      | Some before \<Rightarrow>
          statusEventKinds before after
          @ (if g_UsedCount after > g_UsedCount before then [EventGrantConsumed]
             else if g_ReservedCount after < g_ReservedCount before then [EventGrantReleased] else [])
          @ (if g_ReservedCount after > g_ReservedCount before then [EventGrantReserved] else [])
          @ (if \<not> g_ReservationRetained before \<and> g_ReservationRetained after then [EventExecutionAmbiguous] else []))"

text \<open>\<^verbatim>\<open>append([]lifecycleEventRecord(nil), data.Events[excess:]...)\<close> when there is an excess.\<close>

definition trimEvents :: "int \<Rightarrow> lifecycleEventRecord list \<Rightarrow> lifecycleEventRecord list" where
  "trimEvents maxEvents evs =
     (let excess = int (length evs) - maxEvents in if excess > 0 then drop (nat excess) evs else evs)"

definition appendLifecycleEvent ::
  "Options \<Rightarrow> Clock \<Rightarrow> EventKind \<Rightarrow> Grant \<Rightarrow> Grant \<Rightarrow> fileData \<Rightarrow> fileData" where
  "appendLifecycleEvent opts ck kind grant previous data =
     (let seq = (if fd_NextEvent data = 0 then 1 else fd_NextEvent data);
          event = \<lparr>ev_Sequence = seq, ev_Kind = kind, ev_GrantID = g_ID grant, ev_Status = g_Status grant,
                   ev_UsedCount = g_UsedCount grant, ev_ReservedCount = g_ReservedCount grant,
                   ev_Revision = g_Revision grant, ev_Time = ck_event ck seq, ev_Approver = g_DecidedBy grant,
                   ev_PreviousStatus = g_Status previous, ev_PreviousRevision = g_Revision previous,
                   ev_ExpectedRevision = (if g_DecidedBy grant \<noteq> [] then g_Revision previous else 0)\<rparr>
      in data\<lparr>fd_NextEvent := seq + 1, fd_Events := trimEvents (o_MaxEvents opts) (fd_Events data @ [event])\<rparr>)"

text \<open>The loop of \<^verbatim>\<open>reconcileLifecycle\<close> over the remaining grants: the grants it writes back, the events so far.\<close>

fun reconcileLoop ::
  "Options \<Rightarrow> Clock \<Rightarrow> Grant gomap \<Rightarrow> Grant list \<Rightarrow> fileData \<Rightarrow> Grant list \<times> fileData \<times> bool" where
  "reconcileLoop opts ck before [] data = ([], data, False)"
| "reconcileLoop opts ck before (grant # rest) data =
     (let previous = map_of before (g_ID grant);
          kinds = lifecycleKinds previous grant
      in if kinds = [] then
           (let (gs, data', changed) = reconcileLoop opts ck before rest data in (grant # gs, data', changed))
         else
           (let revision = (case previous of Some p \<Rightarrow> g_Revision p + 1 | None \<Rightarrow> 1);
                grant' = grant\<lparr>g_Revision := revision\<rparr>;
                prev = (case previous of Some p \<Rightarrow> p | None \<Rightarrow> zeroGrant);
                data1 = fold (\<lambda>kind d. appendLifecycleEvent opts ck kind grant' prev d) kinds data;
                (gs, data', _) = reconcileLoop opts ck before rest data1
            in (grant' # gs, data', True)))"

definition reconcileLifecycle :: "Options \<Rightarrow> Clock \<Rightarrow> fileData \<Rightarrow> Grant gomap \<Rightarrow> fileData \<times> bool" where
  "reconcileLifecycle opts ck data before =
     (let (gs, data', changed) = reconcileLoop opts ck before (fd_Grants data) data
      in (data'\<lparr>fd_Grants := gs\<rparr>, changed))"

section \<open>The update path\<close>

type_synonym 'a mutation = "fileData \<Rightarrow> fileData \<times> (grantError + 'a)"

text \<open>\<^verbatim>\<open>updateWithPlan\<close>: load, prepare, mutate, reconcile, save. An error of the mutation still saves what the
  lifecycle changed.\<close>

definition updateWithPlan ::
  "Options \<Rightarrow> Clock \<Rightarrow> bool \<Rightarrow> 'a mutation \<Rightarrow> fileData \<Rightarrow> fileData \<times> (grantError + 'a)" where
  "updateWithPlan opts ck saves mutator stored =
     (case load stored of
        Inl e \<Rightarrow> (stored, Inl e)
      | Inr data \<Rightarrow>
          (let before = grantSnapshots (fd_Grants data);
               (data1, prepared) = prepareLifecycle opts ck data;
               (data2, result) = mutator data1;
               (data3, reconciled) = reconcileLifecycle opts ck data2 before
           in case result of
                Inl e \<Rightarrow>
                  if prepared \<or> reconciled then
                    (if saves then (data3, Inl e) else (stored, Inl (ErrJoin e ErrSave)))
                  else (stored, Inl e)
              | Inr x \<Rightarrow> if saves then (data3, Inr x) else (stored, Inl ErrSave)))"

text \<open>
  The reading operations bring the lifecycle up to date first: the state they answer from, and the durable state
  afterwards. \<open>prepare\<close> is \<^verbatim>\<open>expireDue\<close> in \<^verbatim>\<open>Get\<close>, \<^verbatim>\<open>List\<close> and \<^verbatim>\<open>ActivePolicyGrants\<close>, and
  \<^verbatim>\<open>prepareLifecycle\<close> elsewhere.
\<close>

definition refreshed ::
  "Options \<Rightarrow> Clock \<Rightarrow> (fileData \<Rightarrow> fileData \<times> bool) \<Rightarrow> fileData \<Rightarrow> fileData \<times> bool" where
  "refreshed opts ck prepare data =
     (let (data1, prepared) = prepare data;
          (data2, reconciled) = reconcileLifecycle opts ck data1 (grantSnapshots (fd_Grants data))
      in (data2, reconciled \<or> prepared))"

definition ActivePolicyGrant :: "Grant \<Rightarrow> PolicyGrant" where
  "ActivePolicyGrant g =
     (let (usesLeft, finite) = Remaining (g_MaxUses g) (g_UsedCount g) (g_ReservedCount g)
      in \<lparr>pg_ID = g_ID g, pg_Client = g_Client g, pg_Operation = g_Operation g,
          pg_Target = \<lparr>target_Kind = target_Kind (g_Target g), target_Fields = target_Fields (g_Target g)\<rparr>,
          pg_Attrs = g_Attrs g, pg_ExpiresAt = g_ExpiresAt g, pg_UsesLeft = usesLeft, pg_Unlimited = \<not> finite\<rparr>)"

definition ActivePolicyGrants ::
  "Options \<Rightarrow> Clock \<Rightarrow> bool \<Rightarrow> fileData \<Rightarrow> fileData \<times> (grantError + PolicyGrant list)" where
  "ActivePolicyGrants opts ck saves stored =
     (case load stored of
        Inl e \<Rightarrow> (stored, Inl e)
      | Inr data \<Rightarrow>
          (let (data1, changed) = refreshed opts ck (expireDue (ck_expire ck)) data;
               out = map ActivePolicyGrant (filter (\<lambda>g. grantCanUse g (ck_mutate ck)) (fd_Grants data1))
           in if changed then (if saves then (data1, Inr out) else (stored, Inl ErrSave)) else (stored, Inr out)))"

definition Get :: "Options \<Rightarrow> Clock \<Rightarrow> bool \<Rightarrow> string \<Rightarrow> fileData \<Rightarrow> fileData \<times> (grantError + Grant)" where
  "Get opts ck saves i stored =
     (case load stored of
        Inl e \<Rightarrow> (stored, Inl e)
      | Inr data \<Rightarrow>
          (let (data1, changed) = refreshed opts ck (expireDue (ck_expire ck)) data
           in case findGrant (fd_Grants data1) i of
                Inl e \<Rightarrow> (stored, Inl e)
              | Inr (_, grant) \<Rightarrow>
                  if changed then (if saves then (data1, Inr grant) else (stored, Inl ErrSave)) else (stored, Inr grant)))"

definition ListGrants :: "Options \<Rightarrow> Clock \<Rightarrow> bool \<Rightarrow> fileData \<Rightarrow> fileData \<times> (grantError + Grant list)" where
  "ListGrants opts ck saves stored =
     (case load stored of
        Inl e \<Rightarrow> (stored, Inl e)
      | Inr data \<Rightarrow>
          (let (data1, changed) = refreshed opts ck (expireDue (ck_expire ck)) data
           in if changed then (if saves then (data1, Inr (fd_Grants data1)) else (stored, Inl ErrSave))
              else (stored, Inr (fd_Grants data1))))"

definition ListForClient ::
  "Options \<Rightarrow> Clock \<Rightarrow> bool \<Rightarrow> string \<Rightarrow> fileData \<Rightarrow> fileData \<times> (grantError + Grant list)" where
  "ListForClient opts ck saves client stored =
     (case ListGrants opts ck saves stored of
        (stored', Inl e) \<Rightarrow> (stored', Inl e)
      | (stored', Inr gs) \<Rightarrow> (stored', Inr (filter (\<lambda>g. g_Client g = client) gs)))"

definition reconcileDueLifecycle :: "Options \<Rightarrow> Clock \<Rightarrow> bool \<Rightarrow> fileData \<Rightarrow> fileData \<times> (grantError + unit)" where
  "reconcileDueLifecycle opts ck saves stored =
     (case load stored of
        Inl e \<Rightarrow> (stored, Inl e)
      | Inr data \<Rightarrow>
          (let before = grantSnapshots (fd_Grants data);
               (data1, prepared) = prepareLifecycle opts ck data
           in if \<not> prepared then (stored, Inr ())
              else (let (data2, reconciled) = reconcileLifecycle opts ck data1 before
                    in if \<not> reconciled then (stored, Inr ())
                       else if saves then (data2, Inr ()) else (stored, Inl ErrSave))))"

section \<open>Event cursors and pages\<close>

definition maxEventPageSize :: int where "maxEventPageSize = 100"

text \<open>\<^verbatim>\<open>base64.RawURLEncoding\<close> of the eight big-endian bytes of a sequence number.\<close>

definition base64Chars :: string where
  "base64Chars = ''ABCDEFGHIJKLMNOPQRSTUVWXYZabcdefghijklmnopqrstuvwxyz0123456789-_''"

definition sextet :: "nat \<Rightarrow> char" where
  "sextet n = base64Chars ! (n mod 64)"

text \<open>The 64 bits in groups of six; the last digit carries four bits and two zero bits.\<close>

definition encodeEventCursor :: "nat \<Rightarrow> string" where
  "encodeEventCursor sequence =
     map (\<lambda>i. sextet (sequence mod 2 ^ 64 div 2 ^ (58 - 6 * i))) [0..<10] @ [sextet (sequence mod 16 * 4)]"

fun sextetIndex :: "string \<Rightarrow> char \<Rightarrow> nat option" where
  "sextetIndex [] c = None"
| "sextetIndex (x # xs) c = (if x = c then Some 0 else map_option Suc (sextetIndex xs c))"

text \<open>
  \<^verbatim>\<open>DecodeString\<close> followed by the length check. Decoding skips carriage returns and newlines; eleven digits are eight
  bytes, and the two bits that the last digit carries beyond them are dropped.
\<close>

fun sextetsValue :: "nat \<Rightarrow> string \<Rightarrow> nat option" where
  "sextetsValue acc [] = Some acc"
| "sextetsValue acc (c # cs) =
     (case sextetIndex base64Chars c of None \<Rightarrow> None | Some d \<Rightarrow> sextetsValue (acc * 64 + d) cs)"

definition decodeEventCursor :: "string \<Rightarrow> grantError + nat" where
  "decodeEventCursor cursor =
     (if cursor = [] then Inr 0
      else let digits = filter (\<lambda>c. c \<noteq> CHR 0x0D \<and> c \<noteq> CHR 0x0A) cursor
           in if length digits \<noteq> 11 then Inl ErrInvalidCursor
              else (case sextetsValue 0 digits of None \<Rightarrow> Inl ErrInvalidCursor | Some n \<Rightarrow> Inr (n div 4)))"

record Event =
  pe_Cursor :: string
  pe_Kind :: EventKind
  pe_GrantID :: string
  pe_Status :: Status
  pe_UsedCount :: int
  pe_ReservedCount :: int
  pe_Revision :: int
  pe_Time :: gotime

definition publicEvent :: "lifecycleEventRecord \<Rightarrow> Event" where
  "publicEvent e =
     \<lparr>pe_Cursor = encodeEventCursor (ev_Sequence e), pe_Kind = ev_Kind e, pe_GrantID = ev_GrantID e,
      pe_Status = ev_Status e, pe_UsedCount = ev_UsedCount e, pe_ReservedCount = ev_ReservedCount e,
      pe_Revision = ev_Revision e, pe_Time = ev_Time e\<rparr>"

record EventPage =
  page_Events :: "Event list"
  page_NextCursor :: string
  page_HasMore :: bool

definition normalizeEventLimit :: "int \<Rightarrow> grantError + int" where
  "normalizeEventLimit limit =
     (if limit = 0 then Inr 50 else if limit < 1 \<or> limit > maxEventPageSize then Inl ErrEventLimit else Inr limit)"

definition normalizeEventRequest :: "string \<Rightarrow> int \<Rightarrow> grantError + nat \<times> int" where
  "normalizeEventRequest cursor limit =
     bindR (decodeEventCursor cursor) (\<lambda>sequence. bindR (normalizeEventLimit limit) (\<lambda>l. Inr (sequence, l)))"

definition eventStartingSequence :: "lifecycleEventRecord list \<Rightarrow> string \<Rightarrow> nat \<Rightarrow> grantError + nat" where
  "eventStartingSequence evs cursor sequence =
     (case evs of
        [] \<Rightarrow> Inr sequence
      | e # _ \<Rightarrow>
          if cursor = [] then Inr (ev_Sequence e - 1)
          else if sequence < ev_Sequence e - 1 then Inl ErrCursorExpired else Inr sequence)"

definition eventPageAfter :: "lifecycleEventRecord list \<Rightarrow> nat \<Rightarrow> int \<Rightarrow> EventPage" where
  "eventPageAfter evs sequence limit =
     (let records = take (nat limit + 1) (filter (\<lambda>e. ev_Sequence e > sequence) evs);
          more = int (length records) > limit;
          shown = (if more then take (nat limit) records else records)
      in \<lparr>page_Events = map publicEvent shown,
          page_NextCursor = (if shown = [] then [] else encodeEventCursor (ev_Sequence (last shown))),
          page_HasMore = more\<rparr>)"

definition EventsAfter :: "string \<Rightarrow> int \<Rightarrow> fileData \<Rightarrow> grantError + EventPage" where
  "EventsAfter cursor limit stored =
     bindR (normalizeEventRequest cursor limit) (\<lambda>(sequence, l).
       bindR (load stored) (\<lambda>data.
         bindR (eventStartingSequence (fd_Events data) cursor sequence) (\<lambda>start.
           Inr (eventPageAfter (fd_Events data) start l))))"

definition LatestEvent :: "string \<Rightarrow> fileData \<Rightarrow> grantError + Event" where
  "LatestEvent i stored =
     bindR (load stored) (\<lambda>data.
       (case find (\<lambda>e. ev_GrantID e = i) (rev (fd_Events data)) of
          Some e \<Rightarrow> Inr (publicEvent e)
        | None \<Rightarrow> bindR (findGrant (fd_Grants data) i) (\<lambda>_. Inl ErrNotFound)))"

definition RecordExecution ::
  "Options \<Rightarrow> Clock \<Rightarrow> bool \<Rightarrow> string \<Rightarrow> EventKind \<Rightarrow> fileData \<Rightarrow> fileData \<times> (grantError + Event)" where
  "RecordExecution opts ck saves i kind stored =
     (if kind \<noteq> EventExecutionSucceeded \<and> kind \<noteq> EventExecutionFailed \<and> kind \<noteq> EventExecutionAmbiguous
      then (stored, Inl ErrExecutionKind)
      else updateWithPlan opts ck saves (\<lambda>data.
             (case findGrant (fd_Grants data) i of
                Inl e \<Rightarrow> (data, Inl e)
              | Inr (_, grant) \<Rightarrow>
                  (let data' = appendLifecycleEvent opts ck kind grant grant data
                   in (data', Inr (publicEvent (last (fd_Events data'))))))) stored)"

section \<open>Deadlines\<close>

text \<open>A zero time is no deadline.\<close>

definition earlierDeadline :: "gotime \<Rightarrow> gotime \<Rightarrow> gotime" where
  "earlierDeadline current candidate =
     (if candidate = 0 \<or> (current \<noteq> 0 \<and> \<not> candidate < current) then current else candidate)"

definition grantLifecycleDeadline :: "Grant \<Rightarrow> gotime" where
  "grantLifecycleDeadline grant =
     (case g_Status grant of StatusPending \<Rightarrow> g_PendingExpiresAt grant | StatusActive \<Rightarrow> g_ExpiresAt grant | _ \<Rightarrow> 0)"

definition useLifecycleDeadline :: "Options \<Rightarrow> GrantUse \<Rightarrow> Grant \<Rightarrow> gotime \<Rightarrow> gotime" where
  "useLifecycleDeadline opts use grant now =
     (if u_State use \<noteq> UseReserved \<or> \<not> reservationCanSettle (g_Status grant) then 0
      else if useReservationIsStale use grant now (o_ReservationTimeout opts) \<or> u_UpdatedAt use = 0 then now
      else u_UpdatedAt use + o_ReservationTimeout opts)"

definition earliestGrantDeadline :: "Grant list \<Rightarrow> gotime" where
  "earliestGrantDeadline grants = foldl (\<lambda>d g. earlierDeadline d (grantLifecycleDeadline g)) 0 grants"

fun earliestUseDeadline :: "Options \<Rightarrow> Grant list \<Rightarrow> gotime \<Rightarrow> gotime \<Rightarrow> GrantUse list \<Rightarrow> grantError + gotime" where
  "earliestUseDeadline opts grants now earliest [] = Inr earliest"
| "earliestUseDeadline opts grants now earliest (use # uses) =
     (case findGrant grants (u_GrantID use) of
        Inl e \<Rightarrow> Inl e
      | Inr (_, grant) \<Rightarrow>
          earliestUseDeadline opts grants now (earlierDeadline earliest (useLifecycleDeadline opts use grant now)) uses)"

text \<open>\<^verbatim>\<open>nextLifecycleDelay\<close>: no deadline is \<open>None\<close>.\<close>

definition nextLifecycleDelay :: "Options \<Rightarrow> gotime \<Rightarrow> fileData \<Rightarrow> grantError + duration option" where
  "nextLifecycleDelay opts now stored =
     bindR (load stored) (\<lambda>data.
       bindR (earliestUseDeadline opts (fd_Grants data) now (earliestGrantDeadline (fd_Grants data)) (fd_Uses data)) (\<lambda>earliest.
         if earliest = 0 then Inr None else Inr (Some (max (earliest - now) 0))))"

definition decisionEventForGrant :: "Event list \<Rightarrow> string \<Rightarrow> bool" where
  "decisionEventForGrant evs i = list_ex (\<lambda>e. pe_GrantID e = i \<and> pe_Status e \<noteq> StatusPending) evs"

end
