(* ===== verification/GrantUses.thy ===== *)
theory GrantUses
  imports GrantLifecycle
begin

text \<open>
  \<^verbatim>\<open>authorization/grants/uses.go\<close>: reserving, committing, releasing and retaining one use of a grant for one
  request identity. Random and derived identities (\<^verbatim>\<open>NewUseRequestIdentity\<close>, \<^verbatim>\<open>DeriveUseRequestID\<close>) are inputs.
\<close>

fun findUseIndex :: "GrantUse list \<Rightarrow> string \<Rightarrow> (nat \<times> GrantUse) option" where
  "findUseIndex [] requestID = None"
| "findUseIndex (u # us) requestID =
     (if u_RequestID u = requestID then Some (0, u)
      else map_option (\<lambda>(k, x). (Suc k, x)) (findUseIndex us requestID))"

definition findUse :: "GrantUse list \<Rightarrow> string \<Rightarrow> GrantUse option" where
  "findUse uses requestID = map_option snd (findUseIndex uses requestID)"

section \<open>Reserve\<close>

definition reserveNewUse :: "gotime \<Rightarrow> string \<Rightarrow> string \<Rightarrow> string \<Rightarrow> bool mutation" where
  "reserveNewUse now grantID requestID operation data =
     (case findGrant (fd_Grants data) grantID of
        Inl e \<Rightarrow> (data, Inl e)
      | Inr (grantIndex, grant) \<Rightarrow>
          if g_Operation grant \<noteq> operation then (data, Inl ErrUseIdentityConflict)
          else if \<not> grantCanUse grant now then (data, Inl ErrNotActive)
          else (let uses = fd_Uses data
                      @ [\<lparr>u_GrantID = grantID, u_RequestID = requestID, u_Operation = operation, u_State = UseReserved,
                          u_Revision = 1, u_CreatedAt = now, u_UpdatedAt = now, u_SettledAt = 0\<rparr>];
                    grant' = grant\<lparr>g_ReservationRevision := g_ReservationRevision grant + 1\<rparr>
                in (data\<lparr>fd_Uses := uses, fd_Grants := (fd_Grants data)[grantIndex := aggregateGrantUses grant' uses]\<rparr>,
                    Inr True)))"

definition reserveExistingUse :: "gotime \<Rightarrow> nat \<Rightarrow> GrantUse \<Rightarrow> string \<Rightarrow> string \<Rightarrow> bool mutation" where
  "reserveExistingUse now useIndex use grantID operation data =
     (if u_GrantID use \<noteq> grantID \<or> u_Operation use \<noteq> operation then (data, Inl ErrUseIdentityConflict)
      else if u_State use \<noteq> UseReleased then (data, Inr False)
      else (case findGrant (fd_Grants data) grantID of
              Inl e \<Rightarrow> (data, Inl e)
            | Inr (grantIndex, grant) \<Rightarrow>
                if \<not> grantCanUse grant now then (data, Inl ErrNotActive)
                else (let use' = use\<lparr>u_State := UseReserved, u_Revision := u_Revision use + 1, u_UpdatedAt := now,
                                     u_SettledAt := 0\<rparr>;
                          uses = (fd_Uses data)[useIndex := use'];
                          grant' = grant\<lparr>g_ReservationRevision := g_ReservationRevision grant + 1\<rparr>
                      in (data\<lparr>fd_Uses := uses,
                               fd_Grants := (fd_Grants data)[grantIndex := aggregateGrantUses grant' uses]\<rparr>, Inr True))))"

definition reserveUse :: "gotime \<Rightarrow> string \<Rightarrow> string \<Rightarrow> string \<Rightarrow> bool mutation" where
  "reserveUse now grantID requestID operation data =
     (case findUseIndex (fd_Uses data) requestID of
        Some (useIndex, existing) \<Rightarrow> reserveExistingUse now useIndex existing grantID operation data
      | None \<Rightarrow> reserveNewUse now grantID requestID operation data)"

section \<open>Reading a use\<close>

record UseReservation =
  res_Grant :: Grant
  res_Use :: GrantUse
  res_Acquired :: bool

definition useReservationFromData :: "fileData \<Rightarrow> string \<Rightarrow> string \<Rightarrow> grantError + UseReservation" where
  "useReservationFromData data grantID requestID =
     bindR (findGrant (fd_Grants data) grantID) (\<lambda>(_, grant).
       (case findUse (fd_Uses data) requestID of
          None \<Rightarrow> Inl ErrUseIdentityConflict
        | Some use \<Rightarrow>
            if u_GrantID use \<noteq> grantID then Inl ErrUseIdentityConflict
            else Inr \<lparr>res_Grant = grant, res_Use = use, res_Acquired = False\<rparr>))"

definition GetUse ::
  "Options \<Rightarrow> Clock \<Rightarrow> bool \<Rightarrow> string \<Rightarrow> string \<Rightarrow> fileData \<Rightarrow> fileData \<times> (grantError + UseReservation)" where
  "GetUse opts ck saves grantID requestID stored =
     (case load stored of
        Inl e \<Rightarrow> (stored, Inl e)
      | Inr data \<Rightarrow>
          (let (data1, changed) = refreshed opts ck (prepareLifecycle opts ck) data
           in case useReservationFromData data1 grantID requestID of
                Inl e \<Rightarrow> (stored, Inl e)
              | Inr r \<Rightarrow>
                  if changed then (if saves then (data1, Inr r) else (stored, Inl ErrSave)) else (stored, Inr r)))"

definition ListUses :: "string \<Rightarrow> fileData \<Rightarrow> grantError + GrantUse list" where
  "ListUses grantID stored =
     bindR (load stored) (\<lambda>data. bindR (findGrant (fd_Grants data) grantID) (\<lambda>_.
       Inr (filter (\<lambda>u. u_GrantID u = grantID) (fd_Uses data))))"

definition ReserveUse ::
  "Options \<Rightarrow> Clock \<Rightarrow> Clock \<Rightarrow> bool \<Rightarrow> bool \<Rightarrow> string \<Rightarrow> string \<Rightarrow> string \<Rightarrow> fileData
   \<Rightarrow> fileData \<times> (grantError + UseReservation)" where
  "ReserveUse opts ck ckGet saves savesGet grantID requestID operation stored =
     (if \<not> validUseIdentity grantID requestID operation then (stored, Inl ErrUseIdentityConflict)
      else (case updateWithPlan opts ck saves (reserveUse (ck_mutate ck) grantID requestID operation) stored of
              (stored1, Inl e) \<Rightarrow> (stored1, Inl e)
            | (stored1, Inr created) \<Rightarrow>
                (case GetUse opts ckGet savesGet grantID requestID stored1 of
                   (stored2, Inl e) \<Rightarrow> (stored2, Inl e)
                 | (stored2, Inr r) \<Rightarrow> (stored2, Inr (r\<lparr>res_Acquired := created\<rparr>)))))"

section \<open>Settle\<close>

text \<open>\<open>Inr False\<close> is \<^verbatim>\<open>(false, nil)\<close>: the use already has the target state.\<close>

definition useCanSettle :: "GrantUse \<Rightarrow> Grant \<Rightarrow> UseState \<Rightarrow> grantError + bool" where
  "useCanSettle use grant target =
     (if u_State use = target then Inr False
      else if useStateSettled (u_State use) then Inl ErrUseSettled
      else if \<not> reservationCanSettle (g_Status grant) then Inl ErrNotActive
      else Inr True)"

definition settleGrantUse :: "Grant \<Rightarrow> Grant" where
  "settleGrantUse grant =
     (if Exhausted (g_MaxUses grant) (g_UsedCount grant) \<and> g_Status grant \<noteq> StatusRevoked
      then grant\<lparr>g_Status := StatusConsumed, g_ExpiredFrom := StatusUnset\<rparr> else grant)"

definition applyUseSettlement ::
  "gotime \<Rightarrow> nat \<Rightarrow> nat \<Rightarrow> GrantUse \<Rightarrow> Grant \<Rightarrow> UseState \<Rightarrow> fileData \<Rightarrow> fileData" where
  "applyUseSettlement now useIndex grantIndex use grant target data =
     (let use' = use\<lparr>u_State := target, u_Revision := u_Revision use + 1, u_UpdatedAt := now,
                     u_SettledAt := (if useStateSettled target then now else u_SettledAt use)\<rparr>;
          uses = (fd_Uses data)[useIndex := use'];
          grant' = grant\<lparr>g_ReservationRevision := g_ReservationRevision grant + 1,
                         g_UseRevision := (if target = UseCommitted then g_UseRevision grant + 1 else g_UseRevision grant)\<rparr>
      in data\<lparr>fd_Uses := uses,
              fd_Grants := (fd_Grants data)[grantIndex := settleGrantUse (aggregateGrantUses grant' uses)]\<rparr>)"

definition settleStoredUse :: "gotime \<Rightarrow> string \<Rightarrow> string \<Rightarrow> UseState \<Rightarrow> unit mutation" where
  "settleStoredUse now grantID requestID target data =
     (case findUseIndex (fd_Uses data) requestID of
        None \<Rightarrow> (data, Inl ErrUseIdentityConflict)
      | Some (useIndex, use) \<Rightarrow>
          if u_GrantID use \<noteq> grantID then (data, Inl ErrUseIdentityConflict)
          else (case findGrant (fd_Grants data) grantID of
                  Inl e \<Rightarrow> (data, Inl e)
                | Inr (grantIndex, grant) \<Rightarrow>
                    (case useCanSettle use grant target of
                       Inl e \<Rightarrow> (data, Inl e)
                     | Inr False \<Rightarrow> (data, Inr ())
                     | Inr True \<Rightarrow> (applyUseSettlement now useIndex grantIndex use grant target data, Inr ()))))"

definition settleUse ::
  "Options \<Rightarrow> Clock \<Rightarrow> Clock \<Rightarrow> bool \<Rightarrow> bool \<Rightarrow> string \<Rightarrow> string \<Rightarrow> UseState \<Rightarrow> fileData
   \<Rightarrow> fileData \<times> (grantError + UseReservation)" where
  "settleUse opts ck ckGet saves savesGet grantID requestID target stored =
     (if grantID = [] \<or> requestID = [] \<or> \<not> validUseState target then (stored, Inl ErrUseIdentityConflict)
      else (case updateWithPlan opts ck saves (settleStoredUse (ck_mutate ck) grantID requestID target) stored of
              (stored1, Inl e) \<Rightarrow> (stored1, Inl e)
            | (stored1, Inr _) \<Rightarrow> GetUse opts ckGet savesGet grantID requestID stored1))"

definition CommitUse where
  "CommitUse opts ck ckGet saves savesGet grantID requestID stored =
     settleUse opts ck ckGet saves savesGet grantID requestID UseCommitted stored"

definition ReleaseUse where
  "ReleaseUse opts ck ckGet saves savesGet grantID requestID stored =
     settleUse opts ck ckGet saves savesGet grantID requestID UseReleased stored"

definition RetainUse where
  "RetainUse opts ck ckGet saves savesGet grantID requestID stored =
     settleUse opts ck ckGet saves savesGet grantID requestID UseRetained stored"

end
