(* ===== verification/GrantAggregates.thy ===== *)
theory GrantAggregates
  imports GrantUses
begin

text \<open>
  The use counters of a grant are sums over its use records. This theory turns the aggregation loop of
  \<^verbatim>\<open>uses.go\<close> into counts, states when a grant agrees with its records (\<open>aggregated\<close>), and shows
  what one changed or one added record does to the counts. The invariant of the store rests on it.
\<close>

section \<open>The aggregation loop as counts\<close>

definition lastUsed :: "string \<Rightarrow> GrantUse list \<Rightarrow> gotime" where
  "lastUsed i uses =
     fold (\<lambda>u t. if u_State u = UseCommitted \<and> t < u_SettledAt u then u_SettledAt u else t) (usesOf i uses) 0"

definition reservedSince :: "string \<Rightarrow> GrantUse list \<Rightarrow> gotime" where
  "reservedSince i uses =
     fold (\<lambda>u t. if reservedState (u_State u) \<and> (t = 0 \<or> u_UpdatedAt u < t) then u_UpdatedAt u else t) (usesOf i uses) 0"

definition anyRetained :: "string \<Rightarrow> GrantUse list \<Rightarrow> bool" where
  "anyRetained i uses = list_ex (\<lambda>u. u_State u = UseRetained) (usesOf i uses)"

lemma usesOf_simps [simp]:
  "usesOf i [] = []"
  "usesOf i (u # us) = (if u_GrantID u = i then u # usesOf i us else usesOf i us)"
  "usesOf i (us @ vs) = usesOf i us @ usesOf i vs"
  by (simp_all add: usesOf_def)

text \<open>The five fields the aggregation writes.\<close>

definition withUses :: "Grant \<Rightarrow> int \<Rightarrow> gotime \<Rightarrow> int \<Rightarrow> gotime \<Rightarrow> bool \<Rightarrow> Grant" where
  "withUses g used usedAt reserved reservedAt retained =
     g\<lparr>g_UsedCount := used, g_UsedAt := usedAt, g_ReservedCount := reserved, g_ReservedAt := reservedAt,
       g_ReservationRetained := retained\<rparr>"

lemma withUses_simps [simp]:
  "g_ID (withUses g a b c d e) = g_ID g"
  "g_UsedCount (withUses g a b c d e) = a" "g_UsedAt (withUses g a b c d e) = b"
  "g_ReservedCount (withUses g a b c d e) = c" "g_ReservedAt (withUses g a b c d e) = d"
  "g_ReservationRetained (withUses g a b c d e) = e"
  "withUses (withUses g a b c d e) a' b' c' d' e' = withUses g a' b' c' d' e'"
  "withUses g (g_UsedCount g) (g_UsedAt g) (g_ReservedCount g) (g_ReservedAt g) (g_ReservationRetained g) = g"
  by (simp_all add: withUses_def)

lemma aggregateGrantUse_fields:
  "aggregateGrantUse g u = withUses g
     (g_UsedCount g + (if u_State u = UseCommitted then 1 else 0))
     (if u_State u = UseCommitted \<and> g_UsedAt g < u_SettledAt u then u_SettledAt u else g_UsedAt g)
     (g_ReservedCount g + (if reservedState (u_State u) then 1 else 0))
     (if reservedState (u_State u) \<and> (g_ReservedAt g = 0 \<or> u_UpdatedAt u < g_ReservedAt g)
      then u_UpdatedAt u else g_ReservedAt g)
     (g_ReservationRetained g \<or> u_State u = UseRetained)"
  by (cases "u_State u") (simp_all add: aggregateGrantUse_def reservedState_def withUses_def)

lemma aggregation_loop:
  "fold (\<lambda>use g. if u_GrantID use = g_ID g then aggregateGrantUse g use else g) uses g = withUses g
     (g_UsedCount g + committedUses (g_ID g) uses)
     (fold (\<lambda>u t. if u_State u = UseCommitted \<and> t < u_SettledAt u then u_SettledAt u else t)
        (usesOf (g_ID g) uses) (g_UsedAt g))
     (g_ReservedCount g + reservedUses (g_ID g) uses)
     (fold (\<lambda>u t. if reservedState (u_State u) \<and> (t = 0 \<or> u_UpdatedAt u < t) then u_UpdatedAt u else t)
        (usesOf (g_ID g) uses) (g_ReservedAt g))
     (g_ReservationRetained g \<or> anyRetained (g_ID g) uses)"
proof (induction uses arbitrary: g)
  case Nil
  then show ?case by (simp add: committedUses_def reservedUses_def anyRetained_def)
next
  case (Cons u us)
  have counts: "committedUses i (u # us) = (if u_GrantID u = i \<and> u_State u = UseCommitted then 1 else 0) + committedUses i us"
    "reservedUses i (u # us) = (if u_GrantID u = i \<and> reservedState (u_State u) then 1 else 0) + reservedUses i us"
    "anyRetained i (u # us) = ((u_GrantID u = i \<and> u_State u = UseRetained) \<or> anyRetained i us)" for i
    by (auto simp: committedUses_def reservedUses_def anyRetained_def)
  show ?case
  proof (cases "u_GrantID u = g_ID g")
    case True
    then show ?thesis
      using Cons.IH[of "aggregateGrantUse g u"] by (simp add: counts aggregateGrantUse_fields add.assoc)
  next
    case False
    then show ?thesis using Cons.IH[of g] by (simp add: counts)
  qed
qed

lemma aggregateGrantUses_fields:
  "aggregateGrantUses g uses = withUses g (committedUses (g_ID g) uses) (lastUsed (g_ID g) uses)
     (reservedUses (g_ID g) uses) (reservedSince (g_ID g) uses) (anyRetained (g_ID g) uses)"
proof -
  have "g\<lparr>g_UsedCount := 0, g_ReservedCount := 0, g_ReservedAt := 0, g_ReservationRetained := False, g_UsedAt := 0\<rparr>
    = withUses g 0 0 0 0 False" by (simp add: withUses_def)
  then show ?thesis
    unfolding aggregateGrantUses_def aggregation_loop by (simp add: lastUsed_def reservedSince_def)
qed

text \<open>A grant agrees with its use records.\<close>

definition aggregated :: "GrantUse list \<Rightarrow> Grant \<Rightarrow> bool" where
  "aggregated uses g \<longleftrightarrow>
     g_UsedCount g = committedUses (g_ID g) uses \<and> g_UsedAt g = lastUsed (g_ID g) uses
     \<and> g_ReservedCount g = reservedUses (g_ID g) uses \<and> g_ReservedAt g = reservedSince (g_ID g) uses
     \<and> g_ReservationRetained g = anyRetained (g_ID g) uses
     \<and> g_UseRevision g = g_UsedCount g \<and> g_ReservationRevision g = useRevisionTotal (g_ID g) uses"

lemma aggregated_iff: "grantUseAggregateFromGrant g = wantedAggregate g uses \<longleftrightarrow> aggregated uses g"
  by (auto simp: grantUseAggregateFromGrant_def wantedAggregate_def Let_def aggregateGrantUses_fields aggregated_def)

lemma useRevisionTotal_usesOf: "useRevisionTotal i uses = sum_list (map u_Revision (usesOf i uses))"
  by (simp add: useRevisionTotal_def usesOf_def)

lemmas aggregate_defs = committedUses_def reservedUses_def lastUsed_def reservedSince_def anyRetained_def
  useRevisionTotal_usesOf

text \<open>Only the grant's own records count.\<close>

lemma aggregated_cong:
  "usesOf (g_ID g) uses' = usesOf (g_ID g) uses \<Longrightarrow> aggregated uses' g \<longleftrightarrow> aggregated uses g"
  by (simp add: aggregated_def aggregate_defs)

text \<open>Aggregating a grant whose revision counters were brought up to date makes it agree.\<close>

lemma aggregated_after:
  assumes "g_UseRevision g = committedUses (g_ID g) uses" "g_ReservationRevision g = useRevisionTotal (g_ID g) uses"
  shows "aggregated uses (aggregateGrantUses g uses)"
  using assms by (simp add: aggregated_def aggregateGrantUses_fields withUses_def)

section \<open>Changing one record\<close>

lemma findUseIndex_Some:
  "findUseIndex us r = Some (k, u) \<Longrightarrow> k < length us \<and> us ! k = u \<and> u_RequestID u = r \<and> u \<in> set us"
  by (induction us arbitrary: k) (auto split: if_splits)

lemma findUseIndex_None: "findUseIndex us r = None \<longleftrightarrow> r \<notin> u_RequestID ` set us"
  by (induction us) auto

lemma usesOf_update_other:
  "k < length us \<Longrightarrow> u_GrantID (us ! k) \<noteq> i \<Longrightarrow> u_GrantID u' \<noteq> i \<Longrightarrow> usesOf i (us[k := u']) = usesOf i us"
  by (induction us arbitrary: k) (auto split: nat.splits)

lemma update_split:
  assumes "k < length us"
  obtains xs old ys where "us = xs @ old # ys" "us ! k = old" "us[k := u] = xs @ u # ys"
  using assms id_take_nth_drop[of k us] upd_conv_take_nth_drop[of k us u] by blast

text \<open>How many records of a grant have a property, when one record is replaced.\<close>

lemma count_update:
  assumes "k < length us" "u_GrantID (us ! k) = i" "u_GrantID u' = i"
  shows "int (length (filter P (usesOf i (us[k := u'])))) =
    int (length (filter P (usesOf i us))) - (if P (us ! k) then 1 else 0) + (if P u' then 1 else 0)"
proof -
  obtain xs old ys where split: "us = xs @ old # ys" "us ! k = old" "us[k := u'] = xs @ u' # ys"
    using update_split[OF assms(1), of u'] by blast
  then show ?thesis using assms(2,3) unfolding useRevisionTotal_usesOf split(2,3) by (simp add: split(1))
qed

lemma revision_update:
  assumes "k < length us" "u_GrantID (us ! k) = i" "u_GrantID u' = i"
  shows "useRevisionTotal i (us[k := u']) = useRevisionTotal i us - u_Revision (us ! k) + u_Revision u'"
proof -
  obtain xs old ys where split: "us = xs @ old # ys" "us ! k = old" "us[k := u'] = xs @ u' # ys"
    using update_split[OF assms(1), of u'] by blast
  then show ?thesis using assms(2,3) unfolding useRevisionTotal_usesOf split(2,3) by (simp add: split(1))
qed

lemma committed_update:
  assumes "k < length us" "u_GrantID (us ! k) = i" "u_GrantID u' = i"
  shows "committedUses i (us[k := u']) =
    committedUses i us - (if u_State (us ! k) = UseCommitted then 1 else 0) + (if u_State u' = UseCommitted then 1 else 0)"
  using count_update[OF assms, of "\<lambda>u. u_State u = UseCommitted"] by (simp add: committedUses_def)

lemma reserved_update:
  assumes "k < length us" "u_GrantID (us ! k) = i" "u_GrantID u' = i"
  shows "reservedUses i (us[k := u']) =
    reservedUses i us - (if reservedState (u_State (us ! k)) then 1 else 0) + (if reservedState (u_State u') then 1 else 0)"
  using count_update[OF assms, of "\<lambda>u. reservedState (u_State u)"] by (simp add: reservedUses_def)

lemma counts_nonneg [simp]: "0 \<le> committedUses i us" "0 \<le> reservedUses i us"
  by (simp_all add: committedUses_def reservedUses_def)

section \<open>Reserved since a real time\<close>

lemma reservedSince_loop:
  assumes "\<forall>u\<in>set us. 0 < u_UpdatedAt u" "0 \<le> t"
  shows "0 \<le> fold (\<lambda>u t. if reservedState (u_State u) \<and> (t = 0 \<or> u_UpdatedAt u < t) then u_UpdatedAt u else t) us t"
    and "t \<noteq> 0 \<or> list_ex (\<lambda>u. reservedState (u_State u)) us \<Longrightarrow>
      fold (\<lambda>u t. if reservedState (u_State u) \<and> (t = 0 \<or> u_UpdatedAt u < t) then u_UpdatedAt u else t) us t \<noteq> 0"
  using assms by (induction us arbitrary: t) auto

lemma reservedSince_nonzero:
  assumes "\<forall>u\<in>set uses. 0 < u_UpdatedAt u" "0 < reservedUses i uses"
  shows "reservedSince i uses \<noteq> 0"
proof -
  have "list_ex (\<lambda>u. reservedState (u_State u)) (usesOf i uses)"
    using assms(2) by (auto simp: reservedUses_def list_ex_iff filter_empty_conv)
  moreover have "\<forall>u\<in>set (usesOf i uses). 0 < u_UpdatedAt u" using assms(1) by (simp add: usesOf_def)
  ultimately show ?thesis using reservedSince_loop(2)[of "usesOf i uses" 0] by (simp add: reservedSince_def)
qed

lemma useRevisionTotal_pos:
  assumes "\<forall>u\<in>set uses. 1 \<le> u_Revision u" "0 < reservedUses i uses"
  shows "1 \<le> useRevisionTotal i uses"
proof -
  obtain u where "u \<in> set (usesOf i uses)" using assms(2) by (auto simp: reservedUses_def filter_empty_conv dest: list.set_sel)
  then obtain us vs where split: "usesOf i uses = us @ u # vs" by (meson split_list)
  have ge: "\<forall>x\<in>set (usesOf i uses). 1 \<le> u_Revision x" using assms(1) by (simp add: usesOf_def)
  then have "0 \<le> sum_list (map u_Revision us)" "0 \<le> sum_list (map u_Revision vs)"
    unfolding split by (force intro!: sum_list_nonneg)+
  then show ?thesis using ge split by (simp add: useRevisionTotal_usesOf)
qed

end
