(* ===== verification/GrantInvariant.thy ===== *)
theory GrantInvariant
  imports GrantAggregates
begin

text \<open>
  The invariant of the grant store and the relation between a grant before and after an operation.
  \<open>storeInv\<close> is what every operation keeps; it contains everything that loading the state checks, so a store that only
  this code wrote always loads again. \<open>follows\<close> is what may happen to one grant: its request is fixed, its
  status moves along \<open>statusStep\<close>, and a committed use is never taken back.

  The clock is only assumed not to run backwards between a reservation and what follows it: \<open>clockIn t t' ck\<close> bounds
  all readings of one operation, and \<open>t\<close> bounds the times in the state.
\<close>

section \<open>The life of one grant\<close>

inductive statusStep :: "Status \<Rightarrow> Status \<Rightarrow> bool" where
  approve: "statusStep StatusPending StatusActive"
| deny: "statusStep StatusPending StatusDenied"
| fail: "statusStep StatusPending StatusFailed"
| cancel: "statusStep StatusPending StatusCanceled"
| lapse: "statusStep StatusPending StatusExpired"
| expire: "statusStep StatusActive StatusExpired"
| revoke: "statusStep StatusActive StatusRevoked"
| consume: "statusStep StatusActive StatusConsumed"
| consumeLate: "statusStep StatusExpired StatusConsumed"

inductive_simps statusStep_from:
  "statusStep StatusPending s" "statusStep StatusActive s" "statusStep StatusExpired s" "statusStep StatusDenied s"
  "statusStep StatusFailed s" "statusStep StatusCanceled s" "statusStep StatusRevoked s" "statusStep StatusConsumed s"

inductive_cases statusStep_toPending: "statusStep s StatusPending"

definition terminal :: "Status \<Rightarrow> bool" where
  "terminal s \<longleftrightarrow> s \<in> set [StatusDenied, StatusFailed, StatusCanceled, StatusRevoked, StatusConsumed]"

lemma terminal_stuck: "terminal s \<Longrightarrow> \<not> statusStep s s'"
  by (auto simp: terminal_def statusStep_from)

lemma terminal_stays: "statusStep\<^sup>*\<^sup>* s s' \<Longrightarrow> terminal s \<Longrightarrow> s' = s"
  by (induction rule: converse_rtranclp_induct) (auto simp: terminal_stuck)

lemma toPending: "statusStep\<^sup>*\<^sup>* s s' \<Longrightarrow> s' = StatusPending \<Longrightarrow> s = StatusPending"
  by (erule rtranclp.cases) (auto elim: statusStep_toPending)

text \<open>What a request fixes for good.\<close>

definition subject :: "Grant \<Rightarrow> string \<times> string \<times> string \<times> string \<times> Target \<times> string list gomap \<times> string gomap \<times> string" where
  "subject g = (g_ID g, g_Client g, g_ClientRequestID g, g_Operation g, g_Target g, g_Attrs g, g_Metadata g, g_Reason g)"

definition bounds :: "Grant \<Rightarrow> gotime \<times> gotime \<times> duration \<times> duration \<times> Limit \<times> bool" where
  "bounds g = (g_CreatedAt g, g_PendingExpiresAt g, g_RequestedDuration g, g_PendingTimeout g, g_RequestedMaxUses g,
               g_RequestedMaxUsesDefaulted g)"

definition follows :: "Grant \<Rightarrow> Grant \<Rightarrow> bool" where
  "follows old new \<longleftrightarrow> subject new = subject old \<and> bounds new = bounds old
     \<and> statusStep\<^sup>*\<^sup>* (g_Status old) (g_Status new) \<and> g_UsedCount old \<le> g_UsedCount new"

lemma follows_refl [simp]: "follows g g"
  by (simp add: follows_def)

lemma follows_trans [trans]: "follows a b \<Longrightarrow> follows b c \<Longrightarrow> follows a c"
  by (auto simp: follows_def intro: rtranclp_trans)

lemma follows_step:
  "subject new = subject old \<Longrightarrow> bounds new = bounds old \<Longrightarrow> statusStep (g_Status old) (g_Status new)
   \<Longrightarrow> g_UsedCount new = g_UsedCount old \<Longrightarrow> follows old new"
  by (simp add: follows_def r_into_rtranclp)

lemma follows_subject:
  assumes "follows old new"
  shows "g_ID new = g_ID old" "g_Operation new = g_Operation old" "g_Client new = g_Client old"
    "g_Status new = StatusPending \<Longrightarrow> g_Status old = StatusPending"
  using assms by (auto simp: follows_def subject_def dest: toPending)

text \<open>A list of grants grows at the end; the grants it had follow themselves.\<close>

definition evolves :: "Grant list \<Rightarrow> Grant list \<Rightarrow> bool" where
  "evolves old new \<longleftrightarrow> length old \<le> length new \<and> (\<forall>k<length old. follows (old ! k) (new ! k))"

lemma evolves_list_all2: "list_all2 follows old new \<Longrightarrow> evolves old new"
  by (simp add: evolves_def list_all2_conv_all_nth)

lemma evolves_refl [simp]: "evolves gs gs"
  by (simp add: evolves_def)

lemma evolves_append: "evolves gs (gs @ hs)"
  by (simp add: evolves_def nth_append)

lemma evolves_trans [trans]: "evolves a b \<Longrightarrow> evolves b c \<Longrightarrow> evolves a c"
  by (auto simp: evolves_def intro: follows_trans)

lemma list_all2_update:
  assumes "k < length gs" "follows (gs ! k) g"
  shows "list_all2 follows gs (gs[k := g])"
  using assms by (auto simp: list_all2_conv_all_nth nth_list_update)

section \<open>The invariant\<close>

definition unused :: "Grant \<Rightarrow> bool" where
  "unused g \<longleftrightarrow> g_UsedCount g = 0 \<and> g_ReservedCount g = 0"

text \<open>What approval and use keep of one grant, beyond what a load checks.\<close>

definition grantInv :: "Grant \<Rightarrow> bool" where
  "grantInv g \<longleftrightarrow>
     limit.within (g_MaxUses g) (g_UsedCount g) (g_ReservedCount g)
     \<and> (g_Status g \<in> set [StatusPending, StatusDenied, StatusFailed, StatusCanceled] \<longrightarrow> unused g)
     \<and> (g_Status g = StatusConsumed \<longrightarrow> Exhausted (g_MaxUses g) (g_UsedCount g))
     \<and> g_Duration g \<le> g_RequestedDuration g
     \<and> (IsUnlimited (g_RequestedMaxUses g) \<or> (IsFinite (g_MaxUses g) \<and> g_MaxUses g \<le> g_RequestedMaxUses g))
     \<and> (g_Status g = StatusActive \<longrightarrow> g_ExpiresAt g = g_DecidedAt g + g_Duration g)"

text \<open>The checks of a load that do not concern the counters or the revision.\<close>

definition grantShape :: "Grant \<Rightarrow> bool" where
  "grantShape g \<longleftrightarrow>
     validGrantIdentity g [] \<and> validStoredStatus (g_Status g) \<and> validGrantFailure g \<and> g_CreatedAt g \<noteq> 0
     \<and> g_PendingExpiresAt g \<noteq> 0 \<and> g_Duration g > 0 \<and> g_RequestedDuration g > 0 \<and> g_PendingTimeout g > 0
     \<and> g_MaxUses g \<ge> 0 \<and> g_RequestedMaxUses g \<ge> 0 \<and> validateLoadedGrantMaps g = None"

definition coreGrant :: "GrantUse list \<Rightarrow> Grant \<Rightarrow> bool" where
  "coreGrant uses g \<longleftrightarrow> grantShape g \<and> aggregated uses g \<and> grantInv g"

definition coreUse :: "gotime \<Rightarrow> Grant list \<Rightarrow> GrantUse \<Rightarrow> bool" where
  "coreUse t grants u \<longleftrightarrow>
     (u_GrantID u, u_Operation u) \<in> (\<lambda>g. (g_ID g, g_Operation g)) ` set grants
     \<and> validUseIdentity (u_GrantID u) (u_RequestID u) (u_Operation u) \<and> validLoadedUseLifecycle u
     \<and> 0 < u_CreatedAt u \<and> u_CreatedAt u \<le> t"

definition pendingWithin :: "Options \<Rightarrow> Grant list \<Rightarrow> bool" where
  "pendingWithin opts gs \<longleftrightarrow>
     (\<forall>client. int (length (filter (\<lambda>g. g_Status g = StatusPending \<and> g_Client g = client) gs)) \<le> o_MaxPendingPerClient opts)
     \<and> int (length (filter (\<lambda>g. g_Status g = StatusPending) gs)) \<le> o_MaxPendingGlobal opts"

text \<open>The invariant during an operation, before revisions are brought up to date.\<close>

definition coreData :: "Options \<Rightarrow> gotime \<Rightarrow> fileData \<Rightarrow> bool" where
  "coreData opts t data \<longleftrightarrow>
     validOptions opts \<and> 0 < t
     \<and> distinct (map g_ID (fd_Grants data)) \<and> (\<forall>g\<in>set (fd_Grants data). coreGrant (fd_Uses data) g)
     \<and> distinct (map u_RequestID (fd_Uses data)) \<and> (\<forall>u\<in>set (fd_Uses data). coreUse t (fd_Grants data) u)
     \<and> eventsOrdered (fd_Events data) (fd_NextEvent data)
     \<and> int (length (fd_Events data)) \<le> o_MaxEvents opts \<and> pendingWithin opts (fd_Grants data)"

definition storeInv :: "Options \<Rightarrow> gotime \<Rightarrow> fileData \<Rightarrow> bool" where
  "storeInv opts t data \<longleftrightarrow> coreData opts t data \<and> (\<forall>g\<in>set (fd_Grants data). 1 \<le> g_Revision g)"

definition clockIn :: "gotime \<Rightarrow> gotime \<Rightarrow> Clock \<Rightarrow> bool" where
  "clockIn t t' ck \<longleftrightarrow> t \<le> t' \<and> (\<forall>r\<in>set [ck_expire ck, ck_retain ck, ck_again ck, ck_mutate ck]. t \<le> r \<and> r \<le> t')"

section \<open>Changing a grant without touching its uses\<close>

definition usage :: "Grant \<Rightarrow> int \<times> gotime \<times> int \<times> gotime \<times> bool \<times> int \<times> int" where
  "usage g = (g_UsedCount g, g_UsedAt g, g_ReservedCount g, g_ReservedAt g, g_ReservationRetained g, g_UseRevision g,
              g_ReservationRevision g)"

lemma coreGrant_moved:
  assumes "coreGrant uses g" "subject h = subject g" "bounds h = bounds g" "usage h = usage g"
    and "validStoredStatus (g_Status h)" "validGrantFailure h" "0 < g_Duration h" "0 \<le> g_MaxUses h" "grantInv h"
  shows "coreGrant uses h"
proof -
  have "grantShape h"
    using assms(1,2,3,5-8)
    by (simp add: coreGrant_def grantShape_def subject_def bounds_def validGrantIdentity_def validateLoadedGrantMaps_def)
  moreover have "aggregated uses h"
    using assms(1,2,4) by (simp add: coreGrant_def aggregated_def subject_def usage_def)
  ultimately show ?thesis using assms(9) by (simp add: coreGrant_def)
qed

lemma coreGrant_facts:
  assumes "coreGrant uses g"
  shows "0 < g_Duration g" "0 \<le> g_MaxUses g" "validStoredStatus (g_Status g)" "validGrantFailure g" "grantInv g"
    and "g_Status g \<noteq> StatusFailed \<Longrightarrow> g_FailureCode g = CodeUnset \<and> g_FailureReference g = [] \<and> g_FailedAt g = 0"
  using assms by (auto simp: coreGrant_def grantShape_def validGrantFailure_def)

section \<open>The invariant contains what a load checks\<close>

lemma coreUse_times:
  assumes "\<forall>u\<in>set uses. coreUse t gs u"
  shows "\<forall>u\<in>set uses. 0 < u_UpdatedAt u" "\<forall>u\<in>set uses. 1 \<le> u_Revision u"
  using assms by (force simp: coreUse_def validLoadedUseLifecycle_def split: if_splits)+

lemma coreGrant_valid:
  assumes "coreGrant uses g" "\<forall>u\<in>set uses. coreUse t gs u" "1 \<le> g_Revision g"
  shows "validGrant g"
proof -
  have counts: "g_UsedCount g = committedUses (g_ID g) uses" "g_ReservedCount g = reservedUses (g_ID g) uses"
    "g_ReservedAt g = reservedSince (g_ID g) uses" "g_ReservationRevision g = useRevisionTotal (g_ID g) uses"
    "g_UseRevision g = g_UsedCount g"
    using assms(1) by (simp_all add: coreGrant_def aggregated_def)
  have "validGrantReservation g"
    using reservedSince_nonzero[OF coreUse_times(1)[OF assms(2)], of "g_ID g"]
      useRevisionTotal_pos[OF coreUse_times(2)[OF assms(2)], of "g_ID g"] counts_nonneg(2)[of "g_ID g" uses]
    unfolding validGrantReservation_def counts by linarith
  moreover have "validGrantUsage g"
    using assms(1) counts by (simp add: coreGrant_def grantShape_def validGrantUsage_def)
  ultimately show ?thesis
    using assms(1,3) by (simp add: coreGrant_def grantShape_def validGrant_def validGrantLifecycle_def)
qed

lemma storeInv_valid:
  assumes "storeInv opts t data"
  shows "validData data"
proof -
  have use: "\<exists>g\<in>set (fd_Grants data). g_ID g = u_GrantID u \<and> validLoadedUse u g" if "u \<in> set (fd_Uses data)" for u
  proof -
    have "coreUse t (fd_Grants data) u" using assms that by (simp add: storeInv_def coreData_def)
    then obtain g where "g \<in> set (fd_Grants data)" "g_ID g = u_GrantID u" "g_Operation g = u_Operation u"
      "validUseIdentity (u_GrantID u) (u_RequestID u) (u_Operation u)" "validLoadedUseLifecycle u"
      by (auto simp: coreUse_def)
    then show ?thesis by (auto simp: validLoadedUse_def validLoadedUseIdentity_def)
  qed
  have grant: "validGrant g \<and> aggregated (fd_Uses data) g" if "g \<in> set (fd_Grants data)" for g
    using assms that coreGrant_valid[of "fd_Uses data" g t "fd_Grants data"]
    by (auto simp: storeInv_def coreData_def coreGrant_def)
  show ?thesis
    using assms use grant unfolding validData_def aggregated_iff by (simp add: storeInv_def coreData_def)
qed

lemma storeInv_load: "storeInv opts t data \<Longrightarrow> load data = Inr data"
  by (rule load_valid) (rule storeInv_valid)

lemma emptyState_inv: "validOptions opts \<Longrightarrow> 0 < t \<Longrightarrow> storeInv opts t emptyState"
  by (simp add: storeInv_def coreData_def emptyState_def eventsOrdered_def pendingWithin_def validOptions_def)

section \<open>Replacing the grants\<close>

lemma pending_filter_le:
  assumes "list_all2 follows gs hs"
  shows "length (filter (\<lambda>g. g_Status g = StatusPending \<and> p (g_Client g)) hs)
    \<le> length (filter (\<lambda>g. g_Status g = StatusPending \<and> p (g_Client g)) gs)"
  using assms
proof (induction rule: list_all2_induct)
  case (Cons g gs h hs)
  then show ?case using follows_subject[of g h] by auto
qed simp

lemma pendingWithin_follows:
  assumes "list_all2 follows gs hs" "pendingWithin opts gs"
  shows "pendingWithin opts hs"
proof -
  have "int (length (filter (\<lambda>g. g_Status g = StatusPending \<and> g_Client g = client) hs)) \<le> o_MaxPendingPerClient opts" for client
  proof -
    have "int (length (filter (\<lambda>g. g_Status g = StatusPending \<and> g_Client g = client) gs)) \<le> o_MaxPendingPerClient opts"
      using assms(2) by (simp add: pendingWithin_def)
    then show ?thesis using pending_filter_le[OF assms(1), of "\<lambda>c. c = client"] by linarith
  qed
  moreover have "int (length (filter (\<lambda>g. g_Status g = StatusPending) hs)) \<le> o_MaxPendingGlobal opts"
    using pending_filter_le[OF assms(1), of "\<lambda>_. True"] assms(2) unfolding pendingWithin_def by simp
  ultimately show ?thesis by (simp add: pendingWithin_def)
qed

lemma follows_ids:
  assumes "list_all2 follows gs hs"
  shows "map g_ID hs = map g_ID gs"
    and "(\<lambda>g. (g_ID g, g_Operation g)) ` set hs = (\<lambda>g. (g_ID g, g_Operation g)) ` set gs"
  using assms by (induction rule: list_all2_induct) (auto simp: follows_subject)

lemma coreUse_follows: "list_all2 follows gs hs \<Longrightarrow> coreUse t hs u \<longleftrightarrow> coreUse t gs u"
  by (simp add: coreUse_def follows_ids)

lemma coreUse_later: "coreUse t gs u \<Longrightarrow> t \<le> t' \<Longrightarrow> coreUse t' gs u"
  by (auto simp: coreUse_def)

text \<open>The shape of every operation on existing grants.\<close>

lemma coreData_follow:
  assumes "coreData opts t data" "t \<le> t'" "list_all2 follows (fd_Grants data) hs"
    and "\<forall>h\<in>set hs. coreGrant uses h"
    and "distinct (map u_RequestID uses)" "\<forall>u\<in>set uses. coreUse t' (fd_Grants data) u"
  shows "coreData opts t' (data\<lparr>fd_Uses := uses, fd_Grants := hs\<rparr>)"
  using assms pendingWithin_follows[OF assms(3)] by (simp add: coreData_def follows_ids coreUse_follows)

lemma coreData_later: "coreData opts t data \<Longrightarrow> t \<le> t' \<Longrightarrow> coreData opts t' data"
  by (auto simp: coreData_def intro: coreUse_later)

lemma coreData_grants:
  assumes "coreData opts t data" "list_all2 follows (fd_Grants data) hs" "\<forall>h\<in>set hs. coreGrant (fd_Uses data) h"
  shows "coreData opts t (data\<lparr>fd_Grants := hs\<rparr>)"
  using coreData_follow[OF assms(1) order_refl assms(2,3)] assms(1) by (simp add: coreData_def)

text \<open>Changing one grant and nothing else.\<close>

lemma coreData_grant:
  assumes "coreData opts t data" "k < length (fd_Grants data)" "follows (fd_Grants data ! k) g" "coreGrant (fd_Uses data) g"
  shows "coreData opts t (data\<lparr>fd_Grants := (fd_Grants data)[k := g]\<rparr>)"
proof (rule coreData_grants[OF assms(1) list_all2_update[OF assms(2,3)]])
  show "\<forall>h\<in>set ((fd_Grants data)[k := g]). coreGrant (fd_Uses data) h"
    using assms(1,4) by (auto simp: coreData_def dest!: set_update_subset_insert[THEN subsetD])
qed

lemma findGrantIndex_Some:
  "findGrantIndex gs i = Some (k, g) \<Longrightarrow> k < length gs \<and> gs ! k = g \<and> g_ID g = i \<and> g \<in> set gs"
  by (induction gs arbitrary: k) (auto split: if_splits)

lemma findGrant_Inr: "findGrant gs i = Inr (k, g) \<Longrightarrow> k < length gs \<and> gs ! k = g \<and> g_ID g = i \<and> g \<in> set gs"
  by (auto simp: findGrant_def findGrantIndex_Some split: option.splits)

lemma findGrant_Inl: "findGrant gs i = Inl e \<Longrightarrow> e = ErrNotFound \<and> i \<notin> g_ID ` set gs"
proof (induction gs)
  case (Cons g gs)
  then show ?case by (cases "findGrantIndex gs i") (auto simp: findGrant_def split: if_splits)
qed (simp add: findGrant_def)

end
