(* ===== verification/GrantPrepare.thy ===== *)
theory GrantPrepare
  imports GrantInvariant
begin

text \<open>
  The parts of an update that every operation shares keep the invariant: expiry, retention of stale reservations, and
  the reconciliation that writes revisions and events.
\<close>

section \<open>Expiry\<close>

lemma expireGrant_Some:
  assumes "expireGrant now g = Some h" "coreGrant uses g"
  shows "coreGrant uses h" "follows g h" "g_Revision h = g_Revision g"
proof -
  consider (pending) "g_Status g = StatusPending"
      "h = g\<lparr>g_ExpiredFrom := g_Status g, g_Status := StatusExpired, g_DecidedAt := now\<rparr>"
    | (active) "g_Status g = StatusActive" "h = g\<lparr>g_ExpiredFrom := g_Status g, g_Status := StatusExpired\<rparr>"
    using assms(1) unfolding expireGrant_def by (metis option.distinct(1) option.inject)
  then have "subject h = subject g \<and> bounds h = bounds g \<and> usage h = usage g \<and> g_Status h = StatusExpired
    \<and> (g_Status g = StatusPending \<or> g_Status g = StatusActive) \<and> g_Duration h = g_Duration g \<and> g_MaxUses h = g_MaxUses g
    \<and> validGrantFailure h \<and> g_Revision h = g_Revision g"
    by cases (simp_all add: subject_def bounds_def usage_def validGrantFailure_def coreGrant_facts(6)[OF assms(2)])
  then have h: "subject h = subject g" "bounds h = bounds g" "usage h = usage g" "g_Status h = StatusExpired"
    "g_Status g = StatusPending \<or> g_Status g = StatusActive" "g_Duration h = g_Duration g" "g_MaxUses h = g_MaxUses g"
    "validGrantFailure h" "g_Revision h = g_Revision g" by simp_all
  have "grantInv h"
    using coreGrant_facts(5)[OF assms(2)] h(2,3,4,6,7) by (simp add: grantInv_def bounds_def usage_def)
  then show "coreGrant uses h"
    using coreGrant_moved[OF assms(2) h(1,2,3)] h(4-8) coreGrant_facts[OF assms(2)] by (simp add: validStoredStatus_def)
  show "follows g h" using h(1-5) by (intro follows_step) (auto simp: statusStep_from usage_def)
  show "g_Revision h = g_Revision g" by (rule h(9))
qed

definition expired :: "gotime \<Rightarrow> Grant \<Rightarrow> Grant" where
  "expired now g = (case expireGrant now g of Some h \<Rightarrow> h | None \<Rightarrow> g)"

lemma expired_core:
  assumes "coreGrant uses g"
  shows "coreGrant uses (expired now g)" "follows g (expired now g)" "g_Revision (expired now g) = g_Revision g"
  using expireGrant_Some[OF _ assms] assms by (auto simp: expired_def split: option.splits)

lemma expireDue_fields: "fst (expireDue now data) = data\<lparr>fd_Grants := map (expired now) (fd_Grants data)\<rparr>"
  by (simp add: expireDue_def expired_def)

lemma list_all2_map_follows:
  "(\<And>g. g \<in> set gs \<Longrightarrow> follows g (f g)) \<Longrightarrow> list_all2 follows gs (map f gs)"
  by (simp add: list_all2_conv_all_nth)

lemma expireDue_core:
  assumes "coreData opts t data"
  shows "coreData opts t (fst (expireDue now data))"
    and "list_all2 follows (fd_Grants data) (fd_Grants (fst (expireDue now data)))"
    and "map g_Revision (fd_Grants (fst (expireDue now data))) = map g_Revision (fd_Grants data)"
proof -
  have core: "coreGrant (fd_Uses data) g" if "g \<in> set (fd_Grants data)" for g
    using assms that by (simp add: coreData_def)
  have "list_all2 follows (fd_Grants data) (map (expired now) (fd_Grants data))"
    by (rule list_all2_map_follows) (simp add: expired_core(2)[OF core])
  then show "coreData opts t (fst (expireDue now data))"
    "list_all2 follows (fd_Grants data) (fd_Grants (fst (expireDue now data)))"
    unfolding expireDue_fields using core by (auto intro!: coreData_grants[OF assms] expired_core(1))
  show "map g_Revision (fd_Grants (fst (expireDue now data))) = map g_Revision (fd_Grants data)"
    using core by (simp add: expireDue_fields expired_core(3)[OF core])
qed

section \<open>Stale reservations\<close>

lemma retainUse_simps [simp]:
  "u_GrantID (retainUse now u) = u_GrantID u" "u_RequestID (retainUse now u) = u_RequestID u"
  "u_Operation (retainUse now u) = u_Operation u" "u_State (retainUse now u) = UseRetained"
  "u_Revision (retainUse now u) = u_Revision u + 1" "u_CreatedAt (retainUse now u) = u_CreatedAt u"
  "u_UpdatedAt (retainUse now u) = now" "u_SettledAt (retainUse now u) = u_SettledAt u"
  by (simp_all add: retainUse_def)

definition retained :: "(GrantUse \<Rightarrow> bool) \<Rightarrow> gotime \<Rightarrow> GrantUse list \<Rightarrow> GrantUse list" where
  "retained S now uses = map (\<lambda>u. if S u then retainUse now u else u) uses"

lemma retained_counts:
  assumes "\<forall>u\<in>set uses. S u \<longrightarrow> u_State u = UseReserved"
  shows "committedUses i (retained S now uses) = committedUses i uses"
    and "reservedUses i (retained S now uses) = reservedUses i uses"
    and "useRevisionTotal i (retained S now uses) =
      useRevisionTotal i uses + int (length (filter (\<lambda>u. u_GrantID u = i \<and> S u) uses))"
  using assms
  by (induction uses) (auto simp: retained_def committedUses_def reservedUses_def useRevisionTotal_usesOf reservedState_def)

lemma retained_untouched:
  "filter (\<lambda>u. u_GrantID u = i \<and> S u) uses = [] \<Longrightarrow> usesOf i (retained S now uses) = usesOf i uses"
  by (induction uses) (auto simp: retained_def split: if_splits)

lemma retained_ids: "map u_RequestID (retained S now uses) = map u_RequestID uses"
  by (simp add: retained_def)

lemma coreUse_retained:
  assumes "coreUse t gs u" "u_State u = UseReserved" "t \<le> now"
  shows "coreUse t gs (retainUse now u)"
  using assms by (auto simp: coreUse_def validLoadedUseLifecycle_def validUseSettlementTime_def validUseState_def split: if_splits)

text \<open>Aggregating again after the reservation revision was advanced.\<close>

definition reaggregated :: "Grant \<Rightarrow> int \<Rightarrow> GrantUse list \<Rightarrow> Grant" where
  "reaggregated g delta uses = aggregateGrantUses (g\<lparr>g_ReservationRevision := g_ReservationRevision g + delta\<rparr>) uses"

lemma grantShape_counters [simp]:
  "grantShape (withUses g a b c d e) = grantShape g"
  "grantShape (g\<lparr>g_ReservationRevision := r\<rparr>) = grantShape g"
  "grantShape (g\<lparr>g_UseRevision := r\<rparr>) = grantShape g"
  "grantShape (g\<lparr>g_Revision := r\<rparr>) = grantShape g"
  by (simp_all add: grantShape_def withUses_def validGrantIdentity_def validGrantFailure_def validateLoadedGrantMaps_def)

lemma subject_counters [simp]:
  "subject (withUses g a b c d e) = subject g" "bounds (withUses g a b c d e) = bounds g"
  "subject (g\<lparr>g_ReservationRevision := r\<rparr>) = subject g" "bounds (g\<lparr>g_ReservationRevision := r\<rparr>) = bounds g"
  "subject (g\<lparr>g_UseRevision := r\<rparr>) = subject g" "bounds (g\<lparr>g_UseRevision := r\<rparr>) = bounds g"
  "subject (g\<lparr>g_Revision := r\<rparr>) = subject g" "bounds (g\<lparr>g_Revision := r\<rparr>) = bounds g"
  by (simp_all add: subject_def bounds_def withUses_def)

lemma withUses_more [simp]:
  "g_Status (withUses g a b c d e) = g_Status g" "g_Revision (withUses g a b c d e) = g_Revision g"
  "g_MaxUses (withUses g a b c d e) = g_MaxUses g" "g_RequestedMaxUses (withUses g a b c d e) = g_RequestedMaxUses g"
  "g_Duration (withUses g a b c d e) = g_Duration g" "g_RequestedDuration (withUses g a b c d e) = g_RequestedDuration g"
  "g_ExpiresAt (withUses g a b c d e) = g_ExpiresAt g" "g_DecidedAt (withUses g a b c d e) = g_DecidedAt g"
  "g_UseRevision (withUses g a b c d e) = g_UseRevision g" "g_Operation (withUses g a b c d e) = g_Operation g"
  "g_ReservationRevision (withUses g a b c d e) = g_ReservationRevision g"
  by (simp_all add: withUses_def)

lemma reaggregated_simps [simp]:
  "g_Revision (reaggregated g delta uses) = g_Revision g" "g_Status (reaggregated g delta uses) = g_Status g"
  "subject (reaggregated g delta uses) = subject g" "bounds (reaggregated g delta uses) = bounds g"
  "grantShape (reaggregated g delta uses) = grantShape g"
  "g_UsedCount (reaggregated g delta uses) = committedUses (g_ID g) uses"
  "g_ReservedCount (reaggregated g delta uses) = reservedUses (g_ID g) uses"
  by (simp_all add: reaggregated_def aggregateGrantUses_fields)

lemma reaggregated_aggregated:
  assumes "aggregated uses g" "committedUses (g_ID g) uses' = committedUses (g_ID g) uses"
    and "useRevisionTotal (g_ID g) uses' = useRevisionTotal (g_ID g) uses + delta"
  shows "aggregated uses' (reaggregated g delta uses')"
  unfolding reaggregated_def using assms by (intro aggregated_after) (simp_all add: aggregated_def)

lemma grantInv_counts:
  "g_UsedCount h = g_UsedCount g \<Longrightarrow> g_ReservedCount h = g_ReservedCount g \<Longrightarrow> g_MaxUses h = g_MaxUses g
   \<Longrightarrow> g_Status h = g_Status g \<Longrightarrow> g_Duration h = g_Duration g \<Longrightarrow> bounds h = bounds g
   \<Longrightarrow> g_ExpiresAt h = g_ExpiresAt g \<Longrightarrow> g_DecidedAt h = g_DecidedAt g \<Longrightarrow> grantInv h = grantInv g"
  by (simp add: grantInv_def unused_def bounds_def)

lemma reaggregated_core:
  assumes "coreGrant uses g" "committedUses (g_ID g) uses' = committedUses (g_ID g) uses"
    and "reservedUses (g_ID g) uses' = reservedUses (g_ID g) uses"
    and "useRevisionTotal (g_ID g) uses' = useRevisionTotal (g_ID g) uses + delta"
  shows "coreGrant uses' (reaggregated g delta uses')" "follows g (reaggregated g delta uses')"
proof -
  have g: "grantShape g" "aggregated uses g" "grantInv g" using assms(1) by (simp_all add: coreGrant_def)
  have counts: "g_UsedCount g = committedUses (g_ID g) uses" "g_ReservedCount g = reservedUses (g_ID g) uses"
    using g(2) by (simp_all add: aggregated_def)
  have "grantInv (reaggregated g delta uses') = grantInv g"
    by (rule grantInv_counts) (simp_all add: counts assms(2,3), simp_all add: reaggregated_def aggregateGrantUses_fields)
  then show "coreGrant uses' (reaggregated g delta uses')"
    using g reaggregated_aggregated[OF g(2) assms(2,4)] by (simp add: coreGrant_def)
  show "follows g (reaggregated g delta uses')"
    by (simp add: follows_def counts assms(2))
qed

definition settledGrants :: "Grant list \<Rightarrow> (string \<Rightarrow> int) \<Rightarrow> GrantUse list \<Rightarrow> Grant list" where
  "settledGrants gs delta uses = map (\<lambda>g. if delta (g_ID g) = 0 then g else reaggregated g (delta (g_ID g)) uses) gs"

lemma retainStale_fields:
  fixes opts now data
  defines "S \<equiv> staleUse (fd_Grants data) now (o_ReservationTimeout opts)"
  shows "fst (retainStaleReservations opts now data) =
    data\<lparr>fd_Uses := retained S now (fd_Uses data),
         fd_Grants := settledGrants (fd_Grants data) (\<lambda>i. int (length (filter (\<lambda>u. u_GrantID u = i \<and> S u) (fd_Uses data))))
                        (retained S now (fd_Uses data))\<rparr>"
  by (simp add: retainStaleReservations_def Let_def S_def retained_def settledGrants_def reaggregated_def revisionDelta_def)

lemma retainStale_core:
  assumes "coreData opts t data" "t \<le> now"
  shows "coreData opts t (fst (retainStaleReservations opts now data))"
    and "list_all2 follows (fd_Grants data) (fd_Grants (fst (retainStaleReservations opts now data)))"
    and "map g_Revision (fd_Grants (fst (retainStaleReservations opts now data))) = map g_Revision (fd_Grants data)"
proof -
  define S where "S = staleUse (fd_Grants data) now (o_ReservationTimeout opts)"
  define delta where "delta = (\<lambda>i. int (length (filter (\<lambda>u. u_GrantID u = i \<and> S u) (fd_Uses data))))"
  let ?uses = "retained S now (fd_Uses data)"
  let ?grants = "settledGrants (fd_Grants data) delta ?uses"
  have fields: "fst (retainStaleReservations opts now data) = data\<lparr>fd_Uses := ?uses, fd_Grants := ?grants\<rparr>"
    using retainStale_fields[of opts now data] by (simp add: S_def delta_def)
  have stale: "\<forall>u\<in>set (fd_Uses data). S u \<longrightarrow> u_State u = UseReserved"
    by (auto simp: S_def staleUse_def useReservationIsStale_def split: sum.splits)
  note counts = retained_counts[OF stale]
  have grant: "coreGrant ?uses (if delta (g_ID g) = 0 then g else reaggregated g (delta (g_ID g)) ?uses)
      \<and> follows g (if delta (g_ID g) = 0 then g else reaggregated g (delta (g_ID g)) ?uses)" if "g \<in> set (fd_Grants data)" for g
  proof (cases "delta (g_ID g) = 0")
    case True
    then have "usesOf (g_ID g) ?uses = usesOf (g_ID g) (fd_Uses data)"
      by (intro retained_untouched) (simp add: delta_def)
    then have "aggregated ?uses g = aggregated (fd_Uses data) g" by (rule aggregated_cong)
    then show ?thesis using True assms(1) that by (auto simp: coreData_def coreGrant_def)
  next
    case False
    have "coreGrant (fd_Uses data) g" using assms(1) that by (simp add: coreData_def)
    then show ?thesis
      using False reaggregated_core[of "fd_Uses data" g ?uses "delta (g_ID g)"] counts by (simp add: delta_def)
  qed
  have follow: "list_all2 follows (fd_Grants data) ?grants"
    unfolding settledGrants_def by (rule list_all2_map_follows) (use grant in blast)
  have uses: "coreUse t (fd_Grants data) u" if u: "u \<in> set ?uses" for u
  proof -
    obtain v where v: "v \<in> set (fd_Uses data)" "u = (if S v then retainUse now v else v)"
      using u unfolding retained_def set_map by blast
    then have "coreUse t (fd_Grants data) v" using assms(1) by (simp add: coreData_def)
    then show ?thesis
      using v stale coreUse_retained[OF _ _ assms(2)] by auto
  qed
  have core: "\<forall>h\<in>set ?grants. coreGrant ?uses h" 
    unfolding settledGrants_def set_map by (intro ballI, erule imageE, hypsubst) (use grant in blast)
  show "coreData opts t (fst (retainStaleReservations opts now data))"
    unfolding fields using assms follow core uses
    by (intro coreData_follow[OF assms(1)]) (auto simp: retained_ids coreData_def)
  show "list_all2 follows (fd_Grants data) (fd_Grants (fst (retainStaleReservations opts now data)))"
    unfolding fields using follow by simp
  show "map g_Revision (fd_Grants (fst (retainStaleReservations opts now data))) = map g_Revision (fd_Grants data)"
    unfolding fields by (simp add: settledGrants_def)
qed

lemma list_all2_follows_trans: "list_all2 follows a b \<Longrightarrow> list_all2 follows b c \<Longrightarrow> list_all2 follows a c"
  by (rule list_all2_trans[of follows follows follows, OF follows_trans])

lemma prepareLifecycle_core:
  assumes "coreData opts t data" "clockIn t t' ck"
  shows "coreData opts t (fst (prepareLifecycle opts ck data))"
    and "list_all2 follows (fd_Grants data) (fd_Grants (fst (prepareLifecycle opts ck data)))"
    and "map g_Revision (fd_Grants (fst (prepareLifecycle opts ck data))) = map g_Revision (fd_Grants data)"
proof -
  let ?mid = "fst (expireDue (ck_expire ck) data)"
  have eq: "fst (prepareLifecycle opts ck data) = fst (retainStaleReservations opts (ck_retain ck) ?mid)"
    by (simp add: prepareLifecycle_def split: prod.splits)
  have now: "t \<le> ck_retain ck" using assms(2) by (simp add: clockIn_def)
  note expire = expireDue_core[OF assms(1), of "ck_expire ck"]
  note retain = retainStale_core[OF expire(1) now]
  show "coreData opts t (fst (prepareLifecycle opts ck data))" unfolding eq by (rule retain(1))
  show "list_all2 follows (fd_Grants data) (fd_Grants (fst (prepareLifecycle opts ck data)))"
    unfolding eq by (rule list_all2_follows_trans[OF expire(2) retain(2)])
  show "map g_Revision (fd_Grants (fst (prepareLifecycle opts ck data))) = map g_Revision (fd_Grants data)"
    unfolding eq retain(3) by (rule expire(3))
qed

section \<open>Events\<close>

definition logOK :: "Options \<Rightarrow> fileData \<Rightarrow> bool" where
  "logOK opts data \<longleftrightarrow> eventsOrdered (fd_Events data) (fd_NextEvent data) \<and> int (length (fd_Events data)) \<le> o_MaxEvents opts"

text \<open>Two states that differ in their logs only, the second at least as long a history.\<close>

definition logged :: "fileData \<Rightarrow> fileData \<Rightarrow> bool" where
  "logged d d' \<longleftrightarrow> d' = d\<lparr>fd_Events := fd_Events d', fd_NextEvent := fd_NextEvent d'\<rparr> \<and> fd_NextEvent d \<le> fd_NextEvent d'"

lemma logged_refl [simp]: "logged d d"
  by (simp add: logged_def)

lemma logged_fields:
  "logged d d' \<Longrightarrow> fd_Grants d' = fd_Grants d \<and> fd_Uses d' = fd_Uses d \<and> fd_DecisionRecords d' = fd_DecisionRecords d"
  unfolding logged_def by (elim conjE, elim ssubst) simp

lemma logged_trans: "logged a b \<Longrightarrow> logged b c \<Longrightarrow> logged a c"
proof -
  assume ab: "logged a b" and bc: "logged b c"
  then have "fd_NextEvent a \<le> fd_NextEvent c" by (simp add: logged_def)
  moreover have "c = a\<lparr>fd_Events := fd_Events c, fd_NextEvent := fd_NextEvent c\<rparr>"
    using logged_fields[OF ab] logged_fields[OF bc] by (intro fileData.equality) simp_all
  ultimately show ?thesis by (simp add: logged_def)
qed

lemma eventsOrdered_suffix: "eventsOrdered evs n \<Longrightarrow> eventsOrdered (drop k evs) n"
proof -
  assume a: "eventsOrdered evs n"
  have "set (drop k evs) \<subseteq> set evs" by (rule set_drop_subset)
  moreover have "sorted_wrt (<) (map ev_Sequence (drop k evs))"
    using a by (simp add: eventsOrdered_def drop_map[symmetric] sorted_wrt_drop)
  ultimately show ?thesis using a by (auto simp: eventsOrdered_def)
qed

lemma trimEvents_eq: "trimEvents m evs = drop (nat (int (length evs) - m)) evs"
  by (simp add: trimEvents_def Let_def)

definition eventFor :: "Clock \<Rightarrow> EventKind \<Rightarrow> Grant \<Rightarrow> Grant \<Rightarrow> nat \<Rightarrow> lifecycleEventRecord" where
  "eventFor ck kind grant previous seq =
     \<lparr>ev_Sequence = seq, ev_Kind = kind, ev_GrantID = g_ID grant, ev_Status = g_Status grant,
      ev_UsedCount = g_UsedCount grant, ev_ReservedCount = g_ReservedCount grant, ev_Revision = g_Revision grant,
      ev_Time = ck_event ck seq, ev_Approver = g_DecidedBy grant, ev_PreviousStatus = g_Status previous,
      ev_PreviousRevision = g_Revision previous,
      ev_ExpectedRevision = (if g_DecidedBy grant \<noteq> [] then g_Revision previous else 0)\<rparr>"

lemma appendLifecycleEvent_eq:
  "0 < fd_NextEvent data \<Longrightarrow> appendLifecycleEvent opts ck kind g p data =
     data\<lparr>fd_NextEvent := fd_NextEvent data + 1,
          fd_Events := trimEvents (o_MaxEvents opts) (fd_Events data @ [eventFor ck kind g p (fd_NextEvent data)])\<rparr>"
  by (simp add: appendLifecycleEvent_def eventFor_def Let_def)

lemma appendLifecycleEvent_log:
  assumes "logOK opts data" "0 \<le> o_MaxEvents opts"
  shows "logOK opts (appendLifecycleEvent opts ck kind g p data)"
    and "logged data (appendLifecycleEvent opts ck kind g p data)"
proof -
  let ?d = "appendLifecycleEvent opts ck kind g p data"
  have pos: "0 < fd_NextEvent data" using assms(1) by (simp add: logOK_def eventsOrdered_def)
  define e where "e = eventFor ck kind g p (fd_NextEvent data)"
  have e: "ev_Sequence e = fd_NextEvent data"
    "?d = data\<lparr>fd_NextEvent := fd_NextEvent data + 1, fd_Events := trimEvents (o_MaxEvents opts) (fd_Events data @ [e])\<rparr>"
    using appendLifecycleEvent_eq[OF pos] by (simp_all add: e_def eventFor_def)
  have "eventsOrdered (fd_Events data @ [e]) (fd_NextEvent data + 1)"
    using assms(1) e(1) by (auto simp: logOK_def eventsOrdered_def sorted_wrt_append)
  then have "eventsOrdered (fd_Events ?d) (fd_NextEvent ?d)"
    by (simp add: e(2) trimEvents_eq eventsOrdered_suffix del: drop_append)
  moreover have "int (length (fd_Events ?d)) \<le> o_MaxEvents opts"
    using assms(2) by (simp add: e(2) trimEvents_eq)
  ultimately show "logOK opts ?d" by (simp add: logOK_def)
  show "logged data ?d" by (simp add: logged_def e(2))
qed

lemma appendEvents_log:
  assumes "logOK opts data" "0 \<le> o_MaxEvents opts"
  shows "logOK opts (fold (\<lambda>kind d. appendLifecycleEvent opts ck kind g p d) kinds data)
    \<and> logged data (fold (\<lambda>kind d. appendLifecycleEvent opts ck kind g p d) kinds data)"
  using assms(1)
proof (induction kinds arbitrary: data)
  case (Cons kind kinds)
  note one = appendLifecycleEvent_log[OF Cons.prems assms(2), of ck kind g p]
  show ?case using Cons.IH[OF one(1)] one(2) by (auto intro: logged_trans)
qed simp

section \<open>Reconciliation\<close>

text \<open>What reconciliation does to a grant: a new revision when something about it changed.\<close>

definition bump :: "Grant gomap \<Rightarrow> Grant \<Rightarrow> Grant" where
  "bump before g =
     (if lifecycleKinds (map_of before (g_ID g)) g = [] then g
      else g\<lparr>g_Revision := (case map_of before (g_ID g) of Some p \<Rightarrow> g_Revision p + 1 | None \<Rightarrow> 1)\<rparr>)"

lemma reconcileLoop_spec:
  assumes "logOK opts data" "0 \<le> o_MaxEvents opts"
    and "reconcileLoop opts ck before gs data = (hs, data', changed)"
  shows "hs = map (bump before) gs \<and> logOK opts data' \<and> logged data data'"
  using assms(1,3)
proof (induction gs arbitrary: data hs data' changed)
  case (Cons g gs)
  define kinds where "kinds = lifecycleKinds (map_of before (g_ID g)) g"
  define d1 where "d1 = (if kinds = [] then data else fold (\<lambda>kind d. appendLifecycleEvent opts ck kind (bump before g)
    (case map_of before (g_ID g) of Some p \<Rightarrow> p | None \<Rightarrow> zeroGrant) d) kinds data)"
  have d1: "logOK opts d1" "logged data d1"
    using appendEvents_log[OF Cons.prems(1) assms(2)] Cons.prems(1) by (simp_all add: d1_def)
  obtain hs2 c where rest: "reconcileLoop opts ck before gs d1 = (hs2, data', c)" "hs = bump before g # hs2"
    using Cons.prems(2) by (auto simp: Let_def kinds_def d1_def bump_def split: prod.splits if_splits)
  show ?case using Cons.IH[OF d1(1) rest(1)] d1(2) rest(2) by (auto intro: logged_trans)
qed simp

lemma coreGrant_revision [simp]: "coreGrant uses (g\<lparr>g_Revision := r\<rparr>) = coreGrant uses g"
  by (simp add: coreGrant_def aggregated_def grantInv_def unused_def)

lemma bump_core [simp]: "coreGrant uses (bump before g) = coreGrant uses g"
  by (simp add: bump_def)

lemma bump_follows [simp]: "follows g (bump before g)"
  by (simp add: bump_def follows_def)

lemma coreData_log: "coreData opts t data \<Longrightarrow> logOK opts data" "coreData opts t data \<Longrightarrow> 0 \<le> o_MaxEvents opts"
  by (simp_all add: coreData_def logOK_def validOptions_def)

lemma coreData_logged:
  assumes "coreData opts t data" "logged data data'" "logOK opts data'"
  shows "coreData opts t data'"
  using assms logged_fields[OF assms(2)] by (simp add: coreData_def logOK_def)

lemma reconcileLifecycle_core:
  assumes "coreData opts t data"
  shows "coreData opts t (fst (reconcileLifecycle opts ck data before))"
    and "fd_Grants (fst (reconcileLifecycle opts ck data before)) = map (bump before) (fd_Grants data)"
    and "fd_NextEvent data \<le> fd_NextEvent (fst (reconcileLifecycle opts ck data before))"
    and "fd_Uses (fst (reconcileLifecycle opts ck data before)) = fd_Uses data"
    and "fd_DecisionRecords (fst (reconcileLifecycle opts ck data before)) = fd_DecisionRecords data"
proof -
  obtain hs data' changed where loop: "reconcileLoop opts ck before (fd_Grants data) data = (hs, data', changed)"
    by (cases "reconcileLoop opts ck before (fd_Grants data) data") auto
  have spec: "hs = map (bump before) (fd_Grants data)" "logOK opts data'" "logged data data'"
    using reconcileLoop_spec[OF coreData_log[OF assms] loop] by auto
  have eq: "fst (reconcileLifecycle opts ck data before) = data'\<lparr>fd_Grants := map (bump before) (fd_Grants data)\<rparr>"
    by (simp add: reconcileLifecycle_def loop spec(1))
  have core: "coreData opts t data'" by (rule coreData_logged[OF assms spec(3,2)])
  note fields = logged_fields[OF spec(3)]
  show "coreData opts t (fst (reconcileLifecycle opts ck data before))"
    unfolding eq using fields core
    by (intro coreData_grants) (auto intro: list_all2_map_follows simp: coreData_def)
  show "fd_Grants (fst (reconcileLifecycle opts ck data before)) = map (bump before) (fd_Grants data)"
    "fd_Uses (fst (reconcileLifecycle opts ck data before)) = fd_Uses data"
    "fd_DecisionRecords (fst (reconcileLifecycle opts ck data before)) = fd_DecisionRecords data"
    using fields by (simp_all add: eq)
  show "fd_NextEvent data \<le> fd_NextEvent (fst (reconcileLifecycle opts ck data before))"
    using spec(3) by (simp add: eq logged_def)
qed

text \<open>Grants that were there before have a revision; the others get one.\<close>

definition revised :: "Grant gomap \<Rightarrow> Grant list \<Rightarrow> bool" where
  "revised before gs \<longleftrightarrow> (\<forall>g\<in>set gs. map_of before (g_ID g) \<noteq> None \<longrightarrow> 1 \<le> g_Revision g)
     \<and> (\<forall>i p. map_of before i = Some p \<longrightarrow> 1 \<le> g_Revision p)"

lemma lifecycleKinds_new: "lifecycleKinds None g \<noteq> []"
  by (simp add: lifecycleKinds_def)

lemma bump_revision:
  assumes "revised before gs" "g \<in> set gs"
  shows "1 \<le> g_Revision (bump before g)"
proof (cases "map_of before (g_ID g)")
  case None
  then show ?thesis by (simp add: bump_def lifecycleKinds_new)
next
  case (Some p)
  then have "1 \<le> g_Revision p" "1 \<le> g_Revision g" using assms by (auto simp: revised_def)
  then show ?thesis by (simp add: bump_def Some)
qed

lemma reconcileLifecycle_inv:
  assumes "coreData opts t data" "revised before (fd_Grants data)"
  shows "storeInv opts t (fst (reconcileLifecycle opts ck data before))"
  using reconcileLifecycle_core(1,2)[OF assms(1), of ck before] bump_revision[OF assms(2)] by (auto simp: storeInv_def)

lemma reconcileLifecycle_evolves:
  assumes "coreData opts t data"
  shows "evolves (fd_Grants data) (fd_Grants (fst (reconcileLifecycle opts ck data before)))"
  unfolding reconcileLifecycle_core(2)[OF assms]
  by (intro evolves_list_all2 list_all2_map_follows) simp

end
