(* ===== verification/GrantRequests.thy ===== *)
theory GrantRequests
  imports GrantLifecycle
begin

text \<open>
  Creating and closing grants: \<^verbatim>\<open>Request\<close>, \<^verbatim>\<open>RequestWithPlan\<close> and \<^verbatim>\<open>Revoke\<close> of
  \<^verbatim>\<open>authorization/grants/grants.go\<close>, the idempotency comparison of \<^verbatim>\<open>lifecycle_helpers.go\<close> and the
  client actions of \<^verbatim>\<open>client_actions.go\<close>. \<^verbatim>\<open>NewID\<close> is an argument: the identifier it returns, or none when the random
  source fails.
\<close>

section \<open>Requests\<close>

record GrantRequest =
  rq_Client :: string
  rq_ClientRequestID :: string
  rq_Operation :: string
  rq_Target :: Target
  rq_Attrs :: "string list gomap"
  rq_Metadata :: "string gomap"
  rq_Reason :: string
  rq_Duration :: duration
  rq_PendingTimeout :: duration
  rq_MaxUses :: Limit
  rq_MaxUsesSpecified :: bool
  rq_MaxUsesDefaulted :: bool

definition defaultMaxUses :: Limit where "defaultMaxUses = SingleUse"
definition maxMaxUses :: Limit where "maxMaxUses = MaxFiniteUses"

definition normalizeRequestUseLimit :: "GrantRequest \<Rightarrow> grantError + GrantRequest" where
  "normalizeRequestUseLimit req0 =
     (let req1 = (if \<not> rq_MaxUsesSpecified req0 \<and> IsUnlimited (rq_MaxUses req0)
                  then req0\<lparr>rq_MaxUses := defaultMaxUses, rq_MaxUsesDefaulted := True\<rparr> else req0);
          req = req1\<lparr>rq_MaxUsesSpecified := True\<rparr>
      in if rq_MaxUses req < 0 then Inl ErrMaxUsesNegative
         else if rq_MaxUses req > maxMaxUses then Inl ErrMaxUsesExceeds
         else Inr req)"

definition normalizeRequestBounds :: "Options \<Rightarrow> GrantRequest \<Rightarrow> grantError + GrantRequest" where
  "normalizeRequestBounds opts req0 =
     (let req1 = (if rq_Duration req0 \<le> 0 then req0\<lparr>rq_Duration := o_DefaultDuration opts\<rparr> else req0)
      in if rq_Duration req1 > o_MaxDuration opts then Inl ErrDurationExceeds
         else normalizeRequestUseLimit
                (if rq_PendingTimeout req1 \<le> 0 then req1\<lparr>rq_PendingTimeout := o_PendingTimeout opts\<rparr> else req1))"

definition normalizeRequestValues :: "GrantRequest \<Rightarrow> grantError + GrantRequest" where
  "normalizeRequestValues req =
     guardR (failIf (rq_Client req = [] \<or> rq_Operation req = [] \<or> target_Kind (rq_Target req) = []) ErrRequired)
      (guardR (failIf (rq_Reason req = []) ErrReasonRequired)
       (guardR (validateValueMap ''target field'' (target_Fields (rq_Target req)))
        (guardR (validateValueMap ''attr'' (rq_Attrs req))
         (let metadata = normalizeRequestMetadata (rq_Metadata req)
          in guardR (validateMetadata metadata)
               (Inr (req\<lparr>rq_Metadata := metadata,
                         rq_Target := (rq_Target req)\<lparr>target_Fields := CanonicalStringSliceMap (target_Fields (rq_Target req))\<rparr>,
                         rq_Attrs := CanonicalStringSliceMap (rq_Attrs req)\<rparr>))))))"

definition normalizeGrantRequest :: "Options \<Rightarrow> GrantRequest \<Rightarrow> grantError + GrantRequest" where
  "normalizeGrantRequest opts req = bindR (normalizeRequestValues req) (normalizeRequestBounds opts)"

definition newGrant :: "string \<Rightarrow> gotime \<Rightarrow> GrantRequest \<Rightarrow> Grant" where
  "newGrant i now req =
     zeroGrant\<lparr>g_ID := i, g_Client := rq_Client req, g_ClientRequestID := rq_ClientRequestID req,
       g_Operation := rq_Operation req, g_Target := rq_Target req, g_Attrs := rq_Attrs req,
       g_Metadata := rq_Metadata req, g_Reason := rq_Reason req, g_Status := StatusPending,
       g_CreatedAt := now, g_PendingExpiresAt := now + rq_PendingTimeout req, g_Duration := rq_Duration req,
       g_RequestedDuration := rq_Duration req, g_PendingTimeout := rq_PendingTimeout req, g_MaxUses := rq_MaxUses req,
       g_RequestedMaxUses := rq_MaxUses req, g_RequestedMaxUsesDefaulted := rq_MaxUsesDefaulted req\<rparr>"

section \<open>Idempotency\<close>

definition findIdempotent :: "Grant list \<Rightarrow> GrantRequest \<Rightarrow> Grant option" where
  "findIdempotent grants req =
     (if rq_ClientRequestID req = [] then None
      else find (\<lambda>g. g_Client g = rq_Client req \<and> g_ClientRequestID g = rq_ClientRequestID req
                      \<and> g_Status g \<noteq> StatusCanceled) grants)"

definition sameRequestBounds :: "Grant \<Rightarrow> GrantRequest \<Rightarrow> bool" where
  "sameRequestBounds grant req =
     (g_MaxUses grant = rq_MaxUses req \<and> g_RequestedMaxUsesDefaulted grant = rq_MaxUsesDefaulted req
      \<and> g_Duration grant = rq_Duration req \<and> g_PendingTimeout grant = rq_PendingTimeout req)"

definition targetEqual :: "Target \<Rightarrow> Target \<Rightarrow> bool" where
  "targetEqual left right =
     (target_Kind left = target_Kind right \<and> StringSliceMapsEqual (target_Fields left) (target_Fields right))"

definition sameGrantRequest :: "Grant \<Rightarrow> GrantRequest \<Rightarrow> bool" where
  "sameGrantRequest grant req =
     (g_Operation grant = rq_Operation req \<and> targetEqual (g_Target grant) (rq_Target req)
      \<and> StringSliceMapsEqual (g_Attrs grant) (rq_Attrs req) \<and> stringMapsEqual (g_Metadata grant) (rq_Metadata req)
      \<and> g_Reason grant = rq_Reason req \<and> sameRequestBounds grant req)"

section \<open>Request\<close>

definition pendingCount :: "(Grant \<Rightarrow> bool) \<Rightarrow> Grant list \<Rightarrow> int" where
  "pendingCount p values = int (length (filter (\<lambda>g. g_Status g = StatusPending \<and> p g) values))"

definition pendingCapacityAvailable :: "Options \<Rightarrow> Grant list \<Rightarrow> string \<Rightarrow> bool" where
  "pendingCapacityAvailable opts values client =
     (pendingCount (\<lambda>g. g_Client g = client) values < o_MaxPendingPerClient opts
      \<and> pendingCount (\<lambda>_. True) values < o_MaxPendingGlobal opts)"

text \<open>The mutation of \<^verbatim>\<open>request\<close>: the grant and whether it was created.\<close>

definition requestMutation ::
  "Options \<Rightarrow> Clock \<Rightarrow> string option \<Rightarrow> GrantRequest \<Rightarrow> (Grant \<times> bool) mutation" where
  "requestMutation opts ck newID req data0 =
     (let (data, _) = expireDue (ck_again ck) data0
      in case findIdempotent (fd_Grants data) req of
           Some existing \<Rightarrow>
             if \<not> sameGrantRequest existing req then (data, Inl ErrIdempotencyConflict) else (data, Inr (existing, False))
         | None \<Rightarrow>
             if \<not> pendingCapacityAvailable opts (fd_Grants data) (rq_Client req) then (data, Inl ErrCapacity)
             else (case newID of
                     None \<Rightarrow> (data, Inl ErrNewID)
                   | Some i \<Rightarrow>
                       (let grant = newGrant i (ck_mutate ck) req
                        in (data\<lparr>fd_Grants := fd_Grants data @ [grant]\<rparr>, Inr (grant, True)))))"

text \<open>\<^verbatim>\<open>request\<close>: the update, then \<^verbatim>\<open>Get\<close> of the grant with its own readings of the clock.\<close>

definition request ::
  "Options \<Rightarrow> Clock \<Rightarrow> Clock \<Rightarrow> bool \<Rightarrow> bool \<Rightarrow> string option \<Rightarrow> GrantRequest \<Rightarrow> fileData
   \<Rightarrow> fileData \<times> (grantError + Grant \<times> bool)" where
  "request opts ck ckGet saves savesGet newID req0 stored =
     (case normalizeGrantRequest opts req0 of
        Inl e \<Rightarrow> (stored, Inl e)
      | Inr req \<Rightarrow>
          (case updateWithPlan opts ck saves (requestMutation opts ck newID req) stored of
             (stored1, Inl e) \<Rightarrow> (stored1, Inl e)
           | (stored1, Inr (grant, created)) \<Rightarrow>
               if g_ID grant = [] then (stored1, Inr (grant, created))
               else (case Get opts ckGet savesGet (g_ID grant) stored1 of
                       (stored2, Inl e) \<Rightarrow> (stored2, Inl e)
                     | (stored2, Inr current) \<Rightarrow> (stored2, Inr (current, created)))))"

record ImmutablePlan =
  plan_Digest :: string
  plan_SchemaName :: string
  plan_Canonical :: string
  plan_CreatedAt :: gotime

definition validateImmutableRequestPlan :: "string gomap \<Rightarrow> ImmutablePlan \<Rightarrow> grantError option" where
  "validateImmutableRequestPlan metadata plan =
     (case metadataPlanDigest metadata of
        Inl _ \<Rightarrow> Some ErrPlanInvalid
      | Inr digest \<Rightarrow> failIf (digest = [] \<or> digest \<noteq> plan_Digest plan \<or> plan_CreatedAt plan = 0) ErrPlanInvalid)"

text \<open>\<^verbatim>\<open>RequestWithPlan\<close> on a store that has (\<open>sqlite\<close>) or lacks a database; the plan commits with the save.\<close>

definition RequestWithPlan ::
  "Options \<Rightarrow> Clock \<Rightarrow> Clock \<Rightarrow> bool \<Rightarrow> bool \<Rightarrow> bool \<Rightarrow> string option \<Rightarrow> GrantRequest \<Rightarrow> ImmutablePlan \<Rightarrow> fileData
   \<Rightarrow> fileData \<times> (grantError + Grant \<times> bool)" where
  "RequestWithPlan opts ck ckGet saves savesGet sqlite newID req plan stored =
     (if \<not> sqlite then (stored, Inl ErrSQLiteRequired)
      else (case validateImmutableRequestPlan (rq_Metadata req) plan of
              Some e \<Rightarrow> (stored, Inl e)
            | None \<Rightarrow> request opts ck ckGet saves savesGet newID req stored))"

section \<open>Revoke and the client actions\<close>

definition revokeMutation :: "Clock \<Rightarrow> string \<Rightarrow> string \<Rightarrow> Grant mutation" where
  "revokeMutation ck i approver data =
     (case findGrant (fd_Grants data) i of
        Inl e \<Rightarrow> (data, Inl e)
      | Inr (index, grant) \<Rightarrow>
          if g_Status grant \<noteq> StatusActive then (data, Inl ErrNotActive)
          else (let grant' = grant\<lparr>g_Status := StatusRevoked, g_DecidedAt := ck_mutate ck, g_DecidedBy := approver\<rparr>
                in (data\<lparr>fd_Grants := (fd_Grants data)[index := grant']\<rparr>, Inr grant')))"

definition Revoke ::
  "Options \<Rightarrow> Clock \<Rightarrow> Clock \<Rightarrow> bool \<Rightarrow> bool \<Rightarrow> string \<Rightarrow> string \<Rightarrow> fileData \<Rightarrow> fileData \<times> (grantError + Grant)" where
  "Revoke opts ck ckGet saves savesGet i approver stored =
     (case updateWithPlan opts ck saves (revokeMutation ck i approver) stored of
        (stored1, Inl e) \<Rightarrow> (stored1, Inl e)
      | (stored1, Inr grant) \<Rightarrow>
          if g_ID grant = [] then (stored1, Inr grant) else Get opts ckGet savesGet (g_ID grant) stored1)"

definition closeMutation :: "Clock \<Rightarrow> string \<Rightarrow> string \<Rightarrow> Status \<Rightarrow> Status \<Rightarrow> Grant mutation" where
  "closeMutation ck i client required next data =
     (case findGrant (fd_Grants data) i of
        Inl _ \<Rightarrow> (data, Inl ErrNotFound)
      | Inr (index, grant) \<Rightarrow>
          if g_Client grant \<noteq> client then (data, Inl ErrNotFound)
          else if g_Status grant \<noteq> required then
            (data, Inl (if required = StatusPending then ErrNotPending else ErrNotActive))
          else (let grant' = grant\<lparr>g_Status := next, g_DecidedAt := ck_mutate ck, g_DecidedBy := client\<rparr>
                in (data\<lparr>fd_Grants := (fd_Grants data)[index := grant']\<rparr>, Inr grant')))"

definition closeForClient ::
  "Options \<Rightarrow> Clock \<Rightarrow> bool \<Rightarrow> string \<Rightarrow> string \<Rightarrow> Status \<Rightarrow> Status \<Rightarrow> fileData \<Rightarrow> fileData \<times> (grantError + Grant)" where
  "closeForClient opts ck saves i client required next stored =
     updateWithPlan opts ck saves (closeMutation ck i client required next) stored"

definition CancelForClient ::
  "Options \<Rightarrow> Clock \<Rightarrow> bool \<Rightarrow> string \<Rightarrow> string \<Rightarrow> fileData \<Rightarrow> fileData \<times> (grantError + Grant)" where
  "CancelForClient opts ck saves i client stored =
     closeForClient opts ck saves i client StatusPending StatusCanceled stored"

definition RevokeForClient ::
  "Options \<Rightarrow> Clock \<Rightarrow> bool \<Rightarrow> string \<Rightarrow> string \<Rightarrow> fileData \<Rightarrow> fileData \<times> (grantError + Grant)" where
  "RevokeForClient opts ck saves i client stored =
     closeForClient opts ck saves i client StatusActive StatusRevoked stored"

end
