(* ===== verification/GrantMutations.thy ===== *)
theory GrantMutations
  imports GrantPrepare GrantRequests
begin

text \<open>
  The contract between the update path of the store and the mutations it runs. \<open>store_mutation\<close> is what
  \<^verbatim>\<open>updateWithPlan\<close> needs of a mutation, \<open>lifecycle_preparation\<close> what the reading operations need of their preparation;
  each is interpreted on the mutations and preparations of the code. The client lemmas, that an update and a
  refresh keep the invariant of the store, are proved once.
\<close>

section \<open>What an operation may do\<close>

definition keepsRevisions :: "Grant list \<Rightarrow> Grant list \<Rightarrow> bool" where
  "keepsRevisions old new \<longleftrightarrow> (\<forall>k<length old. g_Revision (new ! k) = g_Revision (old ! k))"

definition mutated :: "Options \<Rightarrow> gotime \<Rightarrow> fileData \<Rightarrow> fileData \<Rightarrow> bool" where
  "mutated opts t data data' \<longleftrightarrow>
     coreData opts t data' \<and> evolves (fd_Grants data) (fd_Grants data') \<and> keepsRevisions (fd_Grants data) (fd_Grants data')"

lemma mutated_refl: "coreData opts t data \<Longrightarrow> t \<le> t' \<Longrightarrow> mutated opts t' data data"
  by (auto simp: mutated_def keepsRevisions_def intro: coreData_later)

lemma mutated_trans: "mutated opts t a b \<Longrightarrow> mutated opts t' b c \<Longrightarrow> mutated opts t' a c"
  by (auto simp: mutated_def keepsRevisions_def evolves_def intro: follows_trans)

lemma mutated_follow:
  assumes "coreData opts t data'" "list_all2 follows (fd_Grants data) (fd_Grants data')"
    and "map g_Revision (fd_Grants data') = map g_Revision (fd_Grants data)"
  shows "mutated opts t data data'"
proof -
  have "keepsRevisions (fd_Grants data) (fd_Grants data')"
    unfolding keepsRevisions_def using assms(2,3) by (metis list_all2_lengthD nth_map)
  then show ?thesis using assms evolves_list_all2 by (simp add: mutated_def)
qed

lemma mutated_grant:
  assumes "coreData opts t data" "t \<le> t'" "k < length (fd_Grants data)" "follows (fd_Grants data ! k) g"
    and "coreGrant (fd_Uses data) g" "g_Revision g = g_Revision (fd_Grants data ! k)"
  shows "mutated opts t' data (data\<lparr>fd_Grants := (fd_Grants data)[k := g]\<rparr>)"
proof (rule mutated_follow)
  show "coreData opts t' (data\<lparr>fd_Grants := (fd_Grants data)[k := g]\<rparr>)"
    using coreData_later[OF coreData_grant[OF assms(1,3-5)] assms(2)] .
  show "list_all2 follows (fd_Grants data) (fd_Grants (data\<lparr>fd_Grants := (fd_Grants data)[k := g]\<rparr>))"
    using list_all2_update[OF assms(3,4)] by simp
  show "map g_Revision (fd_Grants (data\<lparr>fd_Grants := (fd_Grants data)[k := g]\<rparr>)) = map g_Revision (fd_Grants data)"
    using assms(3,6) by (simp add: map_update) (metis list_update_id nth_map)
qed

lemma expireDue_mutated:
  assumes "coreData opts t data" "t \<le> t'"
  shows "mutated opts t' data (fst (expireDue now data))"
  using expireDue_core[OF assms(1), of now] coreData_later[OF _ assms(2)] by (intro mutated_follow) auto

lemma prepareLifecycle_mutated:
  assumes "coreData opts t data" "clockIn t t' ck"
  shows "mutated opts t data (fst (prepareLifecycle opts ck data))"
  using prepareLifecycle_core[OF assms] by (intro mutated_follow) auto

text \<open>After any such change, every grant that existed has a revision.\<close>

lemma evolves_ids: "evolves old new \<Longrightarrow> k < length old \<Longrightarrow> g_ID (new ! k) = g_ID (old ! k)"
  by (simp add: evolves_def follows_subject)

lemma revised_after:
  assumes "storeInv opts t data" "mutated opts t' data data'"
  shows "revised (grantSnapshots (fd_Grants data)) (fd_Grants data')"
proof -
  have d: "distinct (map g_ID (fd_Grants data))" and r: "\<forall>g\<in>set (fd_Grants data). 1 \<le> g_Revision g"
    using assms(1) by (simp_all add: storeInv_def coreData_def)
  have d': "distinct (map g_ID (fd_Grants data'))" and ev: "evolves (fd_Grants data) (fd_Grants data')"
    using assms(2) by (simp_all add: mutated_def coreData_def)
  have "1 \<le> g_Revision g" if g: "g \<in> set (fd_Grants data')" and known: "map_of (grantSnapshots (fd_Grants data)) (g_ID g) \<noteq> None" for g
  proof -
    obtain p where p: "p \<in> set (fd_Grants data)" "g_ID p = g_ID g" using known snapshot_unique[OF d] by auto
    then obtain k where k: "k < length (fd_Grants data)" "fd_Grants data ! k = p" by (auto simp: in_set_conv_nth)
    obtain j where j: "j < length (fd_Grants data')" "fd_Grants data' ! j = g" using g by (auto simp: in_set_conv_nth)
    have "k < length (fd_Grants data')" using k(1) ev by (simp add: evolves_def)
    moreover have "map g_ID (fd_Grants data') ! k = map g_ID (fd_Grants data') ! j"
      using evolves_ids[OF ev k(1)] k p j calculation by simp
    ultimately have "j = k" using d' j(1) by (metis length_map nth_eq_iff_index_eq)
    then show ?thesis using assms(2) k j p(1) r by (auto simp: mutated_def keepsRevisions_def)
  qed
  moreover have "1 \<le> g_Revision p" if "map_of (grantSnapshots (fd_Grants data)) i = Some p" for i p
    using that snapshot_unique[OF d] r by auto
  ultimately show ?thesis by (auto simp: revised_def)
qed

lemma mutated_reconciled:
  assumes "storeInv opts t data" "mutated opts t' data data'"
  shows "storeInv opts t' (fst (reconcileLifecycle opts ck data' (grantSnapshots (fd_Grants data))))"
    and "evolves (fd_Grants data) (fd_Grants (fst (reconcileLifecycle opts ck data' (grantSnapshots (fd_Grants data)))))"
proof -
  have core: "coreData opts t' data'" "evolves (fd_Grants data) (fd_Grants data')" using assms(2) by (simp_all add: mutated_def)
  show "storeInv opts t' (fst (reconcileLifecycle opts ck data' (grantSnapshots (fd_Grants data))))"
    by (rule reconcileLifecycle_inv[OF core(1) revised_after[OF assms]])
  show "evolves (fd_Grants data) (fd_Grants (fst (reconcileLifecycle opts ck data' (grantSnapshots (fd_Grants data)))))"
    by (rule evolves_trans[OF core(2) reconcileLifecycle_evolves[OF core(1)]])
qed

text \<open>What a complete operation does to the durable state.\<close>

definition storeMoves :: "Options \<Rightarrow> gotime \<Rightarrow> fileData \<Rightarrow> fileData \<Rightarrow> bool" where
  "storeMoves opts t data data' \<longleftrightarrow> storeInv opts t data' \<and> evolves (fd_Grants data) (fd_Grants data')"

lemma storeInv_later: "storeInv opts t data \<Longrightarrow> t \<le> t' \<Longrightarrow> storeInv opts t' data"
  by (auto simp: storeInv_def intro: coreData_later)

lemma storeMoves_refl: "storeInv opts t data \<Longrightarrow> t \<le> t' \<Longrightarrow> storeMoves opts t' data data"
  by (auto simp: storeMoves_def intro: storeInv_later)

lemma storeMoves_trans: "storeMoves opts t a b \<Longrightarrow> storeMoves opts t' b c \<Longrightarrow> storeMoves opts t' a c"
  by (auto simp: storeMoves_def intro: evolves_trans)

lemma clockIn_le: "clockIn t t' ck \<Longrightarrow> t \<le> t'"
  by (simp add: clockIn_def)

section \<open>Mutations\<close>

locale store_mutation =
  fixes mutate :: "Options \<Rightarrow> Clock \<Rightarrow> 'arg \<Rightarrow> 'a mutation"
    and pre :: "Options \<Rightarrow> 'arg \<Rightarrow> string list \<Rightarrow> bool"
  assumes mutate_keeps:
    "coreData opts t data \<Longrightarrow> clockIn t t' ck \<Longrightarrow> pre opts arg (map g_ID (fd_Grants data))
     \<Longrightarrow> mutated opts t' data (fst (mutate opts ck arg data))"
begin

lemma update_keeps:
  assumes "storeInv opts t data" "clockIn t t' ck" "pre opts arg (map g_ID (fd_Grants data))"
  shows "storeMoves opts t' data (fst (updateWithPlan opts ck saves (mutate opts ck arg) data))"
proof -
  let ?before = "grantSnapshots (fd_Grants data)"
  let ?d1 = "fst (prepareLifecycle opts ck data)"
  let ?d2 = "fst (mutate opts ck arg ?d1)"
  let ?d3 = "fst (reconcileLifecycle opts ck ?d2 ?before)"
  have core: "coreData opts t data" using assms(1) by (simp add: storeInv_def)
  have prep: "mutated opts t data ?d1" by (rule prepareLifecycle_mutated[OF core assms(2)])
  have ids: "map g_ID (fd_Grants ?d1) = map g_ID (fd_Grants data)"
    using follows_ids(1)[OF prepareLifecycle_core(2)[OF core assms(2)]] .
  have mut: "mutated opts t' ?d1 ?d2"
    using mutate_keeps[of opts t ?d1 t' ck arg] prep assms(2,3) ids by (simp add: mutated_def)
  have moves: "storeMoves opts t' data ?d3"
    using mutated_reconciled[OF assms(1) mutated_trans[OF prep mut]] by (simp add: storeMoves_def)
  have "fst (updateWithPlan opts ck saves (mutate opts ck arg) data) \<in> {data, ?d3}"
    unfolding updateWithPlan_def storeInv_load[OF assms(1)] by (simp add: Let_def split: prod.splits sum.splits)
  then show ?thesis using moves storeMoves_refl[OF assms(1) clockIn_le[OF assms(2)]] by auto
qed

end

section \<open>Preparations\<close>

locale lifecycle_preparation =
  fixes prepare :: "Options \<Rightarrow> Clock \<Rightarrow> fileData \<Rightarrow> fileData \<times> bool"
  assumes prepare_keeps:
    "coreData opts t data \<Longrightarrow> clockIn t t' ck \<Longrightarrow> mutated opts t' data (fst (prepare opts ck data))"
begin

lemma refresh_keeps:
  assumes "storeInv opts t data" "clockIn t t' ck"
  shows "storeMoves opts t' data (fst (refreshed opts ck (prepare opts ck) data))"
proof -
  have "mutated opts t' data (fst (prepare opts ck data))"
    using prepare_keeps[OF _ assms(2)] assms(1) by (simp add: storeInv_def)
  from mutated_reconciled[OF assms(1) this, of ck] show ?thesis
    by (simp add: storeMoves_def refreshed_def Let_def case_prod_beta)
qed

end

interpretation expiry: lifecycle_preparation "\<lambda>opts ck. expireDue (ck_expire ck)"
  by unfold_locales (rule expireDue_mutated, auto simp: clockIn_def)

lemma mutated_later: "mutated opts t a b \<Longrightarrow> t \<le> t' \<Longrightarrow> mutated opts t' a b"
  by (auto simp: mutated_def intro: coreData_later)

interpretation preparation: lifecycle_preparation prepareLifecycle
  by unfold_locales (auto intro: mutated_later prepareLifecycle_mutated simp: clockIn_le)

section \<open>Closing grants\<close>

text \<open>The change that \<^verbatim>\<open>Revoke\<close> and the client actions write.\<close>

definition closedGrant :: "Grant \<Rightarrow> Status \<Rightarrow> gotime \<Rightarrow> string \<Rightarrow> Grant" where
  "closedGrant g status now by = g\<lparr>g_Status := status, g_DecidedAt := now, g_DecidedBy := by\<rparr>"

lemma closed_core:
  assumes "coreGrant uses g" "(g_Status g, status) \<in> {(StatusPending, StatusCanceled), (StatusActive, StatusRevoked)}"
  shows "coreGrant uses (closedGrant g status now who)" "follows g (closedGrant g status now who)"
proof -
  have same: "subject (closedGrant g status now who) = subject g" "bounds (closedGrant g status now who) = bounds g"
    "usage (closedGrant g status now who) = usage g" "g_UsedCount (closedGrant g status now who) = g_UsedCount g"
    by (simp_all add: closedGrant_def subject_def bounds_def usage_def)
  have "grantInv (closedGrant g status now who)"
    using coreGrant_facts(5)[OF assms(1)] assms(2) by (auto simp: closedGrant_def grantInv_def unused_def)
  moreover have "validGrantFailure (closedGrant g status now who)"
    using coreGrant_facts(6)[OF assms(1)] assms(2) by (auto simp: closedGrant_def validGrantFailure_def)
  ultimately show "coreGrant uses (closedGrant g status now who)"
    using coreGrant_facts(1,2)[OF assms(1)] assms(2)
    by (intro coreGrant_moved[OF assms(1) same(1-3)]) (auto simp: closedGrant_def validStoredStatus_def)
  show "follows g (closedGrant g status now who)"
    using assms(2) by (intro follows_step same) (auto simp: closedGrant_def statusStep_from)
qed

lemma closed_mutated:
  assumes "coreData opts t data" "t \<le> t'" "findGrant (fd_Grants data) i = Inr (k, g)"
    and "(g_Status g, status) \<in> {(StatusPending, StatusCanceled), (StatusActive, StatusRevoked)}"
  shows "mutated opts t' data (data\<lparr>fd_Grants := (fd_Grants data)[k := closedGrant g status now who]\<rparr>)"
proof -
  have k: "k < length (fd_Grants data)" "fd_Grants data ! k = g" "g \<in> set (fd_Grants data)"
    using findGrant_Inr[OF assms(3)] by auto
  have "coreGrant (fd_Uses data) g" using assms(1) k(3) by (simp add: coreData_def)
  note core = closed_core[OF this assms(4), of now who]
  show ?thesis
    using k core by (intro mutated_grant[OF assms(1,2)]) (simp_all, simp add: closedGrant_def)
qed

interpretation revocation: store_mutation "\<lambda>opts ck (i, approver). revokeMutation ck i approver" "\<lambda>_ _ _. True"
proof (unfold_locales, clarify, goal_cases)
  case (1 opts t data t' ck i approver)
  then show ?case
    using closed_mutated[OF 1(1) clockIn_le[OF 1(2)]] mutated_refl[OF 1(1) clockIn_le[OF 1(2)]]
    by (auto simp: revokeMutation_def closedGrant_def Let_def split: sum.splits prod.splits)
qed

definition closing :: "Status \<Rightarrow> Status \<Rightarrow> bool" where
  "closing required next \<longleftrightarrow> (required, next) \<in> {(StatusPending, StatusCanceled), (StatusActive, StatusRevoked)}"

interpretation client_close: store_mutation
  "\<lambda>opts ck (i, client, required, next). closeMutation ck i client required next"
  "\<lambda>_ (i, client, required, next) _. closing required next"
proof (unfold_locales, clarify, goal_cases)
  case (1 opts t data t' ck i client required "next")
  then show ?case
    using closed_mutated[OF 1(1) clockIn_le[OF 1(2)]] mutated_refl[OF 1(1) clockIn_le[OF 1(2)]]
    by (auto simp: closing_def closeMutation_def closedGrant_def Let_def split: sum.splits prod.splits)
qed

section \<open>Execution events\<close>

text \<open>The mutation of \<^verbatim>\<open>RecordExecution\<close>.\<close>

definition executionMutation :: "Options \<Rightarrow> Clock \<Rightarrow> string \<Rightarrow> EventKind \<Rightarrow> Event mutation" where
  "executionMutation opts ck i kind data =
     (case findGrant (fd_Grants data) i of
        Inl e \<Rightarrow> (data, Inl e)
      | Inr (_, grant) \<Rightarrow>
          (let data' = appendLifecycleEvent opts ck kind grant grant data
           in (data', Inr (publicEvent (last (fd_Events data'))))))"

lemma RecordExecution_update:
  "RecordExecution opts ck saves i kind stored =
     (if kind \<noteq> EventExecutionSucceeded \<and> kind \<noteq> EventExecutionFailed \<and> kind \<noteq> EventExecutionAmbiguous
      then (stored, Inl ErrExecutionKind)
      else updateWithPlan opts ck saves (executionMutation opts ck i kind) stored)"
  unfolding RecordExecution_def executionMutation_def ..

interpretation execution: store_mutation "\<lambda>opts ck (i, kind). executionMutation opts ck i kind" "\<lambda>_ _ _. True"
proof (unfold_locales, clarify, goal_cases)
  case (1 opts t data t' ck i kind)
  have "mutated opts t' data (appendLifecycleEvent opts ck kind g g data)" for g
  proof -
    note log = appendLifecycleEvent_log[OF coreData_log[OF 1(1)], of ck kind g g]
    show ?thesis
      using coreData_later[OF coreData_logged[OF 1(1) log(2,1)] clockIn_le[OF 1(2)]] logged_fields[OF log(2)]
      by (simp add: mutated_def keepsRevisions_def)
  qed
  then show ?case
    using mutated_refl[OF 1(1) clockIn_le[OF 1(2)]]
    by (auto simp: executionMutation_def Let_def split: sum.splits prod.splits)
qed

section \<open>Requests\<close>

text \<open>A request as \<^verbatim>\<open>normalizeRequest\<close> leaves it.\<close>

definition normalized :: "GrantRequest \<Rightarrow> bool" where
  "normalized req \<longleftrightarrow>
     rq_Client req \<noteq> [] \<and> rq_Operation req \<noteq> [] \<and> target_Kind (rq_Target req) \<noteq> [] \<and> rq_Reason req \<noteq> []
     \<and> validateValueMap ''target field'' (target_Fields (rq_Target req)) = None
     \<and> validateValueMap ''attr'' (rq_Attrs req) = None \<and> validateMetadata (rq_Metadata req) = None
     \<and> 0 < rq_Duration req \<and> 0 < rq_PendingTimeout req \<and> 0 \<le> rq_MaxUses req"

lemma CanonicalStringSlice_set: "set (CanonicalStringSlice vs) = set vs"
  by (simp add: CanonicalStringSlice_def)

lemma CanonicalStringSlice_empty: "CanonicalStringSlice vs = [] \<longleftrightarrow> vs = []"
  using CanonicalStringSlice_set[of vs] by (metis set_empty)

lemma validateValueMap_canonical:
  "validateValueMap kind (CanonicalStringSliceMap m) = None \<longleftrightarrow> validateValueMap kind m = None"
  by (simp add: validateValueMap_def CanonicalStringSliceMap_def CanonicalStringSlice_set CanonicalStringSlice_empty
      case_prod_beta)

lemma normalizeRequestValues_Inr:
  assumes "normalizeRequestValues req0 = Inr req"
  shows "rq_Client req \<noteq> []" "rq_Operation req \<noteq> []" "target_Kind (rq_Target req) \<noteq> []" "rq_Reason req \<noteq> []"
    "validateValueMap ''target field'' (target_Fields (rq_Target req)) = None"
    "validateValueMap ''attr'' (rq_Attrs req) = None" "validateMetadata (rq_Metadata req) = None"
  using assms by (auto simp: normalizeRequestValues_def Let_def validateValueMap_canonical)

lemma normalizeRequestBounds_Inr:
  assumes "normalizeRequestBounds opts req0 = Inr req" "validOptions opts"
  shows "0 < rq_Duration req" "0 < rq_PendingTimeout req" "0 \<le> rq_MaxUses req"
    "rq_Duration req \<le> o_MaxDuration opts" "rq_MaxUses req \<le> maxMaxUses"
    "rq_Client req = rq_Client req0" "rq_Operation req = rq_Operation req0" "rq_Target req = rq_Target req0"
    "rq_Reason req = rq_Reason req0" "rq_Attrs req = rq_Attrs req0" "rq_Metadata req = rq_Metadata req0"
  using assms
  by (auto simp: normalizeRequestBounds_def normalizeRequestUseLimit_def validOptions_def Let_def split: if_splits)

lemma normalizeGrantRequest_Inr:
  assumes "normalizeGrantRequest opts req0 = Inr req" "validOptions opts"
  shows "normalized req"
proof -
  obtain mid where mid: "normalizeRequestValues req0 = Inr mid" "normalizeRequestBounds opts mid = Inr req"
    using assms(1) by (auto simp: normalizeGrantRequest_def)
  show ?thesis
    unfolding normalized_def
    using normalizeRequestValues_Inr[OF mid(1)] normalizeRequestBounds_Inr[OF mid(2) assms(2)] by simp
qed

text \<open>\<^verbatim>\<open>NewID\<close> gives 96 random bits; that they name no existing grant is an assumption.\<close>

definition freshID :: "string option \<Rightarrow> string list \<Rightarrow> bool" where
  "freshID newID ids \<longleftrightarrow> (case newID of None \<Rightarrow> True | Some i \<Rightarrow> i \<noteq> [] \<and> i \<notin> set ids)"

lemma newGrant_core:
  assumes "normalized req" "i \<noteq> []" "0 < now" "usesOf i uses = []"
  shows "coreGrant uses (newGrant i now req)"
proof -
  have "grantShape (newGrant i now req)"
    using assms by (simp add: normalized_def grantShape_def newGrant_def zeroGrant_def validGrantIdentity_def
        validStoredStatus_def validGrantFailure_def validateLoadedGrantMaps_def)
  moreover have "aggregated uses (newGrant i now req)"
    using assms(4) by (simp add: aggregated_def aggregate_defs newGrant_def zeroGrant_def)
  moreover have "grantInv (newGrant i now req)"
    using assms(1) by (auto simp: grantInv_def normalized_def newGrant_def zeroGrant_def unused_def limit_within limit_defs)
  ultimately show ?thesis by (simp add: coreGrant_def)
qed

lemma pendingCapacity_append:
  assumes "pendingWithin opts gs" "pendingCapacityAvailable opts gs (g_Client g)"
  shows "pendingWithin opts (gs @ [g])"
  using assms by (auto simp: pendingWithin_def pendingCapacityAvailable_def pendingCount_def)

lemma newGrant_mutated:
  assumes "coreData opts t data" "t \<le> now" "now \<le> t'" "normalized req" "freshID (Some i) (map g_ID (fd_Grants data))"
    and "pendingCapacityAvailable opts (fd_Grants data) (rq_Client req)"
  shows "mutated opts t' data (data\<lparr>fd_Grants := fd_Grants data @ [newGrant i now req]\<rparr>)"
proof -
  have i: "i \<noteq> []" "i \<notin> g_ID ` set (fd_Grants data)" using assms(5) by (auto simp: freshID_def)
  have fresh: "usesOf i (fd_Uses data) = []"
  proof -
    have "u_GrantID u \<noteq> i" if "u \<in> set (fd_Uses data)" for u
      using assms(1) that i(2) by (force simp: coreData_def coreUse_def)
    then show ?thesis by (simp add: usesOf_def filter_empty_conv)
  qed
  have core: "coreGrant (fd_Uses data) (newGrant i now req)"
    using newGrant_core[OF assms(4) i(1) _ fresh] assms(1,2) by (simp add: coreData_def)
  have id: "g_ID (newGrant i now req) = i" "g_Client (newGrant i now req) = rq_Client req" by (simp_all add: newGrant_def)
  have use: "coreUse t' (fd_Grants data @ [newGrant i now req]) u" if "u \<in> set (fd_Uses data)" for u
    using assms(1,2,3) that by (auto simp: coreData_def coreUse_def)
  have "pendingWithin opts (fd_Grants data @ [newGrant i now req])"
    using assms(1,6) by (intro pendingCapacity_append) (simp_all add: coreData_def id)
  then have "coreData opts t' (data\<lparr>fd_Grants := fd_Grants data @ [newGrant i now req]\<rparr>)"
    using assms(1-3) core use i(2) by (simp add: coreData_def id)
  then show ?thesis by (simp add: mutated_def evolves_append keepsRevisions_def nth_append)
qed

interpretation requesting: store_mutation
  "\<lambda>opts ck (newID, req). requestMutation opts ck newID req"
  "\<lambda>_ (newID, req) ids. normalized req \<and> freshID newID ids"
proof (unfold_locales, clarify, goal_cases)
  case (1 opts t data t' ck newID req)
  let ?d = "fst (expireDue (ck_again ck) data)"
  have exp: "mutated opts t data ?d" by (rule expireDue_mutated[OF 1(1) order_refl])
  have core: "coreData opts t ?d" using exp by (simp add: mutated_def)
  have ids: "map g_ID (fd_Grants ?d) = map g_ID (fd_Grants data)"
    by (rule follows_ids(1)[OF expireDue_core(2)[OF 1(1)]])
  have now: "t \<le> ck_mutate ck" "ck_mutate ck \<le> t'" using 1(2) by (simp_all add: clockIn_def)
  have "mutated opts t' ?d (fst (requestMutation opts ck newID req data))"
    using mutated_refl[OF core clockIn_le[OF 1(2)]] newGrant_mutated[OF core now 1(3)] 1(4)
    unfolding requestMutation_def by (auto simp: Let_def case_prod_beta ids split: option.splits)
  then show ?case by (rule mutated_trans[OF exp])
qed

end
