(* ===== verification/GrantUseSteps.thy ===== *)
theory GrantUseSteps
  imports GrantMutations
begin

text \<open>
  Reserving and settling uses keep the invariant of the store: the budget of a grant holds because a reservation is made
  only where the budget allows it (\<open>limit.within_reserve\<close>) and settling moves or frees what was reserved.
\<close>

section \<open>Changing one grant and its use records\<close>

lemma use_mutated:
  assumes "coreData opts t data" "t \<le> t'" "findGrant (fd_Grants data) i = Inr (k, g)"
    and "distinct (map u_RequestID uses)" "\<forall>u\<in>set uses. coreUse t' (fd_Grants data) u"
    and "\<And>j. j \<noteq> i \<Longrightarrow> usesOf j uses = usesOf j (fd_Uses data)"
    and "coreGrant uses h" "follows g h" "g_Revision h = g_Revision g"
  shows "mutated opts t' data (data\<lparr>fd_Uses := uses, fd_Grants := (fd_Grants data)[k := h]\<rparr>)"
proof -
  have k: "k < length (fd_Grants data)" "fd_Grants data ! k = g" "g_ID g = i" using findGrant_Inr[OF assms(3)] by auto
  have d: "distinct (map g_ID (fd_Grants data))" using assms(1) by (simp add: coreData_def)
  have other: "coreGrant uses ((fd_Grants data)[k := h] ! j)" if j: "j < length (fd_Grants data)" for j
  proof (cases "j = k")
    case True
    then show ?thesis using assms(7) j by simp
  next
    case False
    let ?x = "fd_Grants data ! j"
    have "g_ID ?x \<noteq> i" using False j k d by (metis length_map nth_eq_iff_index_eq nth_map)
    then have "aggregated uses ?x = aggregated (fd_Uses data) ?x" by (intro aggregated_cong assms(6))
    moreover have "coreGrant (fd_Uses data) ?x" using assms(1) j by (simp add: coreData_def)
    ultimately show ?thesis using False by (simp add: coreGrant_def)
  qed
  have all: "\<forall>x\<in>set ((fd_Grants data)[k := h]). coreGrant uses x"
    using other by (auto simp: in_set_conv_nth)
  have follow: "list_all2 follows (fd_Grants data) ((fd_Grants data)[k := h])"
    using list_all2_update[of k "fd_Grants data" h] k assms(8) by simp
  show ?thesis
    using coreData_follow[OF assms(1,2) follow all assms(4,5)] follow k assms(9)
    by (intro mutated_follow) (simp_all add: map_update, metis list_update_id nth_map)
qed

text \<open>A grant counted again over changed records, with its revision counters brought along.\<close>

lemma recount_core:
  assumes "coreGrant uses g" "grantShape g0" "subject g0 = subject g" "bounds g0 = bounds g" "g_Status g0 = g_Status g"
    and "g_MaxUses g0 = g_MaxUses g" "g_Duration g0 = g_Duration g" "g_ExpiresAt g0 = g_ExpiresAt g"
    and "g_DecidedAt g0 = g_DecidedAt g"
    and "g_UseRevision g0 = committedUses (g_ID g) uses'" "g_ReservationRevision g0 = useRevisionTotal (g_ID g) uses'"
    and "committedUses (g_ID g) uses \<le> committedUses (g_ID g) uses'"
    and "limit.within (g_MaxUses g) (committedUses (g_ID g) uses') (reservedUses (g_ID g) uses')"
    and "g_Status g \<in> set [StatusActive, StatusExpired, StatusRevoked]"
  shows "coreGrant uses' (aggregateGrantUses g0 uses')" "follows g (aggregateGrantUses g0 uses')"
proof -
  have id: "g_ID g0 = g_ID g" "g_RequestedDuration g0 = g_RequestedDuration g" "g_RequestedMaxUses g0 = g_RequestedMaxUses g"
    using assms(3,4) by (simp_all add: subject_def bounds_def)
  have "grantInv (aggregateGrantUses g0 uses')"
  proof -
    have inv: "g_Duration g \<le> g_RequestedDuration g"
      "IsUnlimited (g_RequestedMaxUses g) \<or> (IsFinite (g_MaxUses g) \<and> g_MaxUses g \<le> g_RequestedMaxUses g)"
      "g_Status g = StatusActive \<longrightarrow> g_ExpiresAt g = g_DecidedAt g + g_Duration g"
      using coreGrant_facts(5)[OF assms(1)] unfolding grantInv_def by blast+
    have status: "g_Status g \<notin> set [StatusPending, StatusDenied, StatusFailed, StatusCanceled]" "g_Status g \<noteq> StatusConsumed"
      using assms(14) by auto
    show ?thesis
      unfolding grantInv_def aggregateGrantUses_fields withUses_simps withUses_more assms(5-9) id
      using inv status assms(13) by simp
  qed
  moreover have "aggregated uses' (aggregateGrantUses g0 uses')"
    using assms(10,11) by (intro aggregated_after) (simp_all add: id)
  moreover have "grantShape (aggregateGrantUses g0 uses')" using assms(2) by (simp add: aggregateGrantUses_fields)
  ultimately show "coreGrant uses' (aggregateGrantUses g0 uses')" by (simp add: coreGrant_def)
  have "g_UsedCount g = committedUses (g_ID g) uses" using assms(1) by (simp add: coreGrant_def aggregated_def)
  then show "follows g (aggregateGrantUses g0 uses')"
    using assms(3,4,5,12) by (simp add: follows_def aggregateGrantUses_fields id)
qed

section \<open>Reserving\<close>

lemma canUse_within:
  assumes "coreGrant uses g" "grantCanUse g now"
  shows "limit.within (g_MaxUses g) (committedUses (g_ID g) uses) (reservedUses (g_ID g) uses + 1)" "g_Status g = StatusActive"
  using assms limit.within_reserve by (auto simp: coreGrant_def aggregated_def grantCanUse_def)

lemma reserve_core:
  assumes "coreGrant uses g" "grantCanUse g now"
    and "committedUses (g_ID g) uses' = committedUses (g_ID g) uses"
    and "reservedUses (g_ID g) uses' = reservedUses (g_ID g) uses + 1"
    and "useRevisionTotal (g_ID g) uses' = useRevisionTotal (g_ID g) uses + 1"
  shows "coreGrant uses' (aggregateGrantUses (g\<lparr>g_ReservationRevision := g_ReservationRevision g + 1\<rparr>) uses')"
    and "follows g (aggregateGrantUses (g\<lparr>g_ReservationRevision := g_ReservationRevision g + 1\<rparr>) uses')"
    and "g_Revision (aggregateGrantUses (g\<lparr>g_ReservationRevision := g_ReservationRevision g + 1\<rparr>) uses') = g_Revision g"
proof -
  have "aggregated uses g" "grantShape g" using assms(1) by (simp_all add: coreGrant_def)
  then show "coreGrant uses' (aggregateGrantUses (g\<lparr>g_ReservationRevision := g_ReservationRevision g + 1\<rparr>) uses')"
    "follows g (aggregateGrantUses (g\<lparr>g_ReservationRevision := g_ReservationRevision g + 1\<rparr>) uses')"
    using canUse_within[OF assms(1,2)] assms(3-5)
    by (intro recount_core[OF assms(1)]; simp add: aggregated_def)+
  show "g_Revision (aggregateGrantUses (g\<lparr>g_ReservationRevision := g_ReservationRevision g + 1\<rparr>) uses') = g_Revision g"
    by (simp add: aggregateGrantUses_fields)
qed

lemma reserveNewUse_mutated:
  assumes "coreData opts t data" "t \<le> now" "now \<le> t'" "validUseIdentity grantID requestID operation"
    and "findUseIndex (fd_Uses data) requestID = None"
  shows "mutated opts t' data (fst (reserveNewUse now grantID requestID operation data))"
proof -
  define u where "u = \<lparr>u_GrantID = grantID, u_RequestID = requestID, u_Operation = operation, u_State = UseReserved,
    u_Revision = 1, u_CreatedAt = now, u_UpdatedAt = now, u_SettledAt = 0\<rparr>"
  let ?uses = "fd_Uses data @ [u]"
  have t: "0 < t" "t \<le> t'" using assms(1-3) by (auto simp: coreData_def)
  show ?thesis
  proof (cases "\<exists>k g. findGrant (fd_Grants data) grantID = Inr (k, g) \<and> g_Operation g = operation \<and> grantCanUse g now")
    case False
    then have "fst (reserveNewUse now grantID requestID operation data) = data"
      by (auto simp: reserveNewUse_def split: sum.splits prod.splits)
    then show ?thesis using mutated_refl[OF assms(1) t(2)] by simp
  next
    case True
    then obtain k g where g: "findGrant (fd_Grants data) grantID = Inr (k, g)" "g_Operation g = operation" "grantCanUse g now" by blast
    have id: "g_ID g = grantID" "g \<in> set (fd_Grants data)" using findGrant_Inr[OF g(1)] by auto
    have core: "coreGrant (fd_Uses data) g" using assms(1) id(2) by (simp add: coreData_def)
    note reserve = reserve_core[OF core g(3), of ?uses]
    have "coreUse t' (fd_Grants data) u"
      using assms(2-4) t id g(2) by (auto simp: coreUse_def u_def validLoadedUseLifecycle_def validUseState_def validUseSettlementTime_def)
    moreover have "coreUse t' (fd_Grants data) v" if "v \<in> set (fd_Uses data)" for v
      using assms(1) that coreUse_later[OF _ t(2)] by (simp add: coreData_def)
    moreover have "distinct (map u_RequestID ?uses)"
      using assms(1,5) by (auto simp: coreData_def u_def findUseIndex_None)
    ultimately have "mutated opts t' data (data\<lparr>fd_Uses := ?uses, fd_Grants := (fd_Grants data)[k :=
        aggregateGrantUses (g\<lparr>g_ReservationRevision := g_ReservationRevision g + 1\<rparr>) ?uses]\<rparr>)"
      using reserve id by (intro use_mutated[OF assms(1) t(2) g(1)])
        (auto simp: u_def aggregate_defs reservedState_def)
    then show ?thesis using g by (simp add: reserveNewUse_def Let_def u_def)
  qed
qed

text \<open>One use record replaced by another of the same grant and request.\<close>

definition sameUse :: "GrantUse \<Rightarrow> GrantUse \<Rightarrow> bool" where
  "sameUse u v \<longleftrightarrow> u_GrantID v = u_GrantID u \<and> u_RequestID v = u_RequestID u \<and> u_Operation v = u_Operation u
     \<and> u_CreatedAt v = u_CreatedAt u \<and> u_Revision v = u_Revision u + 1"

lemma replaceUse_facts:
  assumes "coreData opts t data" "t \<le> t'" "findUseIndex (fd_Uses data) r = Some (m, u)" "sameUse u v"
    and "u_State u \<noteq> UseCommitted" "validUseState (u_State v)" "validUseSettlementTime v" "t \<le> u_UpdatedAt v"
  shows "distinct (map u_RequestID ((fd_Uses data)[m := v]))"
    and "\<forall>w\<in>set ((fd_Uses data)[m := v]). coreUse t' (fd_Grants data) w"
    and "\<And>j. j \<noteq> u_GrantID u \<Longrightarrow> usesOf j ((fd_Uses data)[m := v]) = usesOf j (fd_Uses data)"
    and "useRevisionTotal (u_GrantID u) ((fd_Uses data)[m := v]) = useRevisionTotal (u_GrantID u) (fd_Uses data) + 1"
    and "committedUses (u_GrantID u) ((fd_Uses data)[m := v])
      = committedUses (u_GrantID u) (fd_Uses data) + (if u_State v = UseCommitted then 1 else 0)"
    and "reservedUses (u_GrantID u) ((fd_Uses data)[m := v]) = reservedUses (u_GrantID u) (fd_Uses data)
      - (if reservedState (u_State u) then 1 else 0) + (if reservedState (u_State v) then 1 else 0)"
proof -
  have m: "m < length (fd_Uses data)" "fd_Uses data ! m = u" "u \<in> set (fd_Uses data)"
    using findUseIndex_Some[OF assms(3)] by auto
  have v: "u_GrantID v = u_GrantID u" "u_RequestID v = u_RequestID u" "u_Operation v = u_Operation u"
    "u_CreatedAt v = u_CreatedAt u" "u_Revision v = u_Revision u + 1" using assms(4) by (simp_all add: sameUse_def)
  have "map u_RequestID ((fd_Uses data)[m := v]) = map u_RequestID (fd_Uses data)"
    using m v(2) by (simp add: map_update) (metis list_update_id nth_map)
  then show "distinct (map u_RequestID ((fd_Uses data)[m := v]))" using assms(1) by (simp add: coreData_def)
  have core: "\<forall>w\<in>set (fd_Uses data). coreUse t' (fd_Grants data) w"
    using assms(1) coreUse_later[OF _ assms(2)] by (simp add: coreData_def)
  have "coreUse t (fd_Grants data) u" using assms(1) m(3) by (simp add: coreData_def)
  then have "coreUse t' (fd_Grants data) v"
    using assms(2,6-8) v by (auto simp: coreUse_def validLoadedUseLifecycle_def split: if_splits)
  then show "\<forall>w\<in>set ((fd_Uses data)[m := v]). coreUse t' (fd_Grants data) w"
    using core by (auto dest!: set_update_subset_insert[THEN subsetD])
  show "usesOf j ((fd_Uses data)[m := v]) = usesOf j (fd_Uses data)" if "j \<noteq> u_GrantID u" for j
    using that m v(1) by (intro usesOf_update_other) auto
  show "useRevisionTotal (u_GrantID u) ((fd_Uses data)[m := v]) = useRevisionTotal (u_GrantID u) (fd_Uses data) + 1"
    using revision_update[of m "fd_Uses data" "u_GrantID u" v] m v by simp
  show "committedUses (u_GrantID u) ((fd_Uses data)[m := v])
      = committedUses (u_GrantID u) (fd_Uses data) + (if u_State v = UseCommitted then 1 else 0)"
    using committed_update[of m "fd_Uses data" "u_GrantID u" v] m v assms(5) by simp
  show "reservedUses (u_GrantID u) ((fd_Uses data)[m := v]) = reservedUses (u_GrantID u) (fd_Uses data)
      - (if reservedState (u_State u) then 1 else 0) + (if reservedState (u_State v) then 1 else 0)"
    using reserved_update[of m "fd_Uses data" "u_GrantID u" v] m v by simp
qed

lemma reserveExistingUse_mutated:
  assumes "coreData opts t data" "t \<le> now" "now \<le> t'" "findUseIndex (fd_Uses data) requestID = Some (m, u)"
  shows "mutated opts t' data (fst (reserveExistingUse now m u grantID operation data))"
proof -
  let ?v = "u\<lparr>u_State := UseReserved, u_Revision := u_Revision u + 1, u_UpdatedAt := now, u_SettledAt := 0\<rparr>"
  let ?uses = "(fd_Uses data)[m := ?v]"
  have t: "0 < t" "t \<le> t'" using assms(1-3) by (auto simp: coreData_def)
  show ?thesis
  proof (cases "u_GrantID u = grantID \<and> u_State u = UseReleased
      \<and> (\<exists>k g. findGrant (fd_Grants data) grantID = Inr (k, g) \<and> grantCanUse g now)")
    case False
    then have "fst (reserveExistingUse now m u grantID operation data) = data"
      by (auto simp: reserveExistingUse_def split: sum.splits prod.splits)
    then show ?thesis using mutated_refl[OF assms(1) t(2)] by simp
  next
    case True
    then obtain k g where g: "findGrant (fd_Grants data) grantID = Inr (k, g)" "grantCanUse g now"
      and u: "u_GrantID u = grantID" "u_State u = UseReleased" by blast
    have id: "g_ID g = grantID" "g \<in> set (fd_Grants data)" using findGrant_Inr[OF g(1)] by auto
    have core: "coreGrant (fd_Uses data) g" using assms(1) id(2) by (simp add: coreData_def)
    have facts: "sameUse u ?v" "u_State u \<noteq> UseCommitted" "validUseState (u_State ?v)" "validUseSettlementTime ?v" "t \<le> u_UpdatedAt ?v"
      using assms(2) u by (simp_all add: sameUse_def validUseState_def validUseSettlementTime_def)
    note uses = replaceUse_facts[OF assms(1) t(2) assms(4) facts]
    note reserve = reserve_core[OF core g(2), of ?uses]
    have "mutated opts t' data (data\<lparr>fd_Uses := ?uses, fd_Grants := (fd_Grants data)[k :=
        aggregateGrantUses (g\<lparr>g_ReservationRevision := g_ReservationRevision g + 1\<rparr>) ?uses]\<rparr>)"
      using reserve uses u id by (intro use_mutated[OF assms(1) t(2) g(1)]) (simp_all add: reservedState_def)
    then show ?thesis
      using g u mutated_refl[OF assms(1) t(2)] by (simp add: reserveExistingUse_def Let_def)
  qed
qed

interpretation reserving: store_mutation
  "\<lambda>opts ck (grantID, requestID, operation). reserveUse (ck_mutate ck) grantID requestID operation"
  "\<lambda>_ (grantID, requestID, operation) _. validUseIdentity grantID requestID operation"
proof (unfold_locales, clarify, goal_cases)
  case (1 opts t data t' ck grantID requestID operation)
  have "t \<le> ck_mutate ck" "ck_mutate ck \<le> t'" using 1(2) by (simp_all add: clockIn_def)
  then show ?case
    using reserveNewUse_mutated[OF 1(1) _ _ 1(3)] reserveExistingUse_mutated[OF 1(1)]
    by (auto simp: reserveUse_def split: option.splits prod.splits)
qed

section \<open>Settling\<close>

definition settling :: "UseState \<Rightarrow> bool" where
  "settling target \<longleftrightarrow> target \<in> {UseCommitted, UseReleased, UseRetained}"

lemma settleGrantUse_core:
  assumes "coreGrant uses g" "g_Status g \<in> set [StatusActive, StatusExpired, StatusRevoked]"
  shows "coreGrant uses (settleGrantUse g)" "follows g (settleGrantUse g)" "g_Revision (settleGrantUse g) = g_Revision g"
proof -
  let ?h = "g\<lparr>g_Status := StatusConsumed, g_ExpiredFrom := StatusUnset\<rparr>"
  have "coreGrant uses ?h \<and> follows g ?h" if "Exhausted (g_MaxUses g) (g_UsedCount g)" "g_Status g \<noteq> StatusRevoked"
  proof -
    have "grantInv ?h" using coreGrant_facts(5)[OF assms(1)] that by (simp add: grantInv_def)
    moreover have "validGrantFailure ?h"
      using coreGrant_facts(6)[OF assms(1)] assms(2) by (auto simp: validGrantFailure_def)
    ultimately have "coreGrant uses ?h"
      using coreGrant_facts(1,2)[OF assms(1)]
      by (intro coreGrant_moved[OF assms(1)]) (simp_all add: subject_def bounds_def usage_def validStoredStatus_def)
    moreover have "follows g ?h"
      using assms(2) that(2) by (intro follows_step) (auto simp: subject_def bounds_def statusStep_from)
    ultimately show ?thesis ..
  qed
  then show "coreGrant uses (settleGrantUse g)" "follows g (settleGrantUse g)" "g_Revision (settleGrantUse g) = g_Revision g"
    using assms(1) by (auto simp: settleGrantUse_def)
qed

lemma settlement_within:
  assumes "limit.within l c r" "reservedState s" "settling target" "0 < r"
  shows "limit.within l (c + (if target = UseCommitted then 1 else 0)) (r - 1 + (if reservedState target then 1 else 0))"
  using assms limit.within_commit[of l c "r - 1"] limit.within_release[of l c "r - 1"]
  by (auto simp: settling_def reservedState_def)

lemma reserved_positive:
  assumes "u \<in> set uses" "reservedState (u_State u)"
  shows "0 < reservedUses (u_GrantID u) uses"
  using assms by (auto simp: reservedUses_def usesOf_def filter_empty_conv)

lemma applyUseSettlement_mutated:
  assumes "coreData opts t data" "t \<le> now" "now \<le> t'" "findUseIndex (fd_Uses data) requestID = Some (m, u)"
    and "u_GrantID u = grantID" "findGrant (fd_Grants data) grantID = Inr (k, g)"
    and "useCanSettle u g target = Inr True" "settling target"
  shows "mutated opts t' data (applyUseSettlement now m k u g target data)"
proof -
  let ?v = "u\<lparr>u_State := target, u_Revision := u_Revision u + 1, u_UpdatedAt := now,
    u_SettledAt := (if useStateSettled target then now else u_SettledAt u)\<rparr>"
  let ?uses = "(fd_Uses data)[m := ?v]"
  let ?g0 = "g\<lparr>g_ReservationRevision := g_ReservationRevision g + 1,
    g_UseRevision := (if target = UseCommitted then g_UseRevision g + 1 else g_UseRevision g)\<rparr>"
  have t: "0 < t" "t \<le> t'" using assms(1-3) by (auto simp: coreData_def)
  have id: "g_ID g = grantID" "g \<in> set (fd_Grants data)" using findGrant_Inr[OF assms(6)] by auto
  have core: "coreGrant (fd_Uses data) g" using assms(1) id(2) by (simp add: coreData_def)
  have u: "u \<in> set (fd_Uses data)" using findUseIndex_Some[OF assms(4)] by simp
  then have valid: "validUseState (u_State u)" "validUseSettlementTime u"
    using assms(1) by (auto simp: coreData_def coreUse_def validLoadedUseLifecycle_def split: if_splits)
  have state: "reservedState (u_State u)" "g_Status g \<in> set [StatusActive, StatusExpired, StatusRevoked]"
    using assms(7) valid(1)
    by (auto simp: useCanSettle_def useStateSettled_def validUseState_def reservedState_def reservationCanSettle_def
        split: if_splits UseState.splits)
  have facts: "sameUse u ?v" "u_State u \<noteq> UseCommitted" "validUseState (u_State ?v)" "validUseSettlementTime ?v" "t \<le> u_UpdatedAt ?v"
    using assms(2,8) state t valid(2)
    by (auto simp: sameUse_def settling_def validUseState_def validUseSettlementTime_def useStateSettled_def reservedState_def)
  note uses = replaceUse_facts[OF assms(1) t(2) assms(4) facts]
  have agg: "aggregated (fd_Uses data) g" "grantShape g" "grantInv g" using core by (simp_all add: coreGrant_def)
  have within: "limit.within (g_MaxUses g) (committedUses (g_ID g) ?uses) (reservedUses (g_ID g) ?uses)"
    using settlement_within[OF _ state(1) assms(8), of "g_MaxUses g" "g_UsedCount g" "g_ReservedCount g"]
      reserved_positive[OF u state(1)] uses(5,6) agg(1,3) state(1) assms(5) id
    by (simp add: aggregated_def grantInv_def)
  have recount: "coreGrant ?uses (aggregateGrantUses ?g0 ?uses)" "follows g (aggregateGrantUses ?g0 ?uses)"
    using uses(4,5) agg(1,2) assms(5) id state(2) within
    by (intro recount_core[OF core]; simp add: aggregated_def)+
  have "g_Status (aggregateGrantUses ?g0 ?uses) = g_Status g" "g_Revision (aggregateGrantUses ?g0 ?uses) = g_Revision g"
    by (simp_all add: aggregateGrantUses_fields)
  then have settle: "coreGrant ?uses (settleGrantUse (aggregateGrantUses ?g0 ?uses))"
    "follows g (settleGrantUse (aggregateGrantUses ?g0 ?uses))"
    "g_Revision (settleGrantUse (aggregateGrantUses ?g0 ?uses)) = g_Revision g"
    using settleGrantUse_core[OF recount(1)] state(2) follows_trans[OF recount(2)] by simp_all
  have "mutated opts t' data (data\<lparr>fd_Uses := ?uses, fd_Grants := (fd_Grants data)[k :=
      settleGrantUse (aggregateGrantUses ?g0 ?uses)]\<rparr>)"
    using settle uses(1-3) assms(5) by (intro use_mutated[OF assms(1) t(2) assms(6)]) simp_all
  then show ?thesis by (simp add: applyUseSettlement_def Let_def)
qed

interpretation settlement: store_mutation
  "\<lambda>opts ck (grantID, requestID, target). settleStoredUse (ck_mutate ck) grantID requestID target"
  "\<lambda>_ (grantID, requestID, target) _. settling target"
proof (unfold_locales, clarify, goal_cases)
  case (1 opts t data t' ck grantID requestID target)
  have "t \<le> ck_mutate ck" "ck_mutate ck \<le> t'" using 1(2) by (simp_all add: clockIn_def)
  then show ?case
    using applyUseSettlement_mutated[OF 1(1)] mutated_refl[OF 1(1) clockIn_le[OF 1(2)]] 1(3)
    by (auto simp: settleStoredUse_def split: option.splits prod.splits sum.splits bool.splits)
qed

end
