(* ===== verification/GrantDecisions.thy ===== *)
theory GrantDecisions
  imports GrantLifecycle
begin

text \<open>
  \<^verbatim>\<open>authorization/grants/v1_decisions.go\<close> and \<^verbatim>\<open>operator_decisions.go\<close>: revision-bound operator decisions with
  replay. The digest of a command (\<^verbatim>\<open>hashOperatorDecision\<close>: SHA-256 of its JSON) is the parameter \<open>hash\<close>; the provider's
  activation check is a parameter as in the code.
\<close>

datatype DecisionAction = ActionApprove | ActionDeny | ActionRevoke | ActionOther string

record ApprovalConstraints =
  c_Duration :: duration
  c_MaxUses :: Limit
  c_MaxUsesSpecified :: bool

record OperatorDecision =
  cmd_ID :: string
  cmd_Action :: DecisionAction
  cmd_Approver :: string
  cmd_OnBehalfOf :: string
  cmd_ExpectedRevision :: int
  cmd_IdempotencyKey :: string
  cmd_Constraints :: ApprovalConstraints
  cmd_CorrelationID :: string

record OperatorDecisionResult =
  odr_Grant :: Grant
  odr_Previous :: Grant
  odr_EventCursor :: string
  odr_Replay :: bool

type_synonym activationCheck = "Grant \<Rightarrow> ApprovalConstraints \<Rightarrow> grantError option"

section \<open>Normalization of a command\<close>

definition constraintUseLimitSpecified :: "ApprovalConstraints \<Rightarrow> bool" where
  "constraintUseLimitSpecified c = (c_MaxUsesSpecified c \<or> IsFinite (c_MaxUses c))"

definition validOperatorConstraints :: "OperatorDecision \<Rightarrow> bool" where
  "validOperatorConstraints cmd =
     (cmd_Action cmd = ActionApprove
      \<or> (c_Duration (cmd_Constraints cmd) = 0 \<and> \<not> constraintUseLimitSpecified (cmd_Constraints cmd)))"

definition operatorDecisionRequired :: "OperatorDecision \<Rightarrow> bool" where
  "operatorDecisionRequired cmd =
     (cmd_ID cmd \<noteq> [] \<and> cmd_Approver cmd \<noteq> [] \<and> cmd_ExpectedRevision cmd \<ge> 1 \<and> cmd_IdempotencyKey cmd \<noteq> [])"

definition validOperatorDecisionIdentities :: "OperatorDecision \<Rightarrow> bool" where
  "validOperatorDecisionIdentities cmd =
     (length (cmd_IdempotencyKey cmd) \<le> 200 \<and> safeOperatorIdentity (cmd_IdempotencyKey cmd)
      \<and> safeOperatorIdentity (cmd_Approver cmd)
      \<and> (cmd_OnBehalfOf cmd = [] \<or> safeOperatorIdentity (cmd_OnBehalfOf cmd)))"

definition validOperatorDecisionReferences :: "OperatorDecision \<Rightarrow> bool" where
  "validOperatorDecisionReferences cmd =
     (length (cmd_CorrelationID cmd) \<le> 128
      \<and> (cmd_CorrelationID cmd = [] \<or> safeOperatorIdentity (cmd_CorrelationID cmd)))"

definition validOperatorAction :: "DecisionAction \<Rightarrow> bool" where
  "validOperatorAction action = (action \<in> set [ActionApprove, ActionDeny, ActionRevoke])"

definition normalizeOperatorDecision :: "OperatorDecision \<Rightarrow> grantError + OperatorDecision" where
  "normalizeOperatorDecision cmd0 =
     (let cmd = cmd0\<lparr>cmd_ID := trimSpace (cmd_ID cmd0), cmd_Approver := trimSpace (cmd_Approver cmd0),
                     cmd_OnBehalfOf := trimSpace (cmd_OnBehalfOf cmd0),
                     cmd_IdempotencyKey := trimSpace (cmd_IdempotencyKey cmd0),
                     cmd_CorrelationID := trimSpace (cmd_CorrelationID cmd0)\<rparr>
      in if \<not> operatorDecisionRequired cmd then Inl ErrInvalidCommand
         else if \<not> (validOperatorDecisionIdentities cmd \<and> validOperatorDecisionReferences cmd)
                 \<or> \<not> validOperatorAction (cmd_Action cmd) then Inl ErrInvalidCommand
         else if \<not> validOperatorConstraints cmd then Inl ErrInvalidCommand
         else Inr cmd)"

section \<open>The effect of a decision on its grant\<close>

definition requestedApprovalBounds :: "Grant \<Rightarrow> duration \<times> Limit" where
  "requestedApprovalBounds grant =
     (if g_RequestedDuration grant \<le> 0 then g_Duration grant else g_RequestedDuration grant,
      if g_RequestedMaxUses grant < 0 then g_MaxUses grant else g_RequestedMaxUses grant)"

definition validApprovalConstraints :: "ApprovalConstraints \<Rightarrow> duration \<Rightarrow> Limit \<Rightarrow> bool" where
  "validApprovalConstraints c dur maxUses =
     (if c_Duration c < 0 \<or> c_Duration c > dur \<or> c_MaxUses c < 0 then False
      else if \<not> constraintUseLimitSpecified c then True
      else if IsUnlimited (c_MaxUses c) then IsUnlimited maxUses
      else IsUnlimited maxUses \<or> c_MaxUses c \<le> maxUses)"

definition applyApprovalConstraints :: "Grant \<Rightarrow> ApprovalConstraints \<Rightarrow> Grant" where
  "applyApprovalConstraints grant c =
     (let grant1 = (if c_Duration c > 0 then grant\<lparr>g_Duration := c_Duration c\<rparr> else grant)
      in if constraintUseLimitSpecified c then grant1\<lparr>g_MaxUses := c_MaxUses c\<rparr> else grant1)"

definition applyApprovalMutation ::
  "Grant \<Rightarrow> ApprovalConstraints \<Rightarrow> activationCheck option \<Rightarrow> gotime \<Rightarrow> grantError + Grant" where
  "applyApprovalMutation grant c validate now =
     (if g_Status grant \<noteq> StatusPending then Inl ErrInvalidTransition
      else (let (requestedDuration, requestedMaxUses) = requestedApprovalBounds grant
            in if \<not> validApprovalConstraints c requestedDuration requestedMaxUses then Inl ErrConstraintExceeded
               else guardR (case validate of None \<Rightarrow> None | Some check \<Rightarrow> check grant c)
                      (let grant1 = applyApprovalConstraints grant c
                       in Inr (grant1\<lparr>g_Status := StatusActive, g_ExpiresAt := now + g_Duration grant1\<rparr>))))"

definition terminalDecisionTransition :: "DecisionAction \<Rightarrow> (Status \<times> Status) option" where
  "terminalDecisionTransition action =
     (case action of
        ActionDeny \<Rightarrow> Some (StatusDenied, StatusPending)
      | ActionRevoke \<Rightarrow> Some (StatusRevoked, StatusActive)
      | _ \<Rightarrow> None)"

definition applyTerminalDecisionAction :: "Grant \<Rightarrow> DecisionAction \<Rightarrow> grantError + Grant" where
  "applyTerminalDecisionAction grant action =
     (case terminalDecisionTransition action of
        None \<Rightarrow> Inl ErrInvalidCommand
      | Some (status, required) \<Rightarrow>
          if g_Status grant \<noteq> required then Inl ErrInvalidTransition else Inr (grant\<lparr>g_Status := status\<rparr>))"

definition applyDecisionAction ::
  "Grant \<Rightarrow> OperatorDecision \<Rightarrow> activationCheck option \<Rightarrow> gotime \<Rightarrow> grantError + Grant" where
  "applyDecisionAction grant cmd validate now =
     (if cmd_Action cmd = ActionApprove then applyApprovalMutation grant (cmd_Constraints cmd) validate now
      else applyTerminalDecisionAction grant (cmd_Action cmd))"

definition terminalActivationFailure :: "grantError \<Rightarrow> Failure option" where
  "terminalActivationFailure e =
     (case Failure_As e of
        None \<Rightarrow> None
      | Some f \<Rightarrow>
          if fail_Retryable f then None
          else (case fail_Code f of
                  CodePlanUnavailable \<Rightarrow> Some f | CodePlanMismatch \<Rightarrow> Some f
                | CodeCredentialChanged \<Rightarrow> Some f | CodeCredentialInsufficient \<Rightarrow> Some f
                | _ \<Rightarrow> None))"

definition failedActivationGrant :: "Grant \<Rightarrow> OperatorDecision \<Rightarrow> gotime \<Rightarrow> grantError \<Rightarrow> Grant" where
  "failedActivationGrant grant cmd now e =
     grant\<lparr>g_Status := StatusFailed, g_DecidedAt := now, g_DecidedBy := cmd_Approver cmd,
           g_DecidedOnBehalfOf := cmd_OnBehalfOf cmd, g_FailureCode := fail_Code (Classify e),
           g_FailureReference := cmd_CorrelationID cmd, g_FailedAt := now\<rparr>"

text \<open>The updated grant and the error that goes with it: a terminal activation failure updates the grant and is reported.\<close>

definition applyDecisionMutation ::
  "Grant \<Rightarrow> OperatorDecision \<Rightarrow> activationCheck option \<Rightarrow> gotime \<Rightarrow> Grant \<times> grantError option" where
  "applyDecisionMutation grant cmd validate now =
     (case applyDecisionAction grant cmd validate now of
        Inl e \<Rightarrow>
          (case terminalActivationFailure e of
             Some f \<Rightarrow> (failedActivationGrant grant cmd now (ErrActivation f), Some (ErrActivation f))
           | None \<Rightarrow> (grant, Some e))
      | Inr updated \<Rightarrow>
          (updated\<lparr>g_DecidedAt := now, g_DecidedBy := cmd_Approver cmd, g_DecidedOnBehalfOf := cmd_OnBehalfOf cmd\<rparr>, None))"

section \<open>Replay\<close>

definition actionText :: "DecisionAction \<Rightarrow> string" where
  "actionText action =
     (case action of ActionApprove \<Rightarrow> ''approve'' | ActionDeny \<Rightarrow> ''deny'' | ActionRevoke \<Rightarrow> ''revoke'' | ActionOther s \<Rightarrow> s)"

definition decisionScope :: "OperatorDecision \<Rightarrow> string" where
  "decisionScope cmd = cmd_ID cmd @ [CHR 0x00] @ actionText (cmd_Action cmd) @ [CHR 0x00] @ cmd_IdempotencyKey cmd"

definition findDecisionRecord :: "decisionRecord list \<Rightarrow> string \<Rightarrow> decisionRecord option" where
  "findDecisionRecord records scope = find (\<lambda>r. dr_Scope r = scope) records"

definition zeroDecisionResult :: OperatorDecisionResult where
  "zeroDecisionResult = \<lparr>odr_Grant = zeroGrant, odr_Previous = zeroGrant, odr_EventCursor = [], odr_Replay = False\<rparr>"

definition replayOperatorDecision ::
  "decisionRecord list \<Rightarrow> string \<Rightarrow> string \<Rightarrow> (OperatorDecisionResult \<times> grantError option) option" where
  "replayOperatorDecision records scope h =
     (case findDecisionRecord records scope of
        None \<Rightarrow> None
      | Some record \<Rightarrow>
          if dr_CommandHash record \<noteq> h then Some (zeroDecisionResult, Some ErrIdempotencyConflict)
          else Some (\<lparr>odr_Grant = dr_Result record, odr_Previous = dr_Previous record,
                      odr_EventCursor = dr_EventCursor record, odr_Replay = True\<rparr>,
                     if dr_FailureCode record \<noteq> CodeUnset then Some (ErrActivation (Failure_New (dr_FailureCode record)))
                     else None))"

section \<open>ApplyOperatorDecision\<close>

definition grantSnapshotsWith :: "Grant gomap \<Rightarrow> Grant \<Rightarrow> Grant gomap" where
  "grantSnapshotsWith before current = mapSet (g_ID current) current before"

definition storageFailure :: grantError where
  "storageFailure = ErrActivation (Failure_New CodeStorageUnavailable)"

text \<open>The prepared state, the snapshots before it and whether preparing changed anything.\<close>

definition prepareOperatorDecision ::
  "Options \<Rightarrow> Clock \<Rightarrow> fileData \<Rightarrow> grantError + fileData \<times> Grant gomap \<times> bool" where
  "prepareOperatorDecision opts ck stored =
     (case load stored of
        Inl _ \<Rightarrow> Inl storageFailure
      | Inr data \<Rightarrow>
          (let before = grantSnapshots (fd_Grants data);
               (data1, lifecycleChanged) = prepareLifecycle opts ck data
           in Inr (if lifecycleChanged then fst (reconcileLifecycle opts ck data1 before) else data1,
                   before, lifecycleChanged)))"

definition reconcileOperatorMutation ::
  "Options \<Rightarrow> Clock \<Rightarrow> fileData \<Rightarrow> Grant gomap \<Rightarrow> Grant \<Rightarrow> bool \<Rightarrow> fileData" where
  "reconcileOperatorMutation opts ck data before current lifecycleChanged =
     (if lifecycleChanged then fst (reconcileLifecycle opts ck data (grantSnapshotsWith before current))
      else fst (reconcileLifecycle opts ck data before))"

definition currentEventCursor :: "fileData \<Rightarrow> string" where
  "currentEventCursor data = (if fd_NextEvent data \<le> 1 then [] else encodeEventCursor (fd_NextEvent data - 1))"

text \<open>The durable state and the error after \<^verbatim>\<open>saveDecisionError\<close>.\<close>

definition saveDecisionError ::
  "bool \<Rightarrow> fileData \<Rightarrow> fileData \<Rightarrow> bool \<Rightarrow> grantError option \<Rightarrow> fileData \<times> grantError option" where
  "saveDecisionError saves stored data lifecycleChanged commandErr =
     (if lifecycleChanged then
        (if saves then (data, commandErr)
         else (stored, Some (case commandErr of None \<Rightarrow> storageFailure | Some e \<Rightarrow> ErrJoin e storageFailure)))
      else (stored, commandErr))"

definition resolveOperatorDecisionGrant :: "Grant list \<Rightarrow> OperatorDecision \<Rightarrow> (nat \<times> Grant) \<times> grantError option" where
  "resolveOperatorDecisionGrant values cmd =
     (case findGrant values (cmd_ID cmd) of
        Inl e \<Rightarrow> ((0, zeroGrant), Some e)
      | Inr (index, current) \<Rightarrow>
          ((index, current), failIf (cmd_ExpectedRevision cmd \<noteq> g_Revision current) (ErrRevisionConflict current)))"

definition commitOperatorDecision ::
  "Options \<Rightarrow> Clock \<Rightarrow> bool \<Rightarrow> activationCheck option \<Rightarrow> fileData \<Rightarrow> fileData \<Rightarrow> Grant gomap \<Rightarrow> bool \<Rightarrow> nat \<Rightarrow> Grant
   \<Rightarrow> OperatorDecision \<Rightarrow> string \<Rightarrow> string \<Rightarrow> fileData \<times> OperatorDecisionResult \<times> grantError option" where
  "commitOperatorDecision opts ck saves validate stored data before lifecycleChanged index current cmd scope h =
     (let (updated, decisionErr) = applyDecisionMutation current cmd validate (ck_mutate ck)
      in if decisionErr \<noteq> None \<and> g_Status updated \<noteq> StatusFailed then
           (let (stored', e) = saveDecisionError saves stored data lifecycleChanged decisionErr
            in (stored', \<lparr>odr_Grant = current, odr_Previous = current, odr_EventCursor = [], odr_Replay = False\<rparr>, e))
         else
           (let data1 = data\<lparr>fd_Grants := (fd_Grants data)[index := updated]\<rparr>;
                data2 = reconcileOperatorMutation opts ck data1 before current lifecycleChanged;
                result = fd_Grants data2 ! index;
                cursor = currentEventCursor data2;
                failure = Option.bind decisionErr Failure_As;
                record = \<lparr>dr_Scope = scope, dr_CommandHash = h, dr_Result = result, dr_Previous = current,
                          dr_EventCursor = cursor,
                          dr_FailureCode = (case failure of Some f \<Rightarrow> fail_Code f | None \<Rightarrow> CodeUnset),
                          dr_FailureReference = (case failure of Some _ \<Rightarrow> g_FailureReference result | None \<Rightarrow> []),
                          dr_CommittedAt = ck_commit ck\<rparr>;
                data3 = data2\<lparr>fd_DecisionRecords := fd_DecisionRecords data2 @ [record]\<rparr>
            in if saves then
                 (data3, \<lparr>odr_Grant = result, odr_Previous = current, odr_EventCursor = cursor, odr_Replay = False\<rparr>, decisionErr)
               else (stored, zeroDecisionResult, Some storageFailure)))"

definition applyPreparedOperatorDecision ::
  "Options \<Rightarrow> Clock \<Rightarrow> bool \<Rightarrow> (OperatorDecision \<Rightarrow> string) \<Rightarrow> activationCheck option \<Rightarrow> fileData
   \<Rightarrow> fileData \<Rightarrow> Grant gomap \<Rightarrow> bool \<Rightarrow> OperatorDecision \<Rightarrow> fileData \<times> OperatorDecisionResult \<times> grantError option" where
  "applyPreparedOperatorDecision opts ck saves hash validate stored data before lifecycleChanged cmd =
     (let h = hash cmd; scope = decisionScope cmd
      in case replayOperatorDecision (fd_DecisionRecords data) scope h of
           Some (replay, replayErr) \<Rightarrow>
             (let (stored', e) = saveDecisionError saves stored data lifecycleChanged replayErr in (stored', replay, e))
         | None \<Rightarrow>
             (case resolveOperatorDecisionGrant (fd_Grants data) cmd of
                ((index, current), Some err) \<Rightarrow>
                  (let (stored', e) = saveDecisionError saves stored data lifecycleChanged (Some err)
                   in (stored', \<lparr>odr_Grant = current, odr_Previous = current, odr_EventCursor = [], odr_Replay = False\<rparr>, e))
              | ((index, current), None) \<Rightarrow>
                  commitOperatorDecision opts ck saves validate stored data before lifecycleChanged index current cmd scope h))"

definition ApplyOperatorDecision ::
  "Options \<Rightarrow> Clock \<Rightarrow> bool \<Rightarrow> (OperatorDecision \<Rightarrow> string) \<Rightarrow> activationCheck option \<Rightarrow> OperatorDecision \<Rightarrow> fileData
   \<Rightarrow> fileData \<times> OperatorDecisionResult \<times> grantError option" where
  "ApplyOperatorDecision opts ck saves hash validate cmd0 stored =
     (case normalizeOperatorDecision cmd0 of
        Inl e \<Rightarrow> (stored, zeroDecisionResult, Some e)
      | Inr cmd \<Rightarrow>
          (case prepareOperatorDecision opts ck stored of
             Inl e \<Rightarrow> (stored, zeroDecisionResult, Some e)
           | Inr (data, before, lifecycleChanged) \<Rightarrow>
               applyPreparedOperatorDecision opts ck saves hash validate stored data before lifecycleChanged cmd))"

end
