(* ===== verification/GrantDecisionSteps.thy ===== *)
theory GrantDecisionSteps
  imports GrantMutations GrantDecisions
begin

text \<open>
  Operator decisions keep the invariant of the store. An approval only narrows what was requested; a terminal activation
  failure closes the request; every other error leaves the grant alone.
\<close>

section \<open>A preparation that reports no change made none\<close>

lemma expireDue_unchanged: "\<not> snd (expireDue now data) \<Longrightarrow> fst (expireDue now data) = data"
proof -
  assume a: "\<not> snd (expireDue now data)"
  have "map (expired now) (fd_Grants data) = fd_Grants data"
    using a by (intro map_idI) (auto simp: expireDue_def expired_def list_ex_iff)
  then show ?thesis by (simp add: expireDue_fields)
qed

lemma retainStale_unchanged:
  "\<not> snd (retainStaleReservations opts now data) \<Longrightarrow> fst (retainStaleReservations opts now data) = data"
proof -
  define S where "S = staleUse (fd_Grants data) now (o_ReservationTimeout opts)"
  assume "\<not> snd (retainStaleReservations opts now data)"
  then have none: "\<forall>u\<in>set (fd_Uses data). \<not> S u"
    by (simp add: retainStaleReservations_def Let_def list_ex_iff S_def)
  have "retained S now (fd_Uses data) = fd_Uses data"
    unfolding retained_def using none by (intro map_idI) simp
  moreover have "filter (\<lambda>u. u_GrantID u = i \<and> S u) (fd_Uses data) = []" for i
    using none by (simp add: filter_empty_conv)
  ultimately show ?thesis
    using retainStale_fields[of opts now data] by (simp add: S_def settledGrants_def)
qed

lemma prepareLifecycle_unchanged:
  assumes "\<not> snd (prepareLifecycle opts ck data)"
  shows "fst (prepareLifecycle opts ck data) = data"
proof -
  have "\<not> snd (expireDue (ck_expire ck) data)"
    using assms by (simp add: prepareLifecycle_def case_prod_beta)
  then have e: "fst (expireDue (ck_expire ck) data) = data" by (rule expireDue_unchanged)
  then have "\<not> snd (retainStaleReservations opts (ck_retain ck) data)"
    using assms by (simp add: prepareLifecycle_def case_prod_beta)
  from retainStale_unchanged[OF this] show ?thesis by (simp add: prepareLifecycle_def case_prod_beta e)
qed

section \<open>One decision\<close>

definition validCommand :: "OperatorDecision \<Rightarrow> bool" where
  "validCommand cmd \<longleftrightarrow> length (cmd_CorrelationID cmd) \<le> 128
     \<and> (cmd_CorrelationID cmd = [] \<or> safeOperatorIdentity (cmd_CorrelationID cmd))"

lemma normalizeOperatorDecision_Inr: "normalizeOperatorDecision cmd0 = Inr cmd \<Longrightarrow> validCommand cmd"
  by (auto simp: normalizeOperatorDecision_def Let_def validOperatorDecisionReferences_def validCommand_def split: if_splits)

text \<open>The stamp that a decision puts on the grant it changed.\<close>

definition decided :: "Grant \<Rightarrow> OperatorDecision \<Rightarrow> gotime \<Rightarrow> Grant" where
  "decided g cmd now = g\<lparr>g_DecidedAt := now, g_DecidedBy := cmd_Approver cmd, g_DecidedOnBehalfOf := cmd_OnBehalfOf cmd\<rparr>"

definition approved :: "Grant \<Rightarrow> ApprovalConstraints \<Rightarrow> OperatorDecision \<Rightarrow> gotime \<Rightarrow> Grant" where
  "approved g c cmd now =
     decided ((applyApprovalConstraints g c)\<lparr>g_Status := StatusActive,
                g_ExpiresAt := now + g_Duration (applyApprovalConstraints g c)\<rparr>) cmd now"

lemma applyApprovalConstraints_simps [simp]:
  "subject (applyApprovalConstraints g c) = subject g" "bounds (applyApprovalConstraints g c) = bounds g"
  "usage (applyApprovalConstraints g c) = usage g" "g_Revision (applyApprovalConstraints g c) = g_Revision g"
  "g_UsedCount (applyApprovalConstraints g c) = g_UsedCount g" "g_ReservedCount (applyApprovalConstraints g c) = g_ReservedCount g"
  "g_FailureCode (applyApprovalConstraints g c) = g_FailureCode g" "g_FailedAt (applyApprovalConstraints g c) = g_FailedAt g"
  "g_FailureReference (applyApprovalConstraints g c) = g_FailureReference g"
  "g_Duration (applyApprovalConstraints g c) = (if c_Duration c > 0 then c_Duration c else g_Duration g)"
  "g_MaxUses (applyApprovalConstraints g c) = (if constraintUseLimitSpecified c then c_MaxUses c else g_MaxUses g)"
  "g_RequestedDuration (applyApprovalConstraints g c) = g_RequestedDuration g"
  "g_RequestedMaxUses (applyApprovalConstraints g c) = g_RequestedMaxUses g"
  by (simp_all add: applyApprovalConstraints_def Let_def subject_def bounds_def usage_def)

lemma decided_simps [simp]:
  "subject (decided g cmd now) = subject g" "bounds (decided g cmd now) = bounds g" "usage (decided g cmd now) = usage g"
  "g_Revision (decided g cmd now) = g_Revision g" "g_Status (decided g cmd now) = g_Status g"
  "g_UsedCount (decided g cmd now) = g_UsedCount g" "g_ReservedCount (decided g cmd now) = g_ReservedCount g"
  "g_Duration (decided g cmd now) = g_Duration g" "g_MaxUses (decided g cmd now) = g_MaxUses g"
  "g_ExpiresAt (decided g cmd now) = g_ExpiresAt g" "g_DecidedAt (decided g cmd now) = now"
  "g_RequestedDuration (decided g cmd now) = g_RequestedDuration g"
  "g_RequestedMaxUses (decided g cmd now) = g_RequestedMaxUses g"
  "g_FailureCode (decided g cmd now) = g_FailureCode g" "g_FailedAt (decided g cmd now) = g_FailedAt g"
  "g_FailureReference (decided g cmd now) = g_FailureReference g"
  by (simp_all add: decided_def subject_def bounds_def usage_def)

lemma status_simps [simp]:
  "subject (g\<lparr>g_Status := s\<rparr>) = subject g" "bounds (g\<lparr>g_Status := s\<rparr>) = bounds g" "usage (g\<lparr>g_Status := s\<rparr>) = usage g"
  "subject (g\<lparr>g_ExpiresAt := e\<rparr>) = subject g" "bounds (g\<lparr>g_ExpiresAt := e\<rparr>) = bounds g" "usage (g\<lparr>g_ExpiresAt := e\<rparr>) = usage g"
  by (simp_all add: subject_def bounds_def usage_def)

lemma approved_core:
  assumes "coreGrant uses g" "g_Status g = StatusPending"
    and "validApprovalConstraints c (fst (requestedApprovalBounds g)) (snd (requestedApprovalBounds g))"
  shows "coreGrant uses (approved g c cmd now)" "follows g (approved g c cmd now)" "g_Revision (approved g c cmd now) = g_Revision g"
proof -
  have inv: "g_UsedCount g = 0" "g_ReservedCount g = 0" "g_Duration g \<le> g_RequestedDuration g" "0 < g_Duration g" "0 \<le> g_MaxUses g"
    "IsUnlimited (g_RequestedMaxUses g) \<or> IsFinite (g_MaxUses g) \<and> g_MaxUses g \<le> g_RequestedMaxUses g"
    "0 < g_RequestedDuration g" "0 \<le> g_RequestedMaxUses g"
    using assms(1,2) by (auto simp: coreGrant_def grantShape_def grantInv_def unused_def)
  have c: "c_Duration c \<le> g_RequestedDuration g" "0 \<le> c_MaxUses c"
    "constraintUseLimitSpecified c \<Longrightarrow> IsUnlimited (g_RequestedMaxUses g) \<or> IsFinite (c_MaxUses c) \<and> c_MaxUses c \<le> g_RequestedMaxUses g"
    using assms(3) inv(7,8) by (auto simp: validApprovalConstraints_def requestedApprovalBounds_def limit_defs split: if_splits)
  have "grantInv (approved g c cmd now)"
    using inv c by (auto simp: approved_def grantInv_def unused_def limit_within limit_defs)
  moreover have "validGrantFailure (approved g c cmd now)"
    using coreGrant_facts(6)[OF assms(1)] assms(2) by (simp add: approved_def validGrantFailure_def)
  ultimately show "coreGrant uses (approved g c cmd now)"
    using inv c by (intro coreGrant_moved[OF assms(1)]) (simp_all add: approved_def validStoredStatus_def)
  show "follows g (approved g c cmd now)" "g_Revision (approved g c cmd now) = g_Revision g"
    using assms(2) by (auto intro!: follows_step simp: approved_def statusStep_from)
qed

lemma terminated_core:
  assumes "coreGrant uses g" "(g_Status g, status) \<in> {(StatusPending, StatusDenied), (StatusActive, StatusRevoked)}"
  shows "coreGrant uses (decided (g\<lparr>g_Status := status\<rparr>) cmd now)" "follows g (decided (g\<lparr>g_Status := status\<rparr>) cmd now)"
    "g_Revision (decided (g\<lparr>g_Status := status\<rparr>) cmd now) = g_Revision g"
proof -
  let ?h = "decided (g\<lparr>g_Status := status\<rparr>) cmd now"
  have "grantInv ?h" using coreGrant_facts(5)[OF assms(1)] assms(2) by (auto simp: grantInv_def unused_def)
  moreover have "validGrantFailure ?h" using coreGrant_facts(6)[OF assms(1)] assms(2) by (auto simp: validGrantFailure_def)
  ultimately show "coreGrant uses ?h"
    using coreGrant_facts(1,2)[OF assms(1)] assms(2)
    by (intro coreGrant_moved[OF assms(1)]) (auto simp: validStoredStatus_def)
  show "follows g ?h" "g_Revision ?h = g_Revision g"
    using assms(2) by (auto intro!: follows_step simp: statusStep_from)
qed

lemma terminalActivationFailure_Known: "terminalActivationFailure e = Some f \<Longrightarrow> Known (fail_Code f)"
  by (auto simp: terminalActivationFailure_def Known_def specifications_def split: option.splits if_splits Code.splits)

lemma failed_core:
  assumes "coreGrant uses g" "g_Status g = StatusPending" "Known (fail_Code f)" "now \<noteq> 0" "validCommand cmd"
  defines "h \<equiv> failedActivationGrant g cmd now (ErrActivation f)"
  shows "coreGrant uses h" "follows g h" "g_Revision h = g_Revision g"
proof -
  have same: "subject h = subject g" "bounds h = bounds g" "usage h = usage g" "g_UsedCount h = g_UsedCount g"
    "g_Revision h = g_Revision g" "g_Status h = StatusFailed" "g_Duration h = g_Duration g" "g_MaxUses h = g_MaxUses g"
    by (simp_all add: h_def failedActivationGrant_def subject_def bounds_def usage_def)
  have "grantInv h" using coreGrant_facts(5)[OF assms(1)] coreGrant_facts(2)[OF assms(1)] assms(2) same
    by (simp add: grantInv_def unused_def bounds_def usage_def limit_within)
  moreover have "validGrantFailure h"
    using assms(3-5) by (auto simp: h_def failedActivationGrant_def validGrantFailure_def Classify_def validCommand_def)
  ultimately show "coreGrant uses h"
    using coreGrant_facts(1,2)[OF assms(1)] same by (intro coreGrant_moved[OF assms(1)]) (simp_all add: validStoredStatus_def)
  show "follows g h" "g_Revision h = g_Revision g"
    using assms(2) same by (auto intro!: follows_step simp: statusStep_from)
qed

text \<open>The outcomes of a decision on its grant.\<close>

lemma applyDecisionMutation_cases:
  assumes "applyDecisionMutation g cmd validate now = (h, err)"
  obtains (unchanged) e where "h = g" "err = Some e"
  | (failed) f where "h = failedActivationGrant g cmd now (ErrActivation f)" "err = Some (ErrActivation f)"
      "g_Status g = StatusPending" "Known (fail_Code f)"
  | (approved) "h = approved g (cmd_Constraints cmd) cmd now" "err = None" "g_Status g = StatusPending"
      "validApprovalConstraints (cmd_Constraints cmd) (fst (requestedApprovalBounds g)) (snd (requestedApprovalBounds g))"
  | (terminated) status where "h = decided (g\<lparr>g_Status := status\<rparr>) cmd now" "err = None"
      "(g_Status g, status) \<in> {(StatusPending, StatusDenied), (StatusActive, StatusRevoked)}"
proof (cases "applyDecisionAction g cmd validate now")
  case (Inl e)
  show thesis
  proof (cases "terminalActivationFailure e")
    case None
    then show thesis using assms Inl by (intro unchanged[of e]) (auto simp: applyDecisionMutation_def)
  next
    case (Some f)
    have "e \<notin> {ErrInvalidTransition, ErrInvalidCommand, ErrConstraintExceeded}"
      using Some by (auto simp: terminalActivationFailure_def)
    then have "g_Status g = StatusPending"
      using Inl by (auto simp: applyDecisionAction_def applyApprovalMutation_def applyTerminalDecisionAction_def
          split: if_splits option.splits)
    then show thesis
      using assms Inl Some terminalActivationFailure_Known[OF Some]
      by (intro failed[of f]) (auto simp: applyDecisionMutation_def)
  qed
next
  case (Inr updated)
  then have h: "h = decided updated cmd now" "err = None"
    using assms by (auto simp: applyDecisionMutation_def decided_def)
  show thesis
  proof (cases "cmd_Action cmd = ActionApprove")
    case True
    then show thesis using Inr h
      by (intro approved) (auto simp: applyDecisionAction_def applyApprovalMutation_def approved_def Let_def case_prod_beta split: if_splits)
  next
    case False
    then obtain status where "updated = g\<lparr>g_Status := status\<rparr>"
      "(g_Status g, status) \<in> {(StatusPending, StatusDenied), (StatusActive, StatusRevoked)}"
      using Inr by (cases "cmd_Action cmd") (auto simp: applyDecisionAction_def applyTerminalDecisionAction_def
          terminalDecisionTransition_def split: if_splits)
    then show thesis using h by (intro terminated) auto
  qed
qed

lemma applyDecisionMutation_core:
  assumes "coreGrant uses g" "applyDecisionMutation g cmd validate now = (h, err)" "now \<noteq> 0" "validCommand cmd"
  shows "coreGrant uses h \<and> follows g h \<and> g_Revision h = g_Revision g"
  using assms(2)
proof (cases rule: applyDecisionMutation_cases)
  case (failed f)
  then show ?thesis using failed_core[OF assms(1) failed(3,4) assms(3,4)] by simp
next
  case approved
  then show ?thesis using approved_core[OF assms(1)] by simp
next
  case (terminated status)
  then show ?thesis using terminated_core[OF assms(1)] by simp
qed (simp add: assms(1))

section \<open>The whole operation\<close>

lemma revised_store:
  assumes "\<forall>g\<in>set gs. 1 \<le> g_Revision g" "\<forall>i p. map_of before i = Some p \<longrightarrow> 1 \<le> g_Revision p"
  shows "revised before gs"
  using assms by (auto simp: revised_def)

text \<open>The prepared state is a state the store could have saved.\<close>

lemma prepareOperatorDecision_moves:
  assumes "storeInv opts t stored" "clockIn t t' ck"
    and "prepareOperatorDecision opts ck stored = Inr (data, before, lifecycleChanged)"
  shows "storeMoves opts t stored data" "before = grantSnapshots (fd_Grants stored)"
proof -
  let ?p = "prepareLifecycle opts ck stored"
  have eq: "before = grantSnapshots (fd_Grants stored)"
    "data = (if snd ?p then fst (reconcileLifecycle opts ck (fst ?p) before) else fst ?p)"
    using assms(3) by (auto simp: prepareOperatorDecision_def storeInv_load[OF assms(1)] Let_def split: prod.splits)
  have "mutated opts t stored (fst ?p)"
    using assms(1,2) by (auto simp: storeInv_def intro: prepareLifecycle_mutated)
  from mutated_reconciled[OF assms(1) this] show "storeMoves opts t stored data"
    using eq prepareLifecycle_unchanged[of opts ck stored] assms(1) by (auto simp: storeMoves_def)
  show "before = grantSnapshots (fd_Grants stored)" by (rule eq(1))
qed

lemma snapshots_revised:
  assumes "storeInv opts t data" "map_of (grantSnapshots (fd_Grants data)) i = Some p"
  shows "1 \<le> g_Revision p"
  using assms snapshot_unique[of "fd_Grants data" i p] by (simp add: storeInv_def coreData_def)

lemma reconcileOperatorMutation_inv:
  assumes "coreData opts t data" "\<forall>g\<in>set (fd_Grants data). 1 \<le> g_Revision g"
    and "\<And>i p. map_of before i = Some p \<Longrightarrow> 1 \<le> g_Revision p" "1 \<le> g_Revision current"
  shows "storeMoves opts t data (reconcileOperatorMutation opts ck data before current lifecycleChanged)"
proof -
  have "revised before (fd_Grants data)" "revised (grantSnapshotsWith before current) (fd_Grants data)"
    using assms(2-4) by (auto intro!: revised_store simp: grantSnapshotsWith_def split: if_splits)
  then show ?thesis
    using reconcileLifecycle_inv[OF assms(1)] reconcileLifecycle_evolves[OF assms(1)]
    by (simp add: storeMoves_def reconcileOperatorMutation_def)
qed

lemma storeInv_records [simp]: "storeInv opts t (data\<lparr>fd_DecisionRecords := rs\<rparr>) = storeInv opts t data"
  by (simp add: storeInv_def coreData_def)

lemma commitOperatorDecision_moves:
  assumes "storeInv opts t stored" "clockIn t t' ck" "validCommand cmd"
    and "prepareOperatorDecision opts ck stored = Inr (data, before, lifecycleChanged)"
    and "findGrant (fd_Grants data) i = Inr (index, current)"
  shows "storeMoves opts t' stored
    (fst (commitOperatorDecision opts ck saves validate stored data before lifecycleChanged index current cmd scope h))"
proof -
  have prep: "storeMoves opts t stored data" "before = grantSnapshots (fd_Grants stored)"
    using prepareOperatorDecision_moves[OF assms(1,2,4)] by auto
  have inv: "storeInv opts t data" using prep(1) by (simp add: storeMoves_def)
  have le: "t \<le> t'" using clockIn_le[OF assms(2)] .
  have prep': "storeMoves opts t' stored data" using prep(1) storeMoves_refl[OF inv le] storeMoves_trans by blast
  have stay: "storeMoves opts t' stored stored" by (rule storeMoves_refl[OF assms(1) le])
  have k: "index < length (fd_Grants data)" "fd_Grants data ! index = current" "current \<in> set (fd_Grants data)"
    using findGrant_Inr[OF assms(5)] by auto
  have core: "coreData opts t data" "coreGrant (fd_Uses data) current" and rev: "1 \<le> g_Revision current"
    using inv k(3) by (simp_all add: storeInv_def coreData_def)
  have now: "ck_mutate ck \<noteq> 0" using core(1) assms(2) by (auto simp: coreData_def clockIn_def)
  obtain updated err where mut: "applyDecisionMutation current cmd validate (ck_mutate ck) = (updated, err)" by fastforce
  note upd = applyDecisionMutation_core[OF core(2) mut now assms(3)]
  let ?d1 = "data\<lparr>fd_Grants := (fd_Grants data)[index := updated]\<rparr>"
  have m: "mutated opts t' data ?d1" using upd k by (intro mutated_grant[OF core(1) le]) auto
  have revs: "\<forall>g\<in>set (fd_Grants ?d1). 1 \<le> g_Revision g"
    using upd rev inv by (auto simp: storeInv_def dest!: set_update_subset_insert[THEN subsetD])
  have "storeMoves opts t' ?d1 (reconcileOperatorMutation opts ck ?d1 before current lifecycleChanged)"
    using m revs rev snapshots_revised[OF assms(1)] prep(2)
    by (intro reconcileOperatorMutation_inv) (auto simp: mutated_def)
  then have "storeMoves opts t' stored (reconcileOperatorMutation opts ck ?d1 before current lifecycleChanged)"
    using prep' m by (auto simp: storeMoves_def mutated_def intro: evolves_trans)
  then show ?thesis
    using stay prep' by (auto simp: commitOperatorDecision_def mut saveDecisionError_def Let_def storeMoves_def)
qed

lemma saveDecisionError_state: "fst (saveDecisionError saves stored data changed e) \<in> {stored, data}"
  by (simp add: saveDecisionError_def)

lemma ApplyOperatorDecision_moves:
  assumes "storeInv opts t stored" "clockIn t t' ck"
  shows "storeMoves opts t' stored (fst (ApplyOperatorDecision opts ck saves hash validate cmd0 stored))"
proof (cases "normalizeOperatorDecision cmd0")
  case (Inl e)
  then show ?thesis using storeMoves_refl[OF assms(1) clockIn_le[OF assms(2)]] by (simp add: ApplyOperatorDecision_def)
next
  case (Inr cmd)
  note stay = storeMoves_refl[OF assms(1) clockIn_le[OF assms(2)]]
  show ?thesis
  proof (cases "prepareOperatorDecision opts ck stored")
    case (Inl e)
    then show ?thesis using stay Inr by (simp add: ApplyOperatorDecision_def)
  next
    case prep: (Inr r)
    obtain data before changed where r: "r = (data, before, changed)" by (cases r)
    note moves = prepareOperatorDecision_moves[OF assms prep[unfolded r]]
    have "storeMoves opts t' data data"
      using moves(1) by (intro storeMoves_refl[OF _ clockIn_le[OF assms(2)]]) (simp add: storeMoves_def)
    then have data: "storeMoves opts t' stored data" using moves(1) storeMoves_trans by blast
    have saved: "storeMoves opts t' stored (fst (saveDecisionError saves stored data changed e))" for e
      using saveDecisionError_state[of saves stored data changed e] stay data by auto
    have commit: "storeMoves opts t' stored (fst (commitOperatorDecision opts ck saves validate stored data before changed index current cmd scope h))"
      if "findGrant (fd_Grants data) (cmd_ID cmd) = Inr (index, current)" for index current scope h
      using commitOperatorDecision_moves[OF assms normalizeOperatorDecision_Inr[OF Inr] prep[unfolded r] that] .
    have "storeMoves opts t' stored (fst (applyPreparedOperatorDecision opts ck saves hash validate stored data before changed cmd))"
      using saved commit
      by (auto simp: applyPreparedOperatorDecision_def resolveOperatorDecisionGrant_def Let_def case_prod_beta
          split: option.splits sum.splits prod.splits)
    then show ?thesis by (simp add: ApplyOperatorDecision_def Inr prep r)
  qed
qed

end
