(* ===== verification/GrantStore.thy ===== *)
theory GrantStore
  imports GrantUseSteps GrantDecisionSteps GrantQuery
begin

text \<open>
  The store as a state machine: \<open>storeStep\<close> has one rule per operation of the store, \<open>reachable\<close> is what any
  sequence of operations can produce from an empty store. Every operation, also one that fails or whose save fails, keeps
  the invariant and moves each grant along its life; the properties below are what that means to the rest of the program.
\<close>

section \<open>Reading operations\<close>

text \<open>A reading operation leaves the state alone or saves the refreshed state.\<close>

lemma readers_state:
  assumes "load stored = Inr stored"
  shows "fst (Get opts ck saves i stored) \<in> {stored, fst (refreshed opts ck (expireDue (ck_expire ck)) stored)}"
    and "fst (ListGrants opts ck saves stored) \<in> {stored, fst (refreshed opts ck (expireDue (ck_expire ck)) stored)}"
    and "fst (ActivePolicyGrants opts ck saves stored) \<in> {stored, fst (refreshed opts ck (expireDue (ck_expire ck)) stored)}"
    and "fst (GetUse opts ck saves i r stored) \<in> {stored, fst (refreshed opts ck (prepareLifecycle opts ck) stored)}"
    and "fst (QueryGrants digest encode decodeData opts ck saves query stored)
      \<in> {stored, fst (refreshed opts ck (prepareLifecycle opts ck) stored)}"
  by (auto simp: Get_def ListGrants_def ActivePolicyGrants_def GetUse_def QueryGrants_def assms Let_def
      split: sum.splits prod.splits)

lemma reconcileDueLifecycle_state:
  assumes "load stored = Inr stored"
  shows "fst (reconcileDueLifecycle opts ck saves stored) \<in> {stored, fst (refreshed opts ck (prepareLifecycle opts ck) stored)}"
  by (auto simp: reconcileDueLifecycle_def refreshed_def assms Let_def split: prod.splits)

lemma reader_moves:
  assumes "storeInv opts t data" "clockIn t t' ck"
  shows "storeMoves opts t' data (fst (Get opts ck saves i data))"
    and "storeMoves opts t' data (fst (ListGrants opts ck saves data))"
    and "storeMoves opts t' data (fst (ActivePolicyGrants opts ck saves data))"
    and "storeMoves opts t' data (fst (GetUse opts ck saves i r data))"
    and "storeMoves opts t' data (fst (QueryGrants digest encode decodeData opts ck saves query data))"
    and "storeMoves opts t' data (fst (reconcileDueLifecycle opts ck saves data))"
  using readers_state[OF storeInv_load[OF assms(1)]] reconcileDueLifecycle_state[OF storeInv_load[OF assms(1)]]
    expiry.refresh_keeps[OF assms] preparation.refresh_keeps[OF assms] storeMoves_refl[OF assms(1) clockIn_le[OF assms(2)]]
  by (metis insertE singletonD)+

lemma ListForClient_moves:
  assumes "storeInv opts t data" "clockIn t t' ck"
  shows "storeMoves opts t' data (fst (ListForClient opts ck saves client data))"
  using reader_moves(2)[OF assms, of saves] by (auto simp: ListForClient_def split: prod.splits sum.splits)

section \<open>Writing operations\<close>

text \<open>Operations that end by reading the grant.\<close>

lemma then_get:
  assumes "storeMoves opts t1 data d1" "clockIn t1 t' ckGet"
    and "result = d1 \<or> (\<exists>j. result = fst (Get opts ckGet savesGet j d1))"
  shows "storeMoves opts t' data result"
proof -
  have inv: "storeInv opts t1 d1" using assms(1) by (simp add: storeMoves_def)
  then have "storeMoves opts t' d1 result"
    using assms(3) storeMoves_refl[OF inv clockIn_le[OF assms(2)]] reader_moves(1)[OF inv assms(2)] by auto
  then show ?thesis by (rule storeMoves_trans[OF assms(1)])
qed

lemma request_moves:
  assumes "storeInv opts t data" "clockIn t t1 ck" "clockIn t1 t' ckGet" "freshID newID (map g_ID (fd_Grants data))"
  shows "storeMoves opts t' data (fst (request opts ck ckGet saves savesGet newID req0 data))"
proof (cases "normalizeGrantRequest opts req0")
  case (Inl e)
  then show ?thesis
    using storeMoves_refl[OF assms(1)] clockIn_le[OF assms(2)] clockIn_le[OF assms(3)] by (simp add: request_def)
next
  case (Inr req)
  have norm: "normalized req"
    using normalizeGrantRequest_Inr[OF Inr] assms(1) by (simp add: storeInv_def coreData_def)
  obtain d1 r where eq: "updateWithPlan opts ck saves (requestMutation opts ck newID req) data = (d1, r)" by fastforce
  have u: "storeMoves opts t1 data d1"
    using requesting.update_keeps[OF assms(1,2), of "(newID, req)" saves] norm assms(4) eq by simp
  have "fst (request opts ck ckGet saves savesGet newID req0 data) = d1
    \<or> (\<exists>j. fst (request opts ck ckGet saves savesGet newID req0 data) = fst (Get opts ckGet savesGet j d1))"
  proof (cases r)
    case (Inl e)
    then show ?thesis by (simp add: request_def Inr eq)
  next
    case result: (Inr gc)
    obtain g c where gc: "gc = (g, c)" by fastforce
    show ?thesis
    proof (cases "g_ID g = []")
      case False
      then have "fst (request opts ck ckGet saves savesGet newID req0 data) = fst (Get opts ckGet savesGet (g_ID g) d1)"
        by (simp add: request_def Inr eq result gc split: prod.splits sum.splits)
      then show ?thesis by blast
    qed (simp add: request_def Inr eq result gc)
  qed
  then show ?thesis by (rule then_get[OF u assms(3)])
qed

lemma RequestWithPlan_moves:
  assumes "storeInv opts t data" "clockIn t t1 ck" "clockIn t1 t' ckGet" "freshID newID (map g_ID (fd_Grants data))"
  shows "storeMoves opts t' data (fst (RequestWithPlan opts ck ckGet saves savesGet sqlite newID req plan data))"
  using request_moves[OF assms] storeMoves_refl[OF assms(1)] clockIn_le[OF assms(2)] clockIn_le[OF assms(3)]
  by (auto simp: RequestWithPlan_def split: option.splits)

lemma Revoke_moves:
  assumes "storeInv opts t data" "clockIn t t1 ck" "clockIn t1 t' ckGet"
  shows "storeMoves opts t' data (fst (Revoke opts ck ckGet saves savesGet i approver data))"
proof -
  obtain d1 r where eq: "updateWithPlan opts ck saves (revokeMutation ck i approver) data = (d1, r)" by fastforce
  have u: "storeMoves opts t1 data d1"
    using revocation.update_keeps[OF assms(1,2), where arg = "(i, approver)" and saves = saves] eq by simp
  show ?thesis by (rule then_get[OF u assms(3)]) (cases r, auto simp: Revoke_def eq)
qed

lemma close_moves:
  assumes "storeInv opts t data" "clockIn t t' ck"
  shows "storeMoves opts t' data (fst (CancelForClient opts ck saves i client data))"
    and "storeMoves opts t' data (fst (RevokeForClient opts ck saves i client data))"
  using client_close.update_keeps[OF assms, of "(i, client, StatusPending, StatusCanceled)" saves]
    client_close.update_keeps[OF assms, of "(i, client, StatusActive, StatusRevoked)" saves]
  by (simp_all add: CancelForClient_def RevokeForClient_def closeForClient_def closing_def)

lemma RecordExecution_moves:
  assumes "storeInv opts t data" "clockIn t t' ck"
  shows "storeMoves opts t' data (fst (RecordExecution opts ck saves i kind data))"
  using execution.update_keeps[OF assms, where arg = "(i, kind)" and saves = saves] storeMoves_refl[OF assms(1) clockIn_le[OF assms(2)]]
  by (simp add: RecordExecution_update)

text \<open>Operations on uses end by reading the use.\<close>

lemma use_then_get:
  assumes "storeMoves opts t1 data (fst u)" "clockIn t1 t' ckGet"
    and "result = fst u \<or> result = fst (GetUse opts ckGet savesGet i r (fst u))"
  shows "storeMoves opts t' data result"
proof -
  have inv: "storeInv opts t1 (fst u)" using assms(1) by (simp add: storeMoves_def)
  then have "storeMoves opts t' (fst u) result"
    using assms(3) storeMoves_refl[OF inv clockIn_le[OF assms(2)]] reader_moves(4)[OF inv assms(2)] by auto
  then show ?thesis by (rule storeMoves_trans[OF assms(1)])
qed

lemma ReserveUse_moves:
  assumes "storeInv opts t data" "clockIn t t1 ck" "clockIn t1 t' ckGet"
  shows "storeMoves opts t' data (fst (ReserveUse opts ck ckGet saves savesGet grantID requestID operation data))"
proof (cases "validUseIdentity grantID requestID operation")
  case False
  then show ?thesis
    using storeMoves_refl[OF assms(1)] clockIn_le[OF assms(2)] clockIn_le[OF assms(3)] by (simp add: ReserveUse_def)
next
  case True
  then have "storeMoves opts t1 data (fst (updateWithPlan opts ck saves (reserveUse (ck_mutate ck) grantID requestID operation) data))"
    using reserving.update_keeps[OF assms(1,2), of "(grantID, requestID, operation)"] by simp
  then show ?thesis
    by (rule use_then_get[OF _ assms(3), where i = grantID and r = requestID and savesGet = savesGet])
      (auto simp: ReserveUse_def True split: prod.splits sum.splits)
qed

lemma settleUse_moves:
  assumes "storeInv opts t data" "clockIn t t1 ck" "clockIn t1 t' ckGet" "settling target"
  shows "storeMoves opts t' data (fst (settleUse opts ck ckGet saves savesGet grantID requestID target data))"
proof (cases "grantID = [] \<or> requestID = [] \<or> \<not> validUseState target")
  case True
  then show ?thesis
    using storeMoves_refl[OF assms(1)] clockIn_le[OF assms(2)] clockIn_le[OF assms(3)] by (auto simp: settleUse_def)
next
  case False
  have "storeMoves opts t1 data (fst (updateWithPlan opts ck saves (settleStoredUse (ck_mutate ck) grantID requestID target) data))"
    using settlement.update_keeps[OF assms(1,2), of "(grantID, requestID, target)"] assms(4) by simp
  then show ?thesis
    by (rule use_then_get[OF _ assms(3), where i = grantID and r = requestID and savesGet = savesGet])
      (use False in \<open>auto simp: settleUse_def split: prod.splits sum.splits\<close>)
qed

section \<open>The store as a state machine\<close>

inductive storeStep :: "Options \<Rightarrow> gotime \<times> fileData \<Rightarrow> gotime \<times> fileData \<Rightarrow> bool" for opts where
  requested: "clockIn t t1 ck \<Longrightarrow> clockIn t1 t' ckGet \<Longrightarrow> freshID newID (map g_ID (fd_Grants d)) \<Longrightarrow>
    storeStep opts (t, d) (t', fst (request opts ck ckGet saves savesGet newID req d))"
| planned: "clockIn t t1 ck \<Longrightarrow> clockIn t1 t' ckGet \<Longrightarrow> freshID newID (map g_ID (fd_Grants d)) \<Longrightarrow>
    storeStep opts (t, d) (t', fst (RequestWithPlan opts ck ckGet saves savesGet sqlite newID req plan d))"
| revoked: "clockIn t t1 ck \<Longrightarrow> clockIn t1 t' ckGet \<Longrightarrow>
    storeStep opts (t, d) (t', fst (Revoke opts ck ckGet saves savesGet i approver d))"
| canceled: "clockIn t t' ck \<Longrightarrow> storeStep opts (t, d) (t', fst (CancelForClient opts ck saves i client d))"
| clientRevoked: "clockIn t t' ck \<Longrightarrow> storeStep opts (t, d) (t', fst (RevokeForClient opts ck saves i client d))"
| reserved: "clockIn t t1 ck \<Longrightarrow> clockIn t1 t' ckGet \<Longrightarrow>
    storeStep opts (t, d) (t', fst (ReserveUse opts ck ckGet saves savesGet i r operation d))"
| committed: "clockIn t t1 ck \<Longrightarrow> clockIn t1 t' ckGet \<Longrightarrow>
    storeStep opts (t, d) (t', fst (CommitUse opts ck ckGet saves savesGet i r d))"
| released: "clockIn t t1 ck \<Longrightarrow> clockIn t1 t' ckGet \<Longrightarrow>
    storeStep opts (t, d) (t', fst (ReleaseUse opts ck ckGet saves savesGet i r d))"
| retained: "clockIn t t1 ck \<Longrightarrow> clockIn t1 t' ckGet \<Longrightarrow>
    storeStep opts (t, d) (t', fst (RetainUse opts ck ckGet saves savesGet i r d))"
| decided: "clockIn t t' ck \<Longrightarrow>
    storeStep opts (t, d) (t', fst (ApplyOperatorDecision opts ck saves hash validate cmd d))"
| recorded: "clockIn t t' ck \<Longrightarrow> storeStep opts (t, d) (t', fst (RecordExecution opts ck saves i kind d))"
| woken: "clockIn t t' ck \<Longrightarrow> storeStep opts (t, d) (t', fst (reconcileDueLifecycle opts ck saves d))"
| got: "clockIn t t' ck \<Longrightarrow> storeStep opts (t, d) (t', fst (Get opts ck saves i d))"
| gotUse: "clockIn t t' ck \<Longrightarrow> storeStep opts (t, d) (t', fst (GetUse opts ck saves i r d))"
| listed: "clockIn t t' ck \<Longrightarrow> storeStep opts (t, d) (t', fst (ListGrants opts ck saves d))"
| listedClient: "clockIn t t' ck \<Longrightarrow> storeStep opts (t, d) (t', fst (ListForClient opts ck saves client d))"
| offered: "clockIn t t' ck \<Longrightarrow> storeStep opts (t, d) (t', fst (ActivePolicyGrants opts ck saves d))"
| queried: "clockIn t t' ck \<Longrightarrow>
    storeStep opts (t, d) (t', fst (QueryGrants digest encode decodeData opts ck saves query d))"

lemma storeStep_moves:
  assumes "storeStep opts a b" "storeInv opts (fst a) (snd a)"
  shows "storeMoves opts (fst b) (snd a) (snd b)"
  using assms
  by (induction rule: storeStep.induct)
    (simp_all add: request_moves RequestWithPlan_moves Revoke_moves close_moves ReserveUse_moves settleUse_moves
      CommitUse_def ReleaseUse_def RetainUse_def settling_def ApplyOperatorDecision_moves RecordExecution_moves
      reader_moves ListForClient_moves)

inductive reachable :: "Options \<Rightarrow> gotime \<Rightarrow> fileData \<Rightarrow> bool" for opts where
  start: "0 < t \<Longrightarrow> reachable opts t emptyState"
| step: "reachable opts t d \<Longrightarrow> storeStep opts (t, d) (t', d') \<Longrightarrow> reachable opts t' d'"

lemma reachable_inv:
  assumes "reachable opts t d" "validOptions opts"
  shows "storeInv opts t d"
  using assms(1)
proof induction
  case (start t)
  then show ?case using emptyState_inv[OF assms(2)] by simp
next
  case (step t d t' d')
  then show ?case using storeStep_moves[OF step(2)] by (simp add: storeMoves_def)
qed

end
