(* ===== verification/GrantProperties.thy ===== *)
theory GrantProperties
  imports GrantStore
begin

text \<open>
  What the invariant of the grant store means: the state always loads, no grant is used beyond its budget, approvals only
  narrow requests, the bounds on pending requests and events hold, and grants move along their life only.
\<close>

section \<open>An example history\<close>

definition exampleStoreOptions :: Options where
  "exampleStoreOptions = defaultStoreBounds \<lparr>o_PendingTimeout = 0, o_DefaultDuration = 0, o_MaxDuration = 0,
     o_ReservationTimeout = 0, o_MaxEvents = 0, o_MaxPendingPerClient = 0, o_MaxPendingGlobal = 0\<rparr>"

definition exampleClock :: "gotime \<Rightarrow> Clock" where
  "exampleClock now =
     \<lparr>ck_expire = now, ck_retain = now, ck_again = now, ck_mutate = now, ck_event = (\<lambda>_. now), ck_commit = now\<rparr>"

definition exampleGrantRequest :: GrantRequest where
  "exampleGrantRequest =
     \<lparr>rq_Client = ''agent'', rq_ClientRequestID = ''r1'', rq_Operation = ''repo.push'',
      rq_Target = \<lparr>target_Kind = ''repo'', target_Fields = [(''name'', [''unyolo''])]\<rparr>, rq_Attrs = [], rq_Metadata = [],
      rq_Reason = ''fix'', rq_Duration = 0, rq_PendingTimeout = 0, rq_MaxUses = 0, rq_MaxUsesSpecified = False,
      rq_MaxUsesDefaulted = False\<rparr>"

definition exampleApproval :: OperatorDecision where
  "exampleApproval =
     \<lparr>cmd_ID = ''g1'', cmd_Action = ActionApprove, cmd_Approver = ''op'', cmd_OnBehalfOf = [], cmd_ExpectedRevision = 1,
      cmd_IdempotencyKey = ''k1'', cmd_Constraints = \<lparr>c_Duration = 0, c_MaxUses = 0, c_MaxUsesSpecified = False\<rparr>,
      cmd_CorrelationID = []\<rparr>"

definition exampleRequested :: fileData where
  "exampleRequested =
     fst (request exampleStoreOptions (exampleClock 10) (exampleClock 11) True True (Some ''g1'') exampleGrantRequest emptyState)"

definition exampleApproved :: fileData where
  "exampleApproved =
     fst (ApplyOperatorDecision exampleStoreOptions (exampleClock 20) True (\<lambda>_. ''h'') None exampleApproval exampleRequested)"

definition exampleReserved :: fileData where
  "exampleReserved =
     fst (ReserveUse exampleStoreOptions (exampleClock 30) (exampleClock 31) True True ''g1'' ''u1'' ''repo.push'' exampleApproved)"

lemma exampleStoreOptions_valid [simp]: "validOptions exampleStoreOptions"
  by (simp add: exampleStoreOptions_def defaultStoreBounds_valid)

lemma exampleClock_in [simp]: "clockIn t t' (exampleClock now) \<longleftrightarrow> t \<le> now \<and> now \<le> t'"
  by (auto simp: clockIn_def exampleClock_def)

lemma exampleRequested_step: "storeStep exampleStoreOptions (1, emptyState) (11, exampleRequested)"
  unfolding exampleRequested_def by (rule storeStep.requested[where ?t1.0 = 10]) (simp_all add: freshID_def emptyState_def)

lemma exampleRequested_reachable: "reachable exampleStoreOptions 11 exampleRequested"
  by (rule reachable.step[OF reachable.start exampleRequested_step]) simp

lemma exampleApproved_step: "storeStep exampleStoreOptions (11, exampleRequested) (20, exampleApproved)"
  unfolding exampleApproved_def by (rule storeStep.decided) simp

lemma exampleApproved_reachable: "reachable exampleStoreOptions 20 exampleApproved"
  by (rule reachable.step[OF exampleRequested_reachable exampleApproved_step])

lemma exampleReserved_step: "storeStep exampleStoreOptions (20, exampleApproved) (31, exampleReserved)"
  unfolding exampleReserved_def by (rule storeStep.reserved[where ?t1.0 = 30]) simp_all

lemma exampleReserved_reachable: "reachable exampleStoreOptions 31 exampleReserved"
  by (rule reachable.step[OF exampleApproved_reachable exampleReserved_step])

lemma exampleRequested_grant: "map g_ID (fd_Grants exampleRequested) = [''g1'']"
  by code_simp

section \<open>The state always loads\<close>

text \<open>
  C10. Every state that the operations of the store produce from an empty store, in any order, with
  any arguments, with operations that fail or cannot save, passes the validation that the next load performs: the store never
  locks itself out with \<^verbatim>\<open>ErrUnsupportedState\<close>. The hypotheses are that options have their defaults, that new identifiers are
  fresh and that the clock does not run backwards (all in \<open>storeStep\<close>).
\<close>

theorem reachable_loads:
  assumes "reachable opts t d" "validOptions opts"
  shows "load d = Inr d"
  using storeInv_load[OF reachable_inv[OF assms]] .

theorem reachable_loads_witness: "load exampleReserved = Inr exampleReserved"
  by (rule reachable_loads[OF exampleReserved_reachable exampleStoreOptions_valid])

section \<open>Budgets\<close>

text \<open>A record counts against the budget while it is reserved, retained or committed.\<close>

definition spends :: "string \<Rightarrow> GrantUse \<Rightarrow> bool" where
  "spends i u \<longleftrightarrow> u_GrantID u = i \<and> u_State u \<in> {UseReserved, UseRetained, UseCommitted}"

lemma spends_count:
  "int (length (filter (spends i) uses)) = committedUses i uses + reservedUses i uses"
  by (induction uses) (auto simp: spends_def committedUses_def reservedUses_def reservedState_def)

text \<open>
  C11. In every reachable state, the use records of a grant that are reserved, retained or
  committed never exceed its finite budget, and the budget itself never exceeds what was requested.
\<close>

theorem budget_never_exceeded:
  assumes "reachable opts t d" "validOptions opts" "g \<in> set (fd_Grants d)" "\<not> IsUnlimited (g_RequestedMaxUses g)"
  shows "int (length (filter (spends (g_ID g)) (fd_Uses d))) \<le> g_MaxUses g \<and> g_MaxUses g \<le> g_RequestedMaxUses g"
proof -
  have "coreGrant (fd_Uses d) g"
    using reachable_inv[OF assms(1,2)] assms(3) by (simp add: storeInv_def coreData_def)
  then show ?thesis
    using assms(4) by (auto simp: spends_count coreGrant_def aggregated_def grantInv_def limit_within limit_defs)
qed

theorem budget_never_exceeded_witness:
  "\<exists>g\<in>set (fd_Grants exampleRequested). int (length (filter (spends (g_ID g)) (fd_Uses exampleRequested))) \<le> g_MaxUses g
     \<and> g_MaxUses g \<le> g_RequestedMaxUses g"
proof -
  have "list_ex (\<lambda>g. \<not> IsUnlimited (g_RequestedMaxUses g)) (fd_Grants exampleRequested)" by code_simp
  then obtain g where "g \<in> set (fd_Grants exampleRequested)" "\<not> IsUnlimited (g_RequestedMaxUses g)" by (auto simp: list_ex_iff)
  then show ?thesis using budget_never_exceeded[OF exampleRequested_reachable exampleStoreOptions_valid] by blast
qed

section \<open>Approvals narrow requests\<close>

text \<open>
  C13. In every reachable state a grant lasts no longer than was requested; an active grant expires exactly its
  duration after the decision; a request that was denied, canceled or failed was never used, and a
  grant is consumed only when its budget is used up.
\<close>

theorem grants_stay_within_requests:
  assumes "reachable opts t d" "validOptions opts" "g \<in> set (fd_Grants d)"
  shows "g_Duration g \<le> g_RequestedDuration g
    \<and> (g_Status g = StatusActive \<longrightarrow> g_ExpiresAt g = g_DecidedAt g + g_Duration g)
    \<and> (g_Status g \<in> {StatusPending, StatusDenied, StatusFailed, StatusCanceled} \<longrightarrow> \<not> list_ex (spends (g_ID g)) (fd_Uses d))
    \<and> (g_Status g = StatusConsumed \<longrightarrow> Exhausted (g_MaxUses g) (g_UsedCount g))"
proof (intro conjI impI)
  have core: "coreGrant (fd_Uses d) g"
    using reachable_inv[OF assms(1,2)] assms(3) by (simp add: storeInv_def coreData_def)
  then have inv: "grantInv g" "aggregated (fd_Uses d) g" by (simp_all add: coreGrant_def)
  show "g_Duration g \<le> g_RequestedDuration g" using inv(1) by (simp add: grantInv_def)
  show "g_ExpiresAt g = g_DecidedAt g + g_Duration g" if "g_Status g = StatusActive" using inv(1) that by (simp add: grantInv_def)
  show "Exhausted (g_MaxUses g) (g_UsedCount g)" if "g_Status g = StatusConsumed" using inv(1) that by (simp add: grantInv_def)
  assume "g_Status g \<in> {StatusPending, StatusDenied, StatusFailed, StatusCanceled}"
  then have "g_UsedCount g = 0" "g_ReservedCount g = 0" using inv(1) by (auto simp: grantInv_def unused_def)
  then have "int (length (filter (spends (g_ID g)) (fd_Uses d))) = 0"
    using inv(2) by (simp add: spends_count aggregated_def)
  then show "\<not> list_ex (spends (g_ID g)) (fd_Uses d)" by (simp add: list_ex_iff filter_empty_conv)
qed

theorem grants_stay_within_requests_witness:
  "\<exists>g\<in>set (fd_Grants exampleRequested). g_Duration g \<le> g_RequestedDuration g \<and> \<not> list_ex (spends (g_ID g)) (fd_Uses exampleRequested)"
proof -
  have "list_ex (\<lambda>g. g_Status g = StatusPending) (fd_Grants exampleRequested)" by code_simp
  then obtain g where g: "g \<in> set (fd_Grants exampleRequested)" "g_Status g = StatusPending" by (auto simp: list_ex_iff)
  then show ?thesis
    using grants_stay_within_requests[OF exampleRequested_reachable exampleStoreOptions_valid g(1)] by auto
qed

section \<open>The life of a grant\<close>

text \<open>
  C12. No operation removes a grant or changes what was requested; its status only moves from pending to active, denied, failed,
  canceled or expired, from active to expired, revoked or consumed, and from expired to consumed when a late use settles;
  the other states are final; and a committed use is never taken back.
\<close>

theorem grants_live_once:
  assumes "reachable opts t d" "validOptions opts" "storeStep opts (t, d) (t', d')" "k < length (fd_Grants d)"
  shows "k < length (fd_Grants d') \<and> subject (fd_Grants d' ! k) = subject (fd_Grants d ! k)
    \<and> bounds (fd_Grants d' ! k) = bounds (fd_Grants d ! k)
    \<and> statusStep\<^sup>*\<^sup>* (g_Status (fd_Grants d ! k)) (g_Status (fd_Grants d' ! k))
    \<and> (terminal (g_Status (fd_Grants d ! k)) \<longrightarrow> g_Status (fd_Grants d' ! k) = g_Status (fd_Grants d ! k))
    \<and> g_UsedCount (fd_Grants d ! k) \<le> g_UsedCount (fd_Grants d' ! k)"
proof -
  have "storeMoves opts t' d d'"
    using storeStep_moves[OF assms(3)] reachable_inv[OF assms(1,2)] by simp
  then have "evolves (fd_Grants d) (fd_Grants d')" by (simp add: storeMoves_def)
  then have "k < length (fd_Grants d')" "follows (fd_Grants d ! k) (fd_Grants d' ! k)"
    using assms(4) by (auto simp: evolves_def)
  then show ?thesis by (auto simp: follows_def terminal_stays)
qed

theorem grants_live_once_witness:
  "0 < length (fd_Grants exampleApproved)
   \<and> statusStep\<^sup>*\<^sup>* (g_Status (fd_Grants exampleRequested ! 0)) (g_Status (fd_Grants exampleApproved ! 0))"
proof -
  have "length (map g_ID (fd_Grants exampleRequested)) = 1" by (simp only: exampleRequested_grant) simp
  then have "0 < length (fd_Grants exampleRequested)" by simp
  then show ?thesis
    using grants_live_once[OF exampleRequested_reachable exampleStoreOptions_valid exampleApproved_step] by blast
qed

section \<open>Capacity\<close>

text \<open>
  In every reachable state no client has more pending requests than \<^verbatim>\<open>MaxPendingPerClient\<close>, all clients together
  have at most \<^verbatim>\<open>MaxPendingGlobal\<close>, and the event log holds at most \<^verbatim>\<open>MaxEvents\<close> events in strictly increasing
  sequence order, all below the next sequence number.
\<close>

lemma capacity_bounds:
  assumes "reachable opts t d" "validOptions opts"
  shows "pendingCount (\<lambda>g. g_Client g = client) (fd_Grants d) \<le> o_MaxPendingPerClient opts
    \<and> pendingCount (\<lambda>_. True) (fd_Grants d) \<le> o_MaxPendingGlobal opts
    \<and> int (length (fd_Events d)) \<le> o_MaxEvents opts
    \<and> sorted_wrt (<) (map ev_Sequence (fd_Events d)) \<and> list_all (\<lambda>e. ev_Sequence e < fd_NextEvent d) (fd_Events d)"
  using reachable_inv[OF assms]
  by (auto simp: storeInv_def coreData_def pendingWithin_def pendingCount_def eventsOrdered_def list_all_iff)

lemma capacity_bounds_example:
  "pendingCount (\<lambda>g. g_Client g = ''agent'') (fd_Grants exampleReserved) \<le> o_MaxPendingPerClient exampleStoreOptions
   \<and> int (length (fd_Events exampleReserved)) \<le> o_MaxEvents exampleStoreOptions"
  using capacity_bounds[OF exampleReserved_reachable exampleStoreOptions_valid] by blast

end
