(* ===== verification/GrantOperations.thy ===== *)
theory GrantOperations
  imports GrantProperties
begin

text \<open>
  The behaviour of single operations of the grant store that its clients build on: retries are harmless, decisions are
  bound to the revision they were made on, and a repeated decision returns the recorded result.
\<close>

section \<open>Reservations can be retried\<close>

lemma findUseIndex_append:
  "findUseIndex us r = None \<Longrightarrow> u_RequestID u = r \<Longrightarrow> findUseIndex (us @ [u]) r = Some (length us, u)"
  by (induction us) (auto split: if_splits)

lemma findUseIndex_update:
  "findUseIndex us r = Some (m, u) \<Longrightarrow> u_RequestID v = r \<Longrightarrow> findUseIndex (us[m := v]) r = Some (m, v)"
  by (induction us arbitrary: m) (auto split: if_splits)

text \<open>
  Reserving is idempotent: once a reservation for a request identity has succeeded, asking again for the same grant and
  operation, at any later time, succeeds without acquiring anything and changes nothing.
\<close>

lemma reserve_retry:
  assumes "reserveUse now grantID requestID operation data = (data', Inr acquired)"
  shows "reserveUse now' grantID requestID operation data' = (data', Inr False)"
proof (cases "findUseIndex (fd_Uses data) requestID")
  case None
  then obtain k g where "findGrant (fd_Grants data) grantID = Inr (k, g)" "g_Operation g = operation" "grantCanUse g now"
    using assms by (auto simp: reserveUse_def reserveNewUse_def split: sum.splits prod.splits if_splits)
  then show ?thesis
    using assms None
    by (auto simp: reserveUse_def reserveNewUse_def reserveExistingUse_def Let_def findUseIndex_append)
next
  case (Some mu)
  obtain m u where mu: "mu = (m, u)" by fastforce
  have r: "u_RequestID u = requestID" using findUseIndex_Some[of "fd_Uses data" requestID m u] Some mu by simp
  have same: "u_GrantID u = grantID" "u_Operation u = operation"
    using assms Some mu by (auto simp: reserveUse_def reserveExistingUse_def split: if_splits)
  show ?thesis
  proof (cases "u_State u = UseReleased")
    case True
    then obtain k g where "findGrant (fd_Grants data) grantID = Inr (k, g)" "grantCanUse g now"
      using assms Some mu same by (auto simp: reserveUse_def reserveExistingUse_def split: sum.splits prod.splits if_splits)
    then show ?thesis
      using assms Some mu same True r
      by (auto simp: reserveUse_def reserveExistingUse_def Let_def findUseIndex_update)
  next
    case False
    then show ?thesis using assms Some mu same by (auto simp: reserveUse_def reserveExistingUse_def)
  qed
qed

section \<open>Decisions are bound to a revision\<close>

lemma commit_success:
  assumes "commitOperatorDecision opts ck saves validate stored data before changed index current cmd scope h = (stored', res, None)"
    and "index < length (fd_Grants data)"
  shows "odr_Previous res = current \<and> \<not> odr_Replay res \<and> saves
    \<and> (\<exists>updated. applyDecisionMutation current cmd validate (ck_mutate ck) = (updated, None)
        \<and> fd_DecisionRecords stored' = fd_DecisionRecords
            (reconcileOperatorMutation opts ck (data\<lparr>fd_Grants := (fd_Grants data)[index := updated]\<rparr>) before current changed)
            @ [\<lparr>dr_Scope = scope, dr_CommandHash = h, dr_Result = odr_Grant res, dr_Previous = current,
                dr_EventCursor = odr_EventCursor res, dr_FailureCode = CodeUnset, dr_FailureReference = [],
                dr_CommittedAt = ck_commit ck\<rparr>]
        \<and> odr_Grant res = fd_Grants stored' ! index
        \<and> fd_Grants stored' = fd_Grants
            (reconcileOperatorMutation opts ck (data\<lparr>fd_Grants := (fd_Grants data)[index := updated]\<rparr>) before current changed))"
proof -
  obtain updated err where mut: "applyDecisionMutation current cmd validate (ck_mutate ck) = (updated, err)" by fastforce
  have err: "err = None"
  proof (rule ccontr)
    assume "err \<noteq> None"
    then obtain e where e: "err = Some e" by blast
    then show False using assms(1)
      by (auto simp: commitOperatorDecision_def mut Let_def saveDecisionError_def split: if_splits)
  qed
  then show ?thesis
    using assms(1) by (auto simp: commitOperatorDecision_def mut Let_def split: if_splits)
qed

lemma saveDecisionError_None:
  "saveDecisionError saves stored data changed e = (s, None) \<Longrightarrow> e = None"
  by (auto simp: saveDecisionError_def split: if_splits)

lemma ApplyOperatorDecision_success:
  assumes "ApplyOperatorDecision opts ck saves hash validate cmd0 stored = (stored', res, None)" "\<not> odr_Replay res"
  obtains cmd data before changed index current where
    "normalizeOperatorDecision cmd0 = Inr cmd" "prepareOperatorDecision opts ck stored = Inr (data, before, changed)"
    "replayOperatorDecision (fd_DecisionRecords data) (decisionScope cmd) (hash cmd) = None"
    "findGrant (fd_Grants data) (cmd_ID cmd) = Inr (index, current)" "cmd_ExpectedRevision cmd = g_Revision current"
    "commitOperatorDecision opts ck saves validate stored data before changed index current cmd (decisionScope cmd) (hash cmd)
       = (stored', res, None)"
proof -
  obtain cmd where cmd: "normalizeOperatorDecision cmd0 = Inr cmd"
    using assms(1) by (cases "normalizeOperatorDecision cmd0") (auto simp: ApplyOperatorDecision_def)
  obtain data before changed where prep: "prepareOperatorDecision opts ck stored = Inr (data, before, changed)"
    using assms(1) cmd by (cases "prepareOperatorDecision opts ck stored") (auto simp: ApplyOperatorDecision_def)
  have app: "applyPreparedOperatorDecision opts ck saves hash validate stored data before changed cmd = (stored', res, None)"
    using assms(1) cmd prep by (simp add: ApplyOperatorDecision_def)
  have replay: "replayOperatorDecision (fd_DecisionRecords data) (decisionScope cmd) (hash cmd) = None"
  proof (rule ccontr)
    assume "\<not> ?thesis"
    then obtain r e where some: "replayOperatorDecision (fd_DecisionRecords data) (decisionScope cmd) (hash cmd) = Some (r, e)" by auto
    then have "e = None" "res = r"
      using app by (auto simp: applyPreparedOperatorDecision_def Let_def split: prod.splits dest: saveDecisionError_None)
    then show False using some assms(2) by (auto simp: replayOperatorDecision_def split: option.splits if_splits)
  qed
  obtain index current where found: "findGrant (fd_Grants data) (cmd_ID cmd) = Inr (index, current)"
    using app replay by (cases "findGrant (fd_Grants data) (cmd_ID cmd)")
      (auto simp: applyPreparedOperatorDecision_def resolveOperatorDecisionGrant_def Let_def saveDecisionError_def split: if_splits)
  have rev: "cmd_ExpectedRevision cmd = g_Revision current"
    using app replay found
    by (auto simp: applyPreparedOperatorDecision_def resolveOperatorDecisionGrant_def Let_def saveDecisionError_def failIf_def
        split: if_splits)
  show thesis
    using app replay found rev
    by (intro that[OF cmd prep replay found rev]) (simp add: applyPreparedOperatorDecision_def resolveOperatorDecisionGrant_def failIf_def)
qed

text \<open>What each action does to the status.\<close>

definition actionStep :: "DecisionAction \<Rightarrow> Status \<Rightarrow> Status \<Rightarrow> bool" where
  "actionStep action old new \<longleftrightarrow>
     (action, old, new) \<in> {(ActionApprove, StatusPending, StatusActive), (ActionDeny, StatusPending, StatusDenied),
                           (ActionRevoke, StatusActive, StatusRevoked)}"

lemma applyDecisionMutation_action:
  assumes "applyDecisionMutation g cmd validate now = (h, None)"
  shows "actionStep (cmd_Action cmd) (g_Status g) (g_Status h)" "g_ID h = g_ID g" "g_DecidedBy h = cmd_Approver cmd"
  using assms
  by (auto simp: applyDecisionMutation_def applyDecisionAction_def applyApprovalMutation_def applyTerminalDecisionAction_def
      terminalDecisionTransition_def actionStep_def applyApprovalConstraints_def Let_def
      split: sum.splits option.splits if_splits DecisionAction.splits prod.splits)

lemma bump_status [simp]: "g_Status (bump before g) = g_Status g" "g_ID (bump before g) = g_ID g"
  "g_DecidedBy (bump before g) = g_DecidedBy g"
  by (simp_all add: bump_def)

lemma reconcileOperatorMutation_grants:
  assumes "coreData opts t data"
  shows "fd_Grants (reconcileOperatorMutation opts ck data before current changed)
      = map (bump (if changed then grantSnapshotsWith before current else before)) (fd_Grants data)"
    and "fd_DecisionRecords (reconcileOperatorMutation opts ck data before current changed) = fd_DecisionRecords data"
  using reconcileLifecycle_core(2,5)[OF assms] by (simp_all add: reconcileOperatorMutation_def)

text \<open>The state in which a decision changed its grant is still sound.\<close>

lemma decision_core:
  assumes "storeInv opts t stored" "clockIn t t' ck" "normalizeOperatorDecision cmd0 = Inr cmd"
    and "prepareOperatorDecision opts ck stored = Inr (data, before, changed)"
    and "findGrant (fd_Grants data) i = Inr (index, current)"
    and "applyDecisionMutation current cmd validate (ck_mutate ck) = (updated, err)"
  shows "coreData opts t (data\<lparr>fd_Grants := (fd_Grants data)[index := updated]\<rparr>)"
proof -
  have inv: "storeInv opts t data"
    using prepareOperatorDecision_moves[OF assms(1,2,4)] by (simp add: storeMoves_def)
  have k: "index < length (fd_Grants data)" "fd_Grants data ! index = current" "current \<in> set (fd_Grants data)"
    using findGrant_Inr[OF assms(5)] by auto
  have core: "coreData opts t data" "coreGrant (fd_Uses data) current" using inv k(3) by (simp_all add: storeInv_def coreData_def)
  have "ck_mutate ck \<noteq> 0" using core(1) assms(2) by (auto simp: coreData_def clockIn_def)
  note upd = applyDecisionMutation_core[OF core(2) assms(6) this normalizeOperatorDecision_Inr[OF assms(3)]]
  show ?thesis using coreData_grant[OF core(1) k(1)] k(2) upd by simp
qed

text \<open>
  C20. A decision that is carried out, as opposed to replayed, was made on the current revision of the grant it names: approve
  turns a pending grant active, deny turns it denied, revoke ends an active one, the operator is recorded, and the changed grant is
  in the saved state. A decision on an older revision never takes effect.
\<close>

theorem decision_bound_to_revision:
  assumes "reachable opts t stored" "validOptions opts" "clockIn t t' ck"
    and "ApplyOperatorDecision opts ck saves hash validate cmd0 stored = (stored', res, None)" "\<not> odr_Replay res"
  shows "\<exists>cmd. normalizeOperatorDecision cmd0 = Inr cmd
    \<and> g_Revision (odr_Previous res) = cmd_ExpectedRevision cmd \<and> g_ID (odr_Grant res) = cmd_ID cmd
    \<and> g_ID (odr_Previous res) = cmd_ID cmd
    \<and> actionStep (cmd_Action cmd) (g_Status (odr_Previous res)) (g_Status (odr_Grant res))
    \<and> g_DecidedBy (odr_Grant res) = cmd_Approver cmd \<and> odr_Grant res \<in> set (fd_Grants stored')"
proof -
  note inv = reachable_inv[OF assms(1,2)]
  obtain cmd data before changed index current where
    cmd: "normalizeOperatorDecision cmd0 = Inr cmd" and prep: "prepareOperatorDecision opts ck stored = Inr (data, before, changed)"
    and found: "findGrant (fd_Grants data) (cmd_ID cmd) = Inr (index, current)" and rev: "cmd_ExpectedRevision cmd = g_Revision current"
    and commit: "commitOperatorDecision opts ck saves validate stored data before changed index current cmd (decisionScope cmd) (hash cmd)
       = (stored', res, None)"
    by (rule ApplyOperatorDecision_success[OF assms(4,5)]) blast
  have k: "index < length (fd_Grants data)" "g_ID current = cmd_ID cmd" using findGrant_Inr[OF found] by auto
  obtain updated where upd: "applyDecisionMutation current cmd validate (ck_mutate ck) = (updated, None)"
    and res: "odr_Previous res = current" "odr_Grant res = fd_Grants stored' ! index"
    and gs: "fd_Grants stored' = fd_Grants
      (reconcileOperatorMutation opts ck (data\<lparr>fd_Grants := (fd_Grants data)[index := updated]\<rparr>) before current changed)"
    using commit_success[OF commit k(1)] by blast
  note core = decision_core[OF inv assms(3) cmd prep found upd]
  have "odr_Grant res = bump (if changed then grantSnapshotsWith before current else before) updated"
    "index < length (fd_Grants stored')"
    unfolding res(2) gs reconcileOperatorMutation_grants(1)[OF core] using k(1) by simp_all
  moreover from this(2) have "odr_Grant res \<in> set (fd_Grants stored')" unfolding res(2) by (rule nth_mem)
  ultimately show ?thesis
    using cmd rev res(1) k applyDecisionMutation_action[OF upd] by auto
qed

text \<open>The state after the example request.\<close>

definition examplePending :: Grant where
  "examplePending =
     zeroGrant\<lparr>g_ID := ''g1'', g_Client := ''agent'', g_ClientRequestID := ''r1'', g_Operation := ''repo.push'',
       g_Target := \<lparr>target_Kind = ''repo'', target_Fields = [(''name'', [''unyolo''])]\<rparr>,
       g_Metadata := [(''grant_mode'', ''window'')], g_Reason := ''fix'', g_Status := StatusPending, g_Revision := 1,
       g_CreatedAt := 10, g_PendingExpiresAt := 300000000010, g_Duration := 300000000000,
       g_RequestedDuration := 300000000000, g_PendingTimeout := 300000000000, g_MaxUses := 1, g_RequestedMaxUses := 1,
       g_RequestedMaxUsesDefaulted := True\<rparr>"

definition exampleCreated :: lifecycleEventRecord where
  "exampleCreated =
     \<lparr>ev_Sequence = 1, ev_Kind = EventRequestCreated, ev_GrantID = ''g1'', ev_Status = StatusPending, ev_UsedCount = 0,
      ev_ReservedCount = 0, ev_Revision = 1, ev_Time = 10, ev_Approver = [], ev_PreviousStatus = StatusUnset,
      ev_PreviousRevision = 0, ev_ExpectedRevision = 0\<rparr>"

text \<open>Printable ASCII texts are safe identities and survive trimming.\<close>

lemma printable_safe:
  assumes "list_all (\<lambda>c. 33 \<le> byte c \<and> byte c < 127) s" "length s \<le> 200"
  shows "safeOperatorIdentity s"
proof -
  have "list_all (\<lambda>c. byte c < 128) s" using assms(1) by (auto simp: list_all_iff)
  then have "validUTF8 s" by (rule validUTF8_ascii)
  moreover have "noControlRunes s"
    using assms(1)
  proof (induction s)
    case (Cons c s)
    then show ?case by (subst noControlRunes.simps) (auto simp: runeWidth_ascii decodeRune_def isControl_def)
  qed (subst noControlRunes.simps, simp)
  ultimately show ?thesis using assms(2) by (simp add: safeOperatorIdentity_def maxApproverBytes_def)
qed

lemma printable_trim:
  assumes "list_all (\<lambda>c. 33 \<le> byte c \<and> byte c < 127) s"
  shows "trimSpace s = s"
proof -
  have space: "w \<noteq> [] \<Longrightarrow> \<not> (33 \<le> byte (hd w) \<and> byte (hd w) < 127)"
    if "w \<in> set spaceRunes \<or> w \<in> set (map rev spaceRunes)" for w
    using that by (auto simp: spaceRunes_def byte_def)
  have "stripLeading spaceRunes s = s"
    using assms space by (intro stripLeading_head) (cases s, auto)
  moreover have "stripLeading (map rev spaceRunes) (rev s) = rev s"
  proof (intro stripLeading_head)
    have "list_all (\<lambda>c. 33 \<le> byte c \<and> byte c < 127) (rev s)" using assms by simp
    then show "rev s = [] \<or> (\<forall>w\<in>set (map rev spaceRunes). w = [] \<or> hd w \<noteq> hd (rev s))"
      using space by (cases "rev s") auto
  qed
  ultimately show ?thesis by (simp add: trimSpace_def)
qed

lemma exampleApproval_normal: "normalizeOperatorDecision exampleApproval = Inr exampleApproval"
proof -
  have texts: "trimSpace ''g1'' = ''g1''" "trimSpace ''op'' = ''op''" "trimSpace ''k1'' = ''k1''"
    "safeOperatorIdentity ''op''" "safeOperatorIdentity ''k1''"
    by (rule printable_trim printable_safe; simp add: byte_def)+
  show ?thesis
    by (simp add: normalizeOperatorDecision_def exampleApproval_def texts operatorDecisionRequired_def
        validOperatorDecisionIdentities_def validOperatorDecisionReferences_def validOperatorAction_def validOperatorConstraints_def)
qed


lemma exampleRequested_literal:
  "exampleRequested =
     \<lparr>fd_Grants = [examplePending], fd_Uses = [], fd_Events = [exampleCreated], fd_NextEvent = 2, fd_DecisionRecords = []\<rparr>"
  by code_simp

lemma exampleApproval_prepared:
  "prepareOperatorDecision exampleStoreOptions (exampleClock 20) exampleRequested
     = Inr (exampleRequested, [(''g1'', examplePending)], False)"
  unfolding exampleRequested_literal by code_simp

lemma exampleApproval_mutation:
  "applyDecisionMutation examplePending exampleApproval None 20 =
     (examplePending\<lparr>g_Status := StatusActive, g_ExpiresAt := 300000000020, g_DecidedAt := 20, g_DecidedBy := ''op''\<rparr>, None)"
  by code_simp

lemma exampleApproval_outcome:
  "snd (snd (ApplyOperatorDecision exampleStoreOptions (exampleClock 20) True (\<lambda>_. ''h'') None exampleApproval exampleRequested)) = None"
  "\<not> odr_Replay (fst (snd (ApplyOperatorDecision exampleStoreOptions (exampleClock 20) True (\<lambda>_. ''h'') None exampleApproval exampleRequested)))"
proof -
  let ?commit = "commitOperatorDecision exampleStoreOptions (exampleClock 20) True None exampleRequested exampleRequested
    [(''g1'', examplePending)] False 0 examplePending exampleApproval (decisionScope exampleApproval) ''h''"
  have "replayOperatorDecision (fd_DecisionRecords exampleRequested) (decisionScope exampleApproval) ''h'' = None"
    by (simp add: exampleRequested_literal replayOperatorDecision_def findDecisionRecord_def)
  moreover have "resolveOperatorDecisionGrant (fd_Grants exampleRequested) exampleApproval = ((0, examplePending), None)"
    unfolding exampleRequested_literal by code_simp
  ultimately have eq: "ApplyOperatorDecision exampleStoreOptions (exampleClock 20) True (\<lambda>_. ''h'') None exampleApproval exampleRequested = ?commit"
    by (simp add: ApplyOperatorDecision_def exampleApproval_normal exampleApproval_prepared applyPreparedOperatorDecision_def)
  have "ck_mutate (exampleClock 20) = 20" by (simp add: exampleClock_def)
  then show "snd (snd (ApplyOperatorDecision exampleStoreOptions (exampleClock 20) True (\<lambda>_. ''h'') None exampleApproval exampleRequested)) = None"
    "\<not> odr_Replay (fst (snd (ApplyOperatorDecision exampleStoreOptions (exampleClock 20) True (\<lambda>_. ''h'') None exampleApproval exampleRequested)))"
    unfolding eq by (simp_all add: commitOperatorDecision_def exampleApproval_mutation Let_def)
qed

lemma exampleApproval_result:
  obtains res where
    "ApplyOperatorDecision exampleStoreOptions (exampleClock 20) True (\<lambda>_. ''h'') None exampleApproval exampleRequested
       = (exampleApproved, res, None)" "\<not> odr_Replay res"
  using exampleApproval_outcome by (metis exampleApproved_def prod.collapse)

theorem decision_bound_to_revision_witness:
  "\<exists>res. ApplyOperatorDecision exampleStoreOptions (exampleClock 20) True (\<lambda>_. ''h'') None exampleApproval exampleRequested
       = (exampleApproved, res, None)
     \<and> g_Revision (odr_Previous res) = 1 \<and> g_Status (odr_Grant res) = StatusActive"
proof -
  obtain res where res: "ApplyOperatorDecision exampleStoreOptions (exampleClock 20) True (\<lambda>_. ''h'') None exampleApproval exampleRequested
    = (exampleApproved, res, None)" "\<not> odr_Replay res" by (rule exampleApproval_result)
  have "clockIn 11 20 (exampleClock 20)" by simp
  then show ?thesis
    using decision_bound_to_revision[OF exampleRequested_reachable exampleStoreOptions_valid _ res] res(1) exampleApproval_normal
    by (auto simp: actionStep_def exampleApproval_def)
qed

section \<open>Decisions can be repeated\<close>

lemma prepare_records:
  assumes "prepareOperatorDecision opts ck stored = Inr (data, before, changed)" "storeInv opts t stored" "clockIn t t' ck"
  shows "fd_DecisionRecords data = fd_DecisionRecords stored"
proof -
  let ?p = "prepareLifecycle opts ck stored"
  have data: "data = (if snd ?p then fst (reconcileLifecycle opts ck (fst ?p) before) else fst ?p)"
    using assms(1) by (auto simp: prepareOperatorDecision_def storeInv_load[OF assms(2)] Let_def split: prod.splits)
  have "fd_DecisionRecords (fst ?p) = fd_DecisionRecords stored"
    by (simp add: prepareLifecycle_def case_prod_beta retainStale_fields expireDue_fields)
  moreover have "coreData opts t (fst ?p)"
    using prepareLifecycle_core(1)[OF _ assms(3)] assms(2) by (simp add: storeInv_def)
  ultimately show ?thesis using reconcileLifecycle_core(5)[of opts t "fst ?p" ck before] data by simp
qed

lemma replay_appended:
  assumes "replayOperatorDecision records scope h = None" "dr_Scope r = scope" "dr_CommandHash r = h"
  shows "replayOperatorDecision (records @ [r]) scope h =
    Some (\<lparr>odr_Grant = dr_Result r, odr_Previous = dr_Previous r, odr_EventCursor = dr_EventCursor r, odr_Replay = True\<rparr>,
          if dr_FailureCode r \<noteq> CodeUnset then Some (ErrActivation (Failure_New (dr_FailureCode r))) else None)"
proof -
  have "findDecisionRecord records scope = None"
    using assms(1) by (auto simp: replayOperatorDecision_def split: option.splits if_splits)
  then have "findDecisionRecord (records @ [r]) scope = Some r"
    using assms(2) by (simp add: findDecisionRecord_def find_snoc)
  then show ?thesis using assms(3) by (simp add: replayOperatorDecision_def)
qed

text \<open>
  A decision that was carried out can be sent again: the second call returns the recorded grant, its previous state and the
  event cursor, marked as a replay, without an error (unless the save of due lifecycle changes fails), whatever
  happened in between to the clock or to the activation check; and it adds no decision record.
\<close>

lemma decision_replay:
  assumes "reachable opts t stored" "validOptions opts" "clockIn t t' ck" "clockIn t' t'' ck2"
    and "ApplyOperatorDecision opts ck saves hash validate cmd0 stored = (stored', res, None)" "\<not> odr_Replay res"
  shows "fst (snd (ApplyOperatorDecision opts ck2 saves2 hash validate2 cmd0 stored')) = res\<lparr>odr_Replay := True\<rparr>
    \<and> (saves2 \<longrightarrow> snd (snd (ApplyOperatorDecision opts ck2 saves2 hash validate2 cmd0 stored')) = None)
    \<and> fd_DecisionRecords (fst (ApplyOperatorDecision opts ck2 saves2 hash validate2 cmd0 stored')) = fd_DecisionRecords stored'"
proof -
  note inv = reachable_inv[OF assms(1,2)]
  obtain cmd data before changed index current where
    cmd: "normalizeOperatorDecision cmd0 = Inr cmd" and prep: "prepareOperatorDecision opts ck stored = Inr (data, before, changed)"
    and none: "replayOperatorDecision (fd_DecisionRecords data) (decisionScope cmd) (hash cmd) = None"
    and found: "findGrant (fd_Grants data) (cmd_ID cmd) = Inr (index, current)"
    and commit: "commitOperatorDecision opts ck saves validate stored data before changed index current cmd (decisionScope cmd) (hash cmd)
       = (stored', res, None)"
    by (rule ApplyOperatorDecision_success[OF assms(5,6)]) blast
  have k: "index < length (fd_Grants data)" using findGrant_Inr[OF found] by auto
  note success = commit_success[OF commit k]
  obtain updated where upd: "applyDecisionMutation current cmd validate (ck_mutate ck) = (updated, None)"
    and res: "odr_Previous res = current" "\<not> odr_Replay res"
    and recs: "fd_DecisionRecords stored' = fd_DecisionRecords
            (reconcileOperatorMutation opts ck (data\<lparr>fd_Grants := (fd_Grants data)[index := updated]\<rparr>) before current changed)
            @ [\<lparr>dr_Scope = decisionScope cmd, dr_CommandHash = hash cmd, dr_Result = odr_Grant res, dr_Previous = current,
                dr_EventCursor = odr_EventCursor res, dr_FailureCode = CodeUnset, dr_FailureReference = [],
                dr_CommittedAt = ck_commit ck\<rparr>]"
    using success by blast
  note core = decision_core[OF inv assms(3) cmd prep found upd]
  have recs': "fd_DecisionRecords stored' = fd_DecisionRecords data
            @ [\<lparr>dr_Scope = decisionScope cmd, dr_CommandHash = hash cmd, dr_Result = odr_Grant res, dr_Previous = current,
                dr_EventCursor = odr_EventCursor res, dr_FailureCode = CodeUnset, dr_FailureReference = [],
                dr_CommittedAt = ck_commit ck\<rparr>]"
    unfolding recs reconcileOperatorMutation_grants(2)[OF core] by simp
  have replay: "replayOperatorDecision (fd_DecisionRecords stored') (decisionScope cmd) (hash cmd) = Some (res\<lparr>odr_Replay := True\<rparr>, None)"
    unfolding recs' by (subst replay_appended[OF none]) (simp_all add: res(1)[symmetric])
  have inv': "storeInv opts t' stored'"
    using ApplyOperatorDecision_moves[OF inv assms(3), of saves hash validate cmd0] assms(5) by (simp add: storeMoves_def)
  have "\<exists>r. prepareOperatorDecision opts ck2 stored' = Inr r"
    by (simp add: prepareOperatorDecision_def storeInv_load[OF inv'] case_prod_beta Let_def)
  then obtain data2 before2 changed2 where prep2: "prepareOperatorDecision opts ck2 stored' = Inr (data2, before2, changed2)"
    by (metis prod_cases3)
  note same = prepare_records[OF prep2 inv' assms(4)]
  have "ApplyOperatorDecision opts ck2 saves2 hash validate2 cmd0 stored' =
    (let (s, e) = saveDecisionError saves2 stored' data2 changed2 None in (s, res\<lparr>odr_Replay := True\<rparr>, e))"
    by (simp add: ApplyOperatorDecision_def cmd prep2 applyPreparedOperatorDecision_def same replay)
  then show ?thesis using same by (cases saves2; simp add: saveDecisionError_def)
qed

lemma decision_replay_example:
  "odr_Replay (fst (snd (ApplyOperatorDecision exampleStoreOptions (exampleClock 25) True (\<lambda>_. ''h'') None exampleApproval exampleApproved)))
   \<and> snd (snd (ApplyOperatorDecision exampleStoreOptions (exampleClock 25) True (\<lambda>_. ''h'') None exampleApproval exampleApproved)) = None"
proof -
  obtain res where res: "ApplyOperatorDecision exampleStoreOptions (exampleClock 20) True (\<lambda>_. ''h'') None exampleApproval exampleRequested
    = (exampleApproved, res, None)" "\<not> odr_Replay res" by (rule exampleApproval_result)
  have clocks: "clockIn 11 20 (exampleClock 20)" "clockIn 20 25 (exampleClock 25)" by simp_all
  show ?thesis
    using decision_replay[OF exampleRequested_reachable exampleStoreOptions_valid clocks res, of True None] by simp
qed

section \<open>A refused decision on a failed request\<close>

lemma appendEvents_records:
  "fd_DecisionRecords (fold (\<lambda>kind d. appendLifecycleEvent opts ck kind g p d) kinds data) = fd_DecisionRecords data"
  by (induction kinds arbitrary: data) (simp_all add: appendLifecycleEvent_def Let_def)

lemma reconcileLoop_records:
  "fd_DecisionRecords (fst (snd (reconcileLoop opts ck before gs data))) = fd_DecisionRecords data"
  by (induction gs arbitrary: data) (simp_all add: Let_def case_prod_beta appendEvents_records)

lemma reconcileLifecycle_records:
  "fd_DecisionRecords (fst (reconcileLifecycle opts ck data before)) = fd_DecisionRecords data"
  by (simp add: reconcileLifecycle_def case_prod_beta reconcileLoop_records)

definition exampleFailed :: fileData where
  "exampleFailed =
     \<lparr>fd_Grants = [examplePending\<lparr>g_Status := StatusFailed, g_Revision := 2, g_FailureCode := CodePlanMismatch, g_FailedAt := 20\<rparr>],
      fd_Uses = [], fd_Events = [], fd_NextEvent = 3, fd_DecisionRecords = []\<rparr>"

definition exampleDenial :: OperatorDecision where
  "exampleDenial = exampleApproval\<lparr>cmd_Action := ActionDeny, cmd_ExpectedRevision := 2\<rparr>"



section \<open>Witness of the reservation retry\<close>

definition exampleActive :: fileData where
  "exampleActive =
     \<lparr>fd_Grants = [examplePending\<lparr>g_Status := StatusActive, g_Revision := 2, g_ExpiresAt := 300000000020, g_DecidedAt := 20\<rparr>],
      fd_Uses = [], fd_Events = [], fd_NextEvent = 3, fd_DecisionRecords = []\<rparr>"

lemma exampleActive_reserves:
  "reserveUse 30 ''g1'' ''u1'' ''repo.push'' exampleActive = (fst (reserveUse 30 ''g1'' ''u1'' ''repo.push'' exampleActive), Inr True)"
  by code_simp

section \<open>Requests can be retried\<close>

lemma expired_stable [simp]:
  "g_Client (expired now g) = g_Client g" "g_ClientRequestID (expired now g) = g_ClientRequestID g"
  "g_ID (expired now g) = g_ID g" "g_Status (expired now g) = StatusCanceled \<longleftrightarrow> g_Status g = StatusCanceled"
  "sameGrantRequest (expired now g) req = sameGrantRequest g req"
  by (auto simp: expired_def expireGrant_def sameGrantRequest_def sameRequestBounds_def)

lemma find_map: "List.find P (map f xs) = map_option f (List.find (P \<circ> f) xs)"
  by (induction xs) auto

lemma findIdempotent_expired:
  "findIdempotent (map (expired now) gs) req = map_option (expired now) (findIdempotent gs req)"
  by (simp add: findIdempotent_def find_map comp_def)

lemma isMap_slices_refl: "isMap m \<Longrightarrow> StringSliceMapsEqual m m"
  by (auto simp: StringSliceMapsEqual_def list_all_iff StringSlicesEqual_def isMap_lookup)

lemma isMap_strings_refl: "isMap m \<Longrightarrow> stringMapsEqual m m"
  by (auto simp: stringMapsEqual_def list_all_iff stringAt_def isMap_lookup)

lemma newGrant_same:
  assumes "isMap (target_Fields (rq_Target req))" "isMap (rq_Attrs req)" "isMap (rq_Metadata req)"
  shows "sameGrantRequest (newGrant i now req) req"
  using assms by (simp add: newGrant_def sameGrantRequest_def sameRequestBounds_def targetEqual_def isMap_slices_refl isMap_strings_refl)

text \<open>
  A request with a client request identifier can be sent again: once it has produced or found a grant, the same
  request finds that grant, creates none and needs no capacity or fresh identifier, also when the grant has lapsed meanwhile.
\<close>

lemma request_retry:
  assumes "requestMutation opts ck newID req data = (data', Inr (grant, created))" "rq_ClientRequestID req \<noteq> []"
    and "isMap (target_Fields (rq_Target req))" "isMap (rq_Attrs req)" "isMap (rq_Metadata req)"
  shows "\<exists>data'' grant'. requestMutation opts ck2 newID2 req data' = (data'', Inr (grant', False))
    \<and> g_ID grant' = g_ID grant \<and> length (fd_Grants data'') = length (fd_Grants data')"
proof -
  have found: "findIdempotent (fd_Grants data') req = Some grant \<and> sameGrantRequest grant req"
  proof (cases "findIdempotent (fd_Grants (fst (expireDue (ck_again ck) data))) req")
    case None
    then obtain i where i: "grant = newGrant i (ck_mutate ck) req"
      "fd_Grants data' = fd_Grants (fst (expireDue (ck_again ck) data)) @ [grant]"
      using assms(1) by (auto simp: requestMutation_def Let_def case_prod_beta split: if_splits option.splits)
    have "g_Client grant = rq_Client req" "g_ClientRequestID grant = rq_ClientRequestID req" "g_Status grant \<noteq> StatusCanceled"
      by (simp_all add: i newGrant_def)
    then have "findIdempotent (fd_Grants data') req = Some grant"
      using None assms(2) by (simp add: i(2) findIdempotent_def find_snoc)
    then show ?thesis using newGrant_same[OF assms(3-5)] i(1) by simp
  next
    case (Some g)
    then show ?thesis
      using assms(1) by (auto simp: requestMutation_def Let_def case_prod_beta split: if_splits)
  qed
  then have "findIdempotent (fd_Grants (fst (expireDue (ck_again ck2) data'))) req = Some (expired (ck_again ck2) grant)"
    "sameGrantRequest (expired (ck_again ck2) grant) req"
    by (simp_all add: expireDue_fields findIdempotent_expired)
  then show ?thesis by (simp add: requestMutation_def Let_def case_prod_beta) (simp add: expireDue_fields)
qed

end
