(* ===== verification/GrantFeed.thy ===== *)
theory GrantFeed
  imports GrantOperations
begin

text \<open>
  The event feed and the operator inbox as their readers see them: cursors read back exactly, following the
  cursors of event pages and of grant pages misses nothing and repeats nothing.
\<close>

section \<open>Event cursors\<close>

lemma sextetIndex_nth: "k < 64 \<Longrightarrow> sextetIndex base64Chars (base64Chars ! k) = Some k"
proof -
  assume "k < 64"
  moreover have "list_all (\<lambda>k. sextetIndex base64Chars (base64Chars ! k) = Some k) [0..<64]" by code_simp
  ultimately show ?thesis by (simp add: list_all_iff)
qed

lemma sextetIndex_sextet: "sextetIndex base64Chars (sextet n) = Some (n mod 64)"
  by (simp add: sextet_def sextetIndex_nth)

lemma sextet_printable: "sextet n \<noteq> CHR 0x0D \<and> sextet n \<noteq> CHR 0x0A"
proof -
  have "length base64Chars = 64" "list_all (\<lambda>c. c \<noteq> CHR 0x0D \<and> c \<noteq> CHR 0x0A) base64Chars" by code_simp+
  then show ?thesis using nth_mem[of "n mod 64" base64Chars] by (auto simp: sextet_def list_all_iff)
qed

text \<open>The digits of a number in base 64, most significant first.\<close>

fun sextetDigits :: "nat \<Rightarrow> nat \<Rightarrow> string" where
  "sextetDigits 0 y = []"
| "sextetDigits (Suc n) y = sextet (y div 64 ^ n) # sextetDigits n y"

lemma sextetsValue_digits: "sextetsValue acc (sextetDigits n y) = Some (acc * 64 ^ n + y mod 64 ^ n)"
proof (induction n arbitrary: acc)
  case (Suc n)
  have "y mod 64 ^ Suc n = (y div 64 ^ n) mod 64 * 64 ^ n + y mod 64 ^ n"
    using mod_mult2_eq[of y "64 ^ n" 64] by (simp add: mult.commute)
  then show ?case using Suc by (simp add: sextetIndex_sextet algebra_simps)
qed simp

lemma sextetDigits_map: "sextetDigits n y = map (\<lambda>i. sextet (y div 64 ^ (n - 1 - i))) [0..<n]"
proof (induction n)
  case (Suc n)
  have "[0..<Suc n] = 0 # map Suc [0..<n]" by (simp add: upt_conv_Cons map_Suc_upt del: upt_Suc)
  then show ?case using Suc by (simp del: upt_Suc)
qed simp

lemma sextet_cong: "m mod 64 = n mod 64 \<Longrightarrow> sextet m = sextet n"
  by (simp add: sextet_def)

lemma encodeEventCursor_digits:
  assumes "n < 2 ^ 64"
  shows "encodeEventCursor n = sextetDigits 11 (4 * n)"
proof -
  have shift: "n div 2 ^ (58 - 6 * i) = 4 * n div 64 ^ (10 - i)" if "i < 10" for i
  proof -
    have "(64::nat) ^ (10 - i) = 2 ^ (6 * (10 - i))" by (simp add: power_mult)
    also have "6 * (10 - i) = (58 - 6 * i) + 2" using that by simp
    finally have "(64::nat) ^ (10 - i) = 2 ^ (58 - 6 * i) * 4" by (simp only: power_add) simp
    then show ?thesis by (simp add: div_mult2_eq mult.commute)
  qed
  have "encodeEventCursor n = map (\<lambda>i. sextet (4 * n div 64 ^ (10 - i))) [0..<10] @ [sextet (n mod 16 * 4)]"
    using assms by (simp add: encodeEventCursor_def shift)
  also have "sextet (n mod 16 * 4) = sextet (4 * n div 64 ^ 0)"
    using mod_mult_mult1[of 4 n 16] by (intro sextet_cong) (simp add: mult.commute)
  finally have "encodeEventCursor n = map (\<lambda>i. sextet (4 * n div 64 ^ (11 - 1 - i))) ([0..<10] @ [10])" by simp
  also have "[0..<10] @ [10] = [0..<11::nat]" using upt_Suc_append[of 0 10] by simp
  finally show ?thesis by (simp only: sextetDigits_map)
qed

lemma eventCursor_decode:
  assumes "n < 2 ^ 64"
  shows "decodeEventCursor (encodeEventCursor n) = Inr n"
proof -
  have digits: "length (sextetDigits m y) = m" "filter (\<lambda>c. c \<noteq> CHR 0x0D \<and> c \<noteq> CHR 0x0A) (sextetDigits m y) = sextetDigits m y" for m y
    by (induction m) (auto simp: sextet_printable)
  have "4 * n < 64 ^ 11" using assms by (simp add: power_mult[symmetric])
  then have "sextetsValue 0 (sextetDigits 11 (4 * n)) = Some (4 * n)" by (subst sextetsValue_digits) simp
  moreover have "sextetDigits 11 (4 * n) \<noteq> []" using digits(1)[of 11 "4 * n"] by auto
  ultimately show ?thesis
    by (simp add: decodeEventCursor_def encodeEventCursor_digits[OF assms] digits Let_def)
qed

text \<open>
  The text form of an event cursor reads back as the sequence number it was made from, for every 64-bit sequence number.
\<close>

lemma eventCursor_roundtrip:
  assumes "n < 2 ^ 64"
  shows "decodeEventCursor (encodeEventCursor n) = Inr n"
  by (rule eventCursor_decode[OF assms])

lemma eventCursor_roundtrip_example: "decodeEventCursor (encodeEventCursor 258) = Inr 258"
  by (rule eventCursor_roundtrip) simp

section \<open>Event pages\<close>

definition eventsSince :: "nat \<Rightarrow> fileData \<Rightarrow> lifecycleEventRecord list" where
  "eventsSince s d = filter (\<lambda>e. s < ev_Sequence e) (fd_Events d)"

lemma eventPageAfter_since:
  assumes "1 \<le> l"
  shows "page_Events (eventPageAfter (fd_Events d) s l) = map publicEvent (take (nat l) (eventsSince s d))"
    and "page_HasMore (eventPageAfter (fd_Events d) s l) \<longleftrightarrow> l < int (length (eventsSince s d))"
    and "page_NextCursor (eventPageAfter (fd_Events d) s l) =
      (if eventsSince s d = [] then [] else encodeEventCursor (ev_Sequence (last (take (nat l) (eventsSince s d)))))"
proof -
  let ?r = "take (nat l + 1) (eventsSince s d)"
  have more: "l < int (length ?r) \<longleftrightarrow> l < int (length (eventsSince s d))" using assms by auto
  have shown: "(if l < int (length ?r) then take (nat l) ?r else ?r) = take (nat l) (eventsSince s d)"
    using assms by (auto simp: min_def)
  have empty: "take (nat l) (eventsSince s d) = [] \<longleftrightarrow> eventsSince s d = []" using assms by auto
  show "page_Events (eventPageAfter (fd_Events d) s l) = map publicEvent (take (nat l) (eventsSince s d))"
    "page_HasMore (eventPageAfter (fd_Events d) s l) \<longleftrightarrow> l < int (length (eventsSince s d))"
    "page_NextCursor (eventPageAfter (fd_Events d) s l) =
      (if eventsSince s d = [] then [] else encodeEventCursor (ev_Sequence (last (take (nat l) (eventsSince s d)))))"
    unfolding eventPageAfter_def eventsSince_def[symmetric] Let_def shown more empty using assms by simp_all
qed

lemma last_take_in: "0 < k \<Longrightarrow> xs \<noteq> [] \<Longrightarrow> last (take k xs) \<in> set xs"
  by (metis in_set_takeD last_in_set not_gr_zero take_eq_Nil)

lemma sorted_filter_after:
  assumes "sorted_wrt (<) (map ev_Sequence es)" "0 < k" "es \<noteq> []"
  shows "filter (\<lambda>e. ev_Sequence (last (take k es)) < ev_Sequence e) es = drop k es"
  using assms
proof (induction k arbitrary: es)
  case (Suc k)
  obtain e rest where es: "es = e # rest" using Suc.prems(3) by (cases es) auto
  show ?case
  proof (cases "k = 0 \<or> rest = []")
    case True
    then show ?thesis using Suc.prems(1) by (auto simp: es filter_id_conv)
  next
    case False
    then have "last (take (Suc k) es) = last (take k rest)" "last (take k rest) \<in> set rest"
      using last_take_in[of k rest] by (auto simp: es)
    moreover have "ev_Sequence e < ev_Sequence x" if "x \<in> set rest" for x using Suc.prems(1) that by (simp add: es)
    ultimately show ?thesis using Suc.IH[of rest] Suc.prems(1) False by (auto simp: es not_less order.strict_implies_order)
  qed
qed simp

lemma eventsSince_last:
  assumes "sorted_wrt (<) (map ev_Sequence (fd_Events d))" "eventsSince s d \<noteq> []" "0 < k"
  shows "eventsSince (ev_Sequence (last (take k (eventsSince s d)))) d = drop k (eventsSince s d)"
proof -
  let ?e = "last (take k (eventsSince s d))"
  have "?e \<in> set (eventsSince s d)" using assms(2,3) by (intro last_take_in)
  then have s: "s < ev_Sequence ?e" by (auto simp: eventsSince_def)
  have "sorted_wrt (<) (map ev_Sequence (eventsSince s d))"
    using assms(1) by (simp add: eventsSince_def sorted_wrt_map sorted_wrt_filter)
  from sorted_filter_after[OF this assms(3,2)] have "filter (\<lambda>e. ev_Sequence ?e < ev_Sequence e) (eventsSince s d) = drop k (eventsSince s d)" .
  moreover have "eventsSince (ev_Sequence ?e) d = filter (\<lambda>e. ev_Sequence ?e < ev_Sequence e) (eventsSince s d)"
    using s by (auto simp: eventsSince_def intro!: filter_cong)
  ultimately show ?thesis by simp
qed

lemma EventsAfter_Inr:
  assumes "EventsAfter cursor limit d = Inr page"
  obtains s l start where "decodeEventCursor cursor = Inr s" "normalizeEventLimit limit = Inr l" "1 \<le> l" "load d = Inr d"
    "eventStartingSequence (fd_Events d) cursor s = Inr start" "page = eventPageAfter (fd_Events d) start l"
proof -
  obtain s l data start where "decodeEventCursor cursor = Inr s" "normalizeEventLimit limit = Inr l" "load d = Inr data"
    "eventStartingSequence (fd_Events data) cursor s = Inr start" "page = eventPageAfter (fd_Events data) start l"
    using assms by (auto simp: EventsAfter_def normalizeEventRequest_def)
  moreover have "data = d" using \<open>load d = Inr data\<close> by (simp add: load_iff)
  moreover have "1 \<le> l" using \<open>normalizeEventLimit limit = Inr l\<close> by (auto simp: normalizeEventLimit_def split: if_splits)
  ultimately show thesis using that by blast
qed


lemma exampleRequested_loads: "load exampleRequested = Inr exampleRequested"
  using storeInv_load[OF reachable_inv[OF exampleRequested_reachable exampleStoreOptions_valid]] .


section \<open>Pages of the inbox\<close>

text \<open>Newest first: the order of \<^verbatim>\<open>compareGrantsNewestFirst\<close> on creation time and identifier.\<close>

definition newer :: "Grant \<Rightarrow> Grant \<Rightarrow> bool" where
  "newer g h \<longleftrightarrow> g_CreatedAt h < g_CreatedAt g \<or> (g_CreatedAt h = g_CreatedAt g \<and> g_ID h \<le> g_ID g)"

lemma compareGrants_newer: "compareGrantsNewestFirst g h \<le> 0 \<longleftrightarrow> newer g h"
  by (auto simp: compareGrantsNewestFirst_def newer_def)

lemma newer_total: "newer g h \<or> newer h g"
  by (auto simp: newer_def)

lemma newer_trans: "newer a b \<Longrightarrow> newer b c \<Longrightarrow> newer a c"
  by (auto simp: newer_def)

lemma newer_refl [simp]: "newer g g"
  by (simp add: newer_def)

definition insertGrant :: "Grant \<Rightarrow> Grant list \<Rightarrow> Grant list" where
  "insertGrant = insertFunc compareGrantsNewestFirst"

lemma insertGrant_simps [simp]:
  "insertGrant g [] = [g]" "insertGrant g (h # hs) = (if newer g h then g # h # hs else h # insertGrant g hs)"
  by (simp_all add: insertGrant_def compareGrants_newer)

lemma set_insertGrant [simp]: "set (insertGrant g hs) = insert g (set hs)"
  by (induction hs) auto

lemma sorted_insertGrant: "sorted_wrt newer hs \<Longrightarrow> sorted_wrt newer (insertGrant g hs)"
  by (induction hs) (auto intro: newer_trans, use newer_total in blast)

lemma insertGrant_front: "\<forall>h\<in>set hs. newer g h \<Longrightarrow> insertGrant g hs = g # hs"
  by (cases hs) auto

lemma filter_insertGrant:
  "sorted_wrt newer hs \<Longrightarrow> filter P (insertGrant g hs) = (if P g then insertGrant g (filter P hs) else filter P hs)"
proof (induction hs)
  case (Cons h hs)
  then have "newer g h \<Longrightarrow> insertGrant g (filter P hs) = g # filter P hs"
    by (intro insertGrant_front) (auto intro: newer_trans)
  then show ?case using Cons by auto
qed simp

definition sortedGrants :: "Grant list \<Rightarrow> Grant list" where
  "sortedGrants gs = sortFunc compareGrantsNewestFirst gs"

lemma sortedGrants_simps [simp]: "sortedGrants [] = []" "sortedGrants (g # gs) = insertGrant g (sortedGrants gs)"
  by (simp_all add: sortedGrants_def sortFunc_def insertGrant_def)

lemma sortedGrants_sorted: "sorted_wrt newer (sortedGrants gs)"
  by (induction gs) (auto intro: sorted_insertGrant)

lemma set_sortedGrants [simp]: "set (sortedGrants gs) = set gs"
  by (induction gs) auto

lemma filter_sortedGrants: "filter P (sortedGrants gs) = sortedGrants (filter P gs)"
  by (induction gs) (auto simp: filter_insertGrant sortedGrants_sorted)

lemma length_insertGrant [simp]: "length (insertGrant g hs) = Suc (length hs)"
  by (induction hs) auto

lemma length_sortedGrants [simp]: "length (sortedGrants gs) = length gs"
  by (induction gs) auto

lemma distinct_sortedGrants: "distinct (map g_ID gs) \<Longrightarrow> distinct (map g_ID (sortedGrants gs))"
proof -
  assume a: "distinct (map g_ID gs)"
  have "set (map g_ID (sortedGrants gs)) = set (map g_ID gs)" "length (map g_ID (sortedGrants gs)) = length (map g_ID gs)" by simp_all
  then show ?thesis using a by (metis card_distinct distinct_card)
qed

text \<open>What lies strictly after a position of a sorted list.\<close>

definition cursorAt :: "string \<Rightarrow> Grant \<Rightarrow> grantCursor" where
  "cursorAt h g = \<lparr>gc_CreatedAt = g_CreatedAt g, gc_ID = g_ID g, gc_QueryHash = h\<rparr>"

lemma before_cursorAt: "g_ID g \<noteq> [] \<Longrightarrow> grantBeforeCursor x (cursorAt h g) \<longleftrightarrow> newer g x \<and> (g_CreatedAt x, g_ID x) \<noteq> (g_CreatedAt g, g_ID g)"
  by (auto simp: grantBeforeCursor_def cursorAt_def newer_def)

lemma before_trans:
  "grantBeforeCursor x (cursorAt h g) \<Longrightarrow> g_ID g \<noteq> [] \<Longrightarrow> grantBeforeCursor g c \<Longrightarrow> grantBeforeCursor x c"
  by (auto simp: grantBeforeCursor_def cursorAt_def)

lemma filter_after_position:
  assumes "sorted_wrt newer gs" "distinct (map g_ID gs)" "\<forall>g\<in>set gs. g_ID g \<noteq> []" "0 < k" "gs \<noteq> []"
  shows "filter (\<lambda>x. grantBeforeCursor x (cursorAt h (last (take k gs)))) gs = drop k gs"
  using assms
proof (induction k arbitrary: gs)
  case (Suc k)
  obtain g rest where gs: "gs = g # rest" using Suc.prems(5) by (cases gs) auto
  show ?case
  proof (cases "k = 0 \<or> rest = []")
    case True
    have "grantBeforeCursor x (cursorAt h g)" if x: "x \<in> set rest" for x
    proof -
      have "g_ID x \<noteq> g_ID g" using Suc.prems(2) imageI[OF x, of g_ID] by (auto simp: gs)
      then show ?thesis using Suc.prems(1,3) x by (simp add: gs before_cursorAt)
    qed
    then show ?thesis using True Suc.prems(3) by (auto simp: gs before_cursorAt filter_id_conv)
  next
    case False
    then have last: "last (take (Suc k) gs) = last (take k rest)" "last (take k rest) \<in> set rest"
      using last_take_in[of k rest] by (auto simp: gs)
    have "\<not> grantBeforeCursor g (cursorAt h (last (take k rest)))"
      using Suc.prems(1-3) last(2) by (auto simp: gs grantBeforeCursor_def cursorAt_def newer_def)
    then show ?thesis using Suc.IH[of rest] Suc.prems(1-3) False last(1) by (simp add: gs)
  qed
qed simp

text \<open>The grants a query still has to show after a cursor.\<close>

definition remainingGrants :: "Grant list \<Rightarrow> Query \<Rightarrow> grantCursor \<Rightarrow> Grant list" where
  "remainingGrants gs query cursor = sortedGrants (filter (\<lambda>g. grantMatchesQuery g query \<and> grantBeforeCursor g cursor) gs)"

lemma buildGrantPage_shown:
  assumes "1 \<le> qy_Limit query"
  shows "qp_Grants (buildGrantPage digest encode gs query cursor) = take (nat (qy_Limit query)) (remainingGrants gs query cursor)"
    and "qp_HasMore (buildGrantPage digest encode gs query cursor) \<longleftrightarrow> qy_Limit query < int (length (remainingGrants gs query cursor))"
    and "qp_NextCursor (buildGrantPage digest encode gs query cursor) = (if remainingGrants gs query cursor = [] then []
      else encode (cursorAt (queryFingerprint digest query) (last (take (nat (qy_Limit query)) (remainingGrants gs query cursor)))))"
proof -
  let ?r = "remainingGrants gs query cursor"
  have shown: "(if int (length ?r) > qy_Limit query then take (nat (qy_Limit query)) ?r else ?r) = take (nat (qy_Limit query)) ?r"
    using assms by auto
  have empty: "take (nat (qy_Limit query)) ?r = [] \<longleftrightarrow> ?r = []" using assms by auto
  show "qp_Grants (buildGrantPage digest encode gs query cursor) = take (nat (qy_Limit query)) ?r"
    "qp_HasMore (buildGrantPage digest encode gs query cursor) \<longleftrightarrow> qy_Limit query < int (length ?r)"
    "qp_NextCursor (buildGrantPage digest encode gs query cursor) = (if ?r = [] then []
      else encode (cursorAt (queryFingerprint digest query) (last (take (nat (qy_Limit query)) ?r))))"
    unfolding buildGrantPage_def sortedGrants_def[symmetric] remainingGrants_def[symmetric] Let_def shown empty cursorAt_def
    using assms by simp_all
qed

lemma remaining_after_page:
  assumes "distinct (map g_ID gs)" "\<forall>g\<in>set gs. g_ID g \<noteq> []" "0 < k" "remainingGrants gs query cursor \<noteq> []"
  shows "remainingGrants gs query (cursorAt h (last (take k (remainingGrants gs query cursor)))) = drop k (remainingGrants gs query cursor)"
proof -
  let ?r = "remainingGrants gs query cursor"
  let ?g = "last (take k ?r)"
  let ?m = "filter (\<lambda>g. grantMatchesQuery g query \<and> grantBeforeCursor g cursor) gs"
  have g: "?g \<in> set ?m" using last_take_in[OF assms(3,4)] by (simp add: remainingGrants_def)
  have "filter (\<lambda>x. grantMatchesQuery x query \<and> grantBeforeCursor x (cursorAt h ?g)) gs
    = filter (\<lambda>x. grantBeforeCursor x (cursorAt h ?g)) ?m"
    using g assms(2) before_trans[of _ h ?g cursor] by (auto intro!: filter_cong)
  then have "remainingGrants gs query (cursorAt h ?g) = filter (\<lambda>x. grantBeforeCursor x (cursorAt h ?g)) ?r"
    by (simp add: remainingGrants_def filter_sortedGrants)
  also have "\<dots> = drop k ?r"
  proof (rule filter_after_position[OF _ _ _ assms(3,4)])
    show "sorted_wrt newer ?r" by (simp add: remainingGrants_def sortedGrants_sorted)
    show "distinct (map g_ID ?r)"
      unfolding remainingGrants_def using assms(1) by (intro distinct_sortedGrants) (simp add: distinct_map_filter)
    show "\<forall>g\<in>set ?r. g_ID g \<noteq> []" using assms(2) by (simp add: remainingGrants_def)
  qed
  finally show ?thesis .
qed

text \<open>
  The pages of the operator inbox are complete: a page shows the newest of the grants that match the query and lie after the
  cursor, says whether there are more, and the cursor it returns continues with exactly the grants not yet shown.
  So following the cursors over unchanged grants shows every matching grant once, newest first.
\<close>

lemma grant_pages_continue:
  assumes "distinct (map g_ID gs)" "\<forall>g\<in>set gs. g_ID g \<noteq> []" "1 \<le> qy_Limit query"
    and "qp_Grants (buildGrantPage digest encode gs query cursor) \<noteq> []"
  shows "qp_Grants (buildGrantPage digest encode gs query cursor) = take (nat (qy_Limit query)) (remainingGrants gs query cursor)
    \<and> (qp_HasMore (buildGrantPage digest encode gs query cursor) \<longleftrightarrow> qy_Limit query < int (length (remainingGrants gs query cursor)))
    \<and> (\<exists>next. qp_NextCursor (buildGrantPage digest encode gs query cursor) = encode next
         \<and> gc_QueryHash next = queryFingerprint digest query
         \<and> remainingGrants gs query next = drop (nat (qy_Limit query)) (remainingGrants gs query cursor))"
proof -
  have ne: "remainingGrants gs query cursor \<noteq> []" using assms(3,4) by (auto simp: buildGrantPage_shown)
  show ?thesis
    using remaining_after_page[OF assms(1,2) _ ne, of "nat (qy_Limit query)" "queryFingerprint digest query"] assms(3) ne
    by (auto simp: buildGrantPage_shown cursorAt_def)
qed

lemma grant_pages_continue_example:
  "remainingGrants [examplePending, examplePending\<lparr>g_ID := ''g2'', g_CreatedAt := 12\<rparr>]
     \<lparr>qy_StatusGroup = StatusGroupAll, qy_Client = [], qy_Operation = [], qy_Target = None, qy_Cursor = [], qy_Limit = 1\<rparr>
     (cursorAt [] (examplePending\<lparr>g_ID := ''g2'', g_CreatedAt := 12\<rparr>)) = [examplePending]
   \<and> qp_Grants (buildGrantPage (\<lambda>_. []) (\<lambda>_. []) [examplePending, examplePending\<lparr>g_ID := ''g2'', g_CreatedAt := 12\<rparr>]
       \<lparr>qy_StatusGroup = StatusGroupAll, qy_Client = [], qy_Operation = [], qy_Target = None, qy_Cursor = [], qy_Limit = 1\<rparr> zeroCursor)
     = [examplePending\<lparr>g_ID := ''g2'', g_CreatedAt := 12\<rparr>]"
  (is "remainingGrants ?gs ?q ?c = _ \<and> _")
proof -
  have "distinct (map g_ID ?gs)" "\<forall>g\<in>set ?gs. g_ID g \<noteq> []" "1 \<le> qy_Limit ?q"
    by (simp_all add: examplePending_def)
  moreover have shown: "qp_Grants (buildGrantPage (\<lambda>_. []) (\<lambda>_. []) ?gs ?q zeroCursor) = [examplePending\<lparr>g_ID := ''g2'', g_CreatedAt := 12\<rparr>]"
    by code_simp
  ultimately have "qp_Grants (buildGrantPage (\<lambda>_. []) (\<lambda>_. []) ?gs ?q zeroCursor) = take (nat (qy_Limit ?q)) (remainingGrants ?gs ?q zeroCursor)"
    using grant_pages_continue[of ?gs ?q "\<lambda>_. []" "\<lambda>_. []" zeroCursor] by simp
  moreover have "remainingGrants ?gs ?q ?c = [examplePending]" by code_simp
  ultimately show ?thesis using shown by simp
qed

end
