(* ===== verification/GrantWaiting.thy ===== *)
theory GrantWaiting
  imports GrantFeed
begin

text \<open>
  Waiting for events and decisions: the loops \<^verbatim>\<open>WaitForEvents\<close> and \<^verbatim>\<open>WaitForDecision\<close> of
  \<^verbatim>\<open>authorization/grants/lifecycle.go\<close> and the deadlines that wake them.

  A loop may run forever, so it takes the list of its rounds and is \<open>None\<close> while it still waits. A round says why the
  waiter woke, what the clock showed and what other operations did to the store meanwhile, both between the reads of one
  round (\<open>rd_between\<close>) and while it slept (\<open>rd_world\<close>).
\<close>

section \<open>The loops\<close>

datatype wakeCause = WakeCanceled | WakeSignal | WakeTimer

record waitRound =
  rd_now :: gotime
  rd_between :: "fileData \<Rightarrow> fileData"
  rd_cause :: wakeCause
  rd_world :: "fileData \<Rightarrow> fileData"
  rd_clock :: Clock
  rd_saves :: bool

definition contextCanceled :: grantError where
  "contextCanceled = ErrOther ''context canceled''"

text \<open>\<^verbatim>\<open>waitForLifecycleWake\<close>: a timer that was not set does not fire (\<open>None\<close>).\<close>

definition waitForLifecycleWake :: "wakeCause \<Rightarrow> bool \<Rightarrow> (grantError + bool) option" where
  "waitForLifecycleWake cause hasDeadline =
     (case cause of
        WakeCanceled \<Rightarrow> Some (Inl contextCanceled)
      | WakeSignal \<Rightarrow> Some (Inr False)
      | WakeTimer \<Rightarrow> if hasDeadline then Some (Inr True) else None)"

definition reconcileLifecycleDeadline ::
  "Options \<Rightarrow> Clock \<Rightarrow> bool \<Rightarrow> bool \<Rightarrow> fileData \<Rightarrow> fileData \<times> (grantError + unit)" where
  "reconcileLifecycleDeadline opts ck saves deadline stored =
     (if \<not> deadline then (stored, Inr ()) else reconcileDueLifecycle opts ck saves stored)"

fun WaitForEvents ::
  "Options \<Rightarrow> string \<Rightarrow> waitRound list \<Rightarrow> fileData \<Rightarrow> (fileData \<times> (grantError + EventPage)) option" where
  "WaitForEvents opts cursor [] stored = None"
| "WaitForEvents opts cursor (r # rs) stored =
     (case EventsAfter cursor 1 stored of
        Inl e \<Rightarrow> Some (stored, Inl e)
      | Inr page \<Rightarrow>
          if page_Events page \<noteq> [] then Some (stored, Inr page)
          else (case nextLifecycleDelay opts (rd_now r) (rd_between r stored) of
                  Inl e \<Rightarrow> Some (rd_between r stored, Inl e)
                | Inr delay \<Rightarrow>
                    (case waitForLifecycleWake (rd_cause r) (delay \<noteq> None) of
                       None \<Rightarrow> None
                     | Some (Inl e) \<Rightarrow> Some (rd_world r (rd_between r stored), Inl e)
                     | Some (Inr deadline) \<Rightarrow>
                         (case reconcileLifecycleDeadline opts (rd_clock r) (rd_saves r) deadline (rd_world r (rd_between r stored)) of
                            (stored', Inl e) \<Rightarrow> Some (stored', Inl e)
                          | (stored', Inr _) \<Rightarrow> WaitForEvents opts cursor rs stored'))))"

text \<open>\<open>errors.Is(err, ErrNotFound)\<close> and \<open>errors.Is(err, ErrCursorExpired)\<close> on the errors of these calls.\<close>

definition latestGrantCursor ::
  "Options \<Rightarrow> Clock \<Rightarrow> bool \<Rightarrow> string \<Rightarrow> fileData \<Rightarrow> fileData \<times> (grantError + string)" where
  "latestGrantCursor opts ck saves i stored =
     (case LatestEvent i stored of
        Inr event \<Rightarrow> (stored, Inr (pe_Cursor event))
      | Inl e \<Rightarrow>
          if e = ErrNotFound then
            (case Get opts ck saves i stored of
               (stored', Inl getErr) \<Rightarrow> (stored', Inl getErr)
             | (stored', Inr _) \<Rightarrow> (stored', Inr []))
          else (stored, Inl e))"

definition pendingGrant ::
  "Options \<Rightarrow> Clock \<Rightarrow> bool \<Rightarrow> bool \<Rightarrow> string \<Rightarrow> fileData \<Rightarrow> fileData \<times> (grantError + Grant \<times> bool)" where
  "pendingGrant opts ck saves canceled i stored =
     (if canceled then (stored, Inl contextCanceled)
      else (case Get opts ck saves i stored of
              (stored', Inl e) \<Rightarrow> (stored', Inl e)
            | (stored', Inr grant) \<Rightarrow> (stored', Inr (grant, g_Status grant = StatusPending))))"

text \<open>One turn of \<^verbatim>\<open>WaitForDecision\<close>: whether the context is done, the clock and saves of its reads, the rounds it waits.\<close>

record waitTurn =
  wt_canceled :: bool
  wt_clock :: Clock
  wt_saves :: bool
  wt_rounds :: "waitRound list"
  wt_world :: "fileData \<Rightarrow> fileData"

definition waitForGrantDecisionEvent ::
  "Options \<Rightarrow> waitTurn \<Rightarrow> string \<Rightarrow> string \<Rightarrow> fileData \<Rightarrow> (fileData \<times> (grantError + string \<times> bool)) option" where
  "waitForGrantDecisionEvent opts turn i cursor stored =
     (case WaitForEvents opts cursor (wt_rounds turn) stored of
        None \<Rightarrow> None
      | Some (stored', Inl e) \<Rightarrow>
          if e = ErrCursorExpired then
            (case latestGrantCursor opts (wt_clock turn) (wt_saves turn) i stored' of
               (stored'', Inl e') \<Rightarrow> Some (stored'', Inl e')
             | (stored'', Inr cursor') \<Rightarrow> Some (stored'', Inr (cursor', False)))
          else Some (stored', Inl e)
      | Some (stored', Inr page) \<Rightarrow>
          Some (stored', Inr (page_NextCursor page, decisionEventForGrant (page_Events page) i)))"

fun decisionLoop ::
  "Options \<Rightarrow> string \<Rightarrow> string \<Rightarrow> waitTurn list \<Rightarrow> fileData \<Rightarrow> (fileData \<times> (grantError + Grant)) option" where
  "decisionLoop opts i cursor [] stored = None"
| "decisionLoop opts i cursor (turn # turns) stored =
     (case pendingGrant opts (wt_clock turn) (wt_saves turn) (wt_canceled turn) i stored of
        (stored1, Inl e) \<Rightarrow> Some (stored1, Inl e)
      | (stored1, Inr (grant, pending)) \<Rightarrow>
          if \<not> pending then Some (stored1, Inr grant)
          else (case waitForGrantDecisionEvent opts turn i cursor (wt_world turn stored1) of
                  None \<Rightarrow> None
                | Some (stored2, Inl e) \<Rightarrow> Some (stored2, Inl e)
                | Some (stored2, Inr (cursor', reached)) \<Rightarrow>
                    if reached then Some (Get opts (wt_clock turn) (wt_saves turn) i stored2)
                    else decisionLoop opts i cursor' turns stored2))"

definition WaitForDecision ::
  "Options \<Rightarrow> Clock \<Rightarrow> bool \<Rightarrow> string \<Rightarrow> waitTurn list \<Rightarrow> fileData \<Rightarrow> (fileData \<times> (grantError + Grant)) option" where
  "WaitForDecision opts ck saves i turns stored =
     (case latestGrantCursor opts ck saves i stored of
        (stored1, Inl e) \<Rightarrow> Some (stored1, Inl e)
      | (stored1, Inr cursor) \<Rightarrow> decisionLoop opts i cursor turns stored1)"

section \<open>Deadlines\<close>

text \<open>The earliest of several deadlines, where 0 is no deadline.\<close>

lemma earlierDeadline_spec:
  "earlierDeadline a b \<in> {a, b}" "a \<noteq> 0 \<Longrightarrow> earlierDeadline a b \<noteq> 0 \<and> earlierDeadline a b \<le> a"
  "b \<noteq> 0 \<Longrightarrow> earlierDeadline a b \<noteq> 0 \<and> earlierDeadline a b \<le> b"
  by (auto simp: earlierDeadline_def)

lemma earliest_keeps:
  "d \<noteq> 0 \<Longrightarrow> foldl (\<lambda>d g. earlierDeadline d (f g)) d gs \<noteq> 0 \<and> foldl (\<lambda>d g. earlierDeadline d (f g)) d gs \<le> d"
proof (induction gs arbitrary: d)
  case (Cons g gs)
  have "earlierDeadline d (f g) \<noteq> 0" "earlierDeadline d (f g) \<le> d" using earlierDeadline_spec(2)[OF Cons.prems] by auto
  then show ?case using Cons.IH[of "earlierDeadline d (f g)"] by auto
qed simp

lemma earliest_bound:
  "g \<in> set gs \<Longrightarrow> f g \<noteq> 0 \<Longrightarrow>
   foldl (\<lambda>d g. earlierDeadline d (f g)) d gs \<noteq> 0 \<and> foldl (\<lambda>d g. earlierDeadline d (f g)) d gs \<le> f g"
proof (induction gs arbitrary: d)
  case (Cons h gs)
  show ?case
  proof (cases "g = h")
    case True
    have "earlierDeadline d (f h) \<noteq> 0" "earlierDeadline d (f h) \<le> f h"
      using earlierDeadline_spec(3)[of "f h" d] Cons.prems(2) True by auto
    then show ?thesis using earliest_keeps[of "earlierDeadline d (f h)" f gs] True by auto
  next
    case False
    then show ?thesis using Cons by simp
  qed
qed simp

lemma earliestUseDeadline_keeps:
  assumes "\<forall>u\<in>set uses. u_GrantID u \<in> g_ID ` set gs"
  shows "\<exists>r. earliestUseDeadline opts gs now d uses = Inr r \<and> (d \<noteq> 0 \<longrightarrow> r \<noteq> 0 \<and> r \<le> d)"
  using assms
proof (induction uses arbitrary: d)
  case (Cons u uses)
  obtain k g where g: "findGrant gs (u_GrantID u) = Inr (k, g)"
    using findGrant_Inl[of gs "u_GrantID u"] Cons.prems by (cases "findGrant gs (u_GrantID u)") auto
  obtain r where "earliestUseDeadline opts gs now (earlierDeadline d (useLifecycleDeadline opts u g now)) uses = Inr r"
    "earlierDeadline d (useLifecycleDeadline opts u g now) \<noteq> 0 \<longrightarrow> r \<noteq> 0 \<and> r \<le> earlierDeadline d (useLifecycleDeadline opts u g now)"
    using Cons.IH[of "earlierDeadline d (useLifecycleDeadline opts u g now)"] Cons.prems by auto
  then show ?case using g earlierDeadline_spec(2)[of d "useLifecycleDeadline opts u g now"] by auto
qed simp

lemma storeInv_uses_known:
  assumes "storeInv opts t d"
  shows "\<forall>u\<in>set (fd_Uses d). u_GrantID u \<in> g_ID ` set (fd_Grants d)"
  using assms by (force simp: storeInv_def coreData_def coreUse_def)

lemma nextLifecycleDelay_bound:
  assumes "storeInv opts t d" "g \<in> set (fd_Grants d)" "grantLifecycleDeadline g \<noteq> 0"
  shows "\<exists>delay. nextLifecycleDelay opts now d = Inr (Some delay) \<and> 0 \<le> delay \<and> delay \<le> max (grantLifecycleDeadline g - now) 0"
proof -
  have e: "earliestGrantDeadline (fd_Grants d) \<noteq> 0" "earliestGrantDeadline (fd_Grants d) \<le> grantLifecycleDeadline g"
    using earliest_bound[OF assms(2), of grantLifecycleDeadline 0] assms(3) by (auto simp: earliestGrantDeadline_def)
  obtain r where "earliestUseDeadline opts (fd_Grants d) now (earliestGrantDeadline (fd_Grants d)) (fd_Uses d) = Inr r"
    "r \<noteq> 0" "r \<le> earliestGrantDeadline (fd_Grants d)"
    using earliestUseDeadline_keeps[OF storeInv_uses_known[OF assms(1)], of opts now "earliestGrantDeadline (fd_Grants d)"] e(1) by auto
  then show ?thesis using e(2) by (auto simp: nextLifecycleDelay_def storeInv_load[OF assms(1)] bindR_def)
qed

section \<open>A due grant is expired and announced\<close>

text \<open>The log ends with the event before the next sequence number.\<close>

definition logEnds :: "fileData \<Rightarrow> bool" where
  "logEnds d \<longleftrightarrow> fd_Events d \<noteq> [] \<and> Suc (ev_Sequence (last (fd_Events d))) = fd_NextEvent d"

lemma appendLifecycleEvent_ends:
  assumes "0 < fd_NextEvent d" "0 < o_MaxEvents opts"
  shows "logEnds (appendLifecycleEvent opts ck kind g p d)"
    and "fd_NextEvent (appendLifecycleEvent opts ck kind g p d) = Suc (fd_NextEvent d)"
proof -
  let ?e = "eventFor ck kind g p (fd_NextEvent d)"
  let ?evs = "trimEvents (o_MaxEvents opts) (fd_Events d @ [?e])"
  have "nat (int (length (fd_Events d @ [?e])) - o_MaxEvents opts) < length (fd_Events d @ [?e])" using assms(2) by simp
  then have "?evs \<noteq> []" "last ?evs = ?e" unfolding trimEvents_eq by (simp_all only: last_drop last_snoc drop_eq_Nil not_le)
  then show "logEnds (appendLifecycleEvent opts ck kind g p d)"
    "fd_NextEvent (appendLifecycleEvent opts ck kind g p d) = Suc (fd_NextEvent d)"
    by (simp_all add: appendLifecycleEvent_eq[OF assms(1)] logEnds_def eventFor_def)
qed

lemma appendEvents_ends:
  assumes "0 < fd_NextEvent d" "0 < o_MaxEvents opts"
  shows "fd_NextEvent (fold (\<lambda>kind d. appendLifecycleEvent opts ck kind g p d) kinds d) = fd_NextEvent d + length kinds"
    and "kinds \<noteq> [] \<or> logEnds d \<Longrightarrow> logEnds (fold (\<lambda>kind d. appendLifecycleEvent opts ck kind g p d) kinds d)"
  using assms(1)
  by (induction kinds arbitrary: d) (simp_all add: appendLifecycleEvent_ends[OF _ assms(2)])

lemma reconcileLoop_ends:
  assumes "0 < fd_NextEvent d" "0 < o_MaxEvents opts" "reconcileLoop opts ck before gs d = (hs, d', changed)"
  shows "(changed \<longleftrightarrow> (\<exists>g\<in>set gs. lifecycleKinds (map_of before (g_ID g)) g \<noteq> []))
    \<and> fd_NextEvent d \<le> fd_NextEvent d' \<and> (changed \<longrightarrow> fd_NextEvent d < fd_NextEvent d') \<and> (changed \<or> logEnds d \<longrightarrow> logEnds d')"
  using assms(1,3)
proof (induction gs arbitrary: d hs d' changed)
  case (Cons g gs)
  define kinds where "kinds = lifecycleKinds (map_of before (g_ID g)) g"
  define d1 where "d1 = (if kinds = [] then d else fold (\<lambda>kind d. appendLifecycleEvent opts ck kind (bump before g)
    (case map_of before (g_ID g) of Some p \<Rightarrow> p | None \<Rightarrow> zeroGrant) d) kinds d)"
  have d1: "fd_NextEvent d1 = fd_NextEvent d + length kinds" "kinds \<noteq> [] \<or> logEnds d \<Longrightarrow> logEnds d1"
    using appendEvents_ends[OF Cons.prems(1) assms(2)] by (auto simp: d1_def)
  obtain hs2 c where rest: "reconcileLoop opts ck before gs d1 = (hs2, d', c)" "changed \<longleftrightarrow> kinds \<noteq> [] \<or> c"
    using Cons.prems(2) by (auto simp: Let_def kinds_def d1_def bump_def split: prod.splits if_splits)
  have "0 < fd_NextEvent d1" using d1(1) Cons.prems(1) by simp
  note IH = Cons.IH[OF this rest(1)]
  have "kinds \<noteq> [] \<Longrightarrow> fd_NextEvent d < fd_NextEvent d1" "fd_NextEvent d \<le> fd_NextEvent d1" using d1(1) by simp_all
  then show ?case using IH rest(2) d1(2) by (auto simp: kinds_def[symmetric])
qed simp

lemma reconcileLifecycle_ends:
  assumes "0 < fd_NextEvent d" "0 < o_MaxEvents opts" "g \<in> set (fd_Grants d)" "lifecycleKinds (map_of before (g_ID g)) g \<noteq> []"
  shows "snd (reconcileLifecycle opts ck d before)" "logEnds (fst (reconcileLifecycle opts ck d before))"
    "fd_NextEvent d < fd_NextEvent (fst (reconcileLifecycle opts ck d before))"
proof -
  obtain hs d' changed where loop: "reconcileLoop opts ck before (fd_Grants d) d = (hs, d', changed)"
    by (cases "reconcileLoop opts ck before (fd_Grants d) d") auto
  show "snd (reconcileLifecycle opts ck d before)" "logEnds (fst (reconcileLifecycle opts ck d before))"
    "fd_NextEvent d < fd_NextEvent (fst (reconcileLifecycle opts ck d before))"
    using reconcileLoop_ends[OF assms(1,2) loop] assms(3,4) by (auto simp: reconcileLifecycle_def loop logEnds_def)
qed

lemma expired_due:
  assumes "g_Status g = StatusPending" "g_PendingExpiresAt g \<le> now"
  shows "expireGrant now g \<noteq> None" "g_Status (expired now g) = StatusExpired"
  using assms by (simp_all add: expired_def expireGrant_def)

lemma retainStale_status:
  "map g_Status (fd_Grants (fst (retainStaleReservations opts now d))) = map g_Status (fd_Grants d)"
  by (simp add: retainStale_fields settledGrants_def)

lemma retainStale_next: "fd_NextEvent (fst (retainStaleReservations opts now d)) = fd_NextEvent d"
  by (simp add: retainStale_fields)

text \<open>Preparing the store at a time when a pending grant is due.\<close>

lemma prepared_due:
  assumes "storeInv opts t d" "clockIn t t' ck" "g \<in> set (fd_Grants d)" "g_Status g = StatusPending"
    and "g_PendingExpiresAt g \<le> ck_expire ck"
  defines "p \<equiv> prepareLifecycle opts ck d"
  shows "snd p" "fd_NextEvent (fst p) = fd_NextEvent d"
    "\<exists>h\<in>set (fd_Grants (fst p)). g_ID h = g_ID g \<and> g_Status h = StatusExpired
       \<and> lifecycleKinds (map_of (grantSnapshots (fd_Grants d)) (g_ID h)) h \<noteq> []"
proof -
  have core: "coreData opts t d" and dist: "distinct (map g_ID (fd_Grants d))" using assms(1) by (auto simp: storeInv_def coreData_def)
  let ?m = "fst (expireDue (ck_expire ck) d)"
  have fst: "fst p = fst (retainStaleReservations opts (ck_retain ck) ?m)"
    by (simp add: p_def prepareLifecycle_def case_prod_beta)
  have "snd (expireDue (ck_expire ck) d)"
    using assms(3) expired_due(1)[OF assms(4,5)] by (auto simp: expireDue_def list_ex_iff)
  then show "snd p" by (simp add: p_def prepareLifecycle_def case_prod_beta)
  show "fd_NextEvent (fst p) = fd_NextEvent d" by (simp add: fst retainStale_next expireDue_fields)
  obtain k where k: "k < length (fd_Grants d)" "fd_Grants d ! k = g" using assms(3) by (auto simp: in_set_conv_nth)
  have len: "length (fd_Grants (fst p)) = length (fd_Grants d)"
    using prepareLifecycle_core(2)[OF core assms(2)] by (simp add: p_def list_all2_lengthD)
  let ?h = "fd_Grants (fst p) ! k"
  have "map g_Status (fd_Grants (fst p)) ! k = map g_Status (fd_Grants ?m) ! k" by (simp add: fst retainStale_status)
  then have status: "g_Status ?h = StatusExpired" using k len expired_due(2)[OF assms(4,5)] by (simp add: expireDue_fields)
  have id: "g_ID ?h = g_ID g"
    using prepareLifecycle_core(2)[OF core assms(2)] k by (auto simp: p_def list_all2_conv_all_nth dest: follows_subject(1))
  have "map_of (grantSnapshots (fd_Grants d)) (g_ID ?h) = Some g" using snapshot_unique[OF dist] id assms(3) by simp
  then have "lifecycleKinds (map_of (grantSnapshots (fd_Grants d)) (g_ID ?h)) ?h \<noteq> []"
    using status assms(4) by (simp add: lifecycleKinds_def statusEventKinds_def)
  then show "\<exists>h\<in>set (fd_Grants (fst p)). g_ID h = g_ID g \<and> g_Status h = StatusExpired
       \<and> lifecycleKinds (map_of (grantSnapshots (fd_Grants d)) (g_ID h)) h \<noteq> []"
    using id status k(1) len by (intro bexI[of _ ?h]) auto
qed

lemma reconcileDueLifecycle_expires:
  assumes "storeInv opts t d" "clockIn t t' ck" "g \<in> set (fd_Grants d)" "g_Status g = StatusPending"
    and "g_PendingExpiresAt g \<le> ck_expire ck"
  shows "\<exists>d'. reconcileDueLifecycle opts ck True d = (d', Inr ()) \<and> storeInv opts t' d' \<and> logEnds d' \<and> fd_NextEvent d < fd_NextEvent d'
    \<and> (\<exists>h\<in>set (fd_Grants d'). g_ID h = g_ID g \<and> g_Status h = StatusExpired)"
proof -
  let ?p = "prepareLifecycle opts ck d" and ?before = "grantSnapshots (fd_Grants d)"
  let ?r = "reconcileLifecycle opts ck (fst ?p) ?before"
  note due = prepared_due[OF assms]
  obtain h where h: "h \<in> set (fd_Grants (fst ?p))" "g_ID h = g_ID g" "g_Status h = StatusExpired"
    "lifecycleKinds (map_of ?before (g_ID h)) h \<noteq> []" using due(3) by blast
  have core: "coreData opts t (fst ?p)" using prepareLifecycle_core(1)[OF _ assms(2)] assms(1) by (simp add: storeInv_def)
  then have pos: "0 < fd_NextEvent (fst ?p)" "0 < o_MaxEvents opts" by (auto simp: coreData_def eventsOrdered_def validOptions_def)
  note ends = reconcileLifecycle_ends[OF pos h(1,4), of ck]
  have eq: "reconcileDueLifecycle opts ck True d = (fst ?r, Inr ())"
    using due(1) ends(1) by (simp add: reconcileDueLifecycle_def storeInv_load[OF assms(1)] case_prod_beta Let_def)
  have "bump ?before h \<in> set (fd_Grants (fst ?r))" using reconcileLifecycle_core(2)[OF core] h(1) by simp
  moreover have "storeInv opts t' (fst ?r)"
    using reader_moves(6)[OF assms(1,2), of True] eq by (simp add: storeMoves_def)
  moreover from calculation(1) have "\<exists>h\<in>set (fd_Grants (fst ?r)). g_ID h = g_ID g \<and> g_Status h = StatusExpired"
    by (rule rev_bexI) (simp add: h(2,3))
  ultimately show ?thesis
    using eq ends(2,3) due(2) by (intro exI[of _ "fst ?r"]) simp
qed

text \<open>A reader whose cursor lies before the end of the log gets an event, or learns that its cursor expired.\<close>

lemma EventsAfter_new:
  assumes "storeInv opts t d" "logEnds d" "decodeEventCursor cursor = Inr s" "Suc s < fd_NextEvent d"
  shows "EventsAfter cursor 1 d = Inl ErrCursorExpired \<or> (\<exists>page. EventsAfter cursor 1 d = Inr page \<and> page_Events page \<noteq> [])"
proof -
  let ?last = "last (fd_Events d)"
  have last: "?last \<in> set (fd_Events d)" "s < ev_Sequence ?last" using assms(2,4) by (auto simp: logEnds_def)
  have page: "page_Events (eventPageAfter (fd_Events d) start 1) \<noteq> []" if "start < ev_Sequence ?last" for start
  proof -
    have "?last \<in> set (eventsSince start d)" using last(1) that by (simp add: eventsSince_def)
    then show ?thesis by (auto simp: eventPageAfter_since)
  qed
  obtain e es where evs: "fd_Events d = e # es" using assms(2) by (cases "fd_Events d") (auto simp: logEnds_def)
  have ordered: "eventsOrdered (fd_Events d) (fd_NextEvent d)" using assms(1) by (simp add: storeInv_def coreData_def)
  have first: "ev_Sequence e \<le> ev_Sequence ?last" "0 < ev_Sequence e"
  proof -
    have "?last = e \<or> ?last \<in> set es" using last(1) unfolding evs by (simp only: set_ConsD)
    then show "ev_Sequence e \<le> ev_Sequence ?last" "0 < ev_Sequence e"
      using ordered unfolding evs eventsOrdered_def by auto
  qed
  have limit: "normalizeEventLimit 1 = Inr 1" by (simp add: normalizeEventLimit_def maxEventPageSize_def)
  have start: "eventStartingSequence (fd_Events d) cursor s = Inl ErrCursorExpired
    \<or> (\<exists>start. eventStartingSequence (fd_Events d) cursor s = Inr start \<and> start < ev_Sequence ?last)"
    using first last(2) by (auto simp: evs eventStartingSequence_def)
  show ?thesis
    using start page
    by (auto simp: EventsAfter_def normalizeEventRequest_def assms(3) limit storeInv_load[OF assms(1)] bindR_def)
qed

text \<open>
  A waiter is woken for a request that nobody decides: while a pending grant is stored, the delay after which
  \<^verbatim>\<open>WaitForEvents\<close> wakes is never longer than the time left to the request; and when the timer fires once the request is due, the
  grant is expired, the change is logged, and the loop returns in its next round, with a new event or with the
  notice that the cursor has expired.
\<close>

lemma waiter_sees_expiry:
  assumes "reachable opts t d" "validOptions opts" "g \<in> set (fd_Grants d)" "g_Status g = StatusPending"
    and "EventsAfter cursor 1 d = Inr page" "page_Events page = []" "decodeEventCursor cursor = Inr s" "s < fd_NextEvent d"
    and "rd_between r = id" "rd_world r = id" "rd_cause r = WakeTimer" "rd_saves r" "clockIn t t' (rd_clock r)"
    and "g_PendingExpiresAt g \<le> ck_expire (rd_clock r)"
  shows "\<exists>delay d' result. nextLifecycleDelay opts (rd_now r) d = Inr (Some delay) \<and> delay \<le> max (g_PendingExpiresAt g - rd_now r) 0
    \<and> WaitForEvents opts cursor (r # r' # rounds) d = Some (d', result)
    \<and> (result = Inl ErrCursorExpired \<or> (\<exists>page. result = Inr page \<and> page_Events page \<noteq> []))
    \<and> (\<exists>h\<in>set (fd_Grants d'). g_ID h = g_ID g \<and> g_Status h = StatusExpired)"
proof -
  note inv = reachable_inv[OF assms(1,2)]
  have "coreGrant (fd_Uses d) g" using inv assms(3) by (simp add: storeInv_def coreData_def)
  then have deadline: "grantLifecycleDeadline g = g_PendingExpiresAt g" "grantLifecycleDeadline g \<noteq> 0"
    using assms(4) by (simp_all add: grantLifecycleDeadline_def coreGrant_def grantShape_def)
  obtain delay where delay: "nextLifecycleDelay opts (rd_now r) d = Inr (Some delay)" "delay \<le> max (g_PendingExpiresAt g - rd_now r) 0"
    using nextLifecycleDelay_bound[OF inv assms(3) deadline(2), of "rd_now r"] deadline(1) by auto
  obtain d' where d': "reconcileDueLifecycle opts (rd_clock r) True d = (d', Inr ())" "storeInv opts t' d'" "logEnds d'"
    "fd_NextEvent d < fd_NextEvent d'" "\<exists>h\<in>set (fd_Grants d'). g_ID h = g_ID g \<and> g_Status h = StatusExpired"
    using reconcileDueLifecycle_expires[OF inv assms(13,3,4,14)] by blast
  have "WaitForEvents opts cursor (r # r' # rounds) d = WaitForEvents opts cursor (r' # rounds) d'"
    using assms(5,6,9-12) delay(1) d'(1) by (simp add: waitForLifecycleWake_def reconcileLifecycleDeadline_def)
  moreover have "EventsAfter cursor 1 d' = Inl ErrCursorExpired \<or> (\<exists>page. EventsAfter cursor 1 d' = Inr page \<and> page_Events page \<noteq> [])"
    using EventsAfter_new[OF d'(2,3) assms(7)] d'(4) assms(8) by simp
  ultimately show ?thesis using delay d'(5) by auto
qed

definition exampleTimer :: "gotime \<Rightarrow> waitRound" where
  "exampleTimer now =
     \<lparr>rd_now = now, rd_between = id, rd_cause = WakeTimer, rd_world = id, rd_clock = exampleClock now, rd_saves = True\<rparr>"

lemma exampleRequested_read:
  "\<exists>page. EventsAfter (encodeEventCursor 1) 1 exampleRequested = Inr page \<and> page_Events page = []"
proof -
  have "eventsSince 1 exampleRequested = []" by (simp add: eventsSince_def exampleRequested_literal exampleCreated_def)
  moreover have "encodeEventCursor 1 \<noteq> []" by (simp add: encodeEventCursor_def)
  moreover have "decodeEventCursor (encodeEventCursor 1) = Inr 1" by (rule eventCursor_decode) simp
  ultimately show ?thesis
    using exampleRequested_loads eventPageAfter_since(1)[of 1 exampleRequested 1]
    by (simp add: EventsAfter_def normalizeEventRequest_def normalizeEventLimit_def maxEventPageSize_def eventStartingSequence_def
        exampleRequested_literal exampleCreated_def)
qed

lemma waiter_sees_expiry_example:
  "\<exists>d' result. WaitForEvents exampleStoreOptions (encodeEventCursor 1) [exampleTimer 300000000010, exampleTimer 300000000011] exampleRequested
      = Some (d', result) \<and> (\<exists>h\<in>set (fd_Grants d'). g_ID h = ''g1'' \<and> g_Status h = StatusExpired)"
proof -
  obtain page where page: "EventsAfter (encodeEventCursor 1) 1 exampleRequested = Inr page" "page_Events page = []"
    using exampleRequested_read by blast
  have "examplePending \<in> set (fd_Grants exampleRequested)" "g_Status examplePending = StatusPending"
    "decodeEventCursor (encodeEventCursor 1) = Inr 1" "1 < fd_NextEvent exampleRequested"
    by (simp_all add: exampleRequested_literal examplePending_def eventCursor_decode)
  note here = this
  have "clockIn 11 300000000010 (rd_clock (exampleTimer 300000000010))"
    "g_PendingExpiresAt examplePending \<le> ck_expire (rd_clock (exampleTimer 300000000010))"
    "rd_between (exampleTimer 300000000010) = id" "rd_world (exampleTimer 300000000010) = id"
    "rd_cause (exampleTimer 300000000010) = WakeTimer" "rd_saves (exampleTimer 300000000010)"
    by (simp_all add: exampleTimer_def exampleClock_def clockIn_def examplePending_def)
  from waiter_sees_expiry[OF exampleRequested_reachable exampleStoreOptions_valid here(1,2) page here(3,4) this(3-6,1,2),
      of "exampleTimer 300000000011" "[]"]
  show ?thesis by (auto simp: examplePending_def)
qed

section \<open>A waiter that spins\<close>

text \<open>
  Two uses of one grant are reserved; the first was retained as stale, the second is stale now. Preparing the store changes
  the second use, but there is no event for a second retained use, so \<^verbatim>\<open>reconcileDueLifecycle\<close> does not save.
\<close>

definition exampleUse :: "string \<Rightarrow> UseState \<Rightarrow> int \<Rightarrow> gotime \<Rightarrow> GrantUse" where
  "exampleUse r state revision updated =
     \<lparr>u_GrantID = ''g1'', u_RequestID = r, u_Operation = ''repo.push'', u_State = state, u_Revision = revision,
      u_CreatedAt = 30, u_UpdatedAt = updated, u_SettledAt = 0\<rparr>"

definition exampleStale :: fileData where
  "exampleStale =
     \<lparr>fd_Grants = [examplePending\<lparr>g_Status := StatusActive, g_Revision := 5, g_ExpiresAt := 900000000020, g_DecidedAt := 20,
        g_Duration := 900000000000, g_RequestedDuration := 900000000000, g_MaxUses := 2, g_RequestedMaxUses := 2,
        g_ReservedCount := 2, g_ReservedAt := 40, g_ReservationRetained := True, g_ReservationRevision := 3\<rparr>],
      fd_Uses = [exampleUse ''u1'' UseRetained 2 300000000030, exampleUse ''u2'' UseReserved 1 40],
      fd_Events = [exampleCreated], fd_NextEvent = 2, fd_DecisionRecords = []\<rparr>"

lemma exampleStale_loads: "load exampleStale = Inr exampleStale"
  by code_simp

lemma exampleStale_stays:
  "reconcileDueLifecycle exampleStoreOptions (exampleClock 300000000040) True exampleStale = (exampleStale, Inr ())"
  by code_simp

lemma exampleStale_delay: "nextLifecycleDelay exampleStoreOptions 300000000040 exampleStale = Inr (Some 0)"
  by code_simp


end
