(* ===== verification/Programs.thy ===== *)
theory Programs
  imports Main
begin

text \<open>
  Programs that interleave. A program is a finite tree of atomic actions: an action reads what the surroundings supply (an oracle),
  changes the world and goes on with a program. Handlers of the services are written in this form, so that other threads may act
  between any two of their actions.
\<close>

datatype ('o, 'w, 'a) program = Ret 'a | Act "'o \<Rightarrow> 'w \<Rightarrow> 'w \<times> ('o, 'w, 'a) program"

primrec bindP :: "('o, 'w, 'a) program \<Rightarrow> ('a \<Rightarrow> ('o, 'w, 'b) program) \<Rightarrow> ('o, 'w, 'b) program" where
  "bindP (Ret x) k = k x"
| "bindP (Act f) k = Act (\<lambda>orc w. map_prod id (\<lambda>p. bindP p k) (f orc w))"

definition atom :: "('o \<Rightarrow> 'w \<Rightarrow> 'w \<times> 'a) \<Rightarrow> ('o, 'w, 'a) program" where
  "atom f = Act (\<lambda>orc w. map_prod id Ret (f orc w))"

text \<open>Running a program alone, with one oracle per action.\<close>

fun runProg :: "'o list \<Rightarrow> 'w \<Rightarrow> ('o, 'w, 'a) program \<Rightarrow> 'w \<times> ('o, 'w, 'a) program" where
  "runProg (orc # ors) w (Act f) = (case f orc w of (w', p) \<Rightarrow> runProg ors w' p)"
| "runProg ors w p = (w, p)"

lemma prog_induct [case_names Ret Act]:
  assumes "\<And>x. P (Ret x)" and "\<And>f. (\<And>orc w. P (snd (f orc w))) \<Longrightarrow> P (Act f)"
  shows "P p"
proof (induction p)
  case (Act f)
  then have "P (snd (f orc w))" for orc w
    by (metis prod.exhaust_sel prod_set_simps(2) rangeI singletonI)
  then show ?case
    by (rule assms(2))
qed (rule assms(1))

lemma bindP_assoc: "bindP (bindP p f) g = bindP p (\<lambda>x. bindP (f x) g)"
proof (induction p rule: prog_induct)
  case (Act h)
  have "(\<lambda>orc w. map_prod id (\<lambda>p. bindP p g) (map_prod id (\<lambda>p. bindP p f) (h orc w))) =
      (\<lambda>orc w. map_prod id (\<lambda>p. bindP p (\<lambda>x. bindP (f x) g)) (h orc w))"
    using Act by (intro ext prod_eqI) simp_all
  then show ?case
    by simp
qed simp

text \<open>
  What a program may answer when others act between its actions: each action meets some world \<open>w\<close> and leaves \<open>w'\<close>; the log lists
  them.
\<close>

inductive mayAnswer :: "('o, 'w, 'a) program \<Rightarrow> ('o \<times> 'w \<times> 'w) list \<Rightarrow> 'a \<Rightarrow> bool" where
  mayAnswer_Ret: "mayAnswer (Ret x) [] x"
| mayAnswer_Act: "mayAnswer (snd (f orc w)) steps x \<Longrightarrow> mayAnswer (Act f) ((orc, w, fst (f orc w)) # steps) x"

inductive_simps mayAnswer_Ret_iff [simp]: "mayAnswer (Ret x) steps y"
inductive_cases mayAnswer_Act_elim: "mayAnswer (Act f) steps x"

lemma mayAnswer_bind: "mayAnswer (bindP p k) steps x \<longleftrightarrow> (\<exists>s1 s2 y. steps = s1 @ s2 \<and> mayAnswer p s1 y \<and> mayAnswer (k y) s2 x)"
proof (induction p arbitrary: steps rule: prog_induct)
  case (Act f)
  show ?case
  proof
    assume "mayAnswer (bindP (Act f) k) steps x"
    then obtain orc w rest where steps: "steps = (orc, w, fst (f orc w)) # rest" "mayAnswer (bindP (snd (f orc w)) k) rest x"
      by (auto elim!: mayAnswer_Act_elim)
    then obtain s1 s2 y where "rest = s1 @ s2" "mayAnswer (snd (f orc w)) s1 y" "mayAnswer (k y) s2 x"
      using Act by blast
    then show "\<exists>s1 s2 y. steps = s1 @ s2 \<and> mayAnswer (Act f) s1 y \<and> mayAnswer (k y) s2 x"
      using steps(1) mayAnswer_Act[of f orc w s1 y] by (metis append_Cons)
  next
    assume "\<exists>s1 s2 y. steps = s1 @ s2 \<and> mayAnswer (Act f) s1 y \<and> mayAnswer (k y) s2 x"
    then obtain orc w s1 s2 y where "steps = (orc, w, fst (f orc w)) # s1 @ s2" "mayAnswer (snd (f orc w)) s1 y" "mayAnswer (k y) s2 x"
      by (auto elim!: mayAnswer_Act_elim)
    moreover have "mayAnswer (bindP (snd (f orc w)) k) (s1 @ s2) x"
      using calculation Act by blast
    ultimately show "mayAnswer (bindP (Act f) k) steps x"
      using mayAnswer_Act[of "\<lambda>orc w. map_prod id (\<lambda>p. bindP p k) (f orc w)" orc w] by simp
  qed
qed simp

lemma mayAnswer_atom: "mayAnswer (atom f) steps x \<longleftrightarrow> (\<exists>orc w. steps = [(orc, w, fst (f orc w))] \<and> x = snd (f orc w))"
proof
  assume "mayAnswer (atom f) steps x"
  then show "\<exists>orc w. steps = [(orc, w, fst (f orc w))] \<and> x = snd (f orc w)"
    by (auto simp: atom_def elim!: mayAnswer_Act_elim)
next
  assume "\<exists>orc w. steps = [(orc, w, fst (f orc w))] \<and> x = snd (f orc w)"
  then show "mayAnswer (atom f) steps x"
    using mayAnswer_Act[of "\<lambda>orc w. map_prod id Ret (f orc w)"] by (fastforce simp: atom_def)
qed

text \<open>The actions of a program that runs alone.\<close>

fun logOf :: "'o list \<Rightarrow> 'w \<Rightarrow> ('o, 'w, 'a) program \<Rightarrow> ('o \<times> 'w \<times> 'w) list" where
  "logOf (orc # ors) w (Act f) = (orc, w, fst (f orc w)) # logOf ors (fst (f orc w)) (snd (f orc w))"
| "logOf ors w p = []"

lemma runProg_mayAnswer: "runProg ors w p = (w', Ret x) \<Longrightarrow> mayAnswer p (logOf ors w p) x"
proof (induction ors w p rule: runProg.induct)
  case (1 orc ors w f)
  then have "mayAnswer (snd (f orc w)) (logOf ors (fst (f orc w)) (snd (f orc w))) x"
    by (cases "f orc w") simp
  then show ?case
    using mayAnswer_Act by simp
qed simp_all

lemma runProg_bind_atom [simp]:
  "runProg (orc # ors) w (bindP (atom f) k) = (case f orc w of (w', x) \<Rightarrow> runProg ors w' (k x))"
  by (simp add: atom_def split: prod.splits)

section \<open>Interleaved programs\<close>

text \<open>
  A world that several programs share: a new program may start, a program that has not returned may take its next action while
  time passes, and a crash ends all of them. \<open>clocked t t' orc\<close> says what the surroundings may supply between the times \<open>t\<close> and
  \<open>t'\<close>, \<open>starts ths p\<close> which program may start beside \<open>ths\<close>.
\<close>

inductive interleaved ::
  "('t \<Rightarrow> 't \<Rightarrow> 'o \<Rightarrow> bool) \<Rightarrow> (('o, 'w, 'a) program list \<Rightarrow> ('o, 'w, 'a) program \<Rightarrow> bool) \<Rightarrow> 't \<Rightarrow> 'w
    \<Rightarrow> 't \<Rightarrow> 'w \<Rightarrow> ('o, 'w, 'a) program list \<Rightarrow> bool"
  for clocked starts t0 w0 where
  first: "interleaved clocked starts t0 w0 t0 w0 []"
| spawn: "interleaved clocked starts t0 w0 t w ths \<Longrightarrow> starts ths p \<Longrightarrow> interleaved clocked starts t0 w0 t w (ths @ [p])"
| act: "interleaved clocked starts t0 w0 t w ths \<Longrightarrow> k < length ths \<Longrightarrow> ths ! k = Act f \<Longrightarrow> clocked t t' orc \<Longrightarrow>
    interleaved clocked starts t0 w0 t' (fst (f orc w)) (ths[k := snd (f orc w)])"
| crash: "interleaved clocked starts t0 w0 t w ths \<Longrightarrow> interleaved clocked starts t0 w0 t w []"

text \<open>One program alone is a special case.\<close>

lemma interleaved_alone:
  assumes "interleaved clocked starts t0 w0 t w (ths @ [p])" "\<And>orc. orc \<in> set ors \<Longrightarrow> clocked t t orc" "runProg ors w p = (w', p')"
  shows "interleaved clocked starts t0 w0 t w' (ths @ [p'])"
  using assms
proof (induction ors w p rule: runProg.induct)
  case (1 orc ors w f)
  have "interleaved clocked starts t0 w0 t (fst (f orc w)) (ths @ [snd (f orc w)])"
    using act[OF 1(2), of "length ths" f t orc] 1(3) by simp
  then show ?case
    using 1(1)[of "fst (f orc w)" "snd (f orc w)"] 1(3,4) by (simp add: case_prod_unfold)
qed auto

definition liveThreads :: "('o, 'w, 'a) program list \<Rightarrow> nat" where
  "liveThreads ths = length (filter (\<lambda>p. case p of Ret _ \<Rightarrow> False | Act _ \<Rightarrow> True) ths)"

text \<open>
  An invariant of such a world with ownership: what a program owns (\<open>owns\<close>) no other program touches, because what two of them own
  is \<open>apart\<close>. Programs that are \<open>guarded\<close> one by one keep the invariant together.
\<close>

locale ownership =
  fixes inv :: "'t \<Rightarrow> 'w \<Rightarrow> bool"
    and owns :: "'t \<Rightarrow> 'w \<Rightarrow> 'g \<Rightarrow> bool"
    and apart :: "'g \<Rightarrow> 'g \<Rightarrow> bool"
    and nothing :: 'g
    and clocked :: "'t \<Rightarrow> 't \<Rightarrow> 'o \<Rightarrow> bool"
  assumes owns_nothing: "owns t w nothing"
    and apart_nothing: "apart nothing \<delta>"
    and apart_sym: "apart \<gamma> \<delta> \<Longrightarrow> apart \<delta> \<gamma>"
begin

definition keeps :: "'t \<Rightarrow> 'w \<Rightarrow> 'g \<Rightarrow> 't \<Rightarrow> 'w \<Rightarrow> 'g \<Rightarrow> bool" where
  "keeps t w \<gamma> t' w' \<gamma>' \<longleftrightarrow>
     inv t' w' \<and> owns t' w' \<gamma>' \<and> (\<forall>\<delta>. owns t w \<delta> \<longrightarrow> apart \<gamma> \<delta> \<longrightarrow> owns t' w' \<delta> \<and> apart \<gamma>' \<delta>)"

inductive guarded :: "'g \<Rightarrow> ('o, 'w, 'a) program \<Rightarrow> ('a \<Rightarrow> 'g \<Rightarrow> bool) \<Rightarrow> bool" where
  guarded_Ret: "Q x \<gamma> \<Longrightarrow> guarded \<gamma> (Ret x) Q"
| guarded_Act: "(\<And>t t' orc w. inv t w \<Longrightarrow> owns t w \<gamma> \<Longrightarrow> clocked t t' orc \<Longrightarrow>
      \<exists>\<gamma>'. keeps t w \<gamma> t' (fst (f orc w)) \<gamma>' \<and> guarded \<gamma>' (snd (f orc w)) Q) \<Longrightarrow> guarded \<gamma> (Act f) Q"

inductive_cases guarded_Act_elim: "guarded \<gamma> (Act f) Q"

lemma guarded_bind:
  assumes "guarded \<gamma> p (\<lambda>x \<gamma>'. guarded \<gamma>' (k x) Q)"
  shows "guarded \<gamma> (bindP p k) Q"
  using assms
proof (induction \<gamma> p "\<lambda>x \<gamma>'. guarded \<gamma>' (k x) Q" rule: guarded.induct)
  case (guarded_Act \<gamma> f)
  have "guarded \<gamma> (Act (\<lambda>orc w. map_prod id (\<lambda>p. bindP p k) (f orc w))) Q"
  proof (rule guarded.guarded_Act)
    fix t t' orc w
    assume "inv t w" "owns t w \<gamma>" "clocked t t' orc"
    then show "\<exists>\<gamma>'. keeps t w \<gamma> t' (fst (map_prod id (\<lambda>p. bindP p k) (f orc w))) \<gamma>'
        \<and> guarded \<gamma>' (snd (map_prod id (\<lambda>p. bindP p k) (f orc w))) Q"
      using guarded_Act by fastforce
  qed
  then show ?case
    by simp
qed simp

lemma guarded_atom:
  assumes "\<And>t t' orc w w' x. inv t w \<Longrightarrow> owns t w \<gamma> \<Longrightarrow> clocked t t' orc \<Longrightarrow> f orc w = (w', x) \<Longrightarrow>
    \<exists>\<gamma>'. keeps t w \<gamma> t' w' \<gamma>' \<and> Q x \<gamma>'"
  shows "guarded \<gamma> (atom f) Q"
  unfolding atom_def
proof (rule guarded_Act)
  fix t t' orc w
  assume "inv t w" "owns t w \<gamma>" "clocked t t' orc"
  then show "\<exists>\<gamma>'. keeps t w \<gamma> t' (fst (map_prod id Ret (f orc w))) \<gamma>' \<and> guarded \<gamma>' (snd (map_prod id Ret (f orc w))) Q"
    using assms[of t w t' orc "fst (f orc w)" "snd (f orc w)"] by (auto intro: guarded_Ret)
qed

lemma guarded_mono: "guarded \<gamma> p Q \<Longrightarrow> (\<And>x \<gamma>'. Q x \<gamma>' \<Longrightarrow> Q' x \<gamma>') \<Longrightarrow> guarded \<gamma> p Q'"
proof (induction rule: guarded.induct)
  case (guarded_Act \<gamma> f Q)
  then show ?case
    by (intro guarded.guarded_Act) blast
qed (auto intro: guarded_Ret)

text \<open>What the threads of a reachable world own.\<close>

definition owners :: "'t \<Rightarrow> 'w \<Rightarrow> ('o, 'w, 'a) program list \<Rightarrow> 'g list \<Rightarrow> bool" where
  "owners t w ths \<gamma>s \<longleftrightarrow>
     length \<gamma>s = length ths \<and> (\<forall>k<length ths. owns t w (\<gamma>s ! k) \<and> guarded (\<gamma>s ! k) (ths ! k) (\<lambda>_ _. True))
     \<and> (\<forall>k<length ths. \<forall>l<length ths. k \<noteq> l \<longrightarrow> apart (\<gamma>s ! k) (\<gamma>s ! l))"

lemma owners_spawn:
  assumes "owners t w ths \<gamma>s" "guarded nothing p (\<lambda>_ _. True)"
  shows "owners t w (ths @ [p]) (\<gamma>s @ [nothing])"
  using assms owns_nothing apart_nothing apart_sym[OF apart_nothing] by (auto simp: owners_def nth_append less_Suc_eq)

lemma owners_act:
  assumes "inv t w" "owners t w ths \<gamma>s" "k < length ths" "ths ! k = Act f" "clocked t t' orc"
  obtains \<gamma>' where "inv t' (fst (f orc w))" "owners t' (fst (f orc w)) (ths[k := snd (f orc w)]) (\<gamma>s[k := \<gamma>'])"
proof -
  have "guarded (\<gamma>s ! k) (Act f) (\<lambda>_ _. True)" "owns t w (\<gamma>s ! k)"
    using assms(2-4) unfolding owners_def by metis+
  then obtain \<gamma>' where step: "keeps t w (\<gamma>s ! k) t' (fst (f orc w)) \<gamma>'" "guarded \<gamma>' (snd (f orc w)) (\<lambda>_ _. True)"
    using assms(1,5) by (elim guarded_Act_elim) blast
  have others: "owns t' (fst (f orc w)) (\<gamma>s ! l) \<and> apart \<gamma>' (\<gamma>s ! l)" if "l < length ths" "l \<noteq> k" for l
    using that assms(2,3) step(1) unfolding keeps_def owners_def by metis
  have "owners t' (fst (f orc w)) (ths[k := snd (f orc w)]) (\<gamma>s[k := \<gamma>'])"
    using assms(2,3) step others apart_sym[OF others[THEN conjunct2]]
    by (auto simp: owners_def nth_list_update keeps_def)
  then show ?thesis
    using that step(1) by (simp add: keeps_def)
qed

theorem interleaved_invariant:
  assumes "interleaved clocked starts t0 w0 t w ths" and "inv t0 w0" and "\<And>ths p. starts ths p \<Longrightarrow> guarded nothing p (\<lambda>_ _. True)"
  shows "inv t w \<and> (\<exists>\<gamma>s. owners t w ths \<gamma>s)"
  using assms(1)
proof (induction rule: interleaved.induct)
  case first
  then show ?case
    using assms(2) by (auto simp: owners_def)
next
  case (spawn t w ths p)
  then show ?case
    using owners_spawn assms(3) by blast
next
  case (act t w ths k f t' orc)
  then obtain \<gamma>s where "inv t w" "owners t w ths \<gamma>s"
    by blast
  then show ?case
    using owners_act[OF _ _ act(2,3,4)] by metis
next
  case (crash t w ths)
  then have "owners t w [] []"
    by (simp add: owners_def)
  then show ?case
    using crash by blast
qed

end

end
