(* ===== verification/Admission.thy ===== *)
theory Admission
  imports GoStrings
begin

text \<open>
  \<^verbatim>\<open>authorization/admission/admission.go\<close> and \<^verbatim>\<open>config.go\<close>: rate buckets and provisional capacity for
  operation submissions. The clock reading and the occupancy that \<^verbatim>\<open>UsageFunc\<close> reports are arguments of \<^verbatim>\<open>Admit\<close>; the call
  on the observer is part of its result. Counts are unbounded integers; the window of a configuration is a product of two 64-bit
  integers and wraps. JSON decoding is a parameter.
\<close>

section \<open>Limits and configuration\<close>

record Limits =
  lim_RequestsPerWindow :: int
  lim_Window :: duration
  lim_ClientActive :: int
  lim_ClientPending :: int
  lim_GlobalActive :: int
  lim_GlobalExecuting :: int

record ClientLimits =
  cl_RequestsPerWindow :: int
  cl_Window :: duration
  cl_Active :: int
  cl_Pending :: int

record AdmissionConfig =
  cfg_Default :: Limits
  cfg_Clients :: "ClientLimits gomap"

definition second :: duration where "second = 1000000000"

definition DefaultLimits :: Limits where
  "DefaultLimits =
     \<lparr>lim_RequestsPerWindow = 60, lim_Window = 60 * second, lim_ClientActive = 25, lim_ClientPending = 10,
      lim_GlobalActive = 512, lim_GlobalExecuting = 64\<rparr>"

definition DefaultConfig :: AdmissionConfig where
  "DefaultConfig = \<lparr>cfg_Default = DefaultLimits, cfg_Clients = []\<rparr>"

definition zeroLimits :: Limits where
  "zeroLimits =
     \<lparr>lim_RequestsPerWindow = 0, lim_Window = 0, lim_ClientActive = 0, lim_ClientPending = 0, lim_GlobalActive = 0,
      lim_GlobalExecuting = 0\<rparr>"

definition normalizedConfig :: "AdmissionConfig \<Rightarrow> AdmissionConfig" where
  "normalizedConfig config =
     (if cfg_Default config = zeroLimits \<and> length (cfg_Clients config) = 0 then DefaultConfig else config)"

definition positiveLimits :: "Limits \<Rightarrow> bool" where
  "positiveLimits v =
     (lim_RequestsPerWindow v > 0 \<and> lim_Window v > 0 \<and> lim_ClientActive v > 0 \<and> lim_ClientPending v > 0
      \<and> lim_GlobalActive v > 0 \<and> lim_GlobalExecuting v > 0)"

definition hierarchicalLimits :: "Limits \<Rightarrow> bool" where
  "hierarchicalLimits v =
     (lim_ClientPending v \<le> lim_ClientActive v \<and> lim_ClientActive v \<le> lim_GlobalActive v
      \<and> lim_GlobalExecuting v \<le> lim_GlobalActive v)"

definition validLimits :: "Limits \<Rightarrow> bool" where
  "validLimits v = (positiveLimits v \<and> hierarchicalLimits v)"

definition clientLimitsFrom :: "Limits \<Rightarrow> ClientLimits" where
  "clientLimitsFrom v =
     \<lparr>cl_RequestsPerWindow = lim_RequestsPerWindow v, cl_Window = lim_Window v, cl_Active = lim_ClientActive v,
      cl_Pending = lim_ClientPending v\<rparr>"

definition validClientLimits :: "ClientLimits \<Rightarrow> int \<Rightarrow> bool" where
  "validClientLimits v globalActive =
     (cl_RequestsPerWindow v > 0 \<and> cl_Window v > 0 \<and> cl_Active v > 0 \<and> cl_Pending v > 0
      \<and> cl_Pending v \<le> cl_Active v \<and> cl_Active v \<le> globalActive)"

definition maxClientIDBytes :: nat where "maxClientIDBytes = 128"

definition validClientID :: "string \<Rightarrow> bool" where
  "validClientID v = (v \<noteq> [] \<and> length v \<le> maxClientIDBytes)"

datatype admissionError =
    ErrControllerDependencies | ErrClientIdentity | ErrClientDuplicated | ErrClientLimits string
  | ErrClientUnconfigured | ErrUsageUnavailable | ErrConfigSyntax
  | LimitError string duration

section \<open>The controller\<close>

record clientState =
  cs_windowStart :: gotime
  cs_requests :: int
  cs_reserved :: int

record Controller =
  ac_limits :: Limits
  ac_clientLimits :: "ClientLimits gomap"
  ac_clients :: "clientState gomap"
  ac_globalReserved :: int

definition freshClient :: clientState where
  "freshClient = \<lparr>cs_windowStart = 0, cs_requests = 0, cs_reserved = 0\<rparr>"

fun clientStatesLoop :: "clientState gomap \<Rightarrow> string list \<Rightarrow> admissionError + clientState gomap" where
  "clientStatesLoop states [] = Inr states"
| "clientStatesLoop states (c # cs) =
     (let client = trimSpace c
      in if \<not> validClientID client then Inl ErrClientIdentity
         else if hasKey states client then Inl ErrClientDuplicated
         else clientStatesLoop (mapSet client freshClient states) cs)"

definition clientStates :: "string list \<Rightarrow> admissionError + clientState gomap" where
  "clientStates clients = clientStatesLoop [] clients"

fun overrideLoop ::
  "clientState gomap \<Rightarrow> int \<Rightarrow> ClientLimits gomap \<Rightarrow> ClientLimits gomap \<Rightarrow> admissionError + ClientLimits gomap" where
  "overrideLoop states globalActive result [] = Inr result"
| "overrideLoop states globalActive result ((client, limits) # rest) =
     (if \<not> hasKey states client \<or> \<not> validClientLimits limits globalActive then Inl (ErrClientLimits client)
      else overrideLoop states globalActive (mapSet client limits result) rest)"

definition configuredClientLimits :: "clientState gomap \<Rightarrow> AdmissionConfig \<Rightarrow> admissionError + ClientLimits gomap" where
  "configuredClientLimits states config =
     overrideLoop states (lim_GlobalActive (cfg_Default config))
       (map (\<lambda>(client, _). (client, clientLimitsFrom (cfg_Default config))) states) (cfg_Clients config)"

text \<open>\<^verbatim>\<open>newConfiguredController\<close> with a usage reader and a clock.\<close>

definition newConfiguredController :: "string list \<Rightarrow> AdmissionConfig \<Rightarrow> admissionError + Controller" where
  "newConfiguredController clients config0 =
     (let config = normalizedConfig config0
      in guardR (failIf (\<not> validLimits (cfg_Default config)) ErrControllerDependencies)
          (bindR (clientStates clients) (\<lambda>states.
            bindR (configuredClientLimits states config) (\<lambda>clientLimits.
              Inr \<lparr>ac_limits = cfg_Default config, ac_clientLimits = clientLimits, ac_clients = states,
                   ac_globalReserved = 0\<rparr>))))"

section \<open>The configuration file\<close>

record fileClientLimit =
  fcl_RequestsPerWindow :: int
  fcl_WindowSeconds :: int
  fcl_Active :: int
  fcl_Pending :: int

record fileConfig =
  fc_RequestsPerWindow :: int
  fc_WindowSeconds :: int
  fc_ClientActive :: int
  fc_ClientPending :: int
  fc_GlobalActive :: int
  fc_GlobalExecuting :: int
  fc_Clients :: "fileClientLimit gomap"

text \<open>\<open>decode\<close> is \<^verbatim>\<open>strictjson.Decode\<close>; integers are 64 bits wide, and so is the product that is the window.\<close>

definition configFrom :: "fileConfig \<Rightarrow> AdmissionConfig" where
  "configFrom wire =
     \<lparr>cfg_Default =
        \<lparr>lim_RequestsPerWindow = fc_RequestsPerWindow wire, lim_Window = wrap64 (fc_WindowSeconds wire * second),
         lim_ClientActive = fc_ClientActive wire, lim_ClientPending = fc_ClientPending wire,
         lim_GlobalActive = fc_GlobalActive wire, lim_GlobalExecuting = fc_GlobalExecuting wire\<rparr>,
      cfg_Clients =
        map (\<lambda>(client, l). (client,
               \<lparr>cl_RequestsPerWindow = fcl_RequestsPerWindow l, cl_Window = wrap64 (fcl_WindowSeconds l * second),
                cl_Active = fcl_Active l, cl_Pending = fcl_Pending l\<rparr>)) (fc_Clients wire)\<rparr>"

definition ParseConfig :: "(string \<Rightarrow> fileConfig option) \<Rightarrow> string \<Rightarrow> string list \<Rightarrow> admissionError + AdmissionConfig" where
  "ParseConfig decode data clients =
     (case decode data of
        None \<Rightarrow> Inl ErrConfigSyntax
      | Some wire \<Rightarrow>
          (let config = configFrom wire
           in bindR (newConfiguredController clients config) (\<lambda>_. Inr config)))"

section \<open>Admit and release\<close>

record Usage =
  us_ClientActive :: int
  us_ClientPending :: int
  us_GlobalActive :: int
  us_GlobalExecuting :: int

datatype observation = AdmissionAccepted | AdmissionRejected string

definition positiveDuration :: "duration \<Rightarrow> duration" where
  "positiveDuration v = (if v < second then second else v)"

definition capacityError :: "string \<Rightarrow> admissionError" where
  "capacityError code = LimitError code (2 * second)"

definition chargeRequest :: "clientState \<Rightarrow> ClientLimits \<Rightarrow> gotime \<Rightarrow> clientState \<times> admissionError option" where
  "chargeRequest state0 limits now =
     (let state = (if cs_windowStart state0 = 0 \<or> \<not> now < cs_windowStart state0 + cl_Window limits
                   then state0\<lparr>cs_windowStart := now, cs_requests := 0\<rparr> else state0)
      in if cs_requests state \<ge> cl_RequestsPerWindow limits then
           (state, Some (LimitError ''submission_rate_limited''
                           (positiveDuration (cs_windowStart state + cl_Window limits - now))))
         else (state\<lparr>cs_requests := cs_requests state + 1\<rparr>, None))"

definition capacityCode :: "Controller \<Rightarrow> clientState \<Rightarrow> ClientLimits \<Rightarrow> Usage \<Rightarrow> string" where
  "capacityCode c state limits usage =
     (if us_ClientActive usage + cs_reserved state \<ge> cl_Active limits then ''client_operation_limit''
      else if us_ClientPending usage + cs_reserved state \<ge> cl_Pending limits then ''client_pending_limit''
      else if us_GlobalActive usage + ac_globalReserved c \<ge> lim_GlobalActive (ac_limits c) then ''global_operation_limit''
      else if us_GlobalExecuting usage \<ge> lim_GlobalExecuting (ac_limits c) then ''global_execution_limit''
      else [])"

definition admissionErrorCode :: "admissionError \<Rightarrow> string" where
  "admissionErrorCode e = (case e of LimitError code _ \<Rightarrow> code | _ \<Rightarrow> ''other'')"

definition limitsOf :: "Controller \<Rightarrow> string \<Rightarrow> ClientLimits" where
  "limitsOf c client =
     (case map_of (ac_clientLimits c) client of
        Some l \<Rightarrow> l | None \<Rightarrow> \<lparr>cl_RequestsPerWindow = 0, cl_Window = 0, cl_Active = 0, cl_Pending = 0\<rparr>)"

text \<open>The controller afterwards, what the observer is told, and the permit: the client it holds a slot for.\<close>

definition Admit ::
  "string \<Rightarrow> gotime \<Rightarrow> Usage option \<Rightarrow> Controller \<Rightarrow> Controller \<times> observation \<times> (admissionError + string)" where
  "Admit client0 now usage c =
     (let client = trimSpace client0
      in case map_of (ac_clients c) client of
           None \<Rightarrow> (c, AdmissionRejected ''client_unconfigured'', Inl ErrClientUnconfigured)
         | Some state0 \<Rightarrow>
             (let limits = limitsOf c client; (state, chargeErr) = chargeRequest state0 limits now;
                  c1 = c\<lparr>ac_clients := mapSet client state (ac_clients c)\<rparr>
              in case chargeErr of
                   Some e \<Rightarrow> (c1, AdmissionRejected (admissionErrorCode e), Inl e)
                 | None \<Rightarrow>
                     (case usage of
                        None \<Rightarrow> (c1, AdmissionRejected ''store_unavailable'', Inl ErrUsageUnavailable)
                      | Some u \<Rightarrow>
                          (let code = capacityCode c1 state limits u
                           in if code \<noteq> [] then (c1, AdmissionRejected code, Inl (capacityError code))
                              else (c1\<lparr>ac_clients := mapSet client (state\<lparr>cs_reserved := cs_reserved state + 1\<rparr>) (ac_clients c1),
                                       ac_globalReserved := ac_globalReserved c1 + 1\<rparr>,
                                    AdmissionAccepted, Inr client)))))"

text \<open>The body of \<^verbatim>\<open>once.Do\<close> in \<^verbatim>\<open>Permit.release\<close>.\<close>

definition releaseSlot :: "string \<Rightarrow> Controller \<Rightarrow> Controller" where
  "releaseSlot client c =
     (let c1 = (case map_of (ac_clients c) client of
                  Some state \<Rightarrow>
                    if cs_reserved state > 0
                    then c\<lparr>ac_clients := mapSet client (state\<lparr>cs_reserved := cs_reserved state - 1\<rparr>) (ac_clients c)\<rparr> else c
                | None \<Rightarrow> c)
      in if ac_globalReserved c1 > 0 then c1\<lparr>ac_globalReserved := ac_globalReserved c1 - 1\<rparr> else c1)"

record Permit =
  pm_client :: string
  pm_done :: bool

definition release :: "Permit \<Rightarrow> Controller \<Rightarrow> Permit \<times> Controller" where
  "release p c = (if pm_done p then (p, c) else (p\<lparr>pm_done := True\<rparr>, releaseSlot (pm_client p) c))"

section \<open>The controller and its permits\<close>

text \<open>All permits ever handed out, and the steps of the system.\<close>

inductive admissionStep :: "Controller \<times> Permit list \<Rightarrow> Controller \<times> Permit list \<Rightarrow> bool" where
  admitted: "Admit client now usage c = (c', obs, Inr holder) \<Longrightarrow>
    admissionStep (c, ps) (c', ps @ [\<lparr>pm_client = holder, pm_done = False\<rparr>])"
| refused: "Admit client now usage c = (c', obs, Inl e) \<Longrightarrow> admissionStep (c, ps) (c', ps)"
| released: "k < length ps \<Longrightarrow> release (ps ! k) c = (p', c') \<Longrightarrow> admissionStep (c, ps) (c', ps[k := p'])"

inductive admissionReachable :: "Controller \<Rightarrow> Controller \<times> Permit list \<Rightarrow> bool" for c0 where
  start: "admissionReachable c0 (c0, [])"
| step: "admissionReachable c0 s \<Longrightarrow> admissionStep s s' \<Longrightarrow> admissionReachable c0 s'"

inductive_cases admissionStep_elim: "admissionStep (c, ps) s"

text \<open>The provisional slots that permits hold.\<close>

definition held :: "string \<Rightarrow> Permit list \<Rightarrow> int" where
  "held client ps = int (length (filter (\<lambda>p. pm_client p = client \<and> \<not> pm_done p) ps))"

definition outstanding :: "Permit list \<Rightarrow> int" where
  "outstanding ps = int (length (filter (\<lambda>p. \<not> pm_done p) ps))"

definition admissionInv :: "Controller \<Rightarrow> Permit list \<Rightarrow> bool" where
  "admissionInv c ps \<longleftrightarrow>
     (\<forall>client state. map_of (ac_clients c) client = Some state \<longrightarrow>
        cs_reserved state = held client ps \<and> 0 \<le> cs_requests state
        \<and> cs_requests state \<le> cl_RequestsPerWindow (limitsOf c client))
     \<and> (\<forall>p\<in>set ps. hasKey (ac_clients c) (pm_client p))
     \<and> ac_globalReserved c = outstanding ps"

section \<open>A constructed controller\<close>

definition controllerWf :: "Controller \<Rightarrow> bool" where
  "controllerWf c \<longleftrightarrow>
     validLimits (ac_limits c) \<and> dom (map_of (ac_clientLimits c)) = dom (map_of (ac_clients c))
     \<and> (\<forall>client limits. map_of (ac_clientLimits c) client = Some limits \<longrightarrow>
          validClientLimits limits (lim_GlobalActive (ac_limits c)))"

lemma clientStatesLoop_fresh:
  assumes "clientStatesLoop states cs = Inr states'"
    and "\<And>k v. map_of states k = Some v \<Longrightarrow> v = freshClient \<and> validClientID k"
    and "map_of states' k = Some v"
  shows "v = freshClient \<and> validClientID k"
  using assms
proof (induction states cs rule: clientStatesLoop.induct)
  case (2 states c cs)
  from "2.prems"(1) have ok: "validClientID (trimSpace c)" "\<not> hasKey states (trimSpace c)"
      "clientStatesLoop (mapSet (trimSpace c) freshClient states) cs = Inr states'"
    by (auto simp: Let_def split: if_splits)
  show ?case
    by (rule "2.IH"[OF refl _ _ ok(3) _ "2.prems"(3)])
      (use ok "2.prems"(2) in \<open>auto split: if_splits\<close>)
qed simp

lemma overrideLoop_limits:
  assumes "overrideLoop states g result cs = Inr result'"
    and "dom (map_of result) = dom (map_of states)"
    and "\<And>k v. map_of result k = Some v \<Longrightarrow> validClientLimits v g"
  shows "dom (map_of result') = dom (map_of states)
    \<and> (\<forall>k v. map_of result' k = Some v \<longrightarrow> validClientLimits v g)"
  using assms
proof (induction states g result cs rule: overrideLoop.induct)
  case (2 states g result client limits rest)
  from "2.prems"(1) have ok: "hasKey states client" "validClientLimits limits g"
      "overrideLoop states g (mapSet client limits result) rest = Inr result'"
    by (auto split: if_splits)
  show ?case
  proof (rule "2.IH"[OF _ ok(3)])
    show "dom (map_of (mapSet client limits result)) = dom (map_of states)"
      using ok(1) "2.prems"(2) by (auto simp: hasKey_def)
  qed (use ok "2.prems"(3) in \<open>auto split: if_splits\<close>)
qed auto

lemma default_limits_valid: "validLimits v \<Longrightarrow> validClientLimits (clientLimitsFrom v) (lim_GlobalActive v)"
  by (simp add: validLimits_def positiveLimits_def hierarchicalLimits_def validClientLimits_def clientLimitsFrom_def)

lemma map_of_constant: "map_of (map (\<lambda>(k, _). (k, d)) m) k = (if k \<in> fst ` set m then Some d else None)"
  by (induction m) auto

lemma newConfiguredController_wf:
  assumes "newConfiguredController clients config = Inr c"
  shows "controllerWf c" and "\<And>k v. map_of (ac_clients c) k = Some v \<Longrightarrow> v = freshClient \<and> validClientID k"
    and "ac_globalReserved c = 0"
proof -
  let ?d = "cfg_Default (normalizedConfig config)"
  from assms obtain states limits where
    valid: "validLimits ?d" and states: "clientStates clients = Inr states"
    and limits: "configuredClientLimits states (normalizedConfig config) = Inr limits"
    and c: "c = \<lparr>ac_limits = ?d, ac_clientLimits = limits, ac_clients = states, ac_globalReserved = 0\<rparr>"
    by (auto simp: newConfiguredController_def Let_def)
  have "dom (map_of limits) = dom (map_of states)
      \<and> (\<forall>k v. map_of limits k = Some v \<longrightarrow> validClientLimits v (lim_GlobalActive ?d))"
    by (rule overrideLoop_limits[OF limits[unfolded configuredClientLimits_def]])
      (force simp: map_of_constant dom_map_of_conv_image_fst default_limits_valid[OF valid] split: if_splits)+
  then show "controllerWf c"
    by (simp add: controllerWf_def c valid)
  show "v = freshClient \<and> validClientID k" if "map_of (ac_clients c) k = Some v" for k v
    by (rule clientStatesLoop_fresh[OF states[unfolded clientStates_def]]) (use that c in auto)
  show "ac_globalReserved c = 0"
    by (simp add: c)
qed

lemma controllerWf_limitsOf:
  assumes "controllerWf c" and "map_of (ac_clients c) client = Some state"
  shows "validClientLimits (limitsOf c client) (lim_GlobalActive (ac_limits c))"
proof -
  have "client \<in> dom (map_of (ac_clientLimits c))"
    using assms by (auto simp: controllerWf_def)
  then obtain limits where "map_of (ac_clientLimits c) client = Some limits"
    by auto
  then show ?thesis
    using assms(1) by (simp add: controllerWf_def limitsOf_def)
qed

section \<open>Accounting\<close>

lemma held_snoc [simp]:
  "held client (ps @ [\<lparr>pm_client = holder, pm_done = False\<rparr>]) = held client ps + (if holder = client then 1 else 0)"
  by (simp add: held_def)

lemma outstanding_snoc [simp]: "outstanding (ps @ [\<lparr>pm_client = holder, pm_done = False\<rparr>]) = outstanding ps + 1"
  by (simp add: outstanding_def)

lemma filter_update:
  assumes "k < length xs" and "P (xs ! k)" and "\<not> P y"
  shows "int (length (filter P (xs[k := y]))) = int (length (filter P xs)) - 1"
proof -
  have "xs = take k xs @ xs ! k # drop (Suc k) xs"
    using assms(1) by (simp add: id_take_nth_drop)
  then have "length (filter P xs) = length (filter P (take k xs)) + 1 + length (filter P (drop (Suc k) xs))"
    using assms(2) by (metis filter.simps(2) filter_append length_Cons length_append add.assoc plus_1_eq_Suc)
  moreover have "length (filter P (xs[k := y])) = length (filter P (take k xs)) + length (filter P (drop (Suc k) xs))"
    using assms(1,3) by (simp add: upd_conv_take_nth_drop)
  ultimately show ?thesis
    by simp
qed

lemma filter_update_same:
  assumes "k < length xs" and "P (xs ! k) = P y"
  shows "length (filter P (xs[k := y])) = length (filter P xs)"
proof -
  have "filter P (xs[k := y]) = filter P (take k xs) @ filter P (y # drop (Suc k) xs)"
    using assms(1) by (simp add: upd_conv_take_nth_drop)
  moreover have "filter P xs = filter P (take k xs) @ filter P (xs ! k # drop (Suc k) xs)"
    using assms(1) by (metis filter_append id_take_nth_drop)
  ultimately show ?thesis
    using assms(2) by simp
qed

lemma held_released:
  assumes "k < length ps" and "\<not> pm_done (ps ! k)"
  shows "held client (ps[k := (ps ! k)\<lparr>pm_done := True\<rparr>]) = held client ps - (if pm_client (ps ! k) = client then 1 else 0)"
proof (cases "pm_client (ps ! k) = client")
  case True
  then show ?thesis
    using filter_update[of k ps "\<lambda>p. pm_client p = client \<and> \<not> pm_done p"] assms by (simp add: held_def)
next
  case False
  then show ?thesis
    using filter_update_same[of k ps "\<lambda>p. pm_client p = client \<and> \<not> pm_done p"] assms(1) by (simp add: held_def)
qed

lemma outstanding_released:
  assumes "k < length ps" and "\<not> pm_done (ps ! k)"
  shows "outstanding (ps[k := (ps ! k)\<lparr>pm_done := True\<rparr>]) = outstanding ps - 1"
  using filter_update[of k ps "\<lambda>p. \<not> pm_done p"] assms by (simp add: outstanding_def)

lemma held_pos:
  assumes "k < length ps" and "\<not> pm_done (ps ! k)"
  shows "0 < held (pm_client (ps ! k)) ps" and "0 < outstanding ps"
  using assms by (auto simp: held_def outstanding_def filter_empty_conv intro!: bexI[of _ "ps ! k"])

lemma limitsOf_update [simp]:
  "limitsOf (c\<lparr>ac_clients := x\<rparr>) = limitsOf c" "limitsOf (c\<lparr>ac_globalReserved := n\<rparr>) = limitsOf c"
  by (simp_all add: fun_eq_iff limitsOf_def)

lemma chargeRequest_bounds:
  assumes "chargeRequest state limits now = (state', err)"
    and "0 \<le> cs_requests state" "cs_requests state \<le> cl_RequestsPerWindow limits"
  shows "cs_reserved state' = cs_reserved state \<and> 0 \<le> cs_requests state'
    \<and> cs_requests state' \<le> cl_RequestsPerWindow limits"
  using assms by (auto simp: chargeRequest_def Let_def split: if_splits)

lemma Admit_spec:
  assumes "Admit client now usage c = (c', obs, r)"
  obtains (unknown) "map_of (ac_clients c) (trimSpace client) = None" "c' = c" "r = Inl ErrClientUnconfigured"
  | (charged) state state' err where
      "map_of (ac_clients c) (trimSpace client) = Some state"
      "chargeRequest state (limitsOf c (trimSpace client)) now = (state', err)"
      "c' = c\<lparr>ac_clients := mapSet (trimSpace client) state' (ac_clients c)\<rparr>"
      "\<exists>e. r = Inl e \<and> (\<forall>e'. err = Some e' \<longrightarrow> e = e')
         \<and> (err = None \<longrightarrow> e = ErrUsageUnavailable
              \<or> e = capacityError (capacityCode c state' (limitsOf c (trimSpace client)) (the usage)))"
  | (admit) state state' u where
      "map_of (ac_clients c) (trimSpace client) = Some state"
      "chargeRequest state (limitsOf c (trimSpace client)) now = (state', None)" "usage = Some u"
      "capacityCode c state' (limitsOf c (trimSpace client)) u = []"
      "map_of (ac_clients c') = (map_of (ac_clients c))(trimSpace client \<mapsto> state'\<lparr>cs_reserved := cs_reserved state' + 1\<rparr>)"
      "ac_limits c' = ac_limits c" "ac_clientLimits c' = ac_clientLimits c" "ac_globalReserved c' = ac_globalReserved c + 1"
      "r = Inr (trimSpace client)" "obs = AdmissionAccepted"
proof (cases "map_of (ac_clients c) (trimSpace client)")
  case None
  then show thesis
    using assms by (intro unknown) (auto simp: Admit_def Let_def)
next
  case (Some state)
  obtain state' err where charge: "chargeRequest state (limitsOf c (trimSpace client)) now = (state', err)"
    by fastforce
  have capacity: "capacityCode (c\<lparr>ac_clients := x\<rparr>) = capacityCode c" for x
    by (simp add: fun_eq_iff capacityCode_def)
  show thesis
  proof (cases "err = None \<and> usage \<noteq> None \<and> capacityCode c state' (limitsOf c (trimSpace client)) (the usage) = []")
    case True
    then obtain u where u: "err = None" "usage = Some u" "capacityCode c state' (limitsOf c (trimSpace client)) u = []"
      by auto
    have "Admit client now usage c =
        (c\<lparr>ac_clients := mapSet (trimSpace client) (state'\<lparr>cs_reserved := cs_reserved state' + 1\<rparr>)
             (mapSet (trimSpace client) state' (ac_clients c)), ac_globalReserved := ac_globalReserved c + 1\<rparr>,
         AdmissionAccepted, Inr (trimSpace client))"
      using Some charge u by (simp add: Admit_def Let_def capacity)
    with assms show thesis
      by (intro admit[OF Some charge[unfolded u(1)] u(2,3)]) auto
  next
    case False
    then show thesis
      using assms Some charge
      by (intro charged[OF Some charge]) (auto simp: Admit_def Let_def capacity split: option.splits if_splits)
  qed
qed

lemma Admit_inv:
  assumes "admissionInv c ps" and "Admit client now usage c = (c', obs, r)"
  shows "admissionInv c' (case r of Inl _ \<Rightarrow> ps | Inr holder \<Rightarrow> ps @ [\<lparr>pm_client = holder, pm_done = False\<rparr>])"
  using assms(2)
proof (cases rule: Admit_spec)
  case unknown
  then show ?thesis
    using assms(1) by simp
next
  case (charged state state' err)
  have "cs_reserved state' = cs_reserved state \<and> 0 \<le> cs_requests state'
      \<and> cs_requests state' \<le> cl_RequestsPerWindow (limitsOf c (trimSpace client))"
    by (rule chargeRequest_bounds[OF charged(2)]) (use assms(1) charged(1) in \<open>auto simp: admissionInv_def\<close>)
  then show ?thesis
    using assms(1) charged by (auto simp: admissionInv_def hasKey_def)
next
  case (admit state state' u)
  have "cs_reserved state' = cs_reserved state \<and> 0 \<le> cs_requests state'
      \<and> cs_requests state' \<le> cl_RequestsPerWindow (limitsOf c (trimSpace client))"
    by (rule chargeRequest_bounds[OF admit(2)]) (use assms(1) admit(1) in \<open>auto simp: admissionInv_def\<close>)
  moreover have "limitsOf c' = limitsOf c"
    using admit(7) by (simp add: fun_eq_iff limitsOf_def)
  ultimately show ?thesis
    using assms(1) admit by (auto simp: admissionInv_def hasKey_def)
qed

lemma Admit_config:
  assumes "Admit client now usage c = (c', obs, r)"
  shows "ac_limits c' = ac_limits c" and "ac_clientLimits c' = ac_clientLimits c"
    and "dom (map_of (ac_clients c')) = dom (map_of (ac_clients c))"
  using assms by (cases rule: Admit_spec; auto)+

lemma releaseSlot_inv:
  assumes "admissionInv c ps" and "k < length ps" and "\<not> pm_done (ps ! k)"
  shows "admissionInv (releaseSlot (pm_client (ps ! k)) c) (ps[k := (ps ! k)\<lparr>pm_done := True\<rparr>])"
proof -
  have "hasKey (ac_clients c) (pm_client (ps ! k))"
    using assms(1) nth_mem[OF assms(2)] by (auto simp: admissionInv_def)
  then obtain state where state: "map_of (ac_clients c) (pm_client (ps ! k)) = Some state"
    by (auto simp: hasKey_def)
  have reserved: "cs_reserved state > 0" "ac_globalReserved c > 0"
    using assms(1) state held_pos[OF assms(2,3)] by (auto simp: admissionInv_def)
  have "ac_globalReserved (releaseSlot (pm_client (ps ! k)) c) = ac_globalReserved c - 1"
      "limitsOf (releaseSlot (pm_client (ps ! k)) c) = limitsOf c"
      "map_of (ac_clients (releaseSlot (pm_client (ps ! k)) c))
       = (map_of (ac_clients c))(pm_client (ps ! k) \<mapsto> state\<lparr>cs_reserved := cs_reserved state - 1\<rparr>)"
    using state reserved by (simp_all add: releaseSlot_def Let_def)
  moreover have "\<forall>p\<in>set (ps[k := (ps ! k)\<lparr>pm_done := True\<rparr>]). hasKey (ac_clients c) (pm_client p)"
    using assms(1,2) by (auto simp: admissionInv_def dest!: subsetD[OF set_update_subset_insert])
  ultimately show ?thesis
    using assms state by (auto simp: admissionInv_def hasKey_def held_released outstanding_released)
qed

lemma releaseSlot_config:
  "ac_limits (releaseSlot client c) = ac_limits c" "ac_clientLimits (releaseSlot client c) = ac_clientLimits c"
  "dom (map_of (ac_clients (releaseSlot client c))) = dom (map_of (ac_clients c))"
  by (auto simp: releaseSlot_def Let_def split: option.splits)

section \<open>Reachable controllers\<close>

lemma admissionStep_config:
  assumes "admissionStep (c, ps) (c', ps')"
  shows "ac_limits c' = ac_limits c \<and> ac_clientLimits c' = ac_clientLimits c
    \<and> dom (map_of (ac_clients c')) = dom (map_of (ac_clients c))"
  using assms
  by (cases rule: admissionStep.cases)
    (metis Admit_config, metis Admit_config, metis Pair_inject release_def releaseSlot_config)

lemma admissionStep_inv:
  assumes "admissionStep (c, ps) (c', ps')" and "admissionInv c ps"
  shows "admissionInv c' ps'"
  using assms(1)
proof (cases rule: admissionStep.cases)
  case (admitted client now usage obs holder)
  then show ?thesis
    using Admit_inv[OF assms(2) admitted(2)] by simp
next
  case (refused client now usage obs e)
  then show ?thesis
    using Admit_inv[OF assms(2) refused(2)] by simp
next
  case (released k p')
  then show ?thesis
    using assms(2) releaseSlot_inv[OF assms(2)] by (auto simp: release_def split: if_splits)
qed

lemma admissionReachable_inv:
  assumes "admissionReachable c0 s" and "newConfiguredController clients config = Inr c0"
  shows "admissionInv (fst s) (snd s) \<and> controllerWf (fst s) \<and> ac_limits (fst s) = ac_limits c0
    \<and> ac_clientLimits (fst s) = ac_clientLimits c0"
  using assms(1)
proof (induction rule: admissionReachable.induct)
  case start
  have "state = freshClient \<and> 0 \<le> cl_RequestsPerWindow (limitsOf c0 client)"
    if "map_of (ac_clients c0) client = Some state" for client state
    using controllerWf_limitsOf[OF newConfiguredController_wf(1)[OF assms(2)] that]
      newConfiguredController_wf(2)[OF assms(2) that] by (simp add: validClientLimits_def)
  then show ?case
    using newConfiguredController_wf(1,3)[OF assms(2)]
    by (fastforce simp: admissionInv_def held_def outstanding_def freshClient_def)
next
  case (step s s')
  obtain c ps c' ps' where s: "s = (c, ps)" "s' = (c', ps')"
    by (cases s; cases s')
  show ?case
    using step.IH admissionStep_inv[of c ps c' ps'] admissionStep_config[of c ps c' ps'] step.hyps(2)[unfolded s]
    unfolding s controllerWf_def fst_conv snd_conv by metis
qed

lemma capacityCode_free:
  "capacityCode c state limits u = [] \<longleftrightarrow>
     us_ClientActive u + cs_reserved state < cl_Active limits \<and> us_ClientPending u + cs_reserved state < cl_Pending limits
     \<and> us_GlobalActive u + ac_globalReserved c < lim_GlobalActive (ac_limits c)
     \<and> us_GlobalExecuting u < lim_GlobalExecuting (ac_limits c)"
  by (auto simp: capacityCode_def)

lemma capacityCode_not_rate: "capacityCode c state limits u \<noteq> ''submission_rate_limited''"
  by (simp add: capacityCode_def)

lemma chargeRequest_refused:
  assumes "chargeRequest state limits now = (state', Some e)"
  shows "e = LimitError ''submission_rate_limited'' (positiveDuration (cs_windowStart state' + cl_Window limits - now))"
  using assms by (auto simp: chargeRequest_def Let_def split: if_splits)

lemma chargeRequest_new_window:
  assumes "cs_windowStart state + cl_Window limits \<le> now" and "0 < cl_RequestsPerWindow limits"
  shows "snd (chargeRequest state limits now) = None"
  using assms by (simp add: chargeRequest_def Let_def)

section \<open>An example\<close>

text \<open>A client that may make one request a minute and hold one slot.\<close>

definition exampleAdmissionConfig :: AdmissionConfig where
  "exampleAdmissionConfig =
     \<lparr>cfg_Default = DefaultLimits,
      cfg_Clients = [(''a'', \<lparr>cl_RequestsPerWindow = 1, cl_Window = 60 * second, cl_Active = 1, cl_Pending = 1\<rparr>)]\<rparr>"

definition exampleController :: Controller where
  "exampleController = (case newConfiguredController [''a''] exampleAdmissionConfig of Inr c \<Rightarrow> c | Inl _ \<Rightarrow> undefined)"

definition idleUsage :: Usage where
  "idleUsage = \<lparr>us_ClientActive = 0, us_ClientPending = 0, us_GlobalActive = 0, us_GlobalExecuting = 0\<rparr>"

definition exampleAdmitted :: Controller where
  "exampleAdmitted = fst (Admit ''a'' (100 * second) (Some idleUsage) exampleController)"

lemma exampleController_ok: "newConfiguredController [''a''] exampleAdmissionConfig = Inr exampleController"
  by code_simp

lemma exampleAdmitted_step:
  "Admit ''a'' (100 * second) (Some idleUsage) exampleController = (exampleAdmitted, AdmissionAccepted, Inr ''a'')"
  by code_simp

lemma exampleAdmitted_reachable:
  "admissionReachable exampleController (exampleAdmitted, [\<lparr>pm_client = ''a'', pm_done = False\<rparr>])"
  using admissionReachable.step[OF admissionReachable.start admissionStep.admitted[OF exampleAdmitted_step]] by simp

section \<open>Properties\<close>

text \<open>
  C29. No provisional slot leaks and none is freed twice: whatever sequence of admissions, refusals and (possibly repeated) commits
  and releases a controller has served, the slots it counts as reserved for a client are exactly those of the unreleased permits
  of that client, the global count is that of all unreleased permits, and the requests charged in the client's current window
  stay within its configured rate.
\<close>
theorem admission_accounting:
  assumes "newConfiguredController clients config = Inr c0" and "admissionReachable c0 (c, ps)"
    and "map_of (ac_clients c) client = Some state"
  shows "cs_reserved state = held client ps \<and> ac_globalReserved c = outstanding ps
    \<and> 0 \<le> cs_requests state \<and> cs_requests state \<le> cl_RequestsPerWindow (limitsOf c0 client)"
proof -
  have "admissionInv c ps" and "ac_clientLimits c = ac_clientLimits c0"
    using admissionReachable_inv[OF assms(2,1)] by simp_all
  moreover from this(2) have "limitsOf c = limitsOf c0"
    by (simp add: fun_eq_iff limitsOf_def)
  ultimately show ?thesis
    using assms(3) by (auto simp: admissionInv_def)
qed

theorem admission_accounting_witness:
  "cs_reserved (the (map_of (ac_clients exampleAdmitted) ''a'')) = held ''a'' [\<lparr>pm_client = ''a'', pm_done = False\<rparr>]
   \<and> cs_reserved (the (map_of (ac_clients exampleAdmitted) ''a'')) = 1"
proof -
  have state: "map_of (ac_clients exampleAdmitted) ''a''
      = Some \<lparr>cs_windowStart = 100 * second, cs_requests = 1, cs_reserved = 1\<rparr>"
    by code_simp
  show ?thesis
    using admission_accounting[OF exampleController_ok exampleAdmitted_reachable state] state by simp
qed

text \<open>
  C30. A permit is given only while capacity is left: counting the durable occupancy and every unreleased permit, the new one
  included, the client stays within its active and pending limits, all clients together within the global limit, and the number of
  executing operations is below its limit.
\<close>
theorem admission_within_limits:
  assumes "newConfiguredController clients config = Inr c0" and "admissionReachable c0 (c, ps)"
    and "Admit client now (Some u) c = (c', obs, Inr holder)"
  shows "us_ClientActive u + held holder ps + 1 \<le> cl_Active (limitsOf c0 holder)
    \<and> us_ClientPending u + held holder ps + 1 \<le> cl_Pending (limitsOf c0 holder)
    \<and> us_GlobalActive u + outstanding ps + 1 \<le> lim_GlobalActive (ac_limits c0)
    \<and> us_GlobalExecuting u < lim_GlobalExecuting (ac_limits c0)
    \<and> obs = AdmissionAccepted"
proof -
  have inv: "admissionInv c ps" and config: "ac_limits c = ac_limits c0" "ac_clientLimits c = ac_clientLimits c0"
    using admissionReachable_inv[OF assms(2,1)] by simp_all
  from config(2) have limits: "limitsOf c = limitsOf c0"
    by (simp add: fun_eq_iff limitsOf_def)
  from assms(3) show ?thesis
  proof (cases rule: Admit_spec)
    case (admit state state' u')
    have "cs_reserved state' = held holder ps"
      using chargeRequest_bounds[OF admit(2)] inv admit(1,9) by (auto simp: admissionInv_def)
    then show ?thesis
      using admit inv limits config(1) by (auto simp: capacityCode_free admissionInv_def)
  qed simp_all
qed

theorem admission_within_limits_witness:
  "us_ClientActive idleUsage + held ''a'' [] + 1 \<le> cl_Active (limitsOf exampleController ''a'')"
  using admission_within_limits[OF exampleController_ok admissionReachable.start exampleAdmitted_step] by simp

text \<open>
  The delay that a rate refusal reports is enough: it is at least a second, and the client's next request, made when the delay has
  passed, is not refused for its rate again, whatever the occupancy is by then.
\<close>
lemma retry_after_suffices:
  assumes "newConfiguredController clients config = Inr c0" and "admissionReachable c0 (c, ps)"
    and "Admit client now usage c = (c', obs, Inl (LimitError ''submission_rate_limited'' delay))"
    and "now + delay \<le> later"
  shows "second \<le> delay
    \<and> (\<forall>delay'. snd (snd (Admit client later usage' c')) \<noteq> Inl (LimitError ''submission_rate_limited'' delay'))"
proof -
  have wf: "controllerWf c"
    using admissionReachable_inv[OF assms(2,1)] by simp
  let ?l = "limitsOf c (trimSpace client)"
  from assms(3) show ?thesis
  proof (cases rule: Admit_spec)
    case (charged state state' err)
    have delay: "delay = positiveDuration (cs_windowStart state' + cl_Window ?l - now)"
      using charged(2,4) chargeRequest_refused[of state ?l now state']
      by (cases err) (auto simp: capacityError_def capacityCode_not_rate[symmetric])
    then have "cs_windowStart state' + cl_Window ?l \<le> later" "second \<le> delay"
      using assms(4) by (auto simp: positiveDuration_def split: if_splits)
    moreover have "0 < cl_RequestsPerWindow ?l"
      using controllerWf_limitsOf[OF wf charged(1)] by (simp add: validClientLimits_def)
    ultimately have free: "snd (chargeRequest state' ?l later) = None"
      by (intro chargeRequest_new_window)
    have "r \<noteq> Inl (LimitError ''submission_rate_limited'' delay')"
      if "Admit client later usage' c' = (c'', obs', r)" for c'' obs' r delay'
      using that
      by (cases rule: Admit_spec)
        (use free charged(3) in \<open>auto simp: capacityError_def capacityCode_not_rate capacityCode_not_rate[symmetric]\<close>)
    then show ?thesis
      using \<open>second \<le> delay\<close> by (metis prod.collapse)
  qed simp_all
qed


definition exampleFileConfig :: "int \<Rightarrow> fileConfig" where
  "exampleFileConfig windowSeconds =
     \<lparr>fc_RequestsPerWindow = 60, fc_WindowSeconds = windowSeconds, fc_ClientActive = 25, fc_ClientPending = 10,
      fc_GlobalActive = 512, fc_GlobalExecuting = 64, fc_Clients = []\<rparr>"


text \<open>
  The window of a configuration file is multiplied in 64 bits and the product is not checked: a file that asks for 18446744074
  seconds is accepted and limits each client per 0.29 seconds.
\<close>
lemma admission_window_wraps:
  "ParseConfig (\<lambda>_. Some (exampleFileConfig 18446744074)) [] [''a''] = Inr (configFrom (exampleFileConfig 18446744074))
   \<and> lim_Window (cfg_Default (configFrom (exampleFileConfig 18446744074))) = 290448384"
  by code_simp

end
