(* ===== verification/AgentOperations.thy ===== *)
theory AgentOperations
  imports GrantTypes Admission
begin

text \<open>
  The store of agent operations: \<^verbatim>\<open>agent/runtime/store.go\<close>, the vocabulary of \<^verbatim>\<open>agent/v1/types.go\<close>, and the database layer it
  stands on, \<^verbatim>\<open>internal/storage/state/operations.go\<close>, \<^verbatim>\<open>plans.go\<close> and the plan functions of \<^verbatim>\<open>grants.go\<close>.

  \<^item> The tables \<^verbatim>\<open>operations\<close> and \<^verbatim>\<open>plans\<close> are lists of rows. A row of an operation is the operation itself: the texts of its
    presentation and its error read back as they were written. Primary keys, the uniqueness of a client's idempotency key and
    the foreign key to a plan are checked on insertion, as the schema does.
  \<^item> JSON is a parameter (\<open>AgentEnv\<close>): decoding one object without duplicate keys and writing it back, compacting, and the digest of
    a plan. So is the test of a row against the length checks of its columns.
  \<^item> \<open>io k\<close> says whether the \<open>k\<close>-th statement of a call reaches the database.
\<close>

section \<open>Vocabulary\<close>

datatype OpState =
    StatePending | StateApproved | StateExecuting | StateSucceeded | StateFailed | StateDenied | StateExpired | StateCanceled
  | StateOther string

definition Terminal :: "OpState \<Rightarrow> bool" where
  "Terminal s = (s \<in> set [StateSucceeded, StateFailed, StateDenied, StateExpired, StateCanceled])"

definition ValidState :: "OpState \<Rightarrow> bool" where
  "ValidState s =
     (s \<in> set [StatePending, StateApproved, StateExecuting, StateSucceeded, StateFailed, StateDenied, StateExpired, StateCanceled])"

record Presentation =
  pres_Title :: string
  pres_Summary :: string

record OperationError =
  oe_Code :: string
  oe_Message :: string

record Operation =
  ao_APIVersion :: string
  ao_ID :: string
  ao_Broker :: string
  ao_ClientID :: string
  ao_IdempotencyKey :: string
  ao_Operation :: string
  ao_Target :: string
  ao_Arguments :: string
  ao_Reason :: string
  ao_State :: OpState
  ao_Revision :: int
  ao_ApprovalID :: string
  ao_CreatedAt :: gotime
  ao_UpdatedAt :: gotime
  ao_TerminalAt :: "gotime option"
  ao_Presentation :: Presentation
  ao_PlanDigest :: string
  ao_Result :: string
  ao_Error :: "OperationError option"

definition AgentAPIVersion :: string where "AgentAPIVersion = ''unyolo.io/agent/v1''"

definition keyStart :: "char \<Rightarrow> bool" where
  "keyStart c = (isDigit c \<or> (65 \<le> byte c \<and> byte c \<le> 90) \<or> (97 \<le> byte c \<and> byte c \<le> 122))"

definition keyChar :: "char \<Rightarrow> bool" where
  "keyChar c = (keyStart c \<or> c \<in> set ''._:-'')"

definition ValidIdempotencyKey :: "string \<Rightarrow> bool" where
  "ValidIdempotencyKey value = (case value of [] \<Rightarrow> False | c # cs \<Rightarrow> keyStart c \<and> length cs \<le> 127 \<and> list_all keyChar cs)"

record Submission =
  su_ID :: string
  su_Broker :: string
  su_ClientID :: string
  su_IdempotencyKey :: string
  su_Operation :: string
  su_Target :: string
  su_Arguments :: string
  su_Reason :: string
  su_Presentation :: Presentation
  su_PlanDigest :: string
  su_ApprovalID :: string

record PlanRecord =
  pr_Digest :: string
  pr_SchemaName :: string
  pr_Canonical :: string
  pr_CreatedAt :: gotime

datatype opError =
    OpNotFound | OpIdempotencyConflict | OpInvalidTransition | OpNotCancelable | OpCapacity | OpNoChange
  | OpDatabase | OpConstraint | OpPlanMismatch | OpPlanInvalid | OpPlanCollision
  | OpIdentity | OpPresentation | OpTarget | OpArguments | OpResult | OpNewID | OpGrantRequired
  | OpErrorInvalid | OpListOptions | OpInvalidRecord opError | OpStoredIdentity | OpStoredTerminal | OpStoredState

record AgentEnv =
  ae_object :: "string \<Rightarrow> string option"
  ae_compact :: "string \<Rightarrow> string option"
  ae_digest :: "string \<Rightarrow> string"
  ae_fits :: "Operation \<Rightarrow> bool"

record AgentDB =
  ad_ops :: "Operation list"
  ad_plans :: "PlanRecord list"

definition emptyDB :: AgentDB where
  "emptyDB = \<lparr>ad_ops = [], ad_plans = []\<rparr>"

definition day :: duration where "day = 24 * 60 * 60 * second"
definition TerminalRetention :: duration where "TerminalRetention = 30 * day"
definition maxTargetBytes :: nat where "maxTargetBytes = 16 * 1024"
definition maxArgumentsBytes :: nat where "maxArgumentsBytes = 1024 * 1024"
definition maxResultBytes :: nat where "maxResultBytes = 2 * 1024 * 1024"
definition maxOperations :: int where "maxOperations = 1000000"

section \<open>Validation\<close>

definition normalizeObjectLimit :: "AgentEnv \<Rightarrow> string \<Rightarrow> nat \<Rightarrow> opError \<Rightarrow> opError + string" where
  "normalizeObjectLimit env value maximum e =
     (if value = [] \<or> length value > maximum then Inl e
      else (case ae_object env value of None \<Rightarrow> Inl e | Some canonical \<Rightarrow> Inr canonical))"

definition validRequiredValue :: "string \<Rightarrow> nat \<Rightarrow> bool" where
  "validRequiredValue value maximum = (value \<noteq> [] \<and> length value \<le> maximum)"

definition validOperationID :: "string \<Rightarrow> bool" where
  "validOperationID value =
     (prefix ''op_'' value \<and> 8 \<le> length value \<and> length value \<le> 128
      \<and> \<not> containsAny value [CHR 0x20, CHR 0x09, CHR 0x0D, CHR 0x0A])"

definition validSubmitIdentity :: "Submission \<Rightarrow> bool" where
  "validSubmitIdentity input =
     ((su_ID input = [] \<or> validOperationID (su_ID input)) \<and> validRequiredValue (su_Broker input) 64
      \<and> validRequiredValue (su_ClientID input) 128 \<and> ValidIdempotencyKey (su_IdempotencyKey input)
      \<and> validRequiredValue (su_Operation input) 128 \<and> length (su_ApprovalID input) \<le> 128)"

definition validSubmitPresentation :: "Submission \<Rightarrow> bool" where
  "validSubmitPresentation input =
     (length (su_Reason input) \<le> 2000 \<and> pres_Title (su_Presentation input) \<noteq> []
      \<and> length (pres_Title (su_Presentation input)) \<le> 160 \<and> length (pres_Summary (su_Presentation input)) \<le> 500
      \<and> (su_PlanDigest input = [] \<or> plandigest_Valid (su_PlanDigest input)))"

definition trimSubmission :: "Submission \<Rightarrow> Submission" where
  "trimSubmission input =
     input\<lparr>su_ID := trimSpace (su_ID input), su_Broker := trimSpace (su_Broker input),
       su_ClientID := trimSpace (su_ClientID input), su_IdempotencyKey := trimSpace (su_IdempotencyKey input),
       su_Operation := trimSpace (su_Operation input), su_Reason := trimSpace (su_Reason input),
       su_Presentation := \<lparr>pres_Title = trimSpace (pres_Title (su_Presentation input)),
                           pres_Summary = trimSpace (pres_Summary (su_Presentation input))\<rparr>,
       su_PlanDigest := trimSpace (su_PlanDigest input), su_ApprovalID := trimSpace (su_ApprovalID input)\<rparr>"

definition normalizeSubmit :: "AgentEnv \<Rightarrow> Submission \<Rightarrow> opError + Submission" where
  "normalizeSubmit env input0 =
     (let input = trimSubmission input0
      in guardR (failIf (\<not> validSubmitIdentity input) OpIdentity)
          (guardR (failIf (\<not> validSubmitPresentation input) OpPresentation)
            (bindR (normalizeObjectLimit env (su_Target input) maxTargetBytes OpTarget) (\<lambda>target.
              bindR (normalizeObjectLimit env (su_Arguments input) maxArgumentsBytes OpArguments) (\<lambda>arguments.
                Inr (input\<lparr>su_Target := target, su_Arguments := arguments\<rparr>))))))"

definition validOperationError :: "OperationError \<Rightarrow> bool" where
  "validOperationError value =
     (\<not> blank (oe_Code value) \<and> length (oe_Code value) \<le> 64 \<and> \<not> blank (oe_Message value) \<and> length (oe_Message value) \<le> 500)"

definition validStoredIdentity :: "Operation \<Rightarrow> bool" where
  "validStoredIdentity op =
     (ao_APIVersion op = AgentAPIVersion \<and> \<not> blank (ao_ID op) \<and> length (ao_ID op) \<le> 128 \<and> 1 \<le> ao_Revision op
      \<and> ao_CreatedAt op \<noteq> 0 \<and> ao_UpdatedAt op \<noteq> 0 \<and> \<not> ao_UpdatedAt op < ao_CreatedAt op)"

definition validStoredTerminal :: "Operation \<Rightarrow> bool" where
  "validStoredTerminal op = (Terminal (ao_State op) = (ao_TerminalAt op \<noteq> None))"

definition validStoredState :: "Operation \<Rightarrow> bool" where
  "validStoredState op = (ValidState (ao_State op) \<and> length (ao_ApprovalID op) \<le> 128)"

definition validateStoredLifecycle :: "Operation \<Rightarrow> opError option" where
  "validateStoredLifecycle op =
     (if \<not> validStoredTerminal op then Some OpStoredTerminal
      else if \<not> validStoredState op then Some OpStoredState
      else (case ao_Error op of None \<Rightarrow> None | Some e \<Rightarrow> failIf (\<not> validOperationError e) OpErrorInvalid))"

definition submissionOf :: "Operation \<Rightarrow> Submission" where
  "submissionOf op =
     \<lparr>su_ID = [], su_Broker = ao_Broker op, su_ClientID = ao_ClientID op, su_IdempotencyKey = ao_IdempotencyKey op,
      su_Operation = ao_Operation op, su_Target = ao_Target op, su_Arguments = ao_Arguments op, su_Reason = ao_Reason op,
      su_Presentation = ao_Presentation op, su_PlanDigest = [], su_ApprovalID = []\<rparr>"

definition validateStored :: "AgentEnv \<Rightarrow> Operation \<Rightarrow> opError option" where
  "validateStored env op =
     (if \<not> validStoredIdentity op then Some OpStoredIdentity
      else (case normalizeSubmit env (submissionOf op) of
              Inl e \<Rightarrow> Some e
            | Inr _ \<Rightarrow>
                orElse (validateStoredLifecycle op)
                  (if ao_Result op = [] then None
                   else (case normalizeObjectLimit env (ao_Result op) maxResultBytes OpResult of
                           Inl e \<Rightarrow> Some e | Inr _ \<Rightarrow> None))))"

definition operationFromRecord :: "AgentEnv \<Rightarrow> Operation \<Rightarrow> opError + Operation" where
  "operationFromRecord env record =
     (case validateStored env record of Some e \<Rightarrow> Inl (OpInvalidRecord e) | None \<Rightarrow> Inr record)"

definition equalJSON :: "AgentEnv \<Rightarrow> string \<Rightarrow> string \<Rightarrow> bool" where
  "equalJSON env left right =
     (case (ae_compact env left, ae_compact env right) of (Some a, Some b) \<Rightarrow> a = b | _ \<Rightarrow> False)"

definition sameSubmission :: "AgentEnv \<Rightarrow> Operation \<Rightarrow> Submission \<Rightarrow> bool" where
  "sameSubmission env existing input =
     (ao_Broker existing = su_Broker input \<and> ao_Operation existing = su_Operation input \<and> ao_Reason existing = su_Reason input
      \<and> ao_Presentation existing = su_Presentation input \<and> ao_PlanDigest existing = su_PlanDigest input
      \<and> ao_ApprovalID existing = su_ApprovalID input \<and> equalJSON env (ao_Target existing) (su_Target input)
      \<and> equalJSON env (ao_Arguments existing) (su_Arguments input))"

section \<open>The tables\<close>

definition planDigests :: "AgentDB \<Rightarrow> string set" where
  "planDigests db = pr_Digest ` set (ad_plans db)"

definition rowAccepted :: "AgentEnv \<Rightarrow> AgentDB \<Rightarrow> Operation \<Rightarrow> bool" where
  "rowAccepted env db op = (ae_fits env op \<and> (ao_PlanDigest op = [] \<or> ao_PlanDigest op \<in> planDigests db))"

definition InsertOperation :: "AgentEnv \<Rightarrow> bool \<Rightarrow> Operation \<Rightarrow> AgentDB \<Rightarrow> opError + AgentDB" where
  "InsertOperation env ok op db =
     (if \<not> ok then Inl OpDatabase
      else if \<not> rowAccepted env db op \<or> ao_ID op \<in> ao_ID ` set (ad_ops db)
              \<or> (ao_ClientID op, ao_IdempotencyKey op) \<in> (\<lambda>r. (ao_ClientID r, ao_IdempotencyKey r)) ` set (ad_ops db)
      then Inl OpConstraint
      else Inr (db\<lparr>ad_ops := ad_ops db @ [op]\<rparr>))"

definition validatePlanContent :: "string \<Rightarrow> string \<Rightarrow> opError option" where
  "validatePlanContent schemaName canonical =
     failIf (blank schemaName \<or> length schemaName > 128 \<or> canonical = [] \<or> length canonical > 1024 * 1024
             \<or> trimSpace canonical \<noteq> canonical) OpPlanInvalid"

definition validatePlanRecord :: "AgentEnv \<Rightarrow> PlanRecord \<Rightarrow> opError option" where
  "validatePlanRecord env plan =
     orElse (validatePlanContent (pr_SchemaName plan) (pr_Canonical plan))
       (failIf (\<not> plandigest_Valid (pr_Digest plan) \<or> pr_Digest plan \<noteq> ae_digest env (pr_Canonical plan) \<or> pr_CreatedAt plan = 0)
          OpPlanInvalid)"

definition verifyStoredPlan :: "PlanRecord \<Rightarrow> PlanRecord \<Rightarrow> opError option" where
  "verifyStoredPlan stored plan =
     failIf (pr_SchemaName stored \<noteq> pr_SchemaName plan \<or> pr_Canonical stored \<noteq> pr_Canonical plan
             \<or> pr_CreatedAt stored \<noteq> pr_CreatedAt plan) OpPlanCollision"

definition findPlan :: "AgentDB \<Rightarrow> string \<Rightarrow> PlanRecord option" where
  "findPlan db digest = List.find (\<lambda>p. pr_Digest p = digest) (ad_plans db)"

definition putPlanWithQueries :: "AgentEnv \<Rightarrow> PlanRecord \<Rightarrow> AgentDB \<Rightarrow> opError + AgentDB" where
  "putPlanWithQueries env plan db =
     guardR (validatePlanRecord env plan)
       (case findPlan db (pr_Digest plan) of
          None \<Rightarrow> Inr (db\<lparr>ad_plans := ad_plans db @ [plan]\<rparr>)
        | Some stored \<Rightarrow> guardR (verifyStoredPlan stored plan) (Inr db))"

text \<open>\<^verbatim>\<open>Plan\<close> and \<^verbatim>\<open>PutPlan\<close>: a plan is read back only while its content still has the digest it is filed under.\<close>

definition Plan :: "AgentEnv \<Rightarrow> bool \<Rightarrow> string \<Rightarrow> AgentDB \<Rightarrow> opError + PlanRecord" where
  "Plan env ok digest db =
     (if \<not> plandigest_Valid digest then Inl OpPlanInvalid
      else if \<not> ok then Inl OpDatabase
      else (case findPlan db digest of
              None \<Rightarrow> Inl OpNotFound
            | Some p \<Rightarrow> if ae_digest env (pr_Canonical p) \<noteq> digest then Inl OpPlanMismatch else Inr p))"

definition PutPlan :: "AgentEnv \<Rightarrow> (nat \<Rightarrow> bool) \<Rightarrow> string \<Rightarrow> string \<Rightarrow> gotime \<Rightarrow> AgentDB \<Rightarrow> AgentDB \<times> (opError + string)" where
  "PutPlan env io schemaName canonical createdAt db =
     (case validatePlanContent schemaName canonical of
        Some e \<Rightarrow> (db, Inl e)
      | None \<Rightarrow>
          (let digest = ae_digest env canonical;
               plan = \<lparr>pr_Digest = digest, pr_SchemaName = schemaName, pr_Canonical = canonical, pr_CreatedAt = createdAt\<rparr>
           in if \<not> io 0 then (db, Inl OpDatabase)
              else (let db1 = (if findPlan db digest = None then db\<lparr>ad_plans := ad_plans db @ [plan]\<rparr> else db)
                    in (db1, case Plan env (io 1) digest db1 of
                               Inl e \<Rightarrow> Inl e
                             | Inr stored \<Rightarrow>
                                 if pr_SchemaName stored \<noteq> schemaName \<or> pr_Canonical stored \<noteq> canonical then Inl OpPlanCollision
                                 else Inr digest))))"

definition InsertOperationWithPlan :: "AgentEnv \<Rightarrow> bool \<Rightarrow> Operation \<Rightarrow> PlanRecord \<Rightarrow> AgentDB \<Rightarrow> opError + AgentDB" where
  "InsertOperationWithPlan env ok op plan db =
     (if \<not> ok then Inl OpDatabase
      else bindR (putPlanWithQueries env plan db) (\<lambda>db1.
             guardR (failIf (ao_PlanDigest op \<noteq> pr_Digest plan) OpPlanMismatch) (InsertOperation env True op db1)))"

text \<open>The columns that \<^verbatim>\<open>UpdateOperation\<close> writes, on the row with the identifier and the expected revision.\<close>

definition writeColumns :: "Operation \<Rightarrow> Operation \<Rightarrow> Operation" where
  "writeColumns op row =
     row\<lparr>ao_State := ao_State op, ao_Revision := ao_Revision op, ao_UpdatedAt := ao_UpdatedAt op,
         ao_TerminalAt := ao_TerminalAt op, ao_ApprovalID := ao_ApprovalID op, ao_Result := ao_Result op,
         ao_Error := ao_Error op, ao_PlanDigest := ao_PlanDigest op\<rparr>"

definition UpdateOperation :: "AgentEnv \<Rightarrow> bool \<Rightarrow> Operation \<Rightarrow> int \<Rightarrow> AgentDB \<Rightarrow> opError + AgentDB \<times> bool" where
  "UpdateOperation env ok op expected db =
     (let hit = (\<lambda>r. ao_ID r = ao_ID op \<and> ao_Revision r = expected)
      in if \<not> ok then Inl OpDatabase
         else if \<not> list_ex hit (ad_ops db) then Inr (db, False)
         else if \<not> list_all (\<lambda>r. hit r \<longrightarrow> rowAccepted env db (writeColumns op r)) (ad_ops db) then Inl OpConstraint
         else Inr (db\<lparr>ad_ops := map (\<lambda>r. if hit r then writeColumns op r else r) (ad_ops db)\<rparr>, True))"

definition UpdateOperationWithPlan ::
  "AgentEnv \<Rightarrow> bool \<Rightarrow> Operation \<Rightarrow> int \<Rightarrow> PlanRecord \<Rightarrow> AgentDB \<Rightarrow> opError + AgentDB \<times> bool" where
  "UpdateOperationWithPlan env ok op expected plan db =
     (if ao_PlanDigest op \<noteq> pr_Digest plan then Inl OpPlanMismatch
      else if \<not> ok then Inl OpDatabase
      else bindR (putPlanWithQueries env plan db) (\<lambda>db1.
             bindR (UpdateOperation env True op expected db1) (\<lambda>(db2, updated).
               Inr (if updated then (db2, True) else (db, False)))))"

definition OperationByID :: "string \<Rightarrow> AgentDB \<Rightarrow> Operation option" where
  "OperationByID i db = List.find (\<lambda>r. ao_ID r = i) (ad_ops db)"

text \<open>An empty client identity looks the operation up by its identifier alone.\<close>

definition OperationForClient :: "string \<Rightarrow> string \<Rightarrow> AgentDB \<Rightarrow> Operation option" where
  "OperationForClient i client db =
     (if client = [] then OperationByID i db
      else List.find (\<lambda>r. ao_ID r = i \<and> ao_ClientID r = client) (ad_ops db))"

definition OperationByIdempotency :: "string \<Rightarrow> string \<Rightarrow> AgentDB \<Rightarrow> Operation option" where
  "OperationByIdempotency client key db =
     List.find (\<lambda>r. ao_ClientID r = client \<and> ao_IdempotencyKey r = key) (ad_ops db)"

definition DeleteTerminalOperationsBefore :: "gotime \<Rightarrow> AgentDB \<Rightarrow> AgentDB" where
  "DeleteTerminalOperationsBefore cutoff db =
     db\<lparr>ad_ops := filter (\<lambda>r. case ao_TerminalAt r of None \<Rightarrow> True | Some t \<Rightarrow> \<not> t < cutoff) (ad_ops db)\<rparr>"

definition CountOperations :: "AgentDB \<Rightarrow> int" where
  "CountOperations db = int (length (ad_ops db))"

definition countOps :: "(Operation \<Rightarrow> bool) \<Rightarrow> AgentDB \<Rightarrow> int" where
  "countOps p db = int (length (filter p (ad_ops db)))"

text \<open>\<^verbatim>\<open>OperationUsage\<close> also counts the pending grants of the client; \<open>grants\<close> is that table.\<close>

definition OperationUsage :: "string \<Rightarrow> Grant list \<Rightarrow> AgentDB \<Rightarrow> Usage" where
  "OperationUsage client grants db =
     \<lparr>us_ClientActive = countOps (\<lambda>r. ao_ClientID r = client \<and> \<not> Terminal (ao_State r)) db,
      us_ClientPending = int (length (filter (\<lambda>g. g_Client g = client \<and> g_Status g = StatusPending) grants)),
      us_GlobalActive = countOps (\<lambda>r. \<not> Terminal (ao_State r)) db,
      us_GlobalExecuting = countOps (\<lambda>r. ao_State r = StateExecuting) db\<rparr>"

definition olderOp :: "Operation \<Rightarrow> Operation \<Rightarrow> bool" where
  "olderOp a b = (ao_CreatedAt a < ao_CreatedAt b \<or> (ao_CreatedAt a = ao_CreatedAt b \<and> ao_ID a \<le> ao_ID b))"

fun insertOp :: "(Operation \<Rightarrow> Operation \<Rightarrow> bool) \<Rightarrow> Operation \<Rightarrow> Operation list \<Rightarrow> Operation list" where
  "insertOp le x [] = [x]"
| "insertOp le x (y # ys) = (if le x y then x # y # ys else y # insertOp le x ys)"

definition orderOps :: "(Operation \<Rightarrow> Operation \<Rightarrow> bool) \<Rightarrow> Operation list \<Rightarrow> Operation list" where
  "orderOps le xs = foldr (insertOp le) xs []"

definition UnfinishedOperations :: "AgentDB \<Rightarrow> Operation list" where
  "UnfinishedOperations db = orderOps olderOp (filter (\<lambda>r. \<not> Terminal (ao_State r)) (ad_ops db))"

record OperationListOptions =
  lo_ClientID :: string
  lo_IdempotencyKey :: string
  lo_State :: "OpState option"
  lo_Cursor :: string
  lo_Limit :: nat

text \<open>\<^verbatim>\<open>OperationsForClient\<close>: newest first, after the row the cursor names.\<close>

definition OperationsForClient :: "OperationListOptions \<Rightarrow> AgentDB \<Rightarrow> opError + Operation list" where
  "OperationsForClient options db =
     bindR (if lo_Cursor options = [] then Inr None
            else (case OperationForClient (lo_Cursor options) (lo_ClientID options) db of
                    None \<Rightarrow> Inl OpNotFound | Some c \<Rightarrow> Inr (Some (ao_CreatedAt c))))
       (\<lambda>cursor. Inr (take (lo_Limit options) (orderOps (\<lambda>a b. olderOp b a)
          (filter (\<lambda>r. ao_ClientID r = lo_ClientID options
              \<and> (lo_IdempotencyKey options = [] \<or> ao_IdempotencyKey r = lo_IdempotencyKey options)
              \<and> (case lo_State options of None \<Rightarrow> True | Some s \<Rightarrow> ao_State r = s)
              \<and> (case cursor of None \<Rightarrow> True
                 | Some t \<Rightarrow> ao_CreatedAt r < t \<or> (ao_CreatedAt r = t \<and> ao_ID r < lo_Cursor options)))
            (ad_ops db)))))"

section \<open>Submitting\<close>

type_synonym io = "nat \<Rightarrow> bool"

definition findSubmission :: "AgentEnv \<Rightarrow> bool \<Rightarrow> Submission \<Rightarrow> AgentDB \<Rightarrow> opError + Operation option" where
  "findSubmission env ok input db =
     (if \<not> ok then Inl OpDatabase
      else (case OperationByIdempotency (su_ClientID input) (su_IdempotencyKey input) db of
              None \<Rightarrow> Inr None
            | Some record \<Rightarrow>
                bindR (operationFromRecord env record) (\<lambda>existing.
                  if \<not> sameSubmission env existing input then Inl OpIdempotencyConflict else Inr (Some existing))))"

definition newOperation :: "string \<Rightarrow> gotime \<Rightarrow> OpState \<Rightarrow> Submission \<Rightarrow> Operation" where
  "newOperation i now initial input =
     \<lparr>ao_APIVersion = AgentAPIVersion, ao_ID = i, ao_Broker = su_Broker input, ao_ClientID = su_ClientID input,
      ao_IdempotencyKey = su_IdempotencyKey input, ao_Operation = su_Operation input, ao_Target = su_Target input,
      ao_Arguments = su_Arguments input, ao_Reason = su_Reason input, ao_State = initial, ao_Revision = 1,
      ao_ApprovalID = su_ApprovalID input, ao_CreatedAt = now, ao_UpdatedAt = now, ao_TerminalAt = None,
      ao_Presentation = su_Presentation input, ao_PlanDigest = su_PlanDigest input, ao_Result = [], ao_Error = None\<rparr>"

definition createOperation ::
  "AgentEnv \<Rightarrow> io \<Rightarrow> string option \<Rightarrow> Submission \<Rightarrow> gotime \<Rightarrow> PlanRecord option \<Rightarrow> OpState \<Rightarrow> AgentDB
   \<Rightarrow> AgentDB \<times> (opError + Operation \<times> bool)" where
  "createOperation env io newID input now plan initial db =
     (if \<not> io 2 then (db, Inl OpDatabase)
      else if CountOperations db \<ge> maxOperations then (db, Inl OpCapacity)
      else (case (if su_ID input = [] then newID else Some (su_ID input)) of
              None \<Rightarrow> (db, Inl OpNewID)
            | Some i \<Rightarrow>
                (let op = newOperation i now initial input
                 in case (case plan of None \<Rightarrow> InsertOperation env (io 3) op db
                          | Some p \<Rightarrow> InsertOperationWithPlan env (io 3) op p db) of
                      Inl e \<Rightarrow> (db, Inl e)
                    | Inr db1 \<Rightarrow> (db1, Inr (op, True)))))"

definition submitLocked ::
  "AgentEnv \<Rightarrow> io \<Rightarrow> string option \<Rightarrow> Submission \<Rightarrow> gotime \<Rightarrow> PlanRecord option \<Rightarrow> OpState \<Rightarrow> AgentDB
   \<Rightarrow> AgentDB \<times> (opError + Operation \<times> bool)" where
  "submitLocked env io newID input now plan initial db =
     (if \<not> io 0 then (db, Inl OpDatabase)
      else (let db1 = DeleteTerminalOperationsBefore (now - TerminalRetention) db
            in case findSubmission env (io 1) input db1 of
                 Inl e \<Rightarrow> (db1, Inl e)
               | Inr (Some existing) \<Rightarrow> (db1, Inr (existing, False))
               | Inr None \<Rightarrow> createOperation env io newID input now plan initial db1))"

definition submit ::
  "AgentEnv \<Rightarrow> io \<Rightarrow> string option \<Rightarrow> Submission \<Rightarrow> gotime \<Rightarrow> PlanRecord option \<Rightarrow> OpState \<Rightarrow> AgentDB
   \<Rightarrow> AgentDB \<times> (opError + Operation \<times> bool)" where
  "submit env io newID input0 now plan initial db =
     (case normalizeSubmit env input0 of
        Inl e \<Rightarrow> (db, Inl e)
      | Inr input \<Rightarrow> submitLocked env io newID input now plan initial db)"

definition SubmitPending ::
  "AgentEnv \<Rightarrow> io \<Rightarrow> string option \<Rightarrow> Submission \<Rightarrow> gotime \<Rightarrow> AgentDB \<Rightarrow> AgentDB \<times> (opError + Operation \<times> bool)" where
  "SubmitPending env io newID input now db = submit env io newID input now None StatePending db"

definition submitWithPlan ::
  "AgentEnv \<Rightarrow> io \<Rightarrow> string option \<Rightarrow> Submission \<Rightarrow> gotime \<Rightarrow> PlanRecord \<Rightarrow> OpState \<Rightarrow> AgentDB
   \<Rightarrow> AgentDB \<times> (opError + Operation \<times> bool)" where
  "submitWithPlan env io newID input now plan initial db =
     submit env io newID (input\<lparr>su_PlanDigest := pr_Digest plan\<rparr>) now (Some plan) initial db"

definition SubmitWithPlan ::
  "AgentEnv \<Rightarrow> io \<Rightarrow> string option \<Rightarrow> Submission \<Rightarrow> gotime \<Rightarrow> PlanRecord \<Rightarrow> AgentDB \<Rightarrow> AgentDB \<times> (opError + Operation \<times> bool)" where
  "SubmitWithPlan env io newID input now plan db = submitWithPlan env io newID input now plan StatePending db"

definition SubmitApprovedWithPlan ::
  "AgentEnv \<Rightarrow> io \<Rightarrow> string option \<Rightarrow> Submission \<Rightarrow> gotime \<Rightarrow> PlanRecord \<Rightarrow> AgentDB \<Rightarrow> AgentDB \<times> (opError + Operation \<times> bool)" where
  "SubmitApprovedWithPlan env io newID input now plan db = submitWithPlan env io newID input now plan StateApproved db"

definition SubmitApprovedWithGrantPlan ::
  "AgentEnv \<Rightarrow> io \<Rightarrow> string option \<Rightarrow> Submission \<Rightarrow> gotime \<Rightarrow> PlanRecord \<Rightarrow> string \<Rightarrow> AgentDB
   \<Rightarrow> AgentDB \<times> (opError + Operation \<times> bool)" where
  "SubmitApprovedWithGrantPlan env io newID input now plan approvalID db =
     (if trimSpace approvalID = [] then (db, Inl OpGrantRequired)
      else submitWithPlan env io newID (input\<lparr>su_ApprovalID := trimSpace approvalID\<rparr>) now plan StateApproved db)"

section \<open>Reading\<close>

definition storedOperation :: "AgentEnv \<Rightarrow> bool \<Rightarrow> Operation option \<Rightarrow> opError + Operation" where
  "storedOperation env ok record =
     (if \<not> ok then Inl OpDatabase else (case record of None \<Rightarrow> Inl OpNotFound | Some r \<Rightarrow> operationFromRecord env r))"

definition GetOperation :: "AgentEnv \<Rightarrow> bool \<Rightarrow> string \<Rightarrow> string \<Rightarrow> AgentDB \<Rightarrow> opError + Operation" where
  "GetOperation env ok client i db = storedOperation env ok (OperationForClient i client db)"

definition GetByID :: "AgentEnv \<Rightarrow> bool \<Rightarrow> string \<Rightarrow> AgentDB \<Rightarrow> opError + Operation" where
  "GetByID env ok i db = storedOperation env ok (OperationByID i db)"

definition GetByIdempotency :: "AgentEnv \<Rightarrow> bool \<Rightarrow> string \<Rightarrow> string \<Rightarrow> AgentDB \<Rightarrow> opError + Operation" where
  "GetByIdempotency env ok client0 key0 db =
     (let client = trimSpace client0; key = trimSpace key0
      in if client = [] \<or> key = [] then Inl OpNotFound
         else storedOperation env ok (OperationByIdempotency client key db))"

definition ListUnfinished :: "AgentEnv \<Rightarrow> bool \<Rightarrow> AgentDB \<Rightarrow> opError + Operation list" where
  "ListUnfinished env ok db =
     (if \<not> ok then Inl OpDatabase else traverseR (operationFromRecord env) (UnfinishedOperations db))"

record ListOptions =
  li_IdempotencyKey :: string
  li_State :: "OpState option"
  li_Limit :: int
  li_Cursor :: string

definition defaultListLimit :: int where "defaultListLimit = 20"
definition maxListLimit :: int where "maxListLimit = 50"

definition validListIdentity :: "string \<Rightarrow> ListOptions \<Rightarrow> bool" where
  "validListIdentity client options =
     (client \<noteq> [] \<and> (li_IdempotencyKey options = [] \<or> ValidIdempotencyKey (li_IdempotencyKey options))
      \<and> length (li_Cursor options) \<le> 128)"

definition validListSelection :: "ListOptions \<Rightarrow> bool" where
  "validListSelection options =
     (1 \<le> li_Limit options \<and> li_Limit options \<le> maxListLimit
      \<and> (case li_State options of None \<Rightarrow> True | Some s \<Rightarrow> ValidState s))"

definition normalizeListOptions :: "string \<Rightarrow> ListOptions \<Rightarrow> opError + string \<times> ListOptions" where
  "normalizeListOptions client0 options0 =
     (let client = trimSpace client0;
          options1 = options0\<lparr>li_IdempotencyKey := trimSpace (li_IdempotencyKey options0), li_Cursor := trimSpace (li_Cursor options0)\<rparr>;
          options = (if li_Limit options1 = 0 then options1\<lparr>li_Limit := defaultListLimit\<rparr> else options1)
      in if \<not> validListIdentity client options \<or> \<not> validListSelection options then Inl OpListOptions
         else Inr (client, options))"

record OperationSummary =
  os_APIVersion :: string
  os_ID :: string
  os_Broker :: string
  os_ClientID :: string
  os_IdempotencyKey :: string
  os_Operation :: string
  os_State :: OpState
  os_Revision :: int
  os_CreatedAt :: gotime
  os_UpdatedAt :: gotime
  os_TerminalAt :: "gotime option"
  os_Presentation :: Presentation

definition operationSummary :: "Operation \<Rightarrow> OperationSummary" where
  "operationSummary op =
     \<lparr>os_APIVersion = ao_APIVersion op, os_ID = ao_ID op, os_Broker = ao_Broker op, os_ClientID = ao_ClientID op,
      os_IdempotencyKey = ao_IdempotencyKey op, os_Operation = ao_Operation op, os_State = ao_State op,
      os_Revision = ao_Revision op, os_CreatedAt = ao_CreatedAt op, os_UpdatedAt = ao_UpdatedAt op,
      os_TerminalAt = ao_TerminalAt op, os_Presentation = ao_Presentation op\<rparr>"

record OperationPage =
  opg_Operations :: "OperationSummary list"
  opg_NextCursor :: "string option"

definition operationPage :: "AgentEnv \<Rightarrow> Operation list \<Rightarrow> nat \<Rightarrow> opError + OperationPage" where
  "operationPage env records limit =
     bindR (traverseR (operationFromRecord env) (take limit records)) (\<lambda>ops.
       Inr \<lparr>opg_Operations = map operationSummary ops,
            opg_NextCursor = (if length records > limit then Some (ao_ID (last ops)) else None)\<rparr>)"

definition ListOperations :: "AgentEnv \<Rightarrow> bool \<Rightarrow> string \<Rightarrow> ListOptions \<Rightarrow> AgentDB \<Rightarrow> opError + OperationPage" where
  "ListOperations env ok client0 options0 db =
     bindR (normalizeListOptions client0 options0) (\<lambda>(client, options).
       if \<not> ok then Inl OpDatabase
       else bindR (OperationsForClient
                \<lparr>lo_ClientID = client, lo_IdempotencyKey = li_IdempotencyKey options, lo_State = li_State options,
                 lo_Cursor = li_Cursor options, lo_Limit = nat (li_Limit options) + 1\<rparr> db)
              (\<lambda>records. operationPage env records (nat (li_Limit options))))"

section \<open>Updating\<close>

text \<open>\<^verbatim>\<open>operationTransitions\<close>.\<close>

definition operationTransitions :: "(OpState \<times> OpState list) list" where
  "operationTransitions =
     [(StatePending, [StateApproved, StateDenied, StateExpired, StateCanceled, StateFailed]),
      (StateApproved, [StateExecuting, StateExpired, StateCanceled, StateFailed]),
      (StateExecuting, [StateSucceeded, StateFailed])]"

definition allowedTransition :: "OpState \<Rightarrow> OpState \<Rightarrow> bool" where
  "allowedTransition from to =
     (case map_of operationTransitions from of None \<Rightarrow> False | Some states \<Rightarrow> to \<in> set states)"

definition prepareOperationUpdate :: "gotime \<Rightarrow> Operation \<Rightarrow> Operation" where
  "prepareOperationUpdate now op =
     (let op1 = op\<lparr>ao_Revision := ao_Revision op + 1, ao_UpdatedAt := now\<rparr>
      in if Terminal (ao_State op1) then op1\<lparr>ao_TerminalAt := Some (ao_UpdatedAt op1)\<rparr> else op1)"

type_synonym opChange = "Operation \<Rightarrow> opError + Operation"

definition updateOp ::
  "AgentEnv \<Rightarrow> io \<Rightarrow> gotime \<Rightarrow> string \<Rightarrow> opChange \<Rightarrow> AgentDB \<Rightarrow> AgentDB \<times> (opError + Operation)" where
  "updateOp env io now i change db =
     (case storedOperation env (io 0) (OperationByID i db) of
        Inl e \<Rightarrow> (db, Inl e)
      | Inr op0 \<Rightarrow>
          (case change op0 of
             Inl e \<Rightarrow> if e = OpNoChange then (db, Inr op0) else (db, Inl e)
           | Inr op1 \<Rightarrow>
               (let op = prepareOperationUpdate now op1
                in case UpdateOperation env (io 1) op (ao_Revision op0) db of
                     Inl e \<Rightarrow> (db, Inl e)
                   | Inr (db1, updated) \<Rightarrow> if \<not> updated then (db1, Inl OpInvalidTransition) else (db1, Inr op))))"

definition cancelChange :: "string \<Rightarrow> opChange" where
  "cancelChange client op =
     (if ao_ClientID op \<noteq> client then Inl OpNotFound
      else if Terminal (ao_State op) then Inl OpNoChange
      else if ao_State op \<noteq> StatePending \<and> ao_State op \<noteq> StateApproved then Inl OpNotCancelable
      else Inr (op\<lparr>ao_State := StateCanceled,
                   ao_Error := Some \<lparr>oe_Code = ''operation_canceled'', oe_Message = ''Request was canceled''\<rparr>\<rparr>))"

definition CancelOperation ::
  "AgentEnv \<Rightarrow> io \<Rightarrow> gotime \<Rightarrow> string \<Rightarrow> string \<Rightarrow> AgentDB \<Rightarrow> AgentDB \<times> (opError + Operation)" where
  "CancelOperation env io now client i db = updateOp env io now i (cancelChange client) db"

definition approvalChange :: "string \<Rightarrow> opChange" where
  "approvalChange approvalID op =
     (if ao_State op \<noteq> StatePending \<or> blank approvalID \<or> (ao_ApprovalID op \<noteq> [] \<and> ao_ApprovalID op \<noteq> approvalID)
      then Inl OpInvalidTransition else Inr (op\<lparr>ao_ApprovalID := approvalID\<rparr>))"

definition SetApproval ::
  "AgentEnv \<Rightarrow> io \<Rightarrow> gotime \<Rightarrow> string \<Rightarrow> string \<Rightarrow> AgentDB \<Rightarrow> AgentDB \<times> (opError + Operation)" where
  "SetApproval env io now i approvalID db = updateOp env io now i (approvalChange approvalID) db"

definition transitionChange :: "OpState \<Rightarrow> opChange" where
  "transitionChange state op =
     (if \<not> allowedTransition (ao_State op) state then Inl OpInvalidTransition else Inr (op\<lparr>ao_State := state\<rparr>))"

definition Transition ::
  "AgentEnv \<Rightarrow> io \<Rightarrow> gotime \<Rightarrow> string \<Rightarrow> OpState \<Rightarrow> AgentDB \<Rightarrow> AgentDB \<times> (opError + Operation)" where
  "Transition env io now i state db = updateOp env io now i (transitionChange state) db"

definition succeedChange :: "string \<Rightarrow> opChange" where
  "succeedChange result op =
     (if ao_State op \<noteq> StateExecuting then Inl OpInvalidTransition
      else Inr (op\<lparr>ao_State := StateSucceeded, ao_Result := result\<rparr>))"

definition Succeed ::
  "AgentEnv \<Rightarrow> io \<Rightarrow> gotime \<Rightarrow> string \<Rightarrow> string \<Rightarrow> AgentDB \<Rightarrow> AgentDB \<times> (opError + Operation)" where
  "Succeed env io now i result0 db =
     (case normalizeObjectLimit env result0 maxResultBytes OpResult of
        Inl e \<Rightarrow> (db, Inl e)
      | Inr result \<Rightarrow> updateOp env io now i (succeedChange result) db)"

definition validFailureState :: "OpState \<Rightarrow> bool" where
  "validFailureState s = (s \<in> set [StateFailed, StateDenied, StateExpired, StateCanceled])"

definition failChange :: "OpState \<Rightarrow> OperationError \<Rightarrow> opChange" where
  "failChange state e op =
     (if \<not> allowedTransition (ao_State op) state then Inl OpInvalidTransition
      else Inr (op\<lparr>ao_State := state, ao_Error := Some e\<rparr>))"

definition Fail ::
  "AgentEnv \<Rightarrow> io \<Rightarrow> gotime \<Rightarrow> string \<Rightarrow> OpState \<Rightarrow> OperationError \<Rightarrow> AgentDB \<Rightarrow> AgentDB \<times> (opError + Operation)" where
  "Fail env io now i state e db =
     (if \<not> validFailureState state then (db, Inl OpInvalidTransition)
      else if \<not> validOperationError e then (db, Inl OpErrorInvalid)
      else updateOp env io now i (failChange state e) db)"

definition validPlanBinding :: "Operation \<Rightarrow> PlanRecord \<Rightarrow> string \<Rightarrow> bool \<Rightarrow> bool" where
  "validPlanBinding op plan approvalID direct =
     (ao_State op = StatePending \<and> ao_PlanDigest op = [] \<and> direct \<noteq> (approvalID \<noteq> []) \<and> plandigest_Valid (pr_Digest plan))"

definition boundOperation :: "PlanRecord \<Rightarrow> string \<Rightarrow> bool \<Rightarrow> Operation \<Rightarrow> Operation" where
  "boundOperation plan approvalID direct op =
     (let op1 = op\<lparr>ao_PlanDigest := pr_Digest plan, ao_ApprovalID := approvalID\<rparr>
      in if direct then op1\<lparr>ao_State := StateApproved\<rparr> else op1)"

definition BindPlan ::
  "AgentEnv \<Rightarrow> io \<Rightarrow> gotime \<Rightarrow> string \<Rightarrow> PlanRecord \<Rightarrow> string \<Rightarrow> bool \<Rightarrow> AgentDB \<Rightarrow> AgentDB \<times> (opError + Operation)" where
  "BindPlan env io now i plan approvalID0 direct db =
     (case storedOperation env (io 0) (OperationByID i db) of
        Inl e \<Rightarrow> (db, Inl e)
      | Inr op0 \<Rightarrow>
          (let approvalID = trimSpace approvalID0
           in if \<not> validPlanBinding op0 plan approvalID direct then (db, Inl OpInvalidTransition)
              else (let op = prepareOperationUpdate now (boundOperation plan approvalID direct op0)
                    in case UpdateOperationWithPlan env (io 1) op (ao_Revision op0) plan db of
                         Inl e \<Rightarrow> (db, Inl e)
                       | Inr (db1, updated) \<Rightarrow> if \<not> updated then (db1, Inl OpInvalidTransition) else (db1, Inr op))))"

section \<open>Waiting\<close>

text \<open>
  \<^verbatim>\<open>Wait\<close>: each round of the loop sees the database as it is then, and ends with the context done (and one more read) or with the
  signal of a change.
\<close>

datatype opWake = ContextDone bool AgentDB | OpSignaled

fun WaitOperation ::
  "AgentEnv \<Rightarrow> string \<Rightarrow> string \<Rightarrow> int \<Rightarrow> (bool \<times> AgentDB \<times> opWake) list \<Rightarrow> (opError + Operation) option" where
  "WaitOperation env client i after [] = None"
| "WaitOperation env client i after ((ok, db, wake) # rounds) =
     (case GetOperation env ok client i db of
        Inl e \<Rightarrow> Some (Inl e)
      | Inr op \<Rightarrow>
          if ao_Revision op > after \<or> Terminal (ao_State op) then Some (Inr op)
          else (case wake of
                  ContextDone ok' db' \<Rightarrow> Some (GetOperation env ok' client i db')
                | OpSignaled \<Rightarrow> WaitOperation env client i after rounds))"

end
