(* ===== verification/AgentStore.thy ===== *)
theory AgentStore
  imports AgentOperations
begin

text \<open>
  The agent operation store as a state machine: what every operation of the store keeps, and how one operation lives. Locale
  \<open>operation_change\<close> is the contract of a change run by \<^verbatim>\<open>update\<close>; it is interpreted on every change of the code.
\<close>

section \<open>Sound rows\<close>

text \<open>A row as \<^verbatim>\<open>validateStored\<close> accepts it, the lengths of its documents aside.\<close>

definition opSound :: "AgentEnv \<Rightarrow> Operation \<Rightarrow> bool" where
  "opSound env op \<longleftrightarrow>
     validStoredIdentity op \<and> validSubmitIdentity (trimSubmission (submissionOf op))
     \<and> validSubmitPresentation (trimSubmission (submissionOf op))
     \<and> ao_Target op \<noteq> [] \<and> ae_object env (ao_Target op) \<noteq> None \<and> ao_Arguments op \<noteq> [] \<and> ae_object env (ao_Arguments op) \<noteq> None
     \<and> validStoredTerminal op \<and> ValidState (ao_State op)
     \<and> (\<forall>e. ao_Error op = Some e \<longrightarrow> validOperationError e)
     \<and> (ao_Result op = [] \<or> ae_object env (ao_Result op) \<noteq> None)"

definition opSized :: "Operation \<Rightarrow> bool" where
  "opSized op \<longleftrightarrow>
     length (ao_Target op) \<le> maxTargetBytes \<and> length (ao_Arguments op) \<le> maxArgumentsBytes
     \<and> length (ao_Result op) \<le> maxResultBytes \<and> length (ao_ApprovalID op) \<le> 128"

lemma normalizeObjectLimit_Inr:
  "normalizeObjectLimit env v n e = Inr c \<longleftrightarrow> v \<noteq> [] \<and> length v \<le> n \<and> ae_object env v = Some c"
  by (auto simp: normalizeObjectLimit_def split: option.splits)

lemma normalizeSubmit_Inr:
  "normalizeSubmit env input0 = Inr input \<longleftrightarrow>
     validSubmitIdentity (trimSubmission input0) \<and> validSubmitPresentation (trimSubmission input0)
     \<and> (\<exists>target arguments. normalizeObjectLimit env (su_Target input0) maxTargetBytes OpTarget = Inr target
          \<and> normalizeObjectLimit env (su_Arguments input0) maxArgumentsBytes OpArguments = Inr arguments
          \<and> input = (trimSubmission input0)\<lparr>su_Target := target, su_Arguments := arguments\<rparr>)"
  by (auto simp: normalizeSubmit_def Let_def trimSubmission_def)

lemma validateStored_iff: "validateStored env op = None \<longleftrightarrow> opSound env op \<and> opSized op"
proof -
  have norm: "(\<exists>input. normalizeSubmit env (submissionOf op) = Inr input) \<longleftrightarrow>
      validSubmitIdentity (trimSubmission (submissionOf op)) \<and> validSubmitPresentation (trimSubmission (submissionOf op))
      \<and> ao_Target op \<noteq> [] \<and> length (ao_Target op) \<le> maxTargetBytes \<and> ae_object env (ao_Target op) \<noteq> None
      \<and> ao_Arguments op \<noteq> [] \<and> length (ao_Arguments op) \<le> maxArgumentsBytes \<and> ae_object env (ao_Arguments op) \<noteq> None"
    by (auto simp: normalizeSubmit_Inr normalizeObjectLimit_Inr submissionOf_def)
  have life: "validateStoredLifecycle op = None \<longleftrightarrow>
      validStoredTerminal op \<and> validStoredState op \<and> (\<forall>e. ao_Error op = Some e \<longrightarrow> validOperationError e)"
    by (auto simp: validateStoredLifecycle_def split: option.splits)
  have result: "(case normalizeObjectLimit env (ao_Result op) maxResultBytes OpResult of Inl e \<Rightarrow> Some e | Inr _ \<Rightarrow> None) = None \<longleftrightarrow>
      ao_Result op \<noteq> [] \<and> length (ao_Result op) \<le> maxResultBytes \<and> ae_object env (ao_Result op) \<noteq> None"
    by (auto simp: normalizeObjectLimit_def split: option.splits)
  have "validateStored env op = None \<longleftrightarrow>
      validStoredIdentity op \<and> (\<exists>input. normalizeSubmit env (submissionOf op) = Inr input) \<and> validateStoredLifecycle op = None
      \<and> (ao_Result op = [] \<or> (ao_Result op \<noteq> [] \<and> length (ao_Result op) \<le> maxResultBytes \<and> ae_object env (ao_Result op) \<noteq> None))"
    using result by (auto simp: validateStored_def orElse_def split: sum.splits option.splits if_splits)
  then show ?thesis
    unfolding norm life by (auto simp: opSound_def opSized_def validStoredState_def)
qed

lemma operationFromRecord_Inr: "operationFromRecord env r = Inr op \<longleftrightarrow> op = r \<and> opSound env r \<and> opSized r"
  using validateStored_iff[of env r] by (auto simp: operationFromRecord_def split: option.splits)

lemma storedOperation_Inr:
  "storedOperation env ok r = Inr op \<longleftrightarrow> ok \<and> r = Some op \<and> opSound env op \<and> opSized op"
  by (auto simp: storedOperation_def operationFromRecord_Inr split: option.splits)

section \<open>The life of one operation\<close>

definition fixedPart ::
  "Operation \<Rightarrow> string \<times> string \<times> string \<times> string \<times> string \<times> string \<times> string \<times> string \<times> string \<times> gotime \<times> Presentation" where
  "fixedPart op =
     (ao_APIVersion op, ao_ID op, ao_Broker op, ao_ClientID op, ao_IdempotencyKey op, ao_Operation op, ao_Target op,
      ao_Arguments op, ao_Reason op, ao_CreatedAt op, ao_Presentation op)"

definition opFollows :: "Operation \<Rightarrow> Operation \<Rightarrow> bool" where
  "opFollows old new \<longleftrightarrow>
     fixedPart new = fixedPart old \<and> allowedTransition\<^sup>*\<^sup>* (ao_State old) (ao_State new)
     \<and> (new = old \<or> ao_Revision old < ao_Revision new) \<and> (ao_PlanDigest old \<noteq> [] \<longrightarrow> ao_PlanDigest new = ao_PlanDigest old)
     \<and> (Terminal (ao_State old) \<or> \<not> opSized old \<longrightarrow> new = old)"

lemma opFollows_refl [simp]: "opFollows op op"
  by (simp add: opFollows_def)

lemma opFollows_trans: "opFollows a b \<Longrightarrow> opFollows b c \<Longrightarrow> opFollows a c"
  by (auto simp: opFollows_def)

lemma allowed_from:
  "allowedTransition s s' \<Longrightarrow> \<not> Terminal s \<and> ValidState s \<and> ValidState s' \<and> s \<noteq> s'"
  by (auto simp: allowedTransition_def operationTransitions_def Terminal_def ValidState_def split: option.splits if_splits)

text \<open>What one change may do to an operation before its revision is raised.\<close>

definition opMoves :: "AgentEnv \<Rightarrow> Operation \<Rightarrow> Operation \<Rightarrow> bool" where
  "opMoves env old new \<longleftrightarrow>
     fixedPart new = fixedPart old \<and> ao_Revision new = ao_Revision old \<and> ao_TerminalAt new = ao_TerminalAt old
     \<and> \<not> Terminal (ao_State old) \<and> (ao_State new = ao_State old \<or> allowedTransition (ao_State old) (ao_State new))
     \<and> (ao_PlanDigest old \<noteq> [] \<longrightarrow> ao_PlanDigest new = ao_PlanDigest old)
     \<and> (\<forall>e. ao_Error new = Some e \<longrightarrow> validOperationError e)
     \<and> (ao_Result new = [] \<or> ae_object env (ao_Result new) \<noteq> None)"

lemma prepared_follows:
  assumes "opMoves env old new" and "opSound env old" and "opSized old" and "ao_UpdatedAt old \<le> t" and "t \<le> now" and "0 < t"
  shows "opFollows old (prepareOperationUpdate now new)" and "opSound env (prepareOperationUpdate now new)"
    and "ao_UpdatedAt (prepareOperationUpdate now new) = now"
    and "ao_PlanDigest (prepareOperationUpdate now new) = ao_PlanDigest new"
    and "ao_ID (prepareOperationUpdate now new) = ao_ID old"
    and "\<forall>u. ao_TerminalAt (prepareOperationUpdate now new) = Some u \<longrightarrow> u = now"
proof -
  let ?p = "prepareOperationUpdate now new"
  have fields: "fixedPart ?p = fixedPart new" "ao_State ?p = ao_State new" "ao_Revision ?p = ao_Revision new + 1"
      "ao_PlanDigest ?p = ao_PlanDigest new" "ao_Error ?p = ao_Error new" "ao_Result ?p = ao_Result new"
      "ao_UpdatedAt ?p = now" "ao_TerminalAt ?p = (if Terminal (ao_State new) then Some now else ao_TerminalAt new)"
    by (simp_all add: prepareOperationUpdate_def Let_def fixedPart_def)
  show "opFollows old ?p"
    using assms(1,3) fields by (auto simp: opFollows_def opMoves_def)
  have same: "ao_APIVersion ?p = ao_APIVersion old" "ao_ID ?p = ao_ID old" "ao_CreatedAt ?p = ao_CreatedAt old"
      "ao_Target ?p = ao_Target old" "ao_Arguments ?p = ao_Arguments old" "submissionOf ?p = submissionOf old"
    using assms(1) fields(1) by (auto simp: opMoves_def fixedPart_def submissionOf_def)
  have "ao_TerminalAt old = None" "ValidState (ao_State old)" "0 \<noteq> now" "ao_CreatedAt old \<le> now"
    using assms by (auto simp: opSound_def validStoredTerminal_def opMoves_def validStoredIdentity_def)
  moreover have "ValidState (ao_State new)"
    using assms(1) allowed_from calculation(2) by (auto simp: opMoves_def)
  ultimately show "opSound env ?p"
    using assms(1,2) same fields by (auto simp: opSound_def opMoves_def validStoredIdentity_def validStoredTerminal_def)
  show "ao_UpdatedAt ?p = now" "ao_PlanDigest ?p = ao_PlanDigest new" "ao_ID ?p = ao_ID old"
    using fields same by simp_all
  show "\<forall>u. ao_TerminalAt ?p = Some u \<longrightarrow> u = now"
    using fields(8) assms(1,2) by (auto simp: opMoves_def opSound_def validStoredTerminal_def)
qed

lemma writeColumns_same: "fixedPart op = fixedPart row \<Longrightarrow> writeColumns op row = op"
  by (simp add: writeColumns_def fixedPart_def)

section \<open>The invariant\<close>

definition opsInv :: "AgentEnv \<Rightarrow> gotime \<Rightarrow> AgentDB \<Rightarrow> bool" where
  "opsInv env t db \<longleftrightarrow>
     0 < t \<and> distinct (map ao_ID (ad_ops db)) \<and> distinct (map (\<lambda>r. (ao_ClientID r, ao_IdempotencyKey r)) (ad_ops db))
     \<and> (\<forall>op\<in>set (ad_ops db). opSound env op \<and> ao_UpdatedAt op \<le> t \<and> (ao_PlanDigest op = [] \<or> ao_PlanDigest op \<in> planDigests db)
          \<and> (\<forall>u. ao_TerminalAt op = Some u \<longrightarrow> u = ao_UpdatedAt op))"

text \<open>Each row follows itself, unless it was terminal for longer than the retention time, and a row that follows none is new.\<close>

definition freshOp :: "gotime \<Rightarrow> Operation \<Rightarrow> bool" where
  "freshOp now op \<longleftrightarrow>
     ao_CreatedAt op = now \<and> ao_Revision op = 1 \<and> ao_State op \<in> {StatePending, StateApproved} \<and> ao_Result op = [] \<and> ao_Error op = None"

definition retired :: "gotime \<Rightarrow> Operation \<Rightarrow> bool" where
  "retired now op \<longleftrightarrow> (\<exists>t. ao_TerminalAt op = Some t \<and> t < now - TerminalRetention)"

definition opsEvolve :: "gotime \<Rightarrow> AgentDB \<Rightarrow> AgentDB \<Rightarrow> bool" where
  "opsEvolve now old new \<longleftrightarrow>
     (\<forall>op\<in>set (ad_ops old). retired now op \<or> (\<exists>op'\<in>set (ad_ops new). opFollows op op'))
     \<and> (\<forall>op'\<in>set (ad_ops new). freshOp now op' \<or> (\<exists>op\<in>set (ad_ops old). opFollows op op'))
     \<and> planDigests old \<subseteq> planDigests new"

definition opsMove :: "AgentEnv \<Rightarrow> gotime \<Rightarrow> AgentDB \<Rightarrow> AgentDB \<Rightarrow> bool" where
  "opsMove env now old new \<longleftrightarrow> opsInv env now new \<and> opsEvolve now old new"

lemma opsInv_later: "opsInv env t db \<Longrightarrow> t \<le> t' \<Longrightarrow> opsInv env t' db"
  by (fastforce simp: opsInv_def)

lemma opsMove_refl: "opsInv env t db \<Longrightarrow> t \<le> now \<Longrightarrow> opsMove env now db db"
  by (auto simp: opsMove_def opsEvolve_def intro: opsInv_later intro!: bexI)

lemma OperationByID_Some: "OperationByID i db = Some op \<Longrightarrow> op \<in> set (ad_ops db) \<and> ao_ID op = i"
  by (auto simp: OperationByID_def find_Some_iff)

definition replaceOp :: "Operation \<Rightarrow> AgentDB \<Rightarrow> AgentDB" where
  "replaceOp op db = db\<lparr>ad_ops := map (\<lambda>r. if ao_ID r = ao_ID op then op else r) (ad_ops db)\<rparr>"

lemma UpdateOperation_hit:
  assumes "opsInv env t db" and "row \<in> set (ad_ops db)" and "fixedPart op = fixedPart row"
    and "UpdateOperation env ok op (ao_Revision row) db = Inr (db', updated)"
  shows "updated \<and> db' = replaceOp op db \<and> rowAccepted env db op"
proof -
  have "ao_ID op = ao_ID row"
    using assms(3) by (simp add: fixedPart_def)
  have unique: "r = row" if "r \<in> set (ad_ops db)" "ao_ID r = ao_ID row" for r
    using assms(1,2) that by (auto simp: opsInv_def distinct_map inj_on_def)
  let ?hit = "\<lambda>r. ao_ID r = ao_ID op \<and> ao_Revision r = ao_Revision row"
  have "list_ex ?hit (ad_ops db)"
    using assms(2) \<open>ao_ID op = ao_ID row\<close> by (auto simp: list_ex_iff)
  moreover have rows: "map (\<lambda>r. if ?hit r then writeColumns op r else r) (ad_ops db)
      = map (\<lambda>r. if ao_ID r = ao_ID op then op else r) (ad_ops db)"
    using unique \<open>ao_ID op = ao_ID row\<close> writeColumns_same[OF assms(3)] by (intro map_cong refl) auto
  moreover have "list_all (\<lambda>r. ?hit r \<longrightarrow> rowAccepted env db (writeColumns op r)) (ad_ops db) \<Longrightarrow> rowAccepted env db op"
    using assms(2) \<open>ao_ID op = ao_ID row\<close> writeColumns_same[OF assms(3)] by (auto simp: list_all_iff)
  ultimately show ?thesis
    using assms(4) unfolding UpdateOperation_def replaceOp_def Let_def rows by (auto split: if_splits)
qed

lemma replaceOp_moves:
  assumes "opsInv env t db" and "t \<le> now" and "row \<in> set (ad_ops db)" and "opFollows row op" and "opSound env op"
    and "ao_UpdatedAt op = now" and "\<forall>u. ao_TerminalAt op = Some u \<longrightarrow> u = now"
    and "ao_PlanDigest op = [] \<or> ao_PlanDigest op \<in> planDigests db"
  shows "opsMove env now db (replaceOp op db)"
proof -
  have same: "ao_ID op = ao_ID row" "ao_ClientID op = ao_ClientID row" "ao_IdempotencyKey op = ao_IdempotencyKey row"
    using assms(4) by (auto simp: opFollows_def fixedPart_def)
  have unique: "r = row" if "r \<in> set (ad_ops db)" "ao_ID r = ao_ID op" for r
    using assms(1,3) that same by (auto simp: opsInv_def distinct_map inj_on_def)
  have "map ao_ID (ad_ops (replaceOp op db)) = map ao_ID (ad_ops db)"
    by (auto simp: replaceOp_def)
  moreover have "map (\<lambda>r. (ao_ClientID r, ao_IdempotencyKey r)) (ad_ops (replaceOp op db))
      = map (\<lambda>r. (ao_ClientID r, ao_IdempotencyKey r)) (ad_ops db)"
    using unique same by (auto simp: replaceOp_def)
  moreover have "planDigests (replaceOp op db) = planDigests db"
    by (simp add: replaceOp_def planDigests_def)
  moreover have "opSound env r \<and> ao_UpdatedAt r \<le> now \<and> (ao_PlanDigest r = [] \<or> ao_PlanDigest r \<in> planDigests db)
      \<and> (\<forall>u. ao_TerminalAt r = Some u \<longrightarrow> u = ao_UpdatedAt r)"
    if "r \<in> set (ad_ops (replaceOp op db))" for r
    using that assms(1,2,5-8) by (fastforce simp: opsInv_def replaceOp_def split: if_splits)
  ultimately have "opsInv env now (replaceOp op db)"
    using assms(1,2) unfolding opsInv_def by simp
  moreover have "opsEvolve now db (replaceOp op db)"
    unfolding opsEvolve_def
  proof (intro conjI ballI disjI2)
    fix r'
    assume "r' \<in> set (ad_ops (replaceOp op db))"
    then show "\<exists>r\<in>set (ad_ops db). opFollows r r'"
      using assms(3,4) by (auto simp: replaceOp_def split: if_splits intro: bexI[of _ row] bexI[of _ r'])
  next
    fix r
    assume r: "r \<in> set (ad_ops db)"
    show "\<exists>op'\<in>set (ad_ops (replaceOp op db)). opFollows r op'"
    proof (cases "ao_ID r = ao_ID op")
      case True
      then show ?thesis
        using r unique[OF r] assms(4) by (auto simp: replaceOp_def intro!: bexI[of _ op] image_eqI[of _ _ r])
    next
      case False
      then show ?thesis
        using r by (auto simp: replaceOp_def intro!: bexI[of _ r] image_eqI[of _ _ r])
    qed
  qed (simp add: \<open>planDigests (replaceOp op db) = planDigests db\<close>)
  ultimately show ?thesis
    by (simp add: opsMove_def)
qed

section \<open>Changes\<close>

locale operation_change =
  fixes change :: "'arg \<Rightarrow> opChange" and pre :: "AgentEnv \<Rightarrow> 'arg \<Rightarrow> bool"
  assumes change_moves: "opSound env op \<Longrightarrow> pre env arg \<Longrightarrow> change arg op = Inr op' \<Longrightarrow> opMoves env op op'"
    and change_plan: "change arg op = Inr op' \<Longrightarrow> ao_PlanDigest op' = ao_PlanDigest op"
begin

lemma update_spec:
  assumes "opsInv env t db" and "t \<le> now" and "pre env arg"
    and "updateOp env io now i (change arg) db = (db', r)"
  shows "(db' = db \<and> (\<forall>op. r = Inr op \<longrightarrow> op \<in> set (ad_ops db) \<and> change arg op = Inl OpNoChange))
    \<or> (\<exists>row op1. row \<in> set (ad_ops db) \<and> ao_ID row = i \<and> change arg row = Inr op1 \<and> opSound env row
        \<and> db' = replaceOp (prepareOperationUpdate now op1) db \<and> r = Inr (prepareOperationUpdate now op1)
        \<and> opFollows row (prepareOperationUpdate now op1) \<and> opsMove env now db db')"
proof (cases "storedOperation env (io 0) (OperationByID i db)")
  case (Inl e)
  then show ?thesis
    using assms(4) by (auto simp: updateOp_def)
next
  case (Inr row)
  then have row: "row \<in> set (ad_ops db)" "ao_ID row = i" "opSound env row" "opSized row"
    using OperationByID_Some by (auto simp: storedOperation_Inr)
  show ?thesis
  proof (cases "change arg row")
    case (Inl e)
    then show ?thesis
      using assms(4) Inr row(1) by (auto simp: updateOp_def split: if_splits)
  next
    case chg: (Inr op1)
    let ?op = "prepareOperationUpdate now op1"
    have t: "ao_UpdatedAt row \<le> t" "0 < t"
      using assms(1) row(1) by (auto simp: opsInv_def)
    note new = prepared_follows[OF change_moves[OF row(3) assms(3) chg] row(3,4) t(1) assms(2) t(2)]
    have fixed: "fixedPart ?op = fixedPart row"
      using new(1) by (simp add: opFollows_def)
    have plan: "ao_PlanDigest ?op = [] \<or> ao_PlanDigest ?op \<in> planDigests db"
      using new(4) change_plan[OF chg] assms(1) row(1) by (auto simp: opsInv_def)
    have move: "opsMove env now db (replaceOp ?op db)"
      by (rule replaceOp_moves[OF assms(1,2) row(1) new(1,2,3,6) plan])
    show ?thesis
    proof (cases "UpdateOperation env (io 1) ?op (ao_Revision row) db")
      case (Inl e)
      then show ?thesis
        using assms(4) Inr chg by (auto simp: updateOp_def Let_def)
    next
      case upd: (Inr res)
      obtain db1 updated where res: "res = (db1, updated)"
        by fastforce
      have "updated \<and> db1 = replaceOp ?op db"
        using UpdateOperation_hit[OF assms(1) row(1) fixed upd[unfolded res]] by simp
      then show ?thesis
        using assms(4) Inr chg upd res row move new(1) by (auto simp: updateOp_def Let_def)
    qed
  qed
qed

lemma update_moves:
  assumes "opsInv env t db" and "t \<le> now" and "pre env arg"
  shows "opsMove env now db (fst (updateOp env io now i (change arg) db))"
proof -
  obtain db' r where eq: "updateOp env io now i (change arg) db = (db', r)"
    by fastforce
  show ?thesis
    using update_spec[OF assms eq] opsMove_refl[OF assms(1,2)] eq by auto
qed

end

lemma opSound_parts:
  assumes "opSound env op"
  shows "\<And>e. ao_Error op = Some e \<Longrightarrow> validOperationError e" and "ae_object env (ao_Result op) = None \<Longrightarrow> ao_Result op = []"
  using assms by (auto simp: opSound_def)

lemma blank_literal [simp]: "\<not> blank ''operation_canceled''" "\<not> blank ''Request was canceled''"
  by code_simp+

lemma open_states [simp]: "\<not> Terminal StatePending" "\<not> Terminal StateApproved" "\<not> Terminal StateExecuting"
  by (simp_all add: Terminal_def)

interpretation canceling: operation_change cancelChange "\<lambda>_ _. True"
  by unfold_locales
    (auto simp: cancelChange_def opMoves_def fixedPart_def allowedTransition_def operationTransitions_def validOperationError_def
      opSound_parts split: if_splits)

interpretation approving: operation_change approvalChange "\<lambda>_ _. True"
  by unfold_locales (auto simp: approvalChange_def opMoves_def fixedPart_def opSound_parts split: if_splits)

interpretation transitioning: operation_change transitionChange "\<lambda>_ _. True"
  by unfold_locales
    (auto simp: transitionChange_def opMoves_def fixedPart_def opSound_parts dest: allowed_from split: if_splits)

interpretation succeeding: operation_change succeedChange "\<lambda>env result. result = [] \<or> ae_object env result \<noteq> None"
  by unfold_locales
    (auto simp: succeedChange_def opMoves_def fixedPart_def allowedTransition_def operationTransitions_def opSound_parts
      split: if_splits)

interpretation failing: operation_change "\<lambda>(state, e). failChange state e" "\<lambda>_ (state, e). validOperationError e"
  by unfold_locales
    (auto simp: failChange_def opMoves_def fixedPart_def opSound_parts dest: allowed_from split: if_splits)

section \<open>Binding a plan\<close>

lemma putPlan_Inr:
  assumes "putPlanWithQueries env plan db = Inr db1"
  shows "ad_ops db1 = ad_ops db" and "planDigests db1 = insert (pr_Digest plan) (planDigests db)"
proof -
  show "ad_ops db1 = ad_ops db"
    using assms by (auto simp: putPlanWithQueries_def split: option.splits)
  show "planDigests db1 = insert (pr_Digest plan) (planDigests db)"
    using assms
    by (auto simp: putPlanWithQueries_def planDigests_def findPlan_def find_Some_iff image_iff split: option.splits) (metis nth_mem)
qed

lemma opsInv_plans:
  assumes "opsInv env t db" and "ad_ops db1 = ad_ops db" and "planDigests db \<subseteq> planDigests db1"
  shows "opsInv env t db1"
  using assms unfolding opsInv_def by auto

lemma bound_moves:
  assumes "opSound env op" and "validPlanBinding op plan approvalID direct"
  shows "opMoves env op (boundOperation plan approvalID direct op)"
  using assms opSound_parts[OF assms(1)]
  by (auto simp: boundOperation_def Let_def opMoves_def validPlanBinding_def fixedPart_def allowedTransition_def
      operationTransitions_def)

lemma BindPlan_spec:
  assumes "opsInv env t db" and "t \<le> now" and "BindPlan env io now i plan approvalID direct db = (db', r)"
  shows "(db' = db \<and> (\<exists>e. r = Inl e))
    \<or> (\<exists>row. row \<in> set (ad_ops db) \<and> ao_ID row = i \<and> validPlanBinding row plan (trimSpace approvalID) direct
        \<and> r = Inr (prepareOperationUpdate now (boundOperation plan (trimSpace approvalID) direct row))
        \<and> ad_ops db' = ad_ops (replaceOp (prepareOperationUpdate now (boundOperation plan (trimSpace approvalID) direct row)) db)
        \<and> opFollows row (prepareOperationUpdate now (boundOperation plan (trimSpace approvalID) direct row))
        \<and> opsMove env now db db')"
proof (cases "storedOperation env (io 0) (OperationByID i db)")
  case (Inl e)
  then have "db' = db \<and> r = Inl e"
    using assms(3) by (simp add: BindPlan_def)
  then show ?thesis
    by blast
next
  case (Inr row)
  then have row: "row \<in> set (ad_ops db)" "ao_ID row = i" "opSound env row" "opSized row"
    using OperationByID_Some by (auto simp: storedOperation_Inr)
  let ?op = "prepareOperationUpdate now (boundOperation plan (trimSpace approvalID) direct row)"
  show ?thesis
  proof (cases "validPlanBinding row plan (trimSpace approvalID) direct")
    case False
    then have "db' = db \<and> r = Inl OpInvalidTransition"
      using assms(3) Inr by (simp add: BindPlan_def Let_def)
    then show ?thesis
      by blast
  next
    case valid: True
    have t: "ao_UpdatedAt row \<le> t" "0 < t"
      using assms(1) row(1) by (auto simp: opsInv_def)
    note new = prepared_follows[OF bound_moves[OF row(3) valid] row(3,4) t(1) assms(2) t(2)]
    show ?thesis
    proof (cases "UpdateOperationWithPlan env (io 1) ?op (ao_Revision row) plan db")
      case (Inl e)
      then have "db' = db \<and> r = Inl e"
        using assms(3) Inr valid by (simp add: BindPlan_def Let_def)
      then show ?thesis
        by blast
    next
      case upd: (Inr res)
      obtain db2 updated where res: "res = (db2, updated)"
        by fastforce
      obtain db1 db1' hit where put: "putPlanWithQueries env plan db = Inr db1"
        and row_upd: "UpdateOperation env True ?op (ao_Revision row) db1 = Inr (db1', hit)"
        and db2: "(db2, updated) = (if hit then (db1', True) else (db, False))"
        using upd res by (auto simp: UpdateOperationWithPlan_def split: if_splits)
      note plans = putPlan_Inr[OF put]
      have inv1: "opsInv env t db1"
        by (rule opsInv_plans[OF assms(1) plans(1)]) (auto simp: plans(2))
      have hit: "hit \<and> db1' = replaceOp ?op db1"
        using UpdateOperation_hit[OF inv1 _ _ row_upd] row(1) plans(1) new(1) by (simp add: opFollows_def)
      have "ao_PlanDigest ?op \<in> planDigests db1"
        using new(4) by (simp add: plans(2) boundOperation_def Let_def)
      then have "opsMove env now db1 (replaceOp ?op db1)"
        using replaceOp_moves[OF inv1 assms(2) _ new(1,2,3,6)] row(1) plans(1) by simp
      then have "opsMove env now db (replaceOp ?op db1)"
        using plans by (auto simp: opsMove_def opsEvolve_def)
      moreover have "ad_ops (replaceOp ?op db1) = ad_ops (replaceOp ?op db)"
        by (simp add: replaceOp_def plans(1))
      ultimately show ?thesis
        using assms(3) Inr valid upd res db2 hit row new(1) by (auto simp: BindPlan_def Let_def)
    qed
  qed
qed

section \<open>Submitting\<close>

text \<open>Reading back a document that was written yields it again; \<^verbatim>\<open>NewID\<close> gives a well-formed identifier.\<close>

definition envOK :: "AgentEnv \<Rightarrow> bool" where
  "envOK env \<longleftrightarrow> (\<forall>s c. ae_object env s = Some c \<longrightarrow> c \<noteq> [] \<and> ae_object env c = Some c)"

definition newIDOK :: "string option \<Rightarrow> bool" where
  "newIDOK newID \<longleftrightarrow> (\<forall>i. newID = Some i \<longrightarrow> validOperationID i)"

lemma stripLeading_keeps:
  "\<forall>w\<in>set ws. c \<notin> set w \<Longrightarrow> c \<in> set s \<Longrightarrow> c \<in> set (stripLeading ws s)"
proof (induction ws s rule: stripLeading.induct)
  case (1 ws s)
  show ?case
  proof (cases "List.find (\<lambda>w. w \<noteq> [] \<and> prefix w s) ws")
    case None
    then show ?thesis using "1.prems" by (subst stripLeading.simps) simp
  next
    case (Some w)
    then have "w \<in> set ws" "prefix w s"
      by (auto simp: find_Some_iff)
    then have "c \<in> set (drop (length w) s)"
      using "1.prems" by (auto simp: prefix_def)
    then show ?thesis
      using "1.IH"[OF Some "1.prems"(1)] Some by (subst stripLeading.simps) simp
  qed
qed

lemma not_blank:
  assumes "c \<in> set s" and "\<forall>w\<in>set spaceRunes. c \<notin> set w"
  shows "\<not> blank s"
proof -
  have "c \<in> set (stripLeading spaceRunes s)"
    by (rule stripLeading_keeps[OF assms(2,1)])
  then have "c \<in> set (stripLeading (map rev spaceRunes) (rev (stripLeading spaceRunes s)))"
    by (intro stripLeading_keeps) (use assms(2) in auto)
  then show ?thesis
    by (auto simp: blank_def trimSpace_def)
qed

lemma operationID_not_blank: "validOperationID i \<Longrightarrow> \<not> blank i"
  by (rule not_blank[of "CHR ''o''"]) (auto simp: validOperationID_def prefix_def spaceRunes_def)

lemma newOperation_sound:
  assumes "normalizeSubmit env input0 = Inr input" and "envOK env" and "validOperationID i" and "0 < now"
    and "initial \<in> {StatePending, StateApproved}"
  shows "opSound env (newOperation i now initial input)"
proof -
  obtain target arguments where input: "input = (trimSubmission input0)\<lparr>su_Target := target, su_Arguments := arguments\<rparr>"
    and valid: "validSubmitIdentity (trimSubmission input0)" "validSubmitPresentation (trimSubmission input0)"
    and docs: "ae_object env (su_Target input0) = Some target" "ae_object env (su_Arguments input0) = Some arguments"
    using assms(1) by (auto simp: normalizeSubmit_Inr normalizeObjectLimit_Inr)
  let ?op = "newOperation i now initial input"
  have "trimSubmission (submissionOf ?op) = (submissionOf ?op)"
    by (simp add: input newOperation_def submissionOf_def trimSubmission_def)
  moreover have "validSubmitIdentity (submissionOf ?op)" "validSubmitPresentation (submissionOf ?op)"
    using valid by (auto simp: input newOperation_def submissionOf_def validSubmitIdentity_def validSubmitPresentation_def trimSubmission_def)
  moreover have "validStoredIdentity ?op"
    using assms(3,4) operationID_not_blank by (auto simp: validStoredIdentity_def newOperation_def validOperationID_def)
  moreover have "target \<noteq> []" "arguments \<noteq> []" "ae_object env target = Some target" "ae_object env arguments = Some arguments"
    using docs assms(2) by (auto simp: envOK_def)
  ultimately show ?thesis
    using assms(5) by (auto simp: opSound_def newOperation_def input validStoredTerminal_def Terminal_def ValidState_def)
qed

lemma DeleteTerminal_moves:
  assumes "opsInv env t db" and "t \<le> now"
  shows "opsMove env now db (DeleteTerminalOperationsBefore (now - TerminalRetention) db)"
proof -
  let ?db = "DeleteTerminalOperationsBefore (now - TerminalRetention) db"
  have ops: "ad_ops ?db = filter (\<lambda>r. \<not> retired now r) (ad_ops db)"
    by (auto simp: DeleteTerminalOperationsBefore_def retired_def intro!: filter_cong split: option.splits)
  have plans: "planDigests ?db = planDigests db"
    by (simp add: DeleteTerminalOperationsBefore_def planDigests_def)
  have "opsInv env now ?db"
    using assms unfolding opsInv_def ops plans by (fastforce simp: distinct_map_filter)
  then show ?thesis
    by (auto simp: opsMove_def opsEvolve_def ops plans intro!: bexI)
qed

lemma opsMove_grow:
  assumes "opsMove env now a b" and "opsInv env now c" and "set (ad_ops c) = insert op (set (ad_ops b))" and "freshOp now op"
    and "planDigests b \<subseteq> planDigests c"
  shows "opsMove env now a c"
  using assms unfolding opsMove_def opsEvolve_def by (auto 0 3)

lemma InsertOperation_Inr:
  assumes "InsertOperation env ok op db = Inr db'"
  shows "db' = db\<lparr>ad_ops := ad_ops db @ [op]\<rparr>" and "ao_ID op \<notin> ao_ID ` set (ad_ops db)"
    and "(ao_ClientID op, ao_IdempotencyKey op) \<notin> (\<lambda>r. (ao_ClientID r, ao_IdempotencyKey r)) ` set (ad_ops db)"
    and "rowAccepted env db op"
  using assms by (auto simp: InsertOperation_def split: if_splits)

lemma inserted_inv:
  assumes "opsInv env t db" and "InsertOperation env ok op db = Inr db'" and "opSound env op" and "ao_UpdatedAt op \<le> t"
    and "ao_TerminalAt op = None"
  shows "opsInv env t db'"
proof -
  note ins = InsertOperation_Inr[OF assms(2)]
  have "planDigests db' = planDigests db"
    by (simp add: ins(1) planDigests_def)
  then show ?thesis
    using assms(1,3,4,5) ins(2-4) unfolding opsInv_def by (auto simp: ins(1) rowAccepted_def)
qed

text \<open>What \<^verbatim>\<open>submit\<close> does: nothing, retire old rows, or retire and add one row.\<close>

lemma submit_spec:
  assumes "opsInv env t db" and "t \<le> now" and "envOK env" and "newIDOK newID" and "initial \<in> {StatePending, StateApproved}"
    and "submit env io newID input0 now plan initial db = (db', r)"
  obtains (nothing) e where "db' = db" "r = Inl e"
  | (retire) "db' = DeleteTerminalOperationsBefore (now - TerminalRetention) db"
      "\<And>op created. r = Inr (op, created) \<Longrightarrow> op \<in> set (ad_ops db') \<and> \<not> created"
  | (create) i input where "normalizeSubmit env input0 = Inr input" "validOperationID i" "su_ID input = [] \<or> i = su_ID input"
      "r = Inr (newOperation i now initial input, True)"
      "ad_ops db' = ad_ops (DeleteTerminalOperationsBefore (now - TerminalRetention) db) @ [newOperation i now initial input]"
      "i \<notin> ao_ID ` set (ad_ops (DeleteTerminalOperationsBefore (now - TerminalRetention) db))"
      "opsMove env now db db'"
proof (cases "normalizeSubmit env input0")
  case (Inl e)
  then have "db' = db" "r = Inl e"
    using assms(6) by (auto simp: submit_def)
  then show thesis
    by (rule nothing)
next
  case (Inr input)
  let ?db = "DeleteTerminalOperationsBefore (now - TerminalRetention) db"
  have locked: "submitLocked env io newID input now plan initial db = (db', r)"
    using assms(6) Inr by (simp add: submit_def)
  show thesis
  proof (cases "io 0")
    case False
    then have "db' = db" "r = Inl OpDatabase"
      using locked by (auto simp: submitLocked_def)
    then show thesis
      by (rule nothing)
  next
    case io0: True
    show thesis
    proof (cases "findSubmission env (io 1) input ?db")
      case (Inl e)
      then show thesis
        using locked io0 by (intro retire) (auto simp: submitLocked_def)
    next
      case found: (Inr existing)
      show thesis
      proof (cases existing)
        case (Some op)
        then have "op \<in> set (ad_ops ?db)"
          using found by (auto simp: findSubmission_def OperationByIdempotency_def find_Some_iff operationFromRecord_Inr
              split: if_splits option.splits)
        then show thesis
          using locked io0 found Some by (intro retire) (auto simp: submitLocked_def)
      next
        case None
        then have made: "createOperation env io newID input now plan initial ?db = (db', r)"
          using locked io0 found by (simp add: submitLocked_def)
        note del = DeleteTerminal_moves[OF assms(1,2)]
        define inserted where "inserted i = (case plan of None \<Rightarrow> InsertOperation env (io 3) (newOperation i now initial input) ?db
            | Some p \<Rightarrow> InsertOperationWithPlan env (io 3) (newOperation i now initial input) p ?db)" for i
        show thesis
        proof (cases "\<exists>e. r = Inl e")
          case True
          then show thesis
            using made by (intro retire) (auto simp: createOperation_def Let_def split: if_splits option.splits sum.splits)
        next
          case False
          then obtain i where i: "(if su_ID input = [] then newID else Some (su_ID input)) = Some i" "inserted i = Inr db'"
            "r = Inr (newOperation i now initial input, True)"
            using made unfolding createOperation_def inserted_def
            by (auto simp: Let_def split: if_splits option.splits sum.splits)
          have "validSubmitIdentity input"
            using Inr by (auto simp: normalizeSubmit_Inr trimSubmission_def validSubmitIdentity_def)
          then have id: "validOperationID i"
            using i(1) assms(4) by (auto simp: newIDOK_def validSubmitIdentity_def split: if_splits)
          obtain db1 ok where db1: "ad_ops db1 = ad_ops ?db" "planDigests ?db \<subseteq> planDigests db1"
            "InsertOperation env ok (newOperation i now initial input) db1 = Inr db'"
          proof (cases plan)
            case None
            then show ?thesis
              using i(2) that[of ?db "io 3"] by (simp add: inserted_def)
          next
            case (Some p)
            then obtain db1 where "putPlanWithQueries env p ?db = Inr db1"
              "InsertOperation env True (newOperation i now initial input) db1 = Inr db'"
              using i(2) by (auto simp: inserted_def InsertOperationWithPlan_def split: if_splits)
            then show ?thesis
              using that[of db1 True] putPlan_Inr by auto
          qed
          note ins = InsertOperation_Inr[OF db1(3)]
          have now: "0 < now"
            using assms(1,2) by (auto simp: opsInv_def)
          have inv1: "opsInv env now db1"
            using del db1(1,2) by (auto simp: opsMove_def intro: opsInv_plans)
          have "opsInv env now db'"
            by (rule inserted_inv[OF inv1 db1(3) newOperation_sound[OF Inr assms(3) id now assms(5)]]) (simp_all add: newOperation_def)
          then have "opsMove env now db db'"
            by (rule opsMove_grow[OF del, where op = "newOperation i now initial input"])
              (use ins(1) db1(1,2) assms(5) in \<open>auto simp: planDigests_def freshOp_def newOperation_def\<close>)
          then show thesis
            using create[OF Inr id _ i(3)] i(1) ins(1,2) db1(1) by (auto simp: newOperation_def split: if_splits)
        qed
      qed
    qed
  qed
qed

lemma submit_moves:
  assumes "opsInv env t db" and "t \<le> now" and "envOK env" and "newIDOK newID" and "initial \<in> {StatePending, StateApproved}"
  shows "opsMove env now db (fst (submit env io newID input now plan initial db))"
proof -
  obtain db' r where eq: "submit env io newID input now plan initial db = (db', r)"
    by fastforce
  show ?thesis
    using assms eq
    by (cases rule: submit_spec)
      (use opsMove_refl[OF assms(1,2)] DeleteTerminal_moves[OF assms(1,2)] eq in auto)
qed

section \<open>Reachable databases\<close>

text \<open>One call of the store at time \<open>now\<close>, with any of its statements failing.\<close>

inductive opsStep :: "AgentEnv \<Rightarrow> gotime \<Rightarrow> AgentDB \<Rightarrow> AgentDB \<Rightarrow> bool" for env now where
  step_submit: "newIDOK newID \<Longrightarrow> opsStep env now db (fst (SubmitPending env io newID input now db))"
| step_plan: "newIDOK newID \<Longrightarrow> opsStep env now db (fst (SubmitWithPlan env io newID input now plan db))"
| step_approved: "newIDOK newID \<Longrightarrow> opsStep env now db (fst (SubmitApprovedWithPlan env io newID input now plan db))"
| step_grant: "newIDOK newID \<Longrightarrow> opsStep env now db (fst (SubmitApprovedWithGrantPlan env io newID input now plan approvalID db))"
| step_cancel: "opsStep env now db (fst (CancelOperation env io now client i db))"
| step_approval: "opsStep env now db (fst (SetApproval env io now i approvalID db))"
| step_transition: "opsStep env now db (fst (Transition env io now i state db))"
| step_succeed: "opsStep env now db (fst (Succeed env io now i result db))"
| step_fail: "opsStep env now db (fst (Fail env io now i state e db))"
| step_bind: "opsStep env now db (fst (BindPlan env io now i plan approvalID direct db))"

inductive opsReach :: "AgentEnv \<Rightarrow> gotime \<Rightarrow> AgentDB \<Rightarrow> bool" for env where
  reach_empty: "0 < t \<Longrightarrow> opsReach env t emptyDB"
| reach_step: "opsReach env t db \<Longrightarrow> t \<le> now \<Longrightarrow> opsStep env now db db' \<Longrightarrow> opsReach env now db'"

inductive opsRun :: "AgentEnv \<Rightarrow> gotime \<Rightarrow> AgentDB \<Rightarrow> gotime \<Rightarrow> AgentDB \<Rightarrow> bool" for env t db where
  run_start: "opsRun env t db t db"
| run_step: "opsRun env t db t1 db1 \<Longrightarrow> t1 \<le> now \<Longrightarrow> opsStep env now db1 db2 \<Longrightarrow> opsRun env t db now db2"

lemma Succeed_moves:
  assumes "opsInv env t db" and "t \<le> now" and "envOK env"
  shows "opsMove env now db (fst (Succeed env io now i result db))"
proof (cases "normalizeObjectLimit env result maxResultBytes OpResult")
  case (Inl e)
  then show ?thesis
    using opsMove_refl[OF assms(1,2)] by (simp add: Succeed_def)
next
  case (Inr doc)
  then have "ae_object env doc \<noteq> None"
    using assms(3) by (auto simp: normalizeObjectLimit_Inr envOK_def)
  then show ?thesis
    using succeeding.update_moves[OF assms(1,2), of doc] Inr by (simp add: Succeed_def)
qed

lemma Fail_moves:
  assumes "opsInv env t db" and "t \<le> now"
  shows "opsMove env now db (fst (Fail env io now i state e db))"
  using failing.update_moves[OF assms, of "(state, e)"] opsMove_refl[OF assms] by (auto simp: Fail_def)

lemma BindPlan_moves:
  assumes "opsInv env t db" and "t \<le> now"
  shows "opsMove env now db (fst (BindPlan env io now i plan approvalID direct db))"
proof -
  obtain db' r where eq: "BindPlan env io now i plan approvalID direct db = (db', r)"
    by fastforce
  show ?thesis
    using BindPlan_spec[OF assms eq] opsMove_refl[OF assms] eq by auto
qed

lemma opsStep_moves:
  assumes "opsStep env now db db'" and "opsInv env t db" and "t \<le> now" and "envOK env"
  shows "opsMove env now db db'"
  using assms
proof (cases rule: opsStep.cases)
  case step_grant
  then show ?thesis
    using submit_moves[OF assms(2,3,4)] opsMove_refl[OF assms(2,3)]
    by (simp add: SubmitApprovedWithGrantPlan_def submitWithPlan_def)
qed (simp_all add: SubmitPending_def SubmitWithPlan_def SubmitApprovedWithPlan_def submitWithPlan_def submit_moves CancelOperation_def
      SetApproval_def Transition_def canceling.update_moves approving.update_moves transitioning.update_moves Succeed_moves Fail_moves
      BindPlan_moves)

lemma opsReach_inv: "opsReach env t db \<Longrightarrow> envOK env \<Longrightarrow> opsInv env t db"
proof (induction rule: opsReach.induct)
  case (reach_empty t)
  then show ?case
    by (simp add: opsInv_def emptyDB_def)
next
  case (reach_step t db now db')
  then show ?case
    using opsStep_moves by (auto simp: opsMove_def)
qed

lemma opsRun_inv: "opsRun env t db t' db' \<Longrightarrow> opsInv env t db \<Longrightarrow> envOK env \<Longrightarrow> opsInv env t' db' \<and> t \<le> t'"
proof (induction rule: opsRun.induct)
  case (run_step t1 db1 now db2)
  then show ?case
    using opsStep_moves[OF run_step.hyps(3) _ run_step.hyps(2)] by (force simp: opsMove_def)
qed simp

lemma retired_later: "retired t op \<Longrightarrow> t \<le> t' \<Longrightarrow> retired t' op"
  by (auto simp: retired_def)

lemma run_follows:
  assumes "opsRun env t db t' db'" and "opsInv env t db" and "envOK env" and "op \<in> set (ad_ops db)"
  shows "\<exists>op'. opFollows op op' \<and> (op' \<in> set (ad_ops db') \<or> retired t' op')"
  using assms(1)
proof (induction rule: opsRun.induct)
  case run_start
  then show ?case
    using assms(4) by (intro exI[of _ op]) auto
next
  case (run_step t1 db1 now db2)
  then obtain op1 where op1: "opFollows op op1" "op1 \<in> set (ad_ops db1) \<or> retired t1 op1"
    by blast
  have "opsMove env now db1 db2"
    using opsStep_moves[OF run_step.hyps(3) _ run_step.hyps(2) assms(3)] opsRun_inv[OF run_step.hyps(1) assms(2,3)] by simp
  then have "retired now op1 \<or> (\<exists>op2\<in>set (ad_ops db2). opFollows op1 op2)"
    using op1(2) retired_later[OF _ run_step.hyps(2)] by (auto simp: opsMove_def opsEvolve_def)
  then show ?case
    using op1(1) opFollows_trans by blast
qed

end
