(* ===== verification/PolicyParse.thy ===== *)
theory PolicyParse
  imports PolicyMatch
begin

text \<open>
  \<^verbatim>\<open>authorization/policy/parse.go\<close>: from a decoded policy document to normalized rules. The
  document is taken after \<^verbatim>\<open>encoding/json\<close> has read it: \<open>rawRule\<close> is \<^verbatim>\<open>rawRule\<close>, and a value whose
  decoding the package writes itself (\<^verbatim>\<open>TargetMatcher\<close>, \<^verbatim>\<open>patternList\<close>) is decoded here from a \<open>jsonValue\<close>.
  Go ranges over maps in some order; the lists that model the maps fix one.
\<close>

section \<open>Raw documents\<close>

record rawGrantPolicy =
  raw_Mode :: GrantMode
  raw_DefaultMinutes :: int
  raw_MaxMinutes :: int
  raw_RequestTTLMinutes :: int
  raw_DefaultMaxUses :: OptionalLimit
  raw_MaxUses :: OptionalLimit

record rawRule =
  raw_ID :: string
  raw_Effect :: Effect
  raw_Clients :: "string list"
  raw_Operations :: "string list"
  raw_Targets :: "TargetMatcher list"
  raw_Attrs :: "string list gomap"
  raw_CredentialUses :: "CredentialUse list"
  raw_GrantPolicy :: "rawGrantPolicy option"
  raw_Description :: string

datatype jsonValue =
  JNull | JBool bool | JNumber string | JString string | JArray "jsonValue list"
  | JObject "(string \<times> jsonValue) list"

datatype parseError =
    RegistryInvalid policyError
  | ParsePolicy string
  | RulesRequired
  | AtRule nat parseError
  | DuplicateRuleID string
  | IDRequired
  | EffectUnsupported Effect
  | ListEmpty string
  | ListEmptyValue string
  | InvalidMatchValue string MatchMode string parseError
  | DoubleStarUnsupported
  | BadPattern
  | MustBeRelative
  | ClassesUnsupported
  | MustBeLiteral
  | PatternTooLong
  | PatternTooManySegments
  | SegmentInvalid
  | DoubleStarSegment
  | MustBeInteger
  | MustNotBeNegative
  | MatchModeUnsupported MatchMode
  | RuleUnknownOperation string
  | DenyCredentialUse
  | RuleCredentialUse CredentialUse
  | DuplicateCredentialUse CredentialUse
  | AnonymousRequestRule
  | RuleOperationCredentialUse string CredentialUse
  | TargetsEmpty
  | RuleUnknownTargetKind string
  | RuleTargetRequiresField string string
  | RuleTargetUnsupportedField string string
  | RuleOperationTargetKind string string
  | RuleUnknownAttr string
  | RuleOperationAttr string string
  | GrantPolicyRequired
  | GrantPolicyMisplaced
  | OperationNotGrantable string
  | MixedGrantModes
  | GrantModeNotAllowed GrantMode string
  | GrantModeUnsupported GrantMode
  | DefaultOutOfRange string
  | MaximumOutOfRange string
  | RequestTTLOutOfRange
  | ExecutionSingleUse
  | MaxMinutesExceedsOperation string
  | MaxUsesExceedsOperation string
  | RequestRulesOverlap string string
  | JSONType
  | TargetKindMissing
  | AtTargetKind parseError
  | AtRawField string parseError

section \<open>Decoding target matchers and pattern lists\<close>

text \<open>\<^verbatim>\<open>json.Unmarshal\<close> into a string: \<^verbatim>\<open>null\<close> leaves it empty.\<close>

definition jsonString :: "jsonValue \<Rightarrow> parseError + string" where
  "jsonString v = (case v of JString s \<Rightarrow> Inr s | JNull \<Rightarrow> Inr [] | _ \<Rightarrow> Inl JSONType)"

definition decodePatternList :: "jsonValue \<Rightarrow> parseError + string list" where
  "decodePatternList v =
     (case jsonString v of
        Inr single \<Rightarrow> Inr [single]
      | Inl _ \<Rightarrow>
          (case v of
             JArray xs \<Rightarrow> bindR (traverseR jsonString xs)
               (\<lambda>many. if many = [] then Inl (ListEmpty []) else Inr many)
           | _ \<Rightarrow> Inl JSONType))"

text \<open>A JSON object read into a map: the last of two equal keys stays. \<^verbatim>\<open>null\<close> is the nil map.\<close>

definition jsonMap :: "jsonValue \<Rightarrow> parseError + jsonValue gomap" where
  "jsonMap v =
     (case v of JObject es \<Rightarrow> Inr (fold (\<lambda>(k, x) m. mapSet k x m) es []) | JNull \<Rightarrow> Inr [] | _ \<Rightarrow> Inl JSONType)"

definition TargetMatcher_UnmarshalJSON :: "jsonValue \<Rightarrow> parseError + TargetMatcher" where
  "TargetMatcher_UnmarshalJSON v =
     bindR (jsonMap v) (\<lambda>raw.
       (case map_of raw ''kind'' of
          None \<Rightarrow> Inl TargetKindMissing
        | Some kindValue \<Rightarrow>
            (case jsonString kindValue of
               Inl e \<Rightarrow> Inl (AtTargetKind e)
             | Inr kind \<Rightarrow>
                 bindR (traverseR (\<lambda>(name, value).
                          (case decodePatternList value of
                             Inl e \<Rightarrow> Inl (AtRawField name e)
                           | Inr patterns \<Rightarrow> Inr (name, patterns)))
                         (filter (\<lambda>(name, _). name \<noteq> ''kind'') raw))
                   (\<lambda>flds. Inr \<lparr>tm_Kind = trimSpace kind, tm_Fields = flds\<rparr>))))"

section \<open>Match values\<close>

definition defaultGrantMinutes :: int where "defaultGrantMinutes = 5"
definition defaultMaxGrantMinutes :: int where "defaultMaxGrantMinutes = 60"
definition defaultRequestTTL :: int where "defaultRequestTTL = 5"

text \<open>\<^verbatim>\<open>_, err := path.Match(pattern, "value")\<close>.\<close>

definition globError :: "string \<Rightarrow> parseError option" where
  "globError pattern = failIf (pathMatch pattern ''value'' = None) BadPattern"

definition validateGlob :: "string \<Rightarrow> parseError option" where
  "validateGlob pattern = orElse (failIf (containsSub ''**'' pattern) DoubleStarUnsupported) (globError pattern)"

definition validateRecursivePathGlob :: "string \<Rightarrow> parseError option" where
  "validateRecursivePathGlob value =
     orElse (failIf (prefix ''/'' value) MustBeRelative)
      (orElse (failIf (containsAny value [CHR ''['', CHR '']'', CHR 0x5C]) ClassesUnsupported)
       (orElse (failIf (length value > maxPathPatternBytes) PatternTooLong)
        (let segments = splitOn (CHR ''/'') value
         in orElse (failIf (length segments > maxPathSegments) PatternTooManySegments)
              (firstError (\<lambda>s. failIf (s = [] \<or> s = ''..'') SegmentInvalid) segments))))"

definition validatePathPrefix :: "string \<Rightarrow> parseError option" where
  "validatePathPrefix pref =
     orElse (failIf (prefix ''/'' pref) MustBeRelative)
      (orElse (failIf (containsAny pref [CHR ''*'', CHR ''?'', CHR ''['', CHR 0x5C]) MustBeLiteral)
       (orElse (failIf (length pref > maxPathPatternBytes) PatternTooLong)
        (let segments = splitOn (CHR ''/'') (trimSuffix pref ''/'')
         in orElse (failIf (length segments > maxPathSegments) PatternTooManySegments)
              (firstError (\<lambda>s. failIf (s = [] \<or> s = ''..'') SegmentInvalid) segments))))"

definition validatePathGlob :: "string \<Rightarrow> parseError option" where
  "validatePathGlob pattern =
     orElse (failIf (length pattern > maxPathPatternBytes) PatternTooLong)
      (orElse (failIf (countByte (CHR ''/'') pattern \<ge> maxPathSegments) PatternTooManySegments)
       (firstError (\<lambda>s. if containsSub ''**'' s \<and> s \<noteq> ''**'' then Some DoubleStarSegment
                       else if s = ''**'' then None else globError s)
          (splitOn (CHR ''/'') pattern)))"

definition validateMatchValue :: "string \<Rightarrow> MatchMode \<Rightarrow> parseError option" where
  "validateMatchValue value mode =
     (case mode of
        MatchGlob \<Rightarrow> validateGlob value
      | MatchAnyGlob \<Rightarrow> validateGlob value
      | MatchPathGlob \<Rightarrow> validatePathGlob value
      | MatchRecursivePathGlob \<Rightarrow> validateRecursivePathGlob value
      | MatchPathOutsidePrefix \<Rightarrow> validatePathPrefix value
      | MatchIntegerMaximum \<Rightarrow>
          (case parseInt64 value of
             None \<Rightarrow> Some MustBeInteger
           | Some n \<Rightarrow> failIf (n < 0) MustNotBeNegative)
      | _ \<Rightarrow> Some (MatchModeUnsupported mode))"

fun patternsLoop :: "string \<Rightarrow> string list \<Rightarrow> string list \<Rightarrow> parseError + string list" where
  "patternsLoop field out [] = Inr out"
| "patternsLoop field out (v # vs) =
     (let value = trimSpace v
      in if value = [] then Inl (ListEmptyValue field)
         else if value \<in> set out then patternsLoop field out vs
         else patternsLoop field (out @ [value]) vs)"

definition normalizePatternsWithoutValidation :: "string list \<Rightarrow> string \<Rightarrow> parseError + string list" where
  "normalizePatternsWithoutValidation values field =
     (if values = [] then Inl (ListEmpty field) else patternsLoop field [] values)"

definition normalizeMatchValues :: "string list \<Rightarrow> string \<Rightarrow> MatchMode \<Rightarrow> parseError + string list" where
  "normalizeMatchValues values field mode0 =
     bindR (normalizePatternsWithoutValidation values field) (\<lambda>normalized.
       let mode = defaultedMatchMode mode0
       in guardR (firstError (\<lambda>v. map_option (InvalidMatchValue field mode v) (validateMatchValue v mode)) normalized)
            (Inr normalized))"

definition normalizePatterns :: "string list \<Rightarrow> string \<Rightarrow> parseError + string list" where
  "normalizePatterns values field = normalizeMatchValues values field MatchGlob"

section \<open>Operations, credential uses, targets and attributes of a rule\<close>

definition normalizeRuleID :: "string \<Rightarrow> parseError + string" where
  "normalizeRuleID i = (if trimSpace i = [] then Inl IDRequired else Inr (trimSpace i))"

definition validateEffect :: "Effect \<Rightarrow> parseError option" where
  "validateEffect effect =
     (if effect = EffectAllow \<or> effect = EffectRequest \<or> effect = EffectDeny then None
      else Some (EffectUnsupported effect))"

definition normalizeOperations :: "string list \<Rightarrow> Registry \<Rightarrow> parseError + string list" where
  "normalizeOperations values r =
     bindR (normalizePatterns values ''operations'') (\<lambda>ops.
       guardR (firstError (\<lambda>op. failIf (\<not> hasKey (reg_Operations r) op) (RuleUnknownOperation op)) ops) (Inr ops))"

definition credentialUseText :: "CredentialUse \<Rightarrow> string" where
  "credentialUseText u =
     (case u of CredentialUseUnset \<Rightarrow> [] | CredentialUseNone \<Rightarrow> ''none'' | CredentialUseManaged \<Rightarrow> ''managed''
      | CredentialUseOther s \<Rightarrow> s)"

definition validateRuleCredentialUse ::
  "Effect \<Rightarrow> CredentialUse \<Rightarrow> string list \<Rightarrow> Registry \<Rightarrow> parseError option" where
  "validateRuleCredentialUse effect use operations r =
     orElse (failIf (\<not> validCredentialUse use) (RuleCredentialUse use))
      (orElse (failIf (effect = EffectRequest \<and> use = CredentialUseNone) AnonymousRequestRule)
        (firstError (\<lambda>op. failIf (\<not> SupportsCredentialUse (opAt r op) use) (RuleOperationCredentialUse op use))
           operations))"

fun normalizeUsesLoop ::
  "Effect \<Rightarrow> string list \<Rightarrow> Registry \<Rightarrow> CredentialUse list \<Rightarrow> CredentialUse list \<Rightarrow> parseError + CredentialUse list"
where
  "normalizeUsesLoop effect operations r out [] = Inr out"
| "normalizeUsesLoop effect operations r out (u # us) =
     guardR (validateRuleCredentialUse effect u operations r)
       (if u \<in> set out then Inl (DuplicateCredentialUse u)
        else normalizeUsesLoop effect operations r (out @ [u]) us)"

definition normalizeCredentialUses ::
  "Effect \<Rightarrow> CredentialUse list \<Rightarrow> string list \<Rightarrow> Registry \<Rightarrow> parseError + CredentialUse list" where
  "normalizeCredentialUses effect values operations r =
     (if effect = EffectDeny then (if values \<noteq> [] then Inl DenyCredentialUse else Inr [])
      else if values = [] then Inr [CredentialUseManaged]
      else bindR (normalizeUsesLoop effect operations r [] values) (\<lambda>normalized.
             Inr (sort_key credentialUseText normalized)))"

definition validateRequiredTargetFields :: "TargetMatcher \<Rightarrow> TargetSpec \<Rightarrow> parseError option" where
  "validateRequiredTargetFields target spec =
     firstError (\<lambda>(field, fs). failIf (field_Required fs \<and> sliceAt (tm_Fields target) field = [])
                   (RuleTargetRequiresField (tm_Kind target) field))
       (spec_Fields spec)"

text \<open>The fields are normalized in place; the result is the matcher with its fields rewritten.\<close>

definition validateSupportedTargetFields :: "TargetMatcher \<Rightarrow> TargetSpec \<Rightarrow> parseError + TargetMatcher" where
  "validateSupportedTargetFields target spec =
     bindR (traverseR (\<lambda>(field, patterns).
              (case map_of (spec_Fields spec) field of
                 None \<Rightarrow> Inl (RuleTargetUnsupportedField (tm_Kind target) field)
               | Some fs \<Rightarrow>
                   bindR (normalizeMatchValues patterns (''target.'' @ field) (field_Match fs))
                     (\<lambda>normalized. Inr (field, normalized))))
             (tm_Fields target))
       (\<lambda>flds. Inr (target\<lparr>tm_Fields := flds\<rparr>))"

definition validateTargetFields :: "TargetMatcher \<Rightarrow> TargetSpec \<Rightarrow> parseError + TargetMatcher" where
  "validateTargetFields target spec =
     guardR (validateRequiredTargetFields target spec) (validateSupportedTargetFields target spec)"

definition validateTargetOperations :: "string \<Rightarrow> string list \<Rightarrow> Registry \<Rightarrow> parseError option" where
  "validateTargetOperations kind operations r =
     firstError (\<lambda>op. failIf (kind \<notin> set (op_TargetKinds (opAt r op))) (RuleOperationTargetKind op kind)) operations"

definition validateTarget :: "TargetMatcher \<Rightarrow> string list \<Rightarrow> Registry \<Rightarrow> parseError + TargetMatcher" where
  "validateTarget target operations r =
     (case map_of (reg_Targets r) (tm_Kind target) of
        None \<Rightarrow> Inl (RuleUnknownTargetKind (tm_Kind target))
      | Some spec \<Rightarrow>
          bindR (validateTargetFields target spec) (\<lambda>target'.
            guardR (validateTargetOperations (tm_Kind target) operations r) (Inr target')))"

definition normalizeTargets ::
  "TargetMatcher list \<Rightarrow> string list \<Rightarrow> Registry \<Rightarrow> parseError + TargetMatcher list" where
  "normalizeTargets values operations r =
     (if values = [] then Inl TargetsEmpty
      else traverseR (\<lambda>target. validateTarget target operations r) values)"

definition attrUnsupportedOperation :: "string \<Rightarrow> string list \<Rightarrow> Registry \<Rightarrow> string option" where
  "attrUnsupportedOperation name operations r =
     List.find (\<lambda>op. \<not> slicesContains (op_Attrs (opAt r op)) name) operations"

definition normalizeAttrs ::
  "string list gomap \<Rightarrow> string list \<Rightarrow> Registry \<Rightarrow> parseError + string list gomap" where
  "normalizeAttrs raw operations r =
     traverseR (\<lambda>(name, values).
       if \<not> hasKey (reg_Attrs r) name then Inl (RuleUnknownAttr name)
       else (case attrUnsupportedOperation name operations r of
               Some op \<Rightarrow> Inl (RuleOperationAttr op name)
             | None \<Rightarrow>
                 bindR (normalizeMatchValues values (''attrs.'' @ name) (attr_Match (attrAt r name)))
                   (\<lambda>normalized. Inr (name, normalized))))
       raw"

section \<open>Grant policies\<close>

definition effectiveMaxGrantMinutes :: "OperationSpec \<Rightarrow> int" where
  "effectiveMaxGrantMinutes spec =
     (if op_MaxGrantMinutes spec > 0 then op_MaxGrantMinutes spec else defaultMaxGrantMinutes)"

definition effectiveMaxGrantUses :: "OperationSpec \<Rightarrow> Limit" where
  "effectiveMaxGrantUses spec =
     (if defaultedGrantMode (op_GrantMode spec) = GrantModeExecution then 1
      else if op_MaxGrantUses spec > 0 then op_MaxGrantUses spec else MaxFiniteUses)"

definition maximumGrantMinutes :: "string list \<Rightarrow> Registry \<Rightarrow> int" where
  "maximumGrantMinutes operations r =
     foldl (\<lambda>m op. min m (effectiveMaxGrantMinutes (opAt r op))) absoluteMaxGrantMinutes operations"

definition maximumFiniteGrantUses :: "string list \<Rightarrow> Registry \<Rightarrow> Limit" where
  "maximumFiniteGrantUses operations r =
     foldl (\<lambda>m op. min m (effectiveMaxGrantUses (opAt r op))) MaxFiniteUses operations"

definition validateDefaultWithinMax :: "string \<Rightarrow> int \<Rightarrow> string \<Rightarrow> int \<Rightarrow> int \<Rightarrow> parseError option" where
  "validateDefaultWithinMax defaultName defaultValue maxName maxValue maxLimit =
     orElse (failIf (defaultValue < 1 \<or> defaultValue > maxValue) (DefaultOutOfRange defaultName))
       (failIf (maxValue < 1 \<or> maxValue > maxLimit) (MaximumOutOfRange maxName))"

definition validateGrantPolicyMinutes :: "GrantPolicy \<Rightarrow> parseError option" where
  "validateGrantPolicyMinutes gp =
     orElse (validateDefaultWithinMax ''default_minutes'' (gp_DefaultMinutes gp) ''max_minutes'' (gp_MaxMinutes gp)
               absoluteMaxGrantMinutes)
       (failIf (gp_RequestTTLMinutes gp < 1 \<or> gp_RequestTTLMinutes gp > defaultMaxGrantMinutes) RequestTTLOutOfRange)"

definition validateGrantPolicyUses :: "GrantPolicy \<Rightarrow> parseError option" where
  "validateGrantPolicyUses gp =
     (if IsUnlimited (gp_MaxUses gp) then
        failIf (\<not> IsFinite (gp_DefaultMaxUses gp) \<or> gp_DefaultMaxUses gp > MaxFiniteUses)
          (DefaultOutOfRange ''default_max_uses'')
      else validateDefaultWithinMax ''default_max_uses'' (gp_DefaultMaxUses gp) ''max_uses'' (gp_MaxUses gp) MaxFiniteUses)"

definition validateGrantPolicyValues :: "GrantPolicy \<Rightarrow> parseError option" where
  "validateGrantPolicyValues gp =
     orElse (failIf (\<not> validGrantMode (gp_Mode gp)) (GrantModeUnsupported (gp_Mode gp)))
      (orElse (validateGrantPolicyMinutes gp)
       (orElse (validateGrantPolicyUses gp)
         (failIf (gp_Mode gp = GrantModeExecution \<and> (gp_DefaultMaxUses gp \<noteq> 1 \<or> gp_MaxUses gp \<noteq> 1))
            ExecutionSingleUse)))"

definition validateGrantPolicyOperationBounds :: "GrantPolicy \<Rightarrow> string list \<Rightarrow> Registry \<Rightarrow> parseError option" where
  "validateGrantPolicyOperationBounds gp operations r =
     firstError (\<lambda>op.
        let spec = opAt r op
        in if gp_MaxMinutes gp > effectiveMaxGrantMinutes spec then Some (MaxMinutesExceedsOperation op)
           else if IsUnlimited (gp_MaxUses gp) then
             failIf (op_DisallowUnlimitedGrantUses spec
                     \<or> defaultedGrantMode (op_GrantMode spec) = GrantModeExecution)
               (MaxUsesExceedsOperation op)
           else failIf (gp_MaxUses gp > effectiveMaxGrantUses spec) (MaxUsesExceedsOperation op))
       operations"

definition defaultGrantPolicy ::
  "GrantPolicy \<Rightarrow> bool \<Rightarrow> bool \<Rightarrow> string list \<Rightarrow> Registry \<Rightarrow> GrantPolicy" where
  "defaultGrantPolicy gp defaultUsesSpecified maxUsesSpecified operations r =
     (let gp1 = (if gp_DefaultMinutes gp = 0 then gp\<lparr>gp_DefaultMinutes := defaultGrantMinutes\<rparr> else gp);
          gp2 = (if gp_MaxMinutes gp1 = 0
                 then gp1\<lparr>gp_MaxMinutes := min defaultMaxGrantMinutes (maximumGrantMinutes operations r)\<rparr> else gp1);
          gp3 = (if gp_RequestTTLMinutes gp2 = 0 then gp2\<lparr>gp_RequestTTLMinutes := defaultRequestTTL\<rparr> else gp2);
          maximumUses = (if gp_Mode gp3 = GrantModeExecution then SingleUse else maximumFiniteGrantUses operations r);
          gp4 = (if \<not> maxUsesSpecified then gp3\<lparr>gp_MaxUses := maximumUses\<rparr> else gp3)
      in if \<not> defaultUsesSpecified then
           (if IsUnlimited (gp_MaxUses gp4) then gp4\<lparr>gp_DefaultMaxUses := maximumUses\<rparr>
            else gp4\<lparr>gp_DefaultMaxUses := gp_MaxUses gp4\<rparr>)
         else gp4)"

definition validateGrantPolicyPresence :: "Effect \<Rightarrow> rawGrantPolicy option \<Rightarrow> parseError option" where
  "validateGrantPolicyPresence effect raw =
     orElse (failIf (effect = EffectRequest \<and> raw = None) GrantPolicyRequired)
       (failIf (effect \<noteq> EffectRequest \<and> raw \<noteq> None) GrantPolicyMisplaced)"

definition validateGrantableOperations :: "string list \<Rightarrow> Registry \<Rightarrow> parseError option" where
  "validateGrantableOperations operations r =
     firstError (\<lambda>op. failIf (\<not> op_Grantable (opAt r op)) (OperationNotGrantable op)) operations"

fun grantModeLoop :: "Registry \<Rightarrow> GrantMode \<Rightarrow> string list \<Rightarrow> parseError + GrantMode" where
  "grantModeLoop r mode [] = Inr mode"
| "grantModeLoop r mode (op # ops) =
     (let candidate = defaultedGrantMode (op_GrantMode (opAt r op))
      in if mode \<noteq> GrantModeUnset \<and> candidate \<noteq> mode then Inl MixedGrantModes
         else grantModeLoop r candidate ops)"

definition operationGrantMode :: "string list \<Rightarrow> Registry \<Rightarrow> parseError + GrantMode" where
  "operationGrantMode operations r = grantModeLoop r GrantModeUnset operations"

definition normalizeGrantPolicyMode :: "GrantPolicy \<Rightarrow> string list \<Rightarrow> Registry \<Rightarrow> parseError + GrantPolicy" where
  "normalizeGrantPolicyMode gp operations r =
     bindR (if gp_Mode gp = GrantModeUnset then operationGrantMode operations r else Inr (gp_Mode gp)) (\<lambda>mode.
       guardR (firstError (\<lambda>op. failIf (\<not> allowsGrantMode (opAt r op) mode) (GrantModeNotAllowed mode op)) operations)
         (Inr (gp\<lparr>gp_Mode := mode\<rparr>)))"

definition normalizeGrantPolicy ::
  "Effect \<Rightarrow> rawGrantPolicy option \<Rightarrow> string list \<Rightarrow> Registry \<Rightarrow> parseError + GrantPolicy option" where
  "normalizeGrantPolicy effect raw0 operations r =
     guardR (validateGrantPolicyPresence effect raw0)
       (case raw0 of
          None \<Rightarrow> Inr None
        | Some raw \<Rightarrow>
            guardR (validateGrantableOperations operations r)
             (bindR (normalizeGrantPolicyMode
                       \<lparr>gp_Mode = raw_Mode raw, gp_DefaultMinutes = raw_DefaultMinutes raw,
                        gp_MaxMinutes = raw_MaxMinutes raw, gp_RequestTTLMinutes = raw_RequestTTLMinutes raw,
                        gp_DefaultMaxUses = ol_Limit (raw_DefaultMaxUses raw),
                        gp_MaxUses = ol_Limit (raw_MaxUses raw)\<rparr> operations r) (\<lambda>gp0.
               let gp = defaultGrantPolicy gp0 (ol_Specified (raw_DefaultMaxUses raw))
                          (ol_Specified (raw_MaxUses raw)) operations r
               in guardR (validateGrantPolicyValues gp)
                   (guardR (validateGrantPolicyOperationBounds gp operations r) (Inr (Some gp))))))"

section \<open>Rules\<close>

definition normalizeRuleBody :: "string \<Rightarrow> rawRule \<Rightarrow> Registry \<Rightarrow> parseError + Rule" where
  "normalizeRuleBody i raw r =
     bindR (normalizePatterns (raw_Clients raw) ''clients'') (\<lambda>clients.
     bindR (normalizeOperations (raw_Operations raw) r) (\<lambda>operations.
     bindR (normalizeTargets (raw_Targets raw) operations r) (\<lambda>targets.
     bindR (normalizeAttrs (raw_Attrs raw) operations r) (\<lambda>attrs.
     bindR (normalizeCredentialUses (raw_Effect raw) (raw_CredentialUses raw) operations r) (\<lambda>uses.
     bindR (normalizeGrantPolicy (raw_Effect raw) (raw_GrantPolicy raw) operations r) (\<lambda>grantPolicy.
       Inr \<lparr>rule_ID = i, rule_Effect = raw_Effect raw, rule_Clients = clients, rule_Operations = operations,
            rule_Targets = targets, rule_Attrs = attrs, rule_CredentialUses = uses,
            rule_GrantPolicy = grantPolicy, rule_Description = trimSpace (raw_Description raw)\<rparr>))))))"

definition normalizeRule :: "rawRule \<Rightarrow> Registry \<Rightarrow> parseError + Rule" where
  "normalizeRule raw r =
     bindR (normalizeRuleID (raw_ID raw)) (\<lambda>i.
       guardR (validateEffect (raw_Effect raw)) (normalizeRuleBody i raw r))"

section \<open>Properties\<close>

text \<open>
  A glob that normalization accepts is never malformed when it is matched: \<^verbatim>\<open>path.Match\<close> returns no
  error for any value, although it was checked against one sample value only.
\<close>

lemma accepted_glob_never_malformed:
  assumes "normalizePatterns values field = Inr patterns" and "p \<in> set patterns"
  shows "pathMatch p name \<noteq> None"
proof -
  have "globError p = None"
    using assms
    by (auto simp: normalizePatterns_def normalizeMatchValues_def Let_def defaultedMatchMode_def
        validateMatchValue_def validateGlob_def)
  then show ?thesis using pathMatch_bad_iff by (simp add: globError_def)
qed

definition grantPolicyWithin :: "GrantPolicy \<Rightarrow> OperationSpec \<Rightarrow> bool" where
  "grantPolicyWithin gp spec =
     (op_Grantable spec \<and> allowsGrantMode spec (gp_Mode gp)
      \<and> gp_MaxMinutes gp \<le> effectiveMaxGrantMinutes spec
      \<and> (if gp_MaxUses gp = Unlimited
         then \<not> op_DisallowUnlimitedGrantUses spec \<and> defaultedGrantMode (op_GrantMode spec) \<noteq> GrantModeExecution
         else gp_MaxUses gp \<le> effectiveMaxGrantUses spec))"

lemma defaultGrantPolicy_Mode [simp]: "gp_Mode (defaultGrantPolicy gp a b ops r) = gp_Mode gp"
  by (simp add: defaultGrantPolicy_def Let_def)

lemma normalizeGrantPolicyMode_allowed:
  "normalizeGrantPolicyMode gp ops r = Inr gp' \<Longrightarrow> \<forall>op\<in>set ops. allowsGrantMode (opAt r op) (gp_Mode gp')"
  by (auto simp: normalizeGrantPolicyMode_def)

lemma normalizeGrantPolicy_Some:
  assumes "normalizeGrantPolicy effect raw ops r = Inr (Some gp)"
  shows "effect = EffectRequest" "validateGrantPolicyValues gp = None"
    "validateGrantPolicyOperationBounds gp ops r = None" "validateGrantableOperations ops r = None"
    "\<forall>op\<in>set ops. allowsGrantMode (opAt r op) (gp_Mode gp)"
proof -
  obtain gp1 gp0 a b where "effect = EffectRequest" "validateGrantableOperations ops r = None"
    and mode: "normalizeGrantPolicyMode gp1 ops r = Inr gp0" and gp: "gp = defaultGrantPolicy gp0 a b ops r"
    and "validateGrantPolicyValues gp = None" "validateGrantPolicyOperationBounds gp ops r = None"
    using assms unfolding normalizeGrantPolicy_def validateGrantPolicyPresence_def Let_def
    by (cases raw) (simp_all, blast)
  moreover have "gp_Mode gp = gp_Mode gp0" by (simp add: gp)
  ultimately show "effect = EffectRequest" "validateGrantPolicyValues gp = None"
    "validateGrantPolicyOperationBounds gp ops r = None" "validateGrantableOperations ops r = None"
    "\<forall>op\<in>set ops. allowsGrantMode (opAt r op) (gp_Mode gp)"
    using normalizeGrantPolicyMode_allowed[OF mode] by simp_all
qed

lemma normalizeGrantPolicy_bounds:
  assumes "normalizeGrantPolicy effect raw ops r = Inr (Some gp)"
  shows "validGrantMode (gp_Mode gp)
    \<and> 1 \<le> gp_DefaultMinutes gp \<and> gp_DefaultMinutes gp \<le> gp_MaxMinutes gp \<and> gp_MaxMinutes gp \<le> absoluteMaxGrantMinutes
    \<and> 1 \<le> gp_RequestTTLMinutes gp \<and> gp_RequestTTLMinutes gp \<le> 60
    \<and> 1 \<le> gp_DefaultMaxUses gp \<and> gp_DefaultMaxUses gp \<le> MaxFiniteUses
    \<and> (gp_MaxUses gp = Unlimited \<or> gp_DefaultMaxUses gp \<le> gp_MaxUses gp \<and> gp_MaxUses gp \<le> MaxFiniteUses)
    \<and> (gp_Mode gp = GrantModeExecution \<longrightarrow> gp_DefaultMaxUses gp = 1 \<and> gp_MaxUses gp = 1)
    \<and> list_all (\<lambda>op. grantPolicyWithin gp (opAt r op)) ops"
proof -
  note facts = normalizeGrantPolicy_Some[OF assms]
  have "list_all (\<lambda>op. grantPolicyWithin gp (opAt r op)) ops"
    using facts(3-5)
    by (auto simp: list_all_iff grantPolicyWithin_def validateGrantPolicyOperationBounds_def IsUnlimited_def
        validateGrantableOperations_def Let_def split: if_splits)
  then show ?thesis
    using facts(2)
    by (auto simp: validateGrantPolicyValues_def validateGrantPolicyMinutes_def validateGrantPolicyUses_def
        validateDefaultWithinMax_def defaultMaxGrantMinutes_def limit_defs split: if_splits)
qed

text \<open>
  The grant policy of an accepted request rule is within every bound: a supported mode that each
  operation of the rule allows, one minute up to the default, the maximum and each operation's own limit,
  a request lifetime of one to sixty minutes, a use budget between one and the finite maximum
  within each operation's limit, unlimited only where every operation permits it, and a single use for
  execution grants.
\<close>

lemma accepted_grant_policy_bounded:
  assumes "normalizeGrantPolicy effect raw ops r = Inr (Some gp)"
  shows "validGrantMode (gp_Mode gp)
    \<and> 1 \<le> gp_DefaultMinutes gp \<and> gp_DefaultMinutes gp \<le> gp_MaxMinutes gp \<and> gp_MaxMinutes gp \<le> absoluteMaxGrantMinutes
    \<and> 1 \<le> gp_RequestTTLMinutes gp \<and> gp_RequestTTLMinutes gp \<le> 60
    \<and> 1 \<le> gp_DefaultMaxUses gp \<and> gp_DefaultMaxUses gp \<le> MaxFiniteUses
    \<and> (gp_MaxUses gp = Unlimited \<or> gp_DefaultMaxUses gp \<le> gp_MaxUses gp \<and> gp_MaxUses gp \<le> MaxFiniteUses)
    \<and> (gp_Mode gp = GrantModeExecution \<longrightarrow> gp_DefaultMaxUses gp = 1 \<and> gp_MaxUses gp = 1)
    \<and> list_all (\<lambda>op. grantPolicyWithin gp (opAt r op)) ops"
  by (rule normalizeGrantPolicy_bounds[OF assms])

definition exampleRawGrantPolicy :: rawGrantPolicy where
  "exampleRawGrantPolicy =
     \<lparr>raw_Mode = GrantModeUnset, raw_DefaultMinutes = 0, raw_MaxMinutes = 0, raw_RequestTTLMinutes = 0,
      raw_DefaultMaxUses = \<lparr>ol_Limit = 0, ol_Specified = False\<rparr>, raw_MaxUses = \<lparr>ol_Limit = 3, ol_Specified = True\<rparr>\<rparr>"

definition exampleRegistry :: Registry where
  "exampleRegistry =
     \<lparr>reg_Operations = [(''repo.push'', \<lparr>op_TargetKinds = [''repo''], op_Attrs = [''ref'', ''force''], op_CredentialUses = [],
         op_Grantable = True, op_GrantMode = GrantModeUnset, op_GrantModes = [], op_MaxGrantMinutes = 30,
         op_MaxGrantUses = 10, op_DisallowUnlimitedGrantUses = True\<rparr>)],
      reg_Targets = [(''repo'', \<lparr>spec_Fields = [(''name'', \<lparr>field_Required = True, field_Match = MatchUnset\<rparr>)]\<rparr>)],
      reg_Attrs = [(''ref'', \<lparr>attr_Match = MatchGlob, attr_GrantMatch = MatchUnset, attr_GrantMayOmit = False\<rparr>),
         (''force'', \<lparr>attr_Match = MatchGlob, attr_GrantMatch = MatchUnset, attr_GrantMayOmit = False\<rparr>)]\<rparr>"

definition exampleGrantPolicy :: GrantPolicy where
  "exampleGrantPolicy =
     \<lparr>gp_Mode = GrantModeWindow, gp_DefaultMinutes = 5, gp_MaxMinutes = 30, gp_RequestTTLMinutes = 5,
      gp_DefaultMaxUses = 3, gp_MaxUses = 3\<rparr>"

lemma example_grant_policy:
  "normalizeGrantPolicy EffectRequest (Some exampleRawGrantPolicy) [''repo.push''] exampleRegistry
   = Inr (Some exampleGrantPolicy)"
  by code_simp

lemma accepted_grant_policy_bounded_example:
  "normalizeGrantPolicy EffectRequest (Some exampleRawGrantPolicy) [''repo.push''] exampleRegistry
     = Inr (Some exampleGrantPolicy)
   \<and> gp_MaxMinutes exampleGrantPolicy \<le> absoluteMaxGrantMinutes
   \<and> grantPolicyWithin exampleGrantPolicy (opAt exampleRegistry ''repo.push'')"
  using accepted_grant_policy_bounded[OF example_grant_policy] example_grant_policy by simp

end
