(* ===== verification/PolicyAmbiguity.thy ===== *)
theory PolicyAmbiguity
  imports PolicyParse
begin

text \<open>
  \<^verbatim>\<open>authorization/policy/ambiguity.go\<close> and \<^verbatim>\<open>copy.go\<close>, and the rest of \<^verbatim>\<open>parse.go\<close>: the check that two
  request rules which can match one request have the same grant policy, the copies a policy
  keeps, and \<^verbatim>\<open>Parse\<close>. The locale \<open>pattern_overlap\<close> is what the overlap test of a match mode
  promises; \<open>literal_matcher\<close> is what makes the shared path test sound, and both are interpreted
  on the modes of the code.
\<close>

section \<open>Literal patterns, code point by code point\<close>

function literalLoop :: "bool \<Rightarrow> string \<Rightarrow> string option" where
  "literalLoop escaped s =
     (if s = [] then (if escaped then None else Some [])
      else if escaped then map_option ((@) (runeBytes s)) (literalLoop False (drop (runeWidth s) s))
      else if hd s = CHR 0x5C then literalLoop True (drop (runeWidth s) s)
      else if globMeta (hd s) then None
      else map_option ((@) (runeBytes s)) (literalLoop False (drop (runeWidth s) s)))"
  by pat_completeness auto
termination
  by (relation "measure (\<lambda>(escaped, s). length s)") auto

function prefixLoop :: "bool \<Rightarrow> string \<Rightarrow> string" where
  "prefixLoop escaped s =
     (if s = [] then []
      else if escaped then runeBytes s @ prefixLoop False (drop (runeWidth s) s)
      else if hd s = CHR 0x5C then prefixLoop True (drop (runeWidth s) s)
      else if globMeta (hd s) then []
      else runeBytes s @ prefixLoop False (drop (runeWidth s) s))"
  by pat_completeness auto
termination
  by (relation "measure (\<lambda>(escaped, s). length s)") auto

declare literalLoop.simps [simp del] prefixLoop.simps [simp del]

definition literalGlobValue :: "string \<Rightarrow> string option" where
  "literalGlobValue pattern = literalLoop False pattern"

definition globLiteralPrefix :: "string \<Rightarrow> string" where
  "globLiteralPrefix pattern = prefixLoop False pattern"

section \<open>Overlap tests\<close>

definition patternMatches :: "string \<Rightarrow> string \<Rightarrow> bool" where
  "patternMatches pattern value = (pathMatch pattern value = Some True)"

definition globPrefixesMayOverlap :: "string \<Rightarrow> string \<Rightarrow> bool" where
  "globPrefixesMayOverlap left right =
     (let leftPrefix = globLiteralPrefix left; rightPrefix = globLiteralPrefix right
      in leftPrefix = [] \<or> rightPrefix = [] \<or> prefix rightPrefix leftPrefix \<or> prefix leftPrefix rightPrefix)"

definition patternsMayOverlap :: "string \<Rightarrow> string \<Rightarrow> bool" where
  "patternsMayOverlap left right =
     (if left = right then True
      else (case (literalGlobValue left, literalGlobValue right) of
              (Some l, Some r) \<Rightarrow> l = r
            | (Some l, None) \<Rightarrow> patternMatches right l
            | (None, Some r) \<Rightarrow> patternMatches left r
            | (None, None) \<Rightarrow> globPrefixesMayOverlap left right))"

definition pathMatcherValuesMayOverlap ::
  "string \<Rightarrow> string \<Rightarrow> (string list \<Rightarrow> string \<Rightarrow> bool) \<Rightarrow> bool" where
  "pathMatcherValuesMayOverlap left right match =
     (if left = right then True
      else (case (literalGlobValue left, literalGlobValue right) of
              (Some l, Some r) \<Rightarrow> l = r
            | (Some l, None) \<Rightarrow> match [right] l
            | (None, Some r) \<Rightarrow> match [left] r
            | (None, None) \<Rightarrow> True))"

definition recursivePathValuesMayOverlap :: "string \<Rightarrow> string \<Rightarrow> bool" where
  "recursivePathValuesMayOverlap left right = pathMatcherValuesMayOverlap left right recursivePathPatternsMatch"

definition pathValuesMayOverlap :: "string \<Rightarrow> string \<Rightarrow> bool" where
  "pathValuesMayOverlap left right = pathMatcherValuesMayOverlap left right pathPatternsMatch"

definition valueListsMayOverlap :: "string list \<Rightarrow> string list \<Rightarrow> (string \<Rightarrow> string \<Rightarrow> bool) \<Rightarrow> bool" where
  "valueListsMayOverlap left right match = list_ex (\<lambda>l. list_ex (\<lambda>r. match l r) right) left"

definition matchValuesMayOverlap :: "string list \<Rightarrow> string list \<Rightarrow> MatchMode \<Rightarrow> bool" where
  "matchValuesMayOverlap left right mode =
     (case defaultedMatchMode mode of
        MatchIntegerMaximum \<Rightarrow> True
      | MatchAnyGlob \<Rightarrow> True
      | MatchPathOutsidePrefix \<Rightarrow> True
      | MatchPathGlob \<Rightarrow> valueListsMayOverlap left right pathValuesMayOverlap
      | MatchRecursivePathGlob \<Rightarrow> valueListsMayOverlap left right recursivePathValuesMayOverlap
      | _ \<Rightarrow> valueListsMayOverlap left right patternsMayOverlap)"

definition patternMapsMayOverlap ::
  "string list gomap \<Rightarrow> string list gomap \<Rightarrow> TargetSpec \<Rightarrow> bool" where
  "patternMapsMayOverlap left right spec =
     list_all (\<lambda>(field, leftValues).
        (case map_of right field of
           None \<Rightarrow> True
         | Some rightValues \<Rightarrow> matchValuesMayOverlap leftValues rightValues (field_Match (fieldAt spec field))))
       left"

definition attrsMayOverlap ::
  "string list gomap \<Rightarrow> string list gomap \<Rightarrow> string list \<Rightarrow> Registry \<Rightarrow> bool" where
  "attrsMayOverlap left right relevantAttrs r =
     list_all (\<lambda>attr.
        (case (map_of left attr, map_of right attr) of
           (Some leftValues, Some rightValues) \<Rightarrow>
             matchValuesMayOverlap leftValues rightValues (attr_Match (attrAt r attr))
         | _ \<Rightarrow> True))
       relevantAttrs"

definition targetMatchersMayOverlap :: "TargetMatcher list \<Rightarrow> TargetMatcher list \<Rightarrow> Registry \<Rightarrow> bool" where
  "targetMatchersMayOverlap left right r =
     list_ex (\<lambda>lt. list_ex (\<lambda>rt. tm_Kind lt = tm_Kind rt
        \<and> patternMapsMayOverlap (tm_Fields lt) (tm_Fields rt) (targetAt r (tm_Kind lt))) right) left"

definition grantPoliciesEqual :: "GrantPolicy option \<Rightarrow> GrantPolicy option \<Rightarrow> bool" where
  "grantPoliciesEqual left right =
     (case (left, right) of (Some l, Some r) \<Rightarrow> l = r | _ \<Rightarrow> left = None \<and> right = None)"

definition credentialUsesMayOverlap :: "CredentialUse list \<Rightarrow> CredentialUse list \<Rightarrow> bool" where
  "credentialUsesMayOverlap left right = list_ex (\<lambda>u. u \<in> set right) left"

definition requestRulesMayOverlap :: "Rule \<Rightarrow> Rule \<Rightarrow> Registry \<Rightarrow> bool" where
  "requestRulesMayOverlap left right r =
     (if \<not> credentialUsesMayOverlap (rule_CredentialUses left) (rule_CredentialUses right)
         \<or> \<not> valueListsMayOverlap (rule_Clients left) (rule_Clients right) patternsMayOverlap
      then False
      else list_ex (\<lambda>op. op \<in> set (rule_Operations right)
             \<and> targetMatchersMayOverlap (rule_Targets left) (rule_Targets right) r
             \<and> attrsMayOverlap (rule_Attrs left) (rule_Attrs right) (op_Attrs (opAt r op)) r)
           (rule_Operations left))"

definition validateRequestRuleAgainstLaterRules :: "Rule \<Rightarrow> Rule list \<Rightarrow> Registry \<Rightarrow> parseError option" where
  "validateRequestRuleAgainstLaterRules left later r =
     firstError (\<lambda>right.
        if rule_Effect right \<noteq> EffectRequest
           \<or> grantPoliciesEqual (rule_GrantPolicy left) (rule_GrantPolicy right) then None
        else failIf (requestRulesMayOverlap left right r) (RequestRulesOverlap (rule_ID left) (rule_ID right)))
       later"

fun validateRequestRuleAmbiguity :: "Rule list \<Rightarrow> Registry \<Rightarrow> parseError option" where
  "validateRequestRuleAmbiguity [] r = None"
| "validateRequestRuleAmbiguity (left # later) r =
     (if rule_Effect left \<noteq> EffectRequest then validateRequestRuleAmbiguity later r
      else orElse (validateRequestRuleAgainstLaterRules left later r) (validateRequestRuleAmbiguity later r))"

section \<open>Parse and the copies a policy keeps\<close>

fun rulesLoop :: "nat \<Rightarrow> string list \<Rightarrow> Registry \<Rightarrow> rawRule list \<Rightarrow> parseError + Rule list" where
  "rulesLoop i seen r [] = Inr []"
| "rulesLoop i seen r (raw # raws) =
     (case normalizeRule raw r of
        Inl e \<Rightarrow> Inl (AtRule i e)
      | Inr rule \<Rightarrow>
          if rule_ID rule \<in> set seen then Inl (AtRule i (DuplicateRuleID (rule_ID rule)))
          else bindR (rulesLoop (i + 1) (rule_ID rule # seen) r raws) (\<lambda>rules. Inr (rule # rules)))"

definition normalizeRules :: "rawRule list \<Rightarrow> Registry \<Rightarrow> parseError + Rule list" where
  "normalizeRules raws r =
     bindR (rulesLoop 0 [] r raws) (\<lambda>rules. guardR (validateRequestRuleAmbiguity rules r) (Inr rules))"

definition cloneOperations :: "OperationSpec gomap \<Rightarrow> OperationSpec gomap" where
  "cloneOperations values =
     map (\<lambda>(name, spec). (name,
       \<lparr>op_TargetKinds = op_TargetKinds spec, op_Attrs = op_Attrs spec,
        op_CredentialUses = op_CredentialUses spec, op_Grantable = op_Grantable spec,
        op_GrantMode = op_GrantMode spec, op_GrantModes = op_GrantModes spec,
        op_MaxGrantMinutes = 0, op_MaxGrantUses = 0, op_DisallowUnlimitedGrantUses = False\<rparr>)) values"

definition cloneTargets :: "TargetSpec gomap \<Rightarrow> TargetSpec gomap" where
  "cloneTargets values = map (\<lambda>(name, spec). (name, \<lparr>spec_Fields = spec_Fields spec\<rparr>)) values"

definition cloneRegistry :: "Registry \<Rightarrow> Registry" where
  "cloneRegistry r =
     \<lparr>reg_Operations = cloneOperations (reg_Operations r), reg_Targets = cloneTargets (reg_Targets r),
      reg_Attrs = reg_Attrs r\<rparr>"

definition cloneTargetMatchers :: "TargetMatcher list \<Rightarrow> TargetMatcher list" where
  "cloneTargetMatchers values = map (\<lambda>m. \<lparr>tm_Kind = tm_Kind m, tm_Fields = tm_Fields m\<rparr>) values"

definition cloneRule :: "Rule \<Rightarrow> Rule" where
  "cloneRule rule =
     \<lparr>rule_ID = rule_ID rule, rule_Effect = rule_Effect rule, rule_Clients = rule_Clients rule,
      rule_Operations = rule_Operations rule, rule_Targets = cloneTargetMatchers (rule_Targets rule),
      rule_Attrs = rule_Attrs rule, rule_CredentialUses = rule_CredentialUses rule,
      rule_GrantPolicy = rule_GrantPolicy rule, rule_Description = rule_Description rule\<rparr>"

definition cloneRules :: "Rule list \<Rightarrow> Rule list" where
  "cloneRules rules = map cloneRule rules"

record Policy =
  pol_registry :: Registry
  pol_rules :: "Rule list"

text \<open>\<^verbatim>\<open>decode\<close> is \<^verbatim>\<open>decodeStrict\<close> into \<^verbatim>\<open>rawPolicy\<close>; \<^verbatim>\<open>None\<close> is a document without \<^verbatim>\<open>rules\<close>.\<close>

definition Parse :: "(string \<Rightarrow> string + rawRule list option) \<Rightarrow> string \<Rightarrow> Registry \<Rightarrow> parseError + Policy" where
  "Parse decode data r =
     guardR (map_option RegistryInvalid (Registry_validate r))
      (case decode data of
         Inl e \<Rightarrow> Inl (ParsePolicy e)
       | Inr None \<Rightarrow> Inl RulesRequired
       | Inr (Some raws) \<Rightarrow>
           bindR (normalizeRules raws r) (\<lambda>rules.
             Inr \<lparr>pol_registry = cloneRegistry r, pol_rules = cloneRules rules\<rparr>))"

lemma cloneRule_id [simp]: "cloneRule rule = rule"
proof -
  have "cloneTargetMatchers ms = ms" for ms by (induction ms) (auto simp: cloneTargetMatchers_def)
  then show ?thesis by (simp add: cloneRule_def)
qed

lemma cloneRules_id [simp]: "cloneRules rules = rules"
  by (simp add: cloneRules_def map_idI)

section \<open>The code point loops read valid UTF-8 byte by byte\<close>

lemma high_byte_plain: "\<not> byte c < 128 \<Longrightarrow> c \<noteq> CHR 0x5C \<and> \<not> globMeta c"
  by (auto simp: globMeta_def byte_def)

lemma litWhole_plain_bytes:
  "\<forall>x\<in>set xs. \<not> byte x < 128 \<Longrightarrow> litWhole (xs @ s) = map_option ((@) xs) (litWhole s)"
proof (induction xs)
  case Nil
  show ?case by (cases "litWhole s") auto
next
  case (Cons x xs)
  then show ?case using high_byte_plain[of x] by (cases "litWhole s") auto
qed

lemma litPrefix_plain_bytes: "\<forall>x\<in>set xs. \<not> byte x < 128 \<Longrightarrow> litPrefix (xs @ s) = xs @ litPrefix s"
  using high_byte_plain by (induction xs) auto

lemma validUTF8_head:
  assumes "validUTF8 (c # s)"
  obtains (ascii) "byte c < 128" "runeWidth (c # s) = 1" "runeBytes (c # s) = [c]" "validUTF8 s"
  | (wide) xs where "c # s = (c # xs) @ drop (runeWidth (c # s)) (c # s)"
    "runeBytes (c # s) = c # xs" "\<forall>x\<in>set (c # xs). \<not> byte x < 128"
    "validUTF8 (drop (runeWidth (c # s)) (c # s))"
proof (cases "byte c < 128")
  case True
  then have "runeWidth (c # s) = 1" by (rule runeWidth_ascii)
  then show thesis using True ascii validUTF8_step[OF _ assms] runeBytes_valid[of "c # s"] by simp
next
  case False
  let ?w = "runeWidth (c # s)"
  have ok: "decodeRune (c # s) \<noteq> (runeError, 1)" and rest: "validUTF8 (drop ?w (c # s))"
    using validUTF8_step[OF _ assms] by auto
  obtain n where n: "?w = Suc n" using runeWidth_pos[of "c # s"] by (cases ?w) auto
  then have "runeBytes (c # s) = c # take n s" using ok by (simp add: runeBytes_valid)
  moreover have "\<forall>x\<in>set (c # take n s). \<not> byte x < 128"
    using wideRune_bytes[OF ok False] n by simp
  ultimately show thesis using wide[of "take n s"] n rest by simp
qed

lemma literalLoop_valid:
  "validUTF8 s \<Longrightarrow> literalLoop False s = litWhole s
   \<and> literalLoop True s = (case s of [] \<Rightarrow> None | d # ds \<Rightarrow> map_option ((#) d) (litWhole ds))"
proof (induction s rule: length_induct)
  case (1 s)
  show ?case
  proof (cases s)
    case Nil
    then show ?thesis by (simp add: literalLoop.simps)
  next
    case (Cons c cs)
    note unf = literalLoop.simps[of False "c # cs"] literalLoop.simps[of True "c # cs"]
    have "validUTF8 (c # cs)" using "1.prems" Cons by simp
    then show ?thesis
    proof (cases rule: validUTF8_head)
      case ascii
      then show ?thesis using "1.IH" Cons by (cases "litWhole cs") (auto simp: unf litWhole.simps(2))
    next
      case (wide xs)
      let ?rest = "drop (runeWidth (c # cs)) (c # cs)"
      have ih: "literalLoop False ?rest = litWhole ?rest"
        using "1.IH" wide(4) Cons runeWidth_pos[of "c # cs"] by simp
      have "cs = xs @ ?rest" using wide(1) by simp
      then have "litWhole cs = map_option ((@) xs) (litWhole ?rest)"
        using litWhole_plain_bytes[of xs ?rest] wide(3) by simp
      then show ?thesis
        using high_byte_plain[of c] wide(2,3) ih Cons by (cases "litWhole ?rest") (auto simp: unf)
    qed
  qed
qed

lemma prefixLoop_valid:
  "validUTF8 s \<Longrightarrow> prefixLoop False s = litPrefix s
   \<and> prefixLoop True s = (case s of [] \<Rightarrow> [] | d # ds \<Rightarrow> d # litPrefix ds)"
proof (induction s rule: length_induct)
  case (1 s)
  show ?case
  proof (cases s)
    case Nil
    then show ?thesis by (simp add: prefixLoop.simps)
  next
    case (Cons c cs)
    note unf = prefixLoop.simps[of False "c # cs"] prefixLoop.simps[of True "c # cs"]
    have "validUTF8 (c # cs)" using "1.prems" Cons by simp
    then show ?thesis
    proof (cases rule: validUTF8_head)
      case ascii
      then show ?thesis using "1.IH" Cons by (auto simp: unf litPrefix.simps(2))
    next
      case (wide xs)
      let ?rest = "drop (runeWidth (c # cs)) (c # cs)"
      have ih: "prefixLoop False ?rest = litPrefix ?rest"
        using "1.IH" wide(4) Cons runeWidth_pos[of "c # cs"] by simp
      have "cs = xs @ ?rest" using wide(1) by simp
      then have "litPrefix cs = xs @ litPrefix ?rest"
        using litPrefix_plain_bytes[of xs ?rest] wide(3) by simp
      then show ?thesis using high_byte_plain[of c] wide(2,3) ih Cons by (auto simp: unf)
    qed
  qed
qed

lemma literalGlobValue_valid: "validUTF8 p \<Longrightarrow> literalGlobValue p = litWhole p"
  by (simp add: literalGlobValue_def literalLoop_valid)

lemma globLiteralPrefix_valid: "validUTF8 p \<Longrightarrow> globLiteralPrefix p = litPrefix p"
  by (simp add: globLiteralPrefix_def prefixLoop_valid)

section \<open>What an overlap test promises\<close>

locale pattern_overlap =
  fixes matches :: "string \<Rightarrow> string \<Rightarrow> bool"
    and may :: "string \<Rightarrow> string \<Rightarrow> bool"
    and good :: "string \<Rightarrow> bool"
  assumes may_sound: "good l \<Longrightarrow> good r \<Longrightarrow> matches l v \<Longrightarrow> matches r v \<Longrightarrow> may l r"
begin

lemma lists_sound:
  assumes "\<forall>p\<in>set ls. good p" "\<forall>p\<in>set rs. good p"
    and "\<exists>p\<in>set ls. matches p v" "\<exists>p\<in>set rs. matches p v"
  shows "valueListsMayOverlap ls rs may"
  using assms may_sound unfolding valueListsMayOverlap_def list_ex_iff by blast

end

text \<open>A matcher that reads a pattern without metacharacters as that text.\<close>

locale literal_matcher =
  fixes match :: "string list \<Rightarrow> string \<Rightarrow> bool"
    and good :: "string \<Rightarrow> bool"
  assumes literal: "good p \<Longrightarrow> literalGlobValue p = Some l \<Longrightarrow> match [p] v \<Longrightarrow> v = l"

sublocale literal_matcher \<subseteq> pattern_overlap "\<lambda>p. match [p]" "\<lambda>l r. pathMatcherValuesMayOverlap l r match" good
proof
  fix l r v
  assume "good l" "good r" "match [l] v" "match [r] v"
  then show "pathMatcherValuesMayOverlap l r match"
    using literal[of l _ v] literal[of r _ v]
    by (cases "literalGlobValue l"; cases "literalGlobValue r") (auto simp: pathMatcherValuesMayOverlap_def)
qed

interpretation glob: pattern_overlap globMatches patternsMayOverlap validUTF8
proof
  fix l r v
  assume "validUTF8 l" "validUTF8 r" "globMatches l v" "globMatches r v"
  then show "patternsMayOverlap l r"
    using globMatches_litWhole[of l _ v] globMatches_litWhole[of r _ v]
      globMatches_litPrefix[of l v] globMatches_litPrefix[of r v] prefix_same_cases[of "litPrefix l" v "litPrefix r"]
    by (cases "litWhole l"; cases "litWhole r")
      (auto simp: patternsMayOverlap_def literalGlobValue_valid globLiteralPrefix_valid patternMatches_def
        globPrefixesMayOverlap_def Let_def globMatches_def)
qed

section \<open>Literal path patterns\<close>

text \<open>A pattern that ends in an unfinished escape, and has no metacharacter before it.\<close>

fun litDangling :: "string \<Rightarrow> bool" where
  "litDangling [] = False"
| "litDangling (c # cs) =
     (if c = CHR 0x5C then (case cs of [] \<Rightarrow> True | d # ds \<Rightarrow> litDangling ds)
      else \<not> globMeta c \<and> litDangling cs)"

lemma matchChunk_dangling: "litDangling p \<Longrightarrow> matchChunk p (Some s) \<noteq> Chunk t"
proof (induction p arbitrary: s rule: length_induct)
  case (1 p)
  show ?case
  proof (cases rule: glob_head_cases[of p])
    case (escape d ds)
    then show ?thesis using 1 matchChunk_escape[of "d # ds" s t] by fastforce
  next
    case dangling
    then show ?thesis using matchChunk_escape[of "[]" s t] by auto
  qed (use 1 in \<open>auto dest!: matchChunk_byte[rotated 2]\<close>)
qed

lemma scanBody_dangling: "litDangling p \<Longrightarrow> scanBody False p = (p, [])"
proof (induction p rule: length_induct)
  case (1 p)
  then show ?case by (cases rule: glob_head_cases[of p]) auto
qed

lemma litDangling_head: "litDangling p \<Longrightarrow> p \<noteq> [] \<and> hd p \<noteq> CHR ''*''"
  by (cases p) (auto simp: globMeta_def split: if_splits)

lemma dangling_never_matches: "litDangling p \<Longrightarrow> \<not> globMatches p v"
  using pathMatch_first_chunk[of p v] litDangling_head[of p] scanBody_dangling[of p] matchChunk_dangling[of p]
  by (auto simp: globMatches_def)

lemma litWhole_segment:
  assumes "CHR ''/'' \<notin> set seg" and "litWhole (seg @ CHR ''/'' # rest) = Some l"
  shows "litDangling seg \<or>
    (\<exists>a b. litWhole seg = Some a \<and> litWhole rest = Some b \<and> l = a @ CHR ''/'' # b)"
  using assms
proof (induction seg arbitrary: l rule: length_induct)
  case (1 seg)
  show ?case
  proof (cases rule: glob_head_cases[of seg])
    case nil
    then show ?thesis using 1 by (auto simp: litWhole.simps(2)[of "CHR ''/''"] globMeta_def)
  next
    case (escape d ds)
    then obtain l' where "litWhole (ds @ CHR ''/'' # rest) = Some l'" "l = d # l'" using 1 by auto
    then show ?thesis using "1.IH"[rule_format, of ds l'] "1.prems" escape by auto
  next
    case (meta c cs)
    then show ?thesis using 1 by auto
  next
    case (literal c cs)
    then obtain l' where "litWhole (cs @ CHR ''/'' # rest) = Some l'" "l = c # l'" using 1 by auto
    then show ?thesis using "1.IH"[rule_format, of cs l'] "1.prems" literal by auto
  qed simp
qed

lemma literal_not_double_star: "litWhole s = Some l \<or> litDangling s \<Longrightarrow> s \<noteq> ''**''"
  by (auto simp: globMeta_def litWhole.simps(2))

lemma literal_path:
  "litWhole p = Some l \<Longrightarrow> segSpec (splitOn (CHR ''/'') p) vs \<Longrightarrow> joinWith (CHR ''/'') vs = l"
proof (induction p arbitrary: l vs rule: length_induct)
  case (1 p)
  show ?case
  proof (cases "CHR ''/'' \<in> set p")
    case False
    then have "segSpec [p] vs" using "1.prems" by (simp add: splitOn_single)
    then show ?thesis
      using "1.prems"(1) literal_not_double_star[of p l] globMatches_litWhole[of p l] by (auto simp: segSpec_single)
  next
    case True
    then obtain seg rest where p: "p = seg @ CHR ''/'' # rest" and seg: "CHR ''/'' \<notin> set seg"
      by (meson split_list_first)
    have split: "litDangling seg \<or> (\<exists>a b. litWhole seg = Some a \<and> litWhole rest = Some b \<and> l = a @ CHR ''/'' # b)"
      using litWhole_segment[OF seg] "1.prems"(1) p by simp
    then have "seg \<noteq> ''**''" using literal_not_double_star[of seg] by auto
    then obtain v ws where vs: "vs = v # ws" "globMatches seg v" "segSpec (splitOn (CHR ''/'') rest) ws"
      using "1.prems"(2) by (auto simp: p splitOn_append[OF seg] segSpec_glob)
    then obtain a b where ab: "litWhole seg = Some a" "litWhole rest = Some b" "l = a @ CHR ''/'' # b"
      using split dangling_never_matches by blast
    have "joinWith (CHR ''/'') ws = b" using "1.IH"[rule_format, of rest b ws] p ab(2) vs(3) by simp
    moreover have "ws \<noteq> []"
    proof
      assume "ws = []"
      then have "litWhole rest = Some [] \<and> segSpec (splitOn (CHR ''/'') rest) []"
        using ab(2) vs(3) \<open>joinWith (CHR ''/'') ws = b\<close> by simp
      then have "rest = []" by (cases rule: glob_head_cases[of rest]) auto
      then show False using vs(3) \<open>ws = []\<close> by (simp add: segSpec_glob)
    qed
    ultimately show ?thesis
      using vs(1,2) ab(1,3) globMatches_litWhole[of seg a v] by (simp add: joinWith_Cons)
  qed
qed

interpretation path: literal_matcher pathPatternsMatch validUTF8
proof
  fix p l v
  assume "validUTF8 p" "literalGlobValue p = Some l" "pathPatternsMatch [p] v"
  then show "v = l"
    using literal_path[of p l "splitOn (CHR ''/'') v"]
    by (simp add: literalGlobValue_valid pathPatternsMatch_def pathSegmentsMatch_spec split: if_splits)
qed

lemma literal_without_escapes: "litWhole p = Some l \<Longrightarrow> CHR 0x5C \<notin> set p \<Longrightarrow> l = p \<and> plain p"
proof (induction p arbitrary: l)
  case (Cons c cs)
  then show ?case by (cases "globMeta c") (auto simp: plain_def globMeta_def)
qed (simp add: plain_def)

interpretation recursivePath: literal_matcher recursivePathPatternsMatch "\<lambda>p. validateRecursivePathGlob p = None"
proof
  fix p l v
  assume p: "validateRecursivePathGlob p = None" "literalGlobValue p = Some l" "recursivePathPatternsMatch [p] v"
  then have utf8: "validUTF8 p" and match: "reMatch (recursivePathExpression p) v"
    by (auto simp: recursivePathPatternsMatch_iff)
  have "l = p \<and> plain p"
    using p utf8 by (intro literal_without_escapes)
      (auto simp: literalGlobValue_valid validateRecursivePathGlob_def containsAny_def list_ex_iff)
  then show "v = l" using recursive_plain_match match by simp
qed

section \<open>Overlapping rules are found\<close>

text \<open>A pattern as \<^verbatim>\<open>normalizeMatchValues\<close> leaves it; JSON decoding yields valid UTF-8.\<close>

definition goodPattern :: "MatchMode \<Rightarrow> string \<Rightarrow> bool" where
  "goodPattern mode p = (validUTF8 p \<and> validateMatchValue p (defaultedMatchMode mode) = None)"

lemma patternsMatch_ex: "patternsMatch ps v \<longleftrightarrow> \<not> blank v \<and> (\<exists>p\<in>set ps. globMatches p v)"
  by (auto simp: patternsMatch_def list_ex_iff)

lemma pathPatternsMatch_ex: "pathPatternsMatch ps v \<longleftrightarrow> (\<exists>p\<in>set ps. pathPatternsMatch [p] v)"
  by (auto simp: pathPatternsMatch_def list_ex_iff)

lemma recursivePathPatternsMatch_ex:
  "recursivePathPatternsMatch ps v \<longleftrightarrow> (\<exists>p\<in>set ps. recursivePathPatternsMatch [p] v)"
  by (auto simp: recursivePathPatternsMatch_iff)

lemma glob_lists_overlap:
  assumes "\<forall>p\<in>set ls. validUTF8 p" "\<forall>p\<in>set rs. validUTF8 p" "patternsMatch ls v" "patternsMatch rs v"
  shows "valueListsMayOverlap ls rs patternsMayOverlap"
  using assms by (auto simp: patternsMatch_ex intro!: glob.lists_sound[of ls rs v])

lemma value_lists_overlap:
  assumes good: "\<forall>p\<in>set ls. goodPattern mode p" "\<forall>p\<in>set rs. goodPattern mode p"
    and v: "valuesMatch mode ls v" "valuesMatch mode rs v"
  shows "matchValuesMayOverlap ls rs mode"
proof (cases "defaultedMatchMode mode")
  case MatchGlob
  then show ?thesis using good v glob_lists_overlap[of ls rs v]
    by (simp add: valuesMatch_def matchValuesMayOverlap_def goodPattern_def)
next
  case MatchPathGlob
  then have "valueListsMayOverlap ls rs (\<lambda>l r. pathMatcherValuesMayOverlap l r pathPatternsMatch)"
    using good v pathPatternsMatch_ex[of ls v] pathPatternsMatch_ex[of rs v]
    by (intro path.lists_sound[of ls rs v]) (auto simp: valuesMatch_def goodPattern_def)
  then show ?thesis using MatchPathGlob
    by (simp add: matchValuesMayOverlap_def valueListsMayOverlap_def pathValuesMayOverlap_def)
next
  case MatchRecursivePathGlob
  then have "valueListsMayOverlap ls rs (\<lambda>l r. pathMatcherValuesMayOverlap l r recursivePathPatternsMatch)"
    using good v recursivePathPatternsMatch_ex[of ls v] recursivePathPatternsMatch_ex[of rs v]
    by (intro recursivePath.lists_sound[of ls rs v])
      (auto simp: valuesMatch_def goodPattern_def validateMatchValue_def)
  then show ?thesis using MatchRecursivePathGlob
    by (simp add: matchValuesMayOverlap_def valueListsMayOverlap_def recursivePathValuesMayOverlap_def)
qed (use v in \<open>simp_all add: valuesMatch_def matchValuesMayOverlap_def\<close>)

lemma value_sets_overlap:
  assumes "\<forall>p\<in>set ls. goodPattern mode p" "\<forall>p\<in>set rs. goodPattern mode p"
    and l: "allValuesMatch mode ls vs" and r: "allValuesMatch mode rs vs"
  shows "matchValuesMayOverlap ls rs mode"
proof (cases "defaultedMatchMode mode = MatchAnyGlob")
  case True
  then show ?thesis by (simp add: matchValuesMayOverlap_def)
next
  case False
  then obtain v where "valuesMatch mode ls v" "valuesMatch mode rs v"
    using l r by (auto simp: allValuesMatch_iff neq_Nil_conv)
  then show ?thesis using assms(1,2) value_lists_overlap by blast
qed

text \<open>What normalization leaves of a rule: patterns its mode accepts, registered operations, and
  a credential use on every rule that is not a deny rule.\<close>

definition checkedValues :: "MatchMode \<Rightarrow> string list \<Rightarrow> bool" where
  "checkedValues mode ps = (ps \<noteq> [] \<and> list_all (\<lambda>p. p \<noteq> [] \<and> validateMatchValue p (defaultedMatchMode mode) = None) ps)"

definition checkedRule :: "Registry \<Rightarrow> Rule \<Rightarrow> bool" where
  "checkedRule r rule =
     (checkedValues MatchGlob (rule_Clients rule) \<and> checkedValues MatchGlob (rule_Operations rule)
      \<and> list_all (hasKey (reg_Operations r)) (rule_Operations rule)
      \<and> list_all (\<lambda>tm. list_all (\<lambda>(f, ps). checkedValues (field_Match (fieldAt (targetAt r (tm_Kind tm)) f)) ps)
            (tm_Fields tm)) (rule_Targets rule)
      \<and> list_all (\<lambda>(a, ps). checkedValues (attr_Match (attrAt r a)) ps) (rule_Attrs rule)
      \<and> (rule_Effect rule = EffectDeny \<longleftrightarrow> rule_CredentialUses rule = [])
      \<and> (rule_Effect rule = EffectRequest \<longleftrightarrow> rule_GrantPolicy rule \<noteq> None))"

text \<open>Every pattern of the rule is valid UTF-8, as strings decoded from JSON are.\<close>

definition utf8Rule :: "Rule \<Rightarrow> bool" where
  "utf8Rule rule =
     (list_all validUTF8 (rule_Clients rule)
      \<and> list_all (\<lambda>tm. list_all (\<lambda>(_, ps). list_all validUTF8 ps) (tm_Fields tm)) (rule_Targets rule)
      \<and> list_all (\<lambda>(_, ps). list_all validUTF8 ps) (rule_Attrs rule))"

text \<open>Operation names without glob metacharacters, as all providers register them.\<close>

definition literalOperations :: "Registry \<Rightarrow> bool" where
  "literalOperations r = list_all (\<lambda>(name, _). litWhole name = Some name) (reg_Operations r)"

lemma checked_good:
  "checkedValues mode ps \<Longrightarrow> list_all validUTF8 ps \<Longrightarrow> \<forall>p\<in>set ps. goodPattern mode p"
  by (auto simp: checkedValues_def goodPattern_def list_all_iff)

lemma target_fields_overlap:
  assumes "\<forall>(f, ps)\<in>set ls. \<forall>p\<in>set ps. goodPattern (field_Match (fieldAt spec f)) p"
    and "\<forall>(f, ps)\<in>set rs. \<forall>p\<in>set ps. goodPattern (field_Match (fieldAt spec f)) p"
    and "targetFieldsMatch spec EffectRequest ls flds" "targetFieldsMatch spec EffectRequest rs flds"
  shows "patternMapsMayOverlap ls rs spec"
proof -
  have "matchValuesMayOverlap lv rv (field_Match (fieldAt spec f))"
    if "(f, lv) \<in> set ls" "map_of rs f = Some rv" for f lv rv
    using assms that map_of_SomeD[OF that(2)]
    by (intro value_sets_overlap[of lv _ rv "sliceAt flds f"])
      (fastforce simp: targetFieldsMatch_def effectValuesMatch_def list_all_iff)+
  then show ?thesis by (auto simp: patternMapsMayOverlap_def list_all_iff split: option.splits)
qed

lemma attrs_overlap:
  assumes "\<forall>(a, ps)\<in>set ls. \<forall>p\<in>set ps. goodPattern (attr_Match (attrAt r a)) p"
    and "\<forall>(a, ps)\<in>set rs. \<forall>p\<in>set ps. goodPattern (attr_Match (attrAt r a)) p"
    and m: "attrsMatch r EffectRequest ls op attrs" "attrsMatch r EffectRequest rs op attrs"
  shows "attrsMayOverlap ls rs (op_Attrs (opAt r op)) r"
proof -
  have "matchValuesMayOverlap lv rv (attr_Match (attrAt r a))"
    if a: "a \<in> set (op_Attrs (opAt r op))" and lv: "map_of ls a = Some lv" and rv: "map_of rs a = Some rv" for a lv rv
  proof -
    have rel: "attrRelevantToOperation r a op"
      using a by (auto simp: attrRelevantToOperation_def slicesContains_def list_ex_iff)
    have "\<exists>vs. allValuesMatch (attr_Match (attrAt r a)) lv vs \<and> allValuesMatch (attr_Match (attrAt r a)) rv vs"
      using m map_of_SomeD[OF lv] map_of_SomeD[OF rv] rel
      by (fastforce simp: attrsMatch_def list_all_iff effectValuesMatch_def split: option.splits)
    then show ?thesis
      using value_sets_overlap[of lv _ rv] assms(1,2) map_of_SomeD[OF lv] map_of_SomeD[OF rv] by fastforce
  qed
  then show ?thesis by (auto simp: attrsMayOverlap_def list_all_iff split: option.splits)
qed

lemma checked_operation:
  assumes "checkedRule r rule" "literalOperations r" "patternsMatch (rule_Operations rule) op"
  shows "op \<in> set (rule_Operations rule)"
proof -
  obtain p where p: "p \<in> set (rule_Operations rule)" "globMatches p op"
    using assms(3) by (auto simp: patternsMatch_ex)
  then have "litWhole p = Some p"
    using assms(1,2) by (fastforce simp: checkedRule_def list_all_iff hasKey_iff literalOperations_def)
  then show ?thesis using p globMatches_litWhole by simp
qed

lemma checked_target_patterns:
  assumes "checkedRule r x" "utf8Rule x" "t \<in> set (rule_Targets x)"
  shows "\<forall>(f, ps)\<in>set (tm_Fields t). \<forall>p\<in>set ps. goodPattern (field_Match (fieldAt (targetAt r (tm_Kind t)) f)) p"
proof clarify
  fix f ps p
  assume f: "(f, ps) \<in> set (tm_Fields t)" and p: "p \<in> set ps"
  have "list_all (\<lambda>(f, ps). checkedValues (field_Match (fieldAt (targetAt r (tm_Kind t)) f)) ps) (tm_Fields t)"
    using assms(1) list_all_in[OF _ assms(3)] unfolding checkedRule_def by blast
  then have "checkedValues (field_Match (fieldAt (targetAt r (tm_Kind t)) f)) ps" using f by (rule list_all_entry)
  moreover have "list_all (\<lambda>(_, ps). list_all validUTF8 ps) (tm_Fields t)"
    using assms(2) list_all_in[OF _ assms(3)] unfolding utf8Rule_def by blast
  then have "list_all validUTF8 ps" using f by (rule list_all_entry)
  ultimately show "goodPattern (field_Match (fieldAt (targetAt r (tm_Kind t)) f)) p" using checked_good p by blast
qed

lemma checked_attr_patterns:
  assumes "checkedRule r x" "utf8Rule x"
  shows "\<forall>(n, ps)\<in>set (rule_Attrs x). \<forall>p\<in>set ps. goodPattern (attr_Match (attrAt r n)) p"
proof clarify
  fix n ps p
  assume n: "(n, ps) \<in> set (rule_Attrs x)" and p: "p \<in> set ps"
  have "checkedValues (attr_Match (attrAt r n)) ps" "list_all validUTF8 ps"
    using assms list_all_entry[OF _ n] unfolding checkedRule_def utf8Rule_def by blast+
  then show "goodPattern (attr_Match (attrAt r n)) p" using checked_good p by blast
qed

lemma rules_overlap:
  assumes chk: "checkedRule r a" "checkedRule r b" and utf8: "utf8Rule a" "utf8Rule b" and lit: "literalOperations r"
    and eff: "rule_Effect a = EffectRequest" "rule_Effect b = EffectRequest"
    and m: "ruleMatches r a request use" "ruleMatches r b request use"
  shows "requestRulesMayOverlap a b r"
proof -
  let ?op = "req_Operation request"
  have uses: "credentialUsesMayOverlap (rule_CredentialUses a) (rule_CredentialUses b)"
    using m chk eff unfolding ruleMatches_def ruleCredentialUseMatches_def credentialUsesMayOverlap_def
    by (auto simp: checkedRule_def list_ex_iff Let_def split: if_splits)
  have clients: "valueListsMayOverlap (rule_Clients a) (rule_Clients b) patternsMayOverlap"
    using m utf8 by (intro glob_lists_overlap[of _ _ "req_Client request"])
      (auto simp: ruleMatches_def utf8Rule_def list_all_iff)
  have ops: "?op \<in> set (rule_Operations a)" "?op \<in> set (rule_Operations b)"
    using m chk lit checked_operation by (auto simp: ruleMatches_def)
  obtain ta tb where t: "ta \<in> set (rule_Targets a)" "tb \<in> set (rule_Targets b)" "tm_Kind ta = tm_Kind tb"
    "targetFieldsMatch (targetAt r (tm_Kind ta)) EffectRequest (tm_Fields ta) (target_Fields (req_Target request))"
    "targetFieldsMatch (targetAt r (tm_Kind ta)) EffectRequest (tm_Fields tb) (target_Fields (req_Target request))"
    using m eff by (auto simp: ruleMatches_def targetsMatch_def list_ex_iff)
  have targets: "targetMatchersMayOverlap (rule_Targets a) (rule_Targets b) r"
  proof -
    have "patternMapsMayOverlap (tm_Fields ta) (tm_Fields tb) (targetAt r (tm_Kind ta))"
      using checked_target_patterns[OF chk(1) utf8(1) t(1)] checked_target_patterns[OF chk(2) utf8(2) t(2)] t(3-5)
      by (intro target_fields_overlap) simp_all
    then show ?thesis using t(1-3) unfolding targetMatchersMayOverlap_def list_ex_iff by blast
  qed
  have "attrsMayOverlap (rule_Attrs a) (rule_Attrs b) (op_Attrs (opAt r ?op)) r"
    using m eff attrs_overlap[OF checked_attr_patterns[OF chk(1) utf8(1)] checked_attr_patterns[OF chk(2) utf8(2)]] by (auto simp: ruleMatches_def)
  then show ?thesis using uses clients targets ops by (auto simp: requestRulesMayOverlap_def list_ex_iff)
qed

section \<open>Normalization yields checked rules\<close>

lemma patternsLoop_Inr:
  "patternsLoop field out vs = Inr ps \<Longrightarrow> distinct out \<Longrightarrow> [] \<notin> set out \<Longrightarrow>
   distinct ps \<and> [] \<notin> set ps \<and> set ps = set out \<union> trimSpace ` set vs"
proof (induction field out vs arbitrary: ps rule: patternsLoop.induct)
  case (2 field out v vs)
  show ?case
  proof (cases "trimSpace v \<in> set out")
    case True
    then show ?thesis using "2.IH"(1)[of "trimSpace v" ps] "2.prems" by (auto simp: Let_def split: if_splits)
  next
    case False
    then show ?thesis using "2.IH"(2)[of "trimSpace v" ps] "2.prems" by (auto simp: Let_def split: if_splits)
  qed
qed simp

lemma normalizeMatchValues_checked:
  assumes "normalizeMatchValues vs field mode = Inr ps"
  shows "checkedValues mode ps"
proof -
  have "vs \<noteq> []" "patternsLoop field [] vs = Inr ps"
    "\<forall>p\<in>set ps. validateMatchValue p (defaultedMatchMode mode) = None"
    using assms by (auto simp: normalizeMatchValues_def normalizePatternsWithoutValidation_def Let_def split: if_splits)
  then show ?thesis
    using patternsLoop_Inr[of field "[]" vs ps] unfolding checkedValues_def list_all_iff
    by (metis distinct.simps(1) empty_iff image_is_empty list.set(1) set_empty2 sup_bot_left)
qed

lemma validateTarget_checked:
  assumes "validateTarget t ops r = Inr t'"
  shows "tm_Kind t' = tm_Kind t
    \<and> list_all (\<lambda>(f, ps). checkedValues (field_Match (fieldAt (targetAt r (tm_Kind t')) f)) ps) (tm_Fields t')"
proof -
  obtain spec flds where spec: "map_of (reg_Targets r) (tm_Kind t) = Some spec" and t': "t' = t\<lparr>tm_Fields := flds\<rparr>"
    and flds: "traverseR (\<lambda>(field, patterns).
              (case map_of (spec_Fields spec) field of
                 None \<Rightarrow> Inl (RuleTargetUnsupportedField (tm_Kind t) field)
               | Some fs \<Rightarrow> bindR (normalizeMatchValues patterns (''target.'' @ field) (field_Match fs))
                     (\<lambda>normalized. Inr (field, normalized)))) (tm_Fields t) = Inr flds"
    using assms
    by (auto simp: validateTarget_def validateTargetFields_def validateSupportedTargetFields_def split: option.splits)
  have "checkedValues (field_Match (fieldAt (targetAt r (tm_Kind t)) f)) ps" if "(f, ps) \<in> set flds" for f ps
    using traverseR_in[OF flds that]
    by (auto simp: spec targetAt_def fieldAt_def dest!: normalizeMatchValues_checked split: option.splits)
  then show ?thesis by (auto simp: t' list_all_iff)
qed

lemma normalizeTargets_checked:
  assumes "normalizeTargets ts ops r = Inr ts'"
  shows "list_all (\<lambda>tm. list_all (\<lambda>(f, ps). checkedValues (field_Match (fieldAt (targetAt r (tm_Kind tm)) f)) ps)
    (tm_Fields tm)) ts'"
  using assms validateTarget_checked traverseR_in[of "\<lambda>t. validateTarget t ops r" ts ts']
  unfolding normalizeTargets_def list_all_iff[of _ ts'] by (metis (no_types, lifting) Inl_Inr_False)

lemma normalizeAttrs_checked:
  assumes "normalizeAttrs attrs ops r = Inr attrs'"
  shows "list_all (\<lambda>(a, ps). checkedValues (attr_Match (attrAt r a)) ps) attrs'"
proof -
  have "checkedValues (attr_Match (attrAt r a)) ps" if "(a, ps) \<in> set attrs'" for a ps
    using traverseR_in[OF assms[unfolded normalizeAttrs_def] that]
    by (auto dest!: normalizeMatchValues_checked split: option.splits if_splits)
  then show ?thesis by (auto simp: list_all_iff)
qed

lemma normalizeUsesLoop_set:
  "normalizeUsesLoop effect ops r out us = Inr us' \<Longrightarrow> set us' = set out \<union> set us"
  by (induction effect ops r out us arbitrary: us' rule: normalizeUsesLoop.induct) (auto split: if_splits)

lemma normalizeCredentialUses_empty:
  assumes "normalizeCredentialUses effect us ops r = Inr us'"
  shows "effect = EffectDeny \<longleftrightarrow> us' = []"
  using assms by (auto simp: normalizeCredentialUses_def dest!: normalizeUsesLoop_set split: if_splits)
    (metis set_empty set_sort sort_key_simps(1))

lemma normalizeGrantPolicy_presence:
  assumes "normalizeGrantPolicy effect raw ops r = Inr gp"
  shows "effect = EffectRequest \<longleftrightarrow> gp \<noteq> None"
  using assms by (cases raw) (auto simp: normalizeGrantPolicy_def validateGrantPolicyPresence_def Let_def)

lemma normalizeRule_checked:
  assumes "normalizeRule raw r = Inr rule"
  shows "checkedRule r rule"
  using assms
  by (auto simp: normalizeRule_def normalizeRuleBody_def checkedRule_def normalizePatterns_def
      normalizeOperations_def list_all_iff[of "hasKey _"]
      dest: normalizeMatchValues_checked normalizeTargets_checked normalizeAttrs_checked
        normalizeCredentialUses_empty normalizeGrantPolicy_presence)

lemma rulesLoop_checked:
  "rulesLoop i seen r raws = Inr rules \<Longrightarrow>
   list_all (checkedRule r) rules \<and> distinct (map rule_ID rules) \<and> set seen \<inter> rule_ID ` set rules = {}"
proof (induction i seen r raws arbitrary: rules rule: rulesLoop.induct)
  case (2 i seen r raw raws)
  then obtain rule rest where "normalizeRule raw r = Inr rule" "rule_ID rule \<notin> set seen" "rules = rule # rest"
    "rulesLoop (i + 1) (rule_ID rule # seen) r raws = Inr rest"
    by (auto split: sum.splits if_splits)
  then show ?case using "2.IH"[of rule rest] normalizeRule_checked by auto
qed simp

lemma normalizeRules_checked:
  assumes "normalizeRules raws r = Inr rules"
  shows "list_all (checkedRule r) rules" "distinct (map rule_ID rules)" "validateRequestRuleAmbiguity rules r = None"
  using assms rulesLoop_checked[of 0 "[]" r raws rules] by (auto simp: normalizeRules_def)

lemma grantPoliciesEqual_iff [simp]: "grantPoliciesEqual a b \<longleftrightarrow> a = b"
  by (auto simp: grantPoliciesEqual_def split: option.splits)

lemma ambiguity_pairs:
  "validateRequestRuleAmbiguity rules r = None \<Longrightarrow> i < j \<Longrightarrow> j < length rules \<Longrightarrow>
   rule_Effect (rules ! i) = EffectRequest \<Longrightarrow> rule_Effect (rules ! j) = EffectRequest \<Longrightarrow>
   rule_GrantPolicy (rules ! i) = rule_GrantPolicy (rules ! j) \<or> \<not> requestRulesMayOverlap (rules ! i) (rules ! j) r"
proof (induction rules r arbitrary: i j rule: validateRequestRuleAmbiguity.induct)
  case (2 left later r)
  obtain j' where j: "j = Suc j'" using 2 by (cases j) auto
  show ?case
  proof (cases i)
    case 0
    then have "later ! j' \<in> set later" using 2 j by simp
    then show ?thesis using 2 0 j by (auto simp: validateRequestRuleAgainstLaterRules_def split: if_splits)
  next
    case (Suc i')
    then show ?thesis using 2 j by (cases "rule_Effect left = EffectRequest") auto
  qed
qed simp

lemma unambiguous_grant_policy:
  assumes ok: "validateRequestRuleAmbiguity rules r = None" and lit: "literalOperations r"
    and chk: "list_all (checkedRule r) rules" and utf8: "list_all utf8Rule rules"
    and a: "a \<in> set rules" "rule_Effect a = EffectRequest" "ruleMatches r a request use"
    and b: "b \<in> set rules" "rule_Effect b = EffectRequest" "ruleMatches r b request use"
  shows "rule_GrantPolicy a = rule_GrantPolicy b"
proof -
  obtain i j where ij: "i < length rules" "rules ! i = a" "j < length rules" "rules ! j = b"
    using a(1) b(1) by (metis in_set_conv_nth)
  have "requestRulesMayOverlap a b r" "requestRulesMayOverlap b a r"
    using rules_overlap list_all_in[OF chk] list_all_in[OF utf8] lit a b by blast+
  then show ?thesis using ambiguity_pairs[OF ok, of i j] ambiguity_pairs[OF ok, of j i] ij a b
    by (cases i j rule: linorder_cases) auto
qed

section \<open>Literals\<close>

text \<open>
  A pattern the ambiguity check takes for a literal is one: for valid UTF-8, \<^verbatim>\<open>literalGlobValue\<close> returns a text
  exactly when \<^verbatim>\<open>path.Match\<close> accepts that text and nothing else, so that comparing literals decides overlap.
\<close>

lemma literalGlobValue_matches_itself_only:
  assumes "validUTF8 pattern" and "literalGlobValue pattern = Some l"
  shows "pathMatch pattern name = Some (name = l)"
  using assms by (simp add: literalGlobValue_valid pathMatch_litWhole)

end
