(* ===== verification/PolicyDecide.thy ===== *)
theory PolicyDecide
  imports PolicyAmbiguity
begin

text \<open>
  \<^verbatim>\<open>authorization/policy/decide.go\<close>: one classified request against a policy, its active grants and a
  clock reading. A deny rule wins over everything, then a live matching grant (managed credential
  only), then allow rules, then request rules. \<open>decisionSpec\<close> states that order as one case
  distinction over matching rules; the properties rest on its equivalence with \<open>Decide\<close>.
\<close>

section \<open>Decide\<close>

datatype reason = Reason string | Invalid policyError

record Decision =
  dec_Effect :: Effect
  dec_Allowed :: bool
  dec_Reason :: reason
  dec_CredentialUse :: CredentialUse
  dec_MatchedDenyRuleIDs :: "string list"
  dec_MatchedGrantRuleIDs :: "string list"
  dec_MatchedAllowRuleIDs :: "string list"
  dec_MatchedRequestRuleIDs :: "string list"
  dec_GrantID :: string
  dec_GrantPolicy :: "GrantPolicy option"

text \<open>A \<^verbatim>\<open>Decision\<close> literal with the fields the code leaves out at their zero values.\<close>

definition decision :: "Effect \<Rightarrow> bool \<Rightarrow> reason \<Rightarrow> CredentialUse \<Rightarrow> Decision" where
  "decision effect allowed why use =
     \<lparr>dec_Effect = effect, dec_Allowed = allowed, dec_Reason = why, dec_CredentialUse = use,
      dec_MatchedDenyRuleIDs = [], dec_MatchedGrantRuleIDs = [], dec_MatchedAllowRuleIDs = [],
      dec_MatchedRequestRuleIDs = [], dec_GrantID = [], dec_GrantPolicy = None\<rparr>"

record DecisionOptions =
  opt_ForGrantRequest :: bool
  opt_Now :: gotime
  opt_ActiveGrants :: "PolicyGrant list"
  opt_CredentialUse :: CredentialUse

text \<open>\<^verbatim>\<open>normalizeRequest\<close> copies the maps of the request, so the value is unchanged.\<close>

definition normalizeRequest :: "Request \<Rightarrow> Request" where
  "normalizeRequest request =
     \<lparr>req_Client = req_Client request, req_Operation = req_Operation request,
      req_Target = \<lparr>target_Kind = target_Kind (req_Target request), target_Fields = target_Fields (req_Target request)\<rparr>,
      req_Attrs = req_Attrs request\<rparr>"

fun firstGrantPolicyLoop :: "string \<Rightarrow> Rule list \<Rightarrow> GrantPolicy option" where
  "firstGrantPolicyLoop ruleID [] = None"
| "firstGrantPolicyLoop ruleID (rule # rules) =
     (if rule_ID rule = ruleID \<and> rule_GrantPolicy rule \<noteq> None then rule_GrantPolicy rule
      else firstGrantPolicyLoop ruleID rules)"

definition firstGrantPolicy :: "Policy \<Rightarrow> string \<Rightarrow> GrantPolicy option" where
  "firstGrantPolicy p ruleID = firstGrantPolicyLoop ruleID (pol_rules p)"

text \<open>\<open>wall\<close> is what \<^verbatim>\<open>time.Now().UTC()\<close> reads when the options carry no time.\<close>

definition firstMatchingGrant :: "gotime \<Rightarrow> Policy \<Rightarrow> Request \<Rightarrow> DecisionOptions \<Rightarrow> PolicyGrant option" where
  "firstMatchingGrant wall p request opts =
     (let now = (if opt_Now opts = 0 then wall else opt_Now opts)
      in List.find (\<lambda>g. \<not> (pg_ExpiresAt g = 0 \<or> \<not> now < pg_ExpiresAt g) \<and> grantMatches (pol_registry p) g request)
           (opt_ActiveGrants opts))"

definition matchingRuleIDs :: "Policy \<Rightarrow> Request \<Rightarrow> Effect \<Rightarrow> CredentialUse \<Rightarrow> string list" where
  "matchingRuleIDs p request effect use =
     map rule_ID (filter (\<lambda>rule. rule_Effect rule = effect \<and> ruleMatches (pol_registry p) rule request use) (pol_rules p))"

definition staticRuleDecision :: "Policy \<Rightarrow> Request \<Rightarrow> bool \<Rightarrow> CredentialUse \<Rightarrow> Decision" where
  "staticRuleDecision p request grantRequest use =
     (let allowIDs = matchingRuleIDs p request EffectAllow use
      in if allowIDs \<noteq> [] then
           (decision EffectAllow True (Reason ''policy_allowed'') use)\<lparr>dec_MatchedAllowRuleIDs := allowIDs\<rparr>
         else
           (case matchingRuleIDs p request EffectRequest use of
              [] \<Rightarrow> decision EffectNoMatch False (Reason ''no_matching_rule'') use
            | first # rest \<Rightarrow>
                if grantRequest then
                  (decision EffectRequest False (Reason ''requestable'') use)
                    \<lparr>dec_MatchedRequestRuleIDs := first # rest, dec_GrantPolicy := firstGrantPolicy p first\<rparr>
                else
                  (decision EffectDeny False (Reason ''approval_required'') use)
                    \<lparr>dec_MatchedRequestRuleIDs := first # rest\<rparr>))"

definition managedGrantDecision ::
  "gotime \<Rightarrow> Policy \<Rightarrow> Request \<Rightarrow> DecisionOptions \<Rightarrow> CredentialUse \<Rightarrow> Decision option" where
  "managedGrantDecision wall p request opts use =
     (if use \<noteq> CredentialUseManaged then None
      else map_option (\<lambda>grant.
             (decision EffectAllow True (Reason ''grant_allowed'') use)
               \<lparr>dec_MatchedGrantRuleIDs := [pg_ID grant], dec_GrantID := pg_ID grant\<rparr>)
           (firstMatchingGrant wall p request opts))"

definition decideValidRequest ::
  "gotime \<Rightarrow> Policy \<Rightarrow> Request \<Rightarrow> DecisionOptions \<Rightarrow> CredentialUse \<Rightarrow> Decision" where
  "decideValidRequest wall p request opts use =
     (let denyIDs = matchingRuleIDs p request EffectDeny use
      in if denyIDs \<noteq> [] then
           (decision EffectDeny False (Reason ''policy_denied'') use)\<lparr>dec_MatchedDenyRuleIDs := denyIDs\<rparr>
         else (case managedGrantDecision wall p request opts use of
                 Some d \<Rightarrow> d
               | None \<Rightarrow> staticRuleDecision p request (opt_ForGrantRequest opts) use))"

definition Decide :: "gotime \<Rightarrow> Policy \<Rightarrow> Request \<Rightarrow> DecisionOptions \<Rightarrow> Decision" where
  "Decide wall p request0 opts =
     (let request = normalizeRequest request0;
          use = defaultedCredentialUse (opt_CredentialUse opts)
      in case validateRequest (pol_registry p) request of
           Some e \<Rightarrow> decision EffectNoMatch False (Invalid e) use
         | None \<Rightarrow>
             (case validateRequestCredentialUse (pol_registry p) (req_Operation request) use of
                Some e \<Rightarrow> decision EffectNoMatch False (Invalid e) use
              | None \<Rightarrow> decideValidRequest wall p request opts use))"

definition Policy_Rules :: "Policy \<Rightarrow> Rule list" where
  "Policy_Rules p = cloneRules (pol_rules p)"

lemma normalizeRequest_id [simp]: "normalizeRequest request = request"
  by (simp add: normalizeRequest_def)

lemma decision_simps [simp]:
  "dec_Effect (decision e a w u) = e" "dec_Allowed (decision e a w u) = a" "dec_Reason (decision e a w u) = w"
  "dec_CredentialUse (decision e a w u) = u" "dec_GrantID (decision e a w u) = []"
  "dec_GrantPolicy (decision e a w u) = None" "dec_MatchedDenyRuleIDs (decision e a w u) = []"
  "dec_MatchedGrantRuleIDs (decision e a w u) = []" "dec_MatchedAllowRuleIDs (decision e a w u) = []"
  "dec_MatchedRequestRuleIDs (decision e a w u) = []"
  by (simp_all add: decision_def)

section \<open>The decision order as a specification\<close>

text \<open>A request is evaluated when both validations pass.\<close>

definition evaluated :: "Policy \<Rightarrow> Request \<Rightarrow> CredentialUse \<Rightarrow> bool" where
  "evaluated p request use0 =
     (validateRequest (pol_registry p) request = None
      \<and> validateRequestCredentialUse (pol_registry p) (req_Operation request) (defaultedCredentialUse use0) = None)"

definition ruleApplies :: "Policy \<Rightarrow> Request \<Rightarrow> CredentialUse \<Rightarrow> Effect \<Rightarrow> bool" where
  "ruleApplies p request use0 effect =
     (\<exists>rule\<in>set (pol_rules p). rule_Effect rule = effect
        \<and> ruleMatches (pol_registry p) rule request (defaultedCredentialUse use0))"

text \<open>A grant that is alive and covers the request.\<close>

definition liveGrant :: "gotime \<Rightarrow> Policy \<Rightarrow> Request \<Rightarrow> PolicyGrant \<Rightarrow> bool" where
  "liveGrant now p request g =
     (pg_ExpiresAt g \<noteq> 0 \<and> now < pg_ExpiresAt g \<and> grantMatches (pol_registry p) g request)"

definition decisionTime :: "gotime \<Rightarrow> DecisionOptions \<Rightarrow> gotime" where
  "decisionTime wall opts = (if opt_Now opts = 0 then wall else opt_Now opts)"

text \<open>The outcome classes of a decision, in the order of precedence.\<close>

datatype outcome = NotEvaluated | PolicyDenied | GrantAllowed | PolicyAllowed | Requestable | ApprovalRequired | NoRule

definition decisionSpec :: "gotime \<Rightarrow> Policy \<Rightarrow> Request \<Rightarrow> DecisionOptions \<Rightarrow> outcome" where
  "decisionSpec wall p request opts =
     (let use = opt_CredentialUse opts
      in if \<not> evaluated p request use then NotEvaluated
         else if ruleApplies p request use EffectDeny then PolicyDenied
         else if defaultedCredentialUse use = CredentialUseManaged
                 \<and> (\<exists>g\<in>set (opt_ActiveGrants opts). liveGrant (decisionTime wall opts) p request g) then GrantAllowed
         else if ruleApplies p request use EffectAllow then PolicyAllowed
         else if ruleApplies p request use EffectRequest then
           (if opt_ForGrantRequest opts then Requestable else ApprovalRequired)
         else NoRule)"

definition outcomeOf :: "Decision \<Rightarrow> outcome" where
  "outcomeOf d =
     (case dec_Reason d of
        Invalid _ \<Rightarrow> NotEvaluated
      | Reason w \<Rightarrow>
          if w = ''policy_denied'' then PolicyDenied else if w = ''grant_allowed'' then GrantAllowed
          else if w = ''policy_allowed'' then PolicyAllowed else if w = ''requestable'' then Requestable
          else if w = ''approval_required'' then ApprovalRequired else NoRule)"

lemma matchingRuleIDs_empty:
  "matchingRuleIDs p request effect (defaultedCredentialUse use) = [] \<longleftrightarrow> \<not> ruleApplies p request use effect"
  by (auto simp: matchingRuleIDs_def ruleApplies_def filter_empty_conv)

lemma firstMatchingGrant_None:
  "firstMatchingGrant wall p request opts = None \<longleftrightarrow>
   \<not> (\<exists>g\<in>set (opt_ActiveGrants opts). liveGrant (decisionTime wall opts) p request g)"
  by (auto simp: firstMatchingGrant_def liveGrant_def decisionTime_def Let_def find_None_iff)

lemma firstMatchingGrant_Some:
  "firstMatchingGrant wall p request opts = Some g \<Longrightarrow>
   g \<in> set (opt_ActiveGrants opts) \<and> liveGrant (decisionTime wall opts) p request g"
  unfolding firstMatchingGrant_def liveGrant_def decisionTime_def Let_def
  by (auto simp: find_Some_iff split: if_splits)

lemma outcome_invalid: "\<not> evaluated p request (opt_CredentialUse opts) \<Longrightarrow>
  \<exists>e. Decide wall p request opts = decision EffectNoMatch False (Invalid e) (defaultedCredentialUse (opt_CredentialUse opts))"
  by (auto simp: evaluated_def Decide_def Let_def split: option.splits)

lemma Decide_evaluated: "evaluated p request (opt_CredentialUse opts) \<Longrightarrow>
  Decide wall p request opts = decideValidRequest wall p request opts (defaultedCredentialUse (opt_CredentialUse opts))"
  by (auto simp: evaluated_def Decide_def Let_def)

lemma staticRuleDecision_outcome:
  "outcomeOf (staticRuleDecision p request gr (defaultedCredentialUse use)) =
     (if ruleApplies p request use EffectAllow then PolicyAllowed
      else if ruleApplies p request use EffectRequest then (if gr then Requestable else ApprovalRequired)
      else NoRule)"
  using matchingRuleIDs_empty[of p request EffectAllow use] matchingRuleIDs_empty[of p request EffectRequest use]
  by (auto simp: staticRuleDecision_def Let_def outcomeOf_def split: list.splits)

lemma Decide_outcome: "outcomeOf (Decide wall p request opts) = decisionSpec wall p request opts"
proof (cases "evaluated p request (opt_CredentialUse opts)")
  case True
  let ?use = "opt_CredentialUse opts"
  have "outcomeOf (decideValidRequest wall p request opts (defaultedCredentialUse ?use)) = decisionSpec wall p request opts"
    using True matchingRuleIDs_empty[of p request EffectDeny ?use] firstMatchingGrant_None[of wall p request opts]
      staticRuleDecision_outcome[of p request "opt_ForGrantRequest opts" ?use]
    by (cases "firstMatchingGrant wall p request opts")
      (auto simp: decideValidRequest_def managedGrantDecision_def decisionSpec_def Let_def outcomeOf_def)
  then show ?thesis using True by (simp add: Decide_evaluated)
next
  case False
  then show ?thesis using outcome_invalid[of p request opts wall] by (auto simp: decisionSpec_def outcomeOf_def)
qed

section \<open>The copy of the registry\<close>

lemma map_of_cloneOperations:
  "map_of (cloneOperations m) name = map_option (\<lambda>spec. spec\<lparr>op_MaxGrantMinutes := 0, op_MaxGrantUses := 0,
     op_DisallowUnlimitedGrantUses := False\<rparr>) (map_of m name)"
  by (induction m) (auto simp: cloneOperations_def)

lemma cloneTargets_id [simp]: "cloneTargets m = m"
  by (induction m) (auto simp: cloneTargets_def)

lemma cloneRegistry_simps [simp]:
  "reg_Targets (cloneRegistry r) = reg_Targets r" "reg_Attrs (cloneRegistry r) = reg_Attrs r"
  "map_of (reg_Operations (cloneRegistry r)) name = map_option (\<lambda>spec. spec\<lparr>op_MaxGrantMinutes := 0,
     op_MaxGrantUses := 0, op_DisallowUnlimitedGrantUses := False\<rparr>) (map_of (reg_Operations r) name)"
  by (simp_all add: cloneRegistry_def map_of_cloneOperations)

lemma clone_lookups [simp]:
  "targetAt (cloneRegistry r) = targetAt r" "attrAt (cloneRegistry r) = attrAt r"
  "op_Attrs (opAt (cloneRegistry r) name) = op_Attrs (opAt r name)"
  by (auto simp: targetAt_def attrAt_def opAt_def fun_eq_iff split: option.splits)

lemma clone_ruleMatches: "ruleMatches (cloneRegistry r) = ruleMatches r"
proof -
  have "attrRelevantToOperation (cloneRegistry r) = attrRelevantToOperation r"
    by (simp add: attrRelevantToOperation_def fun_eq_iff)
  then have "targetsMatch (cloneRegistry r) = targetsMatch r" "attrsMatch (cloneRegistry r) = attrsMatch r"
    unfolding targetsMatch_def attrsMatch_def fun_eq_iff clone_lookups by auto
  then show ?thesis by (simp add: ruleMatches_def fun_eq_iff)
qed

lemma clone_grantMatches: "grantMatches (cloneRegistry r) = grantMatches r"
proof -
  have "grantTargetMatches (cloneRegistry r) = grantTargetMatches r" "grantAttrsMatch (cloneRegistry r) = grantAttrsMatch r"
    unfolding grantTargetMatches_def grantAttrsMatch_def unconstrainedGrantAttrsAllowed_def fun_eq_iff
      clone_lookups cloneRegistry_simps by auto
  then show ?thesis by (simp add: grantMatches_def fun_eq_iff)
qed

lemma clone_validateRequest: "validateRequest (cloneRegistry r) request = validateRequest r request"
proof -
  have "validateRequestAttrs name attrs (op\<lparr>op_MaxGrantMinutes := 0, op_MaxGrantUses := 0,
      op_DisallowUnlimitedGrantUses := False\<rparr>) ra = validateRequestAttrs name attrs op ra" for name attrs op ra
    by (simp add: validateRequestAttrs_def cong: option.case_cong)
  then show ?thesis
    by (cases "map_of (reg_Operations r) (req_Operation request)") (auto simp: validateRequest_def split: option.split)
qed

lemma clone_credentialUse:
  "validateRequestCredentialUse (cloneRegistry r) op use = validateRequestCredentialUse r op use"
  by (simp add: validateRequestCredentialUse_def SupportsCredentialUse_def Let_def split: option.splits)

lemma clone_Decide:
  "Decide wall \<lparr>pol_registry = cloneRegistry r, pol_rules = rules\<rparr> request opts
   = Decide wall \<lparr>pol_registry = r, pol_rules = rules\<rparr> request opts"
  unfolding Decide_def decideValidRequest_def managedGrantDecision_def staticRuleDecision_def matchingRuleIDs_def
    firstMatchingGrant_def firstGrantPolicy_def
  by (simp only: Policy.simps clone_validateRequest clone_credentialUse clone_ruleMatches clone_grantMatches)

section \<open>Iteration order of a request's maps\<close>

definition sameRequest :: "Request \<Rightarrow> Request \<Rightarrow> bool" where
  "sameRequest q q' \<longleftrightarrow> req_Client q = req_Client q' \<and> req_Operation q = req_Operation q'
     \<and> target_Kind (req_Target q) = target_Kind (req_Target q')
     \<and> sameMap (target_Fields (req_Target q)) (target_Fields (req_Target q'))
     \<and> sameMap (req_Attrs q) (req_Attrs q')"

lemma sameMap_set: "sameMap m m' \<Longrightarrow> set m = set m'"
  by (simp add: sameMap_def)

lemma sameRequest_facts:
  assumes "sameRequest q q'"
  shows "req_Client q = req_Client q'" "req_Operation q = req_Operation q'"
    "target_Kind (req_Target q) = target_Kind (req_Target q')"
    "sliceAt (target_Fields (req_Target q)) = sliceAt (target_Fields (req_Target q'))"
    "set (target_Fields (req_Target q)) = set (target_Fields (req_Target q'))"
    "map_of (req_Attrs q) = map_of (req_Attrs q')" "length (req_Attrs q) = length (req_Attrs q')"
    "set (req_Attrs q) = set (req_Attrs q')"
  using assms unfolding sameRequest_def
  by (auto intro: sameMap_lookup sameMap_sliceAt sameMap_length dest: sameMap_set)

lemma sameRequest_ruleMatches: "sameRequest q q' \<Longrightarrow> ruleMatches r rule q use = ruleMatches r rule q' use"
  unfolding ruleMatches_def targetsMatch_def targetFieldsMatch_def attrsMatch_def by (simp add: sameRequest_facts)

lemma sameRequest_grantMatches:
  assumes "sameRequest q q'"
  shows "grantMatches r g q = grantMatches r g q'"
  unfolding grantMatches_def grantTargetMatches_def grantAttrsMatch_def unconstrainedGrantAttrsAllowed_def
    list_all_iff[of _ "req_Attrs q"] list_all_iff[of _ "req_Attrs q'"]
  by (simp only: sameRequest_facts[OF assms])

lemma sameRequest_valid: "sameRequest q q' \<Longrightarrow> validateRequest r q = None \<longleftrightarrow> validateRequest r q' = None"
  by (auto simp: sameRequest_facts validateRequest_def validateRequestTarget_def validateRequestAttrs_def
      split: option.splits)

lemma sameRequest_Decide_valid:
  assumes "sameRequest q q'" "validateRequest (pol_registry p) q = None"
  shows "Decide wall p q opts = Decide wall p q' opts"
proof -
  have same: "matchingRuleIDs p q = matchingRuleIDs p q'" "firstMatchingGrant wall p q = firstMatchingGrant wall p q'"
    using sameRequest_ruleMatches[OF assms(1)] sameRequest_grantMatches[OF assms(1)]
    by (simp_all add: fun_eq_iff matchingRuleIDs_def firstMatchingGrant_def)
  have "validateRequest (pol_registry p) q' = None" "req_Operation q = req_Operation q'"
    using assms sameRequest_valid[OF assms(1)] by (auto simp: sameRequest_def)
  moreover have "decideValidRequest wall p q opts use = decideValidRequest wall p q' opts use" for use
    unfolding decideValidRequest_def managedGrantDecision_def staticRuleDecision_def same ..
  ultimately show ?thesis using assms(2) by (simp add: Decide_def Let_def split: option.split)
qed

lemma sameRequest_Decide_invalid:
  assumes "sameRequest q q'" "validateRequest (pol_registry p) q \<noteq> None"
  shows "dec_Effect (Decide wall p q opts) = EffectNoMatch \<and> dec_Effect (Decide wall p q' opts) = EffectNoMatch"
  using assms sameRequest_valid[OF assms(1), of "pol_registry p"] by (auto simp: Decide_def Let_def)

section \<open>Grant policies of request decisions\<close>

lemma firstGrantPolicyLoop_unique:
  "distinct (map rule_ID rules) \<Longrightarrow> rule \<in> set rules \<Longrightarrow> rule_GrantPolicy rule \<noteq> None \<Longrightarrow>
   firstGrantPolicyLoop (rule_ID rule) rules = rule_GrantPolicy rule"
  by (induction rules) (auto simp: image_iff)

lemma requestable_grant_policy:
  assumes p: "p = \<lparr>pol_registry = r, pol_rules = rules\<rparr>" and ids: "distinct (map rule_ID rules)"
    and chk: "list_all (checkedRule r) rules"
    and d: "dec_Effect (Decide wall p request opts) = EffectRequest"
  obtains first where "first \<in> set rules" "rule_Effect first = EffectRequest"
    "ruleMatches r first request (defaultedCredentialUse (opt_CredentialUse opts))"
    "dec_GrantPolicy (Decide wall p request opts) = rule_GrantPolicy first"
    "dec_MatchedRequestRuleIDs (Decide wall p request opts) \<noteq> []"
proof -
  let ?use = "defaultedCredentialUse (opt_CredentialUse opts)"
  obtain i rest where m: "matchingRuleIDs p request EffectRequest ?use = i # rest"
    and D: "Decide wall p request opts = (decision EffectRequest False (Reason ''requestable'') ?use)
      \<lparr>dec_MatchedRequestRuleIDs := i # rest, dec_GrantPolicy := firstGrantPolicy p i\<rparr>"
    using d by (auto simp: Decide_def decideValidRequest_def managedGrantDecision_def staticRuleDecision_def Let_def
        split: option.splits if_splits list.splits)
  obtain first where first: "first \<in> set rules" "rule_Effect first = EffectRequest"
    "ruleMatches r first request ?use" "rule_ID first = i"
  proof -
    have "i \<in> set (matchingRuleIDs p request EffectRequest ?use)" using m by simp
    then show thesis using that by (auto simp: matchingRuleIDs_def p)
  qed
  have "rule_GrantPolicy first \<noteq> None"
    using list_all_in[OF chk first(1)] first(2) unfolding checkedRule_def by blast
  then have "firstGrantPolicy p i = rule_GrantPolicy first"
    using firstGrantPolicyLoop_unique[OF ids first(1)] first(4) by (simp add: firstGrantPolicy_def p)
  then show thesis using that[OF first(1-3)] D by simp
qed

section \<open>Properties\<close>

definition outcomeEffect :: "outcome \<Rightarrow> Effect" where
  "outcomeEffect out =
     (case out of NotEvaluated \<Rightarrow> EffectNoMatch | PolicyDenied \<Rightarrow> EffectDeny | GrantAllowed \<Rightarrow> EffectAllow
      | PolicyAllowed \<Rightarrow> EffectAllow | Requestable \<Rightarrow> EffectRequest | ApprovalRequired \<Rightarrow> EffectDeny | NoRule \<Rightarrow> EffectNoMatch)"

lemma Decide_effect:
  "dec_Effect (Decide wall p request opts) = outcomeEffect (outcomeOf (Decide wall p request opts))
   \<and> dec_Allowed (Decide wall p request opts) = (dec_Effect (Decide wall p request opts) = EffectAllow)"
  by (auto simp: Decide_def decideValidRequest_def managedGrantDecision_def staticRuleDecision_def Let_def
      outcomeOf_def outcomeEffect_def split: option.split list.split)

text \<open>
  C6. Every decision follows one precedence: an invalid request is not evaluated; then a matching deny rule
  wins over everything; then a live matching grant, for the managed credential only; then a matching allow
  rule; then a matching request rule; otherwise nothing matches. A request is allowed in the grant and the
  allow case only.
\<close>

theorem Decide_follows_precedence:
  "outcomeOf (Decide wall p request opts) = decisionSpec wall p request opts
   \<and> dec_Effect (Decide wall p request opts) = outcomeEffect (decisionSpec wall p request opts)
   \<and> (dec_Allowed (Decide wall p request opts) \<longleftrightarrow>
        decisionSpec wall p request opts = GrantAllowed \<or> decisionSpec wall p request opts = PolicyAllowed)"
  using Decide_outcome[of wall p request opts] Decide_effect[of wall p request opts]
  by (cases "decisionSpec wall p request opts") (simp_all add: outcomeEffect_def)

lemma live_grant_decision:
  assumes "dec_MatchedGrantRuleIDs (Decide wall p request opts) \<noteq> []"
  shows "\<exists>g\<in>set (opt_ActiveGrants opts).
     dec_GrantID (Decide wall p request opts) = pg_ID g
     \<and> pg_Client g = req_Client request \<and> pg_Operation g = req_Operation request
     \<and> decisionTime wall opts < pg_ExpiresAt g \<and> (pg_Unlimited g \<or> 0 < pg_UsesLeft g)
     \<and> grantTargetMatches (pol_registry p) (pg_Target g) (req_Target request)
     \<and> grantAttrsMatch (pol_registry p) (pg_Attrs g) (req_Attrs request)
     \<and> defaultedCredentialUse (opt_CredentialUse opts) = CredentialUseManaged
     \<and> \<not> ruleApplies p request (opt_CredentialUse opts) EffectDeny"
proof -
  let ?use = "defaultedCredentialUse (opt_CredentialUse opts)"
  obtain g where g: "firstMatchingGrant wall p request opts = Some g" "?use = CredentialUseManaged"
    "dec_GrantID (Decide wall p request opts) = pg_ID g" "matchingRuleIDs p request EffectDeny ?use = []"
    using assms
    by (auto simp: Decide_def decideValidRequest_def managedGrantDecision_def staticRuleDecision_def Let_def
        split: option.splits list.splits if_splits)
  then show ?thesis
    using firstMatchingGrant_Some[OF g(1)] matchingRuleIDs_empty[of p request EffectDeny "opt_CredentialUse opts"]
    by (auto simp: liveGrant_def grantMatches_def split: if_splits)
qed

text \<open>
  C9. A decision that names a grant names an active grant of the request's own client and operation that has not
  expired at the decision's time, has uses left (or no limit) and matches target and attributes; the request
  uses the managed credential and no deny rule matches it.
\<close>

theorem Decide_grant_is_live:
  assumes "dec_MatchedGrantRuleIDs (Decide wall p request opts) \<noteq> []"
  shows "\<exists>g\<in>set (opt_ActiveGrants opts).
     dec_GrantID (Decide wall p request opts) = pg_ID g
     \<and> pg_Client g = req_Client request \<and> pg_Operation g = req_Operation request
     \<and> decisionTime wall opts < pg_ExpiresAt g \<and> (pg_Unlimited g \<or> 0 < pg_UsesLeft g)
     \<and> grantTargetMatches (pol_registry p) (pg_Target g) (req_Target request)
     \<and> grantAttrsMatch (pol_registry p) (pg_Attrs g) (req_Attrs request)
     \<and> defaultedCredentialUse (opt_CredentialUse opts) = CredentialUseManaged
     \<and> \<not> ruleApplies p request (opt_CredentialUse opts) EffectDeny"
  by (rule live_grant_decision[OF assms])

text \<open>
  A parsed policy decides as the registry it was given would: the copy the policy keeps drops the grant bounds of
  operations, and no decision reads them.
\<close>

lemma Parse_keeps_decisions:
  assumes "Parse decode data r = Inr p"
  shows "\<exists>rules. pol_rules p = rules
     \<and> Decide wall p request opts = Decide wall \<lparr>pol_registry = r, pol_rules = rules\<rparr> request opts"
  using assms clone_Decide by (auto simp: Parse_def split: sum.splits option.splits)

text \<open>
  C8. When a parsed policy answers that a request may be granted on approval, every request rule that matches
  it carries the grant policy the decision returns: the ambiguity check at parse time leaves no request with two
  different bounds. Operation names are literals and patterns valid UTF-8, as registries and JSON decoding give them.
\<close>

theorem Parse_grant_policy_unambiguous:
  assumes "Parse decode data r = Inr p" and "literalOperations r" and "list_all utf8Rule (pol_rules p)"
    and "dec_Effect (Decide wall p request opts) = EffectRequest"
    and "rule \<in> set (pol_rules p)" and "rule_Effect rule = EffectRequest"
    and "ruleMatches r rule request (defaultedCredentialUse (opt_CredentialUse opts))"
  shows "rule_GrantPolicy rule = dec_GrantPolicy (Decide wall p request opts) \<and> rule_GrantPolicy rule \<noteq> None"
proof -
  obtain raws rules where rules: "normalizeRules raws r = Inr rules" and p: "p = \<lparr>pol_registry = cloneRegistry r, pol_rules = rules\<rparr>"
    using assms(1) by (auto simp: Parse_def split: sum.splits option.splits)
  let ?p = "\<lparr>pol_registry = r, pol_rules = rules\<rparr>"
  note checked = normalizeRules_checked[OF rules]
  have D: "Decide wall p request opts = Decide wall ?p request opts" by (simp add: p clone_Decide)
  obtain first where "first \<in> set rules" "rule_Effect first = EffectRequest"
    "ruleMatches r first request (defaultedCredentialUse (opt_CredentialUse opts))"
    "dec_GrantPolicy (Decide wall ?p request opts) = rule_GrantPolicy first"
    using requestable_grant_policy[OF refl checked(2,1), of wall request opts] assms(4) D by auto
  moreover have "rule_GrantPolicy rule \<noteq> None"
    using list_all_in[OF checked(1), of rule] assms(5,6) p unfolding checkedRule_def by auto
  ultimately show ?thesis
    using unambiguous_grant_policy[OF checked(3) assms(2) checked(1), of rule request _ first] assms(3,5-7) D p by auto
qed

text \<open>
  The iteration order of a request's maps does not influence a decision: two requests with the same
  entries get the same decision when they are valid, and both get no match when they are not.
\<close>

lemma Decide_ignores_map_order:
  assumes "sameRequest q q'"
  shows "dec_Effect (Decide wall p q opts) = dec_Effect (Decide wall p q' opts)
    \<and> dec_Allowed (Decide wall p q opts) = dec_Allowed (Decide wall p q' opts)
    \<and> (validateRequest (pol_registry p) q = None \<longrightarrow> Decide wall p q opts = Decide wall p q' opts)"
  using sameRequest_Decide_valid[OF assms] sameRequest_Decide_invalid[OF assms] Decide_effect
  by (cases "validateRequest (pol_registry p) q = None") auto

section \<open>Witnesses\<close>

definition exampleRawRule :: "string \<Rightarrow> string \<Rightarrow> rawRule" where
  "exampleRawRule i pattern =
     \<lparr>raw_ID = i, raw_Effect = EffectRequest, raw_Clients = [''agent''], raw_Operations = [''repo.push''],
      raw_Targets = [\<lparr>tm_Kind = ''repo'', tm_Fields = [(''name'', [pattern])]\<rparr>], raw_Attrs = [],
      raw_CredentialUses = [], raw_GrantPolicy = Some exampleRawGrantPolicy, raw_Description = []\<rparr>"

definition exampleRule :: "string \<Rightarrow> string \<Rightarrow> Rule" where
  "exampleRule i pattern =
     \<lparr>rule_ID = i, rule_Effect = EffectRequest, rule_Clients = [''agent''], rule_Operations = [''repo.push''],
      rule_Targets = [\<lparr>tm_Kind = ''repo'', tm_Fields = [(''name'', [pattern])]\<rparr>], rule_Attrs = [],
      rule_CredentialUses = [CredentialUseManaged], rule_GrantPolicy = Some exampleGrantPolicy, rule_Description = []\<rparr>"

definition exampleRules :: "rawRule list" where
  "exampleRules = [exampleRawRule ''a'' ''team-*'', exampleRawRule ''b'' ''team-x'']"

definition examplePolicy :: Policy where
  "examplePolicy =
     \<lparr>pol_registry = cloneRegistry exampleRegistry, pol_rules = [exampleRule ''a'' ''team-*'', exampleRule ''b'' ''team-x'']\<rparr>"

definition exampleRequest :: Request where
  "exampleRequest =
     \<lparr>req_Client = ''agent'', req_Operation = ''repo.push'',
      req_Target = \<lparr>target_Kind = ''repo'', target_Fields = [(''name'', [''team-x''])]\<rparr>, req_Attrs = []\<rparr>"

definition exampleGrant :: PolicyGrant where
  "exampleGrant =
     \<lparr>pg_ID = ''g1'', pg_Client = ''agent'', pg_Operation = ''repo.push'',
      pg_Target = \<lparr>target_Kind = ''repo'', target_Fields = [(''name'', [''team-x''])]\<rparr>, pg_Attrs = [],
      pg_ExpiresAt = 100, pg_UsesLeft = 1, pg_Unlimited = False\<rparr>"

definition exampleOptions :: "PolicyGrant list \<Rightarrow> DecisionOptions" where
  "exampleOptions grants =
     \<lparr>opt_ForGrantRequest = True, opt_Now = 50, opt_ActiveGrants = grants, opt_CredentialUse = CredentialUseUnset\<rparr>"

lemma example_fields [simp]:
  "opt_ActiveGrants (exampleOptions gs) = gs" "pg_ID exampleGrant = ''g1''"
  by (simp_all add: exampleOptions_def exampleGrant_def)

definition exampleAttrs :: "string list gomap" where
  "exampleAttrs = [(''ref'', [''main'']), (''force'', [''no''])]"

lemma example_Parse: "Parse (\<lambda>_. Inr (Some exampleRules)) [] exampleRegistry = Inr examplePolicy"
  by code_simp

lemma example_Decide_grant:
  "dec_MatchedGrantRuleIDs (Decide 0 examplePolicy exampleRequest (exampleOptions [exampleGrant])) = [''g1'']"
  by code_simp

lemma example_Decide_request:
  "dec_Effect (Decide 0 examplePolicy exampleRequest (exampleOptions [])) = EffectRequest"
  by code_simp

theorem Decide_grant_is_live_witness:
  "dec_MatchedGrantRuleIDs (Decide 0 examplePolicy exampleRequest (exampleOptions [exampleGrant])) \<noteq> []
   \<and> dec_GrantID (Decide 0 examplePolicy exampleRequest (exampleOptions [exampleGrant])) = ''g1''"
  using Decide_grant_is_live[of 0 examplePolicy exampleRequest "exampleOptions [exampleGrant]"] example_Decide_grant
  by simp

lemma Parse_keeps_decisions_example:
  "Parse (\<lambda>_. Inr (Some exampleRules)) [] exampleRegistry = Inr examplePolicy
   \<and> Decide 0 examplePolicy exampleRequest (exampleOptions [])
       = Decide 0 \<lparr>pol_registry = exampleRegistry, pol_rules = pol_rules examplePolicy\<rparr> exampleRequest (exampleOptions [])"
  using Parse_keeps_decisions[OF example_Parse, of 0 exampleRequest "exampleOptions []"] example_Parse by simp

theorem Parse_grant_policy_unambiguous_witness:
  "dec_GrantPolicy (Decide 0 examplePolicy exampleRequest (exampleOptions [])) = Some exampleGrantPolicy"
proof -
  have "literalOperations exampleRegistry" "list_all utf8Rule (pol_rules examplePolicy)"
    "exampleRule ''b'' ''team-x'' \<in> set (pol_rules examplePolicy)" "rule_Effect (exampleRule ''b'' ''team-x'') = EffectRequest"
    by (code_simp, simp add: examplePolicy_def exampleRule_def utf8Rule_def validUTF8_ascii byte_def,
        simp add: examplePolicy_def, simp add: exampleRule_def)
  moreover have "ruleMatches exampleRegistry (exampleRule ''b'' ''team-x'') exampleRequest
      (defaultedCredentialUse (opt_CredentialUse (exampleOptions [])))"
    by code_simp
  ultimately show ?thesis
    using Parse_grant_policy_unambiguous[OF example_Parse _ _ example_Decide_request, of "exampleRule ''b'' ''team-x''"]
    by (simp add: exampleRule_def)
qed

end
