(* ===== verification/GrantPolicy.thy ===== *)
theory GrantPolicy
  imports PolicyDecide GrantOperations
begin

text \<open>
  The grant store and the policy engine together: the grants that \<^verbatim>\<open>ActivePolicyGrants\<close> hands to
  \<^verbatim>\<open>Policy.Decide\<close> are exactly the usable ones, and a decision that rests on a grant can reserve a use of it.
\<close>

section \<open>A refresh that reports no change made none\<close>

lemma reconcileLoop_unchanged:
  "reconcileLoop opts ck before gs d = (hs, d', False) \<Longrightarrow> hs = gs \<and> d' = d"
proof (induction gs arbitrary: hs d')
  case (Cons g gs)
  then show ?case by (auto simp: Let_def split: prod.splits if_splits)
qed simp

lemma refreshed_unchanged:
  assumes "\<not> snd (refreshed opts ck (expireDue now) d)"
  shows "fst (refreshed opts ck (expireDue now) d) = d"
proof -
  have e: "fst (expireDue now d) = d" using assms by (intro expireDue_unchanged) (simp add: refreshed_def case_prod_beta Let_def)
  obtain hs d' c where loop: "reconcileLoop opts ck (grantSnapshots (fd_Grants d)) (fd_Grants d) d = (hs, d', c)"
    by (cases "reconcileLoop opts ck (grantSnapshots (fd_Grants d)) (fd_Grants d) d") auto
  then have "\<not> c" using assms by (simp add: refreshed_def case_prod_beta e reconcileLifecycle_def)
  then have "hs = fd_Grants d" "d' = d" using reconcileLoop_unchanged loop by auto
  then show ?thesis by (simp add: refreshed_def case_prod_beta e reconcileLifecycle_def loop Let_def)
qed

lemma ActivePolicyGrants_answer:
  assumes "storeInv opts t d" "ActivePolicyGrants opts ck saves d = (d', Inr active)"
  shows "active = map ActivePolicyGrant (filter (\<lambda>g. grantCanUse g (ck_mutate ck)) (fd_Grants d'))"
proof -
  let ?r = "refreshed opts ck (expireDue (ck_expire ck)) d"
  have "d' = fst ?r \<and> active = map ActivePolicyGrant (filter (\<lambda>g. grantCanUse g (ck_mutate ck)) (fd_Grants (fst ?r)))"
    using assms(2) refreshed_unchanged[of opts ck "ck_expire ck" d]
    by (auto simp: ActivePolicyGrants_def storeInv_load[OF assms(1)] Let_def case_prod_beta split: if_splits)
  then show ?thesis by simp
qed

lemma findGrant_member:
  "distinct (map g_ID gs) \<Longrightarrow> g \<in> set gs \<Longrightarrow> \<exists>k. findGrant gs (g_ID g) = Inr (k, g)"
proof -
  assume d: "distinct (map g_ID gs)" and g: "g \<in> set gs"
  obtain k h where h: "findGrant gs (g_ID g) = Inr (k, h)"
    using findGrant_Inl[of gs "g_ID g"] g by (cases "findGrant gs (g_ID g)") auto
  then have "h \<in> set gs" "g_ID h = g_ID g" using findGrant_Inr by auto
  then have "h = g" using d g by (simp add: distinct_map inj_on_def)
  then show ?thesis using h by blast
qed

lemma ActivePolicyGrant_fields [simp]:
  "pg_ID (ActivePolicyGrant g) = g_ID g" "pg_Client (ActivePolicyGrant g) = g_Client g"
  "pg_Operation (ActivePolicyGrant g) = g_Operation g" "pg_ExpiresAt (ActivePolicyGrant g) = g_ExpiresAt g"
  by (simp_all add: ActivePolicyGrant_def case_prod_beta Let_def)

section \<open>From a decision to a use\<close>

text \<open>
  C14. When the policy engine decides over the active grants of a reachable store and rests its decision on a grant, that grant
  is stored, active, unexpired, belongs to the requesting client and operation and has budget left; and reserving a use of it
  for a new req identity, at the time the grants were read, succeeds and acquires the use.
\<close>

theorem decided_grant_can_be_used:
  assumes "reachable opts t d" "validOptions opts" "clockIn t t' ck"
    and "ActivePolicyGrants opts ck saves d = (d', Inr active)"
    and "dec_MatchedGrantRuleIDs (Decide wall p req (dopts\<lparr>opt_ActiveGrants := active\<rparr>)) \<noteq> []"
    and "findUseIndex (fd_Uses d') requestID = None"
  shows "\<exists>g\<in>set (fd_Grants d'). g_ID g = dec_GrantID (Decide wall p req (dopts\<lparr>opt_ActiveGrants := active\<rparr>))
    \<and> g_Status g = StatusActive \<and> ck_mutate ck < g_ExpiresAt g
    \<and> g_Client g = req_Client req \<and> g_Operation g = req_Operation req
    \<and> Allows (g_MaxUses g) (g_UsedCount g) (g_ReservedCount g)
    \<and> snd (reserveUse (ck_mutate ck) (g_ID g) requestID (req_Operation req) d') = Inr True"
proof -
  note inv = reachable_inv[OF assms(1,2)]
  have inv': "storeInv opts t' d'"
    using reader_moves(3)[OF inv assms(3), of saves] assms(4) by (simp add: storeMoves_def)
  let ?o = "dopts\<lparr>opt_ActiveGrants := active\<rparr>"
  obtain pg where pg: "pg \<in> set active" "dec_GrantID (Decide wall p req ?o) = pg_ID pg"
    "pg_Client pg = req_Client req" "pg_Operation pg = req_Operation req"
    using live_grant_decision[OF assms(5)] by auto
  then obtain g where g: "g \<in> set (fd_Grants d')" "grantCanUse g (ck_mutate ck)" "pg = ActivePolicyGrant g"
    using ActivePolicyGrants_answer[OF inv assms(4)] by auto
  obtain k where k: "findGrant (fd_Grants d') (g_ID g) = Inr (k, g)"
    using findGrant_member[of "fd_Grants d'" g] inv' g(1) by (auto simp: storeInv_def coreData_def)
  have "snd (reserveUse (ck_mutate ck) (g_ID g) requestID (req_Operation req) d') = Inr True"
    using assms(6) k g(2,3) pg(4) by (simp add: reserveUse_def reserveNewUse_def Let_def)
  then show ?thesis using g pg by (auto simp: grantCanUse_def)
qed

section \<open>The example, approved\<close>

definition exampleLive :: Grant where
  "exampleLive = examplePending\<lparr>g_Status := StatusActive, g_Revision := 2, g_ExpiresAt := 300000000020, g_DecidedAt := 20,
     g_DecidedBy := ''op''\<rparr>"

lemma exampleApproved_grants: "fd_Grants exampleApproved = [exampleLive]" "fd_Uses exampleApproved = []"
proof -
  obtain res where "ApplyOperatorDecision exampleStoreOptions (exampleClock 20) True (\<lambda>_. ''h'') None exampleApproval exampleRequested
    = (exampleApproved, res, None)" "\<not> odr_Replay res" by (rule exampleApproval_result)
  then obtain cmd data before changed index current where
    cmd: "normalizeOperatorDecision exampleApproval = Inr cmd"
    and prep: "prepareOperatorDecision exampleStoreOptions (exampleClock 20) exampleRequested = Inr (data, before, changed)"
    and found: "findGrant (fd_Grants data) (cmd_ID cmd) = Inr (index, current)"
    and commit: "commitOperatorDecision exampleStoreOptions (exampleClock 20) True None exampleRequested data before changed index current cmd
       (decisionScope cmd) ''h'' = (exampleApproved, res, None)"
    by (rule ApplyOperatorDecision_success) blast
  have args: "cmd = exampleApproval" "data = exampleRequested" "before = [(''g1'', examplePending)]" "\<not> changed"
    using cmd prep by (simp_all add: exampleApproval_normal exampleApproval_prepared)
  have cur: "index = 0" "current = examplePending"
    using found by (auto simp: args exampleRequested_literal findGrant_def exampleApproval_def examplePending_def)
  let ?updated = "examplePending\<lparr>g_Status := StatusActive, g_ExpiresAt := 300000000020, g_DecidedAt := 20, g_DecidedBy := ''op''\<rparr>"
  let ?d1 = "exampleRequested\<lparr>fd_Grants := [?updated]\<rparr>"
  have inv: "storeInv exampleStoreOptions 11 exampleRequested"
    by (rule reachable_inv[OF exampleRequested_reachable exampleStoreOptions_valid])
  have ck: "clockIn 11 20 (exampleClock 20)" by simp
  have mut: "applyDecisionMutation current cmd None (ck_mutate (exampleClock 20)) = (?updated, None)"
    by (simp add: args cur exampleApproval_mutation exampleClock_def)
  have d1: "data\<lparr>fd_Grants := (fd_Grants data)[index := ?updated]\<rparr> = ?d1" by (simp add: args cur exampleRequested_literal)
  have core: "coreData exampleStoreOptions 11 ?d1"
    using decision_core[OF inv ck cmd prep found mut] by (simp only: d1)
  let ?r = "fst (reconcileLifecycle exampleStoreOptions (exampleClock 20) ?d1 [(''g1'', examplePending)])"
  let ?c = "commitOperatorDecision exampleStoreOptions (exampleClock 20) True None exampleRequested data before changed index current cmd
       (decisionScope cmd) ''h''"
  have "fd_Grants (fst ?c) = fd_Grants ?r \<and> fd_Uses (fst ?c) = fd_Uses ?r"
    unfolding commitOperatorDecision_def mut using args d1 by (simp add: reconcileOperatorMutation_def Let_def)
  then have eq: "fd_Grants exampleApproved = fd_Grants ?r \<and> fd_Uses exampleApproved = fd_Uses ?r"
    unfolding commit by simp
  have "bump [(''g1'', examplePending)] ?updated = exampleLive" by code_simp
  then have "fd_Grants ?r = [exampleLive]"
    using reconcileLifecycle_core(2)[OF core, of "exampleClock 20" "[(''g1'', examplePending)]"] by simp
  moreover have "fd_Uses ?r = []"
    using reconcileLifecycle_core(4)[OF core, of "exampleClock 20" "[(''g1'', examplePending)]"]
    by (simp add: exampleRequested_literal)
  ultimately show "fd_Grants exampleApproved = [exampleLive]" "fd_Uses exampleApproved = []" using eq by simp_all
qed

lemma exampleApproved_active:
  "ActivePolicyGrants exampleStoreOptions (exampleClock 25) True exampleApproved = (exampleApproved, Inr [ActivePolicyGrant exampleLive])"
proof -
  have load: "load exampleApproved = Inr exampleApproved"
    using storeInv_load[OF reachable_inv[OF exampleApproved_reachable exampleStoreOptions_valid]] .
  have due: "expireGrant 25 exampleLive = None" "lifecycleKinds (Some exampleLive) exampleLive = []"
    "grantCanUse exampleLive 25" "grantSnapshots [exampleLive] = [(''g1'', exampleLive)]" "g_ID exampleLive = ''g1''"
    by code_simp+
  have "expireDue 25 exampleApproved = (exampleApproved, False)"
    by (simp add: expireDue_def exampleApproved_grants due(1))
  then have "refreshed exampleStoreOptions (exampleClock 25) (expireDue 25) exampleApproved = (exampleApproved, False)"
    by (simp add: refreshed_def reconcileLifecycle_def exampleApproved_grants due Let_def)
  then show ?thesis
    by (simp add: ActivePolicyGrants_def load exampleClock_def[of 25] exampleApproved_grants due(3))
qed

lemma exampleLive_decision:
  "dec_MatchedGrantRuleIDs (Decide 0 examplePolicy
     (exampleRequest\<lparr>req_Target := \<lparr>target_Kind = ''repo'', target_Fields = [(''name'', [''unyolo''])]\<rparr>\<rparr>)
     ((exampleOptions [])\<lparr>opt_ActiveGrants := [ActivePolicyGrant exampleLive]\<rparr>)) = [''g1'']"
  by code_simp

theorem decided_grant_can_be_used_witness:
  "\<exists>g\<in>set (fd_Grants exampleApproved). g_Status g = StatusActive
     \<and> snd (reserveUse 25 (g_ID g) ''u9'' ''repo.push'' exampleApproved) = Inr True"
proof -
  let ?req = "exampleRequest\<lparr>req_Target := \<lparr>target_Kind = ''repo'', target_Fields = [(''name'', [''unyolo''])]\<rparr>\<rparr>"
  have dec: "dec_MatchedGrantRuleIDs (Decide 0 examplePolicy ?req ((exampleOptions [])\<lparr>opt_ActiveGrants := [ActivePolicyGrant exampleLive]\<rparr>)) \<noteq> []"
    by (simp add: exampleLive_decision)
  have fresh: "findUseIndex (fd_Uses exampleApproved) ''u9'' = None" and ck: "clockIn 20 25 (exampleClock 25)"
    by (simp_all add: exampleApproved_grants)
  have now: "ck_mutate (exampleClock 25) = 25" "req_Operation ?req = ''repo.push''"
    by (simp_all add: exampleClock_def exampleRequest_def)
  show ?thesis
    using decided_grant_can_be_used[OF exampleApproved_reachable exampleStoreOptions_valid ck exampleApproved_active dec fresh]
    unfolding now by blast
qed

end
