(* ===== verification/Coordinator.thy ===== *)
theory Coordinator
  imports GrantPolicy
begin

text \<open>
  \<^verbatim>\<open>authorization/coordinator.go\<close>: the coordinator asks the policy engine, and where the policy offers approval it files
  a bounded request in the grant store.

  \<^item> A provider's \<^verbatim>\<open>IntentBuilder\<close> is an argument: none for nil, otherwise a function that may fail.
  \<^item> The decision function and the projection of active grants are fields of the coordinator, as in the code.
  \<^item> What the surroundings supply to one call (readings of the clock, whether saves succeed, a random identifier) is a
    record \<open>authCall\<close>.
  \<^item> \<^verbatim>\<open>reflect.DeepEqual\<close> of two requests compares the entries of their maps; it tells a nil map or slice from an empty one,
    the model does not.
\<close>

section \<open>Data\<close>

datatype boundsError = NoBounds | ModeMismatch | DurationBound | PendingBound | UseCountBound | ExecutionUses

datatype authError =
    RegistryRejected policyError | DependenciesRequired
  | InvalidAuthRequest policyError | LoadActiveGrants grantError | LoadActiveGrantMode grantError
  | ErrDenied | ErrNoMatch
  | ErrInvalidGrantIntent | IntentBuildFailed string | IntentOutOfBounds boundsError | ErrApprovalUnsupported
  | CreateApproval grantError

type_synonym DecideFunc = "Request \<Rightarrow> DecisionOptions \<Rightarrow> Decision"
type_synonym ActiveGrantsFunc = "Request \<Rightarrow> Clock \<Rightarrow> bool \<Rightarrow> fileData \<Rightarrow> fileData \<times> (grantError + PolicyGrant list)"

record Coordinator =
  co_registry :: Registry
  co_decide :: DecideFunc
  co_grants :: Options
  co_activeGrants :: ActiveGrantsFunc

record CoordinatorOptions =
  cop_Registry :: Registry
  cop_Decide :: "DecideFunc option"
  cop_Grants :: "Options option"
  cop_ActiveGrants :: "ActiveGrantsFunc option"

record GrantIntent =
  in_Mode :: GrantMode
  in_Authorization :: Request
  in_Request :: GrantRequest
  in_Plan :: ImmutablePlan

type_synonym IntentBuilder = "(Decision \<Rightarrow> string + GrantIntent) option"

record AuthResult =
  ar_Decision :: Decision
  ar_Request :: "Grant option"
  ar_Created :: bool

record authCall =
  au_read :: Clock
  au_readSaves :: bool
  au_now :: gotime
  au_request :: Clock
  au_requestGet :: Clock
  au_saves :: bool
  au_savesGet :: bool
  au_sqlite :: bool
  au_newID :: "string option"

definition Coordinator_New :: "CoordinatorOptions \<Rightarrow> authError + Coordinator" where
  "Coordinator_New options =
     guardR (map_option RegistryRejected (Registry_validate (cop_Registry options)))
      (case (cop_Decide options, cop_Grants options) of
         (Some dec, Some store) \<Rightarrow>
           Inr \<lparr>co_registry = cop_Registry options, co_decide = dec, co_grants = store,
                co_activeGrants = (case cop_ActiveGrants options of
                                     Some f \<Rightarrow> f | None \<Rightarrow> (\<lambda>_ ck saves. ActivePolicyGrants store ck saves))\<rparr>
       | _ \<Rightarrow> Inl DependenciesRequired)"

section \<open>Validating an intent\<close>

definition validateTimedBound :: "boundsError \<Rightarrow> duration \<Rightarrow> int \<Rightarrow> boundsError option" where
  "validateTimedBound name value maxMinutes = failIf (value \<le> 0 \<or> value > wrap64 (maxMinutes * minute)) name"

definition validateUseCount :: "GrantMode \<Rightarrow> Limit \<Rightarrow> Limit \<Rightarrow> boundsError option" where
  "validateUseCount mode uses maximum =
     (if uses < 0 \<or> (IsFinite maximum \<and> (IsUnlimited uses \<or> uses > maximum)) then Some UseCountBound
      else if mode = GrantModeExecution \<and> uses \<noteq> 1 then Some ExecutionUses
      else None)"

definition validateGrantBounds :: "GrantIntent \<Rightarrow> GrantPolicy option \<Rightarrow> boundsError option" where
  "validateGrantBounds intent bounds0 =
     (case bounds0 of
        None \<Rightarrow> Some NoBounds
      | Some gp \<Rightarrow>
          if gp_Mode gp \<noteq> in_Mode intent then Some ModeMismatch
          else orElse (validateTimedBound DurationBound (rq_Duration (in_Request intent)) (gp_MaxMinutes gp))
                (orElse (validateTimedBound PendingBound (rq_PendingTimeout (in_Request intent)) (gp_RequestTTLMinutes gp))
                  (validateUseCount (in_Mode intent) (rq_MaxUses (in_Request intent)) (gp_MaxUses gp))))"

definition validateIntent :: "Coordinator \<Rightarrow> Request \<Rightarrow> Decision \<Rightarrow> GrantIntent \<Rightarrow> authError option" where
  "validateIntent c req dec intent =
     (if \<not> sameRequest req (in_Authorization intent) then Some ErrInvalidGrantIntent
      else (case Registry_Operation (co_registry c) (req_Operation req) of
              None \<Rightarrow> Some ErrApprovalUnsupported
            | Some spec \<Rightarrow>
                if \<not> AllowsGrantMode spec (in_Mode intent) then Some ErrApprovalUnsupported
                else map_option IntentOutOfBounds (validateGrantBounds intent (dec_GrantPolicy dec))))"

definition buildIntent :: "IntentBuilder \<Rightarrow> Decision \<Rightarrow> authError + GrantIntent" where
  "buildIntent build dec =
     (case build of
        None \<Rightarrow> Inl ErrInvalidGrantIntent
      | Some f \<Rightarrow> (case f dec of Inl e \<Rightarrow> Inl (IntentBuildFailed e) | Inr intent \<Rightarrow> Inr intent))"

section \<open>Deciding and requesting\<close>

text \<open>A \<^verbatim>\<open>Result\<close> and an error that may accompany it.\<close>

definition resultOf :: "Decision \<Rightarrow> AuthResult" where
  "resultOf dec = \<lparr>ar_Decision = dec, ar_Request = None, ar_Created = False\<rparr>"

definition zeroDecision :: Decision where
  "zeroDecision = decision (EffectOther []) False (Reason []) CredentialUseUnset"

definition refusedResult :: "Decision \<Rightarrow> AuthResult \<times> authError option" where
  "refusedResult dec =
     (if dec_Effect dec = EffectNoMatch then (resultOf dec, Some ErrNoMatch) else (resultOf dec, Some ErrDenied))"

definition createApprovalRequest ::
  "Coordinator \<Rightarrow> authCall \<Rightarrow> Request \<Rightarrow> Decision \<Rightarrow> IntentBuilder \<Rightarrow> fileData \<Rightarrow> fileData \<times> AuthResult \<times> authError option" where
  "createApprovalRequest c call req dec build stored =
     (case buildIntent build dec of
        Inl e \<Rightarrow> (stored, resultOf dec, Some e)
      | Inr intent \<Rightarrow>
          (case validateIntent c req dec intent of
             Some e \<Rightarrow> (stored, resultOf dec, Some e)
           | None \<Rightarrow>
               (case RequestWithPlan (co_grants c) (au_request call) (au_requestGet call) (au_saves call) (au_savesGet call)
                       (au_sqlite call) (au_newID call) (in_Request intent) (in_Plan intent) stored of
                  (stored1, Inl e) \<Rightarrow> (stored1, resultOf dec, Some (CreateApproval e))
                | (stored1, Inr (grant, wasCreated)) \<Rightarrow>
                    (stored1, \<lparr>ar_Decision = dec, ar_Request = Some grant, ar_Created = wasCreated\<rparr>, None))))"

definition askOptions :: "gotime \<Rightarrow> PolicyGrant list \<Rightarrow> DecisionOptions" where
  "askOptions now active =
     \<lparr>opt_ForGrantRequest = False, opt_Now = now, opt_ActiveGrants = active, opt_CredentialUse = CredentialUseUnset\<rparr>"

definition grantRequestOptions :: "gotime \<Rightarrow> DecisionOptions" where
  "grantRequestOptions now =
     \<lparr>opt_ForGrantRequest = True, opt_Now = now, opt_ActiveGrants = [], opt_CredentialUse = CredentialUseUnset\<rparr>"

definition Authorize ::
  "Coordinator \<Rightarrow> authCall \<Rightarrow> Request \<Rightarrow> IntentBuilder \<Rightarrow> fileData \<Rightarrow> fileData \<times> AuthResult \<times> authError option" where
  "Authorize c call req build stored =
     (case validateRequest (co_registry c) req of
        Some e \<Rightarrow> (stored, resultOf (decision EffectNoMatch False (Invalid e) CredentialUseUnset), Some (InvalidAuthRequest e))
      | None \<Rightarrow>
          (case co_activeGrants c req (au_read call) (au_readSaves call) stored of
             (stored1, Inl e) \<Rightarrow> (stored1, resultOf zeroDecision, Some (LoadActiveGrants e))
           | (stored1, Inr active) \<Rightarrow>
               (let dec = co_decide c req (askOptions (au_now call) active)
                in if dec_Allowed dec \<and> dec_Effect dec = EffectAllow then (stored1, resultOf dec, None)
                   else (let requestDecision = co_decide c req (grantRequestOptions (au_now call))
                         in if dec_Effect requestDecision \<noteq> EffectRequest
                            then (case refusedResult dec of (r, e) \<Rightarrow> (stored1, r, e))
                            else createApprovalRequest c call req requestDecision build stored1))))"

definition RequestApproval ::
  "Coordinator \<Rightarrow> authCall \<Rightarrow> Request \<Rightarrow> IntentBuilder \<Rightarrow> fileData \<Rightarrow> fileData \<times> AuthResult \<times> authError option" where
  "RequestApproval c call req build stored =
     (case validateRequest (co_registry c) req of
        Some e \<Rightarrow> (stored, resultOf (decision EffectNoMatch False (Invalid e) CredentialUseUnset), Some (InvalidAuthRequest e))
      | None \<Rightarrow>
          (let dec = co_decide c req (grantRequestOptions (au_now call))
           in if dec_Effect dec \<noteq> EffectRequest then (case refusedResult dec of (r, e) \<Rightarrow> (stored, r, e))
              else createApprovalRequest c call req dec build stored))"

definition ActiveGrant ::
  "Coordinator \<Rightarrow> authCall \<Rightarrow> Request \<Rightarrow> fileData \<Rightarrow> fileData \<times> (authError + Decision \<times> bool)" where
  "ActiveGrant c call req stored =
     (case validateRequest (co_registry c) req of
        Some e \<Rightarrow> (stored, Inl (InvalidAuthRequest e))
      | None \<Rightarrow>
          (case co_activeGrants c req (au_read call) (au_readSaves call) stored of
             (stored1, Inl e) \<Rightarrow> (stored1, Inl (LoadActiveGrants e))
           | (stored1, Inr active) \<Rightarrow>
               (let dec = co_decide c req (askOptions (au_now call) active)
                in (stored1, Inr (dec, dec_Allowed dec \<and> dec_GrantID dec \<noteq> [])))))"

text \<open>\<^verbatim>\<open>ActiveGrantMode\<close> reads each candidate once more; \<open>gets\<close> are the readings of the clock in those calls of \<^verbatim>\<open>Get\<close>.\<close>

definition modeText :: "GrantMode \<Rightarrow> string" where
  "modeText mode =
     (case mode of GrantModeUnset \<Rightarrow> [] | GrantModeWindow \<Rightarrow> ''window'' | GrantModeExecution \<Rightarrow> ''execution''
      | GrantModeOther s \<Rightarrow> s)"

fun modeLoop ::
  "Options \<Rightarrow> GrantMode \<Rightarrow> (nat \<Rightarrow> Clock \<times> bool) \<Rightarrow> nat \<Rightarrow> PolicyGrant list \<Rightarrow> fileData
   \<Rightarrow> fileData \<times> (grantError + PolicyGrant list)" where
  "modeLoop store mode gets k [] stored = (stored, Inr [])"
| "modeLoop store mode gets k (candidate # rest) stored =
     (case Get store (fst (gets k)) (snd (gets k)) (pg_ID candidate) stored of
        (stored1, Inl e) \<Rightarrow> (stored1, Inl e)
      | (stored1, Inr grant) \<Rightarrow>
          (case modeLoop store mode gets (k + 1) rest stored1 of
             (stored2, Inl e) \<Rightarrow> (stored2, Inl e)
           | (stored2, Inr filtered) \<Rightarrow>
               (stored2, Inr (if stringAt (g_Metadata grant) MetadataMode = modeText mode then candidate # filtered else filtered))))"

definition ActiveGrantMode ::
  "Coordinator \<Rightarrow> authCall \<Rightarrow> (nat \<Rightarrow> Clock \<times> bool) \<Rightarrow> Request \<Rightarrow> GrantMode \<Rightarrow> fileData
   \<Rightarrow> fileData \<times> (authError + Decision \<times> bool)" where
  "ActiveGrantMode c call gets req mode stored =
     (case validateRequest (co_registry c) req of
        Some e \<Rightarrow> (stored, Inl (InvalidAuthRequest e))
      | None \<Rightarrow>
          (case co_activeGrants c req (au_read call) (au_readSaves call) stored of
             (stored1, Inl e) \<Rightarrow> (stored1, Inl (LoadActiveGrants e))
           | (stored1, Inr active) \<Rightarrow>
               (case modeLoop (co_grants c) mode gets 0 active stored1 of
                  (stored2, Inl e) \<Rightarrow> (stored2, Inl (LoadActiveGrantMode e))
                | (stored2, Inr filtered) \<Rightarrow>
                    (let dec = co_decide c req (askOptions (au_now call) filtered)
                     in (stored2, Inr (dec, dec_Allowed dec \<and> dec_GrantID dec \<noteq> []))))))"

section \<open>What the store answers to a request\<close>

definition terms :: "Grant \<Rightarrow> string \<times> string \<times> string \<times> duration \<times> duration \<times> Limit" where
  "terms g = (g_ID g, g_Client g, g_Operation g, g_Duration g, g_PendingTimeout g, g_MaxUses g)"

lemma terms_bump [simp]: "terms (bump before g) = terms g"
  by (simp add: bump_def terms_def)

lemma terms_expired [simp]: "terms (expired now g) = terms g"
  by (auto simp: expired_def expireGrant_def terms_def)

lemma refreshed_grants:
  assumes "coreData opts t d"
  shows "map terms (fd_Grants (fst (refreshed opts ck (expireDue now) d))) = map terms (fd_Grants d)"
  using reconcileLifecycle_core(2)[OF expireDue_core(1)[OF assms]]
  by (simp add: refreshed_def case_prod_beta Let_def) (simp add: expireDue_fields comp_def)

lemma Get_answer:
  assumes "storeInv opts t d" and "Get opts ck saves i d = (d', Inr g)"
  shows "g \<in> set (fd_Grants d')" and "g_ID g = i" and "terms g \<in> terms ` set (fd_Grants d)"
proof -
  let ?r = "refreshed opts ck (expireDue (ck_expire ck)) d"
  have core: "coreData opts t d"
    using assms(1) by (simp add: storeInv_def)
  obtain k where k: "findGrant (fd_Grants (fst ?r)) i = Inr (k, g)" and d': "d' = fst ?r"
    using assms(2) refreshed_unchanged[of opts ck "ck_expire ck" d]
    by (auto simp: Get_def storeInv_load[OF assms(1)] Let_def case_prod_beta split: sum.splits if_splits)
  show "g \<in> set (fd_Grants d')" "g_ID g = i"
    using findGrant_Inr[OF k] d' by simp_all
  then have "terms g \<in> set (map terms (fd_Grants (fst ?r)))"
    using d' by simp
  then show "terms g \<in> terms ` set (fd_Grants d)"
    unfolding refreshed_grants[OF core] by simp
qed

definition termsOf :: "string \<Rightarrow> GrantRequest \<Rightarrow> string \<times> string \<times> string \<times> duration \<times> duration \<times> Limit" where
  "termsOf i req = (i, rq_Client req, rq_Operation req, rq_Duration req, rq_PendingTimeout req, rq_MaxUses req)"

lemma requestMutation_answer:
  assumes "requestMutation opts ck newID req data = (data', Inr (g, created))"
  shows "g \<in> set (fd_Grants data') \<and> terms g = termsOf (g_ID g) req"
proof (cases "findIdempotent (fd_Grants (fst (expireDue (ck_again ck) data))) req")
  case None
  then show ?thesis
    using assms
    by (auto simp: requestMutation_def Let_def case_prod_beta terms_def termsOf_def newGrant_def split: if_splits option.splits)
next
  case (Some existing)
  then have "g = existing" "sameGrantRequest g req" "data' = fst (expireDue (ck_again ck) data)"
    using assms by (auto simp: requestMutation_def Let_def case_prod_beta split: if_splits)
  moreover have "existing \<in> set (fd_Grants (fst (expireDue (ck_again ck) data)))" "g_Client existing = rq_Client req"
    using Some by (auto simp: findIdempotent_def find_Some_iff split: if_splits)
  ultimately show ?thesis
    by (auto simp: terms_def termsOf_def sameGrantRequest_def sameRequestBounds_def)
qed

lemma update_request_answer:
  assumes "storeInv opts t d" and "clockIn t t' ck" and "normalized req" and "freshID newID (map g_ID (fd_Grants d))"
    and "updateWithPlan opts ck saves (requestMutation opts ck newID req) d = (d1, Inr (g, created))"
  shows "terms g = termsOf (g_ID g) req" and "terms g \<in> terms ` set (fd_Grants d1)"
proof -
  let ?d1 = "fst (prepareLifecycle opts ck d)"
  let ?d2 = "fst (requestMutation opts ck newID req ?d1)"
  have core: "coreData opts t d"
    using assms(1) by (simp add: storeInv_def)
  have ids: "map g_ID (fd_Grants ?d1) = map g_ID (fd_Grants d)"
    using follows_ids(1)[OF prepareLifecycle_core(2)[OF core assms(2)]] .
  have "mutated opts t' ?d1 ?d2"
    using requesting.mutate_keeps[OF prepareLifecycle_core(1)[OF core assms(2)] assms(2), of "(newID, req)"] assms(3,4) ids
    by simp
  then have core2: "coreData opts t' ?d2"
    by (simp add: mutated_def)
  have res: "requestMutation opts ck newID req ?d1 = (?d2, Inr (g, created))"
    and d1: "d1 = fst (reconcileLifecycle opts ck ?d2 (grantSnapshots (fd_Grants d)))"
    using assms(5) unfolding updateWithPlan_def storeInv_load[OF assms(1)]
    by (auto simp: Let_def case_prod_beta prod_eq_iff split: sum.splits if_splits)
  show "terms g = termsOf (g_ID g) req"
    using requestMutation_answer[OF res] by simp
  have "terms g \<in> terms ` set (fd_Grants ?d2)"
    using requestMutation_answer[OF res] by blast
  then show "terms g \<in> terms ` set (fd_Grants d1)"
    unfolding d1 reconcileLifecycle_core(2)[OF core2] by (simp add: image_image)
qed

lemma storeInv_ids: "storeInv opts t d \<Longrightarrow> g \<in> set (fd_Grants d) \<Longrightarrow> h \<in> set (fd_Grants d) \<Longrightarrow> g_ID g = g_ID h \<Longrightarrow> g = h"
  by (auto simp: storeInv_def coreData_def distinct_map inj_on_def)

lemma request_answer:
  assumes "storeInv opts t d" and "clockIn t t1 ck" and "freshID newID (map g_ID (fd_Grants d))"
    and "request opts ck ckGet saves savesGet newID req0 d = (d', Inr (g, created))"
  obtains req where "normalizeGrantRequest opts req0 = Inr req" "g \<in> set (fd_Grants d')" "terms g = termsOf (g_ID g) req"
proof -
  obtain req where req: "normalizeGrantRequest opts req0 = Inr req"
    using assms(4) by (auto simp: request_def split: sum.splits)
  have norm: "normalized req"
    using normalizeGrantRequest_Inr[OF req] assms(1) by (simp add: storeInv_def coreData_def)
  obtain d1 g1 c1 where upd: "updateWithPlan opts ck saves (requestMutation opts ck newID req) d = (d1, Inr (g1, c1))"
    using assms(4) by (auto simp: request_def req split: sum.splits prod.splits)
  have inv1: "storeInv opts t1 d1"
    using requesting.update_keeps[OF assms(1,2), of "(newID, req)" saves] norm assms(3) upd by (simp add: storeMoves_def)
  note ans = update_request_answer[OF assms(1,2) norm assms(3) upd]
  then obtain h where h: "h \<in> set (fd_Grants d1)" "terms g1 = terms h"
    by auto
  then have "g_ID g1 = g_ID h" by (simp add: terms_def)
  have "g_ID h \<noteq> []"
    using inv1 h(1) by (auto simp: storeInv_def coreData_def coreGrant_def grantShape_def validGrantIdentity_def)
  then have got: "Get opts ckGet savesGet (g_ID g1) d1 = (d', Inr g)"
    using assms(4) \<open>g_ID g1 = g_ID h\<close> by (auto simp: request_def req upd split: prod.splits sum.splits)
  obtain h' where h': "h' \<in> set (fd_Grants d1)" "terms g = terms h'"
    using Get_answer(3)[OF inv1 got] by auto
  have "g_ID h' = g_ID h"
    using Get_answer(2)[OF inv1 got] h'(2) \<open>g_ID g1 = g_ID h\<close> by (simp add: terms_def)
  then have "terms g = terms g1"
    using storeInv_ids[OF inv1 h'(1) h(1)] h(2) h'(2) by simp
  then show thesis
    using that[OF req Get_answer(1)[OF inv1 got]] ans(1) by (simp add: terms_def)
qed

lemma normalized_terms:
  assumes "normalizeGrantRequest opts req0 = Inr req" and "0 < rq_Duration req0" and "0 < rq_PendingTimeout req0"
  shows "rq_Duration req = rq_Duration req0" and "rq_PendingTimeout req = rq_PendingTimeout req0"
    and "rq_MaxUses req = rq_MaxUses req0 \<or> (IsUnlimited (rq_MaxUses req0) \<and> rq_MaxUses req = SingleUse)"
  using assms
  by (auto simp: normalizeGrantRequest_def normalizeRequestValues_def normalizeRequestBounds_def normalizeRequestUseLimit_def
      defaultMaxUses_def Let_def split: if_splits)

section \<open>The course of a call\<close>

text \<open>How a call can go.\<close>

lemma Authorize_cases:
  assumes "Authorize c call req build d = (d', res, err)"
  obtains (invalid) e where "d' = d" "ar_Request res = None" "err = Some e"
  | (unreadable) e where "co_activeGrants c req (au_read call) (au_readSaves call) d = (d', Inl e)" "ar_Request res = None"
      "err = Some (LoadActiveGrants e)"
  | (allowed) active where "co_activeGrants c req (au_read call) (au_readSaves call) d = (d', Inr active)"
      "res = resultOf (co_decide c req (askOptions (au_now call) active))" "err = None"
      "dec_Allowed (ar_Decision res)" "dec_Effect (ar_Decision res) = EffectAllow"
  | (refused) active e where "co_activeGrants c req (au_read call) (au_readSaves call) d = (d', Inr active)"
      "dec_Effect (co_decide c req (grantRequestOptions (au_now call))) \<noteq> EffectRequest" "ar_Request res = None" "err = Some e"
  | (asked) d1 active where "co_activeGrants c req (au_read call) (au_readSaves call) d = (d1, Inr active)"
      "dec_Effect (co_decide c req (grantRequestOptions (au_now call))) = EffectRequest"
      "createApprovalRequest c call req (co_decide c req (grantRequestOptions (au_now call))) build d1 = (d', res, err)"
proof (cases "validateRequest (co_registry c) req")
  case (Some e)
  then show thesis
    using assms by (intro invalid) (auto simp: Authorize_def resultOf_def)
next
  case valid: None
  obtain d1 answer where answer: "co_activeGrants c req (au_read call) (au_readSaves call) d = (d1, answer)"
    by fastforce
  show thesis
  proof (cases answer)
    case (Inl e)
    then show thesis
      using assms answer valid by (intro unreadable[of e]) (auto simp: Authorize_def resultOf_def)
  next
    case (Inr active)
    let ?dec = "co_decide c req (askOptions (au_now call) active)"
    let ?ask = "co_decide c req (grantRequestOptions (au_now call))"
    consider "dec_Allowed ?dec \<and> dec_Effect ?dec = EffectAllow"
      | "\<not> (dec_Allowed ?dec \<and> dec_Effect ?dec = EffectAllow)" "dec_Effect ?ask \<noteq> EffectRequest"
      | "\<not> (dec_Allowed ?dec \<and> dec_Effect ?dec = EffectAllow)" "dec_Effect ?ask = EffectRequest"
      by blast
    then show thesis
    proof cases
      case 1
      then show thesis
        using assms answer valid Inr by (intro allowed[of active]) (auto simp: Authorize_def resultOf_def)
    next
      case 2
      then have "Authorize c call req build d = (d1, resultOf ?dec, Some (if dec_Effect ?dec = EffectNoMatch then ErrNoMatch else ErrDenied))"
        using answer valid Inr by (auto simp: Authorize_def refusedResult_def Let_def)
      then show thesis
        using assms answer Inr 2 by (intro refused[of active]) (auto simp: resultOf_def)
    next
      case 3
      then have "Authorize c call req build d = createApprovalRequest c call req ?ask build d1"
        using answer valid Inr by (auto simp: Authorize_def Let_def)
      then show thesis
        using assms answer Inr 3 by (intro asked[of d1 active]) simp_all
    qed
  qed
qed

lemma createApprovalRequest_cases:
  assumes "createApprovalRequest c call req dec build d = (d', res, err)"
  obtains (rejected) e where "d' = d" "ar_Request res = None" "err = Some e"
  | (failed) intent :: GrantIntent and e where "RequestWithPlan (co_grants c) (au_request call) (au_requestGet call) (au_saves call) (au_savesGet call)
        (au_sqlite call) (au_newID call) (in_Request intent) (in_Plan intent) d = (d', Inl e)" "ar_Request res = None"
      "err = Some (CreateApproval e)"
  | (created) intent :: GrantIntent and g made where "RequestWithPlan (co_grants c) (au_request call) (au_requestGet call) (au_saves call)
        (au_savesGet call) (au_sqlite call) (au_newID call) (in_Request intent) (in_Plan intent) d = (d', Inr (g, made))"
      "validateIntent c req dec intent = None" "res = \<lparr>ar_Decision = dec, ar_Request = Some g, ar_Created = made\<rparr>" "err = None"
proof (cases "\<exists>intent. buildIntent build dec = Inr intent \<and> validateIntent c req dec intent = None")
  case False
  show thesis
  proof (cases "buildIntent build dec")
    case (Inl e)
    then show thesis
      using assms by (intro rejected) (auto simp: createApprovalRequest_def resultOf_def)
  next
    case (Inr intent)
    with False obtain e where "validateIntent c req dec intent = Some e" by auto
    with Inr show thesis
      using assms by (intro rejected[of e]) (auto simp: createApprovalRequest_def resultOf_def)
  qed
next
  case True
  then obtain intent where ok: "buildIntent build dec = Inr intent" "validateIntent c req dec intent = None"
    by blast
  obtain d1 answer where answer: "RequestWithPlan (co_grants c) (au_request call) (au_requestGet call) (au_saves call)
      (au_savesGet call) (au_sqlite call) (au_newID call) (in_Request intent) (in_Plan intent) d = (d1, answer)"
    by fastforce
  show thesis
  proof (cases answer)
    case (Inl e)
    then show thesis
      using assms ok answer by (intro failed[of intent e]) (auto simp: createApprovalRequest_def resultOf_def)
  next
    case (Inr gm)
    then show thesis
      using assms ok answer by (intro created[of intent "fst gm" "snd gm"]) (auto simp: createApprovalRequest_def case_prod_beta)
  qed
qed

section \<open>The policy engine as the coordinator sees it\<close>

definition offerBounded :: "GrantPolicy \<Rightarrow> bool" where
  "offerBounded gp \<longleftrightarrow>
     1 \<le> gp_MaxMinutes gp \<and> gp_MaxMinutes gp \<le> absoluteMaxGrantMinutes
     \<and> 1 \<le> gp_RequestTTLMinutes gp \<and> gp_RequestTTLMinutes gp \<le> 60 \<and> 0 \<le> gp_MaxUses gp"

text \<open>What the approved terms of a grant must respect.\<close>

definition withinOffer :: "GrantPolicy \<Rightarrow> Grant \<Rightarrow> bool" where
  "withinOffer gp g \<longleftrightarrow>
     0 < g_Duration g \<and> g_Duration g \<le> gp_MaxMinutes gp * minute
     \<and> 0 < g_PendingTimeout g \<and> g_PendingTimeout g \<le> gp_RequestTTLMinutes gp * minute
     \<and> (IsFinite (gp_MaxUses gp) \<longrightarrow> IsFinite (g_MaxUses g) \<and> g_MaxUses g \<le> gp_MaxUses gp)
     \<and> (gp_Mode gp = GrantModeExecution \<longrightarrow> g_MaxUses g = 1)"

lemma timed_bound:
  assumes "validateTimedBound name value minutes = None" and "1 \<le> minutes" and "minutes \<le> absoluteMaxGrantMinutes"
  shows "0 < value \<and> value \<le> minutes * minute"
proof -
  have "wrap64 (minutes * minute) = minutes * minute"
    using assms(2,3) by (intro wrap64_id) (simp_all add: minute_def absoluteMaxGrantMinutes_def)
  then show ?thesis
    using assms(1) by (auto simp: validateTimedBound_def failIf_def split: if_splits)
qed

locale decision_engine =
  fixes accepted :: "'p \<Rightarrow> bool" and decide :: "'p \<Rightarrow> DecideFunc" and blocked :: "'p \<Rightarrow> Request \<Rightarrow> bool"
  assumes offer: "accepted p \<Longrightarrow> dec_Effect (decide p req opts) = EffectRequest \<Longrightarrow>
      \<exists>gp. dec_GrantPolicy (decide p req opts) = Some gp \<and> offerBounded gp"
    and blocked: "blocked p req \<Longrightarrow> opt_CredentialUse opts = CredentialUseUnset \<Longrightarrow>
      dec_Effect (decide p req opts) \<noteq> EffectAllow \<and> dec_Effect (decide p req opts) \<noteq> EffectRequest"
begin

lemma intent_within:
  assumes "accepted p" and "dec_Effect (decide p req opts) = EffectRequest"
    and "validateIntent c req (decide p req opts) intent = None"
    and "normalizeGrantRequest store (in_Request intent) = Inr nreq" and "terms g = termsOf i nreq"
  shows "\<exists>gp. dec_GrantPolicy (decide p req opts) = Some gp \<and> gp_Mode gp = in_Mode intent \<and> withinOffer gp g"
proof -
  obtain gp where gp: "dec_GrantPolicy (decide p req opts) = Some gp" "offerBounded gp"
    using offer[OF assms(1,2)] by auto
  have ok: "validateGrantBounds intent (Some gp) = None"
    using assms(3) gp(1) by (auto simp: validateIntent_def split: if_splits option.splits)
  then have mode: "gp_Mode gp = in_Mode intent"
    and time: "validateTimedBound DurationBound (rq_Duration (in_Request intent)) (gp_MaxMinutes gp) = None"
      "validateTimedBound PendingBound (rq_PendingTimeout (in_Request intent)) (gp_RequestTTLMinutes gp) = None"
    and uses: "validateUseCount (in_Mode intent) (rq_MaxUses (in_Request intent)) (gp_MaxUses gp) = None"
    by (auto simp: validateGrantBounds_def orElse_def split: if_splits option.splits)
  have duration: "0 < rq_Duration (in_Request intent) \<and> rq_Duration (in_Request intent) \<le> gp_MaxMinutes gp * minute"
    by (rule timed_bound[OF time(1)]) (use gp(2) in \<open>auto simp: offerBounded_def\<close>)
  have pending: "0 < rq_PendingTimeout (in_Request intent)
      \<and> rq_PendingTimeout (in_Request intent) \<le> gp_RequestTTLMinutes gp * minute"
    by (rule timed_bound[OF time(2)]) (use gp(2) in \<open>auto simp: offerBounded_def absoluteMaxGrantMinutes_def\<close>)
  note same = normalized_terms[OF assms(4) conjunct1[OF duration] conjunct1[OF pending]]
  have "withinOffer gp g"
    using assms(5) same duration pending uses mode gp(2)
    by (auto simp: withinOffer_def terms_def termsOf_def validateUseCount_def offerBounded_def limit_defs split: if_splits)
  then show ?thesis
    using gp(1) mode by blast
qed

lemma blocked_calls:
  assumes "blocked p req" and "co_decide c = decide p" and "Authorize c call req build d = (d', res, err)"
  shows "err \<noteq> None \<and> ar_Request res = None \<and> snd (snd (RequestApproval c call req build d)) \<noteq> None
    \<and> fst (RequestApproval c call req build d) = d"
proof -
  have asked: "dec_Effect (decide p req (grantRequestOptions now)) \<noteq> EffectRequest" for now
    using blocked[OF assms(1), of "grantRequestOptions now"] by (simp add: grantRequestOptions_def)
  have ask: "dec_Effect (decide p req (askOptions now active)) \<noteq> EffectAllow" for now active
    using blocked[OF assms(1), of "askOptions now active"] by (simp add: askOptions_def)
  have "snd (snd (RequestApproval c call req build d)) \<noteq> None \<and> fst (RequestApproval c call req build d) = d"
    using asked by (auto simp: RequestApproval_def assms(2) refusedResult_def Let_def split: option.splits)
  moreover from assms(3) have "err \<noteq> None \<and> ar_Request res = None"
    by (cases rule: Authorize_cases) (use asked ask assms(2) in \<open>auto simp: resultOf_def\<close>)
  ultimately show ?thesis
    by simp
qed

end

lemma Parse_rule_bounded:
  assumes "rulesLoop i seen r raws = Inr rules" and "rule \<in> set rules" and "rule_GrantPolicy rule = Some gp"
  shows "offerBounded gp"
  using assms
proof (induction i seen r raws arbitrary: rules rule: rulesLoop.induct)
  case (2 i seen r raw raws)
  then obtain first rest where parts: "normalizeRule raw r = Inr first" "rule_ID first \<notin> set seen" "rules = first # rest"
    "rulesLoop (i + 1) (rule_ID first # seen) r raws = Inr rest"
    by (auto split: sum.splits if_splits)
  show ?case
  proof (cases "rule = first")
    case True
    then obtain ops where "normalizeGrantPolicy (raw_Effect raw) (raw_GrantPolicy raw) ops r = Inr (Some gp)"
      using parts(1) "2.prems"(3) by (auto simp: normalizeRule_def normalizeRuleBody_def)
    from normalizeGrantPolicy_bounds[OF this] show ?thesis
      by (auto simp: offerBounded_def limit_defs)
  next
    case False
    then show ?thesis
      using "2.IH"[OF parts(1,2,4)] "2.prems"(2,3) parts(3) by auto
  qed
qed simp

text \<open>A policy that \<^verbatim>\<open>Parse\<close> returned, with the reading of the wall clock that \<^verbatim>\<open>Decide\<close> falls back on.\<close>

definition parsedPolicy :: "gotime \<times> Policy \<Rightarrow> bool" where
  "parsedPolicy wp \<longleftrightarrow> (\<exists>decode data r. Parse decode data r = Inr (snd wp))"

lemma Parse_rules:
  assumes "Parse decode data r = Inr p"
  obtains raws rules where "normalizeRules raws r = Inr rules" "p = \<lparr>pol_registry = cloneRegistry r, pol_rules = rules\<rparr>"
  using assms by (auto simp: Parse_def split: sum.split_asm option.split_asm)

interpretation policy_engine: decision_engine parsedPolicy "\<lambda>(wall, p). Decide wall p"
  "\<lambda>(_, p) req. ruleApplies p req CredentialUseUnset EffectDeny"
proof (unfold_locales, goal_cases)
  case (1 wp req opts)
  obtain wall p where wp: "wp = (wall, p)" by fastforce
  then obtain raws rules r where rules: "normalizeRules raws r = Inr rules"
    and p: "p = \<lparr>pol_registry = cloneRegistry r, pol_rules = rules\<rparr>"
    using 1(1) by (auto simp: parsedPolicy_def elim!: Parse_rules)
  let ?p = "\<lparr>pol_registry = r, pol_rules = rules\<rparr>"
  note checked = normalizeRules_checked[OF rules]
  have D: "Decide wall p req opts = Decide wall ?p req opts" by (simp add: p clone_Decide)
  obtain first where first: "first \<in> set rules" "rule_Effect first = EffectRequest"
    "dec_GrantPolicy (Decide wall ?p req opts) = rule_GrantPolicy first"
    using requestable_grant_policy[OF refl checked(2,1), of wall req opts] 1(2) D wp by auto
  then obtain gp where "rule_GrantPolicy first = Some gp"
    using list_all_in[OF checked(1), of first] unfolding checkedRule_def by auto
  moreover from this have "offerBounded gp"
    using Parse_rule_bounded[of 0 "[]" r raws rules first gp] rules first(1) by (auto simp: normalizeRules_def)
  ultimately show ?case
    using D first(3) wp by simp
next
  case (2 wp req opts)
  obtain wall p where wp: "wp = (wall, p)" by fastforce
  have "decisionSpec wall p req opts \<in> {NotEvaluated, PolicyDenied}"
    using 2 wp by (simp add: decisionSpec_def Let_def)
  then show ?case
    using Decide_effect[of wall p req opts] Decide_outcome[of wall p req opts] wp by (auto simp: outcomeEffect_def)
qed

section \<open>A coordinator over a parsed policy and the grant store\<close>

definition coordinatorOptions :: "Registry \<Rightarrow> gotime \<Rightarrow> Policy \<Rightarrow> Options \<Rightarrow> CoordinatorOptions" where
  "coordinatorOptions r wall p store =
     \<lparr>cop_Registry = r, cop_Decide = Some (Decide wall p), cop_Grants = Some store, cop_ActiveGrants = None\<rparr>"

lemma coordinator_fields:
  assumes "Coordinator_New (coordinatorOptions r wall p store) = Inr c"
  shows "co_decide c = Decide wall p" "co_grants c = store" "co_registry c = r"
    "co_activeGrants c req ck saves d = ActivePolicyGrants store ck saves d"
  using assms by (auto simp: Coordinator_New_def coordinatorOptions_def)

lemma ActivePolicyGrants_ids:
  assumes "storeInv opts t d"
  shows "map terms (fd_Grants (fst (ActivePolicyGrants opts ck saves d))) = map terms (fd_Grants d)"
proof -
  have core: "coreData opts t d"
    using assms by (simp add: storeInv_def)
  show ?thesis
    using readers_state(3)[OF storeInv_load[OF assms], of opts ck saves] refreshed_grants[OF core, of ck "ck_expire ck"]
    by (metis insertE singletonD)
qed

lemma terms_ids: "map terms gs = map terms hs \<Longrightarrow> map g_ID gs = map g_ID hs"
proof -
  have "map g_ID xs = map fst (map terms xs)" for xs
    by (simp add: terms_def)
  then show "map terms gs = map terms hs \<Longrightarrow> map g_ID gs = map g_ID hs"
    by metis
qed

section \<open>Properties\<close>

text \<open>The times of one call follow each other, and \<^verbatim>\<open>NewID\<close> gives an unused identifier.\<close>

definition callIn :: "gotime \<Rightarrow> gotime \<Rightarrow> authCall \<Rightarrow> fileData \<Rightarrow> bool" where
  "callIn t t' call d \<longleftrightarrow>
     (\<exists>t1 t2. clockIn t t1 (au_read call) \<and> clockIn t1 t2 (au_request call) \<and> clockIn t2 t' (au_requestGet call))
     \<and> freshID (au_newID call) (map g_ID (fd_Grants d))"

lemma active_step:
  assumes "reachable store t d" and "validOptions store" and "clockIn t t1 ck"
    and "ActivePolicyGrants store ck saves d = (d1, answer)"
  shows "reachable store t1 d1" and "map g_ID (fd_Grants d1) = map g_ID (fd_Grants d)"
proof -
  show "reachable store t1 d1"
    using reachable.step[OF assms(1) storeStep.offered[OF assms(3), where saves = saves and d = d]] assms(4) by simp
  show "map g_ID (fd_Grants d1) = map g_ID (fd_Grants d)"
    using ActivePolicyGrants_ids[OF reachable_inv[OF assms(1,2)], of ck saves] assms(4) by (intro terms_ids) simp
qed

lemma request_step:
  assumes "reachable store t d" and "clockIn t t1 ck" and "clockIn t1 t' ckGet" and "freshID newID (map g_ID (fd_Grants d))"
    and "RequestWithPlan store ck ckGet saves savesGet sqlite newID req plan d = (d', answer)"
  shows "reachable store t' d'"
  using reachable.step[OF assms(1) storeStep.planned[OF assms(2-4), where saves = saves and savesGet = savesGet
      and sqlite = sqlite and req = req and plan = plan]] assms(5) by simp


text \<open>
  C16. An approval request that an authorization files or finds again is within what the policy offers: the decision offers a grant
  policy, and the stored grant's duration and pending time are positive and at most the policy's minutes, its use budget is
  finite and at most the policy's where that is finite, and an execution grant has exactly one use.
\<close>
theorem approval_within_policy:
  assumes "Parse decode data r = Inr p" and "Coordinator_New (coordinatorOptions r wall p store) = Inr c"
    and "reachable store t d" and "validOptions store" and "callIn t t' call d"
    and "Authorize c call req build d = (d', res, err)" and "ar_Request res = Some g"
  shows "err = None \<and> g \<in> set (fd_Grants d') \<and> dec_Effect (ar_Decision res) = EffectRequest
    \<and> (\<exists>gp. dec_GrantPolicy (ar_Decision res) = Some gp \<and> withinOffer gp g)"
proof -
  obtain t1 t2 where times: "clockIn t t1 (au_read call)" "clockIn t1 t2 (au_request call)"
    and fresh: "freshID (au_newID call) (map g_ID (fd_Grants d))"
    using assms(5) by (auto simp: callIn_def)
  note fields = coordinator_fields[OF assms(2)]
  let ?ask = "Decide wall p req (grantRequestOptions (au_now call))"
  have parsed: "parsedPolicy (wall, p)"
    using assms(1) by (auto simp: parsedPolicy_def)
  from assms(6) show ?thesis
  proof (cases rule: Authorize_cases)
    case (asked d1 active)
    note d1 = active_step[OF assms(3,4) times(1) asked(1)[unfolded fields(4)]]
    have inv: "storeInv store t1 d1"
      by (rule reachable_inv[OF d1(1) assms(4)])
    from asked(3)[unfolded fields(1)] show ?thesis
    proof (cases rule: createApprovalRequest_cases)
      case (created intent g' made)
      have g': "g' = g"
        using created(3) assms(7) by simp
      then have "request store (au_request call) (au_requestGet call) (au_saves call) (au_savesGet call) (au_newID call)
          (in_Request intent) d1 = (d', Inr (g, made))"
        using created(1)[unfolded fields(2)] by (auto simp: RequestWithPlan_def split: if_splits option.splits)
      then obtain nreq where "normalizeGrantRequest store (in_Request intent) = Inr nreq" "g \<in> set (fd_Grants d')"
          "terms g = termsOf (g_ID g) nreq"
        by (rule request_answer[OF inv times(2) fresh[folded d1(2)]])
      moreover have "\<exists>gp. dec_GrantPolicy ?ask = Some gp \<and> gp_Mode gp = in_Mode intent \<and> withinOffer gp g"
        using policy_engine.intent_within[OF parsed, of req "grantRequestOptions (au_now call)" c intent store nreq g "g_ID g"]
          asked(2)[unfolded fields(1)] created(2) calculation by simp
      ultimately show ?thesis
        using created(3,4) asked(2)[unfolded fields(1)] by auto
    qed (use assms(7) in auto)
  qed (use assms(7) in \<open>auto simp: resultOf_def\<close>)
qed

text \<open>
  C19. A deny rule is final: while one matches the request, no call of the coordinator allows it, files an approval request or creates a
  grant, whatever grants are active.
\<close>
theorem deny_rule_is_final:
  assumes "Coordinator_New (coordinatorOptions r wall p store) = Inr c"
    and "ruleApplies p req CredentialUseUnset EffectDeny"
    and "Authorize c call req build d = (d', res, err)"
  shows "err \<noteq> None \<and> ar_Request res = None \<and> snd (snd (RequestApproval c call req build d)) \<noteq> None
    \<and> fst (RequestApproval c call req build d) = d"
  using policy_engine.blocked_calls[of "(wall, p)" req c call build d d' res err] coordinator_fields(1)[OF assms(1)] assms(2,3)
  by simp

section \<open>An example\<close>

definition exampleDigest :: string where
  "exampleDigest = replicate 64 CHR ''a''"

definition exampleIntent :: GrantIntent where
  "exampleIntent =
     \<lparr>in_Mode = GrantModeWindow, in_Authorization = exampleRequest,
      in_Request = \<lparr>rq_Client = ''agent'', rq_ClientRequestID = ''r1'', rq_Operation = ''repo.push'',
        rq_Target = \<lparr>target_Kind = ''repo'', target_Fields = [(''name'', [''team-x''])]\<rparr>, rq_Attrs = [],
        rq_Metadata = [(''x_plan_digest'', exampleDigest)], rq_Reason = ''fix'', rq_Duration = 5 * minute,
        rq_PendingTimeout = 5 * minute, rq_MaxUses = 1, rq_MaxUsesSpecified = True, rq_MaxUsesDefaulted = False\<rparr>,
      in_Plan = \<lparr>plan_Digest = exampleDigest, plan_SchemaName = ''s'', plan_Canonical = ''{}'', plan_CreatedAt = 1\<rparr>\<rparr>"

definition exampleCall :: authCall where
  "exampleCall =
     \<lparr>au_read = exampleClock 10, au_readSaves = True, au_now = 10, au_request = exampleClock 10, au_requestGet = exampleClock 11,
      au_saves = True, au_savesGet = True, au_sqlite = True, au_newID = Some ''g1''\<rparr>"

definition exampleCoordinator :: "Policy \<Rightarrow> Coordinator" where
  "exampleCoordinator p =
     \<lparr>co_registry = exampleRegistry, co_decide = Decide 0 p, co_grants = exampleStoreOptions,
      co_activeGrants = (\<lambda>_ ck saves. ActivePolicyGrants exampleStoreOptions ck saves)\<rparr>"

definition exampleAuthorized :: "fileData \<times> AuthResult \<times> authError option" where
  "exampleAuthorized =
     Authorize (exampleCoordinator examplePolicy) exampleCall exampleRequest (Some (\<lambda>_. Inr exampleIntent)) emptyState"

lemma exampleCoordinator_ok:
  "Coordinator_New (coordinatorOptions exampleRegistry 0 p exampleStoreOptions) = Inr (exampleCoordinator p)"
proof -
  have "Registry_validate exampleRegistry = None"
    by code_simp
  then show ?thesis
    by (simp add: Coordinator_New_def coordinatorOptions_def exampleCoordinator_def guardR_def)
qed

lemma exampleAuthorized_grant: "map_option g_ID (ar_Request (fst (snd exampleAuthorized))) = Some ''g1''"
  by code_simp

lemma exampleCall_in: "callIn 10 11 exampleCall emptyState"
  by (auto simp: callIn_def exampleCall_def clockIn_def exampleClock_def freshID_def emptyState_def
      intro!: exI[of _ 10])

lemma exampleAuthorized_eq:
  "Authorize (exampleCoordinator examplePolicy) exampleCall exampleRequest (Some (\<lambda>_. Inr exampleIntent)) emptyState
   = (fst exampleAuthorized, fst (snd exampleAuthorized), snd (snd exampleAuthorized))"
  by (simp add: exampleAuthorized_def)


theorem approval_within_policy_witness:
  "snd (snd exampleAuthorized) = None
   \<and> (\<exists>g gp. g \<in> set (fd_Grants (fst exampleAuthorized)) \<and> g_ID g = ''g1''
        \<and> dec_GrantPolicy (ar_Decision (fst (snd exampleAuthorized))) = Some gp \<and> withinOffer gp g)"
proof -
  obtain g where g: "ar_Request (fst (snd exampleAuthorized)) = Some g" "g_ID g = ''g1''"
    using exampleAuthorized_grant by auto
  show ?thesis
    using approval_within_policy[OF example_Parse exampleCoordinator_ok reachable.start exampleStoreOptions_valid exampleCall_in
        exampleAuthorized_eq g(1)] g(2) by auto
qed

definition exampleDenying :: Policy where
  "exampleDenying =
     \<lparr>pol_registry = exampleRegistry,
      pol_rules = [exampleRule ''a'' ''team-*'',
                   (exampleRule ''d'' ''team-x'')\<lparr>rule_Effect := EffectDeny, rule_CredentialUses := [], rule_GrantPolicy := None\<rparr>]\<rparr>"

theorem deny_rule_is_final_witness:
  "snd (snd (Authorize (exampleCoordinator exampleDenying) exampleCall exampleRequest (Some (\<lambda>_. Inr exampleIntent)) emptyState))
     \<noteq> None"
proof -
  have rule: "ruleApplies exampleDenying exampleRequest CredentialUseUnset EffectDeny"
    by code_simp
  obtain d' res err where "Authorize (exampleCoordinator exampleDenying) exampleCall exampleRequest
      (Some (\<lambda>_. Inr exampleIntent)) emptyState = (d', res, err)"
    by (rule prod_cases3)
  then show ?thesis
    using deny_rule_is_final[OF exampleCoordinator_ok rule] by fastforce
qed

end
