(* ===== verification/OperationRuntime.thy ===== *)
theory OperationRuntime
  imports Programs AgentStore Coordinator
begin

text \<open>
  \<^verbatim>\<open>operation/runtime\<close>: \<^verbatim>\<open>runtime.go\<close>, \<^verbatim>\<open>recovery.go\<close>, \<^verbatim>\<open>active_grant.go\<close> and \<^verbatim>\<open>adapter.go\<close>. The runtime drives an operation over the
  operation store, the grant store, the coordinator and admission control, while other goroutines do the same.

  \<^item> A handler is a program (\<open>prog\<close>): a sequence of atomic actions, each of them one call of a store, of the coordinator, of admission
    control or of the provider, so that handlers interleave at these calls. The locks of the runtime only forbid interleavings and
    are left out: what holds for all interleavings holds for those the locks leave.
  \<^item> \<open>World\<close> is what survives between actions: the two stores, admission control, and three records of the past (the executions
    started at the provider, the audit outcomes, the identifiers drawn).
  \<^item> \<open>Oracle\<close> is what the surroundings supply to one action: the clock, failing statements, randomness, and \<open>or_tick\<close>, on which the
    answers of the provider may depend.
  \<^item> The callbacks of \<^verbatim>\<open>Options\<close> and the methods of an adapter are parameters. \<^verbatim>\<open>StoredPlan\<close> is \<^verbatim>\<open>Database.Plan\<close>, as in every broker.
    Cleaning up provider material, metrics and diagnostics change none of the state here.
\<close>

section \<open>Programs\<close>

record World =
  w_db :: AgentDB
  w_gs :: fileData
  w_ctrl :: Controller
  w_permits :: "Permit list"
  w_log :: "Operation list"
  w_audit :: "(string \<times> string \<times> string \<times> int) list"
  w_ids :: "string list"

record Oracle =
  or_now :: gotime
  or_io :: io
  or_newID :: "string option"
  or_ck :: Clock
  or_ckGet :: Clock
  or_saves :: bool
  or_savesGet :: bool
  or_auth :: authCall
  or_gets :: "nat \<Rightarrow> Clock \<times> bool"
  or_tick :: nat

type_synonym 'a prog = "(Oracle, World, 'a) program"

definition dbAct :: "(Oracle \<Rightarrow> AgentDB \<Rightarrow> AgentDB \<times> 'a) \<Rightarrow> 'a prog" where
  "dbAct f = atom (\<lambda>orc w. case f orc (w_db w) of (db, r) \<Rightarrow> (w\<lparr>w_db := db\<rparr>, r))"

definition dbRead :: "(Oracle \<Rightarrow> AgentDB \<Rightarrow> 'a) \<Rightarrow> 'a prog" where
  "dbRead f = atom (\<lambda>orc w. (w, f orc (w_db w)))"

definition gsAct :: "(Oracle \<Rightarrow> fileData \<Rightarrow> fileData \<times> 'a) \<Rightarrow> 'a prog" where
  "gsAct f = atom (\<lambda>orc w. case f orc (w_gs w) of (gs, r) \<Rightarrow> (w\<lparr>w_gs := gs\<rparr>, r))"

definition readClock :: "gotime prog" where
  "readClock = atom (\<lambda>orc w. (w, or_now orc))"

section \<open>Adapters and options\<close>

record Outcome =
  oc_Proven :: bool
  oc_Result :: string
  oc_UpstreamStatus :: int

datatype execError = ExecError string | PossiblePartialError execError | WrappedError string execError

fun IsPossiblePartial :: "execError \<Rightarrow> bool" where
  "IsPossiblePartial (ExecError _) = False"
| "IsPossiblePartial (PossiblePartialError _) = True"
| "IsPossiblePartial (WrappedError _ e) = IsPossiblePartial e"

record ('i, 'p, 'a) Adapter =
  ap_Name :: string
  ap_Decode :: "string \<Rightarrow> string \<Rightarrow> string + 'i"
  ap_Resolve :: "nat \<Rightarrow> 'i \<Rightarrow> execError + 'p"
  ap_Authorize :: "'p \<Rightarrow> 'a"
  ap_Present :: "'p \<Rightarrow> Presentation"
  ap_Execute :: "nat \<Rightarrow> 'p \<Rightarrow> Outcome \<times> execError option"
  ap_Reconcile :: "nat \<Rightarrow> 'p \<Rightarrow> Outcome \<times> execError option"
  ap_ValidateClient :: "('i \<Rightarrow> string \<Rightarrow> string \<Rightarrow> string option) option"
  ap_RequiresApproval :: "bool option"
  ap_BindReservation :: "('p \<Rightarrow> UseReservation \<Rightarrow> string + 'p) option"

record ('p, 'a) Preparation =
  pp_Plan :: 'p
  pp_Auth :: 'a
  pp_Core :: Request
  pp_DescriptorName :: string
  pp_Client :: string
  pp_OperationID :: string
  pp_Reason :: string
  pp_Decision :: Decision
  pp_Direct :: bool
  pp_ReusedGrant :: "Grant option"
  pp_CreatedAt :: gotime

record ExecutionFailure =
  fl_Code :: string
  fl_Message :: string
  fl_ReleaseApproval :: bool

record SubmitRequest =
  sr_IdempotencyKey :: string
  sr_Operation :: string
  sr_Target :: string
  sr_Arguments :: string
  sr_Reason :: string

datatype runtimeError =
    StoreFailed opError | APIError int string string | AdmissionLimited string int | AuthorizationFailed authError
  | GrantsFailed grantError | PrepareFailed string | AuthorityGone | PlanNotPrepared

record ('i, 'p, 'a) RuntimeOptions =
  ro_Broker :: string
  ro_env :: AgentEnv
  ro_Grants :: Options
  ro_Authorization :: Coordinator
  ro_Registry :: "string \<Rightarrow> ('i, 'p, 'a) Adapter option"
  ro_Decide :: DecideFunc
  ro_Project :: "'a \<Rightarrow> Request"
  ro_SetClient :: "'p \<Rightarrow> string \<Rightarrow> 'p"
  ro_InputData :: "'i \<Rightarrow> string \<times> string"
  ro_PlanData :: "'p \<Rightarrow> string \<times> string"
  ro_Prepare :: "('p, 'a) Preparation \<Rightarrow> string + GrantIntent"
  ro_Load :: "Operation \<Rightarrow> ('i, 'p, 'a) Adapter \<Rightarrow> string + 'p"
  ro_PlanDigest :: "Grant \<Rightarrow> string"
  ro_ValidateExecution :: "Grant \<Rightarrow> bool"
  ro_MapSubmissionError :: "execError \<Rightarrow> runtimeError"
  ro_DefinitiveFailure :: "execError option \<Rightarrow> bool"
  ro_ExecutionFailure :: "execError option \<Rightarrow> execError option \<Rightarrow> ExecutionFailure"
  ro_OperatorConfigured :: bool
  ro_Admission :: bool
  ro_AuthorizationGrace :: duration
  ro_EqualJSONObject :: "string \<Rightarrow> string \<Rightarrow> bool"
  ro_reconciledResult :: "string \<Rightarrow> string"

definition defaultAuthorizationGrace :: duration where "defaultAuthorizationGrace = 30 * second"

definition defaultDefinitiveFailure :: "execError option \<Rightarrow> bool" where
  "defaultDefinitiveFailure err = (case err of None \<Rightarrow> False | Some e \<Rightarrow> \<not> IsPossiblePartial e)"

definition defaultExecutionFailure :: "execError option \<Rightarrow> execError option \<Rightarrow> ExecutionFailure" where
  "defaultExecutionFailure _ _ =
     \<lparr>fl_Code = ''upstream_result_unknown'', fl_Message = ''Operation result is unknown and was not retried'', fl_ReleaseApproval = False\<rparr>"

text \<open>\<^verbatim>\<open>agentv1.Operation{}\<close>, which accompanies an error.\<close>

definition zeroOperation :: Operation where
  "zeroOperation =
     \<lparr>ao_APIVersion = [], ao_ID = [], ao_Broker = [], ao_ClientID = [], ao_IdempotencyKey = [], ao_Operation = [], ao_Target = [],
      ao_Arguments = [], ao_Reason = [], ao_State = StateOther [], ao_Revision = 0, ao_ApprovalID = [], ao_CreatedAt = 0,
      ao_UpdatedAt = 0, ao_TerminalAt = None, ao_Presentation = \<lparr>pres_Title = [], pres_Summary = []\<rparr>, ao_PlanDigest = [],
      ao_Result = [], ao_Error = None\<rparr>"

definition orZero :: "opError + Operation \<Rightarrow> Operation" where
  "orZero r = (case r of Inl _ \<Rightarrow> zeroOperation | Inr op \<Rightarrow> op)"

section \<open>Store calls\<close>

definition getByID :: "('i, 'p, 'a) RuntimeOptions \<Rightarrow> string \<Rightarrow> (opError + Operation) prog" where
  "getByID r i = dbRead (\<lambda>orc. GetByID (ro_env r) (or_io orc 0) i)"

definition transition :: "('i, 'p, 'a) RuntimeOptions \<Rightarrow> string \<Rightarrow> OpState \<Rightarrow> (opError + Operation) prog" where
  "transition r i state = dbAct (\<lambda>orc. Transition (ro_env r) (or_io orc) (or_now orc) i state)"

definition succeedStored :: "('i, 'p, 'a) RuntimeOptions \<Rightarrow> string \<Rightarrow> string \<Rightarrow> (opError + Operation) prog" where
  "succeedStored r i result = dbAct (\<lambda>orc. Succeed (ro_env r) (or_io orc) (or_now orc) i result)"

definition bindPlan ::
  "('i, 'p, 'a) RuntimeOptions \<Rightarrow> string \<Rightarrow> PlanRecord \<Rightarrow> string \<Rightarrow> bool \<Rightarrow> (opError + Operation) prog" where
  "bindPlan r i plan approval direct = dbAct (\<lambda>orc. BindPlan (ro_env r) (or_io orc) (or_now orc) i plan approval direct)"

definition getGrant :: "('i, 'p, 'a) RuntimeOptions \<Rightarrow> string \<Rightarrow> (grantError + Grant) prog" where
  "getGrant r i = gsAct (\<lambda>orc. Get (ro_Grants r) (or_ck orc) (or_saves orc) i)"

definition listForClient :: "('i, 'p, 'a) RuntimeOptions \<Rightarrow> string \<Rightarrow> (grantError + Grant list) prog" where
  "listForClient r client = gsAct (\<lambda>orc. ListForClient (ro_Grants r) (or_ck orc) (or_saves orc) client)"

definition getUse :: "('i, 'p, 'a) RuntimeOptions \<Rightarrow> string \<Rightarrow> string \<Rightarrow> (grantError + UseReservation) prog" where
  "getUse r g i = gsAct (\<lambda>orc. GetUse (ro_Grants r) (or_ck orc) (or_saves orc) g i)"

definition reserve :: "('i, 'p, 'a) RuntimeOptions \<Rightarrow> string \<Rightarrow> string \<Rightarrow> string \<Rightarrow> (grantError + UseReservation) prog" where
  "reserve r g i operation =
     gsAct (\<lambda>orc. ReserveUse (ro_Grants r) (or_ck orc) (or_ckGet orc) (or_saves orc) (or_savesGet orc) g i operation)"

definition settle :: "('i, 'p, 'a) RuntimeOptions \<Rightarrow> string \<Rightarrow> string \<Rightarrow> UseState \<Rightarrow> (grantError + UseReservation) prog" where
  "settle r g i target =
     gsAct (\<lambda>orc. settleUse (ro_Grants r) (or_ck orc) (or_ckGet orc) (or_saves orc) (or_savesGet orc) g i target)"

definition closeGrant :: "('i, 'p, 'a) RuntimeOptions \<Rightarrow> string \<Rightarrow> string \<Rightarrow> bool \<Rightarrow> (grantError + Grant) prog" where
  "closeGrant r g client active =
     gsAct (\<lambda>orc. if active then RevokeForClient (ro_Grants r) (or_ck orc) (or_saves orc) g client
                 else CancelForClient (ro_Grants r) (or_ck orc) (or_saves orc) g client)"

definition audit :: "Operation \<Rightarrow> string \<Rightarrow> string \<Rightarrow> int \<Rightarrow> unit prog" where
  "audit op outcome detail status = atom (\<lambda>orc w. (w\<lparr>w_audit := w_audit w @ [(ao_ID op, outcome, detail, status)]\<rparr>, ()))"

text \<open>\<^verbatim>\<open>fail\<close>.\<close>

definition failOperation :: "('i, 'p, 'a) RuntimeOptions \<Rightarrow> string \<Rightarrow> OpState \<Rightarrow> string \<Rightarrow> string \<Rightarrow> Operation prog" where
  "failOperation r i state code message =
     bindP (dbAct (\<lambda>orc. Fail (ro_env r) (or_io orc) (or_now orc) i state \<lparr>oe_Code = code, oe_Message = message\<rparr>)) (\<lambda>res.
       case res of Inr op \<Rightarrow> Ret op | Inl _ \<Rightarrow> bindP (getByID r i) (\<lambda>current. Ret (orZero current)))"

section \<open>Loading and settling\<close>

definition LoadPlan :: "('i, 'p, 'a) RuntimeOptions \<Rightarrow> Operation \<Rightarrow> (('i, 'p, 'a) Adapter \<times> 'p) option" where
  "LoadPlan r op =
     (case ro_Registry r (ao_Operation op) of
        None \<Rightarrow> None
      | Some adapter \<Rightarrow>
          if ao_PlanDigest op = [] then None
          else (case ro_Load r op adapter of Inl _ \<Rightarrow> None | Inr plan \<Rightarrow> Some (adapter, plan)))"

datatype approvalSettlement = approvalCommit | approvalRetain | approvalRelease

definition settlementForFailure :: "ExecutionFailure \<Rightarrow> approvalSettlement" where
  "settlementForFailure failure = (if fl_ReleaseApproval failure then approvalRelease else approvalCommit)"

definition settlementState :: "approvalSettlement \<Rightarrow> UseState" where
  "settlementState s = (case s of approvalRetain \<Rightarrow> UseRetained | approvalRelease \<Rightarrow> UseReleased | approvalCommit \<Rightarrow> UseCommitted)"

definition settleApproval :: "('i, 'p, 'a) RuntimeOptions \<Rightarrow> Operation \<Rightarrow> bool \<Rightarrow> approvalSettlement \<Rightarrow> bool prog" where
  "settleApproval r op reserved settlement =
     (if \<not> reserved then Ret True
      else bindP (settle r (ao_ApprovalID op) (ao_ID op) (settlementState settlement)) (\<lambda>res.
             case res of
               Inr _ \<Rightarrow> Ret True
             | Inl _ \<Rightarrow> bindP (failOperation r (ao_ID op) StateFailed ''approval_commit_failed'' ''Approval accounting failed'')
                          (\<lambda>_. Ret False)))"

definition invalidApproval :: "('i, 'p, 'a) RuntimeOptions \<Rightarrow> Operation \<Rightarrow> Operation prog" where
  "invalidApproval r op = failOperation r (ao_ID op) StateFailed ''approval_invalid'' ''Approval no longer matches the operation''"

text \<open>The three results of \<^verbatim>\<open>reserveApproval\<close>: refused, nothing to reserve, or a reservation.\<close>

datatype reserveResult = ReserveFailed | NothingReserved | Reserved UseReservation

definition reserveApproval :: "('i, 'p, 'a) RuntimeOptions \<Rightarrow> Operation \<Rightarrow> reserveResult prog" where
  "reserveApproval r op =
     (if ao_ApprovalID op = [] then Ret NothingReserved
      else bindP (getGrant r (ao_ApprovalID op)) (\<lambda>res.
             case res of
               Inl _ \<Rightarrow> bindP (invalidApproval r op) (\<lambda>_. Ret ReserveFailed)
             | Inr grant \<Rightarrow>
                 if \<not> ro_ValidateExecution r grant then bindP (invalidApproval r op) (\<lambda>_. Ret ReserveFailed)
                 else bindP (reserve r (g_ID grant) (ao_ID op) (ao_Operation op)) (\<lambda>res.
                        let unavailable = bindP (failOperation r (ao_ID op) StateFailed ''approval_unavailable''
                                                   ''Approval could not be reserved'') (\<lambda>_. Ret ReserveFailed)
                        in case res of
                             Inl _ \<Rightarrow> unavailable
                           | Inr reservation \<Rightarrow>
                               if u_State (res_Use reservation) \<noteq> UseReserved then unavailable else Ret (Reserved reservation))))"

definition bindReservedPlan ::
  "('i, 'p, 'a) RuntimeOptions \<Rightarrow> Operation \<Rightarrow> ('i, 'p, 'a) Adapter \<Rightarrow> 'p \<Rightarrow> reserveResult \<Rightarrow> 'p option prog" where
  "bindReservedPlan r op adapter plan reserved =
     (case (reserved, ap_BindReservation adapter) of
        (Reserved reservation, Some binder) \<Rightarrow>
          (case binder plan reservation of
             Inr boundPlan \<Rightarrow> Ret (Some boundPlan)
           | Inl _ \<Rightarrow>
               bindP (settle r (g_ID (res_Grant reservation)) (u_RequestID (res_Use reservation)) UseReleased) (\<lambda>_.
                 bindP (failOperation r (ao_ID op) StateFailed ''approval_invalid'' ''Approved operation binding is invalid'')
                   (\<lambda>_. Ret None)))
      | _ \<Rightarrow> Ret (Some plan))"

definition NormalizedResult :: "('i, 'p, 'a) RuntimeOptions \<Rightarrow> string \<Rightarrow> string \<Rightarrow> string" where
  "NormalizedResult r operation result = (if result \<noteq> [] then result else ro_reconciledResult r operation)"

definition normalizedUpstreamStatus :: "int \<Rightarrow> int" where
  "normalizedUpstreamStatus status = (if status \<ge> 100 \<and> status \<le> 599 then status else 200)"

definition resultUnstored :: "('i, 'p, 'a) RuntimeOptions \<Rightarrow> Operation \<Rightarrow> Operation prog" where
  "resultUnstored r op =
     failOperation r (ao_ID op) StateFailed ''operation_store_unavailable'' ''Operation ran but its result could not be stored''"

definition succeed ::
  "('i, 'p, 'a) RuntimeOptions \<Rightarrow> Operation \<Rightarrow> string \<Rightarrow> bool \<Rightarrow> string \<Rightarrow> int \<Rightarrow> unit prog" where
  "succeed r op result0 reserved detail upstreamStatus =
     (let result = NormalizedResult r (ao_Operation op) result0
      in bindP (settleApproval r op reserved approvalCommit) (\<lambda>settled.
           if \<not> settled then Ret ()
           else bindP (succeedStored r (ao_ID op) result) (\<lambda>res.
                  case res of
                    Inl _ \<Rightarrow> bindP (resultUnstored r op) (\<lambda>_. Ret ())
                  | Inr _ \<Rightarrow> audit op ''allowed'' detail (normalizedUpstreamStatus upstreamStatus))))"

definition recordExecutionFailure :: "('i, 'p, 'a) RuntimeOptions \<Rightarrow> Operation \<Rightarrow> ExecutionFailure \<Rightarrow> unit prog" where
  "recordExecutionFailure r op failure =
     bindP (failOperation r (ao_ID op) StateFailed (fl_Code failure) (fl_Message failure)) (\<lambda>_. audit op ''refused'' (fl_Code failure) 0)"

definition reconcileProvider :: "('i, 'p, 'a) Adapter \<Rightarrow> 'p \<Rightarrow> (Outcome \<times> execError option) prog" where
  "reconcileProvider adapter plan = atom (\<lambda>orc w. (w, ap_Reconcile adapter (or_tick orc) plan))"

definition executeProvider :: "('i, 'p, 'a) Adapter \<Rightarrow> Operation \<Rightarrow> 'p \<Rightarrow> (Outcome \<times> execError option) prog" where
  "executeProvider adapter op plan =
     atom (\<lambda>orc w. (w\<lparr>w_log := w_log w @ [op]\<rparr>, ap_Execute adapter (or_tick orc) plan))"

definition reconcileExecution ::
  "('i, 'p, 'a) RuntimeOptions \<Rightarrow> Operation \<Rightarrow> ('i, 'p, 'a) Adapter \<Rightarrow> 'p \<Rightarrow> bool \<Rightarrow> Outcome \<Rightarrow> execError option \<Rightarrow> unit prog" where
  "reconcileExecution r op adapter plan reserved execution executionErr =
     bindP (reconcileProvider adapter plan) (\<lambda>(outcome, reconcileErr).
       if reconcileErr = None \<and> oc_Proven outcome then
         succeed r op (if oc_Result outcome = [] then oc_Result execution else oc_Result outcome) reserved []
           (if oc_UpstreamStatus outcome = 0 then oc_UpstreamStatus execution else oc_UpstreamStatus outcome)
       else bindP (settleApproval r op reserved approvalRetain) (\<lambda>settled.
              if settled then recordExecutionFailure r op (ro_ExecutionFailure r executionErr reconcileErr) else Ret ()))"

definition executeReserved ::
  "('i, 'p, 'a) RuntimeOptions \<Rightarrow> Operation \<Rightarrow> ('i, 'p, 'a) Adapter \<Rightarrow> 'p \<Rightarrow> bool \<Rightarrow> unit prog" where
  "executeReserved r op adapter plan reserved =
     bindP (executeProvider adapter op plan) (\<lambda>(execution, executionErr).
       if executionErr = None \<and> oc_Proven execution then
         succeed r op (oc_Result execution) reserved [] (oc_UpstreamStatus execution)
       else if ro_DefinitiveFailure r executionErr then
         (let failure = ro_ExecutionFailure r executionErr None
          in bindP (settleApproval r op reserved (settlementForFailure failure)) (\<lambda>settled.
               if settled then recordExecutionFailure r op failure else Ret ()))
       else reconcileExecution r op adapter plan reserved execution executionErr)"

definition Execute :: "('i, 'p, 'a) RuntimeOptions \<Rightarrow> Operation \<Rightarrow> unit prog" where
  "Execute r op =
     (case LoadPlan r op of
        None \<Rightarrow> bindP (failOperation r (ao_ID op) StateFailed ''invalid_stored_operation'' ''Stored operation is invalid'') (\<lambda>_. Ret ())
      | Some (adapter, plan) \<Rightarrow>
          bindP (reserveApproval r op) (\<lambda>reserved.
            if reserved = ReserveFailed then Ret ()
            else bindP (bindReservedPlan r op adapter plan reserved) (\<lambda>bound.
                   case bound of
                     None \<Rightarrow> Ret ()
                   | Some plan' \<Rightarrow> executeReserved r op adapter plan' (reserved \<noteq> NothingReserved))))"

section \<open>Following the approval\<close>

definition codeText :: "Code \<Rightarrow> string" where
  "codeText code =
     (case code of
        CodeUnset \<Rightarrow> [] | CodePlanUnavailable \<Rightarrow> ''plan_unavailable'' | CodePlanMismatch \<Rightarrow> ''plan_mismatch''
      | CodeCredentialChanged \<Rightarrow> ''credential_changed'' | CodeCredentialInsufficient \<Rightarrow> ''credential_insufficient''
      | CodeConstraintExceeded \<Rightarrow> ''constraint_exceeded'' | CodeStorageUnavailable \<Rightarrow> ''storage_unavailable''
      | CodeTemporarilyUnavailable \<Rightarrow> ''temporarily_unavailable'' | CodeInternalError \<Rightarrow> ''internal_error'' | CodeOther c \<Rightarrow> c)"

record approvalFailure =
  af_state :: OpState
  af_code :: string
  af_message :: string

definition approvalFailures :: "Status \<Rightarrow> approvalFailure option" where
  "approvalFailures status =
     (case status of
        StatusDenied \<Rightarrow> Some \<lparr>af_state = StateDenied, af_code = ''operation_approval_denied'', af_message = ''Approval was denied''\<rparr>
      | StatusExpired \<Rightarrow> Some \<lparr>af_state = StateExpired, af_code = ''operation_approval_expired'', af_message = ''Approval request expired''\<rparr>
      | StatusCanceled \<Rightarrow> Some \<lparr>af_state = StateCanceled, af_code = ''operation_canceled'', af_message = ''Request was canceled''\<rparr>
      | StatusRevoked \<Rightarrow> Some \<lparr>af_state = StateCanceled, af_code = ''operation_canceled'', af_message = ''Request was canceled''\<rparr>
      | _ \<Rightarrow> None)"

definition operationApprovalFailure :: "Grant \<Rightarrow> approvalFailure option" where
  "operationApprovalFailure grant =
     (if g_Status grant \<noteq> StatusFailed then approvalFailures (g_Status grant)
      else Some \<lparr>af_state = StateFailed,
                 af_code = (if \<not> Known (g_FailureCode grant) then ''approval_activation_failed'' else codeText (g_FailureCode grant)),
                 af_message = ''Approval activation failed''\<rparr>)"

definition syncApproval :: "('i, 'p, 'a) RuntimeOptions \<Rightarrow> Operation \<Rightarrow> Operation prog" where
  "syncApproval r op =
     bindP (getGrant r (ao_ApprovalID op)) (\<lambda>res.
       case res of
         Inl _ \<Rightarrow> Ret op
       | Inr grant \<Rightarrow>
           if g_Status grant = StatusActive
           then bindP (transition r (ao_ID op) StateApproved) (\<lambda>updated. Ret (orZero updated))
           else (case operationApprovalFailure grant of
                   None \<Rightarrow> Ret op
                 | Some failure \<Rightarrow> failOperation r (ao_ID op) (af_state failure) (af_code failure) (af_message failure)))"

definition operationApproval :: "('i, 'p, 'a) RuntimeOptions \<Rightarrow> Grant list \<Rightarrow> Operation \<Rightarrow> Grant option" where
  "operationApproval r values op =
     List.find (\<lambda>grant. g_ClientRequestID grant = ao_ID op \<and> g_Operation grant = ao_Operation op \<and> ro_PlanDigest r grant \<noteq> []
       \<and> (ao_PlanDigest op = [] \<or> ro_PlanDigest r grant = ao_PlanDigest op)) values"

definition RecoverApproval :: "('i, 'p, 'a) RuntimeOptions \<Rightarrow> Operation \<Rightarrow> Operation prog" where
  "RecoverApproval r op =
     bindP (listForClient r (ao_ClientID op)) (\<lambda>res.
       case res of
         Inl _ \<Rightarrow> Ret op
       | Inr values \<Rightarrow>
           (case operationApproval r values op of
              None \<Rightarrow>
                bindP readClock (\<lambda>now.
                  if now - ao_UpdatedAt op < ro_AuthorizationGrace r then Ret op
                  else failOperation r (ao_ID op) StateFailed ''approval_missing'' ''Approval request is missing'')
            | Some grant \<Rightarrow>
                bindP (dbRead (\<lambda>orc. Plan (ro_env r) (or_io orc 0) (ro_PlanDigest r grant))) (\<lambda>res.
                  case res of
                    Inl _ \<Rightarrow> Ret op
                  | Inr plan \<Rightarrow>
                      bindP (bindPlan r (ao_ID op) plan (g_ID grant) False) (\<lambda>updated.
                        case updated of Inl _ \<Rightarrow> Ret op | Inr op' \<Rightarrow> Ret op'))))"

definition advancePendingApproval :: "('i, 'p, 'a) RuntimeOptions \<Rightarrow> Operation \<Rightarrow> Operation prog" where
  "advancePendingApproval r op0 =
     (if ao_State op0 \<noteq> StatePending then Ret op0
      else bindP (if ao_ApprovalID op0 = [] then RecoverApproval r op0 else Ret op0) (\<lambda>op.
             if ao_State op \<noteq> StatePending \<or> ao_ApprovalID op = [] then Ret op else syncApproval r op))"

definition Advance :: "('i, 'p, 'a) RuntimeOptions \<Rightarrow> Operation \<Rightarrow> unit prog" where
  "Advance r op =
     bindP (getByID r (ao_ID op)) (\<lambda>res.
       case res of
         Inl _ \<Rightarrow> Ret ()
       | Inr stored \<Rightarrow>
           bindP (advancePendingApproval r stored) (\<lambda>current.
             if ao_State current \<noteq> StateApproved then Ret ()
             else bindP (transition r (ao_ID current) StateExecuting) (\<lambda>res.
                    case res of Inl _ \<Rightarrow> Ret () | Inr claimed \<Rightarrow> Execute r claimed)))"

section \<open>Recovery\<close>

definition RecoveredApprovalCommit :: "GrantUse \<Rightarrow> bool option" where
  "RecoveredApprovalCommit use =
     (case u_State use of UseCommitted \<Rightarrow> Some False | UseReserved \<Rightarrow> Some True | UseRetained \<Rightarrow> Some True | _ \<Rightarrow> None)"

definition settleBoundRecoveredApproval :: "('i, 'p, 'a) RuntimeOptions \<Rightarrow> Operation \<Rightarrow> bool prog" where
  "settleBoundRecoveredApproval r op =
     (let refuse = (\<lambda>code message. bindP (failOperation r (ao_ID op) StateFailed code message) (\<lambda>_. Ret False));
          missing = refuse ''approval_reservation_missing'' ''Approval was not reserved before execution'';
          invalid = refuse ''approval_invalid'' ''Approval no longer matches the operation''
      in bindP (getGrant r (ao_ApprovalID op)) (\<lambda>res.
           case res of
             Inl _ \<Rightarrow> invalid
           | Inr grant \<Rightarrow>
               if \<not> ro_ValidateExecution r grant then invalid
               else bindP (getUse r (g_ID grant) (ao_ID op)) (\<lambda>res.
                      case res of
                        Inl _ \<Rightarrow> missing
                      | Inr reservation \<Rightarrow>
                          (case RecoveredApprovalCommit (res_Use reservation) of
                             None \<Rightarrow> missing
                           | Some False \<Rightarrow> Ret True
                           | Some True \<Rightarrow>
                               bindP (settle r (g_ID grant) (ao_ID op) UseCommitted) (\<lambda>res.
                                 case res of
                                   Inl _ \<Rightarrow> refuse ''approval_commit_failed'' ''Operation ran but approval accounting failed''
                                 | Inr _ \<Rightarrow> Ret True)))))"

definition settleRecoveredApproval :: "('i, 'p, 'a) RuntimeOptions \<Rightarrow> Operation \<Rightarrow> bool prog" where
  "settleRecoveredApproval r op = (if ao_ApprovalID op = [] then Ret True else settleBoundRecoveredApproval r op)"

definition retainRecoveredApproval :: "('i, 'p, 'a) RuntimeOptions \<Rightarrow> Operation \<Rightarrow> unit prog" where
  "retainRecoveredApproval r op =
     (if ao_ApprovalID op = [] then Ret ()
      else bindP (getUse r (ao_ApprovalID op) (ao_ID op)) (\<lambda>res.
             case res of
               Inl _ \<Rightarrow> Ret ()
             | Inr reservation \<Rightarrow>
                 if u_State (res_Use reservation) = UseReserved
                 then bindP (settle r (ao_ApprovalID op) (ao_ID op) UseRetained) (\<lambda>_. Ret ()) else Ret ()))"

definition ReconcileInterrupted :: "('i, 'p, 'a) RuntimeOptions \<Rightarrow> Operation \<Rightarrow> unit prog" where
  "ReconcileInterrupted r op =
     (case LoadPlan r op of
        None \<Rightarrow> bindP (failOperation r (ao_ID op) StateFailed ''invalid_stored_operation'' ''Stored operation is invalid'') (\<lambda>_. Ret ())
      | Some (adapter, plan) \<Rightarrow>
          bindP (reconcileProvider adapter plan) (\<lambda>(outcome, err).
            if err = None \<and> oc_Proven outcome then
              bindP (settleRecoveredApproval r op) (\<lambda>settled.
                if \<not> settled then Ret ()
                else bindP (succeedStored r (ao_ID op) (NormalizedResult r (ao_Operation op) (oc_Result outcome))) (\<lambda>res.
                       case res of
                         Inl _ \<Rightarrow> bindP (resultUnstored r op) (\<lambda>_. Ret ())
                       | Inr _ \<Rightarrow> audit op ''allowed'' ''reconciled after restart'' (normalizedUpstreamStatus (oc_UpstreamStatus outcome))))
            else bindP (retainRecoveredApproval r op) (\<lambda>_.
                   bindP (failOperation r (ao_ID op) StateFailed ''upstream_result_unknown''
                     ''Operation result could not be proven after restart'') (\<lambda>_. Ret ()))))"

text \<open>
  \<^verbatim>\<open>Recover\<close> and \<^verbatim>\<open>AdvanceAll\<close> read the unfinished operations once; \<^verbatim>\<open>runBatch\<close> then starts one run for each of them, or for a prefix
  when the context ends.
\<close>

definition recoverOne :: "('i, 'p, 'a) RuntimeOptions \<Rightarrow> Operation \<Rightarrow> unit prog" where
  "recoverOne r op = (if ao_State op = StateExecuting then ReconcileInterrupted r op else Advance r op)"

definition batch ::
  "('i, 'p, 'a) RuntimeOptions \<Rightarrow> (('i, 'p, 'a) RuntimeOptions \<Rightarrow> Operation \<Rightarrow> unit prog) \<Rightarrow> nat \<Rightarrow> unit prog list prog" where
  "batch r run started =
     dbRead (\<lambda>orc db. case ListUnfinished (ro_env r) (or_io orc 0) db of Inl _ \<Rightarrow> [] | Inr values \<Rightarrow> take started (map (run r) values))"

definition Recover :: "('i, 'p, 'a) RuntimeOptions \<Rightarrow> nat \<Rightarrow> unit prog list prog" where
  "Recover r started = batch r recoverOne started"

definition AdvanceAll :: "('i, 'p, 'a) RuntimeOptions \<Rightarrow> nat \<Rightarrow> unit prog list prog" where
  "AdvanceAll r started = batch r Advance started"

section \<open>Canceling\<close>

definition cancelGrant :: "('i, 'p, 'a) RuntimeOptions \<Rightarrow> Grant \<Rightarrow> string \<Rightarrow> grantError option prog" where
  "cancelGrant r grant client =
     (if g_Status grant = StatusPending \<or> g_Status grant = StatusActive
      then bindP (closeGrant r (g_ID grant) client (g_Status grant = StatusActive)) (\<lambda>res.
             Ret (case res of Inl e \<Rightarrow> Some e | Inr _ \<Rightarrow> None))
      else Ret None)"

definition abandonApproval :: "('i, 'p, 'a) RuntimeOptions \<Rightarrow> string \<Rightarrow> string \<Rightarrow> grantError option prog" where
  "abandonApproval r i client =
     (if i = [] then Ret None
      else bindP (getGrant r i) (\<lambda>res. case res of Inl e \<Rightarrow> Ret (Some e) | Inr grant \<Rightarrow> cancelGrant r grant client))"

definition approvalIDOf :: "('i, 'p, 'a) RuntimeOptions \<Rightarrow> Operation \<Rightarrow> string \<Rightarrow> (grantError + string option) prog" where
  "approvalIDOf r op client =
     (if ao_ApprovalID op \<noteq> [] then Ret (Inr (Some (ao_ApprovalID op)))
      else bindP (listForClient r client) (\<lambda>res.
             Ret (case res of
                    Inl e \<Rightarrow> Inl e
                  | Inr values \<Rightarrow> Inr (map_option g_ID (operationApproval r values op)))))"

definition cancelApproval :: "('i, 'p, 'a) RuntimeOptions \<Rightarrow> Operation \<Rightarrow> string \<Rightarrow> grantError option prog" where
  "cancelApproval r op client =
     bindP (approvalIDOf r op client) (\<lambda>res.
       case res of
         Inl e \<Rightarrow> Ret (Some e)
       | Inr None \<Rightarrow> Ret None
       | Inr (Some i) \<Rightarrow>
           bindP (getGrant r i) (\<lambda>res.
             case res of
               Inl e \<Rightarrow> Ret (Some e)
             | Inr grant \<Rightarrow>
                 if g_Status grant = StatusActive
                    \<and> (g_ClientRequestID grant \<noteq> ao_ID op \<or> stringAt (g_Metadata grant) MetadataMode = modeText GrantModeWindow)
                 then Ret None else cancelGrant r grant client))"

definition Cancel :: "('i, 'p, 'a) RuntimeOptions \<Rightarrow> string \<Rightarrow> string \<Rightarrow> (runtimeError + Operation) prog" where
  "Cancel r client i =
     bindP (dbRead (\<lambda>orc. GetOperation (ro_env r) (or_io orc 0) client i)) (\<lambda>res.
       case res of
         Inl e \<Rightarrow> Ret (Inl (StoreFailed e))
       | Inr op \<Rightarrow>
           if Terminal (ao_State op) then Ret (Inr op)
           else if ao_State op = StateExecuting then Ret (Inl (StoreFailed OpNotCancelable))
           else bindP (cancelApproval r op client) (\<lambda>err.
                  case err of
                    Some e \<Rightarrow> Ret (Inl (GrantsFailed e))
                  | None \<Rightarrow>
                      bindP (dbAct (\<lambda>orc. CancelOperation (ro_env r) (or_io orc) (or_now orc) client (ao_ID op))) (\<lambda>res.
                        Ret (case res of Inl e \<Rightarrow> Inl (StoreFailed e) | Inr op' \<Rightarrow> Inr op'))))"

section \<open>Submitting\<close>

definition operationAPIError :: "int \<Rightarrow> string \<Rightarrow> string \<Rightarrow> runtimeError" where
  "operationAPIError status code message = APIError status code message"

text \<open>\<^verbatim>\<open>PlanRecord\<close> of the runtime.\<close>

definition planRecordOf :: "ImmutablePlan \<Rightarrow> PlanRecord" where
  "planRecordOf plan =
     \<lparr>pr_Digest = plan_Digest plan, pr_SchemaName = plan_SchemaName plan, pr_Canonical = plan_Canonical plan,
      pr_CreatedAt = plan_CreatedAt plan\<rparr>"

definition drawID :: "string option prog" where
  "drawID = atom (\<lambda>orc w. case or_newID orc of None \<Rightarrow> (w, None) | Some i \<Rightarrow> (w\<lparr>w_ids := i # w_ids w\<rparr>, Some i))"

text \<open>
  \<^verbatim>\<open>RequestApproval\<close> with a callback that also reads the clock. The grant and its plan are saved in one transaction, so a plan that
  cannot be stored makes the save fail. The last component is the plan the callback left in \<^verbatim>\<open>prepared\<close>.
\<close>

definition zeroPlan :: ImmutablePlan where
  "zeroPlan = \<lparr>plan_Digest = [], plan_SchemaName = [], plan_Canonical = [], plan_CreatedAt = 0\<rparr>"

definition preparedPlan :: "Coordinator \<Rightarrow> gotime \<Rightarrow> Request \<Rightarrow> (Decision \<Rightarrow> string + GrantIntent) \<Rightarrow> ImmutablePlan" where
  "preparedPlan c now req build =
     (if validateRequest (co_registry c) req \<noteq> None then zeroPlan
      else (let dec = co_decide c req (grantRequestOptions now)
            in if dec_Effect dec \<noteq> EffectRequest then zeroPlan
               else (case build dec of Inl _ \<Rightarrow> zeroPlan | Inr intent \<Rightarrow> in_Plan intent)))"

definition requestApproval ::
  "('i, 'p, 'a) RuntimeOptions \<Rightarrow> Request \<Rightarrow> (gotime \<Rightarrow> Decision \<Rightarrow> string + GrantIntent)
   \<Rightarrow> (AuthResult \<times> authError option \<times> ImmutablePlan) prog" where
  "requestApproval r core build =
     atom (\<lambda>orc w.
       let plan = preparedPlan (ro_Authorization r) (au_now (or_auth orc)) core (build (or_now orc));
           put = putPlanWithQueries (ro_env r) (planRecordOf plan) (w_db w);
           call = (if isl put then (or_auth orc)\<lparr>au_saves := False\<rparr> else or_auth orc)
       in case RequestApproval (ro_Authorization r) call core (Some (build (or_now orc))) (w_gs w) of
            (gs, result, err) \<Rightarrow>
              (w\<lparr>w_gs := gs,
                 w_db := (case put of
                            Inl _ \<Rightarrow> w_db w
                          | Inr db \<Rightarrow> if err = None \<or> length (fd_Grants (w_gs w)) < length (fd_Grants gs) then db else w_db w)\<rparr>,
               result, err, plan))"

definition activeWindowGrant :: "('i, 'p, 'a) RuntimeOptions \<Rightarrow> Request \<Rightarrow> (authError + Decision \<times> bool) prog" where
  "activeWindowGrant r core =
     gsAct (\<lambda>orc. ActiveGrantMode (ro_Authorization r) (or_auth orc) (or_gets orc) core GrantModeWindow)"

definition failUnnotified :: "('i, 'p, 'a) RuntimeOptions \<Rightarrow> Operation \<Rightarrow> Grant \<Rightarrow> string \<Rightarrow> string \<Rightarrow> Operation prog" where
  "failUnnotified r op grant code message =
     bindP (abandonApproval r (g_ID grant) (ao_ClientID op)) (\<lambda>err.
       if err \<noteq> None then Ret op else failOperation r (ao_ID op) StateFailed code message)"

definition bindApproval :: "('i, 'p, 'a) RuntimeOptions \<Rightarrow> Operation \<Rightarrow> Grant \<Rightarrow> Operation prog" where
  "bindApproval r op grant =
     (if \<not> ro_OperatorConfigured r
      then failUnnotified r op grant ''approval_channel_not_configured'' ''Approval channel is not configured'' else Ret op)"

definition finishRefused :: "('i, 'p, 'a) RuntimeOptions \<Rightarrow> Operation \<Rightarrow> authError \<Rightarrow> Operation prog" where
  "finishRefused r op err =
     (if err = ErrDenied \<or> err = ErrNoMatch then
        bindP (audit op ''refused'' ''operation_policy_denied'' 0) (\<lambda>_.
          failOperation r (ao_ID op) StateDenied ''operation_policy_denied''
            (if err = ErrNoMatch then ''No policy rule allows this operation'' else ''Policy denied this operation''))
      else failOperation r (ao_ID op) StateFailed ''approval_request_failed'' ''Could not create approval request'')"

type_synonym submitResult = "runtimeError + Operation \<times> bool"

definition submitted :: "opError + Operation \<times> bool \<Rightarrow> submitResult" where
  "submitted res = (case res of Inl e \<Rightarrow> Inl (StoreFailed e) | Inr x \<Rightarrow> Inr x)"

definition createPending :: "('i, 'p, 'a) RuntimeOptions \<Rightarrow> Submission \<Rightarrow> submitResult prog" where
  "createPending r submission =
     bindP (dbAct (\<lambda>orc. SubmitPending (ro_env r) (or_io orc) None submission (or_now orc))) (\<lambda>res. Ret (submitted res))"

definition preparation ::
  "('i, 'p, 'a) Adapter \<Rightarrow> 'p \<Rightarrow> 'a \<Rightarrow> Request \<Rightarrow> string \<Rightarrow> string \<Rightarrow> string \<Rightarrow> Decision \<Rightarrow> gotime \<Rightarrow> ('p, 'a) Preparation" where
  "preparation adapter plan auth core client i reason dec now =
     \<lparr>pp_Plan = plan, pp_Auth = auth, pp_Core = core, pp_DescriptorName = ap_Name adapter, pp_Client = client, pp_OperationID = i,
      pp_Reason = reason, pp_Decision = dec, pp_Direct = False, pp_ReusedGrant = None, pp_CreatedAt = now\<rparr>"

definition submitPending ::
  "('i, 'p, 'a) RuntimeOptions \<Rightarrow> Submission \<Rightarrow> ('i, 'p, 'a) Adapter \<Rightarrow> 'p \<Rightarrow> 'a \<Rightarrow> Request \<Rightarrow> submitResult prog" where
  "submitPending r submission adapter plan auth core =
     bindP (createPending r submission) (\<lambda>res.
       case res of
         Inl e \<Rightarrow> Ret (Inl e)
       | Inr (op, False) \<Rightarrow> Ret (Inr (op, False))
       | Inr (op, True) \<Rightarrow>
           bindP (requestApproval r core (\<lambda>now dec.
                    ro_Prepare r (preparation adapter plan auth core (ao_ClientID op) (ao_ID op) (ao_Reason op) dec now)))
             (\<lambda>(result, authErr, prepared).
               let grantID = (case ar_Request result of None \<Rightarrow> [] | Some g \<Rightarrow> g_ID g);
                   done = (\<lambda>op'. Ret (Inr (op', True)))
               in case authErr of
                    Some err \<Rightarrow>
                      bindP (abandonApproval r grantID (ao_ClientID op)) (\<lambda>_. bindP (finishRefused r op err) done)
                  | None \<Rightarrow>
                      if plan_Digest prepared = [] then
                        bindP (failOperation r (ao_ID op) StateFailed ''operation_plan_invalid''
                          ''Could not prepare immutable operation plan'') done
                      else bindP (bindPlan r (ao_ID op) (planRecordOf prepared) grantID False) (\<lambda>bound.
                             case bound of
                               Inl _ \<Rightarrow>
                                 bindP (abandonApproval r grantID (ao_ClientID op)) (\<lambda>_.
                                   bindP (failOperation r (ao_ID op) StateFailed ''operation_store_unavailable''
                                     ''Could not bind operation plan'') done)
                             | Inr op' \<Rightarrow>
                                 (case ar_Request result of
                                    None \<Rightarrow> done op'
                                  | Some grant \<Rightarrow> bindP (bindApproval r op' grant) done))))"

definition submitDirectGrant ::
  "('i, 'p, 'a) RuntimeOptions \<Rightarrow> Submission \<Rightarrow> ('i, 'p, 'a) Adapter \<Rightarrow> 'p \<Rightarrow> 'a \<Rightarrow> Request \<Rightarrow> Decision \<Rightarrow> submitResult prog" where
  "submitDirectGrant r submission adapter plan auth core dec =
     bindP readClock (\<lambda>now.
       case ro_Prepare r ((preparation adapter plan auth core (su_ClientID submission) (su_ID submission) (su_Reason submission) dec now)
              \<lparr>pp_Direct := True\<rparr>) of
         Inl e \<Rightarrow> Ret (Inl (PrepareFailed e))
       | Inr intent \<Rightarrow>
           bindP (dbAct (\<lambda>orc. SubmitApprovedWithPlan (ro_env r) (or_io orc) None submission (or_now orc) (planRecordOf (in_Plan intent))))
             (\<lambda>res. Ret (submitted res)))"

definition usableActiveGrant :: "('i, 'p, 'a) RuntimeOptions \<Rightarrow> gotime \<Rightarrow> Grant \<Rightarrow> Submission \<Rightarrow> bool" where
  "usableActiveGrant r now grant submission =
     (stringAt (g_Metadata grant) MetadataMode = modeText GrantModeWindow \<and> g_Status grant = StatusActive
      \<and> g_Client grant = su_ClientID submission \<and> g_Operation grant = su_Operation submission \<and> now < g_ExpiresAt grant
      \<and> Allows (g_MaxUses grant) (g_UsedCount grant) (g_ReservedCount grant) \<and> ro_ValidateExecution r grant)"

definition prepareActiveGrant ::
  "('i, 'p, 'a) RuntimeOptions \<Rightarrow> Submission \<Rightarrow> ('i, 'p, 'a) Adapter \<Rightarrow> 'p \<Rightarrow> 'a \<Rightarrow> Request \<Rightarrow> Decision
   \<Rightarrow> (runtimeError + Grant \<times> GrantIntent) prog" where
  "prepareActiveGrant r submission adapter plan auth core dec =
     bindP (getGrant r (dec_GrantID dec)) (\<lambda>res.
       bindP readClock (\<lambda>now.
         case res of
           Inl _ \<Rightarrow> Ret (Inl AuthorityGone)
         | Inr grant \<Rightarrow>
             if \<not> usableActiveGrant r now grant submission then Ret (Inl AuthorityGone)
             else bindP readClock (\<lambda>created.
                    case ro_Prepare r ((preparation adapter plan auth core (su_ClientID submission) (su_ID submission)
                           (su_Reason submission) dec created)\<lparr>pp_ReusedGrant := Some grant\<rparr>) of
                      Inl _ \<Rightarrow> Ret (Inl PlanNotPrepared)
                    | Inr intent \<Rightarrow>
                        if plan_Digest (in_Plan intent) = [] then Ret (Inl PlanNotPrepared) else Ret (Inr (grant, intent)))))"

definition submitActiveGrant ::
  "('i, 'p, 'a) RuntimeOptions \<Rightarrow> Submission \<Rightarrow> ('i, 'p, 'a) Adapter \<Rightarrow> 'p \<Rightarrow> 'a \<Rightarrow> Request \<Rightarrow> Decision \<Rightarrow> submitResult prog" where
  "submitActiveGrant r submission adapter plan auth core dec =
     bindP (prepareActiveGrant r submission adapter plan auth core dec) (\<lambda>res.
       case res of
         Inl e \<Rightarrow> Ret (Inl e)
       | Inr (grant, intent) \<Rightarrow>
           bindP (dbAct (\<lambda>orc. SubmitApprovedWithGrantPlan (ro_env r) (or_io orc) None submission (or_now orc)
                    (planRecordOf (in_Plan intent)) (g_ID grant)))
             (\<lambda>res. Ret (submitted res)))"

definition submitWithAvailableGrant ::
  "('i, 'p, 'a) RuntimeOptions \<Rightarrow> Submission \<Rightarrow> ('i, 'p, 'a) Adapter \<Rightarrow> 'p \<Rightarrow> 'a \<Rightarrow> Request \<Rightarrow> submitResult prog" where
  "submitWithAvailableGrant r submission adapter plan auth core =
     bindP (activeWindowGrant r core) (\<lambda>res.
       case res of
         Inl e \<Rightarrow> Ret (Inl (AuthorizationFailed e))
       | Inr (dec, True) \<Rightarrow> submitActiveGrant r submission adapter plan auth core dec
       | Inr (_, False) \<Rightarrow> submitPending r submission adapter plan auth core)"

definition requiresApproval :: "('i, 'p, 'a) Adapter \<Rightarrow> bool" where
  "requiresApproval adapter = (ap_RequiresApproval adapter = Some True)"

definition directlyAllowed :: "Decision \<Rightarrow> ('i, 'p, 'a) Adapter \<Rightarrow> bool" where
  "directlyAllowed dec adapter = (dec_Allowed dec \<and> dec_MatchedAllowRuleIDs dec \<noteq> [] \<and> \<not> requiresApproval adapter)"

definition submitResolved ::
  "('i, 'p, 'a) RuntimeOptions \<Rightarrow> string \<Rightarrow> SubmitRequest \<Rightarrow> ('i, 'p, 'a) Adapter \<Rightarrow> 'p \<Rightarrow> submitResult prog" where
  "submitResolved r client req adapter plan =
     bindP drawID (\<lambda>newID.
       case newID of
         None \<Rightarrow> Ret (Inl (StoreFailed OpNewID))
       | Some i \<Rightarrow>
           (let (target, arguments) = ro_PlanData r plan;
                submission = \<lparr>su_ID = i, su_Broker = ro_Broker r, su_ClientID = client, su_IdempotencyKey = sr_IdempotencyKey req,
                  su_Operation = sr_Operation req, su_Target = target, su_Arguments = arguments, su_Reason = sr_Reason req,
                  su_Presentation = ap_Present adapter plan, su_PlanDigest = [], su_ApprovalID = []\<rparr>;
                auth = ap_Authorize adapter plan;
                core = ro_Project r auth
            in bindP readClock (\<lambda>now.
                 let dec = ro_Decide r core (askOptions now [])
                 in if directlyAllowed dec adapter then submitDirectGrant r submission adapter plan auth core dec
                    else submitWithAvailableGrant r submission adapter plan auth core)))"

definition decode :: "('i, 'p, 'a) RuntimeOptions \<Rightarrow> SubmitRequest \<Rightarrow> runtimeError + ('i, 'p, 'a) Adapter \<times> 'i" where
  "decode r req =
     (case ro_Registry r (sr_Operation req) of
        None \<Rightarrow> Inl (operationAPIError 400 ''operation_not_registered'' ''Operation is not registered'')
      | Some adapter \<Rightarrow>
          (case ap_Decode adapter (sr_Target req) (sr_Arguments req) of
             Inl message \<Rightarrow> Inl (operationAPIError 400 ''operation_input_invalid'' message)
           | Inr input \<Rightarrow> Inr (adapter, input)))"

definition replayed :: "('i, 'p, 'a) RuntimeOptions \<Rightarrow> string \<Rightarrow> SubmitRequest \<Rightarrow> 'i \<Rightarrow> (runtimeError + Operation option) prog" where
  "replayed r client req input =
     bindP (dbRead (\<lambda>orc. GetByIdempotency (ro_env r) (or_io orc 0) client (sr_IdempotencyKey req))) (\<lambda>res.
       Ret (case res of
              Inl e \<Rightarrow> if e = OpNotFound then Inr None else Inl (StoreFailed e)
            | Inr existing \<Rightarrow>
                (case ro_InputData r input of
                   (target, arguments) \<Rightarrow>
                     if ao_Operation existing \<noteq> sr_Operation req \<or> ao_Reason existing \<noteq> sr_Reason req
                        \<or> \<not> ro_EqualJSONObject r (ao_Target existing) target \<or> \<not> ro_EqualJSONObject r (ao_Arguments existing) arguments
                     then Inl (StoreFailed OpIdempotencyConflict) else Inr (Some existing))))"

text \<open>Admission: the permit is its position in the list of permits.\<close>

definition retrySeconds :: "duration \<Rightarrow> int" where
  "retrySeconds retryAfter = (retryAfter + second - 1) div second"

definition admitError :: "admissionError \<Rightarrow> runtimeError" where
  "admitError e =
     (case e of
        LimitError code retryAfter \<Rightarrow> AdmissionLimited code (retrySeconds retryAfter)
      | _ \<Rightarrow> operationAPIError 503 ''operation_store_unavailable'' ''Could not check operation capacity'')"

definition admit :: "('i, 'p, 'a) RuntimeOptions \<Rightarrow> string \<Rightarrow> (runtimeError + nat option) prog" where
  "admit r client =
     (if \<not> ro_Admission r then Ret (Inr None)
      else atom (\<lambda>orc w.
        let usage = (if or_io orc 0 then Some (OperationUsage (trimSpace client) (fd_Grants (w_gs w)) (w_db w)) else None)
        in case Admit client (or_now orc) usage (w_ctrl w) of
             (c, _, Inl e) \<Rightarrow> (w\<lparr>w_ctrl := c\<rparr>, Inl (admitError e))
           | (c, _, Inr holder) \<Rightarrow>
               (w\<lparr>w_ctrl := c, w_permits := w_permits w @ [\<lparr>pm_client = holder, pm_done = False\<rparr>]\<rparr>, Inr (Some (length (w_permits w))))))"

text \<open>\<^verbatim>\<open>Permit.Release\<close> and \<^verbatim>\<open>Permit.Commit\<close>.\<close>

definition releasePermit :: "nat option \<Rightarrow> unit prog" where
  "releasePermit permit =
     (case permit of
        None \<Rightarrow> Ret ()
      | Some k \<Rightarrow>
          atom (\<lambda>orc w. case release (w_permits w ! k) (w_ctrl w) of
                   (p, c) \<Rightarrow> (w\<lparr>w_ctrl := c, w_permits := (w_permits w)[k := p]\<rparr>, ())))"

definition submitNew ::
  "('i, 'p, 'a) RuntimeOptions \<Rightarrow> string \<Rightarrow> SubmitRequest \<Rightarrow> ('i, 'p, 'a) Adapter \<Rightarrow> 'i \<Rightarrow> submitResult prog" where
  "submitNew r client req adapter input =
     (case (case ap_ValidateClient adapter of None \<Rightarrow> None | Some f \<Rightarrow> f input client (sr_IdempotencyKey req)) of
        Some message \<Rightarrow> Ret (Inl (operationAPIError 400 ''operation_input_invalid'' message))
      | None \<Rightarrow>
          bindP (admit r client) (\<lambda>admitted.
            case admitted of
              Inl e \<Rightarrow> Ret (Inl e)
            | Inr permit \<Rightarrow>
                bindP (atom (\<lambda>orc w. (w, ap_Resolve adapter (or_tick orc) input))) (\<lambda>resolved.
                  bindP (case resolved of
                           Inl e \<Rightarrow> Ret (Inl (ro_MapSubmissionError r e))
                         | Inr plan \<Rightarrow> submitResolved r client req adapter (ro_SetClient r plan client)) (\<lambda>res.
                    bindP (releasePermit permit) (\<lambda>_. Ret res)))))"

definition Submit :: "('i, 'p, 'a) RuntimeOptions \<Rightarrow> string \<Rightarrow> SubmitRequest \<Rightarrow> submitResult prog" where
  "Submit r client req0 =
     (let req = req0\<lparr>sr_IdempotencyKey := trimSpace (sr_IdempotencyKey req0), sr_Reason := trimSpace (sr_Reason req0)\<rparr>
      in case decode r req of
           Inl e \<Rightarrow> Ret (Inl e)
         | Inr (adapter, input) \<Rightarrow>
             bindP (replayed r client req input) (\<lambda>res.
               case res of
                 Inl e \<Rightarrow> Ret (Inl e)
               | Inr (Some existing) \<Rightarrow> Ret (Inr (existing, False))
               | Inr None \<Rightarrow> submitNew r client req adapter input))"

end
