(* ===== verification/GrantUseHistory.thy ===== *)
theory GrantUseHistory
  imports GrantStore
begin

text \<open>
  The records of uses are a history: no operation of the grant store drops a record or gives it to another grant, request or
  operation. \<open>keepsUses\<close> is proved of the pieces of an operation, then of every step of the store.
\<close>

definition useKey :: "GrantUse \<Rightarrow> string \<times> string \<times> string" where
  "useKey u = (u_GrantID u, u_RequestID u, u_Operation u)"

definition keepsUses :: "fileData \<Rightarrow> fileData \<Rightarrow> bool" where
  "keepsUses d d' \<longleftrightarrow> prefix (map useKey (fd_Uses d)) (map useKey (fd_Uses d'))"

lemma keepsUses_refl [simp]: "keepsUses d d"
  by (simp add: keepsUses_def)

lemma keepsUses_trans [trans]: "keepsUses a b \<Longrightarrow> keepsUses b c \<Longrightarrow> keepsUses a c"
  by (auto simp: keepsUses_def)

lemma keepsUses_same: "fd_Uses d' = fd_Uses d \<Longrightarrow> keepsUses d d'"
  by (simp add: keepsUses_def)

lemma keepsUses_key: "keepsUses d d' \<Longrightarrow> u \<in> set (fd_Uses d) \<Longrightarrow> \<exists>u'\<in>set (fd_Uses d'). useKey u' = useKey u"
  unfolding keepsUses_def by (drule set_mono_prefix) force

section \<open>Pieces\<close>

lemma load_same: "load d = Inr d' \<Longrightarrow> d' = d"
  by (auto simp: load_def guardR_def split: option.splits)

lemma expireDue_keeps: "keepsUses d (fst (expireDue now d))"
  by (rule keepsUses_same) (simp add: expireDue_fields)

lemma retainStale_keeps: "keepsUses d (fst (retainStaleReservations opts now d))"
proof -
  have "useKey (if S u then retainUse now u else u) = useKey u" for S :: "GrantUse \<Rightarrow> bool" and u
    by (simp add: useKey_def)
  then show ?thesis
    by (simp add: keepsUses_def retainStaleReservations_def Let_def comp_def)
qed

lemma prepareLifecycle_keeps: "keepsUses d (fst (prepareLifecycle opts ck d))"
  using keepsUses_trans[OF expireDue_keeps retainStale_keeps] by (simp add: prepareLifecycle_def case_prod_beta Let_def)

lemma appendLifecycleEvent_uses [simp]: "fd_Uses (appendLifecycleEvent opts ck kind g p d) = fd_Uses d"
  by (simp add: appendLifecycleEvent_def Let_def)

lemma append_events_uses [simp]: "fd_Uses (fold (\<lambda>kind d. appendLifecycleEvent opts ck kind g p d) kinds d) = fd_Uses d"
  by (induction kinds arbitrary: d) simp_all

lemma reconcileLoop_uses: "fd_Uses (fst (snd (reconcileLoop opts ck before gs d))) = fd_Uses d"
  by (induction gs arbitrary: d) (simp_all add: Let_def case_prod_beta)

lemma reconcileLifecycle_keeps: "keepsUses d (fst (reconcileLifecycle opts ck d before))"
  using reconcileLoop_uses[of opts ck before "fd_Grants d" d]
  by (intro keepsUses_same) (simp add: reconcileLifecycle_def case_prod_beta Let_def)

lemma refreshed_keeps:
  assumes "keepsUses d (fst (prepare d))"
  shows "keepsUses d (fst (refreshed opts ck prepare d))"
  using keepsUses_trans[OF assms reconcileLifecycle_keeps] by (simp add: refreshed_def Let_def case_prod_beta)

text \<open>A mutation that keeps the uses of every state makes an update that does.\<close>

lemma update_keepsUses:
  assumes "\<And>d. keepsUses d (fst (m d))"
  shows "keepsUses stored (fst (updateWithPlan opts ck saves m stored))"
proof (cases "load stored")
  case (Inr d)
  then have d: "d = stored"
    by (rule load_same)
  let ?d1 = "fst (prepareLifecycle opts ck d)"
  let ?d3 = "fst (reconcileLifecycle opts ck (fst (m ?d1)) (grantSnapshots (fd_Grants d)))"
  have "keepsUses d ?d3"
    by (rule keepsUses_trans[OF keepsUses_trans[OF prepareLifecycle_keeps assms] reconcileLifecycle_keeps])
  moreover have "fst (updateWithPlan opts ck saves m stored) \<in> {stored, ?d3}"
    unfolding updateWithPlan_def Inr by (simp add: Let_def split: prod.splits sum.splits)
  ultimately show ?thesis
    using d keepsUses_refl by (metis insertE singletonD)
qed (simp add: updateWithPlan_def)

section \<open>Mutations\<close>

lemma updated_use_keeps:
  assumes "findUseIndex (fd_Uses d) i = Some (k, u)" and "useKey v = useKey u"
  shows "keepsUses d (d\<lparr>fd_Uses := (fd_Uses d)[k := v], fd_Grants := gs\<rparr>)"
proof -
  have "k < length (fd_Uses d)" "fd_Uses d ! k = u"
    using findUseIndex_Some[OF assms(1)] by simp_all
  then have "map useKey ((fd_Uses d)[k := v]) = map useKey (fd_Uses d)"
    using assms(2) by (metis list_update_id map_update nth_map)
  then show ?thesis
    by (simp add: keepsUses_def)
qed

lemma reserveUse_keeps: "keepsUses d (fst (reserveUse now g i operation d))"
proof (cases "findUseIndex (fd_Uses d) i")
  case None
  then show ?thesis
    by (auto simp: reserveUse_def reserveNewUse_def keepsUses_def Let_def split: sum.splits)
next
  case (Some ku)
  obtain k u where ku: "ku = (k, u)"
    by fastforce
  show ?thesis
    using updated_use_keeps[OF Some[unfolded ku]]
    by (auto simp: reserveUse_def reserveExistingUse_def Some ku useKey_def Let_def split: sum.splits)
qed

lemma settleStoredUse_keeps: "keepsUses d (fst (settleStoredUse now g i target d))"
  using updated_use_keeps[of d i]
  by (auto simp: settleStoredUse_def applyUseSettlement_def useKey_def Let_def split: option.splits sum.splits bool.splits)

lemma requestMutation_keeps: "keepsUses d (fst (requestMutation opts ck newID req d))"
  by (rule keepsUses_same) (auto simp: requestMutation_def expireDue_def Let_def split: option.splits)

lemma close_keeps: "keepsUses d (fst (closeMutation ck i client a b d))" "keepsUses d (fst (revokeMutation ck i approver d))"
  by (rule keepsUses_same; auto simp: closeMutation_def revokeMutation_def Let_def split: sum.splits)+

lemma execution_keeps: "keepsUses d (fst (executionMutation opts ck i kind d))"
  by (rule keepsUses_same) (auto simp: executionMutation_def Let_def split: sum.splits)

section \<open>Operations\<close>

lemma stored_or_refreshed:
  "result \<in> {d, fst (refreshed opts ck (expireDue now) d)} \<Longrightarrow> keepsUses d result"
  "result \<in> {d, fst (refreshed opts ck (prepareLifecycle opts ck) d)} \<Longrightarrow> keepsUses d result"
  using refreshed_keeps[where d = d and prepare = "expireDue now", OF expireDue_keeps, of opts ck]
    refreshed_keeps[where d = d and prepare = "prepareLifecycle opts ck", OF prepareLifecycle_keeps, of opts ck] by auto

lemma readers_keep:
  shows "keepsUses d (fst (Get opts ck saves i d))"
    and "keepsUses d (fst (ListGrants opts ck saves d))"
    and "keepsUses d (fst (ActivePolicyGrants opts ck saves d))"
    and "keepsUses d (fst (GetUse opts ck saves i r d))"
    and "keepsUses d (fst (QueryGrants digest encode decodeData opts ck saves query d))"
    and "keepsUses d (fst (reconcileDueLifecycle opts ck saves d))"
proof -
  have unread: "fst (Get opts ck saves i d) = d" "fst (ListGrants opts ck saves d) = d" "fst (ActivePolicyGrants opts ck saves d) = d"
      "fst (GetUse opts ck saves i r d) = d" "fst (QueryGrants digest encode decodeData opts ck saves query d) = d"
      "fst (reconcileDueLifecycle opts ck saves d) = d" if "load d = Inl e" for e
    using that by (simp_all add: Get_def ListGrants_def ActivePolicyGrants_def GetUse_def QueryGrants_def reconcileDueLifecycle_def
        split: sum.splits)
  have loaded: "load d = Inr d" if "load d = Inr d'" for d'
    using that load_same by blast
  note expire = stored_or_refreshed(1) and prep = stored_or_refreshed(2)
  show "keepsUses d (fst (Get opts ck saves i d))"
    by (cases "load d") (simp add: unread, rule expire[OF readers_state(1)[OF loaded]])
  show "keepsUses d (fst (ListGrants opts ck saves d))"
    by (cases "load d") (simp add: unread, rule expire[OF readers_state(2)[OF loaded]])
  show "keepsUses d (fst (ActivePolicyGrants opts ck saves d))"
    by (cases "load d") (simp add: unread, rule expire[OF readers_state(3)[OF loaded]])
  show "keepsUses d (fst (GetUse opts ck saves i r d))"
    by (cases "load d") (simp add: unread, rule prep[OF readers_state(4)[OF loaded]])
  show "keepsUses d (fst (QueryGrants digest encode decodeData opts ck saves query d))"
    by (cases "load d") (simp add: unread, rule prep[OF readers_state(5)[OF loaded]])
  show "keepsUses d (fst (reconcileDueLifecycle opts ck saves d))"
    by (cases "load d") (simp add: unread, rule prep[OF reconcileDueLifecycle_state[OF loaded]])
qed

lemma ListForClient_keeps: "keepsUses d (fst (ListForClient opts ck saves client d))"
  using readers_keep(2)[of d opts ck saves] by (auto simp: ListForClient_def split: prod.splits sum.splits)

lemma request_keeps:
  "keepsUses d (fst (request opts ck ckGet saves savesGet newID req d))"
  "keepsUses d (fst (RequestWithPlan opts ck ckGet saves savesGet sqlite newID req plan d))"
proof -
  show "keepsUses d (fst (request opts ck ckGet saves savesGet newID req d))"
  proof (cases "normalizeGrantRequest opts req")
    case (Inr req')
    obtain d1 r where eq: "updateWithPlan opts ck saves (requestMutation opts ck newID req') d = (d1, r)"
      by fastforce
    have first: "keepsUses d d1"
      using update_keepsUses[of "requestMutation opts ck newID req'" d opts ck saves] requestMutation_keeps eq by simp
    show ?thesis
    proof (cases r)
      case result: (Inr gc)
      then have "fst (request opts ck ckGet saves savesGet newID req d) \<in> {d1, fst (Get opts ckGet savesGet (g_ID (fst gc)) d1)}"
        by (cases gc) (simp add: request_def Inr eq split: prod.splits sum.splits)
      then show ?thesis
        using first keepsUses_trans[OF first readers_keep(1)] by (metis insertE singletonD)
    qed (simp add: request_def Inr eq first)
  qed (simp add: request_def)
  then show "keepsUses d (fst (RequestWithPlan opts ck ckGet saves savesGet sqlite newID req plan d))"
    by (simp add: RequestWithPlan_def split: option.splits)
qed

lemma uses_keep:
  "keepsUses d (fst (ReserveUse opts ck ckGet saves savesGet g i operation d))"
  "keepsUses d (fst (settleUse opts ck ckGet saves savesGet g i target d))"
proof -
  have getting: "keepsUses d result"
    if "keepsUses d (fst u)" "result \<in> {d, fst u, fst (GetUse opts ckGet savesGet g i (fst u))}" for result u
    using that keepsUses_trans[OF that(1) readers_keep(4)] by auto
  have "fst (ReserveUse opts ck ckGet saves savesGet g i operation d)
      \<in> {d, fst (updateWithPlan opts ck saves (reserveUse (ck_mutate ck) g i operation) d),
         fst (GetUse opts ckGet savesGet g i (fst (updateWithPlan opts ck saves (reserveUse (ck_mutate ck) g i operation) d)))}"
    by (simp add: ReserveUse_def split: prod.splits sum.splits)
  then show "keepsUses d (fst (ReserveUse opts ck ckGet saves savesGet g i operation d))"
    by (rule getting[OF update_keepsUses[OF reserveUse_keeps]])
  have "fst (settleUse opts ck ckGet saves savesGet g i target d)
      \<in> {d, fst (updateWithPlan opts ck saves (settleStoredUse (ck_mutate ck) g i target) d),
         fst (GetUse opts ckGet savesGet g i (fst (updateWithPlan opts ck saves (settleStoredUse (ck_mutate ck) g i target) d)))}"
    by (simp add: settleUse_def split: prod.splits sum.splits)
  then show "keepsUses d (fst (settleUse opts ck ckGet saves savesGet g i target d))"
    by (rule getting[OF update_keepsUses[OF settleStoredUse_keeps]])
qed

lemma closing_keeps:
  "keepsUses d (fst (CancelForClient opts ck saves i client d))"
  "keepsUses d (fst (RevokeForClient opts ck saves i client d))"
  "keepsUses d (fst (Revoke opts ck ckGet saves savesGet i approver d))"
  "keepsUses d (fst (RecordExecution opts ck saves i kind d))"
proof -
  show "keepsUses d (fst (CancelForClient opts ck saves i client d))" "keepsUses d (fst (RevokeForClient opts ck saves i client d))"
    by (simp_all add: CancelForClient_def RevokeForClient_def closeForClient_def update_keepsUses close_keeps(1))
  have "keepsUses d (fst (updateWithPlan opts ck saves (revokeMutation ck i approver) d))" (is "keepsUses d (fst ?u)")
    by (rule update_keepsUses) (rule close_keeps(2))
  moreover have "fst (Revoke opts ck ckGet saves savesGet i approver d) \<in> {fst ?u} \<union> (\<lambda>j. fst (Get opts ckGet savesGet j (fst ?u))) ` UNIV"
    by (simp add: Revoke_def split: prod.splits sum.splits)
  ultimately show "keepsUses d (fst (Revoke opts ck ckGet saves savesGet i approver d))"
    using keepsUses_trans[OF _ readers_keep(1)] by auto
  show "keepsUses d (fst (RecordExecution opts ck saves i kind d))"
    by (simp add: RecordExecution_update update_keepsUses execution_keeps)
qed

lemma reconcileOperatorMutation_uses [simp]: "fd_Uses (reconcileOperatorMutation opts ck x before current changed) = fd_Uses x"
  using reconcileLoop_uses[of opts ck _ "fd_Grants x" x]
  by (simp add: reconcileOperatorMutation_def reconcileLifecycle_def case_prod_beta Let_def)

lemma saveDecisionError_keeps: "keepsUses d data \<Longrightarrow> keepsUses d (fst (saveDecisionError saves d data changed err))"
  by (simp add: saveDecisionError_def)

lemma commitOperatorDecision_keeps:
  assumes "keepsUses d data"
  shows "keepsUses d (fst (commitOperatorDecision opts ck saves validate d data before changed index current cmd scope h))"
proof -
  have "keepsUses d (reconcileOperatorMutation opts ck (data\<lparr>fd_Grants := gs\<rparr>) before current changed\<lparr>fd_DecisionRecords := recs\<rparr>)" for gs recs
    using assms by (simp add: keepsUses_def)
  then show ?thesis
    using saveDecisionError_keeps[OF assms] by (simp add: commitOperatorDecision_def case_prod_beta Let_def)
qed

lemma prepared_decision_keeps:
  assumes "keepsUses d data"
  shows "keepsUses d (fst (applyPreparedOperatorDecision opts ck saves hash validate d data before changed cmd))"
  using saveDecisionError_keeps[OF assms] commitOperatorDecision_keeps[OF assms]
  by (simp add: applyPreparedOperatorDecision_def case_prod_beta Let_def split: option.splits)

lemma prepareOperatorDecision_keeps:
  assumes "prepareOperatorDecision opts ck d = Inr (data, before, changed)"
  shows "keepsUses d data"
proof (cases "load d")
  case (Inr d')
  then have "d' = d"
    by (rule load_same)
  then show ?thesis
    using assms Inr prepareLifecycle_keeps[of d opts ck] keepsUses_trans[OF prepareLifecycle_keeps reconcileLifecycle_keeps, of d opts ck]
    by (auto simp: prepareOperatorDecision_def case_prod_beta Let_def)
qed (use assms in \<open>simp add: prepareOperatorDecision_def\<close>)

lemma decision_keeps: "keepsUses d (fst (ApplyOperatorDecision opts ck saves hash validate cmd d))"
  using prepareOperatorDecision_keeps prepared_decision_keeps
  by (fastforce simp: ApplyOperatorDecision_def split: sum.splits prod.splits)

theorem storeStep_keepsUses: "storeStep opts a b \<Longrightarrow> keepsUses (snd a) (snd b)"
  by (induction rule: storeStep.induct)
    (simp_all add: request_keeps uses_keep closing_keeps CommitUse_def ReleaseUse_def RetainUse_def decision_keeps readers_keep
      ListForClient_keeps)

text \<open>What one operation of the store does, invariant and history together.\<close>

definition gsMoves :: "Options \<Rightarrow> gotime \<Rightarrow> fileData \<Rightarrow> fileData \<Rightarrow> bool" where
  "gsMoves opts t d d' \<longleftrightarrow> storeMoves opts t d d' \<and> keepsUses d d'"

lemma gsMoves_refl: "storeInv opts t d \<Longrightarrow> t \<le> t' \<Longrightarrow> gsMoves opts t' d d"
  by (simp add: gsMoves_def storeMoves_refl)

lemma gsMoves_trans: "gsMoves opts t a b \<Longrightarrow> gsMoves opts t' b c \<Longrightarrow> gsMoves opts t' a c"
  by (auto simp: gsMoves_def intro: storeMoves_trans keepsUses_trans)

lemma storeStep_gsMoves: "storeStep opts (t, d) (t', d') \<Longrightarrow> storeInv opts t d \<Longrightarrow> gsMoves opts t' d d'"
  using storeStep_moves[of opts "(t, d)" "(t', d')"] storeStep_keepsUses[of opts "(t, d)" "(t', d')"] by (simp add: gsMoves_def)

section \<open>What a reservation leaves\<close>

lemma GetUse_present:
  assumes "GetUse opts ck saves g i d = (d', Inr res)"
  shows "\<exists>u\<in>set (fd_Uses d'). u_GrantID u = g \<and> u_RequestID u = i"
proof -
  obtain d0 where d0: "load d = Inr d0"
    using assms by (auto simp: GetUse_def split: sum.splits)
  then have load: "load d = Inr d"
    using load_same by blast
  obtain data1 changed where ref: "refreshed opts ck (prepareLifecycle opts ck) d = (data1, changed)"
    by fastforce
  have res: "useReservationFromData data1 g i = Inr res" "d' = (if changed then data1 else d)"
    using assms by (auto simp: GetUse_def load ref split: sum.splits if_splits)
  then obtain u where u: "u \<in> set (fd_Uses data1)" "u_GrantID u = g" "u_RequestID u = i"
    by (auto simp: useReservationFromData_def findUse_def dest!: findUseIndex_Some split: option.splits if_splits)
  have "fd_Uses data1 = fd_Uses d" if "\<not> changed"
    using that ref reconcileLoop_uses[of opts ck "grantSnapshots (fd_Grants d)"]
    by (auto simp: refreshed_def prepareLifecycle_def retainStaleReservations_def reconcileLifecycle_def expireDue_def Let_def list_ex_iff
        case_prod_beta intro!: map_idI)
  then show ?thesis
    using u res(2) by auto
qed

lemma ReserveUse_present:
  assumes "ReserveUse opts ck ckGet saves savesGet g i operation d = (d', Inr res)"
  shows "\<exists>u\<in>set (fd_Uses d'). u_GrantID u = g \<and> u_RequestID u = i"
  using assms GetUse_present by (fastforce simp: ReserveUse_def split: if_splits prod.splits sum.splits)

end
