(* ===== verification/AgentProperties.thy ===== *)
theory AgentProperties
  imports AgentStore
begin

text \<open>
  How an agent operation lives, over every sequence of calls of its store: no row is lost or rewritten, its state changes at most
  three times, and a row whose stored documents outgrew their limits can neither be settled nor be listed past.
\<close>

section \<open>State changes\<close>

definition opRank :: "OpState \<Rightarrow> nat" where
  "opRank s = (case s of StatePending \<Rightarrow> 3 | StateApproved \<Rightarrow> 2 | StateExecuting \<Rightarrow> 1 | _ \<Rightarrow> 0)"

lemma allowed_rank: "allowedTransition s s' \<Longrightarrow> opRank s' < opRank s"
  by (auto simp: allowedTransition_def operationTransitions_def opRank_def split: option.splits if_splits)

lemma allowed_star_rank: "allowedTransition\<^sup>*\<^sup>* s s' \<Longrightarrow> s = s' \<or> opRank s' < opRank s"
  by (induction rule: rtranclp_induct) (auto dest: allowed_rank)

text \<open>A trace lists the databases of a run, the latest first.\<close>

inductive opsTrace :: "AgentEnv \<Rightarrow> gotime \<Rightarrow> AgentDB list \<Rightarrow> bool" for env where
  trace_start: "opsReach env t db \<Longrightarrow> opsTrace env t [db]"
| trace_step: "opsTrace env t (db # dbs) \<Longrightarrow> t \<le> now \<Longrightarrow> opsStep env now db db' \<Longrightarrow> opsTrace env now (db' # db # dbs)"

fun stateChanges :: "string \<Rightarrow> AgentDB list \<Rightarrow> nat" where
  "stateChanges i (new # old # dbs) =
     (if map_option ao_State (OperationByID i new) = map_option ao_State (OperationByID i old) then 0 else 1)
     + stateChanges i (old # dbs)"
| "stateChanges i dbs = 0"

lemma opsTrace_reach: "opsTrace env t dbs \<Longrightarrow> opsReach env t (hd dbs)"
  by (induction rule: opsTrace.induct) (auto intro: reach_step)

lemma OperationByID_unique:
  assumes "opsInv env t db" and "op \<in> set (ad_ops db)"
  shows "OperationByID (ao_ID op) db = Some op"
proof (cases "OperationByID (ao_ID op) db")
  case None
  then show ?thesis
    using assms(2) by (auto simp: OperationByID_def find_None_iff)
next
  case (Some r)
  then show ?thesis
    using assms OperationByID_Some[OF Some] by (auto simp: opsInv_def distinct_map inj_on_def)
qed

text \<open>A row that keeps its identifier and its creation time is the same operation.\<close>

lemma same_operation:
  assumes "opsInv env t db" and "opsMove env now db db'" and "a \<in> set (ad_ops db)" and "b \<in> set (ad_ops db')"
    and "ao_ID a = ao_ID b" and "ao_CreatedAt a = ao_CreatedAt b"
  shows "opFollows a b"
proof -
  have inv': "opsInv env now db'"
    using assms(2) by (simp add: opsMove_def)
  have uniq: "c = b" if "c \<in> set (ad_ops db')" "ao_ID c = ao_ID b" for c
    using OperationByID_unique[OF inv' that(1)] OperationByID_unique[OF inv' assms(4)] that(2) by (metis option.inject)
  have uniq0: "c = a" if "c \<in> set (ad_ops db)" "ao_ID c = ao_ID a" for c
    using OperationByID_unique[OF assms(1) that(1)] OperationByID_unique[OF assms(1,3)] that(2) by (metis option.inject)
  have ev: "opsEvolve now db db'"
    using assms(2) by (simp add: opsMove_def)
  have old: "retired now a \<or> (\<exists>c\<in>set (ad_ops db'). opFollows a c)"
    using ev assms(3) unfolding opsEvolve_def by (elim conjE) (erule (1) bspec)
  have new: "freshOp now b \<or> (\<exists>c\<in>set (ad_ops db). opFollows c b)"
    using ev assms(4) unfolding opsEvolve_def by (elim conjE) (erule (1) bspec)
  consider "freshOp now b" "retired now a" | c where "c \<in> set (ad_ops db')" "opFollows a c" | c where "c \<in> set (ad_ops db)" "opFollows c b"
    using old new by blast
  then show ?thesis
  proof cases
    case 1
    then have "ao_CreatedAt a \<le> ao_UpdatedAt a" "ao_UpdatedAt a < ao_CreatedAt a - TerminalRetention"
      using assms(1,3,6) by (auto simp: opsInv_def opSound_def validStoredIdentity_def freshOp_def retired_def)
    then show ?thesis
      by (simp add: TerminalRetention_def day_def second_def)
  next
    case 2
    then show ?thesis
      using uniq[OF 2(1)] assms(5) by (simp add: opFollows_def fixedPart_def)
  next
    case 3
    then show ?thesis
      using uniq0[OF 3(1)] assms(5) by (simp add: opFollows_def fixedPart_def)
  qed
qed

lemma changes_bounded:
  assumes "opsTrace env t dbs" and "envOK env" and "\<forall>db\<in>set dbs. \<exists>op\<in>set (ad_ops db). ao_ID op = i \<and> ao_CreatedAt op = c"
  shows "\<forall>op. OperationByID i (hd dbs) = Some op \<longrightarrow> stateChanges i dbs + opRank (ao_State op) \<le> 3"
  using assms(1,3)
proof (induction rule: opsTrace.induct)
  case (trace_start t db)
  then show ?case
    by (auto simp: opRank_def split: OpState.splits)
next
  case (trace_step t db dbs now db')
  have inv: "opsInv env t db"
    using opsTrace_reach[OF trace_step.hyps(1)] opsReach_inv assms(2) by simp
  note move = opsStep_moves[OF trace_step.hyps(3) inv trace_step.hyps(2) assms(2)]
  obtain a b where ab: "a \<in> set (ad_ops db)" "b \<in> set (ad_ops db')" "ao_ID a = i" "ao_ID b = i" "ao_CreatedAt a = c" "ao_CreatedAt b = c"
    using trace_step.prems by auto
  have "allowedTransition\<^sup>*\<^sup>* (ao_State a) (ao_State b)"
    using same_operation[OF inv move ab(1,2)] ab(3-6) by (simp add: opFollows_def)
  then have rank: "ao_State a = ao_State b \<or> opRank (ao_State b) < opRank (ao_State a)"
    by (rule allowed_star_rank)
  have "OperationByID i db = Some a" "OperationByID i db' = Some b"
    using OperationByID_unique[OF inv ab(1)] OperationByID_unique[of env now db' b] move ab by (auto simp: opsMove_def)
  moreover have "stateChanges i (db # dbs) + opRank (ao_State a) \<le> 3"
    using trace_step.IH trace_step.prems calculation(1) by simp
  ultimately show ?case
    using rank by auto
qed

section \<open>Oversized rows\<close>

lemma set_insertOp [simp]: "set (insertOp le x ys) = insert x (set ys)"
  by (induction ys) auto

lemma set_orderOps [simp]: "set (orderOps le xs) = set xs"
  by (induction xs) (auto simp: orderOps_def)

lemma traverseR_all: "traverseR f xs = Inr ys \<Longrightarrow> x \<in> set xs \<Longrightarrow> \<exists>y. f x = Inr y"
  by (auto simp: traverseR_Inr list_all2_conv_all_nth in_set_conv_nth)

lemma ListUnfinished_Inr:
  assumes "ListUnfinished env ok db = Inr ops" and "op \<in> set (ad_ops db)" and "\<not> Terminal (ao_State op)"
  shows "opSized op"
proof -
  have "traverseR (operationFromRecord env) (UnfinishedOperations db) = Inr ops"
    using assms(1) by (simp add: ListUnfinished_def split: if_splits)
  moreover have "op \<in> set (UnfinishedOperations db)"
    using assms(2,3) by (simp add: UnfinishedOperations_def)
  ultimately show ?thesis
    using traverseR_all by (fastforce simp: operationFromRecord_Inr)
qed

section \<open>A concrete service\<close>

text \<open>
  JSON as far as the examples need it: an object is written back with \<^verbatim>\<open><\<close>, \<^verbatim>\<open>>\<close> and \<^verbatim>\<open>&\<close> escaped, as the encoder does, and the column
  check counts characters, not bytes.
\<close>

definition escapeHTML :: "char \<Rightarrow> string" where
  "escapeHTML c =
     (if c = CHR ''<'' then CHR 0x5C # ''u003c'' else if c = CHR ''>'' then CHR 0x5C # ''u003e''
      else if c = CHR ''&'' then CHR 0x5C # ''u0026'' else [c])"

definition demoObject :: "string \<Rightarrow> string option" where
  "demoObject s = (if prefix ''{'' s \<and> suffix ''}'' s then Some (concat (map escapeHTML s)) else None)"

definition characters :: "string \<Rightarrow> nat" where
  "characters s = length (filter (\<lambda>c. byte c < 128 \<or> 192 \<le> byte c) s)"

definition demoEnv :: AgentEnv where
  "demoEnv = \<lparr>ae_object = demoObject, ae_compact = Some, ae_digest = (\<lambda>_. []), ae_fits = (\<lambda>op. characters (ao_Target op) \<le> maxTargetBytes)\<rparr>"

definition demoSubmission :: "string \<Rightarrow> Submission" where
  "demoSubmission target =
     \<lparr>su_ID = ''op_00001'', su_Broker = ''github'', su_ClientID = ''agent'', su_IdempotencyKey = ''key'', su_Operation = ''issue.create'',
      su_Target = target, su_Arguments = ''{}'', su_Reason = [], su_Presentation = \<lparr>pres_Title = ''Title'', pres_Summary = []\<rparr>,
      su_PlanDigest = [], su_ApprovalID = []\<rparr>"

definition demoDB :: "string \<Rightarrow> AgentDB" where
  "demoDB target = fst (SubmitPending demoEnv (\<lambda>_. True) None (demoSubmission target) 10 emptyDB)"

text \<open>15,608 bytes, 18,608 once written.\<close>

definition wideTarget :: string where
  "wideTarget = [CHR ''{'', CHR 0x22, CHR ''a'', CHR 0x22, CHR '':'', CHR 0x22] @ concat (replicate 5000 [CHR 0xE2, CHR 0x82, CHR 0xAC]) @ replicate 600 CHR ''<'' @ [CHR 0x22, CHR ''}'']"

lemma escapeHTML_twice: "concat (map escapeHTML (concat (map escapeHTML s))) = concat (map escapeHTML s)"
  by (induction s) (auto simp: escapeHTML_def)

lemma demoEnv_ok: "envOK demoEnv"
proof -
  have pre: "prefix ''{'' (concat (map escapeHTML s))" if "prefix ''{'' s" for s
    using that by (auto simp: prefix_def escapeHTML_def)
  have suf: "suffix ''}'' (concat (map escapeHTML s))" if "suffix ''}'' s" for s
    using that by (auto simp: suffix_def escapeHTML_def)
  have "c \<noteq> [] \<and> demoObject c = Some c" if "demoObject s = Some c" for s c
  proof -
    have c: "c = concat (map escapeHTML s)" and s: "prefix ''{'' s" "suffix ''}'' s"
      using that by (simp_all add: demoObject_def split: if_splits)
    have "c \<noteq> []"
      using pre[OF s(1)] unfolding c by (auto simp del: concat_eq_Nil_conv)
    then show ?thesis
      using pre[OF s(1)] suf[OF s(2)] unfolding c demoObject_def escapeHTML_twice by simp
  qed
  then show ?thesis
    by (simp add: envOK_def demoEnv_def)
qed

lemma demo_trim: "trimSubmission (demoSubmission target) = demoSubmission target"
proof -
  have "trimSpace ''op_00001'' = ''op_00001''" "trimSpace ''github'' = ''github''" "trimSpace ''agent'' = ''agent''"
    "trimSpace ''key'' = ''key''" "trimSpace ''issue.create'' = ''issue.create''" "trimSpace ''Title'' = ''Title''" "trimSpace [] = []"
    by code_simp+
  then show ?thesis
    by (simp add: trimSubmission_def demoSubmission_def)
qed

lemma demo_fields:
  "su_ID (demoSubmission target) = ''op_00001''" "su_Target (demoSubmission target) = target" "su_Arguments (demoSubmission target) = ''{}''"
  "su_PlanDigest (demoSubmission target) = []"
  by (simp_all add: demoSubmission_def)

lemma demoDB_row:
  assumes "length target \<le> maxTargetBytes" and "demoObject target = Some doc" and "characters doc \<le> maxTargetBytes"
  shows "ad_ops (demoDB target) = [newOperation ''op_00001'' 10 StatePending ((demoSubmission target)\<lparr>su_Target := doc\<rparr>)]"
proof -
  have "validSubmitIdentity (demoSubmission target)" "validSubmitPresentation (demoSubmission target)"
    by (simp_all add: validSubmitIdentity_def validSubmitPresentation_def demoSubmission_def validOperationID_def validRequiredValue_def
        ValidIdempotencyKey_def keyChar_def keyStart_def isDigit_def byte_def containsAny_def)
  moreover have "target \<noteq> []"
    using assms(2) by (auto simp: demoObject_def split: if_splits)
  moreover have "demoObject ''{}'' = Some ''{}''"
    by code_simp
  ultimately have "normalizeSubmit demoEnv (demoSubmission target) = Inr ((demoSubmission target)\<lparr>su_Target := doc\<rparr>)"
    using assms by (simp add: normalizeSubmit_def demo_trim Let_def normalizeObjectLimit_def demo_fields demoEnv_def maxArgumentsBytes_def)
  then show ?thesis
    using assms(3)
    by (simp add: demoDB_def SubmitPending_def submit_def submitLocked_def DeleteTerminalOperationsBefore_def emptyDB_def findSubmission_def
        OperationByIdempotency_def createOperation_def CountOperations_def maxOperations_def demo_fields InsertOperation_def
        rowAccepted_def newOperation_def demoEnv_def Let_def)
qed

lemma demoDB_reach: "opsReach demoEnv 10 (demoDB target)"
  unfolding demoDB_def
  by (rule reach_step[OF reach_empty[of 10]]) (auto intro: step_submit simp: newIDOK_def)

lemma demo_small: "ad_ops (demoDB ''{}'') = [newOperation ''op_00001'' 10 StatePending (demoSubmission ''{}'')]"
proof -
  have "demoObject ''{}'' = Some ''{}''"
    by code_simp
  then show ?thesis
    using demoDB_row[of "''{}''" "''{}''"] by (simp add: maxTargetBytes_def characters_def demoSubmission_def)
qed

lemma concat_map_concat: "concat (map f (concat xss)) = concat (map (\<lambda>xs. concat (map f xs)) xss)"
  by (induction xss) auto

lemma wide_doc:
  defines "raw n m \<equiv> [CHR ''{'', CHR 0x22, CHR ''a'', CHR 0x22, CHR '':'', CHR 0x22] @ concat (replicate n [CHR 0xE2, CHR 0x82, CHR 0xAC]) @ replicate m CHR ''<'' @ [CHR 0x22, CHR ''}'']"
  obtains doc where "demoObject (raw n m) = Some doc" "length (raw n m) = 3 * n + m + 8" "length doc = 3 * n + 6 * m + 8"
    "characters doc = n + 6 * m + 8"
proof -
  let ?doc = "[CHR ''{'', CHR 0x22, CHR ''a'', CHR 0x22, CHR '':'', CHR 0x22] @ concat (replicate n [CHR 0xE2, CHR 0x82, CHR 0xAC]) @ concat (replicate m (CHR 0x5C # ''u003c'')) @ [CHR 0x22, CHR ''}'']"
  have "demoObject (raw n m) = Some ?doc"
    by (simp add: demoObject_def raw_def suffix_def concat_map_concat escapeHTML_def)
  then show thesis
    by (rule that) (simp_all add: raw_def characters_def filter_concat length_concat sum_list_replicate byte_def)
qed

lemma wide_row:
  obtains op where "op \<in> set (ad_ops (demoDB wideTarget))" "ao_State op = StatePending" "\<not> opSized op"
proof -
  obtain doc where obj: "demoObject wideTarget = Some doc" and len: "length wideTarget = 15608" "length doc = 18608" "characters doc = 8608"
    by (rule wide_doc[of 5000 600, folded wideTarget_def]) simp
  then have "ad_ops (demoDB wideTarget) = [newOperation ''op_00001'' 10 StatePending ((demoSubmission wideTarget)\<lparr>su_Target := doc\<rparr>)]"
    using demoDB_row[OF _ obj] by (simp add: maxTargetBytes_def)
  then show thesis
    using len(2) by (intro that) (auto simp: opSized_def newOperation_def maxTargetBytes_def)
qed

section \<open>Properties\<close>

text \<open>
  C21. Over every sequence of calls of the operation store, with any statement of any call failing, an operation that was stored
  is never lost and never rewritten: what is found later is the same request (client, key, target, arguments, reason), in a state
  the transition table allows, with a larger revision if anything changed, the plan it was bound to and, once terminal, unchanged.
  Only an operation that has been terminal for longer than the retention time is gone.
\<close>

theorem operation_history:
  assumes "opsReach env t db" and "envOK env" and "opsRun env t db t' db'" and "op \<in> set (ad_ops db)"
  shows "\<exists>op'. opFollows op op' \<and> (op' \<in> set (ad_ops db') \<or> retired t' op')"
  by (rule run_follows[OF assms(3) opsReach_inv[OF assms(1,2)] assms(2,4)])

theorem operation_history_witness:
  "\<exists>op'. opFollows (newOperation ''op_00001'' 10 StatePending (demoSubmission ''{}'')) op'
     \<and> (op' \<in> set (ad_ops (fst (CancelOperation demoEnv (\<lambda>_. True) 11 ''agent'' ''op_00001'' (demoDB ''{}'')))) \<or> retired 11 op')"
proof (rule operation_history[OF demoDB_reach demoEnv_ok])
  show "opsRun demoEnv 10 (demoDB ''{}'') 11 (fst (CancelOperation demoEnv (\<lambda>_. True) 11 ''agent'' ''op_00001'' (demoDB ''{}'')))"
    by (rule run_step[OF run_start]) (auto intro: step_cancel)
qed (simp add: demo_small)

text \<open>
  C26. An operation settles: whatever is called on the store, and in whatever order, the state of one operation changes at most
  three times, so no sequence of calls keeps it moving.
\<close>

theorem operation_settles:
  assumes "opsTrace env t dbs" and "envOK env" and "\<forall>db\<in>set dbs. \<exists>op\<in>set (ad_ops db). ao_ID op = i \<and> ao_CreatedAt op = c"
  shows "stateChanges i dbs \<le> 3"
proof -
  have inv: "opsInv env t (hd dbs)"
    by (rule opsReach_inv[OF opsTrace_reach[OF assms(1)] assms(2)])
  have "dbs \<noteq> []"
    using assms(1) by (auto elim: opsTrace.cases)
  then obtain op where "op \<in> set (ad_ops (hd dbs))" "ao_ID op = i"
    using assms(3) by (cases dbs) auto
  then show ?thesis
    using OperationByID_unique[OF inv] changes_bounded[OF assms] by fastforce
qed

theorem operation_settles_witness: "stateChanges ''op_00001'' [demoDB ''{}''] \<le> 3"
proof (rule operation_settles[OF trace_start[OF demoDB_reach] demoEnv_ok])
  show "\<forall>db\<in>set [demoDB ''{}'']. \<exists>op\<in>set (ad_ops db). ao_ID op = ''op_00001'' \<and> ao_CreatedAt op = 10"
    by (simp add: demo_small newOperation_def)
qed

text \<open>
  C27. An unfinished row whose stored document is longer than its limit is stuck, and stops the service for everyone: no later call
  changes or removes it, and listing the unfinished operations, with which every pass of the workers and every restart begins,
  fails for good. The limit is checked on the submitted text and not on the text that is stored, which the encoder lengthens, so
  such a row can be created.
\<close>

theorem oversized_row_blocks_workers:
  assumes "opsReach env t db" and "envOK env" and "op \<in> set (ad_ops db)" and "\<not> Terminal (ao_State op)" and "\<not> opSized op"
    and "opsRun env t db t' db'"
  shows "op \<in> set (ad_ops db') \<and> (\<forall>ok. isl (ListUnfinished env ok db'))"
proof -
  have inv: "opsInv env t db"
    by (rule opsReach_inv[OF assms(1,2)])
  obtain op' where "opFollows op op'" "op' \<in> set (ad_ops db') \<or> retired t' op'"
    using run_follows[OF assms(6) inv assms(2,3)] by blast
  moreover have "\<not> retired t' op"
    using inv assms(3,4) by (auto simp: opsInv_def opSound_def validStoredTerminal_def retired_def)
  ultimately have "op \<in> set (ad_ops db')"
    using assms(5) by (auto simp: opFollows_def)
  moreover have "isl (ListUnfinished env ok db')" for ok
    using ListUnfinished_Inr[OF _ calculation assms(4)] assms(5) by (cases "ListUnfinished env ok db'") auto
  ultimately show ?thesis
    by blast
qed

theorem oversized_row_blocks_workers_witness:
  "\<exists>op. op \<in> set (ad_ops (demoDB wideTarget)) \<and> (\<forall>ok. isl (ListUnfinished demoEnv ok (demoDB wideTarget)))"
proof -
  obtain op where op: "op \<in> set (ad_ops (demoDB wideTarget))" "ao_State op = StatePending" "\<not> opSized op"
    by (rule wide_row)
  have "op \<in> set (ad_ops (demoDB wideTarget)) \<and> (\<forall>ok. isl (ListUnfinished demoEnv ok (demoDB wideTarget)))"
    by (rule oversized_row_blocks_workers[OF demoDB_reach demoEnv_ok op(1) _ op(3) run_start]) (simp add: op(2))
  then show ?thesis
    by blast
qed

end
