(* ===== verification/RuntimeSafety.thy ===== *)
theory RuntimeSafety
  imports OperationRuntime GrantUseHistory AgentProperties
begin

text \<open>
  A discipline for the programs of the runtime. A thread owns tokens: identifiers it has drawn and not yet stored, operations it
  has claimed and not yet executed, uses it has seen recorded. \<open>safe r \<gamma> p Q\<close> says that the program \<open>p\<close>, started with the tokens \<open>\<gamma>\<close>
  and run one action at a time on whatever worlds the other threads leave it, stores only identifiers it owns, executes only what
  it has claimed and seen reserved, and ends with \<open>Q\<close>. It is proved once per action and composed along the code.
\<close>

section \<open>Worlds\<close>

definition rowIDs :: "AgentDB \<Rightarrow> string set" where
  "rowIDs db = ao_ID ` set (ad_ops db)"

definition waiting :: "AgentDB \<Rightarrow> string \<Rightarrow> bool" where
  "waiting db i \<longleftrightarrow> (\<exists>op\<in>set (ad_ops db). ao_ID op = i \<and> ao_State op \<in> {StatePending, StateApproved})"

definition executing :: "AgentDB \<Rightarrow> string \<Rightarrow> bool" where
  "executing db i \<longleftrightarrow> (\<exists>op\<in>set (ad_ops db). ao_ID op = i \<and> ao_State op = StateExecuting)"

definition recordedUses :: "fileData \<Rightarrow> (string \<times> string) set" where
  "recordedUses d = (\<lambda>u. (u_GrantID u, u_RequestID u)) ` set (fd_Uses d)"

lemma recordedUses_kept: "keepsUses d d' \<Longrightarrow> recordedUses d \<subseteq> recordedUses d'"
  unfolding keepsUses_def recordedUses_def by (drule set_mono_prefix) (force simp: useKey_def)

definition worldInv :: "('i, 'p, 'a) RuntimeOptions \<Rightarrow> gotime \<Rightarrow> World \<Rightarrow> bool" where
  "worldInv r t w \<longleftrightarrow>
     opsInv (ro_env r) t (w_db w) \<and> storeInv (ro_Grants r) t (w_gs w) \<and> rowIDs (w_db w) \<subseteq> set (w_ids w)"

definition idOK :: "string \<Rightarrow> bool" where
  "idOK i \<longleftrightarrow> validOperationID i \<and> trimSpace i = i"

text \<open>What the surroundings may supply to an action between \<open>t\<close> and \<open>t'\<close>.\<close>

definition oracleIn :: "gotime \<Rightarrow> gotime \<Rightarrow> Oracle \<Rightarrow> World \<Rightarrow> bool" where
  "oracleIn t t' orc w \<longleftrightarrow>
     t \<le> or_now orc \<and> or_now orc \<le> t'
     \<and> (\<exists>t1. clockIn t t1 (or_ck orc) \<and> clockIn t1 t' (or_ckGet orc))
     \<and> callIn t t' (or_auth orc) (w_gs w)
     \<and> (\<exists>ts. clockIn t (ts 0) (au_read (or_auth orc)) \<and> (\<forall>k. clockIn (ts k) (ts (Suc k)) (fst (or_gets orc k)) \<and> ts k \<le> t'))
     \<and> (\<forall>i. or_newID orc = Some i \<longrightarrow> idOK i \<and> i \<notin> set (w_ids w))"

section \<open>Tokens\<close>

record Tokens =
  tk_ids :: "string set"
  tk_claims :: "string set"
  tk_uses :: "(string \<times> string) set"

definition holds :: "Tokens \<Rightarrow> Tokens \<Rightarrow> bool" where
  "holds \<gamma> \<gamma>' \<longleftrightarrow> tk_ids \<gamma> \<subseteq> tk_ids \<gamma>' \<and> tk_claims \<gamma> \<subseteq> tk_claims \<gamma>' \<and> tk_uses \<gamma> \<subseteq> tk_uses \<gamma>'"

lemma holds_refl [simp]: "holds \<gamma> \<gamma>"
  by (simp add: holds_def)

lemma holds_trans: "holds a b \<Longrightarrow> holds b c \<Longrightarrow> holds a c"
  by (auto simp: holds_def)

text \<open>The executions an action starts, and the tokens a thread has after it.\<close>

definition started :: "World \<Rightarrow> World \<Rightarrow> Operation list" where
  "started w w' = drop (length (w_log w)) (w_log w')"

definition tokensAfter :: "Tokens \<Rightarrow> World \<Rightarrow> World \<Rightarrow> Tokens" where
  "tokensAfter \<gamma> w w' =
     \<lparr>tk_ids = (tk_ids \<gamma> \<union> (set (w_ids w') - set (w_ids w))) - (rowIDs (w_db w') - rowIDs (w_db w)),
      tk_claims = (tk_claims \<gamma> \<union> {i. waiting (w_db w) i \<and> executing (w_db w') i}) - ao_ID ` set (started w w'),
      tk_uses = recordedUses (w_gs w')\<rparr>"

definition mayRun :: "Tokens \<Rightarrow> Operation \<Rightarrow> bool" where
  "mayRun \<gamma> op \<longleftrightarrow> ao_ID op \<in> tk_claims \<gamma> \<and> (ao_ApprovalID op \<noteq> [] \<longrightarrow> (ao_ApprovalID op, ao_ID op) \<in> tk_uses \<gamma>)"

definition good :: "Tokens \<Rightarrow> World \<Rightarrow> World \<Rightarrow> bool" where
  "good \<gamma> w w' \<longleftrightarrow>
     rowIDs (w_db w') - rowIDs (w_db w) \<subseteq> tk_ids \<gamma>
     \<and> (\<forall>i\<in>rowIDs (w_db w). waiting (w_db w') i \<longrightarrow> waiting (w_db w) i)
     \<and> (w_log w' = w_log w \<or> (\<exists>op. w_log w' = w_log w @ [op] \<and> mayRun \<gamma> op))
     \<and> (w_ids w' = w_ids w \<or> (\<exists>i. w_ids w' = i # w_ids w \<and> idOK i \<and> i \<notin> set (w_ids w)))"

definition worldMoves :: "('i, 'p, 'a) RuntimeOptions \<Rightarrow> gotime \<Rightarrow> World \<Rightarrow> World \<Rightarrow> bool" where
  "worldMoves r t' w w' \<longleftrightarrow> opsInv (ro_env r) t' (w_db w') \<and> gsMoves (ro_Grants r) t' (w_gs w) (w_gs w')"

definition fits :: "('i, 'p, 'a) RuntimeOptions \<Rightarrow> gotime \<Rightarrow> gotime \<Rightarrow> Tokens \<Rightarrow> Oracle \<Rightarrow> World \<Rightarrow> bool" where
  "fits r t t' \<gamma> orc w \<longleftrightarrow>
     worldInv r t w \<and> oracleIn t t' orc w \<and> tk_ids \<gamma> \<inter> rowIDs (w_db w) = {} \<and> (\<forall>i\<in>tk_ids \<gamma>. idOK i)
     \<and> tk_uses \<gamma> \<subseteq> recordedUses (w_gs w)"

section \<open>Safe programs\<close>

inductive safe :: "('i, 'p, 'a) RuntimeOptions \<Rightarrow> Tokens \<Rightarrow> 'b prog \<Rightarrow> ('b \<Rightarrow> Tokens \<Rightarrow> bool) \<Rightarrow> bool" for r where
  safe_Ret: "Q x \<gamma> \<Longrightarrow> safe r \<gamma> (Ret x) Q"
| safe_Act: "(\<And>t t' orc w w' p. fits r t t' \<gamma> orc w \<Longrightarrow> f orc w = (w', p) \<Longrightarrow>
      good \<gamma> w w' \<and> worldMoves r t' w w' \<and> safe r (tokensAfter \<gamma> w w') p Q) \<Longrightarrow> safe r \<gamma> (Act f) Q"

inductive_cases safe_Ret_elim: "safe r \<gamma> (Ret x) Q"
inductive_cases safe_Act_elim: "safe r \<gamma> (Act f) Q"

lemma safe_mono: "safe r \<gamma> p Q \<Longrightarrow> (\<And>x \<gamma>'. Q x \<gamma>' \<Longrightarrow> Q' x \<gamma>') \<Longrightarrow> safe r \<gamma> p Q'"
  by (induction rule: safe.induct) (auto intro: safe.intros)

lemma safe_bind:
  assumes "safe r \<gamma> p (\<lambda>x \<gamma>'. safe r \<gamma>' (k x) Q)"
  shows "safe r \<gamma> (bindP p k) Q"
  using assms
proof (induction \<gamma> p "\<lambda>x \<gamma>'. safe r \<gamma>' (k x) Q" rule: safe.induct)
  case (safe_Act \<gamma> f)
  show ?case
    unfolding bindP.simps
  proof (rule safe.safe_Act)
    fix t t' orc w w' p
    assume "fits r t t' \<gamma> orc w" and "map_prod id (\<lambda>p. bindP p k) (f orc w) = (w', p)"
    then show "good \<gamma> w w' \<and> worldMoves r t' w w' \<and> safe r (tokensAfter \<gamma> w w') p Q"
      using safe_Act[of t t' orc w "fst (f orc w)" "snd (f orc w)"] by (cases "f orc w") auto
  qed
qed simp

lemma safe_atom:
  fixes f :: "Oracle \<Rightarrow> World \<Rightarrow> World \<times> 'b"
  assumes "\<And>t t' orc w w' x. fits r t t' \<gamma> orc w \<Longrightarrow> f orc w = (w', x) \<Longrightarrow>
    good \<gamma> w w' \<and> worldMoves r t' w w' \<and> Q x (tokensAfter \<gamma> w w')"
  shows "safe r \<gamma> (atom f) Q"
  unfolding atom_def
proof (rule safe_Act)
  fix t t' orc w w' and p :: "'b prog"
  assume "fits r t t' \<gamma> orc w" and "map_prod id Ret (f orc w) = (w', p)"
  then show "good \<gamma> w w' \<and> worldMoves r t' w w' \<and> safe r (tokensAfter \<gamma> w w') p Q"
    using assms[of t t' orc w "fst (f orc w)" "snd (f orc w)"] by (cases "f orc w") (auto intro: safe_Ret)
qed

text \<open>A quiet program needs no tokens and loses none.\<close>

definition quiet :: "('i, 'p, 'a) RuntimeOptions \<Rightarrow> 'b prog \<Rightarrow> bool" where
  "quiet r p \<longleftrightarrow> (\<forall>\<gamma>. safe r \<gamma> p (\<lambda>_ \<gamma>'. holds \<gamma> \<gamma>'))"

lemma quiet_Ret [intro, simp]: "quiet r (Ret x)"
  by (simp add: quiet_def safe_Ret)

lemma safe_quiet: "quiet r p \<Longrightarrow> safe r \<gamma> p (\<lambda>_ \<gamma>'. holds \<gamma> \<gamma>')"
  by (simp add: quiet_def)

lemma safe_after_quiet:
  assumes "quiet r p" and "\<And>x \<gamma>'. holds \<gamma> \<gamma>' \<Longrightarrow> safe r \<gamma>' (k x) Q"
  shows "safe r \<gamma> (bindP p k) Q"
  by (rule safe_bind, rule safe_mono[OF safe_quiet[OF assms(1)]], rule assms(2))

lemma quiet_bind [intro]:
  assumes "quiet r p" and "\<And>x. quiet r (k x)"
  shows "quiet r (bindP p k)"
  unfolding quiet_def
proof
  fix \<gamma>
  show "safe r \<gamma> (bindP p k) (\<lambda>_ \<gamma>'. holds \<gamma> \<gamma>')"
    by (rule safe_after_quiet[OF assms(1)], rule safe_mono[OF safe_quiet[OF assms(2)]], rule holds_trans)
qed

section \<open>Quiet actions\<close>

definition dbMoves :: "AgentEnv \<Rightarrow> gotime \<Rightarrow> AgentDB \<Rightarrow> AgentDB \<Rightarrow> bool" where
  "dbMoves env t' db db' \<longleftrightarrow> opsInv env t' db' \<and> rowIDs db' \<subseteq> rowIDs db \<and> (\<forall>i. waiting db' i \<longrightarrow> waiting db i)"

lemma dbMoves_refl: "opsInv env t db \<Longrightarrow> t \<le> t' \<Longrightarrow> dbMoves env t' db db"
  by (simp add: dbMoves_def opsInv_later)

lemma dbMoves_later: "dbMoves env t db db' \<Longrightarrow> t \<le> t' \<Longrightarrow> dbMoves env t' db db'"
  by (auto simp: dbMoves_def intro: opsInv_later)

lemma waiting_before:
  assumes "allowedTransition\<^sup>*\<^sup>* s s'" and "s' \<in> {StatePending, StateApproved}"
  shows "s \<in> {StatePending, StateApproved}"
  using allowed_star_rank[OF assms(1)] assms(2) by (auto simp: opRank_def split: OpState.splits)

lemma replaceOp_dbMoves:
  assumes "row \<in> set (ad_ops db)" and "opFollows row op" and "ad_ops db' = ad_ops (replaceOp op db)" and "opsInv env t' db'"
  shows "dbMoves env t' db db'"
proof -
  have "ao_ID op = ao_ID row"
    using assms(2) by (simp add: opFollows_def fixedPart_def)
  have "map ao_ID (ad_ops db') = map ao_ID (ad_ops db)"
    using assms(3) by (simp add: replaceOp_def)
  then have "rowIDs db' = rowIDs db"
    unfolding rowIDs_def by (metis list.set_map)
  moreover have "waiting db i" if w: "waiting db' i" for i
  proof -
    obtain r where r: "r \<in> set (ad_ops db)" "ao_ID (if ao_ID r = ao_ID op then op else r) = i"
      "ao_State (if ao_ID r = ao_ID op then op else r) \<in> {StatePending, StateApproved}"
      using w assms(3) by (auto simp: waiting_def replaceOp_def)
    show ?thesis
    proof (cases "ao_ID r = ao_ID op")
      case True
      then have "ao_State row \<in> {StatePending, StateApproved}"
        using r(3) assms(2) waiting_before by (auto simp: opFollows_def)
      then show ?thesis
        using True r(2) assms(1) \<open>ao_ID op = ao_ID row\<close> by (auto simp: waiting_def)
    next
      case False
      then show ?thesis
        using r by (auto simp: waiting_def)
    qed
  qed
  ultimately show ?thesis
    using assms(4) by (simp add: dbMoves_def)
qed

lemma change_dbMoves:
  assumes "(db' = db \<and> A) \<or> (\<exists>row op1. row \<in> set (ad_ops db) \<and> ao_ID row = i \<and> change row = Inr op1 \<and> opSound env row
        \<and> db' = replaceOp (prepareOperationUpdate now op1) db \<and> res = Inr (prepareOperationUpdate now op1)
        \<and> opFollows row (prepareOperationUpdate now op1) \<and> opsMove env now db db')"
    and "opsInv env t db" and "t \<le> now"
  shows "dbMoves env now db db'"
  using assms(1)
proof (elim disjE conjE exE)
  assume "db' = db"
  then show ?thesis
    using dbMoves_refl[OF assms(2,3)] by simp
next
  fix row op1
  assume row: "row \<in> set (ad_ops db)" "opFollows row (prepareOperationUpdate now op1)"
    "db' = replaceOp (prepareOperationUpdate now op1) db" "opsMove env now db db'"
  show ?thesis
    by (rule replaceOp_dbMoves[OF row(1,2)]) (use row(3,4) in \<open>simp_all add: opsMove_def\<close>)
qed

lemma updates_dbMove:
  assumes "opsInv env t db" and "t \<le> now"
  shows "dbMoves env now db (fst (CancelOperation env io now client i db))"
    and "dbMoves env now db (fst (Transition env io now i state db))"
    and "dbMoves env now db (fst (Fail env io now i state e db))"
    and "dbMoves env now db (fst (BindPlan env io now i plan approval direct db))"
proof -
  show "dbMoves env now db (fst (CancelOperation env io now client i db))"
    unfolding CancelOperation_def by (rule change_dbMoves[OF canceling.update_spec[OF assms TrueI prod.collapse[symmetric]] assms])
  show "dbMoves env now db (fst (Transition env io now i state db))"
    unfolding Transition_def by (rule change_dbMoves[OF transitioning.update_spec[OF assms TrueI prod.collapse[symmetric]] assms])
  have "dbMoves env now db (fst (updateOp env io now i (failChange state e) db))" if "validOperationError e"
    using change_dbMoves[OF failing.update_spec[OF assms _ prod.collapse[symmetric], of "(state, e)"] assms] that by simp
  then show "dbMoves env now db (fst (Fail env io now i state e db))"
    using dbMoves_refl[OF assms] by (auto simp: Fail_def)
  show "dbMoves env now db (fst (BindPlan env io now i plan approval direct db))"
    using BindPlan_spec[OF assms prod.collapse[symmetric], of io i plan approval direct]
  proof (elim disjE conjE exE)
    assume "fst (BindPlan env io now i plan approval direct db) = db"
    then show ?thesis
      using dbMoves_refl[OF assms] by simp
  next
    fix row
    assume row: "row \<in> set (ad_ops db)"
      "opFollows row (prepareOperationUpdate now (boundOperation plan (trimSpace approval) direct row))"
      "ad_ops (fst (BindPlan env io now i plan approval direct db))
        = ad_ops (replaceOp (prepareOperationUpdate now (boundOperation plan (trimSpace approval) direct row)) db)"
      "opsMove env now db (fst (BindPlan env io now i plan approval direct db))"
    then show ?thesis
      by (intro replaceOp_dbMoves[OF row(1,2,3)]) (simp add: opsMove_def)
  qed
qed

lemma Succeed_dbMoves:
  assumes "opsInv env t db" and "t \<le> now" and "envOK env"
  shows "dbMoves env now db (fst (Succeed env io now i result db))"
proof (cases "normalizeObjectLimit env result maxResultBytes OpResult")
  case (Inr doc)
  then have "doc = [] \<or> ae_object env doc \<noteq> None"
    using assms(3) by (auto simp: normalizeObjectLimit_Inr envOK_def)
  then show ?thesis
    using change_dbMoves[OF succeeding.update_spec[OF assms(1,2) _ prod.collapse[symmetric], of doc] assms(1,2)] Inr
    by (simp add: Succeed_def)
qed (simp add: Succeed_def dbMoves_refl[OF assms(1,2)])

text \<open>The surroundings of a runtime: documents read back, and the coordinator reads active grants through the same store.\<close>

definition runtimeOK :: "('i, 'p, 'a) RuntimeOptions \<Rightarrow> bool" where
  "runtimeOK r \<longleftrightarrow>
     envOK (ro_env r) \<and> co_grants (ro_Authorization r) = ro_Grants r
     \<and> (\<forall>req ck saves d. fst (co_activeGrants (ro_Authorization r) req ck saves d) = fst (ActivePolicyGrants (ro_Grants r) ck saves d))"

lemma oracle_times:
  assumes "oracleIn t t' orc w"
  shows "t \<le> or_now orc" "or_now orc \<le> t'" "t \<le> t'"
  using assms by (auto simp: oracleIn_def)

lemma still_effect:
  assumes "fits r t t' \<gamma> orc w" and "dbMoves (ro_env r) t' (w_db w) (w_db w')" and "gsMoves (ro_Grants r) t' (w_gs w) (w_gs w')"
    and "w_log w' = w_log w" and "w_ids w' = w_ids w"
  shows "good \<gamma> w w' \<and> worldMoves r t' w w' \<and> holds \<gamma> (tokensAfter \<gamma> w w')"
proof -
  have "recordedUses (w_gs w) \<subseteq> recordedUses (w_gs w')"
    using assms(3) by (intro recordedUses_kept) (simp add: gsMoves_def)
  then have "holds \<gamma> (tokensAfter \<gamma> w w')"
    using assms by (auto simp: holds_def tokensAfter_def started_def dbMoves_def fits_def)
  then show ?thesis
    using assms by (auto simp: good_def worldMoves_def dbMoves_def)
qed

lemma quiet_atom:
  assumes "\<And>t t' orc w w' x. worldInv r t w \<Longrightarrow> oracleIn t t' orc w \<Longrightarrow> f orc w = (w', x) \<Longrightarrow>
    dbMoves (ro_env r) t' (w_db w) (w_db w') \<and> gsMoves (ro_Grants r) t' (w_gs w) (w_gs w') \<and> w_log w' = w_log w \<and> w_ids w' = w_ids w"
  shows "quiet r (atom f)"
  unfolding quiet_def
proof (intro allI safe_atom)
  fix \<gamma> t t' orc w w' x
  assume fit: "fits r t t' \<gamma> orc w" and step: "f orc w = (w', x)"
  then have "worldInv r t w" "oracleIn t t' orc w"
    by (simp_all add: fits_def)
  note eff = assms[OF this step]
  show "good \<gamma> w w' \<and> worldMoves r t' w w' \<and> holds \<gamma> (tokensAfter \<gamma> w w')"
    by (rule still_effect[OF fit]) (use eff in auto)
qed

lemma world_refl:
  assumes "worldInv r t w" and "t \<le> t'"
  shows "dbMoves (ro_env r) t' (w_db w) (w_db w)" and "gsMoves (ro_Grants r) t' (w_gs w) (w_gs w)"
  using assms by (auto simp: worldInv_def intro: dbMoves_refl gsMoves_refl)

lemma quiet_inert:
  assumes "\<And>orc w. w_db (fst (f orc w)) = w_db w \<and> w_gs (fst (f orc w)) = w_gs w \<and> w_log (fst (f orc w)) = w_log w
    \<and> w_ids (fst (f orc w)) = w_ids w"
  shows "quiet r (atom f)"
proof (rule quiet_atom)
  fix t t' orc w w' x
  assume w: "worldInv r t w" and orc: "oracleIn t t' orc w" and step: "f orc w = (w', x)"
  then show "dbMoves (ro_env r) t' (w_db w) (w_db w') \<and> gsMoves (ro_Grants r) t' (w_gs w) (w_gs w') \<and> w_log w' = w_log w
      \<and> w_ids w' = w_ids w"
    using assms[of orc w] world_refl[OF w oracle_times(3)[OF orc]] by simp
qed

lemma quiet_dbAct:
  assumes "\<And>t orc db. opsInv (ro_env r) t db \<Longrightarrow> t \<le> or_now orc \<Longrightarrow> dbMoves (ro_env r) (or_now orc) db (fst (f orc db))"
  shows "quiet r (dbAct f)"
  unfolding dbAct_def
proof (rule quiet_atom)
  fix t t' orc w w' x
  assume w: "worldInv r t w" and orc: "oracleIn t t' orc w" and step: "(case f orc (w_db w) of (db, y) \<Rightarrow> (w\<lparr>w_db := db\<rparr>, y)) = (w', x)"
  have "opsInv (ro_env r) t (w_db w)"
    using w by (simp add: worldInv_def)
  then have "dbMoves (ro_env r) t' (w_db w) (fst (f orc (w_db w)))"
    by (rule dbMoves_later[OF assms[OF _ oracle_times(1)[OF orc]] oracle_times(2)[OF orc]])
  then show "dbMoves (ro_env r) t' (w_db w) (w_db w') \<and> gsMoves (ro_Grants r) t' (w_gs w) (w_gs w') \<and> w_log w' = w_log w
      \<and> w_ids w' = w_ids w"
    using step world_refl(2)[OF w oracle_times(3)[OF orc]] by (auto split: prod.splits)
qed

lemma quiet_gsAct:
  assumes "\<And>t t' orc w. worldInv r t w \<Longrightarrow> oracleIn t t' orc w \<Longrightarrow> gsMoves (ro_Grants r) t' (w_gs w) (fst (f orc (w_gs w)))"
  shows "quiet r (gsAct f)"
  unfolding gsAct_def
proof (rule quiet_atom)
  fix t t' orc w w' x
  assume w: "worldInv r t w" and orc: "oracleIn t t' orc w" and step: "(case f orc (w_gs w) of (gs, y) \<Rightarrow> (w\<lparr>w_gs := gs\<rparr>, y)) = (w', x)"
  then show "dbMoves (ro_env r) t' (w_db w) (w_db w') \<and> gsMoves (ro_Grants r) t' (w_gs w) (w_gs w') \<and> w_log w' = w_log w
      \<and> w_ids w' = w_ids w"
    using assms[OF w orc] world_refl(1)[OF w oracle_times(3)[OF orc]] by (auto split: prod.splits)
qed

section \<open>The calls of the stores\<close>

lemma gsMoves_later: "gsMoves opts t d d' \<Longrightarrow> t \<le> t' \<Longrightarrow> gsMoves opts t' d d'"
  by (auto simp: gsMoves_def storeMoves_def intro: storeInv_later)

lemma oracle_clocks:
  assumes "oracleIn t t' orc w"
  obtains t1 where "clockIn t t1 (or_ck orc)" "clockIn t1 t' (or_ckGet orc)" "clockIn t t' (or_ck orc)"
proof -
  obtain t1 where t1: "clockIn t t1 (or_ck orc)" "clockIn t1 t' (or_ckGet orc)"
    using assms by (auto simp: oracleIn_def)
  then have "clockIn t t' (or_ck orc)"
    by (auto simp: clockIn_def)
  then show thesis
    using that t1 by blast
qed

lemma grant_calls_quiet:
  shows "quiet r (getGrant r g)" and "quiet r (listForClient r client)" and "quiet r (getUse r g i)"
    and "quiet r (closeGrant r g client active)" and "quiet r (reserve r g i operation)"
    and "settling target \<Longrightarrow> quiet r (settle r g i target)"
proof -
  have inv: "storeInv (ro_Grants r) t (w_gs w)" if "worldInv r t w" for t w
    using that by (simp add: worldInv_def)
  show "quiet r (getGrant r g)" "quiet r (listForClient r client)" "quiet r (getUse r g i)" "quiet r (closeGrant r g client active)"
    unfolding getGrant_def listForClient_def getUse_def closeGrant_def
    by (rule quiet_gsAct, erule oracle_clocks,
        simp add: gsMoves_def reader_moves[OF inv] ListForClient_moves[OF inv] close_moves[OF inv] readers_keep ListForClient_keeps closing_keeps)+
  show "quiet r (reserve r g i operation)"
    unfolding reserve_def
    by (rule quiet_gsAct, erule oracle_clocks, simp add: gsMoves_def ReserveUse_moves[OF inv] uses_keep)
  show "quiet r (settle r g i target)" if "settling target"
    unfolding settle_def using that
    by - (rule quiet_gsAct, erule oracle_clocks, simp add: gsMoves_def settleUse_moves[OF inv] uses_keep)
qed

lemma look_calls_quiet: "quiet r (dbRead f)" "quiet r readClock" "quiet r (getByID r i)" "quiet r (reconcileProvider adapter plan)"
  unfolding getByID_def dbRead_def readClock_def reconcileProvider_def by (rule quiet_inert; simp)+

lemma audit_quiet: "quiet r (audit op outcome detail status)"
  unfolding audit_def by (rule quiet_inert) simp

lemma operation_calls_quiet:
  shows "quiet r (transition r i state)" and "quiet r (bindPlan r i plan approval direct)"
    and "quiet r (dbAct (\<lambda>orc. Fail (ro_env r) (or_io orc) (or_now orc) i state e))"
    and "quiet r (dbAct (\<lambda>orc. CancelOperation (ro_env r) (or_io orc) (or_now orc) client i))"
    and "runtimeOK r \<Longrightarrow> quiet r (succeedStored r i result)"
  unfolding transition_def bindPlan_def succeedStored_def
  by (rule quiet_dbAct; simp add: updates_dbMove Succeed_dbMoves runtimeOK_def)+

lemma settlement_settles: "settling (settlementState s)"
  by (cases s) (simp_all add: settlementState_def settling_def)

lemmas call_quiet = look_calls_quiet audit_quiet operation_calls_quiet grant_calls_quiet

lemma failOperation_quiet: "quiet r (failOperation r i state code message)"
  unfolding failOperation_def by (rule quiet_bind) (auto simp: call_quiet intro: quiet_bind split: sum.splits)

lemma settleApproval_quiet: "quiet r (settleApproval r op reserved settlement)"
  unfolding settleApproval_def
  by (auto simp: call_quiet settlement_settles failOperation_quiet intro!: quiet_bind split: sum.splits)

lemma recordExecutionFailure_quiet: "quiet r (recordExecutionFailure r op failure)"
  unfolding recordExecutionFailure_def by (auto simp: call_quiet failOperation_quiet intro!: quiet_bind)

lemma succeed_quiet: "runtimeOK r \<Longrightarrow> quiet r (succeed r op result reserved detail status)"
  unfolding succeed_def resultUnstored_def Let_def
  by (auto simp: call_quiet failOperation_quiet settleApproval_quiet intro!: quiet_bind split: sum.splits)

lemma reconcileExecution_quiet: "runtimeOK r \<Longrightarrow> quiet r (reconcileExecution r op adapter plan reserved execution err)"
  unfolding reconcileExecution_def
  by (auto simp: call_quiet succeed_quiet settleApproval_quiet recordExecutionFailure_quiet intro!: quiet_bind)

lemma bindReservedPlan_quiet: "quiet r (bindReservedPlan r op adapter plan reserved)"
  unfolding bindReservedPlan_def
  by (auto simp: call_quiet failOperation_quiet settling_def intro!: quiet_bind split: reserveResult.splits option.splits sum.splits)

lemma syncApproval_quiet: "quiet r (syncApproval r op)"
  unfolding syncApproval_def
  by (auto simp: call_quiet failOperation_quiet intro!: quiet_bind split: sum.splits option.splits)

lemma RecoverApproval_quiet: "quiet r (RecoverApproval r op)"
  unfolding RecoverApproval_def
  by (auto simp: call_quiet failOperation_quiet intro!: quiet_bind split: sum.splits option.splits)

lemma advancePendingApproval_quiet: "quiet r (advancePendingApproval r op)"
  unfolding advancePendingApproval_def
  by (auto simp: syncApproval_quiet RecoverApproval_quiet intro!: quiet_bind)

lemma retainRecovered_quiet: "quiet r (retainRecoveredApproval r op)"
  unfolding retainRecoveredApproval_def
  by (auto simp: call_quiet settling_def intro!: quiet_bind split: sum.splits)

lemma settleRecovered_quiet: "quiet r (settleRecoveredApproval r op)"
  unfolding settleRecoveredApproval_def settleBoundRecoveredApproval_def Let_def
  by (auto simp: call_quiet failOperation_quiet settling_def intro!: quiet_bind split: sum.splits option.splits bool.splits)

lemma ReconcileInterrupted_quiet: "runtimeOK r \<Longrightarrow> quiet r (ReconcileInterrupted r op)"
  unfolding ReconcileInterrupted_def resultUnstored_def
  by (auto simp: call_quiet failOperation_quiet settleRecovered_quiet retainRecovered_quiet intro!: quiet_bind
      split: sum.splits option.splits)

lemma abandonApproval_quiet: "quiet r (abandonApproval r i client)"
  unfolding abandonApproval_def cancelGrant_def by (auto simp: call_quiet intro!: quiet_bind split: sum.splits)

lemma Cancel_quiet: "quiet r (Cancel r client i)"
  unfolding Cancel_def cancelApproval_def approvalIDOf_def cancelGrant_def
  by (auto simp: call_quiet intro!: quiet_bind split: sum.splits option.splits)

section \<open>The calls of the coordinator and of admission control\<close>

lemma get_gsMoves: "storeInv opts t d \<Longrightarrow> clockIn t t' ck \<Longrightarrow> gsMoves opts t' d (fst (Get opts ck saves i d))"
  by (simp add: gsMoves_def reader_moves readers_keep)

lemma modeLoop_moves:
  assumes "\<forall>k. clockIn (ts k) (ts (Suc k)) (fst (gets k)) \<and> ts k \<le> t'" and "storeInv opts (ts k) d"
  shows "gsMoves opts t' d (fst (modeLoop opts mode gets k candidates d))"
  using assms(2)
proof (induction candidates arbitrary: k d)
  case Nil
  then show ?case
    using gsMoves_refl[OF Nil] assms(1) by simp
next
  case (Cons candidate rest)
  obtain d1 res where get: "Get opts (fst (gets k)) (snd (gets k)) (pg_ID candidate) d = (d1, res)"
    by fastforce
  have first: "gsMoves opts (ts (Suc k)) d d1"
    using get_gsMoves[OF Cons.prems] assms(1) get by (metis fst_conv)
  then have "storeInv opts (ts (Suc k)) d1"
    by (simp add: gsMoves_def storeMoves_def)
  from gsMoves_trans[OF first Cons.IH[OF this]] show ?case
    using gsMoves_later[OF first] assms(1) by (auto simp: get split: sum.splits prod.splits)
qed

lemma activeWindowGrant_quiet:
  assumes "runtimeOK r"
  shows "quiet r (activeWindowGrant r core)"
  unfolding activeWindowGrant_def
proof (rule quiet_gsAct)
  fix t t' orc w
  assume w: "worldInv r t w" and orc: "oracleIn t t' orc w"
  let ?c = "ro_Authorization r" and ?call = "or_auth orc"
  obtain ts where ts: "clockIn t (ts 0) (au_read ?call)" "\<forall>k. clockIn (ts k) (ts (Suc k)) (fst (or_gets orc k)) \<and> ts k \<le> t'"
    using orc by (auto simp: oracleIn_def)
  have inv: "storeInv (ro_Grants r) t (w_gs w)"
    using w by (simp add: worldInv_def)
  obtain d1 answer where active: "co_activeGrants ?c core (au_read ?call) (au_readSaves ?call) (w_gs w) = (d1, answer)"
    by fastforce
  then have d1: "d1 = fst (ActivePolicyGrants (ro_Grants r) (au_read ?call) (au_readSaves ?call) (w_gs w))"
    using assms by (metis fst_conv runtimeOK_def)
  have first: "gsMoves (ro_Grants r) (ts 0) (w_gs w) d1"
    using reader_moves(3)[OF inv ts(1)] readers_keep(3) by (simp add: d1 gsMoves_def)
  then have "storeInv (ro_Grants r) (ts 0) d1"
    by (simp add: gsMoves_def storeMoves_def)
  from modeLoop_moves[OF ts(2) this] have loop: "gsMoves (ro_Grants r) t' (w_gs w) (fst (modeLoop (ro_Grants r) GrantModeWindow (or_gets orc) 0 cs d1))" for cs
    by (rule gsMoves_trans[OF first])
  have "gsMoves (ro_Grants r) t' (w_gs w) d1"
    using gsMoves_later[OF first] ts(2) by blast
  then show "gsMoves (ro_Grants r) t' (w_gs w) (fst (ActiveGrantMode ?c ?call (or_gets orc) core GrantModeWindow (w_gs w)))"
    using gsMoves_refl[OF inv oracle_times(3)[OF orc]] loop assms
    by (auto simp: ActiveGrantMode_def active runtimeOK_def split: option.splits sum.splits prod.splits) (metis fst_conv)+
qed

lemma RequestApproval_moves:
  assumes "runtimeOK r" and "storeInv (ro_Grants r) t d" and "callIn t t' call d"
  shows "gsMoves (ro_Grants r) t' d (fst (RequestApproval (ro_Authorization r) call core build d))"
proof -
  obtain t1 t2 where times: "clockIn t t1 (au_read call)" "clockIn t1 t2 (au_request call)" "clockIn t2 t' (au_requestGet call)"
    and fresh: "freshID (au_newID call) (map g_ID (fd_Grants d))"
    using assms(3) by (auto simp: callIn_def)
  have inv: "storeInv (ro_Grants r) t1 d"
    using storeInv_later[OF assms(2) clockIn_le[OF times(1)]] .
  have stay: "gsMoves (ro_Grants r) t' d d"
    using gsMoves_refl[OF inv] clockIn_le[OF times(2)] clockIn_le[OF times(3)] by simp
  have ask: "gsMoves (ro_Grants r) t' d (fst (RequestWithPlan (ro_Grants r) (au_request call) (au_requestGet call) (au_saves call) (au_savesGet call)
      (au_sqlite call) (au_newID call) req plan d))" for req plan
    using RequestWithPlan_moves[OF inv times(2,3) fresh] request_keeps(2) by (simp add: gsMoves_def)
  have "co_grants (ro_Authorization r) = ro_Grants r"
    using assms(1) by (simp add: runtimeOK_def)
  then have "gsMoves (ro_Grants r) t' d (fst (createApprovalRequest (ro_Authorization r) call core dec build d))" for dec
    using stay ask by (auto simp: createApprovalRequest_def split: sum.splits option.splits prod.splits) (metis fst_conv)+
  then show ?thesis
    using stay by (auto simp: RequestApproval_def Let_def split: option.splits prod.splits)
qed

lemma planned_dbMoves:
  assumes "opsInv env t db" and "t \<le> t'" and "putPlanWithQueries env plan db = Inr db'"
  shows "dbMoves env t' db db'"
proof -
  note put = putPlan_Inr[OF assms(3)]
  have "opsInv env t' db'"
    using opsInv_later[OF opsInv_plans[OF assms(1) put(1)] assms(2)] by (simp add: put(2) subset_insertI)
  then show ?thesis
    by (simp add: dbMoves_def rowIDs_def waiting_def put(1))
qed

lemma requestApproval_quiet:
  assumes "runtimeOK r"
  shows "quiet r (requestApproval r core build)"
  unfolding requestApproval_def
proof (rule quiet_atom, goal_cases)
  case (1 t t' orc w w' x)
  let ?plan = "preparedPlan (ro_Authorization r) (au_now (or_auth orc)) core (build (or_now orc))"
  let ?put = "putPlanWithQueries (ro_env r) (planRecordOf ?plan) (w_db w)"
  let ?call = "if isl ?put then (or_auth orc)\<lparr>au_saves := False\<rparr> else or_auth orc"
  have inv: "storeInv (ro_Grants r) t (w_gs w)" "opsInv (ro_env r) t (w_db w)" and t: "t \<le> t'" and call: "callIn t t' ?call (w_gs w)"
    using 1(1,2) oracle_times(3)[OF 1(2)] by (auto simp: worldInv_def oracleIn_def callIn_def)
  obtain gs result err where eq: "RequestApproval (ro_Authorization r) ?call core (Some (build (or_now orc))) (w_gs w) = (gs, result, err)"
    by (metis prod.exhaust)
  have "gsMoves (ro_Grants r) t' (w_gs w) gs"
    using RequestApproval_moves[OF assms inv(1) call, of core "Some (build (or_now orc))"] eq by simp
  moreover have "dbMoves (ro_env r) t' (w_db w) (w_db w)" "\<And>db. ?put = Inr db \<Longrightarrow> dbMoves (ro_env r) t' (w_db w) db"
    using dbMoves_refl[OF inv(2) t] planned_dbMoves[OF inv(2) t] by auto
  ultimately show ?case
    using 1(3) eq by (auto simp: Let_def split: sum.splits if_splits)
qed

lemma admission_quiet: "quiet r (admit r client)" "quiet r (releasePermit permit)"
  unfolding admit_def releasePermit_def
  by (auto simp: Let_def intro!: quiet_inert split: option.splits prod.splits sum.splits)

section \<open>Drawing, storing, claiming, executing\<close>

lemma safe_then_quiet:
  assumes "safe r \<gamma> p (\<lambda>_ _. True)" and "\<And>x. quiet r (k x)"
  shows "safe r \<gamma> (bindP p k) (\<lambda>_ _. True)"
  by (rule safe_bind, rule safe_mono[OF assms(1)], rule safe_mono[OF safe_quiet[OF assms(2)]]) simp

lemma quiet_safe: "quiet r p \<Longrightarrow> safe r \<gamma> p (\<lambda>_ _. True)"
  by (rule safe_mono[OF safe_quiet]) simp_all

lemma drawID_safe: "safe r \<gamma> drawID (\<lambda>x \<gamma>'. \<forall>i. x = Some i \<longrightarrow> i \<in> tk_ids \<gamma>')"
  unfolding drawID_def
proof (rule safe_atom)
  fix t t' orc w w' x
  assume fit: "fits r t t' \<gamma> orc w"
    and step: "(case or_newID orc of None \<Rightarrow> (w, None) | Some i \<Rightarrow> (w\<lparr>w_ids := i # w_ids w\<rparr>, Some i)) = (w', x)"
  have same: "w_db w' = w_db w" "w_gs w' = w_gs w" "w_log w' = w_log w"
    using step by (auto split: option.splits)
  have ids: "w_ids w' = w_ids w \<and> x = None \<or> (\<exists>i. w_ids w' = i # w_ids w \<and> x = Some i \<and> idOK i \<and> i \<notin> set (w_ids w))"
    using fit step by (auto simp: fits_def oracleIn_def split: option.splits)
  have inv: "worldInv r t w" "t \<le> t'"
    using fit oracle_times(3) by (auto simp: fits_def)
  show "good \<gamma> w w' \<and> worldMoves r t' w w' \<and> (\<forall>i. x = Some i \<longrightarrow> i \<in> tk_ids (tokensAfter \<gamma> w w'))"
    using same ids world_refl[OF inv] by (auto simp: good_def worldMoves_def dbMoves_def tokensAfter_def)
qed

lemma submit_rows:
  assumes "opsInv env t db" and "t \<le> now" and "envOK env" and "initial \<in> {StatePending, StateApproved}" and "idOK (su_ID sub)"
    and "su_ID sub \<notin> rowIDs db" and db'_def: "db' = fst (submit env io None sub now plan initial db)"
  shows "opsInv env now db'" and "rowIDs db' \<subseteq> insert (su_ID sub) (rowIDs db)"
    and "i \<in> rowIDs db \<Longrightarrow> waiting db' i \<Longrightarrow> waiting db i"
proof -
  let ?del = "DeleteTerminalOperationsBefore (now - TerminalRetention) db"
  have move: "opsMove env now db db'"
    unfolding db'_def by (rule submit_moves[OF assms(1-3) _ assms(4)]) (simp add: newIDOK_def)
  then show "opsInv env now db'"
    by (simp add: opsMove_def)
  have del: "set (ad_ops ?del) \<subseteq> set (ad_ops db)"
    by (auto simp: DeleteTerminalOperationsBefore_def)
  have rows: "set (ad_ops db') \<subseteq> set (ad_ops db) \<union> {op. ao_ID op = su_ID sub}"
  proof -
    obtain res where eq: "submit env io None sub now plan initial db = (db', res)"
      using db'_def by (metis prod.collapse)
    have "newIDOK None"
      by (simp add: newIDOK_def)
    from assms(1-3) this assms(4) eq show ?thesis
    proof (cases rule: submit_spec)
      case (create i input)
      have "su_ID input = su_ID sub"
        using create(1) assms(5) by (auto simp: normalizeSubmit_Inr trimSubmission_def idOK_def)
      moreover have "su_ID sub \<noteq> []"
        using assms(5) by (auto simp: idOK_def validOperationID_def)
      ultimately show ?thesis
        using create(3,5) del by (auto simp: newOperation_def)
    qed (use del in auto)
  qed
  then show "rowIDs db' \<subseteq> insert (su_ID sub) (rowIDs db)"
    by (auto simp: rowIDs_def)
  show "i \<in> rowIDs db \<Longrightarrow> waiting db' i \<Longrightarrow> waiting db i"
    using rows assms(6) by (auto simp: waiting_def rowIDs_def)
qed

lemma submit_safe:
  assumes "runtimeOK r" and "su_ID sub \<in> tk_ids \<gamma>" and "initial \<in> {StatePending, StateApproved}"
  shows "safe r \<gamma> (dbAct (\<lambda>orc. submit (ro_env r) (or_io orc) None sub (or_now orc) plan initial)) (\<lambda>_ _. True)"
  unfolding dbAct_def
proof (rule safe_atom)
  fix t t' orc w w' x
  assume fit: "fits r t t' \<gamma> orc w"
    and step: "(case submit (ro_env r) (or_io orc) None sub (or_now orc) plan initial (w_db w) of (db, y) \<Rightarrow> (w\<lparr>w_db := db\<rparr>, y)) = (w', x)"
  let ?db = "fst (submit (ro_env r) (or_io orc) None sub (or_now orc) plan initial (w_db w))"
  have w': "w' = w\<lparr>w_db := ?db\<rparr>"
    using step by (auto split: prod.splits)
  have orc: "oracleIn t t' orc w" and inv: "worldInv r t w" "opsInv (ro_env r) t (w_db w)" and id: "idOK (su_ID sub)" "su_ID sub \<notin> rowIDs (w_db w)"
    using fit assms(2) by (auto simp: fits_def worldInv_def)
  note rows = submit_rows[OF inv(2) oracle_times(1)[OF orc] _ assms(3) id refl]
  have env: "envOK (ro_env r)"
    using assms(1) by (simp add: runtimeOK_def)
  have "opsInv (ro_env r) t' ?db"
    by (rule opsInv_later[OF rows(1)[OF env] oracle_times(2)[OF orc]])
  then show "good \<gamma> w w' \<and> worldMoves r t' w w' \<and> True"
    using rows(2,3)[OF env] assms(2) world_refl(2)[OF inv(1) oracle_times(3)[OF orc]]
    by (auto simp: w' good_def worldMoves_def)
qed

lemma claim_row:
  assumes "opsInv env t db" and "t \<le> now" and "Transition env io now i StateExecuting db = (db', Inr op)"
  shows "waiting db (ao_ID op) \<and> executing db' (ao_ID op)"
  using transitioning.update_spec[OF assms(1,2) TrueI assms(3)[unfolded Transition_def]]
proof (elim disjE conjE exE)
  fix row op1
  assume row: "row \<in> set (ad_ops db)" "transitionChange StateExecuting row = Inr op1" "db' = replaceOp (prepareOperationUpdate now op1) db"
    and op: "Inr op = Inr (prepareOperationUpdate now op1)" and follows: "opFollows row (prepareOperationUpdate now op1)"
  have ids: "ao_ID op = ao_ID row"
    using op follows by (simp add: opFollows_def fixedPart_def)
  have states: "ao_State row = StateApproved" "ao_State op1 = StateExecuting"
    using row(2) by (auto simp: transitionChange_def allowedTransition_def operationTransitions_def split: if_splits)
  then have "ao_State op = StateExecuting"
    using op by (simp add: prepareOperationUpdate_def Let_def)
  then show ?thesis
    using row(1,3) ids op states(1) by (auto simp: waiting_def executing_def replaceOp_def intro!: image_eqI[of _ _ row])
qed (auto simp: transitionChange_def split: if_splits)

lemma claim_safe: "safe r \<gamma> (transition r i StateExecuting) (\<lambda>x \<gamma>'. \<forall>op. x = Inr op \<longrightarrow> ao_ID op \<in> tk_claims \<gamma>')"
  unfolding transition_def dbAct_def
proof (rule safe_atom)
  fix t t' orc w w' x
  assume fit: "fits r t t' \<gamma> orc w"
    and step: "(case Transition (ro_env r) (or_io orc) (or_now orc) i StateExecuting (w_db w) of (db, y) \<Rightarrow> (w\<lparr>w_db := db\<rparr>, y)) = (w', x)"
  obtain db where db: "Transition (ro_env r) (or_io orc) (or_now orc) i StateExecuting (w_db w) = (db, x)" "w' = w\<lparr>w_db := db\<rparr>"
    using step by (auto split: prod.splits)
  have orc: "oracleIn t t' orc w" and inv: "worldInv r t w" "opsInv (ro_env r) t (w_db w)"
    using fit by (auto simp: fits_def worldInv_def)
  have "dbMoves (ro_env r) t' (w_db w) db"
    using dbMoves_later[OF updates_dbMove(2)[OF inv(2) oracle_times(1)[OF orc]] oracle_times(2)[OF orc], of "or_io orc" i StateExecuting] db(1)
    by simp
  then have "good \<gamma> w w' \<and> worldMoves r t' w w' \<and> holds \<gamma> (tokensAfter \<gamma> w w')"
    using world_refl(2)[OF inv(1) oracle_times(3)[OF orc]] by (intro still_effect[OF fit]) (simp_all add: db(2))
  moreover have "ao_ID op \<in> tk_claims (tokensAfter \<gamma> w w')" if "x = Inr op" for op
    using claim_row[OF inv(2) oracle_times(1)[OF orc]] db that by (auto simp: tokensAfter_def started_def)
  ultimately show "good \<gamma> w w' \<and> worldMoves r t' w w' \<and> (\<forall>op. x = Inr op \<longrightarrow> ao_ID op \<in> tk_claims (tokensAfter \<gamma> w w'))"
    by blast
qed

lemma executeProvider_safe:
  assumes "mayRun \<gamma> op"
  shows "safe r \<gamma> (executeProvider adapter op plan) (\<lambda>_ _. True)"
  unfolding executeProvider_def
proof (rule safe_atom)
  fix t t' orc w w' x
  assume fit: "fits r t t' \<gamma> orc w" and step: "(w\<lparr>w_log := w_log w @ [op]\<rparr>, ap_Execute adapter (or_tick orc) plan) = (w', x)"
  then have "worldInv r t w" "t \<le> t'"
    using oracle_times(3) by (auto simp: fits_def)
  then show "good \<gamma> w w' \<and> worldMoves r t' w w' \<and> True"
    using step assms world_refl[of r t w t'] by (auto simp: good_def worldMoves_def dbMoves_def)
qed

end
