(* ===== verification/RuntimeSystem.thy ===== *)
theory RuntimeSystem
  imports RuntimeSafety
begin

text \<open>
  The runtime as a system: any number of threads run its handlers, interleaved at their actions with each other and with the
  operators of the grant store, and the process may crash at any point. Every handler is safe; therefore no operation is executed
  twice, whatever is interleaved, replayed or recovered, and what is executed on approval is paid for by its own use of the grant.
\<close>

section \<open>The handlers are safe\<close>

lemma Get_id: "Get opts ck saves i d = (d', Inr g) \<Longrightarrow> g_ID g = i"
  by (auto simp: Get_def findGrant_def dest: findGrantIndex_Some split: sum.splits prod.splits if_splits option.splits)

lemma getGrant_safe: "safe r \<gamma> (getGrant r i) (\<lambda>x \<gamma>'. holds \<gamma> \<gamma>' \<and> (\<forall>g. x = Inr g \<longrightarrow> g_ID g = i))"
  unfolding getGrant_def gsAct_def
proof (rule safe_atom)
  fix t t' orc w w' x
  assume fit: "fits r t t' \<gamma> orc w"
    and step: "(case Get (ro_Grants r) (or_ck orc) (or_saves orc) i (w_gs w) of (gs, y) \<Rightarrow> (w\<lparr>w_gs := gs\<rparr>, y)) = (w', x)"
  obtain gs where gs: "Get (ro_Grants r) (or_ck orc) (or_saves orc) i (w_gs w) = (gs, x)" "w' = w\<lparr>w_gs := gs\<rparr>"
    using step by (auto split: prod.splits)
  have inv: "worldInv r t w" "storeInv (ro_Grants r) t (w_gs w)" and orc: "oracleIn t t' orc w"
    using fit by (auto simp: fits_def worldInv_def)
  obtain t1 where "clockIn t t' (or_ck orc)"
    using oracle_clocks[OF orc] by blast
  then have "gsMoves (ro_Grants r) t' (w_gs w) gs"
    using get_gsMoves[OF inv(2)] gs(1) by (metis fst_conv)
  then show "good \<gamma> w w' \<and> worldMoves r t' w w' \<and> holds \<gamma> (tokensAfter \<gamma> w w') \<and> (\<forall>g. x = Inr g \<longrightarrow> g_ID g = i)"
    using still_effect[OF fit, of w'] world_refl(1)[OF inv(1) oracle_times(3)[OF orc]] gs Get_id[of "ro_Grants r"] by auto
qed

lemma reserve_safe:
  "safe r \<gamma> (reserve r g i operation) (\<lambda>x \<gamma>'. holds \<gamma> \<gamma>' \<and> (\<forall>res. x = Inr res \<longrightarrow> (g, i) \<in> tk_uses \<gamma>'))"
  unfolding reserve_def gsAct_def
proof (rule safe_atom)
  let ?f = "\<lambda>orc. ReserveUse (ro_Grants r) (or_ck orc) (or_ckGet orc) (or_saves orc) (or_savesGet orc) g i operation"
  fix t t' orc w w' x
  assume fit: "fits r t t' \<gamma> orc w" and step: "(case ?f orc (w_gs w) of (gs, y) \<Rightarrow> (w\<lparr>w_gs := gs\<rparr>, y)) = (w', x)"
  obtain gs where gs: "?f orc (w_gs w) = (gs, x)" "w' = w\<lparr>w_gs := gs\<rparr>"
    using step by (auto split: prod.splits)
  have inv: "worldInv r t w" "storeInv (ro_Grants r) t (w_gs w)" and orc: "oracleIn t t' orc w"
    using fit by (auto simp: fits_def worldInv_def)
  obtain t1 where "clockIn t t1 (or_ck orc)" "clockIn t1 t' (or_ckGet orc)"
    using oracle_clocks[OF orc] by blast
  then have "gsMoves (ro_Grants r) t' (w_gs w) gs"
    using ReserveUse_moves[OF inv(2)] uses_keep(1) gs(1) by (metis fst_conv gsMoves_def)
  moreover have "(g, i) \<in> recordedUses gs" if "x = Inr res" for res
    using ReserveUse_present[OF gs(1)[unfolded that]] by (force simp: recordedUses_def)
  ultimately show "good \<gamma> w w' \<and> worldMoves r t' w w' \<and> holds \<gamma> (tokensAfter \<gamma> w w')
      \<and> (\<forall>res. x = Inr res \<longrightarrow> (g, i) \<in> tk_uses (tokensAfter \<gamma> w w'))"
    using still_effect[OF fit, of w'] world_refl(1)[OF inv(1) oracle_times(3)[OF orc]] gs(2) by (auto simp: tokensAfter_def)
qed

definition reservedFor :: "Tokens \<Rightarrow> Operation \<Rightarrow> reserveResult \<Rightarrow> bool" where
  "reservedFor \<gamma> op res \<longleftrightarrow>
     (res = NothingReserved \<longrightarrow> ao_ApprovalID op = []) \<and> (\<forall>x. res = Reserved x \<longrightarrow> (ao_ApprovalID op, ao_ID op) \<in> tk_uses \<gamma>)"

lemma reservedFor_simps [simp]:
  "reservedFor \<gamma> op ReserveFailed"
  "reservedFor \<gamma> op NothingReserved \<longleftrightarrow> ao_ApprovalID op = []"
  "reservedFor \<gamma> op (Reserved x) \<longleftrightarrow> (ao_ApprovalID op, ao_ID op) \<in> tk_uses \<gamma>"
  by (simp_all add: reservedFor_def)

lemma reserveApproval_safe: "safe r \<gamma> (reserveApproval r op) (\<lambda>res \<gamma>'. holds \<gamma> \<gamma>' \<and> reservedFor \<gamma>' op res)"
proof (cases "ao_ApprovalID op = []")
  case True
  then show ?thesis
    by (simp add: reserveApproval_def safe_Ret)
next
  case False
  have refused: "safe r \<delta> (bindP p (\<lambda>_. Ret ReserveFailed)) (\<lambda>res \<gamma>'. holds \<gamma> \<gamma>' \<and> reservedFor \<gamma>' op res)"
    if "quiet r p" "holds \<gamma> \<delta>" for p :: "Operation prog" and \<delta>
    by (rule safe_after_quiet[OF that(1)]) (auto intro!: safe_Ret holds_trans[OF that(2)])
  show ?thesis
    unfolding reserveApproval_def invalidApproval_def Let_def using False
    by (auto intro!: safe_bind[OF safe_mono[OF getGrant_safe]] safe_bind[OF safe_mono[OF reserve_safe]] refused failOperation_quiet safe_Ret
        split: sum.splits) (rule holds_trans, assumption, assumption)+
qed

lemma executeReserved_safe:
  assumes "runtimeOK r" and "mayRun \<gamma> op"
  shows "safe r \<gamma> (executeReserved r op adapter plan reserved) (\<lambda>_ _. True)"
  unfolding executeReserved_def
proof (rule safe_then_quiet[OF executeProvider_safe[OF assms(2)]])
  show "quiet r (case x of (execution, executionErr) \<Rightarrow>
      if executionErr = None \<and> oc_Proven execution then succeed r op (oc_Result execution) reserved [] (oc_UpstreamStatus execution)
      else if ro_DefinitiveFailure r executionErr then
        (let failure = ro_ExecutionFailure r executionErr None
         in bindP (settleApproval r op reserved (settlementForFailure failure)) (\<lambda>settled.
              if settled then recordExecutionFailure r op failure else Ret ()))
      else reconcileExecution r op adapter plan reserved execution executionErr)" for x
    using assms(1)
    by (auto simp: Let_def succeed_quiet settleApproval_quiet recordExecutionFailure_quiet reconcileExecution_quiet intro!: quiet_bind
        split: prod.splits)
qed

lemma Execute_safe:
  assumes "runtimeOK r" and "ao_ID op \<in> tk_claims \<gamma>"
  shows "safe r \<gamma> (Execute r op) (\<lambda>_ _. True)"
proof (cases "LoadPlan r op")
  case None
  then show ?thesis
    by (simp add: Execute_def quiet_safe quiet_bind failOperation_quiet)
next
  case (Some ap)
  obtain adapter plan where ap: "ap = (adapter, plan)"
    by fastforce
  have run: "safe r \<delta> (case bound of None \<Rightarrow> Ret () | Some plan' \<Rightarrow> executeReserved r op adapter plan' (res \<noteq> NothingReserved)) (\<lambda>_ _. True)"
    if "mayRun \<delta> op" for \<delta> bound res
    using executeReserved_safe[OF assms(1) that] by (auto intro: safe_Ret split: option.splits)
  have bind: "safe r \<delta> (bindP (bindReservedPlan r op adapter plan res) (\<lambda>bound.
      case bound of None \<Rightarrow> Ret () | Some plan' \<Rightarrow> executeReserved r op adapter plan' (res \<noteq> NothingReserved))) (\<lambda>_ _. True)"
    if "mayRun \<delta> op" for \<delta> res
  proof (rule safe_after_quiet[OF bindReservedPlan_quiet])
    fix bound \<delta>'
    assume "holds \<delta> \<delta>'"
    then have "mayRun \<delta>' op"
      using that by (auto simp: mayRun_def holds_def)
    then show "safe r \<delta>' (case bound of None \<Rightarrow> Ret () | Some plan' \<Rightarrow> executeReserved r op adapter plan' (res \<noteq> NothingReserved)) (\<lambda>_ _. True)"
      by (rule run)
  qed
  show ?thesis
    unfolding Execute_def Some ap option.case prod.case
  proof (rule safe_bind, rule safe_mono[OF reserveApproval_safe])
    fix res \<gamma>'
    assume "holds \<gamma> \<gamma>' \<and> reservedFor \<gamma>' op res"
    then have "mayRun \<gamma>' op \<or> res = ReserveFailed"
      using assms(2) by (cases res) (auto simp: mayRun_def holds_def)
    then show "safe r \<gamma>' (if res = ReserveFailed then Ret () else bindP (bindReservedPlan r op adapter plan res) (\<lambda>bound.
        case bound of None \<Rightarrow> Ret () | Some plan' \<Rightarrow> executeReserved r op adapter plan' (res \<noteq> NothingReserved))) (\<lambda>_ _. True)"
      using bind by (auto intro: safe_Ret)
  qed
qed

lemma Advance_safe:
  assumes "runtimeOK r"
  shows "safe r \<gamma> (Advance r op) (\<lambda>_ _. True)"
proof -
  have claim: "safe r \<delta> (bindP (transition r i StateExecuting) (\<lambda>res. case res of Inl _ \<Rightarrow> Ret () | Inr claimed \<Rightarrow> Execute r claimed)) (\<lambda>_ _. True)"
    for \<delta> i
    by (rule safe_bind, rule safe_mono[OF claim_safe]) (auto intro: safe_Ret Execute_safe[OF assms] split: sum.splits)
  show ?thesis
    unfolding Advance_def
    by (rule safe_after_quiet[OF look_calls_quiet(3)])
      (auto intro!: safe_Ret safe_after_quiet[OF advancePendingApproval_quiet] claim split: sum.splits)
qed

section \<open>Submissions are safe\<close>

lemma finishRefused_quiet: "quiet r (finishRefused r op err)"
  unfolding finishRefused_def by (auto simp: audit_quiet failOperation_quiet intro!: quiet_bind)

lemma bindApproval_quiet: "quiet r (bindApproval r op grant)"
  unfolding bindApproval_def failUnnotified_def by (auto simp: abandonApproval_quiet failOperation_quiet intro!: quiet_bind)

lemma submitPending_safe:
  assumes "runtimeOK r" and "su_ID sub \<in> tk_ids \<gamma>"
  shows "safe r \<gamma> (submitPending r sub adapter plan auth core) (\<lambda>_ _. True)"
proof -
  have "safe r \<gamma> (createPending r sub) (\<lambda>_ _. True)"
    unfolding createPending_def SubmitPending_def by (rule safe_then_quiet[OF submit_safe[OF assms]]) auto
  then show ?thesis
    unfolding submitPending_def Let_def
    by (rule safe_then_quiet)
      (auto simp: requestApproval_quiet[OF assms(1)] abandonApproval_quiet finishRefused_quiet failOperation_quiet operation_calls_quiet
        bindApproval_quiet intro!: quiet_bind split: sum.splits bool.splits option.splits)
qed

lemma submitDirectGrant_safe:
  assumes "runtimeOK r" and "su_ID sub \<in> tk_ids \<gamma>"
  shows "safe r \<gamma> (submitDirectGrant r sub adapter plan auth core dec) (\<lambda>_ _. True)"
proof -
  have store: "safe r \<delta> (bindP (dbAct (\<lambda>orc. SubmitApprovedWithPlan (ro_env r) (or_io orc) None sub (or_now orc) plan')) (\<lambda>res. Ret (submitted res))) (\<lambda>_ _. True)"
    if "holds \<gamma> \<delta>" for plan' \<delta>
    unfolding SubmitApprovedWithPlan_def submitWithPlan_def
    by (rule safe_then_quiet[OF submit_safe[OF assms(1)]]) (use that assms(2) in \<open>auto simp: holds_def\<close>)
  show ?thesis
    unfolding submitDirectGrant_def
    by (rule safe_after_quiet[OF look_calls_quiet(2)]) (auto intro!: safe_Ret store split: sum.splits)
qed

lemma prepareActiveGrant_quiet: "quiet r (prepareActiveGrant r sub adapter plan auth core dec)"
  unfolding prepareActiveGrant_def by (auto simp: call_quiet intro!: quiet_bind split: sum.splits)

lemma submitActiveGrant_safe:
  assumes "runtimeOK r" and "su_ID sub \<in> tk_ids \<gamma>"
  shows "safe r \<gamma> (submitActiveGrant r sub adapter plan auth core dec) (\<lambda>_ _. True)"
proof -
  have inner: "safe r \<delta> (dbAct (\<lambda>orc. SubmitApprovedWithGrantPlan (ro_env r) (or_io orc) None sub (or_now orc) plan' g)) (\<lambda>_ _. True)"
    if "holds \<gamma> \<delta>" for plan' g \<delta>
  proof (cases "trimSpace g = []")
    case True
    then have "quiet r (dbAct (\<lambda>orc. SubmitApprovedWithGrantPlan (ro_env r) (or_io orc) None sub (or_now orc) plan' g))"
      by (intro quiet_dbAct) (simp add: SubmitApprovedWithGrantPlan_def dbMoves_refl)
    then show ?thesis
      by (rule quiet_safe)
  next
    case False
    then show ?thesis
      unfolding SubmitApprovedWithGrantPlan_def submitWithPlan_def
      using submit_safe[OF assms(1), of "sub\<lparr>su_ApprovalID := trimSpace g, su_PlanDigest := pr_Digest plan'\<rparr>" \<delta>] that assms(2)
      by (auto simp: holds_def)
  qed
  show ?thesis
    unfolding submitActiveGrant_def
    by (rule safe_after_quiet[OF prepareActiveGrant_quiet]) (auto intro!: safe_Ret safe_then_quiet[OF inner] split: sum.splits prod.splits)
qed

lemma submitResolved_safe:
  assumes "runtimeOK r"
  shows "safe r \<gamma> (submitResolved r client req adapter plan) (\<lambda>_ _. True)"
proof -
  have available: "safe r \<delta> (submitWithAvailableGrant r sub adapter plan auth core) (\<lambda>_ _. True)" if "su_ID sub \<in> tk_ids \<delta>" for sub auth core \<delta>
  proof -
    have "su_ID sub \<in> tk_ids \<delta>'" if "holds \<delta> \<delta>'" for \<delta>'
      using that \<open>su_ID sub \<in> tk_ids \<delta>\<close> by (auto simp: holds_def)
    then show ?thesis
      unfolding submitWithAvailableGrant_def
      by (intro safe_after_quiet[OF activeWindowGrant_quiet[OF assms]])
        (auto intro!: safe_Ret submitActiveGrant_safe[OF assms] submitPending_safe[OF assms] split: sum.splits prod.splits bool.splits)
  qed
  have chosen: "safe r \<delta> (bindP readClock (\<lambda>now.
      let dec = ro_Decide r core (askOptions now [])
      in if directlyAllowed dec adapter then submitDirectGrant r sub adapter plan auth core dec
         else submitWithAvailableGrant r sub adapter plan auth core)) (\<lambda>_ _. True)" if "su_ID sub \<in> tk_ids \<delta>" for sub auth core \<delta>
    by (rule safe_after_quiet[OF look_calls_quiet(2)])
      (use that in \<open>auto simp: Let_def holds_def intro!: available submitDirectGrant_safe[OF assms]\<close>)
  show ?thesis
    unfolding submitResolved_def
    by (rule safe_bind, rule safe_mono[OF drawID_safe])
      (auto simp: Let_def intro!: safe_Ret chosen[unfolded Let_def] split: option.splits prod.splits)
qed

lemma Submit_safe:
  assumes "runtimeOK r"
  shows "safe r \<gamma> (Submit r client req) (\<lambda>_ _. True)"
proof -
  have resolve: "quiet r (atom (\<lambda>orc w. (w, ap_Resolve adapter (or_tick orc) input)))" for adapter input
    by (rule quiet_inert) simp
  have new: "safe r \<delta> (submitNew r client req' adapter input) (\<lambda>_ _. True)" for \<delta> req' adapter input
    unfolding submitNew_def
    by (auto intro!: safe_Ret safe_after_quiet[OF admission_quiet(1)] safe_after_quiet[OF resolve] safe_then_quiet quiet_bind
        submitResolved_safe[OF assms] simp: admission_quiet split: option.splits sum.splits)
  have "quiet r (replayed r client req' input)" for req' input
    unfolding replayed_def by (auto simp: call_quiet intro!: quiet_bind)
  then show ?thesis
    unfolding Submit_def Let_def
    by (auto intro!: safe_Ret safe_after_quiet new split: sum.splits option.splits)
qed

section \<open>The system\<close>

definition forget :: "'b prog \<Rightarrow> unit prog" where
  "forget p = bindP p (\<lambda>_. Ret ())"

inductive handler :: "('i, 'p, 'a) RuntimeOptions \<Rightarrow> unit prog \<Rightarrow> bool" for r where
  submitting: "handler r (forget (Submit r client req))"
| canceling: "handler r (forget (Cancel r client i))"
| advancing: "handler r (Advance r op)"
| recovering: "handler r (recoverOne r op)"

type_synonym System = "gotime \<times> World \<times> unit prog list"

text \<open>
  A thread takes one action, a handler is started, an operator or a timer acts on the grant store, or the process crashes: its
  threads, its permits and the memory of admission control are gone.
\<close>

inductive sysStep :: "('i, 'p, 'a) RuntimeOptions \<Rightarrow> System \<Rightarrow> System \<Rightarrow> bool" for r where
  acts: "k < length ths \<Longrightarrow> ths ! k = Act f \<Longrightarrow> oracleIn t t' orc w \<Longrightarrow> f orc w = (w', p) \<Longrightarrow>
    sysStep r (t, w, ths) (t', w', ths[k := p])"
| starts: "handler r p \<Longrightarrow> sysStep r (t, w, ths) (t, w, ths @ [p])"
| outside: "storeStep (ro_Grants r) (t, w_gs w) (t', gs) \<Longrightarrow> t \<le> t' \<Longrightarrow> sysStep r (t, w, ths) (t', w\<lparr>w_gs := gs\<rparr>, ths)"
| crashes: "sysStep r (t, w, ths) (t, w\<lparr>w_ctrl := c, w_permits := []\<rparr>, [])"

definition emptyWorld :: "Controller \<Rightarrow> World" where
  "emptyWorld c =
     \<lparr>w_db = emptyDB, w_gs = emptyState, w_ctrl = c, w_permits = [], w_log = [], w_audit = [], w_ids = []\<rparr>"

inductive sysReach :: "('i, 'p, 'a) RuntimeOptions \<Rightarrow> System \<Rightarrow> bool" for r where
  sys_start: "0 < t \<Longrightarrow> sysReach r (t, emptyWorld c, [])"
| sys_step: "sysReach r s \<Longrightarrow> sysStep r s s' \<Longrightarrow> sysReach r s'"

lemma handler_safe: "handler r p \<Longrightarrow> runtimeOK r \<Longrightarrow> safe r \<gamma> p (\<lambda>_ _. True)"
  by (induction rule: handler.induct)
    (auto simp: forget_def recoverOne_def intro: safe_then_quiet Submit_safe quiet_safe quiet_bind Cancel_quiet Advance_safe ReconcileInterrupted_quiet)

section \<open>What the threads own\<close>

definition spent :: "World \<Rightarrow> Tokens list \<Rightarrow> string \<Rightarrow> bool" where
  "spent w \<Gamma> i \<longleftrightarrow> i \<in> set (w_ids w) \<and> \<not> waiting (w_db w) i \<and> (\<forall>\<gamma>\<in>set \<Gamma>. i \<notin> tk_ids \<gamma>)"

definition paid :: "World \<Rightarrow> Operation \<Rightarrow> bool" where
  "paid w op \<longleftrightarrow> ao_ApprovalID op \<noteq> [] \<longrightarrow> (ao_ApprovalID op, ao_ID op) \<in> recordedUses (w_gs w)"

definition tokensInv :: "World \<Rightarrow> Tokens list \<Rightarrow> bool" where
  "tokensInv w \<Gamma> \<longleftrightarrow>
     (\<forall>\<gamma>\<in>set \<Gamma>. tk_ids \<gamma> \<inter> rowIDs (w_db w) = {} \<and> tk_ids \<gamma> \<subseteq> set (w_ids w) \<and> (\<forall>i\<in>tk_ids \<gamma>. idOK i)
        \<and> tk_uses \<gamma> \<subseteq> recordedUses (w_gs w))
     \<and> (\<forall>k<length \<Gamma>. \<forall>l<length \<Gamma>. k \<noteq> l \<longrightarrow>
          tk_ids (\<Gamma> ! k) \<inter> tk_ids (\<Gamma> ! l) = {} \<and> tk_claims (\<Gamma> ! k) \<inter> tk_claims (\<Gamma> ! l) = {})
     \<and> (\<forall>\<gamma>\<in>set \<Gamma>. \<forall>i\<in>tk_claims \<gamma>. spent w \<Gamma> i \<and> i \<notin> ao_ID ` set (w_log w))
     \<and> distinct (map ao_ID (w_log w)) \<and> (\<forall>op\<in>set (w_log w). spent w \<Gamma> (ao_ID op) \<and> paid w op)"

lemma tokensInv_parts:
  assumes "tokensInv w \<Gamma>"
  shows "\<gamma> \<in> set \<Gamma> \<Longrightarrow> tk_ids \<gamma> \<inter> rowIDs (w_db w) = {} \<and> tk_ids \<gamma> \<subseteq> set (w_ids w) \<and> (\<forall>i\<in>tk_ids \<gamma>. idOK i)
      \<and> tk_uses \<gamma> \<subseteq> recordedUses (w_gs w)"
    and "k < length \<Gamma> \<Longrightarrow> l < length \<Gamma> \<Longrightarrow> k \<noteq> l \<Longrightarrow>
      tk_ids (\<Gamma> ! k) \<inter> tk_ids (\<Gamma> ! l) = {} \<and> tk_claims (\<Gamma> ! k) \<inter> tk_claims (\<Gamma> ! l) = {}"
    and "\<gamma> \<in> set \<Gamma> \<Longrightarrow> i \<in> tk_claims \<gamma> \<Longrightarrow> spent w \<Gamma> i \<and> i \<notin> ao_ID ` set (w_log w)"
    and "distinct (map ao_ID (w_log w))"
    and "op \<in> set (w_log w) \<Longrightarrow> spent w \<Gamma> (ao_ID op) \<and> paid w op"
  using assms by (simp_all add: tokensInv_def)

lemma good_parts:
  assumes "good \<gamma> w w'"
  shows "rowIDs (w_db w') - rowIDs (w_db w) \<subseteq> tk_ids \<gamma>" and "i \<in> rowIDs (w_db w) \<Longrightarrow> waiting (w_db w') i \<Longrightarrow> waiting (w_db w) i"
    and "set (w_ids w) \<subseteq> set (w_ids w')" and "i \<in> set (w_ids w') \<Longrightarrow> i \<notin> set (w_ids w) \<Longrightarrow> idOK i"
    and "w_log w' = w_log w @ started w w'" and "op \<in> set (started w w') \<Longrightarrow> started w w' = [op] \<and> mayRun \<gamma> op"
  using assms by (auto simp: good_def started_def)

lemma tokensAfter_ids:
  "i \<in> tk_ids (tokensAfter \<gamma> w w') \<Longrightarrow> (i \<in> tk_ids \<gamma> \<or> i \<in> set (w_ids w') - set (w_ids w)) \<and> (i \<in> rowIDs (w_db w') \<longrightarrow> i \<in> rowIDs (w_db w))"
  by (auto simp: tokensAfter_def)

lemma tokensAfter_claims:
  "i \<in> tk_claims (tokensAfter \<gamma> w w') \<Longrightarrow>
     (i \<in> tk_claims \<gamma> \<or> (waiting (w_db w) i \<and> executing (w_db w') i)) \<and> i \<notin> ao_ID ` set (started w w')"
  by (auto simp: tokensAfter_def)

lemma waiting_row: "waiting db i \<Longrightarrow> i \<in> rowIDs db"
  by (auto simp: waiting_def rowIDs_def)

lemma executing_not_waiting:
  assumes "opsInv env t db" and "executing db i"
  shows "\<not> waiting db i"
proof
  assume "waiting db i"
  then obtain a b where "a \<in> set (ad_ops db)" "b \<in> set (ad_ops db)" "ao_ID a = i" "ao_ID b = i"
    and states: "ao_State a \<in> {StatePending, StateApproved}" "ao_State b = StateExecuting"
    using assms(2) by (auto simp: waiting_def executing_def)
  then have "a = b"
    using OperationByID_unique[OF assms(1)] by (metis option.inject)
  then show False
    using states by auto
qed

lemma spent_step:
  assumes "k < length \<Gamma>" and "good (\<Gamma> ! k) w w'" and "spent w \<Gamma> i"
  shows "spent w' (\<Gamma>[k := tokensAfter (\<Gamma> ! k) w w']) i"
proof -
  note good = good_parts[OF assms(2)]
  have i: "i \<in> set (w_ids w)" "\<not> waiting (w_db w) i" "\<forall>\<gamma>\<in>set \<Gamma>. i \<notin> tk_ids \<gamma>"
    using assms(3) by (simp_all add: spent_def)
  have "i \<notin> tk_ids (\<Gamma> ! k)"
    using i(3) assms(1) by simp
  then have "i \<notin> tk_ids (tokensAfter (\<Gamma> ! k) w w')"
    using tokensAfter_ids[of i "\<Gamma> ! k" w w'] i(1) by blast
  moreover have "\<not> waiting (w_db w') i"
    using good(1,2) i(2) \<open>i \<notin> tk_ids (\<Gamma> ! k)\<close> waiting_row by blast
  ultimately show ?thesis
    using i good(3) set_update_subset_insert[of \<Gamma> k] by (auto simp: spent_def)
qed

lemma claim_spent:
  assumes "worldInv r t w" and "tokensInv w \<Gamma>" and "k < length \<Gamma>" and "good (\<Gamma> ! k) w w'" and "opsInv env t' (w_db w')"
    and "waiting (w_db w) i" and "executing (w_db w') i"
  shows "spent w' (\<Gamma>[k := tokensAfter (\<Gamma> ! k) w w']) i" and "i \<notin> ao_ID ` set (w_log w)" and "\<gamma> \<in> set \<Gamma> \<Longrightarrow> i \<notin> tk_claims \<gamma>"
proof -
  have row: "i \<in> rowIDs (w_db w)" "i \<in> set (w_ids w)"
    using assms(1) waiting_row[OF assms(6)] by (auto simp: worldInv_def)
  have free: "i \<notin> tk_ids \<gamma>" if "\<gamma> \<in> set \<Gamma>" for \<gamma>
    using tokensInv_parts(1)[OF assms(2) that] row(1) by blast
  then have "i \<notin> tk_ids (tokensAfter (\<Gamma> ! k) w w')"
    using tokensAfter_ids[of i "\<Gamma> ! k" w w'] row(2) assms(3) nth_mem by blast
  then show "spent w' (\<Gamma>[k := tokensAfter (\<Gamma> ! k) w w']) i"
    using row(2) good_parts(3)[OF assms(4)] executing_not_waiting[OF assms(5,7)] free set_update_subset_insert[of \<Gamma> k]
    by (auto simp: spent_def)
  show "i \<notin> ao_ID ` set (w_log w)"
    using tokensInv_parts(5)[OF assms(2)] assms(6) by (auto simp: spent_def)
  show "\<gamma> \<in> set \<Gamma> \<Longrightarrow> i \<notin> tk_claims \<gamma>"
    using tokensInv_parts(3)[OF assms(2)] assms(6) by (auto simp: spent_def)
qed

lemma other_tokens_step:
  assumes "tokensInv w \<Gamma>" and "k < length \<Gamma>" and "l < length \<Gamma>" and "l \<noteq> k" and "good (\<Gamma> ! k) w w'" and "keepsUses (w_gs w) (w_gs w')"
  shows "tk_ids (\<Gamma> ! l) \<inter> rowIDs (w_db w') = {} \<and> tk_ids (\<Gamma> ! l) \<subseteq> set (w_ids w') \<and> (\<forall>i\<in>tk_ids (\<Gamma> ! l). idOK i)
      \<and> tk_uses (\<Gamma> ! l) \<subseteq> recordedUses (w_gs w')"
    and "tk_ids (\<Gamma> ! l) \<inter> tk_ids (tokensAfter (\<Gamma> ! k) w w') = {}"
proof -
  note good = good_parts[OF assms(5)]
  have own: "tk_ids (\<Gamma> ! l) \<inter> rowIDs (w_db w) = {}" "tk_ids (\<Gamma> ! l) \<subseteq> set (w_ids w)" "\<forall>i\<in>tk_ids (\<Gamma> ! l). idOK i"
      "tk_uses (\<Gamma> ! l) \<subseteq> recordedUses (w_gs w)"
    using tokensInv_parts(1)[OF assms(1) nth_mem[OF assms(3)]] by auto
  have apart: "tk_ids (\<Gamma> ! l) \<inter> tk_ids (\<Gamma> ! k) = {}"
    using tokensInv_parts(2)[OF assms(1) assms(3,2,4)] by simp
  show "tk_ids (\<Gamma> ! l) \<inter> rowIDs (w_db w') = {} \<and> tk_ids (\<Gamma> ! l) \<subseteq> set (w_ids w') \<and> (\<forall>i\<in>tk_ids (\<Gamma> ! l). idOK i)
      \<and> tk_uses (\<Gamma> ! l) \<subseteq> recordedUses (w_gs w')"
    using own apart good(1,3) recordedUses_kept[OF assms(6)] by blast
  show "tk_ids (\<Gamma> ! l) \<inter> tk_ids (tokensAfter (\<Gamma> ! k) w w') = {}"
    using own(2) apart tokensAfter_ids[of _ "\<Gamma> ! k" w w'] by blast
qed

lemma own_tokens_step:
  assumes "worldInv r t w" and "tokensInv w \<Gamma>" and "k < length \<Gamma>" and "good (\<Gamma> ! k) w w'"
  shows "tk_ids (tokensAfter (\<Gamma> ! k) w w') \<inter> rowIDs (w_db w') = {} \<and> tk_ids (tokensAfter (\<Gamma> ! k) w w') \<subseteq> set (w_ids w')
    \<and> (\<forall>i\<in>tk_ids (tokensAfter (\<Gamma> ! k) w w'). idOK i) \<and> tk_uses (tokensAfter (\<Gamma> ! k) w w') \<subseteq> recordedUses (w_gs w')"
proof -
  note good = good_parts[OF assms(4)]
  have own: "tk_ids (\<Gamma> ! k) \<inter> rowIDs (w_db w) = {}" "tk_ids (\<Gamma> ! k) \<subseteq> set (w_ids w)" "\<forall>i\<in>tk_ids (\<Gamma> ! k). idOK i"
    using tokensInv_parts(1)[OF assms(2) nth_mem[OF assms(3)]] by auto
  have rows: "rowIDs (w_db w) \<subseteq> set (w_ids w)"
    using assms(1) by (simp add: worldInv_def)
  have "i \<notin> rowIDs (w_db w') \<and> i \<in> set (w_ids w') \<and> idOK i" if i: "i \<in> tk_ids (tokensAfter (\<Gamma> ! k) w w')" for i
    using tokensAfter_ids[OF i] own rows good(3) good(4)[of i] by blast
  then show ?thesis
    by (auto simp: tokensAfter_def)
qed

lemma claims_step:
  assumes "worldInv r t w" and "tokensInv w \<Gamma>" and "k < length \<Gamma>" and "good (\<Gamma> ! k) w w'" and "opsInv env t' (w_db w')"
    and "l < length \<Gamma>" and "i \<in> tk_claims (\<Gamma>[k := tokensAfter (\<Gamma> ! k) w w'] ! l)"
  shows "spent w' (\<Gamma>[k := tokensAfter (\<Gamma> ! k) w w']) i \<and> i \<notin> ao_ID ` set (w_log w')"
proof -
  note good = good_parts[OF assms(4)] and old = tokensInv_parts(3)[OF assms(2)]
  have run: "ao_ID op \<in> tk_claims (\<Gamma> ! k)" if "op \<in> set (started w w')" for op
    using good(6)[OF that] by (simp add: mayRun_def)
  show ?thesis
  proof (cases "l = k")
    case False
    then have i: "i \<in> tk_claims (\<Gamma> ! l)"
      using assms(7) by simp
    then have "i \<notin> ao_ID ` set (started w w')"
      using run tokensInv_parts(2)[OF assms(2) assms(6,3) False] by blast
    then show ?thesis
      using old[OF nth_mem[OF assms(6)] i] spent_step[OF assms(3,4)] good(5) by (metis Un_iff image_Un set_append)
  next
    case True
    then have i: "i \<in> tk_claims (\<Gamma> ! k) \<or> (waiting (w_db w) i \<and> executing (w_db w') i)" "i \<notin> ao_ID ` set (started w w')"
      using assms(3,7) tokensAfter_claims[of i "\<Gamma> ! k" w w'] by auto
    have "spent w' (\<Gamma>[k := tokensAfter (\<Gamma> ! k) w w']) i \<and> i \<notin> ao_ID ` set (w_log w)"
      using i(1) old[OF nth_mem[OF assms(3)]] spent_step[OF assms(3,4)] claim_spent(1,2)[OF assms(1-5)] by blast
    then show ?thesis
      using i(2) good(5) by (metis Un_iff image_Un set_append)
  qed
qed

lemma claims_apart:
  assumes "worldInv r t w" and "tokensInv w \<Gamma>" and "k < length \<Gamma>" and "good (\<Gamma> ! k) w w'" and "opsInv env t' (w_db w')"
    and "l < length \<Gamma>" and "l \<noteq> k"
  shows "tk_claims (\<Gamma> ! l) \<inter> tk_claims (tokensAfter (\<Gamma> ! k) w w') = {}"
  using tokensInv_parts(2)[OF assms(2) assms(6,3,7)] tokensAfter_claims[of _ "\<Gamma> ! k" w w']
    claim_spent(3)[OF assms(1-5) _ _ nth_mem[OF assms(6)]] by blast

lemma log_step:
  assumes "tokensInv w \<Gamma>" and "k < length \<Gamma>" and "good (\<Gamma> ! k) w w'" and "keepsUses (w_gs w) (w_gs w')"
  shows "distinct (map ao_ID (w_log w'))"
    and "op \<in> set (w_log w') \<Longrightarrow> spent w' (\<Gamma>[k := tokensAfter (\<Gamma> ! k) w w']) (ao_ID op) \<and> paid w' op"
proof -
  note good = good_parts[OF assms(3)]
  have new: "started w w' = [op] \<and> ao_ID op \<notin> ao_ID ` set (w_log w) \<and> spent w \<Gamma> (ao_ID op) \<and> paid w op" if "op \<in> set (started w w')" for op
  proof -
    have "mayRun (\<Gamma> ! k) op" "started w w' = [op]"
      using good(6)[OF that] by auto
    then show ?thesis
      using tokensInv_parts(3)[OF assms(1) nth_mem[OF assms(2)]] tokensInv_parts(1)[OF assms(1) nth_mem[OF assms(2)]]
      by (auto simp: mayRun_def paid_def)
  qed
  show "distinct (map ao_ID (w_log w'))"
  proof (cases "started w w'")
    case Nil
    then show ?thesis
      using tokensInv_parts(4)[OF assms(1)] by (simp add: good(5))
  next
    case (Cons op ops)
    then have "started w w' = [op]" "ao_ID op \<notin> ao_ID ` set (w_log w)"
      using new[of op] by auto
    then show ?thesis
      using tokensInv_parts(4)[OF assms(1)] by (simp add: good(5))
  qed
  show "spent w' (\<Gamma>[k := tokensAfter (\<Gamma> ! k) w w']) (ao_ID op) \<and> paid w' op" if "op \<in> set (w_log w')"
  proof -
    have "spent w \<Gamma> (ao_ID op) \<and> paid w op"
      using that new tokensInv_parts(5)[OF assms(1)] unfolding good(5) by auto
    then show ?thesis
      using spent_step[OF assms(2,3)] recordedUses_kept[OF assms(4)] by (auto simp: paid_def)
  qed
qed

lemma tokensInv_step:
  assumes "worldInv r t w" and "tokensInv w \<Gamma>" and "k < length \<Gamma>" and "good (\<Gamma> ! k) w w'" and "worldMoves r t' w w'"
  shows "worldInv r t' w'" and "tokensInv w' (\<Gamma>[k := tokensAfter (\<Gamma> ! k) w w'])"
proof -
  have ops: "opsInv (ro_env r) t' (w_db w')" and kept: "keepsUses (w_gs w) (w_gs w')" and gs: "storeInv (ro_Grants r) t' (w_gs w')"
    using assms(5) by (simp_all add: worldMoves_def gsMoves_def storeMoves_def)
  have "rowIDs (w_db w) \<subseteq> set (w_ids w)"
    using assms(1) by (simp add: worldInv_def)
  then have "rowIDs (w_db w') \<subseteq> set (w_ids w')"
    using good_parts(1,3)[OF assms(4)] tokensInv_parts(1)[OF assms(2) nth_mem[OF assms(3)]] by blast
  then show "worldInv r t' w'"
    using ops gs by (simp add: worldInv_def)
  let ?\<Gamma> = "\<Gamma>[k := tokensAfter (\<Gamma> ! k) w w']"
  show "tokensInv w' ?\<Gamma>"
    unfolding tokensInv_def
  proof (intro conjI ballI allI impI)
    fix \<gamma> assume "\<gamma> \<in> set ?\<Gamma>"
    then obtain l where l: "l < length \<Gamma>" "\<gamma> = ?\<Gamma> ! l"
      by (auto simp: in_set_conv_nth)
    then have parts: "tk_ids \<gamma> \<inter> rowIDs (w_db w') = {} \<and> tk_ids \<gamma> \<subseteq> set (w_ids w') \<and> (\<forall>i\<in>tk_ids \<gamma>. idOK i)
        \<and> tk_uses \<gamma> \<subseteq> recordedUses (w_gs w')"
      using own_tokens_step[OF assms(1-4)] other_tokens_step(1)[OF assms(2,3) l(1) _ assms(4) kept] assms(3) by (cases "l = k") auto
    then show "tk_ids \<gamma> \<inter> rowIDs (w_db w') = {}" "tk_ids \<gamma> \<subseteq> set (w_ids w')" "tk_uses \<gamma> \<subseteq> recordedUses (w_gs w')"
      by blast+
    show "idOK i" if "i \<in> tk_ids \<gamma>" for i
      using parts that by blast
    show "spent w' ?\<Gamma> i" "i \<notin> ao_ID ` set (w_log w')" if "i \<in> tk_claims \<gamma>" for i
      using claims_step[OF assms(1-4) ops l(1)] that l(2) by blast+
  next
    fix a b assume ab: "a < length ?\<Gamma>" "b < length ?\<Gamma>" "a \<noteq> b"
    have apart: "tk_ids (\<Gamma> ! l) \<inter> tk_ids (?\<Gamma> ! k) = {} \<and> tk_claims (\<Gamma> ! l) \<inter> tk_claims (?\<Gamma> ! k) = {}" if "l < length \<Gamma>" "l \<noteq> k" for l
      using other_tokens_step(2)[OF assms(2,3) that assms(4) kept] claims_apart[OF assms(1-4) ops that] assms(3) by simp
    consider "a = k" "b \<noteq> k" | "a \<noteq> k" "b = k" | "a \<noteq> k" "b \<noteq> k"
      using ab(3) by blast
    then have "tk_ids (?\<Gamma> ! a) \<inter> tk_ids (?\<Gamma> ! b) = {} \<and> tk_claims (?\<Gamma> ! a) \<inter> tk_claims (?\<Gamma> ! b) = {}"
    proof cases
      case 1
      then have "?\<Gamma> ! b = \<Gamma> ! b"
        by simp
      then show ?thesis
        using apart[of b] ab 1 by (metis Int_commute length_list_update)
    next
      case 2
      then have "?\<Gamma> ! a = \<Gamma> ! a"
        by simp
      then show ?thesis
        using apart[of a] ab 2 by (metis length_list_update)
    next
      case 3
      then have "?\<Gamma> ! a = \<Gamma> ! a" "?\<Gamma> ! b = \<Gamma> ! b"
        by simp_all
      then show ?thesis
        using tokensInv_parts(2)[OF assms(2), of a b] ab by (metis length_list_update)
    qed
    then show "tk_ids (?\<Gamma> ! a) \<inter> tk_ids (?\<Gamma> ! b) = {}" "tk_claims (?\<Gamma> ! a) \<inter> tk_claims (?\<Gamma> ! b) = {}"
      by (rule conjunct1, rule conjunct2)
  next
    show "distinct (map ao_ID (w_log w'))"
      by (rule log_step(1)[OF assms(2-4) kept])
  next
    fix op assume "op \<in> set (w_log w')"
    then show "spent w' ?\<Gamma> (ao_ID op)" "paid w' op"
      using log_step(2)[OF assms(2-4) kept] by blast+
  qed
qed

section \<open>Reachable systems\<close>

definition sysInv :: "('i, 'p, 'a) RuntimeOptions \<Rightarrow> System \<Rightarrow> bool" where
  "sysInv r s \<longleftrightarrow> (case s of (t, w, ths) \<Rightarrow>
     worldInv r t w \<and> (\<exists>\<Gamma>. length \<Gamma> = length ths \<and> tokensInv w \<Gamma> \<and> (\<forall>k<length ths. safe r (\<Gamma> ! k) (ths ! k) (\<lambda>_ _. True))))"

lemma sysInvI:
  assumes "worldInv r t w" and "length \<Gamma> = length ths" and "tokensInv w \<Gamma>" and "\<And>k. k < length ths \<Longrightarrow> safe r (\<Gamma> ! k) (ths ! k) (\<lambda>_ _. True)"
  shows "sysInv r (t, w, ths)"
  using assms by (auto simp: sysInv_def)

lemma sysInvE:
  assumes "sysInv r (t, w, ths)"
  obtains \<Gamma> where "worldInv r t w" "length \<Gamma> = length ths" "tokensInv w \<Gamma>" "\<And>k. k < length ths \<Longrightarrow> safe r (\<Gamma> ! k) (ths ! k) (\<lambda>_ _. True)"
  using assms by (auto simp: sysInv_def)

lemma acts_inv:
  assumes "sysInv r (t, w, ths)" and "k < length ths" and "ths ! k = Act f" and "oracleIn t t' orc w" and "f orc w = (w', p)"
  shows "sysInv r (t', w', ths[k := p])"
proof -
  obtain \<Gamma> where inv: "worldInv r t w" "length \<Gamma> = length ths" "tokensInv w \<Gamma>" "\<And>k. k < length ths \<Longrightarrow> safe r (\<Gamma> ! k) (ths ! k) (\<lambda>_ _. True)"
    by (rule sysInvE[OF assms(1)]) blast
  have k: "k < length \<Gamma>"
    using inv(2) assms(2) by simp
  have fit: "fits r t t' (\<Gamma> ! k) orc w"
    using inv(1) assms(4) tokensInv_parts(1)[OF inv(3) nth_mem[OF k]] by (simp add: fits_def)
  have "safe r (\<Gamma> ! k) (Act f) (\<lambda>_ _. True)"
    using inv(4)[OF assms(2)] assms(3) by simp
  then have step: "good (\<Gamma> ! k) w w'" "worldMoves r t' w w'" "safe r (tokensAfter (\<Gamma> ! k) w w') p (\<lambda>_ _. True)"
    using fit assms(5) by (auto elim!: safe_Act_elim)
  note after = tokensInv_step[OF inv(1,3) k step(1,2)]
  show ?thesis
    by (rule sysInvI[OF after(1) _ after(2)]) (use inv(2,4) step(3) k in \<open>auto simp: nth_list_update\<close>)
qed

lemma starts_inv:
  assumes "sysInv r (t, w, ths)" and "handler r p" and "runtimeOK r"
  shows "sysInv r (t, w, ths @ [p])"
proof -
  obtain \<Gamma> where inv: "worldInv r t w" "length \<Gamma> = length ths" "tokensInv w \<Gamma>" "\<And>k. k < length ths \<Longrightarrow> safe r (\<Gamma> ! k) (ths ! k) (\<lambda>_ _. True)"
    by (rule sysInvE[OF assms(1)]) blast
  let ?new = "\<lparr>tk_ids = {}, tk_claims = {}, tk_uses = {}\<rparr> :: Tokens"
  have tokens: "tokensInv w (\<Gamma> @ [?new])"
    using inv(3) by (auto simp: tokensInv_def spent_def nth_append)
  show ?thesis
    by (rule sysInvI[OF inv(1) _ tokens]) (use inv(2,4) handler_safe[OF assms(2,3)] in \<open>auto simp: nth_append less_Suc_eq\<close>)
qed

lemma outside_inv:
  assumes "sysInv r (t, w, ths)" and "storeStep (ro_Grants r) (t, w_gs w) (t', gs)" and "t \<le> t'"
  shows "sysInv r (t', w\<lparr>w_gs := gs\<rparr>, ths)"
proof -
  obtain \<Gamma> where inv: "worldInv r t w" "length \<Gamma> = length ths" "tokensInv w \<Gamma>" "\<And>k. k < length ths \<Longrightarrow> safe r (\<Gamma> ! k) (ths ! k) (\<lambda>_ _. True)"
    by (rule sysInvE[OF assms(1)]) blast
  have "gsMoves (ro_Grants r) t' (w_gs w) gs"
    using storeStep_gsMoves[OF assms(2)] inv(1) by (simp add: worldInv_def)
  then have gs: "storeInv (ro_Grants r) t' gs" "recordedUses (w_gs w) \<subseteq> recordedUses gs"
    by (simp_all add: gsMoves_def storeMoves_def recordedUses_kept)
  have "worldInv r t' (w\<lparr>w_gs := gs\<rparr>)"
    using inv(1) gs(1) opsInv_later[OF _ assms(3)] by (auto simp: worldInv_def)
  moreover have "tokensInv (w\<lparr>w_gs := gs\<rparr>) \<Gamma>"
    using inv(3) gs(2) by (auto 0 3 simp: tokensInv_def spent_def paid_def)
  ultimately show ?thesis
    using inv(2,4) by (intro sysInvI)
qed

lemma crashes_inv:
  assumes "sysInv r (t, w, ths)"
  shows "sysInv r (t, w\<lparr>w_ctrl := c, w_permits := []\<rparr>, [])"
proof -
  obtain \<Gamma> where inv: "worldInv r t w" "tokensInv w \<Gamma>"
    by (rule sysInvE[OF assms]) blast
  have "worldInv r t (w\<lparr>w_ctrl := c, w_permits := []\<rparr>)"
    using inv(1) by (simp add: worldInv_def)
  moreover have "tokensInv (w\<lparr>w_ctrl := c, w_permits := []\<rparr>) []"
    using inv(2) by (auto simp: tokensInv_def spent_def paid_def)
  ultimately show ?thesis
    by (intro sysInvI[where \<Gamma> = "[]"]) simp_all
qed

lemma sysReach_inv:
  assumes "sysReach r s" and "runtimeOK r" and "validOptions (ro_Grants r)"
  shows "sysInv r s"
  using assms(1)
proof induction
  case (sys_start t c)
  have "worldInv r t (emptyWorld c)"
    using sys_start emptyState_inv[OF assms(3)] by (simp add: worldInv_def emptyWorld_def emptyDB_def opsInv_def rowIDs_def)
  then show ?case
    by (rule sysInvI[where \<Gamma> = "[]"]) (simp_all add: tokensInv_def emptyWorld_def)
next
  case (sys_step s s')
  from sys_step(2) sys_step(3) show ?case
    by (induction rule: sysStep.induct) (auto intro: acts_inv starts_inv[OF _ _ assms(2)] outside_inv crashes_inv)
qed

end
