(* ===== verification/RuntimeExecution.thy ===== *)
theory RuntimeExecution
  imports RuntimeSystem GrantProperties
begin

text \<open>
  One handler run to its end: a weakest-precondition calculus for programs, and along the code of \<^verbatim>\<open>Execute\<close> and
  \<^verbatim>\<open>ReconcileInterrupted\<close> the fact that an operation that is executing is ended.
\<close>

section \<open>Running a handler undisturbed\<close>

text \<open>Total correctness of one handler: the stores answer, the clock does not go back behind \<open>T\<close>, the provider does what it likes.\<close>

definition answering :: "gotime \<Rightarrow> Oracle \<Rightarrow> bool" where
  "answering T orc \<longleftrightarrow> or_io orc = (\<lambda>_. True) \<and> T \<le> or_now orc"

primrec wp :: "gotime \<Rightarrow> 'b prog \<Rightarrow> ('b \<Rightarrow> World \<Rightarrow> bool) \<Rightarrow> World \<Rightarrow> bool" where
  "wp T (Ret x) = (\<lambda>Q w. Q x w)"
| "wp T (Act f) = (\<lambda>Q w. \<forall>orc. answering T orc \<longrightarrow> (case map_prod id (wp T) (f orc w) of (w', P) \<Rightarrow> P Q w'))"

lemma wp_Act: "wp T (Act f) Q w \<longleftrightarrow> (\<forall>orc. answering T orc \<longrightarrow> wp T (snd (f orc w)) Q (fst (f orc w)))"
  by (simp add: case_prod_beta)

declare wp.simps(2) [simp del]

lemma wp_bind: "wp T (bindP p k) Q w \<longleftrightarrow> wp T p (\<lambda>x w'. wp T (k x) Q w') w"
  by (induction p arbitrary: w rule: prog_induct) (simp_all add: wp_Act)

lemma wp_atom: "wp T (atom f) Q w \<longleftrightarrow> (\<forall>orc. answering T orc \<longrightarrow> Q (snd (f orc w)) (fst (f orc w)))"
  by (simp add: atom_def wp_Act)

lemma wp_mono: "wp T p Q w \<Longrightarrow> (\<And>x w'. Q x w' \<Longrightarrow> Q' x w') \<Longrightarrow> wp T p Q' w"
  by (induction p arbitrary: w rule: prog_induct) (auto simp: wp_Act)

text \<open>Actions that leave the operation store alone, and programs made of them.\<close>

definition leaves :: "'b prog \<Rightarrow> bool" where
  "leaves p \<longleftrightarrow> (\<forall>T w. wp T p (\<lambda>_ w'. w_db w' = w_db w) w)"

lemma leaves_atom: "(\<And>orc w. w_db (fst (f orc w)) = w_db w) \<Longrightarrow> leaves (atom f)"
  by (simp add: leaves_def wp_atom)

lemma leaves_Ret [simp]: "leaves (Ret x)"
  by (simp add: leaves_def)

lemma wp_leaves:
  assumes "leaves p" and "\<And>x w'. w_db w' = w_db w \<Longrightarrow> wp T (k x) Q w'"
  shows "wp T (bindP p k) Q w"
  unfolding wp_bind by (rule wp_mono[OF assms(1)[unfolded leaves_def, rule_format]]) (rule assms(2))

lemma calls_leave:
  "leaves (getGrant r g)" "leaves (listForClient r client)" "leaves (getUse r g i)" "leaves (closeGrant r g client active)"
  "leaves (reserve r g i operation)" "leaves (settle r g i target)" "leaves (audit op outcome detail status)" "leaves (dbRead f)"
  "leaves readClock" "leaves (getByID r i)" "leaves (reconcileProvider adapter plan)" "leaves (executeProvider adapter op plan)"
  unfolding getGrant_def listForClient_def getUse_def closeGrant_def reserve_def settle_def audit_def dbRead_def readClock_def getByID_def
    reconcileProvider_def executeProvider_def gsAct_def
  by (rule leaves_atom; simp add: case_prod_beta)+

section \<open>Ending a running operation\<close>

text \<open>A row that \<^verbatim>\<open>update\<close> can read and write at any time after \<open>T\<close>.\<close>

definition writableRow :: "AgentEnv \<Rightarrow> gotime \<Rightarrow> AgentDB \<Rightarrow> Operation \<Rightarrow> bool" where
  "writableRow env T db row \<longleftrightarrow>
     distinct (map ao_ID (ad_ops db)) \<and> OperationByID (ao_ID row) db = Some row \<and> opSound env row \<and> opSized row
     \<and> (ao_PlanDigest row = [] \<or> ao_PlanDigest row \<in> planDigests db) \<and> ao_CreatedAt row \<le> T \<and> 0 < T"

definition runningRow :: "AgentEnv \<Rightarrow> gotime \<Rightarrow> AgentDB \<Rightarrow> string \<Rightarrow> bool" where
  "runningRow env T db i \<longleftrightarrow> (\<exists>row. writableRow env T db row \<and> ao_ID row = i \<and> ao_State row = StateExecuting)"

definition endedRow :: "AgentDB \<Rightarrow> string \<Rightarrow> bool" where
  "endedRow db i \<longleftrightarrow> (\<exists>row. OperationByID i db = Some row \<and> Terminal (ao_State row))"

text \<open>The table takes every row that \<^verbatim>\<open>validateStored\<close> takes, and the broker names its failures within the limits of the store.\<close>

definition failuresStored :: "('i, 'p, 'a) RuntimeOptions \<Rightarrow> bool" where
  "failuresStored r \<longleftrightarrow>
     (\<forall>a b. validOperationError \<lparr>oe_Code = fl_Code (ro_ExecutionFailure r a b), oe_Message = fl_Message (ro_ExecutionFailure r a b)\<rparr>)
     \<and> (\<forall>op. validateStored (ro_env r) op = None \<longrightarrow> ae_fits (ro_env r) op)"

lemma find_row_map:
  "(\<And>r. ao_ID (f r) = ao_ID r) \<Longrightarrow> List.find (\<lambda>r. ao_ID r = i) (map f rows) = map_option f (List.find (\<lambda>r. ao_ID r = i) rows)"
  by (induction rows) auto

lemma prepared_sound:
  assumes "opMoves env old new" and "opSound env old" and "opSized old" and "ao_CreatedAt old \<le> now" and "0 < now"
  shows "opSound env (prepareOperationUpdate now new)"
proof -
  let ?old = "old\<lparr>ao_UpdatedAt := ao_CreatedAt old\<rparr>"
  have "opMoves env ?old new" "opSound env ?old" "opSized ?old" "ao_UpdatedAt ?old \<le> now"
    using assms by (auto simp: opMoves_def fixedPart_def opSound_def opSized_def validStoredIdentity_def validStoredTerminal_def submissionOf_def)
  then show ?thesis
    using prepared_follows(2) assms(5) by blast
qed

text \<open>What \<^verbatim>\<open>update\<close> does with such a row: it writes the change, or the table refuses it and nothing has changed.\<close>

lemma updateOp_result:
  assumes "writableRow env T db row" and "change row = Inr new" and "fixedPart new = fixedPart row" and "ao_Revision new = ao_Revision row"
    and "ao_PlanDigest new = ao_PlanDigest row" and "i = ao_ID row"
  shows "updateOp env (\<lambda>_. True) now i change db =
     (if ae_fits env (prepareOperationUpdate now new)
      then (replaceOp (prepareOperationUpdate now new) db, Inr (prepareOperationUpdate now new)) else (db, Inl OpConstraint))"
    and "OperationByID i (replaceOp (prepareOperationUpdate now new) db) = Some (prepareOperationUpdate now new)"
proof -
  let ?op = "prepareOperationUpdate now new"
  have row: "row \<in> set (ad_ops db)" "OperationByID i db = Some row"
    using OperationByID_Some assms(1,6) by (auto simp: writableRow_def)
  have op: "fixedPart ?op = fixedPart row" "ao_PlanDigest ?op = ao_PlanDigest row" "ao_ID ?op = i"
    using assms(3,5,6) by (simp_all add: prepareOperationUpdate_def Let_def fixedPart_def)
  have only: "x = row" if "x \<in> set (ad_ops db)" "ao_ID x = i" for x
    using assms(1,6) row that by (auto simp: writableRow_def distinct_map inj_on_def)
  have "storedOperation env True (OperationByID i db) = Inr row"
    using assms(1) row(2) by (simp add: storedOperation_Inr writableRow_def)
  moreover have "UpdateOperation env True ?op (ao_Revision row) db =
      (if ae_fits env ?op then Inr (replaceOp ?op db, True) else Inl OpConstraint)"
  proof -
    let ?hit = "\<lambda>x. ao_ID x = i \<and> ao_Revision x = ao_Revision row"
    have written: "?hit x \<longleftrightarrow> ao_ID x = i" "?hit x \<Longrightarrow> writeColumns ?op x = ?op" if "x \<in> set (ad_ops db)" for x
      using only[OF that] writeColumns_same[OF op(1)] by auto
    have "list_ex ?hit (ad_ops db)"
      using row(1) assms(6) by (auto simp: list_ex_iff)
    moreover have "list_all (\<lambda>x. ?hit x \<longrightarrow> rowAccepted env db (writeColumns ?op x)) (ad_ops db) \<longleftrightarrow> ae_fits env ?op"
      using row(1) assms(1,6) written op(2) by (fastforce simp: list_all_iff rowAccepted_def writableRow_def)
    moreover have "map (\<lambda>x. if ?hit x then writeColumns ?op x else x) (ad_ops db) = map (\<lambda>x. if ao_ID x = i then ?op else x) (ad_ops db)"
      using written by auto
    ultimately show ?thesis
      by (simp add: UpdateOperation_def Let_def op(3) replaceOp_def)
  qed
  ultimately show "updateOp env (\<lambda>_. True) now i change db = (if ae_fits env ?op then (replaceOp ?op db, Inr ?op) else (db, Inl OpConstraint))"
    using assms(2) by (simp add: updateOp_def Let_def)
  show "OperationByID i (replaceOp ?op db) = Some ?op"
    using row(2) assms(6) op(3) find_row_map[of "\<lambda>x. if ao_ID x = i then ?op else x" i "ad_ops db"]
    by (simp add: OperationByID_def replaceOp_def)
qed

lemma updateOp_writes:
  assumes "writableRow env T db row" and "\<forall>op. validateStored env op = None \<longrightarrow> ae_fits env op" and "T \<le> now" and "i = ao_ID row"
    and "change row = Inr new" and "opMoves env row new" and "ao_PlanDigest new = ao_PlanDigest row" and "opSized new"
  shows "updateOp env (\<lambda>_. True) now i change db = (replaceOp (prepareOperationUpdate now new) db, Inr (prepareOperationUpdate now new))"
    and "OperationByID i (replaceOp (prepareOperationUpdate now new) db) = Some (prepareOperationUpdate now new)"
    and "writableRow env T (replaceOp (prepareOperationUpdate now new) db) (prepareOperationUpdate now new)"
proof -
  let ?op = "prepareOperationUpdate now new"
  have row: "ao_CreatedAt row \<le> now" "0 < now" "opSound env row" "opSized row"
    using assms(1,3) by (auto simp: writableRow_def)
  have sound: "opSound env ?op"
    by (rule prepared_sound[OF assms(6) row(3,4,1,2)])
  have sized: "opSized ?op" and fields: "ao_ID ?op = i" "ao_CreatedAt ?op = ao_CreatedAt row" "ao_PlanDigest ?op = ao_PlanDigest row"
    using assms(4,6-8) by (simp_all add: prepareOperationUpdate_def Let_def opSized_def opMoves_def fixedPart_def)
  have "ae_fits env ?op"
    using assms(2) sound sized by (simp add: validateStored_iff)
  moreover note moved = updateOp_result[where change = change, OF assms(1,5) _ _ assms(7,4), of now]
  ultimately show "updateOp env (\<lambda>_. True) now i change db = (replaceOp ?op db, Inr ?op)" "OperationByID i (replaceOp ?op db) = Some ?op"
    using assms(6) by (simp_all add: opMoves_def)
  moreover have "map ao_ID (ad_ops (replaceOp ?op db)) = map ao_ID (ad_ops db)" "planDigests (replaceOp ?op db) = planDigests db"
    by (auto simp: replaceOp_def planDigests_def)
  ultimately show "writableRow env T (replaceOp ?op db) ?op"
    using assms(1) sound sized fields by (simp add: writableRow_def)
qed

section \<open>The steps of an execution\<close>

lemma wp_dbAct:
  assumes "\<And>now. T \<le> now \<Longrightarrow> wp T (k (snd (f (\<lambda>_. True) now (w_db w)))) Q (w\<lparr>w_db := fst (f (\<lambda>_. True) now (w_db w))\<rparr>)"
  shows "wp T (bindP (dbAct (\<lambda>orc. f (or_io orc) (or_now orc))) k) Q w"
  unfolding wp_bind dbAct_def wp_atom using assms by (simp add: answering_def case_prod_beta)

lemma wp_seq: "wp T p P w \<Longrightarrow> (\<And>x w'. P x w' \<Longrightarrow> wp T (k x) Q w') \<Longrightarrow> wp T (bindP p k) Q w"
  unfolding wp_bind by (rule wp_mono)

abbreviation ends :: "gotime \<Rightarrow> 'b prog \<Rightarrow> string \<Rightarrow> World \<Rightarrow> bool" where
  "ends T p i \<equiv> wp T p (\<lambda>_ w'. endedRow (w_db w') i)"

lemma ends_Ret: "endedRow (w_db w) i \<Longrightarrow> ends T (Ret x) i w"
  by simp

lemma ends_audit: "endedRow (w_db w) i \<Longrightarrow> ends T (audit op outcome detail status) i w"
  by (simp add: audit_def wp_atom)

lemma ends_then: "ends T p i w \<Longrightarrow> (\<And>x w'. endedRow (w_db w') i \<Longrightarrow> ends T (k x) i w') \<Longrightarrow> ends T (bindP p k) i w"
  by (rule wp_seq)

lemma fail_ends:
  assumes "failuresStored r" and "runningRow (ro_env r) T (w_db w) i" and "validOperationError \<lparr>oe_Code = code, oe_Message = message\<rparr>"
  shows "ends T (failOperation r i StateFailed code message) i w"
  unfolding failOperation_def
proof (rule wp_dbAct)
  fix now
  assume now: "T \<le> now"
  let ?e = "\<lparr>oe_Code = code, oe_Message = message\<rparr>"
  obtain row where row: "writableRow (ro_env r) T (w_db w) row" "i = ao_ID row" "ao_State row = StateExecuting"
    using assms(2) by (auto simp: runningRow_def)
  let ?new = "row\<lparr>ao_State := StateFailed, ao_Error := Some ?e\<rparr>"
  have change: "failChange StateFailed ?e row = Inr ?new"
    using row(3) by (simp add: failChange_def allowedTransition_def operationTransitions_def)
  have moves: "opMoves (ro_env r) row ?new" and sized: "opSized ?new"
    using row assms(3) by (auto simp: opMoves_def fixedPart_def writableRow_def opSound_def opSized_def Terminal_def
        allowedTransition_def operationTransitions_def)
  have fits: "\<forall>op. validateStored (ro_env r) op = None \<longrightarrow> ae_fits (ro_env r) op"
    using assms(1) by (simp add: failuresStored_def)
  note written = updateOp_writes[where change = "failChange StateFailed ?e", OF row(1) fits now row(2) change moves _ sized]
  then have "endedRow (replaceOp (prepareOperationUpdate now ?new) (w_db w)) i"
    by (simp add: endedRow_def prepareOperationUpdate_def Let_def Terminal_def)
  then show "wp T (case snd (Fail (ro_env r) (\<lambda>_. True) now i StateFailed ?e (w_db w)) of
      Inl x \<Rightarrow> bindP (getByID r i) (\<lambda>current. Ret (orZero current)) | Inr op \<Rightarrow> Ret op) (\<lambda>_ w'. endedRow (w_db w') i)
      (w\<lparr>w_db := fst (Fail (ro_env r) (\<lambda>_. True) now i StateFailed ?e (w_db w))\<rparr>)"
    using written(1) assms(3) by (simp add: Fail_def validFailureState_def)
qed

lemma failure_texts:
  "validOperationError \<lparr>oe_Code = ''approval_commit_failed'', oe_Message = ''Approval accounting failed''\<rparr>"
  "validOperationError \<lparr>oe_Code = ''approval_commit_failed'', oe_Message = ''Operation ran but approval accounting failed''\<rparr>"
  "validOperationError \<lparr>oe_Code = ''approval_invalid'', oe_Message = ''Approval no longer matches the operation''\<rparr>"
  "validOperationError \<lparr>oe_Code = ''approval_invalid'', oe_Message = ''Approved operation binding is invalid''\<rparr>"
  "validOperationError \<lparr>oe_Code = ''approval_unavailable'', oe_Message = ''Approval could not be reserved''\<rparr>"
  "validOperationError \<lparr>oe_Code = ''approval_reservation_missing'', oe_Message = ''Approval was not reserved before execution''\<rparr>"
  "validOperationError \<lparr>oe_Code = ''operation_store_unavailable'', oe_Message = ''Operation ran but its result could not be stored''\<rparr>"
  "validOperationError \<lparr>oe_Code = ''invalid_stored_operation'', oe_Message = ''Stored operation is invalid''\<rparr>"
  "validOperationError \<lparr>oe_Code = ''upstream_result_unknown'', oe_Message = ''Operation result could not be proven after restart''\<rparr>"
  by code_simp+

lemma succeedStored_ends:
  assumes "failuresStored r" and "runningRow (ro_env r) T (w_db w) i"
    and "\<And>e w'. runningRow (ro_env r) T (w_db w') i \<Longrightarrow> ends T (k (Inl e)) i w'"
    and "\<And>op w'. endedRow (w_db w') i \<Longrightarrow> ends T (k (Inr op)) i w'"
  shows "ends T (bindP (succeedStored r i result) k) i w"
  unfolding succeedStored_def
proof (rule wp_dbAct)
  fix now
  assume "T \<le> now"
  obtain row where row: "writableRow (ro_env r) T (w_db w) row" "i = ao_ID row" "ao_State row = StateExecuting"
    using assms(2) by (auto simp: runningRow_def)
  show "ends T (k (snd (Succeed (ro_env r) (\<lambda>_. True) now i result (w_db w)))) i
      (w\<lparr>w_db := fst (Succeed (ro_env r) (\<lambda>_. True) now i result (w_db w))\<rparr>)"
  proof (cases "normalizeObjectLimit (ro_env r) result maxResultBytes OpResult")
    case (Inl e)
    then show ?thesis
      using assms(2,3) by (simp add: Succeed_def)
  next
    case (Inr canonical)
    let ?new = "row\<lparr>ao_State := StateSucceeded, ao_Result := canonical\<rparr>"
    have "succeedChange canonical row = Inr ?new" "fixedPart ?new = fixedPart row"
      using row(3) by (simp_all add: succeedChange_def fixedPart_def)
    note written = updateOp_result[where change = "succeedChange canonical", OF row(1) this _ _ row(2), of now]
    then have "endedRow (replaceOp (prepareOperationUpdate now ?new) (w_db w)) i"
      by (simp add: endedRow_def prepareOperationUpdate_def Let_def Terminal_def)
    then show ?thesis
      using Inr written(1) assms by (simp add: Succeed_def)
  qed
qed

lemma settleApproval_ends:
  assumes "failuresStored r" and "runningRow (ro_env r) T (w_db w) (ao_ID op)"
    and "\<And>w'. runningRow (ro_env r) T (w_db w') (ao_ID op) \<Longrightarrow> ends T (k True) (ao_ID op) w'"
    and "\<And>w'. endedRow (w_db w') (ao_ID op) \<Longrightarrow> ends T (k False) (ao_ID op) w'"
  shows "ends T (bindP (settleApproval r op reserved settlement) k) (ao_ID op) w"
proof (cases reserved)
  case True
  have "ends T (bindP (failOperation r (ao_ID op) StateFailed ''approval_commit_failed'' ''Approval accounting failed'') (\<lambda>_. k False))
      (ao_ID op) w'" if "w_db w' = w_db w" for w'
    by (rule ends_then[OF fail_ends[OF assms(1) _ failure_texts(1)] assms(4)]) (use assms(2) that in simp)
  then show ?thesis
    using True assms(2,3) unfolding settleApproval_def
    by (auto simp: wp_bind[of _ "bindP _ _"] wp_bind split: sum.splits intro!: wp_leaves[OF calls_leave(6), unfolded wp_bind])
qed (use assms in \<open>simp add: settleApproval_def wp_bind\<close>)

lemma recordExecutionFailure_ends:
  assumes "failuresStored r" and "runningRow (ro_env r) T (w_db w) (ao_ID op)"
  shows "ends T (recordExecutionFailure r op (ro_ExecutionFailure r a b)) (ao_ID op) w"
  unfolding recordExecutionFailure_def
  by (rule ends_then[OF fail_ends[OF assms] ends_audit]) (use assms(1) in \<open>auto simp: failuresStored_def\<close>)

lemma resultUnstored_ends:
  assumes "failuresStored r" and "runningRow (ro_env r) T (w_db w) (ao_ID op)"
  shows "ends T (bindP (resultUnstored r op) (\<lambda>_. Ret ())) (ao_ID op) w"
  unfolding resultUnstored_def by (rule ends_then[OF fail_ends[OF assms failure_texts(7)] ends_Ret])

lemma succeed_ends:
  assumes "failuresStored r" and "runningRow (ro_env r) T (w_db w) (ao_ID op)"
  shows "ends T (succeed r op result reserved detail status) (ao_ID op) w"
  unfolding succeed_def Let_def
  by (rule settleApproval_ends[OF assms]; simp)
    (rule succeedStored_ends[OF assms(1)]; simp add: resultUnstored_ends[OF assms(1)] ends_audit)

lemma settled_failure_ends:
  assumes "failuresStored r" and "runningRow (ro_env r) T (w_db w) (ao_ID op)"
  shows "ends T (bindP (settleApproval r op reserved settlement) (\<lambda>settled.
    if settled then recordExecutionFailure r op (ro_ExecutionFailure r a b) else Ret ())) (ao_ID op) w"
  by (rule settleApproval_ends[OF assms]) (simp_all add: recordExecutionFailure_ends[OF assms(1)])

lemma executeReserved_ends:
  assumes "failuresStored r" and "runningRow (ro_env r) T (w_db w) (ao_ID op)"
  shows "ends T (executeReserved r op adapter plan reserved) (ao_ID op) w"
proof -
  have reconcile: "ends T (reconcileExecution r op adapter plan reserved execution err) (ao_ID op) w'" if "w_db w' = w_db w" for execution err w'
    unfolding reconcileExecution_def
    by (rule wp_leaves[OF calls_leave(11)])
      (use assms that in \<open>auto simp: succeed_ends settled_failure_ends split: prod.splits\<close>)
  show ?thesis
    unfolding executeReserved_def Let_def
    by (rule wp_leaves[OF calls_leave(12)])
      (use assms in \<open>auto simp: succeed_ends settled_failure_ends reconcile split: prod.splits\<close>)
qed

text \<open>Before the provider is called: the operation is still running, or it has ended.\<close>

definition runsOn :: "('i, 'p, 'a) RuntimeOptions \<Rightarrow> gotime \<Rightarrow> string \<Rightarrow> ('b \<Rightarrow> bool) \<Rightarrow> 'b \<Rightarrow> World \<Rightarrow> bool" where
  "runsOn r T i go x w' \<longleftrightarrow> (if go x then runningRow (ro_env r) T (w_db w') i else endedRow (w_db w') i)"

lemma failed_runsOn:
  assumes "failuresStored r" and "runningRow (ro_env r) T (w_db w) i" and "validOperationError \<lparr>oe_Code = code, oe_Message = message\<rparr>"
    and "\<not> go x"
  shows "wp T (bindP (failOperation r i StateFailed code message) (\<lambda>_. Ret x)) (runsOn r T i go) w"
  by (rule wp_seq[OF fail_ends[OF assms(1-3)]]) (simp add: runsOn_def assms(4))

lemma reserveApproval_runsOn:
  assumes "failuresStored r" and "runningRow (ro_env r) T (w_db w) (ao_ID op)"
  shows "wp T (reserveApproval r op) (runsOn r T (ao_ID op) (\<lambda>x. x \<noteq> ReserveFailed)) w"
proof -
  note refused = failed_runsOn[OF assms(1), where go = "\<lambda>x. x \<noteq> ReserveFailed"]
  have reserved: "wp T (bindP (reserve r g (ao_ID op) (ao_Operation op)) (\<lambda>res.
        case res of
          Inl _ \<Rightarrow> bindP (failOperation r (ao_ID op) StateFailed ''approval_unavailable'' ''Approval could not be reserved'') (\<lambda>_. Ret ReserveFailed)
        | Inr reservation \<Rightarrow>
            if u_State (res_Use reservation) \<noteq> UseReserved
            then bindP (failOperation r (ao_ID op) StateFailed ''approval_unavailable'' ''Approval could not be reserved'') (\<lambda>_. Ret ReserveFailed)
            else Ret (Reserved reservation))) (runsOn r T (ao_ID op) (\<lambda>x. x \<noteq> ReserveFailed)) w'"
    if "w_db w' = w_db w" for g w'
    by (rule wp_leaves[OF calls_leave(5)]) (use assms(2) that in \<open>auto simp: runsOn_def refused failure_texts split: sum.splits\<close>)
  show ?thesis
    unfolding reserveApproval_def invalidApproval_def Let_def using assms(2)
    by (auto simp: runsOn_def refused failure_texts reserved split: sum.splits intro!: wp_leaves[OF calls_leave(1)])
qed

lemma bindReservedPlan_runsOn:
  assumes "failuresStored r" and "runningRow (ro_env r) T (w_db w) (ao_ID op)"
  shows "wp T (bindReservedPlan r op adapter plan reserved) (runsOn r T (ao_ID op) (\<lambda>x. x \<noteq> None)) w"
  unfolding bindReservedPlan_def using assms
  by (auto simp: runsOn_def failed_runsOn failure_texts split: reserveResult.splits option.splits sum.splits intro!: wp_leaves[OF calls_leave(6)])

lemma Execute_ends:
  assumes "failuresStored r" and "runningRow (ro_env r) T (w_db w) (ao_ID op)"
  shows "ends T (Execute r op) (ao_ID op) w"
proof (cases "LoadPlan r op")
  case None
  then show ?thesis
    unfolding Execute_def using ends_then[OF fail_ends[OF assms failure_texts(8)] ends_Ret] by simp
next
  case (Some loaded)
  obtain adapter plan where loaded: "loaded = (adapter, plan)"
    by (cases loaded)
  have bound: "ends T (bindP (bindReservedPlan r op adapter plan reserved) (\<lambda>bound.
      case bound of None \<Rightarrow> Ret () | Some plan' \<Rightarrow> executeReserved r op adapter plan' (reserved \<noteq> NothingReserved))) (ao_ID op) w'"
    if "runningRow (ro_env r) T (w_db w') (ao_ID op)" for reserved w'
    by (rule wp_seq[OF bindReservedPlan_runsOn[OF assms(1) that]])
      (auto simp: runsOn_def executeReserved_ends[OF assms(1)] split: option.splits if_splits)
  show ?thesis
    unfolding Execute_def Some loaded option.case prod.case
    by (rule wp_seq[OF reserveApproval_runsOn[OF assms]]) (auto simp: runsOn_def bound split: if_splits)
qed

section \<open>Recovered and claimed operations\<close>

lemma settleRecoveredApproval_runsOn:
  assumes "failuresStored r" and "runningRow (ro_env r) T (w_db w) (ao_ID op)"
  shows "wp T (settleRecoveredApproval r op) (runsOn r T (ao_ID op) id) w"
proof -
  let ?Q = "runsOn r T (ao_ID op) id"
  note refused = failed_runsOn[OF assms(1), where go = id and x = False, simplified]
  have used: "wp T (bindP (getUse r g (ao_ID op)) (\<lambda>res.
        case res of
          Inl _ \<Rightarrow> bindP (failOperation r (ao_ID op) StateFailed ''approval_reservation_missing''
                     ''Approval was not reserved before execution'') (\<lambda>_. Ret False)
        | Inr reservation \<Rightarrow>
            (case RecoveredApprovalCommit (res_Use reservation) of
               None \<Rightarrow> bindP (failOperation r (ao_ID op) StateFailed ''approval_reservation_missing''
                         ''Approval was not reserved before execution'') (\<lambda>_. Ret False)
             | Some False \<Rightarrow> Ret True
             | Some True \<Rightarrow>
                 bindP (settle r g (ao_ID op) UseCommitted) (\<lambda>res.
                   case res of
                     Inl _ \<Rightarrow> bindP (failOperation r (ao_ID op) StateFailed ''approval_commit_failed''
                                ''Operation ran but approval accounting failed'') (\<lambda>_. Ret False)
                   | Inr _ \<Rightarrow> Ret True)))) ?Q w'" if "w_db w' = w_db w" for g w'
    by (rule wp_leaves[OF calls_leave(3)])
      (use assms(2) that in \<open>auto simp: runsOn_def refused failure_texts split: sum.splits option.splits bool.splits
        intro!: wp_leaves[OF calls_leave(6)]\<close>)
  show ?thesis
    unfolding settleRecoveredApproval_def settleBoundRecoveredApproval_def Let_def using assms(2)
    by (auto simp: runsOn_def refused failure_texts used split: sum.splits intro!: wp_leaves[OF calls_leave(1)])
qed

lemma retainRecoveredApproval_leaves: "leaves (retainRecoveredApproval r op)"
  unfolding leaves_def retainRecoveredApproval_def
  by (auto split: sum.splits intro!: wp_leaves[OF calls_leave(3)] wp_leaves[OF calls_leave(6)])

lemma ReconcileInterrupted_ends:
  assumes "failuresStored r" and "runningRow (ro_env r) T (w_db w) (ao_ID op)"
  shows "ends T (ReconcileInterrupted r op) (ao_ID op) w"
proof (cases "LoadPlan r op")
  case None
  then show ?thesis
    unfolding ReconcileInterrupted_def using ends_then[OF fail_ends[OF assms failure_texts(8)] ends_Ret] by simp
next
  case (Some loaded)
  have proven: "ends T (bindP (settleRecoveredApproval r op) (\<lambda>settled.
      if \<not> settled then Ret ()
      else bindP (succeedStored r (ao_ID op) result) (\<lambda>res.
             case res of Inl _ \<Rightarrow> bindP (resultUnstored r op) (\<lambda>_. Ret ()) | Inr _ \<Rightarrow> audit op ''allowed'' detail status))) (ao_ID op) w'"
    if "w_db w' = w_db w" for w' result detail status
    by (rule wp_seq[OF settleRecoveredApproval_runsOn])
      (use assms that in \<open>auto simp: runsOn_def resultUnstored_ends ends_audit split: if_splits intro!: succeedStored_ends\<close>)
  have unknown: "ends T (bindP (retainRecoveredApproval r op) (\<lambda>_.
      bindP (failOperation r (ao_ID op) StateFailed ''upstream_result_unknown'' ''Operation result could not be proven after restart'')
        (\<lambda>_. Ret ()))) (ao_ID op) w'" if "w_db w' = w_db w" for w'
    by (rule wp_leaves[OF retainRecoveredApproval_leaves], rule ends_then[OF fail_ends ends_Ret])
      (use assms that in \<open>simp_all add: failure_texts\<close>)
  show ?thesis
    unfolding ReconcileInterrupted_def Some option.case
    by (cases loaded) (auto simp: proven unknown split: prod.splits intro!: wp_leaves[OF calls_leave(11)])
qed

lemma Advance_ends:
  assumes "failuresStored r" and "writableRow (ro_env r) T (w_db w) row" and "ao_State row = StateApproved" and "ao_ID op = ao_ID row"
  shows "ends T (Advance r op) (ao_ID op) w"
proof -
  let ?new = "row\<lparr>ao_State := StateExecuting\<rparr>"
  have change: "transitionChange StateExecuting row = Inr ?new"
    using assms(3) by (simp add: transitionChange_def allowedTransition_def operationTransitions_def)
  have moves: "opMoves (ro_env r) row ?new" and sized: "opSized ?new"
    using assms(2,3) by (auto simp: opMoves_def fixedPart_def writableRow_def opSound_def opSized_def Terminal_def
        allowedTransition_def operationTransitions_def)
  have fits: "\<forall>op. validateStored (ro_env r) op = None \<longrightarrow> ae_fits (ro_env r) op"
    using assms(1) by (simp add: failuresStored_def)
  have claim: "ends T (bindP (transition r (ao_ID row) StateExecuting) (\<lambda>res. case res of Inl _ \<Rightarrow> Ret () | Inr claimed \<Rightarrow> Execute r claimed))
      (ao_ID row) w"
    unfolding transition_def Transition_def
  proof (rule wp_dbAct)
    fix now
    assume now: "T \<le> now"
    let ?op = "prepareOperationUpdate now ?new"
    note written = updateOp_writes[where change = "transitionChange StateExecuting", OF assms(2) fits now _ change moves _ sized, of "ao_ID row"]
    have "ao_ID ?op = ao_ID row" "ao_State ?op = StateExecuting"
      by (simp_all add: prepareOperationUpdate_def Let_def)
    then have "ends T (Execute r ?op) (ao_ID row) (w\<lparr>w_db := replaceOp ?op (w_db w)\<rparr>)"
      using Execute_ends[OF assms(1), where op = ?op and T = T and w = "w\<lparr>w_db := replaceOp ?op (w_db w)\<rparr>"] written(3)
      by (auto simp: runningRow_def)
    then show "ends T (case snd (updateOp (ro_env r) (\<lambda>_. True) now (ao_ID row) (transitionChange StateExecuting) (w_db w)) of
        Inl x \<Rightarrow> Ret () | Inr claimed \<Rightarrow> Execute r claimed) (ao_ID row)
        (w\<lparr>w_db := fst (updateOp (ro_env r) (\<lambda>_. True) now (ao_ID row) (transitionChange StateExecuting) (w_db w))\<rparr>)"
      using written(1) by simp
  qed
  have "GetByID (ro_env r) True (ao_ID op) (w_db w) = Inr row"
    using assms(2,4) by (simp add: GetByID_def storedOperation_Inr writableRow_def)
  then show ?thesis
    unfolding Advance_def getByID_def dbRead_def wp_bind wp_atom
    using claim[unfolded wp_bind] assms(3,4) by (simp add: answering_def wp_bind advancePendingApproval_def)
qed

text \<open>A run with answering surroundings, one oracle per action.\<close>

lemma wp_runs:
  assumes "wp T p Q w" and "\<And>n. answering T (ors n)"
  shows "\<exists>n x w'. runProg (map ors [0..<n]) w p = (w', Ret x) \<and> Q x w'"
  using assms
proof (induction p arbitrary: w ors rule: prog_induct)
  case (Ret x)
  then show ?case
    by (intro exI[of _ 0]) simp
next
  case (Act f)
  let ?step = "f (ors 0) w"
  have "wp T (snd ?step) Q (fst ?step)"
    using Act.prems by (simp add: wp_Act)
  then obtain n x w' where run: "runProg (map (\<lambda>n. ors (Suc n)) [0..<n]) (fst ?step) (snd ?step) = (w', Ret x)" "Q x w'"
    using Act.IH[of "ors 0" w "fst ?step" "\<lambda>n. ors (Suc n)"] Act.prems(2) by auto
  have "map ors [0..<Suc n] = ors 0 # map (\<lambda>n. ors (Suc n)) [0..<n]"
    by (simp add: upt_conv_Cons map_Suc_upt[symmetric] comp_def del: upt_Suc)
  then have "runProg (map ors [0..<Suc n]) w (Act f) = (w', Ret x)"
    using run(1) by (simp add: case_prod_beta del: upt_Suc)
  then show ?case
    using run(2) by blast
qed

end
