(* ===== verification/RuntimeExample.thy ===== *)
theory RuntimeExample
  imports RuntimeExecution
begin

text \<open>
  A run of the whole system: with a grant request waiting in the grant store, a client submits an operation the policy allows, and a
  worker executes it.
\<close>

section \<open>Steady surroundings\<close>

text \<open>Nothing fails and no time passes; the identifiers are chosen per action.\<close>

definition steady :: "gotime \<Rightarrow> string option \<times> string option \<Rightarrow> Oracle" where
  "steady t ids =
     \<lparr>or_now = t, or_io = (\<lambda>_. True), or_newID = fst ids, or_ck = exampleClock t, or_ckGet = exampleClock t, or_saves = True,
      or_savesGet = True,
      or_auth = \<lparr>au_read = exampleClock t, au_readSaves = True, au_now = t, au_request = exampleClock t, au_requestGet = exampleClock t,
        au_saves = True, au_savesGet = True, au_sqlite = True, au_newID = snd ids\<rparr>,
      or_gets = (\<lambda>_. (exampleClock t, True)), or_tick = 0\<rparr>"

definition freshIDs :: "string option \<times> string option \<Rightarrow> World \<Rightarrow> bool" where
  "freshIDs ids w \<longleftrightarrow>
     (case fst ids of None \<Rightarrow> True | Some i \<Rightarrow> validOperationID i \<and> trimSpace i = i \<and> i \<notin> set (w_ids w))
     \<and> freshID (snd ids) (map g_ID (fd_Grants (w_gs w)))"

lemma steady_in: "freshIDs ids w \<Longrightarrow> oracleIn t t (steady t ids) w"
  by (auto simp: freshIDs_def oracleIn_def steady_def callIn_def idOK_def intro!: exI[of _ t] exI[of _ "\<lambda>_. t"])

text \<open>A thread that runs on its own.\<close>

inductive runs :: "gotime \<Rightarrow> 'b prog \<Rightarrow> World \<Rightarrow> World \<Rightarrow> 'b \<Rightarrow> bool" for t where
  runs_Ret: "runs t (Ret x) w w x"
| runs_Act: "freshIDs ids w \<Longrightarrow> f (steady t ids) w = (w1, p) \<Longrightarrow> runs t p w1 w' x \<Longrightarrow> runs t (Act f) w w' x"

lemma runs_bind: "runs t p w w1 x \<Longrightarrow> runs t (k x) w1 w' y \<Longrightarrow> runs t (bindP p k) w w' y"
  by (induction rule: runs.induct) (auto intro: runs.intros)

lemma runs_atom: "f (steady t ids) w = (w', x) \<Longrightarrow> freshIDs ids w \<Longrightarrow> runs t (atom f) w w' x"
  unfolding atom_def by (rule runs_Act[where ids = ids]) (auto intro: runs_Ret)

lemma runs_reach:
  assumes "runs t p w w' x" and "sysReach r (t, w, ths @ [p])"
  shows "sysReach r (t, w', ths @ [Ret x])"
  using assms
proof (induction rule: runs.induct)
  case (runs_Act ids w f w1 p w' x)
  have "sysStep r (t, w, ths @ [Act f]) (t, w1, (ths @ [Act f])[length ths := p])"
    by (rule acts[where f = f, OF _ _ steady_in[OF runs_Act(1)] runs_Act(2)]) simp_all
  then show ?case
    using sys_step[OF runs_Act(5)] runs_Act(4) by simp
qed

lemma handled:
  assumes "sysReach r (t, w, ths)" and "handler r p" and "runs t p w w' ()"
  shows "sysReach r (t, w', ths @ [Ret ()])"
  by (rule runs_reach[OF assms(3) sys_step[OF assms(1) starts[OF assms(2)]]])

abbreviation noIDs :: "string option \<times> string option" where
  "noIDs \<equiv> (None, None)"

lemma noIDs_fresh [simp]: "freshIDs noIDs w"
  by (simp add: freshIDs_def freshID_def)

lemma runs_calls:
  "f (steady t noIDs) (w_db w) = (db, x) \<Longrightarrow> runs t (dbAct f) w (w\<lparr>w_db := db\<rparr>) x"
  "g (steady t noIDs) (w_db w) = y \<Longrightarrow> runs t (dbRead g) w w y"
  "h (steady t noIDs) (w_gs w) = (gs, z) \<Longrightarrow> runs t (gsAct h) w (w\<lparr>w_gs := gs\<rparr>) z"
  "runs t readClock w w t"
  "runs t (audit op outcome detail status) w (w\<lparr>w_audit := w_audit w @ [(ao_ID op, outcome, detail, status)]\<rparr>) ()"
  "runs t (executeProvider adapter op plan) w (w\<lparr>w_log := w_log w @ [op]\<rparr>) (ap_Execute adapter 0 plan)"
  unfolding dbAct_def dbRead_def gsAct_def readClock_def audit_def executeProvider_def
  by (rule runs_atom[where ids = noIDs]; simp add: steady_def)+

section \<open>A broker\<close>

definition demoAdapter :: "(unit, unit, unit) Adapter" where
  "demoAdapter =
     \<lparr>ap_Name = ''repo.push'', ap_Decode = (\<lambda>_ _. Inr ()), ap_Resolve = (\<lambda>_ _. Inr ()), ap_Authorize = (\<lambda>_. ()),
      ap_Present = (\<lambda>_. \<lparr>pres_Title = ''Push'', pres_Summary = []\<rparr>),
      ap_Execute = (\<lambda>_ _. (\<lparr>oc_Proven = True, oc_Result = ''{}'', oc_UpstreamStatus = 201\<rparr>, None)),
      ap_Reconcile = (\<lambda>_ _. (\<lparr>oc_Proven = False, oc_Result = [], oc_UpstreamStatus = 0\<rparr>, None)),
      ap_ValidateClient = None, ap_RequiresApproval = None, ap_BindReservation = None\<rparr>"

definition demoAgentEnv :: AgentEnv where
  "demoAgentEnv = demoEnv\<lparr>ae_digest := \<lambda>_. exampleDigest\<rparr>"

definition demoRuntime :: "(unit, unit, unit) RuntimeOptions" where
  "demoRuntime =
     \<lparr>ro_Broker = ''github'', ro_env = demoAgentEnv, ro_Grants = exampleStoreOptions,
      ro_Authorization = exampleCoordinator examplePolicy, ro_Registry = (\<lambda>_. Some demoAdapter),
      ro_Decide = (\<lambda>_ _. (decision EffectAllow True (Reason ''allowed'') CredentialUseUnset)\<lparr>dec_MatchedAllowRuleIDs := [''a'']\<rparr>),
      ro_Project = (\<lambda>_. exampleRequest), ro_SetClient = (\<lambda>p _. p), ro_InputData = (\<lambda>_. (''{}'', ''{}'')),
      ro_PlanData = (\<lambda>_. (''{}'', ''{}'')), ro_Prepare = (\<lambda>_. Inr exampleIntent),
      ro_Load = (\<lambda>_ _. Inr ()), ro_PlanDigest = (\<lambda>_. exampleDigest), ro_ValidateExecution = (\<lambda>_. True),
      ro_MapSubmissionError = (\<lambda>_. AuthorityGone), ro_DefinitiveFailure = defaultDefinitiveFailure,
      ro_ExecutionFailure = defaultExecutionFailure, ro_OperatorConfigured = True, ro_Admission = False,
      ro_AuthorizationGrace = defaultAuthorizationGrace, ro_EqualJSONObject = (=), ro_reconciledResult = (\<lambda>_. ''{}'')\<rparr>"

definition demoRequest :: SubmitRequest where
  "demoRequest =
     \<lparr>sr_IdempotencyKey = ''key'', sr_Operation = ''repo.push'', sr_Target = ''{}'', sr_Arguments = ''{}'', sr_Reason = ''fix''\<rparr>"

definition demoOp :: "OpState \<Rightarrow> int \<Rightarrow> Operation" where
  "demoOp state revision =
     \<lparr>ao_APIVersion = AgentAPIVersion, ao_ID = ''op_00001'', ao_Broker = ''github'', ao_ClientID = ''agent'', ao_IdempotencyKey = ''key'',
      ao_Operation = ''repo.push'', ao_Target = ''{}'', ao_Arguments = ''{}'', ao_Reason = ''fix'', ao_State = state, ao_Revision = revision,
      ao_ApprovalID = [], ao_CreatedAt = 11, ao_UpdatedAt = 11, ao_TerminalAt = (if Terminal state then Some 11 else None),
      ao_Presentation = \<lparr>pres_Title = ''Push'', pres_Summary = []\<rparr>, ao_PlanDigest = exampleDigest,
      ao_Result = (if state = StateSucceeded then ''{}'' else []), ao_Error = None\<rparr>"

definition demoOps :: "OpState \<Rightarrow> int \<Rightarrow> AgentDB" where
  "demoOps state revision = \<lparr>ad_ops = [demoOp state revision], ad_plans = [planRecordOf (in_Plan exampleIntent)]\<rparr>"

lemma demo_trims:
  "trimSpace ''op_00001'' = ''op_00001''" "trimSpace ''github'' = ''github''" "trimSpace ''agent'' = ''agent''" "trimSpace ''key'' = ''key''"
  "trimSpace ''repo.push'' = ''repo.push''" "trimSpace ''fix'' = ''fix''" "trimSpace ''Push'' = ''Push''" "trimSpace [] = []"
  "trimSpace exampleDigest = exampleDigest" "plandigest_Valid exampleDigest" "exampleDigest \<noteq> []" "demoObject ''{}'' = Some ''{}''"
  "blank ''op_00001'' = False" "blank ''s'' = False" "trimSpace ''{}'' = ''{}''"
  by code_simp+

lemma demo_valid:
  assumes "su_Presentation input = \<lparr>pres_Title = ''Push'', pres_Summary = []\<rparr>" "su_ID input \<in> {[], ''op_00001''}" "su_Broker input = ''github''"
    "su_ClientID input = ''agent''" "su_IdempotencyKey input = ''key''" "su_Operation input = ''repo.push''" "su_Reason input = ''fix''"
    "su_PlanDigest input \<in> {[], exampleDigest}" "su_ApprovalID input = []"
  shows "validSubmitIdentity input" "validSubmitPresentation input" "trimSubmission input = input"
  using assms demo_trims
  by (auto simp: validSubmitIdentity_def validSubmitPresentation_def validOperationID_def validRequiredValue_def
      ValidIdempotencyKey_def keyChar_def keyStart_def isDigit_def byte_def containsAny_def trimSubmission_def)

lemma demoOp_writable:
  assumes "ValidState state" and "\<not> Terminal state" and "1 \<le> revision"
  shows "writableRow demoAgentEnv 11 (demoOps state revision) (demoOp state revision)"
  using assms demo_valid[of "submissionOf (demoOp state revision)"] demo_trims
  by (auto simp: writableRow_def demoOps_def demoOp_def OperationByID_def opSound_def validStoredIdentity_def opSized_def
      validStoredTerminal_def submissionOf_def demoAgentEnv_def demoEnv_def planDigests_def planRecordOf_def exampleIntent_def Terminal_def
      maxTargetBytes_def maxArgumentsBytes_def maxResultBytes_def)

section \<open>The run\<close>

lemma demo_fits: "\<forall>op. validateStored demoAgentEnv op = None \<longrightarrow> ae_fits demoAgentEnv op"
proof (intro allI impI)
  fix op
  assume "validateStored demoAgentEnv op = None"
  then have "length (ao_Target op) \<le> maxTargetBytes"
    by (simp add: validateStored_iff opSized_def)
  then show "ae_fits demoAgentEnv op"
    by (auto simp: demoAgentEnv_def demoEnv_def characters_def intro: le_trans[OF length_filter_le])
qed

lemma demo_update:
  assumes "change (demoOp state revision) = Inr new" and "opMoves demoAgentEnv (demoOp state revision) new" and "opSized new"
    and "ValidState state" and "\<not> Terminal state" and "1 \<le> revision"
    and "prepareOperationUpdate 11 new = demoOp state' (revision + 1)"
  shows "updateOp demoAgentEnv (\<lambda>_. True) 11 ''op_00001'' change (demoOps state revision) =
    (demoOps state' (revision + 1), Inr (demoOp state' (revision + 1)))"
proof -
  have "ao_PlanDigest new = ao_PlanDigest (demoOp state' (revision + 1))"
    using assms(7)[symmetric] by (simp add: prepareOperationUpdate_def Let_def)
  then have "ao_PlanDigest new = ao_PlanDigest (demoOp state revision)" "''op_00001'' = ao_ID (demoOp state revision)"
    by (simp_all add: demoOp_def)
  moreover have "replaceOp (demoOp state' (revision + 1)) (demoOps state revision) = demoOps state' (revision + 1)"
    by (simp add: replaceOp_def demoOps_def demoOp_def)
  ultimately show ?thesis
    using updateOp_writes(1)[where change = change and now = 11, OF demoOp_writable[OF assms(4-6)] demo_fits order_refl _ assms(1,2) _ assms(3)]
    unfolding assms(7) by simp
qed

lemma demo_store:
  "GetByIdempotency demoAgentEnv True ''agent'' ''key'' emptyDB = Inl OpNotFound"
  "GetByID demoAgentEnv True ''op_00001'' (demoOps StateApproved 1) = Inr (demoOp StateApproved 1)"
  "Transition demoAgentEnv (\<lambda>_. True) 11 ''op_00001'' StateExecuting (demoOps StateApproved 1) = (demoOps StateExecuting 2, Inr (demoOp StateExecuting 2))"
  "Succeed demoAgentEnv (\<lambda>_. True) 11 ''op_00001'' ''{}'' (demoOps StateExecuting 2) = (demoOps StateSucceeded 3, Inr (demoOp StateSucceeded 3))"
proof -
  note fields = opMoves_def fixedPart_def opSized_def demoOp_def Terminal_def ValidState_def allowedTransition_def operationTransitions_def
    prepareOperationUpdate_def maxTargetBytes_def maxArgumentsBytes_def maxResultBytes_def
  show "GetByIdempotency demoAgentEnv True ''agent'' ''key'' emptyDB = Inl OpNotFound"
    by (simp add: GetByIdempotency_def demo_trims emptyDB_def OperationByIdempotency_def storedOperation_def)
  have "writableRow demoAgentEnv 11 (demoOps StateApproved 1) (demoOp StateApproved 1)"
    by (rule demoOp_writable) (simp_all add: ValidState_def Terminal_def)
  then show "GetByID demoAgentEnv True ''op_00001'' (demoOps StateApproved 1) = Inr (demoOp StateApproved 1)"
    by (simp add: GetByID_def storedOperation_Inr writableRow_def demoOp_def)
  show "Transition demoAgentEnv (\<lambda>_. True) 11 ''op_00001'' StateExecuting (demoOps StateApproved 1) = (demoOps StateExecuting 2, Inr (demoOp StateExecuting 2))"
    unfolding Transition_def
    using demo_update[where change = "transitionChange StateExecuting" and state = StateApproved and revision = 1
        and new = "(demoOp StateApproved 1)\<lparr>ao_State := StateExecuting\<rparr>" and state' = StateExecuting]
    by (simp add: transitionChange_def fields)
  have "normalizeObjectLimit demoAgentEnv ''{}'' maxResultBytes OpResult = Inr ''{}''"
    by (simp add: normalizeObjectLimit_def demoAgentEnv_def demoEnv_def demo_trims maxResultBytes_def)
  then show "Succeed demoAgentEnv (\<lambda>_. True) 11 ''op_00001'' ''{}'' (demoOps StateExecuting 2) = (demoOps StateSucceeded 3, Inr (demoOp StateSucceeded 3))"
    using demo_update[where change = "succeedChange ''{}''" and state = StateExecuting and revision = 2
        and new = "(demoOp StateExecuting 2)\<lparr>ao_State := StateSucceeded, ao_Result := ''{}''\<rparr>" and state' = StateSucceeded]
    by (simp add: Succeed_def succeedChange_def fields demoAgentEnv_def demoEnv_def demo_trims)
qed

definition demoIdle :: World where
  "demoIdle = (emptyWorld exampleController)\<lparr>w_gs := exampleRequested\<rparr>"

definition demoSubmitted :: World where
  "demoSubmitted = demoIdle\<lparr>w_db := demoOps StateApproved 1, w_ids := [''op_00001'']\<rparr>"

definition demoDone :: World where
  "demoDone = demoSubmitted\<lparr>w_db := demoOps StateSucceeded 3, w_log := [demoOp StateExecuting 2], w_audit := [(''op_00001'', ''allowed'', [], 201)]\<rparr>"

lemma demo_submit:
  "SubmitApprovedWithPlan demoAgentEnv (\<lambda>_. True) None
     \<lparr>su_ID = ''op_00001'', su_Broker = ''github'', su_ClientID = ''agent'', su_IdempotencyKey = ''key'', su_Operation = ''repo.push'',
      su_Target = ''{}'', su_Arguments = ''{}'', su_Reason = ''fix'', su_Presentation = \<lparr>pres_Title = ''Push'', pres_Summary = []\<rparr>,
      su_PlanDigest = [], su_ApprovalID = []\<rparr> 11 (planRecordOf (in_Plan exampleIntent)) emptyDB
   = (demoOps StateApproved 1, Inr (demoOp StateApproved 1, True))"
  (is "SubmitApprovedWithPlan _ _ _ ?input _ ?plan _ = _")
proof -
  let ?full = "?input\<lparr>su_PlanDigest := exampleDigest\<rparr>"
  have plan: "pr_Digest ?plan = exampleDigest" "validatePlanRecord demoAgentEnv ?plan = None"
    using demo_trims by (simp_all add: planRecordOf_def exampleIntent_def validatePlanRecord_def validatePlanContent_def demoAgentEnv_def
        orElse_def failIf_def)
  have norm: "normalizeSubmit demoAgentEnv ?full = Inr ?full"
    using demo_valid[of ?full] demo_trims
    by (simp add: normalizeSubmit_def Let_def normalizeObjectLimit_def demoAgentEnv_def demoEnv_def maxTargetBytes_def maxArgumentsBytes_def)
  have op: "newOperation ''op_00001'' 11 StateApproved ?full = demoOp StateApproved 1"
    by (simp add: newOperation_def demoOp_def Terminal_def)
  have fits: "ae_fits demoAgentEnv (demoOp StateApproved 1)" "ao_PlanDigest (demoOp StateApproved 1) = exampleDigest"
    by (simp_all add: demoOp_def demoAgentEnv_def demoEnv_def characters_def maxTargetBytes_def)
  have "submit demoAgentEnv (\<lambda>_. True) None ?full 11 (Some ?plan) StateApproved emptyDB = (demoOps StateApproved 1, Inr (demoOp StateApproved 1, True))"
    using plan fits
    by (simp add: submit_def norm[simplified] submitLocked_def DeleteTerminalOperationsBefore_def emptyDB_def findSubmission_def
        OperationByIdempotency_def createOperation_def CountOperations_def maxOperations_def op[simplified] InsertOperationWithPlan_def InsertOperation_def
        putPlanWithQueries_def findPlan_def rowAccepted_def demoOps_def Let_def planDigests_def guardR_def bindR_def failIf_def)
  then show ?thesis
    using plan(1) by (simp add: SubmitApprovedWithPlan_def submitWithPlan_def)
qed

lemma demo_options:
  "ro_env demoRuntime = demoAgentEnv" "ro_Grants demoRuntime = exampleStoreOptions" "ro_Registry demoRuntime i = Some demoAdapter"
  "ro_Broker demoRuntime = ''github''" "ro_Admission demoRuntime = False" "ro_PlanData demoRuntime plan = (''{}'', ''{}'')"
  "ro_InputData demoRuntime input = (''{}'', ''{}'')" "ro_Prepare demoRuntime prep = Inr exampleIntent" "ro_Load demoRuntime op adapter = Inr ()"
  "directlyAllowed (ro_Decide demoRuntime core options) demoAdapter"
  by (simp_all add: demoRuntime_def directlyAllowed_def decision_def requiresApproval_def demoAdapter_def)

lemma demo_submitting: "runs 11 (forget (Submit demoRuntime ''agent'' demoRequest)) demoIdle demoSubmitted ()"
proof -
  have replay: "runs 11 (replayed demoRuntime ''agent'' demoRequest ()) demoIdle demoIdle (Inr None)"
    unfolding replayed_def
    by (rule runs_bind[OF runs_calls(2)[where w = demoIdle, OF refl]])
      (simp add: steady_def demo_options demoRequest_def demoIdle_def emptyWorld_def demo_store(1) runs_Ret)
  have trimmed: "demoRequest\<lparr>sr_IdempotencyKey := trimSpace (sr_IdempotencyKey demoRequest), sr_Reason := trimSpace (sr_Reason demoRequest)\<rparr> = demoRequest"
    by (simp add: demoRequest_def demo_trims)
  have decoded: "decode demoRuntime demoRequest = Inr (demoAdapter, ())"
    by (simp add: decode_def demo_options) (simp add: demoAdapter_def)
  have resolve: "runs 11 (atom (\<lambda>orc w. (w, ap_Resolve demoAdapter (or_tick orc) ()))) demoIdle demoIdle (Inr ())"
    by (rule runs_atom[where ids = noIDs]) (simp_all add: demoAdapter_def)
  let ?drawn = "demoIdle\<lparr>w_ids := [''op_00001'']\<rparr>"
  have draw: "runs 11 drawID demoIdle ?drawn (Some ''op_00001'')"
    unfolding drawID_def
    by (rule runs_atom[where ids = "(Some ''op_00001'', None)"])
      (simp_all add: steady_def demoIdle_def emptyWorld_def freshIDs_def freshID_def demo_trims validOperationID_def containsAny_def)
  have resolved: "runs 11 (submitResolved demoRuntime ''agent'' demoRequest demoAdapter ()) demoIdle demoSubmitted (Inr (demoOp StateApproved 1, True))"
    unfolding submitResolved_def
    apply (rule runs_bind[OF draw])
    apply (simp add: demo_options demoRequest_def Let_def)
    apply (rule runs_bind[OF runs_calls(4)])
    apply (simp add: submitDirectGrant_def demo_options)
    apply (rule runs_bind[OF runs_calls(4)])
    apply (rule runs_bind[OF runs_calls(1)])
     apply (simp add: steady_def demoAdapter_def demoIdle_def emptyWorld_def demo_submit)
    apply (simp add: submitted_def demoSubmitted_def demoIdle_def emptyWorld_def runs_Ret)
    done
  have "runs 11 (submitNew demoRuntime ''agent'' demoRequest demoAdapter ()) demoIdle demoSubmitted (Inr (demoOp StateApproved 1, True))"
    unfolding submitNew_def admit_def releasePermit_def using resolved
    by (auto simp: demo_options demoAdapter_def[THEN arg_cong[where f = ap_ValidateClient], simplified]
        intro!: runs_bind[OF runs_Ret] runs_bind[OF resolve] runs_bind[of 11 "submitResolved _ _ _ _ _"] runs_Ret)
  then have "runs 11 (Submit demoRuntime ''agent'' demoRequest) demoIdle demoSubmitted (Inr (demoOp StateApproved 1, True))"
    unfolding Submit_def Let_def trimmed decoded sum.case prod.case by (intro runs_bind[OF replay]) simp
  then show ?thesis
    unfolding forget_def by (rule runs_bind) (rule runs_Ret)
qed

lemma demo_advancing: "runs 11 (Advance demoRuntime (demoOp StateApproved 1)) demoSubmitted demoDone ()"
proof -
  let ?running = "demoSubmitted\<lparr>w_db := demoOps StateExecuting 2\<rparr>"
  have op: "ao_ID (demoOp s n) = ''op_00001''" "ao_State (demoOp s n) = s" "ao_ApprovalID (demoOp s n) = []" "ao_PlanDigest (demoOp s n) \<noteq> []" for s n
    by (simp_all add: demoOp_def demo_trims)
  have get: "runs 11 (getByID demoRuntime ''op_00001'') demoSubmitted demoSubmitted (Inr (demoOp StateApproved 1))"
    unfolding getByID_def by (rule runs_calls(2)) (simp add: steady_def demo_options demoSubmitted_def demo_store(2))
  have claim: "runs 11 (transition demoRuntime ''op_00001'' StateExecuting) demoSubmitted ?running (Inr (demoOp StateExecuting 2))"
    unfolding transition_def by (rule runs_calls(1)) (simp add: steady_def demo_options demoSubmitted_def demo_store(3))
  let ?ran = "?running\<lparr>w_log := [demoOp StateExecuting 2]\<rparr>"
  have run: "runs 11 (executeProvider demoAdapter (demoOp StateExecuting 2) ()) ?running ?ran (\<lparr>oc_Proven = True, oc_Result = ''{}'', oc_UpstreamStatus = 201\<rparr>, None)"
    using runs_calls(6)[of 11 demoAdapter "demoOp StateExecuting 2" "()" ?running]
    by (simp add: demoAdapter_def demoSubmitted_def demoIdle_def emptyWorld_def)
  have stored: "runs 11 (succeedStored demoRuntime ''op_00001'' ''{}'') ?ran (?ran\<lparr>w_db := demoOps StateSucceeded 3\<rparr>) (Inr (demoOp StateSucceeded 3))"
    unfolding succeedStored_def by (rule runs_calls(1)) (simp add: steady_def demo_options demo_store(4))
  have audited: "runs 11 (audit (demoOp StateExecuting 2) ''allowed'' [] 201) (?ran\<lparr>w_db := demoOps StateSucceeded 3\<rparr>) demoDone ()"
    using runs_calls(5)[of 11 "demoOp StateExecuting 2" "''allowed''" "[]" 201 "?ran\<lparr>w_db := demoOps StateSucceeded 3\<rparr>"]
    by (simp add: op demoDone_def demoSubmitted_def demoIdle_def emptyWorld_def)
  have "runs 11 (succeed demoRuntime (demoOp StateExecuting 2) ''{}'' False [] 201) ?ran demoDone ()"
    unfolding succeed_def settleApproval_def op NormalizedResult_def Let_def
    using runs_bind[OF stored, where k = "case_sum _ _"] audited by (simp add: normalizedUpstreamStatus_def)
  then have "runs 11 (executeReserved demoRuntime (demoOp StateExecuting 2) demoAdapter () False) ?running demoDone ()"
    unfolding executeReserved_def by (intro runs_bind[OF run]) simp
  then have "runs 11 (Execute demoRuntime (demoOp StateExecuting 2)) ?running demoDone ()"
    unfolding Execute_def LoadPlan_def reserveApproval_def bindReservedPlan_def using op by (simp add: demo_options)
  then show ?thesis
    unfolding Advance_def op advancePendingApproval_def
    by (intro runs_bind[OF get]) (simp add: op runs_bind[OF claim])
qed

lemma demo_reaches:
  "sysReach demoRuntime (11, demoIdle, [])" "sysReach demoRuntime (11, demoSubmitted, [Ret ()])" "sysReach demoRuntime (11, demoDone, [Ret (), Ret ()])"
proof -
  show idle: "sysReach demoRuntime (11, demoIdle, [])"
    unfolding demoIdle_def
    by (rule sys_step[OF sys_start[of 1] outside]) (use exampleRequested_step in \<open>simp_all add: demo_options emptyWorld_def\<close>)
  show submitted: "sysReach demoRuntime (11, demoSubmitted, [Ret ()])"
    using handled[OF idle submitting demo_submitting] by simp
  show "sysReach demoRuntime (11, demoDone, [Ret (), Ret ()])"
    using handled[OF submitted advancing demo_advancing] by simp
qed

lemma demo_ok: "runtimeOK demoRuntime" "validOptions (ro_Grants demoRuntime)" "failuresStored demoRuntime"
proof -
  show "runtimeOK demoRuntime"
    using demoEnv_ok by (simp add: runtimeOK_def demo_options envOK_def demoAgentEnv_def) (simp add: demoRuntime_def exampleCoordinator_def)
  show "validOptions (ro_Grants demoRuntime)"
    by (simp add: demo_options)
  have "validOperationError \<lparr>oe_Code = ''upstream_result_unknown'', oe_Message = ''Operation result is unknown and was not retried''\<rparr>"
    by code_simp
  then show "failuresStored demoRuntime"
    using demo_fits by (simp add: failuresStored_def demo_options) (simp add: demoRuntime_def defaultExecutionFailure_def)
qed

section \<open>A consumed grant\<close>

definition demoConsumed :: fileData where
  "demoConsumed =
     fst (settleUse exampleStoreOptions (exampleClock 40) (exampleClock 41) True True ''g1'' ''u1'' UseCommitted
       (fst (ReserveUse exampleStoreOptions (exampleClock 30) (exampleClock 31) True True ''g1'' ''u1'' ''repo.push'' exampleActive)))"

definition strandedOp :: Operation where
  "strandedOp = (demoOp StatePending 2)\<lparr>ao_ApprovalID := ''g1''\<rparr>"

definition demoStranded :: World where
  "demoStranded =
     demoIdle\<lparr>w_gs := demoConsumed, w_db := \<lparr>ad_ops = [strandedOp], ad_plans = [planRecordOf (in_Plan exampleIntent)]\<rparr>\<rparr>"

lemma demoConsumed_get:
  obtains g where "Get exampleStoreOptions (exampleClock 50) True ''g1'' demoConsumed = (demoConsumed, Inr g)" "g_Status g = StatusConsumed"
proof -
  have "fst (Get exampleStoreOptions (exampleClock 50) True ''g1'' demoConsumed) = demoConsumed"
    "(case snd (Get exampleStoreOptions (exampleClock 50) True ''g1'' demoConsumed) of Inl _ \<Rightarrow> StatusUnset | Inr g \<Rightarrow> g_Status g) = StatusConsumed"
    by code_simp+
  then show thesis
    using that by (cases "Get exampleStoreOptions (exampleClock 50) True ''g1'' demoConsumed") (auto split: sum.splits)
qed

lemma strandedOp_found: "GetByID demoAgentEnv True ''op_00001'' \<lparr>ad_ops = [strandedOp], ad_plans = plans\<rparr> = Inr strandedOp"
proof -
  have "trimSpace ''g1'' = ''g1''"
    by code_simp
  then show ?thesis
    using demo_trims
    by (auto simp: GetByID_def storedOperation_Inr OperationByID_def strandedOp_def demoOp_def opSound_def opSized_def validStoredIdentity_def
        validStoredTerminal_def submissionOf_def trimSubmission_def validSubmitIdentity_def validSubmitPresentation_def validRequiredValue_def
        ValidIdempotencyKey_def keyChar_def keyStart_def isDigit_def byte_def ValidState_def Terminal_def demoAgentEnv_def demoEnv_def
        maxTargetBytes_def maxArgumentsBytes_def maxResultBytes_def)
qed

end
