(* ===== verification/RuntimeProperties.thy ===== *)
theory RuntimeProperties
  imports RuntimeExample
begin

text \<open>
  What the runtime guarantees: at most one execution per operation, executions within the budget of the grant, a claimed operation
  that always ends, and an operation that waits for ever.
\<close>

section \<open>Properties\<close>

text \<open>
  C1. The runtime never executes an operation twice: in every state that any interleaving of clients submitting and canceling,
  workers and recoveries reaches, with stores that fail at any point, operators acting on the grants and the process crashing at
  any point, the provider has been called at most once for each operation identifier. New identifiers are fresh, the clock does
  not run backwards, and the coordinator works on the grants of the runtime.
\<close>

theorem executed_at_most_once:
  assumes "sysReach r (t, w, ths)" and "runtimeOK r" and "validOptions (ro_Grants r)"
  shows "distinct (map ao_ID (w_log w))"
proof -
  obtain \<Gamma> where "tokensInv w \<Gamma>"
    by (rule sysInvE[OF sysReach_inv[OF assms]]) blast
  then show ?thesis
    by (rule tokensInv_parts(4))
qed

theorem executed_at_most_once_witness: "w_log demoDone = [demoOp StateExecuting 2] \<and> distinct (map ao_ID (w_log demoDone))"
  using executed_at_most_once[OF demo_reaches(3) demo_ok(1,2)] by (simp add: demoDone_def)

text \<open>
  C2. Executions stay within the approved budget: in every reachable state each execution that was started under an approval has
  its own use record at that grant, and the executions whose use has not been released are at most as many as the budget of the
  grant.
\<close>

theorem executions_within_budget:
  assumes "sysReach r (t, w, ths)" and "runtimeOK r" and "validOptions (ro_Grants r)" and "g \<in> set (fd_Grants (w_gs w))"
    and "\<not> IsUnlimited (g_RequestedMaxUses g)" and "g_ID g \<noteq> []"
  shows "(\<forall>op\<in>set (w_log w). ao_ApprovalID op = g_ID g \<longrightarrow> (\<exists>u\<in>set (fd_Uses (w_gs w)). u_GrantID u = g_ID g \<and> u_RequestID u = ao_ID op))
    \<and> int (length (filter (\<lambda>op. \<exists>u\<in>set (fd_Uses (w_gs w)). spends (g_ID g) u \<and> u_RequestID u = ao_ID op) (w_log w))) \<le> g_MaxUses g"
proof (intro conjI ballI impI)
  obtain \<Gamma> where inv: "tokensInv w \<Gamma>" "worldInv r t w"
    by (rule sysInvE[OF sysReach_inv[OF assms(1-3)]]) blast
  show "\<exists>u\<in>set (fd_Uses (w_gs w)). u_GrantID u = g_ID g \<and> u_RequestID u = ao_ID op" if "op \<in> set (w_log w)" "ao_ApprovalID op = g_ID g" for op
    using tokensInv_parts(5)[OF inv(1) that(1)] that(2) assms(6) by (force simp: paid_def recordedUses_def)
  have grant: "coreGrant (fd_Uses (w_gs w)) g"
    using inv(2) assms(4) by (simp add: worldInv_def storeInv_def coreData_def)
  let ?uses = "filter (spends (g_ID g)) (fd_Uses (w_gs w))"
  let ?ran = "filter (\<lambda>op. \<exists>u\<in>set (fd_Uses (w_gs w)). spends (g_ID g) u \<and> u_RequestID u = ao_ID op) (w_log w)"
  have "length ?ran = card (ao_ID ` set ?ran)"
    using tokensInv_parts(4)[OF inv(1)] distinct_card[of "map ao_ID ?ran"] by (simp add: distinct_map_filter)
  also have "\<dots> \<le> card (set (map u_RequestID ?uses))"
    by (rule card_mono) force+
  also have "\<dots> \<le> length ?uses"
    using card_length[of "map u_RequestID ?uses"] by simp
  finally have "int (length ?ran) \<le> int (length ?uses)"
    by simp
  also have "\<dots> \<le> g_MaxUses g"
    using grant assms(5) by (auto simp: spends_count coreGrant_def aggregated_def grantInv_def limit_within limit_defs)
  finally show "int (length ?ran) \<le> g_MaxUses g" .
qed

theorem executions_within_budget_witness:
  "\<exists>g\<in>set (fd_Grants (w_gs demoDone)).
     int (length (filter (\<lambda>op. \<exists>u\<in>set (fd_Uses (w_gs demoDone)). spends (g_ID g) u \<and> u_RequestID u = ao_ID op) (w_log demoDone))) \<le> g_MaxUses g"
proof -
  have "w_gs demoDone = exampleRequested"
    by (simp add: demoDone_def demoSubmitted_def demoIdle_def)
  moreover have "list_ex (\<lambda>g. \<not> IsUnlimited (g_RequestedMaxUses g) \<and> g_ID g \<noteq> []) (fd_Grants exampleRequested)"
    by code_simp
  ultimately obtain g where "g \<in> set (fd_Grants (w_gs demoDone))" "\<not> IsUnlimited (g_RequestedMaxUses g)" "g_ID g \<noteq> []"
    by (auto simp: list_ex_iff)
  then show ?thesis
    using executions_within_budget[OF demo_reaches(3) demo_ok(1,2)] by blast
qed

text \<open>
  C3. An operation that is approved or executing is brought to an end by one run of the worker, whatever the provider answers and
  whatever has become of the approval: when the statements of the operation store succeed, \<^verbatim>\<open>recoverOne\<close> returns, and the stored
  operation is then in a terminal state. The table takes the rows that \<^verbatim>\<open>validateStored\<close> takes, and the failures the broker names
  are within the limits of the store.
\<close>

theorem claimed_operation_ends:
  assumes "opsInv (ro_env r) T (w_db w)" and "OperationByID i (w_db w) = Some op" and "opSized op"
    and "ao_State op = StateApproved \<or> ao_State op = StateExecuting" and "failuresStored r" and "\<And>n. answering T (ors n)"
  shows "\<exists>n w'. runProg (map ors [0..<n]) w (recoverOne r op) = (w', Ret ()) \<and> endedRow (w_db w') i"
proof -
  have op: "op \<in> set (ad_ops (w_db w))" "ao_ID op = i"
    using OperationByID_Some[OF assms(2)] by auto
  then have row: "writableRow (ro_env r) T (w_db w) op"
    using assms(1-3) by (auto simp: opsInv_def writableRow_def opSound_def validStoredIdentity_def)
  then have running: "ao_State op = StateExecuting \<Longrightarrow> runningRow (ro_env r) T (w_db w) (ao_ID op)"
    by (auto simp: runningRow_def)
  have "ends T (recoverOne r op) i w"
    unfolding recoverOne_def op(2)[symmetric]
    using Advance_ends[OF assms(5) row] ReconcileInterrupted_ends[OF assms(5) running] assms(4) by auto
  then show ?thesis
    using wp_runs[where ors = ors] assms(6) by fastforce
qed

theorem claimed_operation_ends_witness:
  "\<exists>n w'. runProg (map (\<lambda>_. steady 11 noIDs) [0..<n]) demoSubmitted (recoverOne demoRuntime (demoOp StateApproved 1)) = (w', Ret ())
     \<and> endedRow (w_db w') ''op_00001''"
proof (rule claimed_operation_ends[where T = 11])
  have "worldInv demoRuntime 11 demoSubmitted"
    by (rule sysInvE[OF sysReach_inv[OF demo_reaches(2) demo_ok(1,2)]])
  then show "opsInv (ro_env demoRuntime) 11 (w_db demoSubmitted)"
    by (simp add: worldInv_def)
  have "writableRow demoAgentEnv 11 (demoOps StateApproved 1) (demoOp StateApproved 1)"
    by (rule demoOp_writable) (simp_all add: ValidState_def Terminal_def)
  then show "OperationByID ''op_00001'' (w_db demoSubmitted) = Some (demoOp StateApproved 1)" "opSized (demoOp StateApproved 1)"
    by (simp_all add: writableRow_def demoSubmitted_def) (simp add: demoOp_def)
qed (simp_all add: demo_ok answering_def steady_def demoOp_def)

text \<open>
  C28. A pending operation whose grant has been consumed is left waiting: \<^verbatim>\<open>approvalFailures\<close> has no entry for a consumed grant, so
  when the grant store answers with a consumed grant, a run of the worker returns without any change to the operation. A
  consumed grant never changes its status again, so this is what every later run of the worker does.
\<close>

theorem consumed_grant_strands_operation:
  assumes "GetByID (ro_env r) (or_io orc1 0) (ao_ID op) (w_db w) = Inr op" and "ao_State op = StatePending" and "ao_ApprovalID op \<noteq> []"
    and "Get (ro_Grants r) (or_ck orc2) (or_saves orc2) (ao_ApprovalID op) (w_gs w) = (gs, Inr g)" and "g_Status g = StatusConsumed"
  shows "runProg [orc1, orc2] w (Advance r op) = (w\<lparr>w_gs := gs\<rparr>, Ret ())"
  using assms
  by (simp add: Advance_def getByID_def dbRead_def getGrant_def gsAct_def atom_def advancePendingApproval_def syncApproval_def
      operationApprovalFailure_def approvalFailures_def)

theorem consumed_grant_strands_operation_witness:
  "runProg [steady 50 noIDs, steady 50 noIDs] demoStranded (Advance demoRuntime strandedOp) = (demoStranded, Ret ())"
proof -
  obtain g where g: "Get exampleStoreOptions (exampleClock 50) True ''g1'' demoConsumed = (demoConsumed, Inr g)" "g_Status g = StatusConsumed"
    by (rule demoConsumed_get)
  then have "runProg [steady 50 noIDs, steady 50 noIDs] demoStranded (Advance demoRuntime strandedOp) = (demoStranded\<lparr>w_gs := demoConsumed\<rparr>, Ret ())"
    by (intro consumed_grant_strands_operation)
      (use strandedOp_found in \<open>simp_all add: steady_def demo_options demoStranded_def strandedOp_def demoOp_def\<close>)
  then show ?thesis
    by (simp add: demoStranded_def)
qed

end
