(* ===== verification/GoFilepath.thy ===== *)
theory GoFilepath
  imports GoStrings
begin

text \<open>
  The functions of \<^verbatim>\<open>path/filepath\<close> the sudo broker calls, on Unix paths: a path is split into its elements at \<^verbatim>\<open>/\<close>, and the
  functions are defined on elements. Files themselves are a parameter (\<open>FileSystem\<close>): what \<^verbatim>\<open>os.Lstat\<close>, \<^verbatim>\<open>os.Stat\<close>,
  \<^verbatim>\<open>filepath.EvalSymlinks\<close> and \<^verbatim>\<open>Lgetxattr\<close> answer (\<open>XattrAbsent\<close> is \<^verbatim>\<open>ENODATA\<close>, \<^verbatim>\<open>ENOTSUP\<close> or \<^verbatim>\<open>EOPNOTSUPP\<close>).
\<close>

definition slash :: char where "slash = CHR ''/''"

definition IsAbs :: "string \<Rightarrow> bool" where
  "IsAbs p = prefix [slash] p"

text \<open>The elements \<^verbatim>\<open>filepath.Clean\<close> keeps: it drops empty elements and \<^verbatim>\<open>.\<close>, and lets \<^verbatim>\<open>..\<close> eat the element before it.\<close>

fun cleanStep :: "bool \<Rightarrow> string list \<Rightarrow> string \<Rightarrow> string list" where
  "cleanStep rooted acc e =
     (if e = [] \<or> e = ''.'' then acc
      else if e = ''..'' then
        (if acc \<noteq> [] \<and> last acc \<noteq> ''..'' then butlast acc
         else if rooted then acc
         else acc @ [e])
      else acc @ [e])"

definition elements :: "string \<Rightarrow> string list" where
  "elements p = foldl (cleanStep (IsAbs p)) [] (splitOn slash p)"

definition rendered :: "bool \<Rightarrow> string list \<Rightarrow> string" where
  "rendered rooted es = (if rooted then slash # joinWith slash es else if es = [] then ''.'' else joinWith slash es)"

definition Clean :: "string \<Rightarrow> string" where
  "Clean p = rendered (IsAbs p) (elements p)"

text \<open>What stands up to and after the last separator.\<close>

definition dirPart :: "string \<Rightarrow> string" where
  "dirPart p = rev (dropWhile (\<lambda>c. c \<noteq> slash) (rev p))"

definition filePart :: "string \<Rightarrow> string" where
  "filePart p = rev (takeWhile (\<lambda>c. c \<noteq> slash) (rev p))"

definition Dir :: "string \<Rightarrow> string" where
  "Dir p = Clean (dirPart p)"

definition Base :: "string \<Rightarrow> string" where
  "Base p =
     (if p = [] then ''.''
      else (let q = rev (dropWhile (\<lambda>c. c = slash) (rev p)) in if q = [] then [slash] else filePart q))"

text \<open>\<^verbatim>\<open>filepath.Join\<close> of two elements, of which empty ones do not count.\<close>

definition Join :: "string \<Rightarrow> string \<Rightarrow> string" where
  "Join a b =
     (if a = [] \<and> b = [] then [] else if a = [] then Clean b else if b = [] then Clean a else Clean (a @ slash # b))"

fun stripCommon :: "'a list \<Rightarrow> 'a list \<Rightarrow> 'a list \<times> 'a list" where
  "stripCommon (x # xs) (y # ys) = (if x = y then stripCommon xs ys else (x # xs, y # ys))"
| "stripCommon xs ys = (xs, ys)"

definition Rel :: "string \<Rightarrow> string \<Rightarrow> string option" where
  "Rel base targ =
     (if Clean targ = Clean base then Some ''.''
      else if IsAbs base \<noteq> IsAbs targ then None
      else (case stripCommon (elements base) (elements targ) of
              ([], ts) \<Rightarrow> Some (joinWith slash ts)
            | (b # bs, ts) \<Rightarrow>
                if b = ''..'' then None else Some (joinWith slash (map (\<lambda>_. ''..'') (b # bs) @ ts))))"

section \<open>Files\<close>

datatype FileKind = RegularFile | Directory | Symlink | OtherFile

record FileInfo =
  fi_Kind :: FileKind
  fi_Perm :: nat
  fi_Uid :: int

datatype XattrResult = XattrSize nat | XattrAbsent | XattrError

record FileSystem =
  fs_Lstat :: "string \<Rightarrow> FileInfo option"
  fs_Stat :: "string \<Rightarrow> FileInfo option"
  fs_EvalSymlinks :: "string \<Rightarrow> string option"
  fs_Getxattr :: "string \<Rightarrow> string \<Rightarrow> XattrResult"

section \<open>Elements of a clean path\<close>

definition plainElement :: "string \<Rightarrow> bool" where
  "plainElement e \<longleftrightarrow> e \<noteq> [] \<and> e \<noteq> ''.'' \<and> e \<noteq> ''..'' \<and> slash \<notin> set e"

lemma cleanStep_plain:
  "list_all plainElement acc \<Longrightarrow> slash \<notin> set e \<Longrightarrow> list_all plainElement (cleanStep True acc e)"
  by (auto simp: plainElement_def list_all_iff dest: in_set_butlastD)

lemma cleanFold_plain:
  "list_all plainElement acc \<Longrightarrow> \<forall>e\<in>set es. slash \<notin> set e \<Longrightarrow> list_all plainElement (foldl (cleanStep True) acc es)"
  by (induction es arbitrary: acc) (simp_all add: cleanStep_plain del: cleanStep.simps)

lemma elements_plain: "IsAbs p \<Longrightarrow> list_all plainElement (elements p)"
  unfolding elements_def using splitOn_no_sep[of _ slash p] by (simp add: cleanFold_plain)

lemma cleanFold_id: "list_all plainElement es \<Longrightarrow> foldl (cleanStep rooted) acc es = acc @ es"
  by (induction es arbitrary: acc) (auto simp: plainElement_def)

lemma elements_rendered:
  assumes "list_all plainElement es"
  shows "elements (rendered True es) = es"
proof -
  have abs: "IsAbs (rendered True es)"
    by (simp add: IsAbs_def rendered_def)
  have "splitOn slash (rendered True es) = [] # (if es = [] then [[]] else es)"
    using assms split_join[of es slash] by (auto simp: rendered_def plainElement_def list_all_iff)
  then show ?thesis
    using cleanFold_id[OF assms, of True "[]"] abs by (auto simp: elements_def)
qed

lemma Clean_rooted:
  assumes "IsAbs p"
  shows "Clean p = rendered True (elements p)" "IsAbs (Clean p)" "elements (Clean p) = elements p" "Clean (Clean p) = Clean p"
proof -
  show eq: "Clean p = rendered True (elements p)"
    using assms by (simp add: Clean_def)
  show abs: "IsAbs (Clean p)"
    using assms by (simp add: Clean_def rendered_def IsAbs_def)
  show els: "elements (Clean p) = elements p"
    using elements_rendered[OF elements_plain[OF assms]] eq by simp
  show "Clean (Clean p) = Clean p"
    using eq els abs by (simp add: Clean_def)
qed

lemma clean_path_eq:
  assumes "IsAbs p" "Clean p = p" "IsAbs q" "Clean q = q"
  shows "p = q \<longleftrightarrow> elements p = elements q"
  using assms Clean_rooted(1) by metis

lemma stripCommon_prefix: "fst (stripCommon xs ys) = [] \<longleftrightarrow> prefix xs ys"
  by (induction xs ys rule: stripCommon.induct) auto

end
