(* ===== verification/SudoCatalog.thy ===== *)
theory SudoCatalog
  imports GoFilepath PolicyParse GrantTypes
begin

text \<open>
  The catalog of commands of the sudo broker, \<^verbatim>\<open>brokers/sudo/internal/catalog/catalog.go\<close>: how the document root owns becomes a
  snapshot, how a request for a command becomes an argument vector (\<open>Resolve\<close>), and how a resolved command is held against the
  catalog again (\<open>ValidateResolved\<close>).

  \<^item> JSON is a parameter (\<open>CatalogEnv\<close>): the value a text stands for, the text of a string, the decoded document, the text and the
    digest of the normalised commands. Duplicate keys are refused here, on the value (\<open>RejectDuplicateKeys\<close> of
    \<^verbatim>\<open>internal/strictjson\<close>).
  \<^item> Files are a parameter (\<open>FileSystem\<close>).
  \<^item> A pointer is an option; a nil map is the empty map.
\<close>

section \<open>Duplicate keys\<close>

text \<open>\<open>consumeValue\<close>, \<open>consumeObject\<close> and \<open>consumeArray\<close> walk a value and stop at a key an object has already had.\<close>

fun consumeValue :: "jsonValue \<Rightarrow> bool"
  and consumeObject :: "string list \<Rightarrow> (string \<times> jsonValue) list \<Rightarrow> bool"
  and consumeArray :: "jsonValue list \<Rightarrow> bool" where
  "consumeValue (JObject es) = consumeObject [] es"
| "consumeValue (JArray xs) = consumeArray xs"
| "consumeValue v = True"
| "consumeObject seen [] = True"
| "consumeObject seen ((k, v) # es) = (k \<notin> set seen \<and> consumeValue v \<and> consumeObject (k # seen) es)"
| "consumeArray [] = True"
| "consumeArray (x # xs) = (consumeValue x \<and> consumeArray xs)"

text \<open>\<open>True\<close> is the nil error.\<close>

definition RejectDuplicateKeys :: "(string \<Rightarrow> jsonValue option) \<Rightarrow> string \<Rightarrow> bool" where
  "RejectDuplicateKeys parse data = (case parse data of None \<Rightarrow> False | Some v \<Rightarrow> consumeValue v)"

section \<open>Data\<close>

definition catalogVersion :: int where "catalogVersion = 1"
definition maxCommands :: nat where "maxCommands = 1024"
definition maxArguments :: nat where "maxArguments = 64"
definition maxTargetUsers :: nat where "maxTargetUsers = 16"
definition maxTimeoutSeconds :: int where "maxTimeoutSeconds = 3600"
definition maxOutputBytes :: int where "maxOutputBytes = 1048576"
definition maxStringBytes :: nat where "maxStringBytes = 4096"
definition defaultCommandRisk :: string where "defaultCommandRisk = ''high''"

definition lowerChar :: "char \<Rightarrow> bool" where
  "lowerChar c = (97 \<le> byte c \<and> byte c \<le> 122)"

definition upperChar :: "char \<Rightarrow> bool" where
  "upperChar c = (65 \<le> byte c \<and> byte c \<le> 90)"

text \<open>A pattern \<^verbatim>\<open>^[first][rest]{0,n}$\<close> over ASCII classes.\<close>

definition headTail :: "(char \<Rightarrow> bool) \<Rightarrow> (char \<Rightarrow> bool) \<Rightarrow> nat \<Rightarrow> string \<Rightarrow> bool" where
  "headTail first rest n s = (case s of [] \<Rightarrow> False | c # cs \<Rightarrow> first c \<and> list_all rest cs \<and> length cs \<le> n)"

definition idPattern :: "string \<Rightarrow> bool" where
  "idPattern = headTail (\<lambda>c. lowerChar c \<or> isDigit c) (\<lambda>c. lowerChar c \<or> isDigit c \<or> c = CHR ''-'') 63"

definition slotPattern :: "string \<Rightarrow> bool" where
  "slotPattern = headTail lowerChar (\<lambda>c. lowerChar c \<or> isDigit c \<or> c = CHR ''_'') 63"

definition userPattern :: "string \<Rightarrow> bool" where
  "userPattern = headTail (\<lambda>c. upperChar c \<or> lowerChar c \<or> c = CHR ''_'')
     (\<lambda>c. upperChar c \<or> lowerChar c \<or> isDigit c \<or> c \<in> set ''_.-'') 63"

definition envPattern :: "string \<Rightarrow> bool" where
  "envPattern = headTail (\<lambda>c. upperChar c \<or> c = CHR ''_'') (\<lambda>c. upperChar c \<or> isDigit c \<or> c = CHR ''_'') 127"

record Argument =
  arg_Literal :: "string option"
  arg_Slot :: string
  arg_Type :: string
  arg_Minimum :: "int option"
  arg_Maximum :: "int option"
  arg_Values :: "string list"
  arg_Roots :: "string list"
  arg_MustExist :: bool
  arg_FileType :: string

record Command =
  cc_ID :: string
  cc_Executable :: string
  cc_Arguments :: "Argument list"
  cc_TargetUsers :: "string list"
  cc_WorkingDirectory :: string
  cc_TimeoutSeconds :: int
  cc_MaxOutputBytes :: int
  cc_Environment :: "string gomap"
  cc_Description :: string
  cc_Risk :: string

record Snapshot =
  sn_commands :: "Command gomap"
  sn_digest :: string

record Resolved =
  rs_CommandID :: string
  rs_TargetUser :: string
  rs_Executable :: string
  rs_Arguments :: "string list"
  rs_WorkingDirectory :: string
  rs_Environment :: "string gomap"
  rs_TimeoutSeconds :: int
  rs_MaxOutputBytes :: int
  rs_SlotValues :: "string gomap"
  rs_CatalogDigest :: string

record rawCommand =
  rc_ID :: string
  rc_Executable :: string
  rc_Arguments :: "Argument list option"
  rc_TargetUsers :: "string list option"
  rc_WorkingDirectory :: string
  rc_TimeoutSeconds :: int
  rc_MaxOutputBytes :: "int option"
  rc_Environment :: "string gomap"
  rc_Description :: string
  rc_Risk :: string

record document =
  doc_Version :: int
  doc_Commands :: "rawCommand list option"

record CatalogEnv =
  ce_json :: "string \<Rightarrow> jsonValue option"
  ce_quote :: "string \<Rightarrow> string"
  ce_document :: "string \<Rightarrow> document option"
  ce_commands :: "int \<Rightarrow> Command list \<Rightarrow> string option"
  ce_digest :: "string \<Rightarrow> string"
  ce_fs :: FileSystem

datatype catalogError =
    CatalogJSON | CatalogVersion | CatalogSize | CatalogCommand nat catalogError | CatalogDuplicate nat string | CatalogEncode
  | CommandID | ExecutablePath | ExecutableShell | ExecutableStat | ExecutableInfo | ArgumentsSize | ArgumentAt nat catalogError
  | LiteralSlotFields | SlotInvalid | SlotType | IntegerSlot | EnumSlotShape | EnumValuesInvalid | PathSlotShape
  | PathRoot catalogError | TargetUsersSize | TargetUsersInvalid | DirectoryPath | DirectoryInfo | TimeoutRange | OutputRange
  | EnvironmentName string | ValueInvalid string | DisplayText string | RiskInvalid
  | UnknownCommand | UserNotAllowed | ArgumentRequired string | ArgumentFor string catalogError | ArgumentUndeclared string
  | ArgumentJSON | ArgumentType | IntegerValue int int | EnumValue | PathString | PathNotClean | PathMissing | PathUnsafe | PathEscapes
  | PathNotRegular | PathNotDirectory
  | DigestMismatch | ResolvedGone | ResolvedMissingSlot | ResolvedDiffers

section \<open>Validation of the document\<close>

text \<open>\<^verbatim>\<open>strings.IndexFunc(value, unicode.IsControl) >= 0\<close> is \<open>\<not> noControlRunes value\<close>.\<close>

definition validateValue :: "string \<Rightarrow> string \<Rightarrow> catalogError option" where
  "validateValue value label = failIf (value = [] \<or> length value > maxStringBytes \<or> \<not> noControlRunes value) (ValueInvalid label)"

definition validateDisplayText :: "string \<Rightarrow> nat \<Rightarrow> string \<Rightarrow> catalogError option" where
  "validateDisplayText value maximum label = failIf (length value > maximum \<or> \<not> noControlRunes value) (DisplayText label)"

definition unsafeEnvironmentName :: "string \<Rightarrow> bool" where
  "unsafeEnvironmentName value =
     (value \<in> set [''PATH'', ''IFS'', ''ENV'', ''BASH_ENV'', ''ZDOTDIR''] \<or> prefix ''LD_'' value \<or> prefix ''DYLD_'' value)"

definition validateEnvironment :: "string gomap \<Rightarrow> catalogError option" where
  "validateEnvironment environment =
     firstError (\<lambda>(key, value).
        orElse (failIf (\<not> envPattern key \<or> unsafeEnvironmentName key) (EnvironmentName key)) (validateValue value ''environment value''))
       environment"

fun usersLoop :: "string list \<Rightarrow> string list \<Rightarrow> bool" where
  "usersLoop seen [] = True"
| "usersLoop seen (value # values) = (userPattern value \<and> value \<notin> set seen \<and> usersLoop (value # seen) values)"

definition normalizeUsers :: "string list \<Rightarrow> catalogError + string list" where
  "normalizeUsers values = (if usersLoop [] values then Inr (sort values) else Inl TargetUsersInvalid)"

definition validateDirectory :: "FileSystem \<Rightarrow> string \<Rightarrow> catalogError + string" where
  "validateDirectory fs value =
     (if \<not> IsAbs value \<or> Clean value \<noteq> value then Inl DirectoryPath
      else (case fs_Lstat fs value of None \<Rightarrow> Inl DirectoryInfo
            | Some info \<Rightarrow> if fi_Kind info \<noteq> Directory then Inl DirectoryInfo else Inr value))"

definition shellEquivalent :: "string \<Rightarrow> bool" where
  "shellEquivalent base =
     (base \<in> set [''ash'', ''bash'', ''busybox'', ''csh'', ''dash'', ''env'', ''fish'', ''hush'', ''ksh'', ''pwsh'', ''sh'', ''su'',
                   ''sudo'', ''tcsh'', ''zsh''])"

text \<open>\<^verbatim>\<open>info.Mode().Perm() & 0o111 != 0\<close>: one of the bits 0, 3 and 6 is set.\<close>

definition validExecutableInfo :: "FileInfo \<Rightarrow> bool" where
  "validExecutableInfo info =
     (fi_Kind info = RegularFile \<and> (odd (fi_Perm info) \<or> odd (fi_Perm info div 8) \<or> odd (fi_Perm info div 64)))"

definition validateExecutable :: "FileSystem \<Rightarrow> string \<Rightarrow> catalogError + string" where
  "validateExecutable fs value =
     (if \<not> IsAbs value \<or> Clean value \<noteq> value then Inl ExecutablePath
      else if shellEquivalent (Base value) then Inl ExecutableShell
      else (case fs_Lstat fs value of None \<Rightarrow> Inl ExecutableStat
            | Some info \<Rightarrow> if validExecutableInfo info then Inr value else Inl ExecutableInfo))"

definition literalHasSlotFields :: "Argument \<Rightarrow> bool" where
  "literalHasSlotFields a =
     (arg_Slot a \<noteq> [] \<or> arg_Type a \<noteq> [] \<or> arg_Minimum a \<noteq> None \<or> arg_Maximum a \<noteq> None \<or> arg_Values a \<noteq> [] \<or> arg_Roots a \<noteq> []
      \<or> arg_MustExist a \<or> arg_FileType a \<noteq> [])"

definition validateLiteralArgument :: "Argument \<Rightarrow> string \<Rightarrow> catalogError option" where
  "validateLiteralArgument a literal =
     (if literalHasSlotFields a then Some LiteralSlotFields else validateValue literal ''literal'')"

definition validateIntegerSlot :: "Argument \<Rightarrow> catalogError option" where
  "validateIntegerSlot a =
     (case (arg_Minimum a, arg_Maximum a) of
        (Some lo, Some hi) \<Rightarrow>
          failIf (lo > hi \<or> arg_Values a \<noteq> [] \<or> arg_Roots a \<noteq> [] \<or> arg_MustExist a \<or> arg_FileType a \<noteq> []) IntegerSlot
      | _ \<Rightarrow> Some IntegerSlot)"

definition invalidEnumSlotShape :: "Argument \<Rightarrow> bool" where
  "invalidEnumSlotShape a =
     (arg_Minimum a \<noteq> None \<or> arg_Maximum a \<noteq> None \<or> arg_Values a = [] \<or> length (arg_Values a) > 256 \<or> arg_Roots a \<noteq> []
      \<or> arg_MustExist a \<or> arg_FileType a \<noteq> [])"

fun enumValuesLoop :: "string list \<Rightarrow> string list \<Rightarrow> catalogError option" where
  "enumValuesLoop seen [] = None"
| "enumValuesLoop seen (value # values) =
     (if validateValue value ''enum value'' \<noteq> None \<or> value \<in> set seen then Some EnumValuesInvalid
      else enumValuesLoop (value # seen) values)"

definition validateEnumValues :: "string list \<Rightarrow> catalogError option" where
  "validateEnumValues values = enumValuesLoop [] values"

definition validateEnumSlot :: "Argument \<Rightarrow> catalogError option" where
  "validateEnumSlot a = (if invalidEnumSlotShape a then Some EnumSlotShape else validateEnumValues (arg_Values a))"

definition invalidPathSlotShape :: "Argument \<Rightarrow> bool" where
  "invalidPathSlotShape a =
     (arg_Minimum a \<noteq> None \<or> arg_Maximum a \<noteq> None \<or> arg_Values a \<noteq> [] \<or> arg_Roots a = [] \<or> length (arg_Roots a) > 16
      \<or> (arg_FileType a \<noteq> ''regular'' \<and> arg_FileType a \<noteq> ''directory''))"

definition validatePathSlot :: "FileSystem \<Rightarrow> Argument \<Rightarrow> catalogError option" where
  "validatePathSlot fs a =
     (if invalidPathSlotShape a then Some PathSlotShape
      else firstError (\<lambda>root. case validateDirectory fs root of Inl e \<Rightarrow> Some (PathRoot e) | Inr _ \<Rightarrow> None) (arg_Roots a))"

definition validateSlot :: "FileSystem \<Rightarrow> Argument \<Rightarrow> catalogError option" where
  "validateSlot fs a =
     (if arg_Type a = ''integer'' then validateIntegerSlot a
      else if arg_Type a = ''enum'' then validateEnumSlot a
      else if arg_Type a = ''path_beneath'' then validatePathSlot fs a
      else Some SlotType)"

text \<open>\<^verbatim>\<open>validateArgument\<close> adds the slot to the set \<^verbatim>\<open>slots\<close>: the result is the new set or the error.\<close>

definition validateArgument :: "FileSystem \<Rightarrow> nat \<Rightarrow> Argument \<Rightarrow> string list \<Rightarrow> catalogError + string list" where
  "validateArgument fs index a slots =
     (case arg_Literal a of
        Some literal \<Rightarrow>
          (case validateLiteralArgument a literal of Some e \<Rightarrow> Inl (ArgumentAt index e) | None \<Rightarrow> Inr slots)
      | None \<Rightarrow>
          if \<not> slotPattern (arg_Slot a) \<or> arg_Slot a \<in> set slots then Inl (ArgumentAt index SlotInvalid)
          else (case validateSlot fs a of Some e \<Rightarrow> Inl (ArgumentAt index e) | None \<Rightarrow> Inr (arg_Slot a # slots)))"

fun validateArgumentsLoop :: "FileSystem \<Rightarrow> nat \<Rightarrow> string list \<Rightarrow> Argument list \<Rightarrow> catalogError option" where
  "validateArgumentsLoop fs index slots [] = None"
| "validateArgumentsLoop fs index slots (a # as) =
     (case validateArgument fs index a slots of Inl e \<Rightarrow> Some e | Inr slots' \<Rightarrow> validateArgumentsLoop fs (Suc index) slots' as)"

definition validateArguments :: "FileSystem \<Rightarrow> Argument list \<Rightarrow> catalogError option" where
  "validateArguments fs arguments = validateArgumentsLoop fs 0 [] arguments"

definition normalizeRisk :: "string \<Rightarrow> catalogError + string" where
  "normalizeRisk value =
     (if value = [] then Inr defaultCommandRisk
      else if value \<noteq> ''low'' \<and> value \<noteq> ''medium'' \<and> value \<noteq> ''high'' then Inl RiskInvalid
      else Inr value)"

definition normalizeCommandMetadata :: "rawCommand \<Rightarrow> catalogError + string" where
  "normalizeCommandMetadata raw =
     (if rc_TimeoutSeconds raw < 1 \<or> rc_TimeoutSeconds raw > maxTimeoutSeconds then Inl TimeoutRange
      else (case rc_MaxOutputBytes raw of None \<Rightarrow> Inl OutputRange
            | Some n \<Rightarrow>
                if n < 0 \<or> n > maxOutputBytes then Inl OutputRange
                else guardR (validateEnvironment (rc_Environment raw))
                       (guardR (validateDisplayText (rc_Description raw) 256 ''description'') (normalizeRisk (rc_Risk raw)))))"

definition normalizeCommandIdentity :: "FileSystem \<Rightarrow> rawCommand \<Rightarrow> catalogError + (string list \<times> string)" where
  "normalizeCommandIdentity fs raw =
     (case rc_TargetUsers raw of None \<Rightarrow> Inl TargetUsersSize
      | Some users \<Rightarrow>
          if users = [] \<or> length users > maxTargetUsers then Inl TargetUsersSize
          else bindR (normalizeUsers users) (\<lambda>targetUsers.
                 bindR (validateDirectory fs (rc_WorkingDirectory raw)) (\<lambda>workingDirectory. Inr (targetUsers, workingDirectory))))"

definition normalizeCommandExecution :: "FileSystem \<Rightarrow> rawCommand \<Rightarrow> catalogError + (string \<times> Argument list)" where
  "normalizeCommandExecution fs raw =
     bindR (validateExecutable fs (rc_Executable raw)) (\<lambda>executable.
       case rc_Arguments raw of None \<Rightarrow> Inl ArgumentsSize
       | Some arguments \<Rightarrow>
           if length arguments > maxArguments then Inl ArgumentsSize
           else guardR (validateArguments fs arguments) (Inr (executable, arguments)))"

definition normalizeCommand :: "FileSystem \<Rightarrow> rawCommand \<Rightarrow> catalogError + Command" where
  "normalizeCommand fs raw =
     (if \<not> idPattern (rc_ID raw) then Inl CommandID
      else bindR (normalizeCommandExecution fs raw) (\<lambda>(executable, arguments).
           bindR (normalizeCommandIdentity fs raw) (\<lambda>(targetUsers, workingDirectory).
           bindR (normalizeCommandMetadata raw) (\<lambda>risk.
             Inr \<lparr>cc_ID = rc_ID raw, cc_Executable = executable, cc_Arguments = arguments, cc_TargetUsers = targetUsers,
                  cc_WorkingDirectory = workingDirectory, cc_TimeoutSeconds = rc_TimeoutSeconds raw,
                  cc_MaxOutputBytes = (case rc_MaxOutputBytes raw of Some n \<Rightarrow> n | None \<Rightarrow> 0),
                  cc_Environment = rc_Environment raw, cc_Description = rc_Description raw, cc_Risk = risk\<rparr>))))"

fun normalizeCommandsLoop :: "FileSystem \<Rightarrow> nat \<Rightarrow> string list \<Rightarrow> rawCommand list \<Rightarrow> catalogError + Command list" where
  "normalizeCommandsLoop fs index seen [] = Inr []"
| "normalizeCommandsLoop fs index seen (value # values) =
     (case normalizeCommand fs value of
        Inl e \<Rightarrow> Inl (CatalogCommand index e)
      | Inr command \<Rightarrow>
          if cc_ID command \<in> set seen then Inl (CatalogDuplicate index (cc_ID command))
          else (case normalizeCommandsLoop fs (Suc index) (cc_ID command # seen) values of
                  Inl e \<Rightarrow> Inl e | Inr commands \<Rightarrow> Inr (command # commands)))"

definition normalizeCommands :: "FileSystem \<Rightarrow> rawCommand list \<Rightarrow> catalogError + Command list" where
  "normalizeCommands fs raw = bindR (normalizeCommandsLoop fs 0 [] raw) (\<lambda>commands. Inr (sort_key cc_ID commands))"

definition commandsDigest :: "CatalogEnv \<Rightarrow> Command list \<Rightarrow> catalogError + string" where
  "commandsDigest env commands =
     (case ce_commands env catalogVersion commands of None \<Rightarrow> Inl CatalogEncode | Some encoded \<Rightarrow> Inr (ce_digest env encoded))"

definition validateDocumentHeader :: "document \<Rightarrow> catalogError + rawCommand list" where
  "validateDocumentHeader raw =
     (if doc_Version raw \<noteq> catalogVersion then Inl CatalogVersion
      else (case doc_Commands raw of None \<Rightarrow> Inl CatalogSize
            | Some commands \<Rightarrow> if commands = [] \<or> length commands > maxCommands then Inl CatalogSize else Inr commands))"

definition parseDocument :: "CatalogEnv \<Rightarrow> string \<Rightarrow> catalogError + rawCommand list" where
  "parseDocument env data =
     (if \<not> RejectDuplicateKeys (ce_json env) data then Inl CatalogJSON
      else (case ce_document env data of None \<Rightarrow> Inl CatalogJSON | Some raw \<Rightarrow> validateDocumentHeader raw))"

definition Catalog_Parse :: "CatalogEnv \<Rightarrow> string \<Rightarrow> catalogError + Snapshot" where
  "Catalog_Parse env data =
     bindR (parseDocument env data) (\<lambda>raw.
     bindR (normalizeCommands (ce_fs env) raw) (\<lambda>commands.
     bindR (commandsDigest env commands) (\<lambda>digest.
       Inr \<lparr>sn_commands = map (\<lambda>c. (cc_ID c, c)) commands, sn_digest = digest\<rparr>)))"

section \<open>Snapshots\<close>

definition snapshotCommand :: "Snapshot \<Rightarrow> string \<Rightarrow> Command option" where
  "snapshotCommand s i = map_of (sn_commands s) i"

definition SlotNames :: "Snapshot \<Rightarrow> string list" where
  "SlotNames s =
     compact (sort (filter (\<lambda>slot. slot \<noteq> []) (concat (map (\<lambda>(_, command). map arg_Slot (cc_Arguments command)) (sn_commands s)))))"

section \<open>Resolving a command\<close>

text \<open>\<^verbatim>\<open>strconv.FormatInt(value, 10)\<close>.\<close>

definition formatInt :: "int \<Rightarrow> string" where
  "formatInt v = (if v < 0 then CHR ''-'' # itoaNat (nat (- v)) else itoaNat (nat v))"

definition boundOf :: "int option \<Rightarrow> int" where
  "boundOf b = (case b of Some v \<Rightarrow> v | None \<Rightarrow> 0)"

definition resolveIntegerArgument :: "Argument \<Rightarrow> string \<Rightarrow> catalogError + string" where
  "resolveIntegerArgument spec raw =
     (case parseInt64 raw of
        None \<Rightarrow> Inl (IntegerValue (boundOf (arg_Minimum spec)) (boundOf (arg_Maximum spec)))
      | Some value \<Rightarrow>
          if value < boundOf (arg_Minimum spec) \<or> value > boundOf (arg_Maximum spec)
          then Inl (IntegerValue (boundOf (arg_Minimum spec)) (boundOf (arg_Maximum spec)))
          else Inr (formatInt value))"

text \<open>\<^verbatim>\<open>json.Unmarshal(raw, &value)\<close> into a string.\<close>

definition unmarshalString :: "CatalogEnv \<Rightarrow> string \<Rightarrow> string option" where
  "unmarshalString env raw =
     (case ce_json env raw of None \<Rightarrow> None | Some v \<Rightarrow> (case jsonString v of Inl _ \<Rightarrow> None | Inr s \<Rightarrow> Some s))"

definition resolveEnumArgument :: "CatalogEnv \<Rightarrow> Argument \<Rightarrow> string \<Rightarrow> catalogError + string" where
  "resolveEnumArgument env spec raw =
     (case unmarshalString env raw of None \<Rightarrow> Inl EnumValue
      | Some value \<Rightarrow> if value \<in> set (arg_Values spec) then Inr value else Inl EnumValue)"

text \<open>
  The loop that walks up to the first ancestor that exists. \<^verbatim>\<open>filepath.Dir\<close> of an absolute path is the path itself or shorter
  (\<open>Dir_shorter\<close>), so the test of the lengths, which makes the recursion well-founded, decides as \<^verbatim>\<open>parent == current\<close> does.
\<close>

function resolveMissingLoop :: "FileSystem \<Rightarrow> string \<Rightarrow> string list \<Rightarrow> catalogError + string" where
  "resolveMissingLoop fs current tail =
     (if fs_Lstat fs current \<noteq> None then
        (case fs_EvalSymlinks fs current of None \<Rightarrow> Inl PathUnsafe
         | Some resolved \<Rightarrow> Inr (foldl Join resolved (rev tail)))
      else (let parent = Dir current in
            if \<not> length parent < length current then Inl PathUnsafe
            else resolveMissingLoop fs parent (tail @ [Base current])))"
  by pat_completeness auto
termination
  by (relation "measure (\<lambda>(fs, current, tail). length current)") auto

declare resolveMissingLoop.simps [simp del]

definition resolveMissingPath :: "FileSystem \<Rightarrow> string \<Rightarrow> catalogError + string" where
  "resolveMissingPath fs value = resolveMissingLoop fs value []"

definition resolveCatalogPath :: "FileSystem \<Rightarrow> string \<Rightarrow> bool \<Rightarrow> catalogError + string" where
  "resolveCatalogPath fs value mustExist =
     (case fs_EvalSymlinks fs value of Some resolved \<Rightarrow> Inr resolved
      | None \<Rightarrow> if mustExist then Inl PathMissing else resolveMissingPath fs value)"

definition pathBeneath :: "string \<Rightarrow> string \<Rightarrow> bool" where
  "pathBeneath root value =
     (case Rel root value of None \<Rightarrow> False | Some relative \<Rightarrow> relative \<noteq> ''..'' \<and> \<not> prefix (''..'' @ [slash]) relative)"

definition insideAnyRoot :: "FileSystem \<Rightarrow> string list \<Rightarrow> string \<Rightarrow> bool" where
  "insideAnyRoot fs roots resolved =
     list_ex (\<lambda>root. case fs_EvalSymlinks fs root of None \<Rightarrow> False | Some resolvedRoot \<Rightarrow> pathBeneath resolvedRoot resolved) roots"

definition validateExistingPathType :: "FileInfo \<Rightarrow> string \<Rightarrow> catalogError option" where
  "validateExistingPathType info fileType =
     orElse (failIf (fileType = ''regular'' \<and> fi_Kind info \<noteq> RegularFile) PathNotRegular)
       (failIf (fileType = ''directory'' \<and> fi_Kind info \<noteq> Directory) PathNotDirectory)"

definition validateResolvedPathType :: "FileSystem \<Rightarrow> string \<Rightarrow> string \<Rightarrow> bool \<Rightarrow> catalogError + string" where
  "validateResolvedPathType fs resolved fileType mustExist =
     (case fs_Stat fs resolved of
        Some info \<Rightarrow> guardR (validateExistingPathType info fileType) (Inr resolved)
      | None \<Rightarrow> if mustExist then Inl PathMissing else Inr resolved)"

definition resolvePath :: "FileSystem \<Rightarrow> Argument \<Rightarrow> string \<Rightarrow> catalogError + string" where
  "resolvePath fs spec value =
     (if \<not> IsAbs value \<or> Clean value \<noteq> value then Inl PathNotClean
      else bindR (resolveCatalogPath fs value (arg_MustExist spec)) (\<lambda>resolved.
             if \<not> insideAnyRoot fs (arg_Roots spec) resolved then Inl PathEscapes
             else validateResolvedPathType fs resolved (arg_FileType spec) (arg_MustExist spec)))"

definition resolvePathArgument :: "CatalogEnv \<Rightarrow> Argument \<Rightarrow> string \<Rightarrow> catalogError + string" where
  "resolvePathArgument env spec raw =
     (case unmarshalString env raw of None \<Rightarrow> Inl PathString | Some value \<Rightarrow> resolvePath (ce_fs env) spec value)"

definition resolveArgument :: "CatalogEnv \<Rightarrow> Argument \<Rightarrow> string \<Rightarrow> catalogError + string" where
  "resolveArgument env spec raw =
     (if \<not> RejectDuplicateKeys (ce_json env) raw then Inl ArgumentJSON
      else if arg_Type spec = ''integer'' then resolveIntegerArgument spec raw
      else if arg_Type spec = ''enum'' then resolveEnumArgument env spec raw
      else if arg_Type spec = ''path_beneath'' then resolvePathArgument env spec raw
      else Inl ArgumentType)"

text \<open>The value and the slot it fills; the empty slot for a literal.\<close>

definition resolveCommandArgument :: "CatalogEnv \<Rightarrow> Argument \<Rightarrow> string gomap \<Rightarrow> catalogError + (string \<times> string)" where
  "resolveCommandArgument env spec inputs =
     (case arg_Literal spec of
        Some literal \<Rightarrow> Inr (literal, [])
      | None \<Rightarrow>
          (case map_of inputs (arg_Slot spec) of
             None \<Rightarrow> Inl (ArgumentRequired (arg_Slot spec))
           | Some raw \<Rightarrow>
               (case resolveArgument env spec raw of
                  Inl e \<Rightarrow> Inl (ArgumentFor (arg_Slot spec) e) | Inr value \<Rightarrow> Inr (value, arg_Slot spec))))"

definition rejectUnexpectedInputs :: "string gomap \<Rightarrow> string list \<Rightarrow> catalogError option" where
  "rejectUnexpectedInputs inputs declared = firstError (\<lambda>(key, _). failIf (key \<notin> set declared) (ArgumentUndeclared key)) inputs"

text \<open>The loop over the arguments: the argument vector, the slot values and the slots met so far.\<close>

fun resolveLoop ::
  "CatalogEnv \<Rightarrow> string gomap \<Rightarrow> Argument list \<Rightarrow> string list \<Rightarrow> string gomap \<Rightarrow> string list
    \<Rightarrow> catalogError + (string list \<times> string gomap \<times> string list)" where
  "resolveLoop env inputs [] argv values seen = Inr (argv, values, seen)"
| "resolveLoop env inputs (spec # specs) argv values seen =
     (case resolveCommandArgument env spec inputs of
        Inl e \<Rightarrow> Inl e
      | Inr (value, slot) \<Rightarrow>
          if slot \<noteq> [] then resolveLoop env inputs specs (argv @ [value]) (mapSet slot value values) (slot # seen)
          else resolveLoop env inputs specs (argv @ [value]) values seen)"

definition Resolve :: "CatalogEnv \<Rightarrow> Snapshot \<Rightarrow> string \<Rightarrow> string \<Rightarrow> string gomap \<Rightarrow> catalogError + Resolved" where
  "Resolve env s commandID targetUser inputs =
     (case snapshotCommand s commandID of
        None \<Rightarrow> Inl UnknownCommand
      | Some command \<Rightarrow>
          if targetUser \<notin> set (cc_TargetUsers command) then Inl UserNotAllowed
          else bindR (resolveLoop env inputs (cc_Arguments command) [cc_Executable command] [] []) (\<lambda>(argv, values, seen).
                 guardR (rejectUnexpectedInputs inputs seen)
                   (Inr \<lparr>rs_CommandID = cc_ID command, rs_TargetUser = targetUser, rs_Executable = cc_Executable command,
                         rs_Arguments = argv, rs_WorkingDirectory = cc_WorkingDirectory command,
                         rs_Environment = cc_Environment command, rs_TimeoutSeconds = cc_TimeoutSeconds command,
                         rs_MaxOutputBytes = cc_MaxOutputBytes command, rs_SlotValues = values, rs_CatalogDigest = sn_digest s\<rparr>)))"

definition resolvedInputValue :: "CatalogEnv \<Rightarrow> Argument \<Rightarrow> string \<Rightarrow> string" where
  "resolvedInputValue env a value = (if arg_Type a = ''integer'' then value else ce_quote env value)"

fun resolvedInputsLoop :: "CatalogEnv \<Rightarrow> string gomap \<Rightarrow> Argument list \<Rightarrow> string gomap \<Rightarrow> catalogError + string gomap" where
  "resolvedInputsLoop env slots [] inputs = Inr inputs"
| "resolvedInputsLoop env slots (a # as) inputs =
     (if arg_Slot a = [] then resolvedInputsLoop env slots as inputs
      else (case map_of slots (arg_Slot a) of
              None \<Rightarrow> Inl ResolvedMissingSlot
            | Some value \<Rightarrow> resolvedInputsLoop env slots as (mapSet (arg_Slot a) (resolvedInputValue env a value) inputs)))"

definition resolvedInputs :: "CatalogEnv \<Rightarrow> Command \<Rightarrow> Resolved \<Rightarrow> catalogError + string gomap" where
  "resolvedInputs env command resolved = resolvedInputsLoop env (rs_SlotValues resolved) (cc_Arguments command) []"

text \<open>\<^verbatim>\<open>maps.Equal\<close>.\<close>

definition mapsEqual :: "string gomap \<Rightarrow> string gomap \<Rightarrow> bool" where
  "mapsEqual left right = (length left = length right \<and> list_all (\<lambda>(k, v). map_of right k = Some v) left)"

definition sameResolvedCommand :: "Resolved \<Rightarrow> Resolved \<Rightarrow> bool" where
  "sameResolvedCommand left right =
     (rs_Executable left = rs_Executable right \<and> rs_Arguments left = rs_Arguments right
      \<and> rs_WorkingDirectory left = rs_WorkingDirectory right \<and> mapsEqual (rs_Environment left) (rs_Environment right)
      \<and> rs_TimeoutSeconds left = rs_TimeoutSeconds right \<and> rs_MaxOutputBytes left = rs_MaxOutputBytes right
      \<and> mapsEqual (rs_SlotValues left) (rs_SlotValues right))"

definition ValidateResolved :: "CatalogEnv \<Rightarrow> Snapshot \<Rightarrow> Resolved \<Rightarrow> catalogError option" where
  "ValidateResolved env s resolved =
     (if rs_CatalogDigest resolved \<noteq> sn_digest s then Some DigestMismatch
      else (case snapshotCommand s (rs_CommandID resolved) of
              None \<Rightarrow> Some ResolvedGone
            | Some command \<Rightarrow>
                (case resolvedInputs env command resolved of
                   Inl e \<Rightarrow> Some e
                 | Inr inputs \<Rightarrow>
                     (case Resolve env s (rs_CommandID resolved) (rs_TargetUser resolved) inputs of
                        Inl e \<Rightarrow> Some e
                      | Inr again \<Rightarrow> failIf (\<not> sameResolvedCommand again resolved) ResolvedDiffers))))"

section \<open>Paths\<close>

lemma join_plain:
  assumes "list_all plainElement es"
  shows "joinWith slash es \<noteq> ''..''" "\<not> prefix (''..'' @ [slash]) (joinWith slash es)"
proof -
  have split: "splitOn slash (joinWith slash es) = (if es = [] then [[]] else es)"
    using assms split_join[of es slash] by (auto simp: plainElement_def list_all_iff)
  have dots: "slash \<notin> set ''..''"
    by (simp add: slash_def)
  show "joinWith slash es \<noteq> ''..''"
  proof
    assume "joinWith slash es = ''..''"
    then have "(if es = [] then [[]] else es) = [''..'']"
      using split splitOn_single[OF dots] by simp
    then show False
      using assms by (auto simp: plainElement_def split: if_splits)
  qed
  show "\<not> prefix (''..'' @ [slash]) (joinWith slash es)"
  proof
    assume "prefix (''..'' @ [slash]) (joinWith slash es)"
    then obtain r where "joinWith slash es = ''..'' @ slash # r"
      by (auto simp: prefix_def)
    then have "(if es = [] then [[]] else es) = ''..'' # splitOn slash r"
      using split splitOn_append[OF dots, of r] by simp
    then show False
      using assms by (auto simp: plainElement_def split: if_splits)
  qed
qed

lemma stripCommon_plain: "list_all P ys \<Longrightarrow> list_all P (snd (stripCommon xs ys))"
  by (induction xs ys rule: stripCommon.induct) auto

lemma join_dots: "joinWith slash (''..'' # es) = ''..'' \<or> prefix (''..'' @ [slash]) (joinWith slash (''..'' # es))"
  by (cases es) auto

text \<open>Between absolute paths, \<open>pathBeneath\<close> compares whole elements: no \<^verbatim>\<open>..\<close> and no common prefix of a name gets through.\<close>

lemma pathBeneath_elements:
  assumes "IsAbs root" "IsAbs value"
  shows "pathBeneath root value \<longleftrightarrow> prefix (elements root) (elements value)"
proof (cases "Clean value = Clean root")
  case True
  then have "elements value = elements root"
    using Clean_rooted(3) assms by metis
  then show ?thesis
    using True by (simp add: pathBeneath_def Rel_def)
next
  case False
  obtain bs ts where strip: "stripCommon (elements root) (elements value) = (bs, ts)"
    by fastforce
  have ts: "list_all plainElement ts" and pre: "bs = [] \<longleftrightarrow> prefix (elements root) (elements value)"
    using stripCommon_plain[OF elements_plain[OF assms(2)], of "elements root"] stripCommon_prefix[of "elements root" "elements value"] strip
    by simp_all
  show ?thesis
  proof (cases bs)
    case Nil
    then show ?thesis
      using False assms strip pre join_plain[OF ts] by (simp add: pathBeneath_def Rel_def)
  next
    case (Cons b bs')
    then show ?thesis
      using False assms strip pre join_dots[of "map (\<lambda>_. ''..'') bs' @ ts"] by (auto simp: pathBeneath_def Rel_def)
  qed
qed

lemma splitOn_snoc: "splitOn c (s @ [c]) = splitOn c s @ [[]]"
  by (induction s) (auto split: list.splits)

lemma joinWith_snoc: "joinWith c (es @ [e]) = (if es = [] then e else joinWith c es @ c # e)"
  by (induction c es rule: joinWith.induct) auto

lemma dirPart_append: "slash \<notin> set e \<Longrightarrow> dirPart (q @ slash # e) = q @ [slash]"
proof -
  assume e: "slash \<notin> set e"
  have "dropWhile (\<lambda>c. c \<noteq> slash) (rev e @ slash # rev q) = slash # rev q"
    using e by (subst dropWhile_append2) auto
  then show ?thesis
    by (simp add: dirPart_def)
qed

lemma filePart_append: "slash \<notin> set e \<Longrightarrow> filePart (q @ slash # e) = e"
proof -
  assume e: "slash \<notin> set e"
  have "takeWhile (\<lambda>c. c \<noteq> slash) (rev e @ slash # rev q) = rev e"
    using e by (subst takeWhile_append2) auto
  then show ?thesis
    by (simp add: filePart_def)
qed

lemma rendered_snoc: "rendered True (es @ [e]) = (if es = [] then [slash] @ e else rendered True es @ slash # e)"
  by (simp add: rendered_def joinWith_snoc)

lemma Dir_rendered:
  assumes "list_all plainElement es" "plainElement e"
  shows "Dir (rendered True (es @ [e])) = rendered True es" "Base (rendered True (es @ [e])) = e"
proof -
  define q where "q = (if es = [] then [] else rendered True es)"
  have path: "rendered True (es @ [e]) = q @ slash # e"
    by (simp add: q_def rendered_snoc)
  have e: "slash \<notin> set e" "e \<noteq> []"
    using assms(2) by (auto simp: plainElement_def)
  have abs: "IsAbs (q @ [slash])"
    by (simp add: q_def IsAbs_def rendered_def)
  have "splitOn slash (q @ [slash]) = splitOn slash q @ [[]]"
    by (rule splitOn_snoc)
  moreover have "splitOn slash q = (if es = [] then [[]] else [] # es)"
    using assms(1) split_join[of es slash] by (auto simp: q_def rendered_def plainElement_def list_all_iff)
  ultimately have "elements (q @ [slash]) = es"
    using abs cleanFold_id[OF assms(1), of True "[]"] by (simp add: elements_def)
  then show "Dir (rendered True (es @ [e])) = rendered True es"
    using abs path e by (simp add: Dir_def dirPart_append Clean_rooted(1))
  obtain x xs where rev: "rev e = x # xs" "x \<noteq> slash"
    using e by (cases e rule: rev_cases) auto
  then have "dropWhile (\<lambda>c. c = slash) (rev (q @ slash # e)) = rev (q @ slash # e)"
    by simp
  then show "Base (rendered True (es @ [e])) = e"
    using path e by (simp add: Base_def filePart_append Let_def)
qed

lemma clean_rendered:
  assumes "IsAbs p" "Clean p = p"
  obtains es where "list_all plainElement es" "p = rendered True es"
  using elements_plain[OF assms(1)] Clean_rooted(1)[OF assms(1)] assms(2) by metis

lemma rendered_clean:
  assumes "list_all plainElement es"
  shows "IsAbs (rendered True es)" "Clean (rendered True es) = rendered True es"
  using elements_rendered[OF assms] by (simp_all add: IsAbs_def rendered_def Clean_def)

text \<open>On a clean absolute path the loop of \<open>resolveMissingPath\<close> climbs to a shorter one or stands at the root.\<close>

lemma Dir_shorter:
  assumes "IsAbs p" "Clean p = p"
  shows "IsAbs (Dir p)" "Clean (Dir p) = Dir p" "Dir p = p \<or> length (Dir p) < length p"
proof -
  obtain es where es: "list_all plainElement es" "p = rendered True es"
    using clean_rendered[OF assms] .
  show "IsAbs (Dir p)" "Clean (Dir p) = Dir p" "Dir p = p \<or> length (Dir p) < length p"
  proof (atomize (full), cases es rule: rev_cases)
    case Nil
    have "elements [slash] = []"
      by (simp add: elements_def)
    then have "Dir p = p"
      using Nil es(2) by (simp add: rendered_def Dir_def dirPart_def Clean_def IsAbs_def)
    then show "IsAbs (Dir p) \<and> Clean (Dir p) = Dir p \<and> (Dir p = p \<or> length (Dir p) < length p)"
      using assms by simp
  next
    case (snoc fs e)
    then have "Dir p = rendered True fs" "list_all plainElement fs" "plainElement e"
      using es Dir_rendered[of fs e] by simp_all
    moreover have "length (rendered True fs) < length p"
      using \<open>plainElement e\<close> snoc es(2) by (auto simp: plainElement_def rendered_def joinWith_snoc)
    ultimately show "IsAbs (Dir p) \<and> Clean (Dir p) = Dir p \<and> (Dir p = p \<or> length (Dir p) < length p)"
      using rendered_clean[of fs] by simp
  qed
qed

end
