(* ===== verification/SudoResolution.thy ===== *)
theory SudoResolution
  imports SudoCatalog
begin

text \<open>
  What a parsed catalog lets through. A snapshot keeps the shape its document was checked for; a resolved command is an argument
  vector every element of which its argument declares; and a command that was resolved validates again as long as the files it
  names stay where they are.
\<close>

section \<open>The shape of a snapshot\<close>

definition wfCommand :: "FileSystem \<Rightarrow> Command \<Rightarrow> bool" where
  "wfCommand fs c \<longleftrightarrow>
     idPattern (cc_ID c) \<and> validateExecutable fs (cc_Executable c) = Inr (cc_Executable c)
     \<and> validateArguments fs (cc_Arguments c) = None \<and> length (cc_Arguments c) \<le> maxArguments
     \<and> cc_TargetUsers c \<noteq> [] \<and> (\<forall>u\<in>set (cc_TargetUsers c). userPattern u)
     \<and> validateDirectory fs (cc_WorkingDirectory c) = Inr (cc_WorkingDirectory c)
     \<and> 1 \<le> cc_TimeoutSeconds c \<and> cc_TimeoutSeconds c \<le> maxTimeoutSeconds
     \<and> 0 \<le> cc_MaxOutputBytes c \<and> cc_MaxOutputBytes c \<le> maxOutputBytes
     \<and> validateEnvironment (cc_Environment c) = None"

lemma usersLoop_pattern: "usersLoop seen vs \<Longrightarrow> \<forall>u\<in>set vs. userPattern u"
  by (induction seen vs rule: usersLoop.induct) auto

lemma validated_paths:
  "validateExecutable fs v = Inr e \<Longrightarrow> e = v \<and> IsAbs v \<and> Clean v = v \<and> \<not> shellEquivalent (Base v)"
  "validateDirectory fs v = Inr d \<Longrightarrow> d = v \<and> IsAbs v \<and> Clean v = v"
  by (auto simp: validateExecutable_def validateDirectory_def split: if_splits option.splits)

lemma validated_same:
  "validateExecutable fs v = Inr e \<Longrightarrow> validateExecutable fs e = Inr e"
  "validateDirectory fs v = Inr d \<Longrightarrow> validateDirectory fs d = Inr d"
  using validated_paths by metis+

lemma sort_empty [simp]: "sort xs = [] \<longleftrightarrow> xs = []"
  by (metis set_empty set_sort)

lemma normalizeCommand_wf: "normalizeCommand fs raw = Inr c \<Longrightarrow> wfCommand fs c"
  by (auto simp: normalizeCommand_def normalizeCommandExecution_def normalizeCommandIdentity_def normalizeCommandMetadata_def
      normalizeUsers_def wfCommand_def bindR_def guardR_def dest!: usersLoop_pattern
      intro: validated_same split: if_splits option.splits sum.splits prod.splits)

lemma normalizeCommandsLoop_wf:
  "normalizeCommandsLoop fs k seen raws = Inr cs \<Longrightarrow>
     (\<forall>c\<in>set cs. wfCommand fs c) \<and> distinct (map cc_ID cs) \<and> set (map cc_ID cs) \<inter> set seen = {}"
proof (induction fs k seen raws arbitrary: cs rule: normalizeCommandsLoop.induct)
  case (2 fs index seen raw raws)
  from 2(2) obtain c cs' where c: "normalizeCommand fs raw = Inr c" "cc_ID c \<notin> set seen"
    "normalizeCommandsLoop fs (Suc index) (cc_ID c # seen) raws = Inr cs'" "cs = c # cs'"
    by (auto split: sum.splits if_splits)
  from 2(1)[OF c(1) c(2) c(3)] c normalizeCommand_wf[OF c(1)] show ?case
    by auto
qed auto

definition wfSnapshot :: "FileSystem \<Rightarrow> Snapshot \<Rightarrow> bool" where
  "wfSnapshot fs s \<longleftrightarrow> isMap (sn_commands s) \<and> (\<forall>(i, c)\<in>set (sn_commands s). cc_ID c = i \<and> wfCommand fs c)"

lemma Parse_wf:
  assumes "Catalog_Parse env data = Inr s"
  shows "wfSnapshot (ce_fs env) s"
proof -
  from assms obtain raw cs where cs: "normalizeCommandsLoop (ce_fs env) 0 [] raw = Inr cs"
    "sn_commands s = map (\<lambda>c. (cc_ID c, c)) (sort_key cc_ID cs)"
    by (auto simp: Catalog_Parse_def normalizeCommands_def)
  have "distinct (map cc_ID (sort_key cc_ID cs))"
    using normalizeCommandsLoop_wf[OF cs(1)] by (simp add: distinct_map)
  then show ?thesis
    using normalizeCommandsLoop_wf[OF cs(1)] cs(2) by (auto simp: wfSnapshot_def isMap_def comp_def)
qed

lemma snapshotCommand_wf:
  "wfSnapshot fs s \<Longrightarrow> snapshotCommand s i = Some c \<Longrightarrow> cc_ID c = i \<and> wfCommand fs c"
  by (auto simp: wfSnapshot_def snapshotCommand_def dest!: map_of_SomeD)

section \<open>What an argument declares\<close>

text \<open>
  A literal is itself. An integer slot takes the decimal text of a number in its range, an enum slot one of its values, a path
  slot a path beneath the place one of its roots leads to, element by element.
\<close>

definition argumentAllows :: "FileSystem \<Rightarrow> Argument \<Rightarrow> string \<Rightarrow> bool" where
  "argumentAllows fs a value \<longleftrightarrow>
     (case arg_Literal a of
        Some literal \<Rightarrow> value = literal
      | None \<Rightarrow>
          (arg_Type a = ''integer'' \<and> (\<exists>v lo hi. arg_Minimum a = Some lo \<and> arg_Maximum a = Some hi \<and> lo \<le> v \<and> v \<le> hi \<and> value = formatInt v))
          \<or> (arg_Type a = ''enum'' \<and> value \<in> set (arg_Values a))
          \<or> (arg_Type a = ''path_beneath'' \<and> IsAbs value
             \<and> (\<exists>root\<in>set (arg_Roots a). \<exists>r. fs_EvalSymlinks fs root = Some r \<and> prefix (elements r) (elements value))))"

text \<open>\<^verbatim>\<open>filepath.EvalSymlinks\<close> answers with a clean path, absolute for an absolute path.\<close>

definition filesClean :: "FileSystem \<Rightarrow> bool" where
  "filesClean fs \<longleftrightarrow> (\<forall>p q. IsAbs p \<longrightarrow> fs_EvalSymlinks fs p = Some q \<longrightarrow> IsAbs q \<and> Clean q = q)"

lemma validateArgumentsLoop_each:
  "validateArgumentsLoop fs k slots as = None \<Longrightarrow>
     (\<forall>a\<in>set as. case arg_Literal a of Some l \<Rightarrow> arg_Slot a = [] | None \<Rightarrow> slotPattern (arg_Slot a) \<and> validateSlot fs a = None)
     \<and> distinct (map arg_Slot (filter (\<lambda>a. arg_Literal a = None) as))
     \<and> set (map arg_Slot (filter (\<lambda>a. arg_Literal a = None) as)) \<inter> set slots = {}"
proof (induction fs k slots as rule: validateArgumentsLoop.induct)
  case (2 fs index slots a as)
  from 2(2) obtain slots' where step: "validateArgument fs index a slots = Inr slots'" "validateArgumentsLoop fs (Suc index) slots' as = None"
    by (auto split: sum.splits)
  show ?case
    using 2(1)[OF step] step(1)
    by (auto simp: validateArgument_def validateLiteralArgument_def literalHasSlotFields_def split: option.splits if_splits)
qed auto

lemma validateArguments_each:
  assumes "validateArguments fs as = None" "a \<in> set as"
  shows "arg_Literal a \<noteq> None \<Longrightarrow> arg_Slot a = []"
    and "arg_Literal a = None \<Longrightarrow> slotPattern (arg_Slot a) \<and> arg_Slot a \<noteq> [] \<and> validateSlot fs a = None"
proof -
  have "case arg_Literal a of Some l \<Rightarrow> arg_Slot a = [] | None \<Rightarrow> slotPattern (arg_Slot a) \<and> validateSlot fs a = None"
    using validateArgumentsLoop_each[OF assms(1)[unfolded validateArguments_def]] assms(2) by blast
  then show "arg_Literal a \<noteq> None \<Longrightarrow> arg_Slot a = []"
    and "arg_Literal a = None \<Longrightarrow> slotPattern (arg_Slot a) \<and> arg_Slot a \<noteq> [] \<and> validateSlot fs a = None"
    by (auto simp: slotPattern_def headTail_def)
qed

lemma validateSlot_shape:
  assumes "validateSlot fs a = None"
  shows "arg_Type a = ''integer'' \<Longrightarrow> \<exists>lo hi. arg_Minimum a = Some lo \<and> arg_Maximum a = Some hi"
    and "arg_Type a = ''path_beneath'' \<Longrightarrow> \<forall>root\<in>set (arg_Roots a). IsAbs root"
proof -
  show "arg_Type a = ''integer'' \<Longrightarrow> \<exists>lo hi. arg_Minimum a = Some lo \<and> arg_Maximum a = Some hi"
    using assms by (auto simp: validateSlot_def validateIntegerSlot_def split: option.splits)
  assume "arg_Type a = ''path_beneath''"
  then have "\<forall>root\<in>set (arg_Roots a). \<exists>d. validateDirectory fs root = Inr d"
    using assms by (auto simp: validateSlot_def validatePathSlot_def split: sum.splits if_splits) (metis sum.exhaust)
  then show "\<forall>root\<in>set (arg_Roots a). IsAbs root"
    using validated_paths(2) by blast
qed

lemma IsAbs_append: "IsAbs a \<Longrightarrow> IsAbs (a @ b)"
  by (auto simp: IsAbs_def prefix_def)

lemma Join_abs: "IsAbs a \<Longrightarrow> IsAbs (Join a b)"
  using IsAbs_append[of a "slash # b"] by (auto simp: Join_def Clean_rooted(2)) (simp add: IsAbs_def)

lemma foldl_Join_abs: "IsAbs a \<Longrightarrow> IsAbs (foldl Join a bs)"
  by (induction bs arbitrary: a) (simp_all add: Join_abs)

lemma resolveMissing_abs:
  assumes "filesClean fs" "IsAbs p" "Clean p = p" "resolveMissingLoop fs p tail = Inr q"
  shows "IsAbs q"
  using assms
proof (induction fs p tail rule: resolveMissingLoop.induct)
  case (1 fs current tail)
  show ?case
  proof (cases "fs_Lstat fs current")
    case None
    then have "resolveMissingLoop fs (Dir current) (tail @ [Base current]) = Inr q" "length (Dir current) < length current"
      using 1(5) by (auto simp: resolveMissingLoop.simps[of fs current] Let_def split: if_splits)
    then show ?thesis
      using 1(1)[OF _ refl] None 1(2) Dir_shorter[OF 1(3,4)] by simp
  next
    case (Some info)
    then obtain r where "fs_EvalSymlinks fs current = Some r" "q = foldl Join r (rev tail)"
      using 1(5) by (auto simp: resolveMissingLoop.simps[of fs current] split: option.splits)
    then show ?thesis
      using 1(2,3) foldl_Join_abs by (auto simp: filesClean_def)
  qed
qed

lemma resolvePath_beneath:
  assumes "filesClean fs" "\<forall>root\<in>set (arg_Roots a). IsAbs root" "resolvePath fs a p = Inr q"
  shows "IsAbs q \<and> (\<exists>root\<in>set (arg_Roots a). \<exists>r. fs_EvalSymlinks fs root = Some r \<and> prefix (elements r) (elements q))"
proof -
  from assms(3) have p: "IsAbs p" "Clean p = p" and at: "resolveCatalogPath fs p (arg_MustExist a) = Inr q"
    and inside: "insideAnyRoot fs (arg_Roots a) q"
    by (auto simp: resolvePath_def validateResolvedPathType_def split: if_splits option.splits)
  have abs: "IsAbs q"
    using at assms(1) p resolveMissing_abs[OF assms(1) p]
    by (auto simp: resolveCatalogPath_def resolveMissingPath_def filesClean_def split: option.splits if_splits)
  obtain root r where "root \<in> set (arg_Roots a)" "fs_EvalSymlinks fs root = Some r" "pathBeneath r q"
    using inside by (auto simp: insideAnyRoot_def list_ex_iff split: option.splits)
  moreover have "IsAbs r"
    using assms(1,2) calculation by (auto simp: filesClean_def)
  ultimately show ?thesis
    using abs pathBeneath_elements by blast
qed

lemma resolveArgument_allows:
  assumes "filesClean (ce_fs env)" "validateSlot fs0 a = None" "arg_Literal a = None" "resolveArgument env a raw = Inr value"
  shows "argumentAllows (ce_fs env) a value"
proof -
  consider (int) "arg_Type a = ''integer''" | (enum) "arg_Type a = ''enum''" | (path) "arg_Type a = ''path_beneath''"
    using assms(4) by (auto simp: resolveArgument_def split: if_splits)
  then show ?thesis
  proof cases
    case int
    obtain lo hi where bounds: "arg_Minimum a = Some lo" "arg_Maximum a = Some hi"
      using validateSlot_shape(1)[OF assms(2) int] by blast
    obtain v where v: "value = formatInt v" "lo \<le> v" "v \<le> hi"
      using int bounds assms(4) by (auto simp: resolveArgument_def resolveIntegerArgument_def boundOf_def split: if_splits option.splits)
    then have "\<exists>v' lo hi. arg_Minimum a = Some lo \<and> arg_Maximum a = Some hi \<and> lo \<le> v' \<and> v' \<le> hi \<and> value = formatInt v'"
      using bounds by blast
    then show ?thesis
      using int assms(3) by (simp add: argumentAllows_def)
  next
    case enum
    then show ?thesis
      using assms(3,4) by (auto simp: argumentAllows_def resolveArgument_def resolveEnumArgument_def split: if_splits option.splits)
  next
    case path
    then obtain p where "resolvePath (ce_fs env) a p = Inr value"
      using assms(4) by (auto simp: resolveArgument_def resolvePathArgument_def split: if_splits option.splits)
    then show ?thesis
      using path assms(3) resolvePath_beneath[OF assms(1) validateSlot_shape(2)[OF assms(2) path]] by (simp add: argumentAllows_def)
  qed
qed

section \<open>What is resolved\<close>

text \<open>The loop adds one value per argument; \<open>slotsOf\<close> is the map it builds.\<close>

fun slotsOf :: "Argument list \<Rightarrow> string list \<Rightarrow> string gomap \<Rightarrow> string gomap" where
  "slotsOf (a # as) (v # vs) m = slotsOf as vs (if arg_Literal a = None \<and> arg_Slot a \<noteq> [] then mapSet (arg_Slot a) v m else m)"
| "slotsOf as vs m = m"

lemma resolveLoop_values:
  "resolveLoop env inputs as argv values seen = Inr (argv', values', seen') \<longleftrightarrow>
     (\<exists>vs. argv' = argv @ vs
        \<and> list_all2 (\<lambda>a v. resolveCommandArgument env a inputs = Inr (v, if arg_Literal a = None then arg_Slot a else [])) as vs
        \<and> values' = slotsOf as vs values
        \<and> seen' = rev (map arg_Slot (filter (\<lambda>a. arg_Literal a = None \<and> arg_Slot a \<noteq> []) as)) @ seen)"
proof (induction as arbitrary: argv "values" seen)
  case (Cons a as)
  show ?case
  proof (cases "resolveCommandArgument env a inputs")
    case (Inr vs)
    obtain v slot where v: "vs = (v, slot)"
      by fastforce
    then have slot: "slot = (if arg_Literal a = None then arg_Slot a else [])"
      using Inr by (auto simp: resolveCommandArgument_def split: option.splits sum.splits)
    show ?thesis
      using Inr v slot by (auto simp: Cons.IH list_all2_Cons1)
  qed (auto simp: list_all2_Cons1)
qed auto

lemma Resolve_success:
  assumes "Resolve env s i user inputs = Inr r"
  obtains command vs where "snapshotCommand s i = Some command" "user \<in> set (cc_TargetUsers command)"
    "list_all2 (\<lambda>a v. resolveCommandArgument env a inputs = Inr (v, if arg_Literal a = None then arg_Slot a else []))
       (cc_Arguments command) vs"
    "r = \<lparr>rs_CommandID = cc_ID command, rs_TargetUser = user, rs_Executable = cc_Executable command,
          rs_Arguments = cc_Executable command # vs, rs_WorkingDirectory = cc_WorkingDirectory command,
          rs_Environment = cc_Environment command, rs_TimeoutSeconds = cc_TimeoutSeconds command,
          rs_MaxOutputBytes = cc_MaxOutputBytes command, rs_SlotValues = slotsOf (cc_Arguments command) vs [],
          rs_CatalogDigest = sn_digest s\<rparr>"
  using assms by (auto simp: Resolve_def resolveLoop_values split: option.splits if_splits)

lemma resolveCommandArgument_allows:
  assumes "filesClean (ce_fs env)" "validateArguments fs0 as = None" "a \<in> set as" "resolveCommandArgument env a inputs = Inr (v, slot)"
  shows "argumentAllows (ce_fs env) a v"
proof (cases "arg_Literal a")
  case None
  then obtain raw where "resolveArgument env a raw = Inr v"
    using assms(4) by (auto simp: resolveCommandArgument_def split: option.splits sum.splits)
  then show ?thesis
    using None validateArguments_each(2)[OF assms(2,3)] resolveArgument_allows[OF assms(1)] by blast
next
  case (Some l)
  then show ?thesis
    using assms(4) by (simp add: resolveCommandArgument_def argumentAllows_def)
qed

text \<open>The arguments of a resolved command are those its catalog entry declares.\<close>

definition declaredBy :: "FileSystem \<Rightarrow> Command \<Rightarrow> string list \<Rightarrow> bool" where
  "declaredBy fs command argv \<longleftrightarrow>
     (\<exists>vs. argv = cc_Executable command # vs \<and> list_all2 (argumentAllows fs) (cc_Arguments command) vs)"

lemma Resolve_declared:
  assumes "wfSnapshot fs0 s" "filesClean (ce_fs env)" "Resolve env s i user inputs = Inr r"
  obtains command where "snapshotCommand s i = Some command" "user \<in> set (cc_TargetUsers command)"
    "declaredBy (ce_fs env) command (rs_Arguments r)" "rs_Executable r = cc_Executable command" "rs_TargetUser r = user"
    "rs_WorkingDirectory r = cc_WorkingDirectory command" "rs_TimeoutSeconds r = cc_TimeoutSeconds command"
    "rs_MaxOutputBytes r = cc_MaxOutputBytes command"
proof -
  obtain command vs where c: "snapshotCommand s i = Some command" "user \<in> set (cc_TargetUsers command)"
    "list_all2 (\<lambda>a v. resolveCommandArgument env a inputs = Inr (v, if arg_Literal a = None then arg_Slot a else []))
       (cc_Arguments command) vs" "rs_Arguments r = cc_Executable command # vs" "rs_Executable r = cc_Executable command"
    "rs_TargetUser r = user" "rs_WorkingDirectory r = cc_WorkingDirectory command" "rs_TimeoutSeconds r = cc_TimeoutSeconds command"
    "rs_MaxOutputBytes r = cc_MaxOutputBytes command"
    by (rule Resolve_success[OF assms(3)]) auto
  have "validateArguments fs0 (cc_Arguments command) = None"
    using snapshotCommand_wf[OF assms(1) c(1)] by (simp add: wfCommand_def)
  then have "list_all2 (argumentAllows (ce_fs env)) (cc_Arguments command) vs"
    by (intro list.rel_mono_strong[OF c(3)] resolveCommandArgument_allows[OF assms(2)])
  then show ?thesis
    using that[OF c(1,2)] c(4-9) by (auto simp: declaredBy_def)
qed

section \<open>Resolving again\<close>

text \<open>
  Files that stay where they are: what \<^verbatim>\<open>EvalSymlinks\<close> answers exists and leads to itself, what does not exist has no descendants
  and cannot be evaluated, and a name missing in a directory is missing where the directory leads to.
\<close>

definition stableFiles :: "FileSystem \<Rightarrow> bool" where
  "stableFiles fs \<longleftrightarrow>
     filesClean fs
     \<and> (\<forall>p q. fs_EvalSymlinks fs p = Some q \<longrightarrow> fs_EvalSymlinks fs q = Some q \<and> fs_Lstat fs q \<noteq> None)
     \<and> (\<forall>p. fs_Lstat fs p = None \<longrightarrow> fs_EvalSymlinks fs p = None)
     \<and> (\<forall>es e. fs_Lstat fs (rendered True es) = None \<longrightarrow> fs_Lstat fs (rendered True (es @ [e])) = None)
     \<and> (\<forall>es e q. fs_EvalSymlinks fs (rendered True es) = Some q \<longrightarrow> fs_Lstat fs (rendered True (es @ [e])) = None
          \<longrightarrow> fs_Lstat fs (rendered True (elements q @ [e])) = None)"

lemma stableFilesD:
  assumes "stableFiles fs"
  shows "filesClean fs"
    and "fs_EvalSymlinks fs p = Some q \<Longrightarrow> fs_EvalSymlinks fs q = Some q \<and> fs_Lstat fs q \<noteq> None"
    and "fs_Lstat fs p = None \<Longrightarrow> fs_EvalSymlinks fs p = None"
    and "fs_Lstat fs (rendered True es) = None \<Longrightarrow> fs_Lstat fs (rendered True (es @ [e])) = None"
    and "fs_EvalSymlinks fs (rendered True es) = Some q \<Longrightarrow> fs_Lstat fs (rendered True (es @ [e])) = None
          \<Longrightarrow> fs_Lstat fs (rendered True (elements q @ [e])) = None"
  using assms unfolding stableFiles_def by blast+

lemma missing_below:
  "stableFiles fs \<Longrightarrow> fs_Lstat fs (rendered True es) = None \<Longrightarrow> fs_Lstat fs (rendered True (es @ fs')) = None"
  by (induction fs' rule: rev_induct) (simp_all add: stableFilesD(4) flip: append_assoc)

lemma Join_rendered:
  assumes "list_all plainElement es" "plainElement e"
  shows "Join (rendered True es) e = rendered True (es @ [e])"
proof -
  have e: "e \<noteq> []"
    using assms(2) by (simp add: plainElement_def)
  have abs: "IsAbs (rendered True es @ slash # e)"
    by (simp add: IsAbs_def rendered_def)
  have "splitOn slash (rendered True es @ slash # e) = [] # (if es = [] then [[]] else es) @ [e]"
  proof (cases es)
    case Nil
    then show ?thesis
      using assms(2) by (simp add: rendered_def plainElement_def splitOn_single)
  next
    case Cons
    then have "rendered True es @ slash # e = slash # joinWith slash (es @ [e])"
      using joinWith_snoc[of slash es e] by (simp add: rendered_def)
    then show ?thesis
      using Cons assms split_join[of "es @ [e]" slash] by (auto simp: plainElement_def list_all_iff)
  qed
  then have "elements (rendered True es @ slash # e) = es @ [e]"
    using assms cleanFold_id[of es True "[]"] abs by (auto simp: elements_def plainElement_def)
  then show ?thesis
    using abs e by (simp add: Join_def Clean_rooted(1) rendered_def)
qed

lemma foldl_Join_rendered:
  "list_all plainElement es \<Longrightarrow> list_all plainElement fs' \<Longrightarrow> foldl Join (rendered True es) fs' = rendered True (es @ fs')"
  by (induction fs' arbitrary: es) (simp_all add: Join_rendered)

lemma climb_step:
  assumes "list_all plainElement (es @ [e])" "fs_Lstat fs (rendered True (es @ [e])) = None"
  shows "resolveMissingLoop fs (rendered True (es @ [e])) tail = resolveMissingLoop fs (rendered True es) (tail @ [e])"
proof -
  have "length (rendered True es) < length (rendered True (es @ [e]))"
    using assms(1) by (auto simp: rendered_def joinWith_snoc plainElement_def)
  then show ?thesis
    using assms Dir_rendered[of es e] by (simp add: resolveMissingLoop.simps[of fs "rendered True (es @ [e])"] Let_def)
qed

lemma climb_stops:
  "fs_Lstat fs (rendered True es) \<noteq> None \<Longrightarrow>
     resolveMissingLoop fs (rendered True es) tail =
       (case fs_EvalSymlinks fs (rendered True es) of None \<Rightarrow> Inl PathUnsafe | Some r \<Rightarrow> Inr (foldl Join r (rev tail)))"
  by (simp add: resolveMissingLoop.simps[of fs "rendered True es"])

lemma climb_missing:
  assumes "stableFiles fs" "list_all plainElement (es @ fs')" "fs' \<noteq> [] \<Longrightarrow> fs_Lstat fs (rendered True (es @ [hd fs'])) = None"
  shows "resolveMissingLoop fs (rendered True (es @ fs')) tail = resolveMissingLoop fs (rendered True es) (tail @ rev fs')"
  using assms(2,3)
proof (induction fs' arbitrary: tail rule: rev_induct)
  case (snoc f fs')
  then have missing: "fs_Lstat fs (rendered True (es @ fs' @ [f])) = None"
    using missing_below[OF assms(1), of "es @ [hd (fs' @ [f])]" "tl (fs' @ [f])"] by (cases fs') auto
  have first: "fs' \<noteq> [] \<Longrightarrow> fs_Lstat fs (rendered True (es @ [hd fs'])) = None"
    using snoc.prems(2) by auto
  show ?case
    using snoc.IH[OF _ first] snoc.prems(1) climb_step[of "es @ fs'" f fs tail] missing by simp
qed simp

lemma climb_result:
  assumes "list_all plainElement es" "resolveMissingLoop fs (rendered True es) tail = Inr r"
  obtains es0 fs' q where "es = es0 @ fs'" "fs' \<noteq> [] \<Longrightarrow> fs_Lstat fs (rendered True (es0 @ [hd fs'])) = None"
    "fs_EvalSymlinks fs (rendered True es0) = Some q" "r = foldl Join q (fs' @ rev tail)"
  using assms
proof (induction es arbitrary: tail thesis rule: rev_induct)
  case Nil
  have "elements [slash] = []"
    by (simp add: elements_def)
  then have "Dir [slash] = [slash]"
    by (simp add: Dir_def dirPart_def Clean_def IsAbs_def rendered_def)
  then have "fs_Lstat fs (rendered True []) \<noteq> None"
    using Nil(3) by (auto simp: rendered_def resolveMissingLoop.simps[of fs "[slash]"] split: if_splits)
  then show ?case
    using Nil(1)[of "[]" "[]"] Nil(3) climb_stops[of fs "[]" tail] by (auto split: option.splits)
next
  case (snoc e es)
  show ?case
  proof (cases "fs_Lstat fs (rendered True (es @ [e]))")
    case None
    then have "resolveMissingLoop fs (rendered True es) (tail @ [e]) = Inr r"
      using snoc.prems(2,3) climb_step by simp
    then obtain es0 fs' q where "es = es0 @ fs'" "fs' \<noteq> [] \<Longrightarrow> fs_Lstat fs (rendered True (es0 @ [hd fs'])) = None"
      "fs_EvalSymlinks fs (rendered True es0) = Some q" "r = foldl Join q (fs' @ rev (tail @ [e]))"
      using snoc.IH snoc.prems(2) by (metis list_all_append)
    then show ?thesis
      using snoc.prems(1)[of es0 "fs' @ [e]" q] None by (cases fs') auto
  next
    case (Some info)
    then show ?thesis
      using snoc.prems(1)[of "es @ [e]" "[]"] snoc.prems(3) climb_stops[of fs "es @ [e]" tail] by (auto split: option.splits)
  qed
qed

text \<open>A path that was resolved resolves to itself.\<close>

lemma resolveCatalogPath_again:
  assumes "stableFiles fs" "IsAbs p" "Clean p = p" "resolveCatalogPath fs p m = Inr r"
  shows "IsAbs r \<and> Clean r = r \<and> resolveCatalogPath fs r m = Inr r"
proof (cases "fs_EvalSymlinks fs p")
  case (Some q)
  then have "q = r"
    using assms(4) by (simp add: resolveCatalogPath_def)
  then show ?thesis
    using Some stableFilesD(1,2)[OF assms(1)] assms(2) by (auto simp: resolveCatalogPath_def filesClean_def)
next
  case None
  then have m: "\<not> m" and climb: "resolveMissingLoop fs p [] = Inr r"
    using assms(4) by (auto simp: resolveCatalogPath_def resolveMissingPath_def split: if_splits)
  obtain es where es: "list_all plainElement es" "p = rendered True es"
    using clean_rendered[OF assms(2,3)] .
  obtain es0 fs' q where parts: "es = es0 @ fs'" "fs' \<noteq> [] \<Longrightarrow> fs_Lstat fs (rendered True (es0 @ [hd fs'])) = None"
    "fs_EvalSymlinks fs (rendered True es0) = Some q" "r = foldl Join q fs'"
    using climb_result[OF es(1) climb[unfolded es(2)]] by auto
  have some: "fs' \<noteq> []"
    using None es(2) parts by auto
  have "IsAbs (rendered True es0)"
    by (simp add: rendered_def IsAbs_def)
  then have q: "IsAbs q" "Clean q = q" "fs_EvalSymlinks fs q = Some q" "fs_Lstat fs q \<noteq> None"
    using stableFilesD(1,2)[OF assms(1)] parts(3) unfolding filesClean_def by blast+
  define qs where "qs = elements q"
  have qs: "list_all plainElement qs" "q = rendered True qs"
    using elements_plain[OF q(1)] Clean_rooted(1)[OF q(1)] q(2) by (simp_all add: qs_def)
  have plain: "list_all plainElement (qs @ fs')" and r: "r = rendered True (qs @ fs')"
    using es(1) parts(1,4) qs foldl_Join_rendered by auto
  have missing: "fs_Lstat fs (rendered True (qs @ [hd fs'])) = None"
    using stableFilesD(5)[OF assms(1) parts(3) parts(2)[OF some]] by (simp add: qs_def)
  then have "fs_Lstat fs r = None"
    using missing_below[OF assms(1), of "qs @ [hd fs']" "tl fs'"] some r by (cases fs') auto
  then have "fs_EvalSymlinks fs r = None"
    by (rule stableFilesD(3)[OF assms(1)])
  moreover have "resolveMissingLoop fs r [] = Inr r"
    using climb_missing[OF assms(1) plain missing, of "[]"] climb_stops[of fs qs "rev fs'"] q qs parts(4) r by simp
  ultimately show ?thesis
    using m r rendered_clean[OF plain] by (simp add: resolveCatalogPath_def resolveMissingPath_def)
qed

lemma resolvePath_again:
  assumes "stableFiles fs" "resolvePath fs a p = Inr r"
  shows "resolvePath fs a r = Inr r"
proof -
  from assms(2) have p: "IsAbs p" "Clean p = p" and at: "resolveCatalogPath fs p (arg_MustExist a) = Inr r"
    and rest: "insideAnyRoot fs (arg_Roots a) r" "validateResolvedPathType fs r (arg_FileType a) (arg_MustExist a) = Inr r"
    by (auto simp: resolvePath_def validateResolvedPathType_def split: if_splits option.splits)
  then show ?thesis
    using resolveCatalogPath_again[OF assms(1) p at] by (simp add: resolvePath_def bindR_def)
qed

text \<open>JSON: a valid string is read back as it was written, and a decimal integer is a number.\<close>

definition jsonLaws :: "CatalogEnv \<Rightarrow> bool" where
  "jsonLaws env \<longleftrightarrow>
     (\<forall>s. validUTF8 s \<longrightarrow> ce_json env (ce_quote env s) = Some (JString s))
     \<and> (\<forall>v. \<exists>n. ce_json env (formatInt v) = Some (JNumber n))"

lemma parseInt64_formatInt:
  assumes "- (2 ^ 63) \<le> v" "v < 2 ^ 63"
  shows "parseInt64 (formatInt v) = Some v"
proof (cases "v < 0")
  case True
  have "parseInt64 (CHR ''-'' # itoaNat (nat (- v))) = Some v"
    using True assms itoa_digits[of "nat (- v)"] itoa_nonempty[of "nat (- v)"] digitsValue_itoa[of "nat (- v)"]
    by (simp add: parseInt64_def Let_def)
  then show ?thesis
    using True by (simp add: formatInt_def)
next
  case False
  then show ?thesis
    using assms parseInt64_itoa[of "nat v"] by (simp add: formatInt_def)
qed

lemma resolveArgument_again:
  assumes "stableFiles (ce_fs env)" "jsonLaws env" "validUTF8 v" "resolveArgument env a raw = Inr v"
  shows "resolveArgument env a (resolvedInputValue env a v) = Inr v"
proof -
  have quoted: "ce_json env (ce_quote env v) = Some (JString v)"
    using assms(2,3) by (simp add: jsonLaws_def)
  consider (int) "arg_Type a = ''integer''" | (enum) "arg_Type a = ''enum''" | (path) "arg_Type a = ''path_beneath''"
    using assms(4) by (auto simp: resolveArgument_def split: if_splits)
  then show ?thesis
  proof cases
    case int
    then obtain i where i: "parseInt64 raw = Some i" "v = formatInt i" "\<not> (i < boundOf (arg_Minimum a) \<or> i > boundOf (arg_Maximum a))"
      using assms(4) by (auto simp: resolveArgument_def resolveIntegerArgument_def split: if_splits option.splits)
    moreover have "RejectDuplicateKeys (ce_json env) (formatInt i)"
      using assms(2) by (auto simp: jsonLaws_def RejectDuplicateKeys_def) (metis consumeValue.simps(5) option.simps(5))
    ultimately show ?thesis
      using int parseInt64_formatInt parseInt64_range[OF i(1)]
      by (simp add: resolveArgument_def resolveIntegerArgument_def resolvedInputValue_def)
  next
    case enum
    then have "v \<in> set (arg_Values a)"
      using assms(4) by (auto simp: resolveArgument_def resolveEnumArgument_def split: if_splits option.splits)
    then show ?thesis
      using enum quoted
      by (simp add: resolveArgument_def resolveEnumArgument_def resolvedInputValue_def RejectDuplicateKeys_def unmarshalString_def jsonString_def)
  next
    case path
    then obtain p where "resolvePath (ce_fs env) a p = Inr v"
      using assms(4) by (auto simp: resolveArgument_def resolvePathArgument_def split: if_splits option.splits)
    then have "resolvePath (ce_fs env) a v = Inr v"
      by (rule resolvePath_again[OF assms(1)])
    then show ?thesis
      using path quoted
      by (simp add: resolveArgument_def resolvePathArgument_def resolvedInputValue_def RejectDuplicateKeys_def unmarshalString_def jsonString_def)
  qed
qed

text \<open>The slots of a command are distinct, so the map gives every slot back its value.\<close>

definition slotted :: "Argument \<Rightarrow> bool" where
  "slotted a \<longleftrightarrow> arg_Literal a = None \<and> arg_Slot a \<noteq> []"

lemma slotsOf_other: "\<forall>a\<in>set as. slotted a \<longrightarrow> arg_Slot a \<noteq> k \<Longrightarrow> map_of (slotsOf as vs m) k = map_of m k"
  by (induction as vs m rule: slotsOf.induct) (auto simp: slotted_def)

lemma slots_apart:
  "distinct (map arg_Slot (filter slotted (a # as))) \<Longrightarrow> slotted a \<Longrightarrow> b \<in> set as \<Longrightarrow> slotted b \<Longrightarrow> arg_Slot b \<noteq> arg_Slot a"
  by (simp add: image_iff) metis

lemma slotsOf_lookup:
  "distinct (map arg_Slot (filter slotted as)) \<Longrightarrow> (a, v) \<in> set (zip as vs) \<Longrightarrow> slotted a \<Longrightarrow> map_of (slotsOf as vs m) (arg_Slot a) = Some v"
proof (induction as vs m rule: slotsOf.induct)
  case (1 b bs w ws m)
  show ?case
  proof (cases "(a, v) = (b, w)")
    case True
    then have "\<forall>c\<in>set bs. slotted c \<longrightarrow> arg_Slot c \<noteq> arg_Slot b"
      using slots_apart[OF 1(2)] 1(4) True by blast
    then show ?thesis
      using True 1(4) slotsOf_other[of bs "arg_Slot b"] by (auto simp: slotted_def)
  next
    case False
    then show ?thesis
      using 1 by (auto split: if_splits)
  qed
qed auto

lemma slotsOf_isMap: "isMap m \<Longrightarrow> isMap (slotsOf as vs m)"
  by (induction as vs m rule: slotsOf.induct) auto

lemma slotsOf_values: "(k, v) \<in> set (slotsOf as vs m) \<Longrightarrow> isMap m \<Longrightarrow> (k, v) \<in> set m \<or> v \<in> set vs"
proof (induction as vs m rule: slotsOf.induct)
  case (1 a as w vs m)
  have "isMap (mapSet (arg_Slot a) w m)"
    using 1(3) by simp
  then have "(k, v) \<in> set (mapSet (arg_Slot a) w m) \<Longrightarrow> v = w \<or> (k, v) \<in> set m"
    using 1(3) by (auto simp: isMap_lookup split: if_splits)
  then show ?case
    using 1 by (auto split: if_splits)
qed auto

lemma inputs_other:
  "resolvedInputsLoop env slots as m = Inr inputs \<Longrightarrow> \<forall>a\<in>set as. arg_Slot a \<noteq> k \<Longrightarrow> map_of inputs k = map_of m k"
  by (induction env slots as m rule: resolvedInputsLoop.induct) (auto split: if_splits option.splits)

lemma resolvedInputsLoop_lookup:
  assumes "\<forall>a\<in>set as. arg_Literal a \<noteq> None \<longrightarrow> arg_Slot a = []" "distinct (map arg_Slot (filter slotted as))"
    "\<forall>a\<in>set as. slotted a \<longrightarrow> map_of slots (arg_Slot a) \<noteq> None"
  shows "\<exists>inputs. resolvedInputsLoop env slots as m = Inr inputs
      \<and> (\<forall>a\<in>set as. slotted a \<longrightarrow> map_of inputs (arg_Slot a) = Some (resolvedInputValue env a (the (map_of slots (arg_Slot a)))))
      \<and> fst ` set inputs = fst ` set m \<union> arg_Slot ` {a \<in> set as. slotted a}"
  using assms
proof (induction env slots as m rule: resolvedInputsLoop.induct)
  case (2 env slots a as inputs)
  show ?case
  proof (cases "arg_Slot a = []")
    case True
    then have "\<not> slotted a"
      by (simp add: slotted_def)
    then show ?thesis
      using True 2(1)[OF True] 2(3-5) by auto
  next
    case False
    then have slotted: "slotted a"
      using 2(3) by (auto simp: slotted_def)
    then obtain value' where v: "map_of slots (arg_Slot a) = Some value'"
      using 2(5) by auto
    obtain inputs' where ih: "resolvedInputsLoop env slots as (mapSet (arg_Slot a) (resolvedInputValue env a value') inputs) = Inr inputs'"
      "\<forall>b\<in>set as. slotted b \<longrightarrow> map_of inputs' (arg_Slot b) = Some (resolvedInputValue env b (the (map_of slots (arg_Slot b))))"
      "fst ` set inputs' = insert (arg_Slot a) (fst ` set inputs) \<union> arg_Slot ` {b \<in> set as. slotted b}"
      using 2(2)[OF False v] 2(3-5) slotted by (auto simp: mapSet_keys)
    have "slotted b \<or> arg_Slot b = []" if "b \<in> set as" for b
      using 2(3) that by (auto simp: slotted_def)
    then have "\<forall>b\<in>set as. arg_Slot b \<noteq> arg_Slot a"
      using slots_apart[OF 2(4) slotted] False by metis
    then have "map_of inputs' (arg_Slot a) = Some (resolvedInputValue env a value')"
      using inputs_other[OF ih(1)] by simp
    then show ?thesis
      using ih False v slotted by auto
  qed
qed auto

lemma mapsEqual_refl: "isMap m \<Longrightarrow> mapsEqual m m"
  by (auto simp: mapsEqual_def list_all_iff isMap_lookup[symmetric])

text \<open>The maps of a decoded document have no key twice.\<close>

definition snapshotMaps :: "Snapshot \<Rightarrow> bool" where
  "snapshotMaps s \<longleftrightarrow> (\<forall>(_, c)\<in>set (sn_commands s). isMap (cc_Environment c))"

lemma Resolve_ValidateResolved:
  assumes "wfSnapshot fs0 s" "snapshotMaps s" "stableFiles (ce_fs env)" "jsonLaws env"
    and "Resolve env s i user inputs = Inr r" "\<forall>(_, v)\<in>set (rs_SlotValues r). validUTF8 v"
  shows "ValidateResolved env s r = None"
proof -
  obtain command vs where c: "snapshotCommand s i = Some command" "user \<in> set (cc_TargetUsers command)"
    and vs: "list_all2 (\<lambda>a v. resolveCommandArgument env a inputs = Inr (v, if arg_Literal a = None then arg_Slot a else []))
       (cc_Arguments command) vs"
    and r: "r = \<lparr>rs_CommandID = cc_ID command, rs_TargetUser = user, rs_Executable = cc_Executable command,
          rs_Arguments = cc_Executable command # vs, rs_WorkingDirectory = cc_WorkingDirectory command,
          rs_Environment = cc_Environment command, rs_TimeoutSeconds = cc_TimeoutSeconds command,
          rs_MaxOutputBytes = cc_MaxOutputBytes command, rs_SlotValues = slotsOf (cc_Arguments command) vs [],
          rs_CatalogDigest = sn_digest s\<rparr>"
    by (rule Resolve_success[OF assms(5)])
  let ?as = "cc_Arguments command"
  have id: "cc_ID command = i" and args: "validateArguments fs0 ?as = None"
    using snapshotCommand_wf[OF assms(1) c(1)] by (auto simp: wfCommand_def)
  have literal: "\<forall>a\<in>set ?as. arg_Literal a \<noteq> None \<longrightarrow> arg_Slot a = []"
    and unfilled: "\<forall>a\<in>set ?as. arg_Literal a = None \<longrightarrow> slotted a"
    using validateArguments_each[OF args] by (auto simp: slotted_def)
  have "filter slotted ?as = filter (\<lambda>a. arg_Literal a = None) ?as"
    using unfilled by (auto simp: slotted_def intro: filter_cong)
  then have apart: "distinct (map arg_Slot (filter slotted ?as))"
    using validateArgumentsLoop_each[OF args[unfolded validateArguments_def]] by simp
  have value_of: "map_of (rs_SlotValues r) (arg_Slot a) = Some v" if "(a, v) \<in> set (zip ?as vs)" "slotted a" for a v
    using slotsOf_lookup[OF apart that] r by simp
  have filled: "\<forall>a\<in>set ?as. slotted a \<longrightarrow> map_of (rs_SlotValues r) (arg_Slot a) \<noteq> None"
    using value_of list_all2_lengthD[OF vs] by (metis in_set_impl_in_set_zip1 option.distinct(1))
  obtain inputs' where inputs': "resolvedInputs env command r = Inr inputs'"
    "\<forall>a\<in>set ?as. slotted a \<longrightarrow> map_of inputs' (arg_Slot a) = Some (resolvedInputValue env a (the (map_of (rs_SlotValues r) (arg_Slot a))))"
    "fst ` set inputs' = arg_Slot ` {a \<in> set ?as. slotted a}"
    using resolvedInputsLoop_lookup[OF literal apart filled, of env "[]"] by (auto simp: resolvedInputs_def)
  have again: "resolveCommandArgument env a inputs' = Inr (v, if arg_Literal a = None then arg_Slot a else [])"
    if av: "(a, v) \<in> set (zip ?as vs)"
      and first: "resolveCommandArgument env a inputs = Inr (v, if arg_Literal a = None then arg_Slot a else [])" for a v
  proof (cases "arg_Literal a")
    case None
    have "a \<in> set ?as"
      using av by (rule set_zip_leftD)
    then have slotted: "slotted a"
      using unfilled None by blast
    obtain raw where raw: "resolveArgument env a raw = Inr v"
      using first None by (auto simp: resolveCommandArgument_def split: option.splits sum.splits)
    have "validUTF8 v"
      using assms(6) value_of[OF av slotted] map_of_SomeD by fastforce
    then have "resolveArgument env a (resolvedInputValue env a v) = Inr v"
      using resolveArgument_again[OF assms(3,4) _ raw] by blast
    then show ?thesis
      using None inputs'(2) \<open>a \<in> set ?as\<close> slotted value_of[OF av slotted] by (simp add: resolveCommandArgument_def)
  qed (use first in \<open>simp add: resolveCommandArgument_def\<close>)
  then have "list_all2 (\<lambda>a v. resolveCommandArgument env a inputs' = Inr (v, if arg_Literal a = None then arg_Slot a else [])) ?as vs"
    using vs by (auto simp: list_all2_iff)
  then have "resolveLoop env inputs' ?as [cc_Executable command] [] [] =
      Inr (cc_Executable command # vs, rs_SlotValues r, rev (map arg_Slot (filter slotted ?as)))"
    using r by (subst resolveLoop_values) (auto simp: slotted_def[abs_def])
  moreover have "rejectUnexpectedInputs inputs' (rev (map arg_Slot (filter slotted ?as))) = None"
    using inputs'(3) by (auto simp: rejectUnexpectedInputs_def dest!: equalityD1 intro: subsetD[OF _ rev_image_eqI])
  ultimately have "Resolve env s i user inputs' = Inr r"
    using c r by (simp add: Resolve_def bindR_def guardR_def)
  moreover have "isMap (rs_SlotValues r)"
    using r slotsOf_isMap[of "[]"] by (simp add: isMap_def)
  moreover have "isMap (rs_Environment r)"
    using assms(2) c(1) r by (auto simp: snapshotMaps_def snapshotCommand_def dest!: map_of_SomeD)
  ultimately show ?thesis
    using c inputs'(1) id r by (simp add: ValidateResolved_def sameResolvedCommand_def mapsEqual_refl)
qed

end
