(* ===== verification/SudoPlan.thy ===== *)
theory SudoPlan
  imports SudoResolution GrantDecisions GrantRequests AgentOperations
begin

text \<open>
  The plans of the sudo broker, \<^verbatim>\<open>brokers/sudo/internal/plan/plan.go\<close>, and its policy vocabulary,
  \<^verbatim>\<open>brokers/sudo/internal/sudopolicy/policy.go\<close>: how a plan is built from a request and a resolved command, what a stored plan must
  look like, how it is bound to a grant, and what is checked before a grant is activated, used, or run by the privileged helper.

  \<^item> \<^verbatim>\<open>encoding/json\<close> on plans is a parameter (\<open>PlanEnv\<close>), as is the account database of the host (\<open>osUser\<close>).
  \<^item> A \<^verbatim>\<open>uint32\<close> is an \<open>int\<close>; a conversion to it wraps (\<open>uint32\<close>).
  \<^item> \<^verbatim>\<open>int64(d.Seconds())\<close> truncates to whole seconds; below 97 days the floating point value loses nothing that matters.
  \<^item> The store, the catalog and the resolver are there: the tests for nil belong to the construction of the broker.
\<close>

section \<open>Policy vocabulary\<close>

definition OperationExecCommand :: string where "OperationExecCommand = ''exec.command''"
definition TargetUser :: string where "TargetUser = ''user''"
definition TargetName :: string where "TargetName = ''name''"
definition AttrCommandID :: string where "AttrCommandID = ''command_id''"
definition ArgumentPrefix :: string where "ArgumentPrefix = ''argument.''"

definition plainAttr :: AttrSpec where
  "plainAttr = \<lparr>attr_Match = MatchUnset, attr_GrantMatch = MatchUnset, attr_GrantMayOmit = False\<rparr>"

definition sudo_Registry :: "Snapshot \<Rightarrow> Registry" where
  "sudo_Registry snapshot =
     (let attrs = fold (\<lambda>slot m. mapSet (ArgumentPrefix @ slot) plainAttr m) (SlotNames snapshot) [(AttrCommandID, plainAttr)]
      in \<lparr>reg_Operations =
            [(OperationExecCommand,
              \<lparr>op_TargetKinds = [TargetUser], op_Attrs = sort (map fst attrs), op_CredentialUses = [], op_Grantable = True,
               op_GrantMode = GrantModeWindow, op_GrantModes = [GrantModeWindow, GrantModeExecution], op_MaxGrantMinutes = 24 * 60,
               op_MaxGrantUses = MaxFiniteUses, op_DisallowUnlimitedGrantUses = False\<rparr>)],
          reg_Targets = [(TargetUser, \<lparr>spec_Fields = [(TargetName, \<lparr>field_Required = True, field_Match = MatchUnset\<rparr>)]\<rparr>)],
          reg_Attrs = attrs\<rparr>)"

definition sudo_Request :: "string \<Rightarrow> Resolved \<Rightarrow> Request" where
  "sudo_Request client resolved =
     \<lparr>req_Client = client, req_Operation = OperationExecCommand,
      req_Target = \<lparr>target_Kind = TargetUser, target_Fields = [(TargetName, [rs_TargetUser resolved])]\<rparr>,
      req_Attrs = fold (\<lambda>(name, value) m. mapSet (ArgumentPrefix @ name) [value] m) (rs_SlotValues resolved)
                    [(AttrCommandID, [rs_CommandID resolved])]\<rparr>"

section \<open>Plans\<close>

definition SchemaV1 :: string where "SchemaV1 = ''sudo-broker.io/plan/v1''"
definition MetadataSchema :: string where "MetadataSchema = ''sudo_plan_schema''"
definition MetadataDigest :: string where "MetadataDigest = ''sudo_plan_digest''"

record ExecPlan =
  sp_Schema :: string
  sp_RequestID :: string
  sp_ClientID :: string
  sp_Operation :: string
  sp_AuthorizationMode :: string
  sp_CommandID :: string
  sp_TargetUser :: string
  sp_TargetUID :: int
  sp_TargetGID :: int
  sp_SupplementaryGIDs :: "int list"
  sp_Executable :: string
  sp_Arguments :: "string list"
  sp_WorkingDirectory :: string
  sp_Environment :: "string list"
  sp_TimeoutSeconds :: int
  sp_MaxOutputBytes :: int
  sp_SlotValues :: "string gomap"
  sp_CatalogDigest :: string
  sp_RequestedDurationSeconds :: int
  sp_RequestedMaxUses :: Limit
  sp_RequestedMaxUsesDefaulted :: bool
  sp_CreatedAt :: gotime

record Identity =
  id_Name :: string
  id_UID :: int
  id_GID :: int
  id_SupplementaryGIDs :: "int list"

type_synonym IdentityResolver = "string \<Rightarrow> Identity option"

record PlanEnv =
  ple_json :: "string \<Rightarrow> jsonValue option"
  ple_decode :: "string \<Rightarrow> ExecPlan option"
  ple_encode :: "ExecPlan \<Rightarrow> string option"
  ple_agent :: AgentEnv

datatype planError =
    PlanInput | PlanRequestMismatch | PlanSlots | PlanArgv | PlanInvalid | PlanGroups | PlanArgument | PlanEnvironmentOrder
  | PlanEnvironment | PlanSlotValue | PlanJSON | PlanStoreError opError | PlanSchema | PlanContent
  | PlanCommandGone | PlanEnvironmentDrift | PlanCatalog catalogError | PlanHelperIdentity | PlanIdentityChanged
  | PlanGrantSchema | PlanGrantMismatch | PlanGrantSlots | PlanGrantMode | PlanExecutionMismatch | PlanWindowMismatch
  | PlanConstraint | PlanHelperNotReady string

section \<open>Identities of the host\<close>

record osUser =
  ou_Username :: string
  ou_Uid :: string
  ou_Gid :: string
  ou_GroupIds :: "string list option"

text \<open>\<^verbatim>\<open>strconv.ParseUint(value, 10, 32)\<close>.\<close>

definition parseID :: "string \<Rightarrow> int option" where
  "parseID value =
     (if value = [] \<or> \<not> list_all isDigit value \<or> digitsValue 0 value \<ge> 2 ^ 32 then None else Some (int (digitsValue 0 value)))"

fun supplementaryLoop :: "int \<Rightarrow> string list \<Rightarrow> int list \<Rightarrow> int list option" where
  "supplementaryLoop primary [] acc = Some acc"
| "supplementaryLoop primary (v # vs) acc =
     (case parseID v of None \<Rightarrow> None
      | Some groupID \<Rightarrow> supplementaryLoop primary vs (if groupID \<noteq> primary \<and> groupID \<notin> set acc then acc @ [groupID] else acc))"

definition supplementaryGroups :: "osUser \<Rightarrow> int \<Rightarrow> int list option" where
  "supplementaryGroups account primary =
     (case ou_GroupIds account of None \<Rightarrow> None | Some groups \<Rightarrow> supplementaryLoop primary groups [])"

definition SystemLookup :: "(string \<Rightarrow> osUser option) \<Rightarrow> IdentityResolver" where
  "SystemLookup lookup name =
     (case lookup name of None \<Rightarrow> None
      | Some account \<Rightarrow>
          (case parseID (ou_Uid account) of None \<Rightarrow> None
           | Some uid \<Rightarrow>
               (case parseID (ou_Gid account) of None \<Rightarrow> None
                | Some gid \<Rightarrow>
                    (case supplementaryGroups account gid of None \<Rightarrow> None
                     | Some groups \<Rightarrow>
                         Some \<lparr>id_Name = ou_Username account, id_UID = uid, id_GID = gid, id_SupplementaryGIDs = sort groups\<rparr>))))"

section \<open>Validation of a plan\<close>

definition boundedIdentifier :: "string \<Rightarrow> bool" where
  "boundedIdentifier value = (1 \<le> length value \<and> length value \<le> 128 \<and> trimSpace value = value \<and> noControlRunes value)"

definition boundedPlainValue :: "string \<Rightarrow> nat \<Rightarrow> bool" where
  "boundedPlainValue value maximum = (length value \<le> maximum \<and> CHR 0x00 \<notin> set value \<and> noControlRunes value)"

definition absoluteClean :: "string \<Rightarrow> bool" where
  "absoluteClean value = (IsAbs value \<and> Clean value = value \<and> boundedPlainValue value 4096)"

definition validAuthorizationMode :: "string \<Rightarrow> bool" where
  "validAuthorizationMode value = (value = ''window'' \<or> value = ''execution'')"

definition validAuthorizationUses :: "string \<Rightarrow> Limit \<Rightarrow> bool" where
  "validAuthorizationUses mode uses =
     (if mode = ''execution'' then uses = SingleUse else mode = ''window'' \<and> uses \<ge> 0 \<and> uses \<le> MaxFiniteUses)"

definition validPlanRequestIdentity :: "ExecPlan \<Rightarrow> bool" where
  "validPlanRequestIdentity v =
     (sp_Schema v = SchemaV1 \<and> boundedIdentifier (sp_RequestID v) \<and> boundedIdentifier (sp_ClientID v)
      \<and> sp_Operation v = OperationExecCommand \<and> validAuthorizationMode (sp_AuthorizationMode v))"

definition validPlanCommandIdentity :: "ExecPlan \<Rightarrow> bool" where
  "validPlanCommandIdentity v = (boundedIdentifier (sp_CommandID v) \<and> boundedIdentifier (sp_TargetUser v))"

definition validPlanIdentity :: "ExecPlan \<Rightarrow> bool" where
  "validPlanIdentity v =
     (validPlanRequestIdentity v \<and> validPlanCommandIdentity v \<and> absoluteClean (sp_Executable v) \<and> absoluteClean (sp_WorkingDirectory v))"

definition validPlanLimits :: "ExecPlan \<Rightarrow> bool" where
  "validPlanLimits v =
     (sp_TimeoutSeconds v > 0 \<and> sp_TimeoutSeconds v \<le> 3600 \<and> sp_MaxOutputBytes v \<le> 1048576 \<and> sp_CatalogDigest v \<noteq> []
      \<and> sp_RequestedDurationSeconds v > 0 \<and> sp_RequestedDurationSeconds v \<le> 7 * 24 * 3600
      \<and> validAuthorizationUses (sp_AuthorizationMode v) (sp_RequestedMaxUses v) \<and> sp_CreatedAt v \<noteq> 0)"

definition validatePlanHeader :: "ExecPlan \<Rightarrow> planError option" where
  "validatePlanHeader v = failIf (\<not> validPlanIdentity v \<or> \<not> validPlanLimits v) PlanInvalid"

definition validPlanCollectionLimits :: "ExecPlan \<Rightarrow> bool" where
  "validPlanCollectionLimits v =
     (plandigest_Valid (sp_CatalogDigest v) \<and> length (sp_Arguments v) \<le> 64 \<and> length (sp_Environment v) \<le> 128
      \<and> length (sp_SlotValues v) \<le> 64 \<and> length (sp_SupplementaryGIDs v) \<le> 256)"

text \<open>\<^verbatim>\<open>hasDuplicateIDs\<close> compares neighbours.\<close>

fun hasDuplicateIDs :: "int list \<Rightarrow> bool" where
  "hasDuplicateIDs (x # y # xs) = (x = y \<or> hasDuplicateIDs (y # xs))"
| "hasDuplicateIDs xs = False"

definition validSupplementaryGroups :: "int list \<Rightarrow> bool" where
  "validSupplementaryGroups values = (sorted values \<and> \<not> hasDuplicateIDs values)"

definition validPlanArguments :: "string list \<Rightarrow> bool" where
  "validPlanArguments values = list_all (\<lambda>v. boundedPlainValue v 4096) values"

definition validPlanSlots :: "string gomap \<Rightarrow> bool" where
  "validPlanSlots values = list_all (\<lambda>(key, v). boundedIdentifier key \<and> boundedPlainValue v 4096) values"

definition validatePlanCollections :: "ExecPlan \<Rightarrow> planError option" where
  "validatePlanCollections v =
     orElse (failIf (\<not> validPlanCollectionLimits v) PlanInvalid)
      (orElse (failIf (\<not> validSupplementaryGroups (sp_SupplementaryGIDs v)) PlanGroups)
        (failIf (\<not> validPlanArguments (sp_Arguments v)) PlanArgument))"

text \<open>\<^verbatim>\<open>strings.Cut(s, "=")\<close>: what stands before and after the first \<^verbatim>\<open>=\<close>, and whether there is one.\<close>

definition cutEquals :: "string \<Rightarrow> string \<times> string \<times> bool" where
  "cutEquals s =
     (let key = takeWhile (\<lambda>c. c \<noteq> CHR ''='') s
      in case dropWhile (\<lambda>c. c \<noteq> CHR ''='') s of [] \<Rightarrow> (key, [], False) | _ # item \<Rightarrow> (key, item, True))"

definition validEnvironmentEntry :: "string \<Rightarrow> string \<Rightarrow> bool \<Rightarrow> bool \<Rightarrow> bool" where
  "validEnvironmentEntry key v wasCut seen =
     (wasCut \<and> key \<noteq> [] \<and> \<not> seen \<and> boundedPlainValue v 4096 \<and> \<not> prefix ''LD_'' key \<and> \<not> prefix ''DYLD_'' key)"

definition validEnvironmentKeyCharacter :: "char \<Rightarrow> bool" where
  "validEnvironmentKeyCharacter c = (upperChar c \<or> isDigit c \<or> c = CHR ''_'')"

fun planEnvironmentLoop :: "string list \<Rightarrow> string list \<Rightarrow> planError option" where
  "planEnvironmentLoop seen [] = None"
| "planEnvironmentLoop seen (v # vs) =
     (case cutEquals v of (key, item, ok) \<Rightarrow>
        if \<not> validEnvironmentEntry key item ok (key \<in> set seen) \<or> \<not> list_all validEnvironmentKeyCharacter key then Some PlanEnvironment
        else planEnvironmentLoop (key # seen) vs)"

definition validatePlanEnvironment :: "string list \<Rightarrow> planError option" where
  "validatePlanEnvironment values =
     (if \<not> sorted values then Some PlanEnvironmentOrder else planEnvironmentLoop [] values)"

definition validatePlan :: "ExecPlan \<Rightarrow> planError option" where
  "validatePlan v =
     orElse (validatePlanHeader v)
      (orElse (validatePlanCollections v)
        (orElse (validatePlanEnvironment (sp_Environment v))
          (failIf (\<not> validPlanSlots (sp_SlotValues v)) PlanSlotValue)))"

definition encodePlan :: "PlanEnv \<Rightarrow> ExecPlan \<Rightarrow> planError + string" where
  "encodePlan env v =
     guardR (validatePlan v) (case ple_encode env v of None \<Rightarrow> Inl PlanJSON | Some encoded \<Rightarrow> Inr encoded)"

definition decodePlan :: "PlanEnv \<Rightarrow> string \<Rightarrow> planError + ExecPlan" where
  "decodePlan env data =
     (if \<not> RejectDuplicateKeys (ple_json env) data then Inl PlanJSON
      else (case ple_decode env data of None \<Rightarrow> Inl PlanJSON | Some v \<Rightarrow> guardR (validatePlan v) (Inr v)))"

section \<open>Building a plan\<close>

definition durationSeconds :: "duration \<Rightarrow> int" where
  "durationSeconds d = (if d < 0 then - ((- d) div second) else d div second)"

definition uint32 :: "int \<Rightarrow> int" where
  "uint32 v = v mod 2 ^ 32"

definition validBuildRequestIdentity :: "GrantRequest \<Rightarrow> bool" where
  "validBuildRequestIdentity req =
     (rq_Operation req = OperationExecCommand \<and> rq_Client req \<noteq> [] \<and> rq_ClientRequestID req \<noteq> [] \<and> rq_Duration req > 0)"

definition validBuildRequest :: "GrantRequest \<Rightarrow> Resolved \<Rightarrow> Identity \<Rightarrow> bool" where
  "validBuildRequest req resolved identity =
     (validBuildRequestIdentity req \<and> validAuthorizationUses (stringAt (rq_Metadata req) MetadataMode) (rq_MaxUses req)
      \<and> id_Name identity = rs_TargetUser resolved)"

definition buildRequestMatchesResolved :: "GrantRequest \<Rightarrow> Resolved \<Rightarrow> bool" where
  "buildRequestMatchesResolved req resolved =
     (target_Kind (rq_Target req) = TargetUser
      \<and> FirstValue (sliceAt (target_Fields (rq_Target req)) TargetName) = rs_TargetUser resolved
      \<and> FirstValue (sliceAt (rq_Attrs req) AttrCommandID) = rs_CommandID resolved)"

definition boundEnvironment :: "string gomap \<Rightarrow> string list" where
  "boundEnvironment values =
     sort (map (\<lambda>(key, v). key @ ''='' @ v) (fold (\<lambda>(key, v) m. mapSet key v m) values [(''LANG'', ''C''), (''LC_ALL'', ''C'')]))"

definition slotsMatch :: "string gomap \<Rightarrow> string list gomap \<Rightarrow> bool" where
  "slotsMatch slots attrs = list_all (\<lambda>(slot, v). FirstValue (sliceAt attrs (ArgumentPrefix @ slot)) = v) slots"

definition Build :: "GrantRequest \<Rightarrow> Resolved \<Rightarrow> Identity \<Rightarrow> gotime \<Rightarrow> planError + ExecPlan" where
  "Build req resolved identity now =
     (if \<not> validBuildRequest req resolved identity then Inl PlanInput
      else if \<not> buildRequestMatchesResolved req resolved then Inl PlanRequestMismatch
      else if \<not> slotsMatch (rs_SlotValues resolved) (rq_Attrs req) then Inl PlanSlots
      else (case rs_Arguments resolved of
              [] \<Rightarrow> Inl PlanArgv
            | argv0 # arguments \<Rightarrow>
                if argv0 \<noteq> rs_Executable resolved then Inl PlanArgv
                else Inr \<lparr>sp_Schema = SchemaV1, sp_RequestID = rq_ClientRequestID req, sp_ClientID = rq_Client req,
                          sp_Operation = rq_Operation req, sp_AuthorizationMode = stringAt (rq_Metadata req) MetadataMode,
                          sp_CommandID = rs_CommandID resolved, sp_TargetUser = rs_TargetUser resolved,
                          sp_TargetUID = id_UID identity, sp_TargetGID = id_GID identity,
                          sp_SupplementaryGIDs = sort (id_SupplementaryGIDs identity), sp_Executable = rs_Executable resolved,
                          sp_Arguments = arguments, sp_WorkingDirectory = rs_WorkingDirectory resolved,
                          sp_Environment = boundEnvironment (rs_Environment resolved),
                          sp_TimeoutSeconds = uint32 (rs_TimeoutSeconds resolved),
                          sp_MaxOutputBytes = uint32 (rs_MaxOutputBytes resolved), sp_SlotValues = rs_SlotValues resolved,
                          sp_CatalogDigest = rs_CatalogDigest resolved,
                          sp_RequestedDurationSeconds = durationSeconds (rq_Duration req),
                          sp_RequestedMaxUses = rq_MaxUses req, sp_RequestedMaxUsesDefaulted = rq_MaxUsesDefaulted req,
                          sp_CreatedAt = now\<rparr>))"

section \<open>The store of plans\<close>

definition PrepareBind :: "PlanEnv \<Rightarrow> GrantRequest \<Rightarrow> ExecPlan \<Rightarrow> planError + (GrantRequest \<times> ImmutablePlan)" where
  "PrepareBind env req v =
     bindR (encodePlan env v) (\<lambda>encoded.
       let digest = ae_digest (ple_agent env) encoded
       in Inr (req\<lparr>rq_Metadata := mapSet MetadataDigest digest (mapSet MetadataSchema SchemaV1 (rq_Metadata req))\<rparr>,
               \<lparr>plan_Digest = digest, plan_SchemaName = SchemaV1, plan_Canonical = encoded, plan_CreatedAt = sp_CreatedAt v\<rparr>))"

definition Store_Bind ::
  "PlanEnv \<Rightarrow> (nat \<Rightarrow> bool) \<Rightarrow> GrantRequest \<Rightarrow> ExecPlan \<Rightarrow> AgentDB \<Rightarrow> AgentDB \<times> (planError + GrantRequest)" where
  "Store_Bind env io req v db =
     (case PrepareBind env req v of
        Inl e \<Rightarrow> (db, Inl e)
      | Inr (req', plan) \<Rightarrow>
          (case PutPlan (ple_agent env) io (plan_SchemaName plan) (plan_Canonical plan) (plan_CreatedAt plan) db of
             (db', Inl e) \<Rightarrow> (db', Inl (PlanStoreError e))
           | (db', Inr _) \<Rightarrow> (db', Inr req')))"

definition Store_Get :: "PlanEnv \<Rightarrow> bool \<Rightarrow> AgentDB \<Rightarrow> string \<Rightarrow> planError + ExecPlan" where
  "Store_Get env ok db digest =
     (case Plan (ple_agent env) ok digest db of
        Inl e \<Rightarrow> Inl (PlanStoreError e)
      | Inr rec \<Rightarrow> if pr_SchemaName rec \<noteq> SchemaV1 then Inl PlanSchema else decodePlan env (pr_Canonical rec))"

definition Store_Canonical :: "PlanEnv \<Rightarrow> bool \<Rightarrow> AgentDB \<Rightarrow> string \<Rightarrow> planError + string" where
  "Store_Canonical env ok db digest =
     (case Plan (ple_agent env) ok digest db of
        Inl e \<Rightarrow> Inl (PlanStoreError e)
      | Inr rec \<Rightarrow>
          if pr_SchemaName rec \<noteq> SchemaV1 \<or> ae_digest (ple_agent env) (pr_Canonical rec) \<noteq> digest then Inl PlanContent
          else Inr (pr_Canonical rec))"

section \<open>A plan against the catalog and the host\<close>

fun environmentMapLoop :: "string list \<Rightarrow> string gomap \<Rightarrow> string gomap" where
  "environmentMapLoop [] out = out"
| "environmentMapLoop (v # vs) out =
     (case cutEquals v of (key, item, ok) \<Rightarrow>
        if \<not> ok \<or> key = [] \<or> stringAt out key \<noteq> [] then [] else environmentMapLoop vs (mapSet key item out))"

definition environmentMap :: "string list \<Rightarrow> string gomap" where
  "environmentMap values = environmentMapLoop values []"

definition resolvedFromPlan :: "ExecPlan \<Rightarrow> Resolved" where
  "resolvedFromPlan v =
     \<lparr>rs_CommandID = sp_CommandID v, rs_TargetUser = sp_TargetUser v, rs_Executable = sp_Executable v,
      rs_Arguments = sp_Executable v # sp_Arguments v, rs_WorkingDirectory = sp_WorkingDirectory v,
      rs_Environment = environmentMap (sp_Environment v), rs_TimeoutSeconds = sp_TimeoutSeconds v,
      rs_MaxOutputBytes = sp_MaxOutputBytes v, rs_SlotValues = sp_SlotValues v, rs_CatalogDigest = sp_CatalogDigest v\<rparr>"

definition validateCatalogBinding :: "CatalogEnv \<Rightarrow> ExecPlan \<Rightarrow> Snapshot \<Rightarrow> planError option" where
  "validateCatalogBinding cenv v snapshot =
     (case snapshotCommand snapshot (sp_CommandID v) of
        None \<Rightarrow> Some PlanCommandGone
      | Some command \<Rightarrow>
          if boundEnvironment (cc_Environment command) \<noteq> sp_Environment v then Some PlanEnvironmentDrift
          else map_option PlanCatalog
                 (ValidateResolved cenv snapshot ((resolvedFromPlan v)\<lparr>rs_Environment := cc_Environment command\<rparr>)))"

definition identityMatchesPlan :: "Identity \<Rightarrow> ExecPlan \<Rightarrow> bool" where
  "identityMatchesPlan identity v =
     (id_Name identity = sp_TargetUser v \<and> id_UID identity = sp_TargetUID v \<and> id_GID identity = sp_TargetGID v
      \<and> id_SupplementaryGIDs identity = sp_SupplementaryGIDs v)"

definition validatePlanIdentity :: "IdentityResolver \<Rightarrow> ExecPlan \<Rightarrow> planError \<Rightarrow> planError option" where
  "validatePlanIdentity resolver v message =
     (case resolver (sp_TargetUser v) of None \<Rightarrow> Some message
      | Some identity \<Rightarrow> failIf (\<not> identityMatchesPlan identity v) message)"

definition validateHelperIdentity :: "IdentityResolver \<Rightarrow> ExecPlan \<Rightarrow> planError option" where
  "validateHelperIdentity identities v = validatePlanIdentity identities v PlanHelperIdentity"

definition validateCurrentIdentity :: "IdentityResolver \<Rightarrow> ExecPlan \<Rightarrow> planError option" where
  "validateCurrentIdentity resolver v = validatePlanIdentity resolver v PlanIdentityChanged"

definition ValidateForHelper :: "CatalogEnv \<Rightarrow> ExecPlan \<Rightarrow> Snapshot \<Rightarrow> IdentityResolver \<Rightarrow> planError option" where
  "ValidateForHelper cenv v snapshot identities =
     orElse (validatePlan v) (orElse (validateCatalogBinding cenv v snapshot) (validateHelperIdentity identities v))"

section \<open>A plan against its grant\<close>

text \<open>
  \<open>Validator\<close>: the store of plans at one moment (\<open>va_db\<close>, \<open>va_ok\<close>), the catalog, the identities and what the helper answers to
  \<^verbatim>\<open>Ready\<close>.
\<close>

record Validator =
  va_env :: PlanEnv
  va_db :: AgentDB
  va_ok :: bool
  va_cenv :: CatalogEnv
  va_catalog :: Snapshot
  va_identities :: IdentityResolver
  va_ready :: "string option"

definition requestedGrantBounds :: "Grant \<Rightarrow> duration \<times> Limit" where
  "requestedGrantBounds grant =
     (if g_RequestedDuration grant \<le> 0 then g_Duration grant else g_RequestedDuration grant,
      if g_RequestedMaxUses grant < 0 then g_MaxUses grant else g_RequestedMaxUses grant)"

definition requestedGrantMaxUses :: "Grant \<Rightarrow> Limit" where
  "requestedGrantMaxUses grant = snd (requestedGrantBounds grant)"

definition constraintsWithinGrant :: "ApprovalConstraints \<Rightarrow> duration \<Rightarrow> Limit \<Rightarrow> bool" where
  "constraintsWithinGrant c duration maximum =
     (c_Duration c \<le> duration
      \<and> ((\<not> c_MaxUsesSpecified c \<and> \<not> IsFinite (c_MaxUses c))
         \<or> (IsUnlimited maximum \<or> (IsFinite (c_MaxUses c) \<and> c_MaxUses c \<le> maximum))))"

definition planMatchesGrantScope :: "ExecPlan \<Rightarrow> Grant \<Rightarrow> bool" where
  "planMatchesGrantScope v grant =
     (sp_ClientID v = g_Client grant \<and> sp_Operation v = g_Operation grant \<and> sp_Operation v = OperationExecCommand
      \<and> sp_TargetUser v = FirstValue (sliceAt (target_Fields (g_Target grant)) TargetName)
      \<and> sp_CommandID v = FirstValue (sliceAt (g_Attrs grant) AttrCommandID))"

definition planMatchesGrantShape :: "ExecPlan \<Rightarrow> Grant \<Rightarrow> bool" where
  "planMatchesGrantShape v grant =
     (target_Kind (g_Target grant) = TargetUser \<and> length (target_Fields (g_Target grant)) = 1
      \<and> length (g_Attrs grant) = length (sp_SlotValues v) + 1)"

definition planMatchesGrantIdentity :: "ExecPlan \<Rightarrow> Grant \<Rightarrow> bool" where
  "planMatchesGrantIdentity v grant = (sp_RequestID v = g_ClientRequestID grant \<and> planMatchesGrantScope v grant)"

definition planMatchesGrant :: "ExecPlan \<Rightarrow> Grant \<Rightarrow> duration \<Rightarrow> Limit \<Rightarrow> bool" where
  "planMatchesGrant v grant duration maxUses =
     (planMatchesGrantIdentity v grant \<and> planMatchesGrantShape v grant
      \<and> sp_RequestedDurationSeconds v = durationSeconds duration \<and> sp_RequestedMaxUses v = maxUses
      \<and> sp_RequestedMaxUsesDefaulted v = g_RequestedMaxUsesDefaulted grant
      \<and> sp_AuthorizationMode v = stringAt (g_Metadata grant) MetadataMode)"

definition grantSlotsMatch :: "ExecPlan \<Rightarrow> Grant \<Rightarrow> bool" where
  "grantSlotsMatch v grant = slotsMatch (sp_SlotValues v) (g_Attrs grant)"

definition validateLoadedGrantPlan :: "ExecPlan \<Rightarrow> Grant \<Rightarrow> duration \<Rightarrow> Limit \<Rightarrow> planError option" where
  "validateLoadedGrantPlan v grant duration maxUses =
     orElse (failIf (\<not> planMatchesGrant v grant duration maxUses) PlanGrantMismatch) (failIf (\<not> grantSlotsMatch v grant) PlanGrantSlots)"

definition validateGrantPlanInputs :: "Grant \<Rightarrow> planError option" where
  "validateGrantPlanInputs grant = failIf (stringAt (g_Metadata grant) MetadataSchema \<noteq> SchemaV1) PlanGrantSchema"

definition loadGrantPlan :: "Validator \<Rightarrow> Grant \<Rightarrow> planError + (ExecPlan \<times> duration)" where
  "loadGrantPlan v grant =
     guardR (validateGrantPlanInputs grant)
       (bindR (Store_Get (va_env v) (va_ok v) (va_db v) (stringAt (g_Metadata grant) MetadataDigest)) (\<lambda>plan.
          case requestedGrantBounds grant of (duration, maxUses) \<Rightarrow>
            guardR (validateLoadedGrantPlan plan grant duration maxUses) (Inr (plan, duration))))"

definition validateSudoGrant :: "Validator \<Rightarrow> Grant \<Rightarrow> ApprovalConstraints \<Rightarrow> planError option" where
  "validateSudoGrant v grant constraints =
     (case loadGrantPlan v grant of
        Inl e \<Rightarrow> Some e
      | Inr (plan, duration) \<Rightarrow>
          orElse (validateCatalogBinding (va_cenv v) plan (va_catalog v))
           (orElse (validateCurrentIdentity (va_identities v) plan)
             (failIf (\<not> constraintsWithinGrant constraints duration (requestedGrantMaxUses grant)) PlanConstraint)))"

definition ValidateActivation :: "Validator \<Rightarrow> Grant \<Rightarrow> ApprovalConstraints \<Rightarrow> planError option" where
  "ValidateActivation v grant constraints =
     orElse (validateSudoGrant v grant constraints) (map_option PlanHelperNotReady (va_ready v))"

definition noConstraints :: ApprovalConstraints where
  "noConstraints = \<lparr>c_Duration = 0, c_MaxUses = 0, c_MaxUsesSpecified = False\<rparr>"

definition ValidateGrant :: "Validator \<Rightarrow> Grant \<Rightarrow> planError + ExecPlan" where
  "ValidateGrant v grant =
     guardR (validateSudoGrant v grant noConstraints)
       (Store_Get (va_env v) (va_ok v) (va_db v) (stringAt (g_Metadata grant) MetadataDigest))"

definition ValidateExecution :: "Validator \<Rightarrow> Grant \<Rightarrow> planError + ExecPlan" where
  "ValidateExecution v grant =
     bindR (ValidateGrant v grant) (\<lambda>plan. guardR (map_option PlanHelperNotReady (va_ready v)) (Inr plan))"

definition planMatchesWindowBounds :: "ExecPlan \<Rightarrow> Grant \<Rightarrow> bool" where
  "planMatchesWindowBounds v grant =
     (sp_RequestedDurationSeconds v = durationSeconds (g_Duration grant) \<and> sp_RequestedMaxUses v = g_MaxUses grant
      \<and> sp_RequestedMaxUsesDefaulted v = g_RequestedMaxUsesDefaulted grant \<and> sp_AuthorizationMode v = ''window'')"

definition validateWindowInvocationPlan :: "ExecPlan \<Rightarrow> Grant \<Rightarrow> string \<Rightarrow> planError option" where
  "validateWindowInvocationPlan v grant requestID =
     (if sp_RequestID v \<noteq> requestID \<or> \<not> planMatchesGrantScope v grant then Some PlanWindowMismatch
      else if \<not> planMatchesGrantShape v grant \<or> \<not> grantSlotsMatch v grant then Some PlanWindowMismatch
      else if \<not> planMatchesWindowBounds v grant then Some PlanWindowMismatch
      else None)"

definition validateExecutionInvocationPlan :: "ExecPlan \<Rightarrow> Grant \<Rightarrow> string \<Rightarrow> string \<Rightarrow> planError option" where
  "validateExecutionInvocationPlan v grant digest requestID =
     (case requestedGrantBounds grant of (duration, maxUses) \<Rightarrow>
        if digest \<noteq> stringAt (g_Metadata grant) MetadataDigest \<or> requestID \<noteq> g_ClientRequestID grant then Some PlanExecutionMismatch
        else if validateLoadedGrantPlan v grant duration maxUses \<noteq> None then Some PlanExecutionMismatch
        else None)"

definition validateInvocationGrantPlan :: "ExecPlan \<Rightarrow> Grant \<Rightarrow> string \<Rightarrow> string \<Rightarrow> planError option" where
  "validateInvocationGrantPlan v grant digest requestID =
     (let mode = stringAt (g_Metadata grant) MetadataMode
      in if mode = ''execution'' then validateExecutionInvocationPlan v grant digest requestID
         else if mode = ''window'' then validateWindowInvocationPlan v grant requestID
         else Some PlanGrantMode)"

definition ValidateInvocation :: "Validator \<Rightarrow> string \<Rightarrow> Grant \<Rightarrow> string \<Rightarrow> planError + ExecPlan" where
  "ValidateInvocation v digest grant requestID =
     guardR (validateGrantPlanInputs grant)
       (bindR (Store_Get (va_env v) (va_ok v) (va_db v) digest) (\<lambda>plan.
          guardR (validateInvocationGrantPlan plan grant digest requestID)
           (guardR (validateCatalogBinding (va_cenv v) plan (va_catalog v))
             (guardR (validateCurrentIdentity (va_identities v) plan) (Inr plan)))))"

end
