(* ===== verification/SudoBinding.thy ===== *)
theory SudoBinding
  imports SudoPlan
begin

text \<open>
  How plans, catalog and grants hold together: a plan the helper accepts is a command its catalog declares; a plan that was just
  built, bound and granted is accepted everywhere it is checked; and a window approval that was narrowed refuses the plan it was
  asked for.
\<close>

section \<open>Plans the helper accepts\<close>

text \<open>What a plan says is what the catalog and the host say.\<close>

definition planDeclared :: "CatalogEnv \<Rightarrow> Snapshot \<Rightarrow> IdentityResolver \<Rightarrow> ExecPlan \<Rightarrow> bool" where
  "planDeclared cenv s identities v \<longleftrightarrow>
     (\<exists>command. snapshotCommand s (sp_CommandID v) = Some command \<and> sp_TargetUser v \<in> set (cc_TargetUsers command)
        \<and> declaredBy (ce_fs cenv) command (sp_Executable v # sp_Arguments v) \<and> \<not> shellEquivalent (Base (sp_Executable v))
        \<and> sp_WorkingDirectory v = cc_WorkingDirectory command \<and> sp_Environment v = boundEnvironment (cc_Environment command)
        \<and> sp_TimeoutSeconds v = cc_TimeoutSeconds command \<and> sp_MaxOutputBytes v = cc_MaxOutputBytes command)
     \<and> (\<exists>identity. identities (sp_TargetUser v) = Some identity \<and> identityMatchesPlan identity v)"

lemma ValidateResolved_declared:
  assumes "wfSnapshot fs0 s" "filesClean (ce_fs cenv)" "ValidateResolved cenv s r = None"
  obtains command where "snapshotCommand s (rs_CommandID r) = Some command" "rs_TargetUser r \<in> set (cc_TargetUsers command)"
    "declaredBy (ce_fs cenv) command (rs_Arguments r)" "rs_Executable r = cc_Executable command"
    "rs_WorkingDirectory r = cc_WorkingDirectory command" "rs_TimeoutSeconds r = cc_TimeoutSeconds command"
    "rs_MaxOutputBytes r = cc_MaxOutputBytes command"
proof -
  obtain inputs again where again: "Resolve cenv s (rs_CommandID r) (rs_TargetUser r) inputs = Inr again" "sameResolvedCommand again r"
    using assms(3) by (auto simp: ValidateResolved_def split: if_splits option.splits sum.splits)
  show ?thesis
    by (rule Resolve_declared[OF assms(1,2) again(1)], rule that) (use again(2) in \<open>auto simp: sameResolvedCommand_def\<close>)
qed

lemma validateCatalogBinding_None:
  assumes "validateCatalogBinding cenv v s = None"
  obtains command where "snapshotCommand s (sp_CommandID v) = Some command" "sp_Environment v = boundEnvironment (cc_Environment command)"
    "ValidateResolved cenv s ((resolvedFromPlan v)\<lparr>rs_Environment := cc_Environment command\<rparr>) = None"
  using assms by (auto simp: validateCatalogBinding_def split: option.splits if_splits)

lemma ValidateForHelper_declared:
  assumes "wfSnapshot fs0 s" "filesClean (ce_fs cenv)" "ValidateForHelper cenv v s identities = None"
  shows "planDeclared cenv s identities v"
proof -
  obtain command where command: "snapshotCommand s (sp_CommandID v) = Some command" "sp_Environment v = boundEnvironment (cc_Environment command)"
    "ValidateResolved cenv s ((resolvedFromPlan v)\<lparr>rs_Environment := cc_Environment command\<rparr>) = None"
    using assms(3) by (auto simp: ValidateForHelper_def elim: validateCatalogBinding_None)
  have shell: "\<not> shellEquivalent (Base (cc_Executable command))"
    using snapshotCommand_wf[OF assms(1) command(1)] validated_paths(1) by (auto simp: wfCommand_def)
  obtain identity where "identities (sp_TargetUser v) = Some identity" "identityMatchesPlan identity v"
    using assms(3) by (auto simp: ValidateForHelper_def validateHelperIdentity_def validatePlanIdentity_def split: option.splits)
  then show ?thesis
    using ValidateResolved_declared[OF assms(1,2) command(3)] command(1,2) shell
    by (fastforce simp: planDeclared_def resolvedFromPlan_def)
qed

section \<open>A window approval that was narrowed\<close>

lemma metadata_keys: "MetadataMode \<noteq> MetadataSchema" "MetadataMode \<noteq> MetadataDigest" "MetadataSchema \<noteq> MetadataDigest"
  by (simp_all add: MetadataMode_def MetadataSchema_def MetadataDigest_def)

lemma applyApprovalConstraints_keeps:
  "g_Metadata (applyApprovalConstraints g c) = g_Metadata g" "g_RequestedDuration (applyApprovalConstraints g c) = g_RequestedDuration g"
  "g_RequestedMaxUses (applyApprovalConstraints g c) = g_RequestedMaxUses g"
  "c_Duration c > 0 \<Longrightarrow> g_Duration (applyApprovalConstraints g c) = c_Duration c"
  by (simp_all add: applyApprovalConstraints_def Let_def)

lemma loadGrantPlan_success:
  assumes "loadGrantPlan v g = Inr (plan, duration)"
  shows "stringAt (g_Metadata g) MetadataSchema = SchemaV1"
    and "Store_Get (va_env v) (va_ok v) (va_db v) (stringAt (g_Metadata g) MetadataDigest) = Inr plan"
    and "planMatchesGrant plan g (fst (requestedGrantBounds g)) (snd (requestedGrantBounds g))"
  using assms by (cases "requestedGrantBounds g"; auto simp: loadGrantPlan_def validateGrantPlanInputs_def validateLoadedGrantPlan_def)+

lemma narrowed_window_mismatch:
  assumes "stringAt (g_Metadata g) MetadataMode = ''window''" and "ValidateActivation v g c = None" and "0 < g_RequestedDuration g"
    and "0 < c_Duration c" and "durationSeconds (c_Duration c) \<noteq> durationSeconds (g_RequestedDuration g)"
  shows "ValidateInvocation v (stringAt (g_Metadata g) MetadataDigest) (applyApprovalConstraints g c) requestID = Inl PlanWindowMismatch"
proof -
  obtain plan duration where load: "loadGrantPlan v g = Inr (plan, duration)"
    using assms(2) by (auto simp: ValidateActivation_def validateSudoGrant_def split: sum.splits)
  have "sp_RequestedDurationSeconds plan = durationSeconds (g_RequestedDuration g)"
    using loadGrantPlan_success(3)[OF load] assms(3) by (simp add: planMatchesGrant_def requestedGrantBounds_def)
  then have "\<not> planMatchesWindowBounds plan (applyApprovalConstraints g c)"
    using assms(4,5) by (simp add: planMatchesWindowBounds_def applyApprovalConstraints_keeps)
  then show ?thesis
    using loadGrantPlan_success(1,2)[OF load] assms(1)
    by (simp add: ValidateInvocation_def validateInvocationGrantPlan_def validateWindowInvocationPlan_def validateGrantPlanInputs_def
        applyApprovalConstraints_keeps guardR_def bindR_def failIf_def)
qed

section \<open>A plan that was just built\<close>

lemma sliceAt_mapSet: "sliceAt (mapSet k v m) k' = (if k' = k then v else sliceAt m k')"
  by (simp add: sliceAt_def)

lemma stringAt_mapSet: "stringAt (mapSet k v m) k' = (if k' = k then v else stringAt m k')"
  by (simp add: stringAt_def)

definition attrsOf :: "string gomap \<Rightarrow> string list gomap \<Rightarrow> string list gomap" where
  "attrsOf slots m = fold (\<lambda>(name, v) m. mapSet (ArgumentPrefix @ name) [v] m) slots m"

lemma attrsOf_simps [simp]:
  "attrsOf [] m = m" "attrsOf ((name, v) # slots) m = attrsOf slots (mapSet (ArgumentPrefix @ name) [v] m)"
  by (simp_all add: attrsOf_def)

lemma attrsOf_other: "\<forall>(n, v)\<in>set slots. ArgumentPrefix @ n \<noteq> k \<Longrightarrow> sliceAt (attrsOf slots m) k = sliceAt m k"
  by (induction slots arbitrary: m) (auto simp: sliceAt_mapSet)

lemma attrsOf_slot:
  "isMap slots \<Longrightarrow> (n, v) \<in> set slots \<Longrightarrow> sliceAt (attrsOf slots m) (ArgumentPrefix @ n) = [v]"
proof (induction slots arbitrary: m)
  case (Cons s slots)
  obtain n' v' where s: "s = (n', v')"
    by fastforce
  show ?case
  proof (cases "n' = n")
    case True
    then have "\<forall>(n'', v'')\<in>set slots. ArgumentPrefix @ n'' \<noteq> ArgumentPrefix @ n"
      using Cons.prems(1) s by (force simp: isMap_def)
    moreover have "v' = v"
      using Cons.prems s True by (auto simp: isMap_def image_iff)
    ultimately show ?thesis
      using s True attrsOf_other[of slots "ArgumentPrefix @ n"] by (simp add: sliceAt_mapSet)
  next
    case False
    then show ?thesis
      using Cons s by (auto simp: isMap_def)
  qed
qed simp

lemma mapSet_length: "length (mapSet k v m) = (if k \<in> fst ` set m then length m else Suc (length m))"
  by (induction k v m rule: mapSet.induct) auto

lemma attrsOf_length:
  "isMap slots \<Longrightarrow> \<forall>n\<in>fst ` set slots. ArgumentPrefix @ n \<notin> fst ` set m \<Longrightarrow> length (attrsOf slots m) = length slots + length m"
proof (induction slots arbitrary: m)
  case (Cons s slots)
  obtain n v where s: "s = (n, v)"
    by fastforce
  have "n \<notin> fst ` set slots"
    using Cons.prems(1) s by (simp add: isMap_def)
  then have "\<forall>n'\<in>fst ` set slots. ArgumentPrefix @ n' \<notin> fst ` set (mapSet (ArgumentPrefix @ n) [v] m)"
    using Cons.prems(2) s by (auto simp: mapSet_keys)
  then show ?case
    using Cons s by (auto simp: isMap_def mapSet_length)
qed simp

lemma prefix_not_command: "ArgumentPrefix @ n \<noteq> AttrCommandID"
  by (simp add: ArgumentPrefix_def AttrCommandID_def)

lemma sudo_Request_attrs:
  assumes "isMap (rs_SlotValues r)"
  shows "FirstValue (sliceAt (req_Attrs (sudo_Request client r)) AttrCommandID) = rs_CommandID r"
    and "slotsMatch (rs_SlotValues r) (req_Attrs (sudo_Request client r))"
    and "length (req_Attrs (sudo_Request client r)) = length (rs_SlotValues r) + 1"
proof -
  have attrs: "req_Attrs (sudo_Request client r) = attrsOf (rs_SlotValues r) [(AttrCommandID, [rs_CommandID r])]"
    by (simp add: sudo_Request_def attrsOf_def)
  show "FirstValue (sliceAt (req_Attrs (sudo_Request client r)) AttrCommandID) = rs_CommandID r"
    using attrsOf_other[of "rs_SlotValues r" AttrCommandID] prefix_not_command by (simp add: attrs sliceAt_def FirstValue_def)
  show "slotsMatch (rs_SlotValues r) (req_Attrs (sudo_Request client r))"
    using attrsOf_slot[OF assms] by (auto simp: slotsMatch_def list_all_iff attrs FirstValue_def)
  show "length (req_Attrs (sudo_Request client r)) = length (rs_SlotValues r) + 1"
    using attrsOf_length[OF assms, of "[(AttrCommandID, [rs_CommandID r])]"] prefix_not_command by (auto simp: attrs)
qed

lemma Build_plan:
  assumes "Build req r identity now = Inr p"
  shows "sp_RequestID p = rq_ClientRequestID req" "sp_ClientID p = rq_Client req" "sp_Operation p = OperationExecCommand"
    "rq_Operation req = OperationExecCommand" "sp_AuthorizationMode p = stringAt (rq_Metadata req) MetadataMode"
    "sp_CommandID p = rs_CommandID r" "sp_TargetUser p = rs_TargetUser r" "sp_SlotValues p = rs_SlotValues r"
    "sp_RequestedDurationSeconds p = durationSeconds (rq_Duration req)" "sp_RequestedMaxUses p = rq_MaxUses req"
    "sp_RequestedMaxUsesDefaulted p = rq_MaxUsesDefaulted req" "0 < rq_Duration req" "0 \<le> rq_MaxUses req"
    "sp_Environment p = boundEnvironment (rs_Environment r)"
    "identityMatchesPlan (identity\<lparr>id_SupplementaryGIDs := sort (id_SupplementaryGIDs identity)\<rparr>) p"
    "(resolvedFromPlan p)\<lparr>rs_Environment := rs_Environment r\<rparr> =
       r\<lparr>rs_TimeoutSeconds := uint32 (rs_TimeoutSeconds r), rs_MaxOutputBytes := uint32 (rs_MaxOutputBytes r)\<rparr>"
  using assms
  by (auto simp: Build_def validBuildRequest_def validBuildRequestIdentity_def validAuthorizationUses_def SingleUse_def
      identityMatchesPlan_def resolvedFromPlan_def split: if_splits list.splits)


lemma uint32_small: "0 \<le> v \<Longrightarrow> v \<le> 1048576 \<Longrightarrow> uint32 v = v"
  by (simp add: uint32_def)

lemma built_plan_bound:
  assumes "wfSnapshot fs0 s" "snapshotMaps s" "stableFiles (ce_fs cenv)" "jsonLaws cenv"
    and "Resolve cenv s i user inputs = Inr r" "\<forall>(_, v)\<in>set (rs_SlotValues r). validUTF8 v"
    and "Build req r identity now = Inr p"
  shows "validateCatalogBinding cenv p s = None"
proof -
  obtain command where command: "snapshotCommand s i = Some command" "rs_TimeoutSeconds r = cc_TimeoutSeconds command"
    "rs_MaxOutputBytes r = cc_MaxOutputBytes command" "rs_Environment r = cc_Environment command" "rs_CommandID r = cc_ID command"
    by (rule Resolve_success[OF assms(5)]) simp
  have wf: "wfCommand fs0 command" and id: "cc_ID command = i"
    using snapshotCommand_wf[OF assms(1) command(1)] by simp_all
  have "uint32 (rs_TimeoutSeconds r) = rs_TimeoutSeconds r" "uint32 (rs_MaxOutputBytes r) = rs_MaxOutputBytes r"
    using wf command(2,3) by (simp_all add: wfCommand_def uint32_small maxTimeoutSeconds_def maxOutputBytes_def)
  then have "(resolvedFromPlan p)\<lparr>rs_Environment := cc_Environment command\<rparr> = r"
    using Build_plan(16)[OF assms(7)] command(4) by simp
  then show ?thesis
    using Resolve_ValidateResolved[OF assms(1-6)] command id Build_plan(6,14)[OF assms(7)] by (simp add: validateCatalogBinding_def)
qed

lemma PrepareBind_binds:
  assumes "PrepareBind env req p = Inr (req', plan)"
  shows "req' = req\<lparr>rq_Metadata := mapSet MetadataDigest (plan_Digest plan) (mapSet MetadataSchema SchemaV1 (rq_Metadata req))\<rparr>"
    and "plan_SchemaName plan = SchemaV1" "validatePlan p = None"
  using assms by (auto simp: PrepareBind_def encodePlan_def Let_def)

lemma newGrant_fields:
  "g_Client (newGrant i t req) = rq_Client req" "g_ClientRequestID (newGrant i t req) = rq_ClientRequestID req"
  "g_Operation (newGrant i t req) = rq_Operation req" "g_Target (newGrant i t req) = rq_Target req"
  "g_Attrs (newGrant i t req) = rq_Attrs req" "g_Metadata (newGrant i t req) = rq_Metadata req"
  "g_Duration (newGrant i t req) = rq_Duration req" "g_RequestedDuration (newGrant i t req) = rq_Duration req"
  "g_MaxUses (newGrant i t req) = rq_MaxUses req" "g_RequestedMaxUses (newGrant i t req) = rq_MaxUses req"
  "g_RequestedMaxUsesDefaulted (newGrant i t req) = rq_MaxUsesDefaulted req"
  by (simp_all add: newGrant_def zeroGrant_def)

lemma built_plan_matches:
  assumes "isMap (rs_SlotValues r)" "rq_Target req = req_Target (sudo_Request client r)" "rq_Attrs req = req_Attrs (sudo_Request client r)"
    and "Build req r identity now = Inr p" "PrepareBind env req p = Inr (req', plan)"
  shows "planMatchesGrant p (newGrant i t req') (rq_Duration req) (rq_MaxUses req)" "grantSlotsMatch p (newGrant i t req')"
    "planMatchesGrantScope p (newGrant i t req')" "planMatchesGrantShape p (newGrant i t req')"
    "stringAt (rq_Metadata req) MetadataMode = ''window'' \<Longrightarrow> planMatchesWindowBounds p (newGrant i t req')"
    "requestedGrantBounds (newGrant i t req') = (rq_Duration req, rq_MaxUses req)"
proof -
  note p = Build_plan[OF assms(4)] and req' = PrepareBind_binds(1)[OF assms(5)]
  have target: "target_Kind (rq_Target req) = TargetUser" "length (target_Fields (rq_Target req)) = 1"
    "FirstValue (sliceAt (target_Fields (rq_Target req)) TargetName) = rs_TargetUser r"
    using assms(2) by (simp_all add: sudo_Request_def sliceAt_def FirstValue_def)
  have mode: "stringAt (rq_Metadata req') MetadataMode = stringAt (rq_Metadata req) MetadataMode"
    using req' metadata_keys by (simp add: stringAt_mapSet)
  have same: "rq_Client req' = rq_Client req" "rq_ClientRequestID req' = rq_ClientRequestID req" "rq_Operation req' = rq_Operation req"
    "rq_Target req' = rq_Target req" "rq_Attrs req' = rq_Attrs req" "rq_Duration req' = rq_Duration req" "rq_MaxUses req' = rq_MaxUses req"
    "rq_MaxUsesDefaulted req' = rq_MaxUsesDefaulted req"
    using req' by simp_all
  note attrs = sudo_Request_attrs[OF assms(1), of client, folded assms(3)]
  show scope: "planMatchesGrantScope p (newGrant i t req')"
    using p(2,3,4,6,7) target(3) attrs(1) same by (simp add: planMatchesGrantScope_def newGrant_fields)
  show shape: "planMatchesGrantShape p (newGrant i t req')"
    using p(8) target(1,2) attrs(3) same by (simp add: planMatchesGrantShape_def newGrant_fields)
  show "planMatchesGrant p (newGrant i t req') (rq_Duration req) (rq_MaxUses req)"
    using scope shape p(1,5,9,10,11) same mode by (simp add: planMatchesGrant_def planMatchesGrantIdentity_def newGrant_fields)
  show "grantSlotsMatch p (newGrant i t req')"
    using p(8) attrs(2) same by (simp add: grantSlotsMatch_def newGrant_fields)
  show "planMatchesWindowBounds p (newGrant i t req')" if "stringAt (rq_Metadata req) MetadataMode = ''window''"
    using that p(5,9,10,11) same by (simp add: planMatchesWindowBounds_def newGrant_fields)
  show "requestedGrantBounds (newGrant i t req') = (rq_Duration req, rq_MaxUses req)"
    using p(12,13) same by (simp add: requestedGrantBounds_def newGrant_fields)
qed

lemma fresh_plan_checks:
  assumes "Catalog_Parse env0 data = Inr s" "snapshotMaps s" "stableFiles (ce_fs cenv)" "jsonLaws cenv"
    and "Resolve cenv s cid user inputs = Inr r" "\<forall>(_, v)\<in>set (rs_SlotValues r). validUTF8 v"
    and "identities user = Some identity" "sorted (id_SupplementaryGIDs identity)"
    and "rq_Target req = req_Target (sudo_Request client r)" "rq_Attrs req = req_Attrs (sudo_Request client r)"
    and "Build req r identity now = Inr p" "PrepareBind penv req p = Inr (req', plan)"
    and "Plan (ple_agent penv) ok (plan_Digest plan) db = Inr stored"
    and "pr_SchemaName stored = plan_SchemaName plan" "pr_Canonical stored = plan_Canonical plan"
    and "RejectDuplicateKeys (ple_json penv) (plan_Canonical plan)" "ple_decode penv (plan_Canonical plan) = Some p"
    and "v = \<lparr>va_env = penv, va_db = db, va_ok = ok, va_cenv = cenv, va_catalog = s, va_identities = identities, va_ready = None\<rparr>"
    and "g = newGrant i t req'"
  shows "(constraintsWithinGrant c (rq_Duration req) (rq_MaxUses req) \<longrightarrow> ValidateActivation v g c = None) \<and> ValidateGrant v g = Inr p
    \<and> ValidateInvocation v (plan_Digest plan) g (rq_ClientRequestID req) = Inr p"
proof -
  have slots: "isMap (rs_SlotValues r)"
    by (rule Resolve_success[OF assms(5)]) (simp add: slotsOf_isMap[of "[]", unfolded isMap_def, simplified] isMap_def)
  note bound = built_plan_bound[OF Parse_wf[OF assms(1)] assms(2-6) assms(11)]
    and matches = built_plan_matches[OF slots assms(9,10,11,12), of i t, folded assms(19)]
    and p = Build_plan[OF assms(11)]
  have metadata: "stringAt (g_Metadata g) MetadataSchema = SchemaV1" "stringAt (g_Metadata g) MetadataDigest = plan_Digest plan"
    "stringAt (g_Metadata g) MetadataMode = stringAt (rq_Metadata req) MetadataMode" "g_ClientRequestID g = rq_ClientRequestID req"
    using PrepareBind_binds(1)[OF assms(12)] metadata_keys by (auto simp: assms(19) newGrant_fields stringAt_mapSet)
  have stored: "Store_Get penv ok db (plan_Digest plan) = Inr p"
    using assms(13-17) PrepareBind_binds(2,3)[OF assms(12)] by (simp add: Store_Get_def decodePlan_def guardR_def)
  have user: "rs_TargetUser r = user"
    by (rule Resolve_success[OF assms(5)]) simp
  have "identity\<lparr>id_SupplementaryGIDs := sort (id_SupplementaryGIDs identity)\<rparr> = identity"
    using assms(8) by (simp add: sorted_sort_id)
  then have current: "validateCurrentIdentity identities p = None"
    using p(7,15) assms(7) user by (simp add: validateCurrentIdentity_def validatePlanIdentity_def)
  have load: "loadGrantPlan v g = Inr (p, rq_Duration req)"
    using metadata stored matches(1,2,6)
    by (simp add: loadGrantPlan_def validateGrantPlanInputs_def validateLoadedGrantPlan_def assms(18) guardR_def bindR_def failIf_def orElse_def)
  have grant: "validateSudoGrant v g c' = None" if "constraintsWithinGrant c' (rq_Duration req) (rq_MaxUses req)" for c'
    using load bound current that matches(6) assms(18)
    by (simp add: validateSudoGrant_def requestedGrantMaxUses_def orElse_def failIf_def)
  have active: "constraintsWithinGrant c (rq_Duration req) (rq_MaxUses req) \<longrightarrow> ValidateActivation v g c = None"
    using grant assms(18) by (simp add: ValidateActivation_def orElse_def)
  have "constraintsWithinGrant noConstraints (rq_Duration req) (rq_MaxUses req)"
    using p(12) by (simp add: constraintsWithinGrant_def noConstraints_def IsFinite_def Unlimited_def)
  then have usable: "ValidateGrant v g = Inr p"
    using grant stored metadata(2) assms(18) by (simp add: ValidateGrant_def guardR_def)
  have "sp_AuthorizationMode p = ''execution'' \<or> sp_AuthorizationMode p = ''window''"
    using PrepareBind_binds(3)[OF assms(12)]
    by (auto simp: validatePlan_def validatePlanHeader_def validPlanIdentity_def validPlanRequestIdentity_def validAuthorizationMode_def)
  then have "validateInvocationGrantPlan p g (plan_Digest plan) (rq_ClientRequestID req) = None"
    using matches metadata p(1,5)
    by (auto simp: validateInvocationGrantPlan_def validateExecutionInvocationPlan_def validateWindowInvocationPlan_def
        validateLoadedGrantPlan_def Let_def)
  then have "ValidateInvocation v (plan_Digest plan) g (rq_ClientRequestID req) = Inr p"
    using stored bound current metadata(1) assms(18)
    by (simp add: ValidateInvocation_def validateGrantPlanInputs_def guardR_def bindR_def failIf_def)
  then show ?thesis
    using active usable by blast
qed

end
