(* ===== verification/SudoHost.thy ===== *)
theory SudoHost
  imports SudoBinding
begin

text \<open>
  The checks of the privileged helper on the files it is about to run, \<^verbatim>\<open>brokers/sudo/internal/hostcheck\<close>: every element of the
  path of the executable and of the working directory is owned by root, is no symbolic link and is writable by root only.
\<close>

datatype hostError =
    HostPath | HostLstat string | HostSymlink string | HostOwner string | HostWritable string | HostACL string | HostNotDirectory string
  | HostNotRegular string | HostNotSocket | HostSocketOwner | HostExecutable hostError | HostWorkingDirectory hostError

definition aclNames :: "bool \<Rightarrow> string list" where
  "aclNames directory = ''system.posix_acl_access'' # (if directory then [''system.posix_acl_default''] else [])"

text \<open>\<^verbatim>\<open>validatePathACL\<close> on Linux.\<close>

definition validatePathACL :: "FileSystem \<Rightarrow> string \<Rightarrow> bool \<Rightarrow> hostError option" where
  "validatePathACL fs path directory =
     firstError (\<lambda>name. case fs_Getxattr fs path name of
        XattrAbsent \<Rightarrow> None | XattrError \<Rightarrow> Some (HostACL path) | XattrSize n \<Rightarrow> failIf (n > 0) (HostACL path)) (aclNames directory)"

definition trustedRootOwner :: "int \<Rightarrow> bool" where
  "trustedRootOwner uid = (uid = 0)"

definition validateRootOwner :: "string \<Rightarrow> FileInfo \<Rightarrow> hostError option" where
  "validateRootOwner path info = failIf (\<not> trustedRootOwner (fi_Uid info)) (HostOwner path)"

text \<open>\<^verbatim>\<open>info.Mode().Perm() & 0o022 != 0\<close>: bit 1 or bit 4 is set.\<close>

definition validateTrustedPermissions :: "FileSystem \<Rightarrow> string \<Rightarrow> FileInfo \<Rightarrow> hostError option" where
  "validateTrustedPermissions fs path info =
     orElse (failIf (odd (fi_Perm info div 2) \<or> odd (fi_Perm info div 16)) (HostWritable path))
       (validatePathACL fs path (fi_Kind info = Directory))"

definition validateTrustedComponentOwnership :: "FileSystem \<Rightarrow> string \<Rightarrow> FileInfo \<Rightarrow> hostError option" where
  "validateTrustedComponentOwnership fs path info =
     orElse (failIf (fi_Kind info = Symlink) (HostSymlink path))
      (orElse (validateRootOwner path info) (validateTrustedPermissions fs path info))"

definition validateTrustedComponentKind :: "string \<Rightarrow> FileInfo \<Rightarrow> bool \<Rightarrow> bool \<Rightarrow> hostError option" where
  "validateTrustedComponentKind path info finalFile isLast =
     (if \<not> isLast \<or> \<not> finalFile then failIf (fi_Kind info \<noteq> Directory) (HostNotDirectory path)
      else failIf (fi_Kind info \<noteq> RegularFile) (HostNotRegular path))"

definition validateTrustedComponent :: "FileSystem \<Rightarrow> string \<Rightarrow> FileInfo \<Rightarrow> bool \<Rightarrow> bool \<Rightarrow> hostError option" where
  "validateTrustedComponent fs path info finalFile isLast =
     orElse (validateTrustedComponentOwnership fs path info) (validateTrustedComponentKind path info finalFile isLast)"

fun trustedChainLoop :: "FileSystem \<Rightarrow> bool \<Rightarrow> string \<Rightarrow> string list \<Rightarrow> hostError option" where
  "trustedChainLoop fs finalFile current [] = None"
| "trustedChainLoop fs finalFile current (component # components) =
     (let path = Join current component
      in case fs_Lstat fs path of
           None \<Rightarrow> Some (HostLstat path)
         | Some info \<Rightarrow>
             orElse (validateTrustedComponent fs path info finalFile (components = [])) (trustedChainLoop fs finalFile path components))"

text \<open>\<^verbatim>\<open>brokerUID\<close> and \<^verbatim>\<open>targetUID\<close> reach \<^verbatim>\<open>validateRootOwner\<close>, which does not use them.\<close>

definition validateTrustedChain :: "FileSystem \<Rightarrow> string \<Rightarrow> bool \<Rightarrow> hostError option" where
  "validateTrustedChain fs path finalFile =
     (if \<not> IsAbs path \<or> Clean path \<noteq> path then Some HostPath
      else trustedChainLoop fs finalFile [slash] (if path = [slash] then [] else splitOn slash (tl path)))"

definition host_ValidateExecution :: "FileSystem \<Rightarrow> ExecPlan \<Rightarrow> hostError option" where
  "host_ValidateExecution fs v =
     orElse (map_option HostExecutable (validateTrustedChain fs (sp_Executable v) True))
       (map_option HostWorkingDirectory (validateTrustedChain fs (sp_WorkingDirectory v) False))"

definition ValidateRootFile :: "FileSystem \<Rightarrow> string \<Rightarrow> hostError option" where
  "ValidateRootFile fs path =
     orElse (validateTrustedChain fs path True)
       (case fs_Lstat fs path of None \<Rightarrow> Some (HostNotRegular path)
        | Some info \<Rightarrow> failIf (fi_Kind info \<noteq> RegularFile) (HostNotRegular path))"

definition ValidateRootDirectory :: "FileSystem \<Rightarrow> string \<Rightarrow> hostError option" where
  "ValidateRootDirectory fs path = validateTrustedChain fs path False"

section \<open>Trusted paths\<close>

text \<open>Every element of a trusted path belongs to root, only root can write it, and it is what it should be.\<close>

definition trustedAt :: "FileSystem \<Rightarrow> string \<Rightarrow> bool \<Rightarrow> bool" where
  "trustedAt fs path file \<longleftrightarrow>
     (\<exists>info. fs_Lstat fs path = Some info \<and> fi_Uid info = 0 \<and> \<not> odd (fi_Perm info div 2) \<and> \<not> odd (fi_Perm info div 16)
        \<and> fi_Kind info = (if file then RegularFile else Directory))"

definition trustedPath :: "FileSystem \<Rightarrow> string \<Rightarrow> bool \<Rightarrow> bool" where
  "trustedPath fs path file \<longleftrightarrow>
     (\<forall>n. 0 < n \<longrightarrow> n \<le> length (elements path) \<longrightarrow>
        trustedAt fs (rendered True (take n (elements path))) (file \<and> n = length (elements path)))"

lemma validateTrustedComponent_trusted:
  "fs_Lstat fs p = Some info \<Longrightarrow> validateTrustedComponent fs p info file isLast = None \<Longrightarrow> trustedAt fs p (file \<and> isLast)"
  by (auto simp: validateTrustedComponent_def validateTrustedComponentOwnership_def validateTrustedComponentKind_def trustedAt_def
      validateRootOwner_def trustedRootOwner_def validateTrustedPermissions_def split: if_splits)

lemma trustedChainLoop_trusted:
  assumes "trustedChainLoop fs file (rendered True es) fs' = None" "list_all plainElement (es @ fs')" "0 < n" "n \<le> length fs'"
  shows "trustedAt fs (rendered True (es @ take n fs')) (file \<and> n = length fs')"
  using assms
proof (induction fs' arbitrary: es n)
  case (Cons f fs')
  have path: "Join (rendered True es) f = rendered True (es @ [f])"
    using Cons.prems(2) Join_rendered by simp
  from Cons.prems(1) obtain info where info: "fs_Lstat fs (rendered True (es @ [f])) = Some info"
    "validateTrustedComponent fs (rendered True (es @ [f])) info file (fs' = []) = None"
    "trustedChainLoop fs file (rendered True (es @ [f])) fs' = None"
    by (auto simp: path Let_def split: option.splits)
  show ?case
  proof (cases "n = 1")
    case True
    have "trustedAt fs (rendered True (es @ [f])) (file \<and> fs' = [])"
      by (rule validateTrustedComponent_trusted[OF info(1,2)])
    then show ?thesis
      using True by auto
  next
    case False
    then obtain m where m: "n = Suc m" "0 < m"
      using Cons.prems(3) by (cases n) auto
    then show ?thesis
      using Cons.IH[OF info(3), of m] Cons.prems(2,4) by simp
  qed
qed simp

lemma validateTrustedChain_trusted:
  assumes "validateTrustedChain fs path file = None"
  shows "trustedPath fs path file"
proof -
  have path: "IsAbs path" "Clean path = path"
    using assms by (auto simp: validateTrustedChain_def split: if_splits)
  obtain es where es: "list_all plainElement es" "path = rendered True es"
    using clean_rendered[OF path] .
  have "(if path = [slash] then [] else splitOn slash (tl path)) = es"
  proof (cases es)
    case Nil
    then show ?thesis
      using es(2) by (simp add: rendered_def)
  next
    case Cons
    then have "splitOn slash (joinWith slash es) = es"
      using es(1) split_join[of es slash] by (auto simp: plainElement_def list_all_iff)
    moreover have "path \<noteq> [slash]"
      using Cons es joinWith_snoc[of slash "butlast es" "last es"] by (auto simp: rendered_def plainElement_def split: if_splits)
    ultimately show ?thesis
      using es(2) by (simp add: rendered_def)
  qed
  then have "trustedChainLoop fs file (rendered True []) es = None"
    using assms path by (simp add: validateTrustedChain_def rendered_def)
  then show ?thesis
    using trustedChainLoop_trusted[where es = "[]" and fs' = es] es elements_rendered[OF es(1)] by (simp add: trustedPath_def)
qed

lemma host_ValidateExecution_trusted:
  "host_ValidateExecution fs v = None \<Longrightarrow> trustedPath fs (sp_Executable v) True \<and> trustedPath fs (sp_WorkingDirectory v) False"
  using validateTrustedChain_trusted by (auto simp: host_ValidateExecution_def)

end
