(* ===== verification/SudoExecutor.thy ===== *)
theory SudoExecutor
  imports SudoHost Programs
begin

text \<open>
  The privileged helper of the sudo broker: its wire protocol (\<^verbatim>\<open>brokers/sudo/internal/executorprotocol/protocol.go\<close>), the state that
  makes an execution happen once (\<^verbatim>\<open>executorserver/state.go\<close>) and the server (\<^verbatim>\<open>executorserver/server.go\<close>).

  \<^item> \<^verbatim>\<open>encoding/json\<close> on requests, responses and the state file is a parameter. The state file is the value it decodes to together with
    its size; writing it is atomic, and may fail before (\<open>WriteLost\<close>) or after (\<open>WriteUnsynced\<close>) the new content is in place.
  \<^item> A connection is a program whose actions are the calls on the peer, the clock, the state (one action per call: it holds the
    mutex), the files and the runner, so that connections interleave at these calls.
  \<^item> \<open>HelperOracle\<close> is what the surroundings supply to one action. \<open>HelperWorld\<close> is the state file and two records of the past: the
    commands handed to the runner, and the files and identities a plan was checked against.
\<close>

section \<open>Protocol\<close>

definition protocolVersion :: int where "protocolVersion = 1"
definition MaxFrameSize :: nat where "MaxFrameSize = 2097152"

definition TypePing :: string where "TypePing = ''ping''"
definition TypeExecute :: string where "TypeExecute = ''execute''"

definition StatusReady :: string where "StatusReady = ''ready''"
definition StatusCompleted :: string where "StatusCompleted = ''completed''"
definition StatusRejected :: string where "StatusRejected = ''rejected''"
definition StatusAmbiguous :: string where "StatusAmbiguous = ''ambiguous''"

record ExecRequest =
  xr_Version :: int
  xr_Type :: string
  xr_ExecutionID :: string
  xr_Plan :: string
  xr_PlanDigest :: string
  xr_GrantID :: string
  xr_ReservationID :: string
  xr_ExpiresAt :: gotime

record ExecOutcome =
  xo_Started :: bool
  xo_ExitCode :: int
  xo_Signal :: string
  xo_TimedOut :: bool
  xo_Truncated :: bool
  xo_Duration :: duration
  xo_Stdout :: string
  xo_Stderr :: string

record ExecResponse =
  xs_Version :: int
  xs_Status :: string
  xs_ExecutionID :: string
  xs_Outcome :: "ExecOutcome option"
  xs_ErrorCode :: string

datatype protocolError =
    ProtocolJSON | ProtocolSize | ProtocolShort | ProtocolVersion | ProtocolType | ProtocolPing | ProtocolIncomplete
  | ProtocolStatus | ProtocolReady | ProtocolCompleted | ProtocolAmbiguous | ProtocolErrorResponse

definition Ping :: ExecRequest where
  "Ping = \<lparr>xr_Version = protocolVersion, xr_Type = TypePing, xr_ExecutionID = [], xr_Plan = [], xr_PlanDigest = [], xr_GrantID = [],
           xr_ReservationID = [], xr_ExpiresAt = 0\<rparr>"

definition NewRejected :: "string \<Rightarrow> ExecResponse" where
  "NewRejected code =
     \<lparr>xs_Version = protocolVersion, xs_Status = StatusRejected, xs_ExecutionID = [], xs_Outcome = None, xs_ErrorCode = code\<rparr>"

definition NewAmbiguous :: "string \<Rightarrow> string \<Rightarrow> ExecResponse" where
  "NewAmbiguous executionID code =
     \<lparr>xs_Version = protocolVersion, xs_Status = StatusAmbiguous, xs_ExecutionID = executionID, xs_Outcome = None, xs_ErrorCode = code\<rparr>"

definition NewCompleted :: "string \<Rightarrow> ExecOutcome \<Rightarrow> ExecResponse" where
  "NewCompleted executionID outcome =
     \<lparr>xs_Version = protocolVersion, xs_Status = StatusCompleted, xs_ExecutionID = executionID, xs_Outcome = Some outcome, xs_ErrorCode = []\<rparr>"

definition idBreaks :: string where
  "idBreaks = [CHR 0x20, CHR 0x09, CHR 0x0D, CHR 0x0A]"

definition boundedID :: "string \<Rightarrow> bool" where
  "boundedID value = (1 \<le> length value \<and> length value \<le> 128 \<and> trimSpace value = value \<and> \<not> containsAny value idBreaks)"

definition safeCodeCharacter :: "char \<Rightarrow> bool" where
  "safeCodeCharacter c = (lowerChar c \<or> isDigit c \<or> c = CHR ''_'')"

definition safeCode :: "string \<Rightarrow> bool" where
  "safeCode value = (1 \<le> length value \<and> length value \<le> 64 \<and> list_all safeCodeCharacter value)"

definition validOutcome :: "ExecOutcome \<Rightarrow> bool" where
  "validOutcome out =
     (\<not> (xo_Duration out < 0 \<or> length (xo_Stdout out) + length (xo_Stderr out) > MaxFrameSize \<or> length (xo_Signal out) > 64)
      \<and> noControlRunes (xo_Signal out))"

definition validatePingRequest :: "ExecRequest \<Rightarrow> protocolError option" where
  "validatePingRequest req =
     failIf (xr_ExecutionID req \<noteq> [] \<or> xr_Plan req \<noteq> [] \<or> xr_PlanDigest req \<noteq> [] \<or> xr_GrantID req \<noteq> [] \<or> xr_ReservationID req \<noteq> []
             \<or> xr_ExpiresAt req \<noteq> 0) ProtocolPing"

definition validateExecuteRequest :: "ExecRequest \<Rightarrow> protocolError option" where
  "validateExecuteRequest req =
     failIf (\<not> boundedID (xr_ExecutionID req) \<or> xr_Plan req = [] \<or> xr_PlanDigest req = [] \<or> \<not> boundedID (xr_GrantID req)
             \<or> \<not> boundedID (xr_ReservationID req) \<or> xr_ExpiresAt req = 0) ProtocolIncomplete"

definition protocol_validateRequest :: "ExecRequest \<Rightarrow> protocolError option" where
  "protocol_validateRequest req =
     (if xr_Version req \<noteq> protocolVersion then Some ProtocolVersion
      else if xr_Type req = TypePing then validatePingRequest req
      else if xr_Type req = TypeExecute then validateExecuteRequest req
      else Some ProtocolType)"

definition validateReadyResponse :: "ExecResponse \<Rightarrow> protocolError option" where
  "validateReadyResponse resp = failIf (xs_ExecutionID resp \<noteq> [] \<or> xs_Outcome resp \<noteq> None \<or> xs_ErrorCode resp \<noteq> []) ProtocolReady"

definition validateCompletedResponse :: "ExecResponse \<Rightarrow> protocolError option" where
  "validateCompletedResponse resp =
     (case xs_Outcome resp of None \<Rightarrow> Some ProtocolCompleted
      | Some out \<Rightarrow> failIf (\<not> boundedID (xs_ExecutionID resp) \<or> xs_ErrorCode resp \<noteq> [] \<or> \<not> validOutcome out) ProtocolCompleted)"

definition validateErrorResponse :: "ExecResponse \<Rightarrow> protocolError option" where
  "validateErrorResponse resp =
     (if xs_Status resp = StatusAmbiguous \<and> \<not> boundedID (xs_ExecutionID resp) then Some ProtocolAmbiguous
      else failIf (xs_Outcome resp \<noteq> None \<or> \<not> safeCode (xs_ErrorCode resp)) ProtocolErrorResponse)"

definition validateResponse :: "ExecResponse \<Rightarrow> protocolError option" where
  "validateResponse resp =
     (if xs_Version resp \<noteq> protocolVersion then Some ProtocolVersion
      else if xs_Status resp = StatusReady then validateReadyResponse resp
      else if xs_Status resp = StatusCompleted then validateCompletedResponse resp
      else if xs_Status resp = StatusRejected \<or> xs_Status resp = StatusAmbiguous then validateErrorResponse resp
      else Some ProtocolStatus)"

text \<open>\<^verbatim>\<open>binary.BigEndian.PutUint32\<close> and \<^verbatim>\<open>Uint32\<close>.\<close>

definition putUint32 :: "nat \<Rightarrow> string" where
  "putUint32 n = [char_of (n div 16777216), char_of (n div 65536), char_of (n div 256), char_of n]"

definition readUint32 :: "string \<Rightarrow> nat" where
  "readUint32 header =
     (case header of [a, b, c, d] \<Rightarrow> byte a * 16777216 + byte b * 65536 + byte c * 256 + byte d | _ \<Rightarrow> 0)"

text \<open>The frame of a value with the text \<open>encode\<close> gives it. \<^verbatim>\<open>writeAll\<close> writes the whole of it or fails with the connection.\<close>

definition writeFrame :: "('v \<Rightarrow> string option) \<Rightarrow> 'v \<Rightarrow> protocolError + string" where
  "writeFrame encode value' =
     (case encode value' of None \<Rightarrow> Inl ProtocolJSON
      | Some data \<Rightarrow> if data = [] \<or> length data > MaxFrameSize then Inl ProtocolSize else Inr (putUint32 (length data) @ data))"

definition readFrameSize :: "string \<Rightarrow> protocolError + (nat \<times> string)" where
  "readFrameSize input =
     (if length input < 4 then Inl ProtocolShort
      else (let n = readUint32 (take 4 input)
            in if n = 0 \<or> n > MaxFrameSize then Inl ProtocolSize else Inr (n, drop 4 input)))"

definition readFrameData :: "string \<Rightarrow> nat \<Rightarrow> protocolError + string" where
  "readFrameData input n = (if length input < n then Inl ProtocolShort else Inr (take n input))"

definition decodeFrameData :: "(string \<Rightarrow> jsonValue option) \<Rightarrow> (string \<Rightarrow> 'v option) \<Rightarrow> string \<Rightarrow> protocolError + 'v" where
  "decodeFrameData json decode data =
     (if \<not> RejectDuplicateKeys json data then Inl ProtocolJSON
      else (case decode data of None \<Rightarrow> Inl ProtocolJSON | Some v \<Rightarrow> Inr v))"

definition readFrame :: "(string \<Rightarrow> jsonValue option) \<Rightarrow> (string \<Rightarrow> 'v option) \<Rightarrow> string \<Rightarrow> protocolError + 'v" where
  "readFrame json decode input =
     bindR (readFrameSize input) (\<lambda>(n, rest). bindR (readFrameData rest n) (decodeFrameData json decode))"

definition writeValidated :: "('v \<Rightarrow> string option) \<Rightarrow> ('v \<Rightarrow> protocolError option) \<Rightarrow> 'v \<Rightarrow> protocolError + string" where
  "writeValidated encode validate v = guardR (validate v) (writeFrame encode v)"

definition readValidated ::
  "(string \<Rightarrow> jsonValue option) \<Rightarrow> (string \<Rightarrow> 'v option) \<Rightarrow> ('v \<Rightarrow> protocolError option) \<Rightarrow> string \<Rightarrow> protocolError + 'v" where
  "readValidated json decode validate input = bindR (readFrame json decode input) (\<lambda>v. guardR (validate v) (Inr v))"

record ProtocolEnv =
  px_json :: "string \<Rightarrow> jsonValue option"
  px_requestText :: "ExecRequest \<Rightarrow> string option"
  px_request :: "string \<Rightarrow> ExecRequest option"
  px_responseText :: "ExecResponse \<Rightarrow> string option"
  px_response :: "string \<Rightarrow> ExecResponse option"

definition WriteRequest :: "ProtocolEnv \<Rightarrow> ExecRequest \<Rightarrow> protocolError + string" where
  "WriteRequest env = writeValidated (px_requestText env) protocol_validateRequest"

definition ReadRequest :: "ProtocolEnv \<Rightarrow> string \<Rightarrow> protocolError + ExecRequest" where
  "ReadRequest env = readValidated (px_json env) (px_request env) protocol_validateRequest"

definition WriteResponse :: "ProtocolEnv \<Rightarrow> ExecResponse \<Rightarrow> protocolError + string" where
  "WriteResponse env = writeValidated (px_responseText env) validateResponse"

definition ReadResponse :: "ProtocolEnv \<Rightarrow> string \<Rightarrow> protocolError + ExecResponse" where
  "ReadResponse env = readValidated (px_json env) (px_response env) validateResponse"

section \<open>Execution state\<close>

definition maxStateBytes :: nat where "maxStateBytes = 16777216"
definition maxStateRecords :: nat where "maxStateRecords = 100000"
definition completedRetention :: duration where "completedRetention = 30 * 24 * 3600 * second"

datatype ExecStatus = ExecutionClaimed | ExecutionStarted | ExecutionComplete | ExecutionOther string

record executionRecord =
  er_ID :: string
  er_PlanDigest :: string
  er_GrantID :: string
  er_ReservationID :: string
  er_Status :: ExecStatus
  er_ClaimedAt :: gotime
  er_StartedAt :: gotime
  er_CompletedAt :: gotime
  er_Outcome :: "ExecOutcome option"

record executionFile =
  ef_Version :: int
  ef_Executions :: "executionRecord list"

datatype stateError =
    StateConflict | StateUnreadable | StateSize | StateVersion | StateTooMany | StateRecord nat | StateCapacity | StateEncode | StateTooLarge
  | StateUnwritten | StateNotClaimable | StateNotCompletable | StateMissing

datatype writeResult = WriteDone | WriteLost | WriteUnsynced

text \<open>What \<^verbatim>\<open>os.ReadFile\<close> finds: nothing, or a file with its decoded value and its size.\<close>

type_synonym stateDisk = "(executionFile \<times> nat) option"

record StateEnv =
  se_proto :: ProtocolEnv
  se_encoded :: "executionFile \<Rightarrow> nat option"

definition boundedStateID :: "string \<Rightarrow> bool" where
  "boundedStateID value = (1 \<le> length value \<and> length value \<le> 128 \<and> trimSpace value = value \<and> noControlRunes value)"

definition validateExecutionBinding :: "executionRecord \<Rightarrow> bool" where
  "validateExecutionBinding rec =
     (boundedStateID (er_ID rec) \<and> plandigest_Valid (er_PlanDigest rec) \<and> boundedStateID (er_GrantID rec)
      \<and> boundedStateID (er_ReservationID rec) \<and> er_ClaimedAt rec \<noteq> 0)"

definition validateClaimedExecution :: "executionRecord \<Rightarrow> bool" where
  "validateClaimedExecution rec = (er_StartedAt rec = 0 \<and> er_CompletedAt rec = 0 \<and> er_Outcome rec = None)"

definition validateStartedExecution :: "executionRecord \<Rightarrow> bool" where
  "validateStartedExecution rec =
     (\<not> (er_StartedAt rec < er_ClaimedAt rec \<or> er_StartedAt rec = 0 \<or> er_CompletedAt rec \<noteq> 0 \<or> er_Outcome rec \<noteq> None))"

definition invalidCompletedExecutionTimes :: "executionRecord \<Rightarrow> bool" where
  "invalidCompletedExecutionTimes rec =
     (er_CompletedAt rec < er_ClaimedAt rec \<or> er_CompletedAt rec = 0 \<or> er_StartedAt rec = 0 \<or> er_StartedAt rec < er_ClaimedAt rec
      \<or> er_CompletedAt rec < er_StartedAt rec)"

definition validateCompletedExecution :: "StateEnv \<Rightarrow> executionRecord \<Rightarrow> bool" where
  "validateCompletedExecution env rec =
     (\<not> invalidCompletedExecutionTimes rec
      \<and> (case er_Outcome rec of None \<Rightarrow> False
         | Some out \<Rightarrow> (case WriteResponse (se_proto env) (NewCompleted (er_ID rec) out) of Inl _ \<Rightarrow> False | Inr _ \<Rightarrow> True)))"

text \<open>\<open>True\<close> is the nil error.\<close>

definition validateExecutionRecord :: "StateEnv \<Rightarrow> executionRecord \<Rightarrow> bool" where
  "validateExecutionRecord env rec =
     (validateExecutionBinding rec
      \<and> (case er_Status rec of
           ExecutionClaimed \<Rightarrow> validateClaimedExecution rec
         | ExecutionStarted \<Rightarrow> validateStartedExecution rec
         | ExecutionComplete \<Rightarrow> validateCompletedExecution env rec
         | ExecutionOther _ \<Rightarrow> False))"

fun validateExecutionLoop :: "StateEnv \<Rightarrow> nat \<Rightarrow> string list \<Rightarrow> executionRecord list \<Rightarrow> stateError option" where
  "validateExecutionLoop env index seen [] = None"
| "validateExecutionLoop env index seen (rec # recs) =
     (if er_ID rec \<in> set seen \<or> \<not> validateExecutionRecord env rec then Some (StateRecord index)
      else validateExecutionLoop env (Suc index) (er_ID rec # seen) recs)"

definition validateExecutionFile :: "StateEnv \<Rightarrow> executionFile \<Rightarrow> stateError option" where
  "validateExecutionFile env data =
     (if length (ef_Executions data) > maxStateRecords then Some StateTooMany else validateExecutionLoop env 0 [] (ef_Executions data))"

definition loadState :: "StateEnv \<Rightarrow> bool \<Rightarrow> stateDisk \<Rightarrow> stateError + executionFile" where
  "loadState env readable disk =
     (if \<not> readable then Inl StateUnreadable
      else (case disk of
              None \<Rightarrow> Inr \<lparr>ef_Version = 1, ef_Executions = []\<rparr>
            | Some (data, n) \<Rightarrow>
                if n = 0 \<or> n > maxStateBytes then Inl StateSize
                else if ef_Version data \<noteq> 1 then Inl StateVersion
                else guardR (validateExecutionFile env data) (Inr data)))"

definition saveState :: "StateEnv \<Rightarrow> writeResult \<Rightarrow> executionFile \<Rightarrow> stateDisk \<Rightarrow> stateDisk \<times> stateError option" where
  "saveState env write data0 disk =
     (let data = data0\<lparr>ef_Version := 1\<rparr>
      in if length (ef_Executions data) > maxStateRecords then (disk, Some StateTooMany)
         else (case se_encoded env data of
                 None \<Rightarrow> (disk, Some StateEncode)
               | Some n \<Rightarrow>
                   if n > maxStateBytes then (disk, Some StateTooLarge)
                   else (case write of
                           WriteDone \<Rightarrow> (Some (data, n + 1), None)
                         | WriteLost \<Rightarrow> (disk, Some StateUnwritten)
                         | WriteUnsynced \<Rightarrow> (Some (data, n + 1), Some StateUnwritten))))"

definition sameExecutionBinding :: "executionRecord \<Rightarrow> string \<Rightarrow> string \<Rightarrow> string \<Rightarrow> bool" where
  "sameExecutionBinding rec digest grantID reservationID =
     (er_PlanDigest rec = digest \<and> er_GrantID rec = grantID \<and> er_ReservationID rec = reservationID)"

definition findExecution :: "string \<Rightarrow> executionRecord list \<Rightarrow> executionRecord option" where
  "findExecution i recs = List.find (\<lambda>rec. er_ID rec = i) recs"

text \<open>\<^verbatim>\<open>lookup\<close>: the record, if there is one.\<close>

definition lookupState ::
  "StateEnv \<Rightarrow> bool \<Rightarrow> string \<Rightarrow> string \<Rightarrow> string \<Rightarrow> string \<Rightarrow> stateDisk \<Rightarrow> stateError + executionRecord option" where
  "lookupState env readable i digest grantID reservationID disk =
     bindR (loadState env readable disk) (\<lambda>data.
       case findExecution i (ef_Executions data) of
         None \<Rightarrow> Inr None
       | Some rec \<Rightarrow> if \<not> sameExecutionBinding rec digest grantID reservationID then Inl StateConflict else Inr (Some rec))"

definition pruneCompleted :: "executionRecord list \<Rightarrow> gotime \<Rightarrow> executionRecord list" where
  "pruneCompleted recs cutoff = filter (\<lambda>rec. \<not> (er_Status rec = ExecutionComplete \<and> er_CompletedAt rec < cutoff)) recs"

definition claimState ::
  "StateEnv \<Rightarrow> bool \<Rightarrow> writeResult \<Rightarrow> gotime \<Rightarrow> gotime \<Rightarrow> string \<Rightarrow> string \<Rightarrow> string \<Rightarrow> string \<Rightarrow> stateDisk
    \<Rightarrow> stateDisk \<times> (stateError + executionRecord \<times> bool)" where
  "claimState env readable write pruneNow claimNow i digest grantID reservationID disk =
     (case loadState env readable disk of
        Inl e \<Rightarrow> (disk, Inl e)
      | Inr data \<Rightarrow>
          (let kept = pruneCompleted (ef_Executions data) (pruneNow - completedRetention)
           in case findExecution i kept of
                Some rec \<Rightarrow>
                  (disk, if \<not> sameExecutionBinding rec digest grantID reservationID then Inl StateConflict else Inr (rec, False))
              | None \<Rightarrow>
                  if length kept \<ge> maxStateRecords then (disk, Inl StateCapacity)
                  else (let rec = \<lparr>er_ID = i, er_PlanDigest = digest, er_GrantID = grantID, er_ReservationID = reservationID,
                                   er_Status = ExecutionClaimed, er_ClaimedAt = claimNow, er_StartedAt = 0, er_CompletedAt = 0,
                                   er_Outcome = None\<rparr>
                        in case saveState env write (data\<lparr>ef_Executions := kept @ [rec]\<rparr>) disk of
                             (disk', Some e) \<Rightarrow> (disk', Inl e)
                           | (disk', None) \<Rightarrow> (disk', Inr (rec, True)))))"

fun updateFirst :: "string \<Rightarrow> executionRecord \<Rightarrow> executionRecord list \<Rightarrow> executionRecord list" where
  "updateFirst i rec' [] = []"
| "updateFirst i rec' (rec # recs) = (if er_ID rec = i then rec' # recs else rec # updateFirst i rec' recs)"

definition updateState ::
  "StateEnv \<Rightarrow> bool \<Rightarrow> writeResult \<Rightarrow> string \<Rightarrow> (executionRecord \<Rightarrow> stateError + executionRecord) \<Rightarrow> stateDisk \<Rightarrow> stateDisk \<times> stateError option" where
  "updateState env readable write i mutate disk =
     (case loadState env readable disk of
        Inl e \<Rightarrow> (disk, Some e)
      | Inr data \<Rightarrow>
          (case findExecution i (ef_Executions data) of
             None \<Rightarrow> (disk, Some StateMissing)
           | Some rec \<Rightarrow>
               (case mutate rec of
                  Inl e \<Rightarrow> (disk, Some e)
                | Inr rec' \<Rightarrow> saveState env write (data\<lparr>ef_Executions := updateFirst i rec' (ef_Executions data)\<rparr>) disk)))"

definition markStarted :: "StateEnv \<Rightarrow> bool \<Rightarrow> writeResult \<Rightarrow> gotime \<Rightarrow> string \<Rightarrow> stateDisk \<Rightarrow> stateDisk \<times> stateError option" where
  "markStarted env readable write now i =
     updateState env readable write i (\<lambda>rec.
       if er_Status rec \<noteq> ExecutionClaimed then Inl StateNotClaimable
       else Inr (rec\<lparr>er_Status := ExecutionStarted, er_StartedAt := now\<rparr>))"

definition completeState ::
  "StateEnv \<Rightarrow> bool \<Rightarrow> writeResult \<Rightarrow> gotime \<Rightarrow> string \<Rightarrow> ExecOutcome \<Rightarrow> stateDisk \<Rightarrow> stateDisk \<times> stateError option" where
  "completeState env readable write now i out =
     updateState env readable write i (\<lambda>rec.
       if er_Status rec \<noteq> ExecutionStarted then Inl StateNotCompletable
       else Inr (rec\<lparr>er_Status := ExecutionComplete, er_CompletedAt := now, er_Outcome := Some out\<rparr>))"

section \<open>Server\<close>

record HelperConfig =
  hc_catalog :: Snapshot
  hc_cenv :: CatalogEnv
  hc_plans :: PlanEnv
  hc_state :: StateEnv
  hc_expectedPeerUID :: int
  hc_requestTimeout :: duration
  hc_maxConnections :: int

record HelperOracle =
  ho_now :: gotime
  ho_later :: gotime
  ho_peer :: "int option"
  ho_input :: string
  ho_files :: FileSystem
  ho_identities :: IdentityResolver
  ho_readable :: bool
  ho_write :: writeResult
  ho_outcome :: ExecOutcome
  ho_runFails :: bool

record HelperRun =
  run_ID :: string
  run_Plan :: ExecPlan
  run_At :: gotime
  run_Deadline :: gotime

record HelperWorld =
  hw_disk :: stateDisk
  hw_runs :: "HelperRun list"
  hw_checks :: "(ExecPlan \<times> FileSystem \<times> IdentityResolver) list"

type_synonym 'a helper = "(HelperOracle, HelperWorld, 'a) program"

definition defaultMaxConnections :: int where "defaultMaxConnections = 32"

definition serverRequestTimeout :: "duration \<Rightarrow> duration" where
  "serverRequestTimeout v = (if v > 0 then v else 10 * second)"

definition serverMaxConnections :: "int \<Rightarrow> int option" where
  "serverMaxConnections v0 = (let v = (if v0 \<le> 0 then defaultMaxConnections else v0) in if v > 1024 then None else Some v)"

definition knownPeer :: "int \<Rightarrow> int \<Rightarrow> bool" where
  "knownPeer uid expected = (uid = expected \<or> uid = 0)"

definition peerMayExecute :: "int \<Rightarrow> int \<Rightarrow> bool" where
  "peerMayExecute uid expected = (uid = expected)"

definition digestOf :: "HelperConfig \<Rightarrow> string \<Rightarrow> string" where
  "digestOf cfg = ae_digest (ple_agent (hc_plans cfg))"

text \<open>A rejection code, or \<open>None\<close> for the empty string.\<close>

definition validateRequestEnvelope :: "HelperConfig \<Rightarrow> ExecRequest \<Rightarrow> gotime \<Rightarrow> string option" where
  "validateRequestEnvelope cfg req now =
     (if \<not> xr_ExpiresAt req > now then Some ''request_expired''
      else if digestOf cfg (xr_Plan req) \<noteq> xr_PlanDigest req then Some ''plan_digest_mismatch''
      else None)"

text \<open>\<^verbatim>\<open>t.Sub(u)\<close> saturates at the bounds of a \<^verbatim>\<open>time.Duration\<close>.\<close>

definition timeSub :: "gotime \<Rightarrow> gotime \<Rightarrow> duration" where
  "timeSub t u = max (- (2 ^ 63)) (min (2 ^ 63 - 1) (t - u))"

definition filesNow :: "HelperConfig \<Rightarrow> FileSystem \<Rightarrow> CatalogEnv" where
  "filesNow cfg fs = (hc_cenv cfg)\<lparr>ce_fs := fs\<rparr>"

definition checkRequest :: "HelperConfig \<Rightarrow> ExecRequest \<Rightarrow> ExecPlan \<Rightarrow> gotime \<Rightarrow> FileSystem \<Rightarrow> IdentityResolver \<Rightarrow> string option" where
  "checkRequest cfg req v now fs identities =
     (if timeSub (xr_ExpiresAt req) now > wrap64 (sp_RequestedDurationSeconds v * second) then Some ''invalid_expiry''
      else if ValidateForHelper (filesNow cfg fs) v (hc_catalog cfg) identities \<noteq> None then Some ''plan_drift''
      else if host_ValidateExecution fs v \<noteq> None then Some ''unsafe_host_path''
      else None)"

definition validateExecutableRequest :: "HelperConfig \<Rightarrow> ExecRequest \<Rightarrow> ExecPlan \<Rightarrow> gotime \<Rightarrow> string option helper" where
  "validateExecutableRequest cfg req v now =
     atom (\<lambda>orc w. (w\<lparr>hw_checks := hw_checks w @ [(v, ho_files orc, ho_identities orc)]\<rparr>,
                    checkRequest cfg req v now (ho_files orc) (ho_identities orc)))"

definition executionStateResult :: "stateError + 'a \<Rightarrow> string + 'a" where
  "executionStateResult r =
     (case r of Inl e \<Rightarrow> Inl (if e = StateConflict then ''execution_id_conflict'' else ''state_unavailable'') | Inr x \<Rightarrow> Inr x)"

definition lookupExistingExecution :: "HelperConfig \<Rightarrow> ExecRequest \<Rightarrow> (string + executionRecord option) helper" where
  "lookupExistingExecution cfg req =
     atom (\<lambda>orc w. (w, executionStateResult (lookupState (hc_state cfg) (ho_readable orc) (xr_ExecutionID req) (xr_PlanDigest req)
                         (xr_GrantID req) (xr_ReservationID req) (hw_disk w))))"

definition claimExecution :: "HelperConfig \<Rightarrow> ExecRequest \<Rightarrow> (string + executionRecord \<times> bool) helper" where
  "claimExecution cfg req =
     atom (\<lambda>orc w. case claimState (hc_state cfg) (ho_readable orc) (ho_write orc) (ho_now orc) (ho_later orc) (xr_ExecutionID req)
                          (xr_PlanDigest req) (xr_GrantID req) (xr_ReservationID req) (hw_disk w) of
                     (disk, r) \<Rightarrow> (w\<lparr>hw_disk := disk\<rparr>, executionStateResult r))"

definition startExecution :: "HelperConfig \<Rightarrow> string \<Rightarrow> stateError option helper" where
  "startExecution cfg i =
     atom (\<lambda>orc w. case markStarted (hc_state cfg) (ho_readable orc) (ho_write orc) (ho_now orc) i (hw_disk w) of
                     (disk, e) \<Rightarrow> (w\<lparr>hw_disk := disk\<rparr>, e))"

definition completeExecution :: "HelperConfig \<Rightarrow> string \<Rightarrow> ExecOutcome \<Rightarrow> stateError option helper" where
  "completeExecution cfg i out =
     atom (\<lambda>orc w. case completeState (hc_state cfg) (ho_readable orc) (ho_write orc) (ho_now orc) i out (hw_disk w) of
                     (disk, e) \<Rightarrow> (w\<lparr>hw_disk := disk\<rparr>, e))"

definition executionReplayResponse :: "string \<Rightarrow> executionRecord \<Rightarrow> ExecResponse" where
  "executionReplayResponse i rec =
     (case er_Outcome rec of
        Some out \<Rightarrow> if er_Status rec = ExecutionComplete then NewCompleted i out else NewAmbiguous i ''execution_incomplete''
      | None \<Rightarrow> NewAmbiguous i ''execution_incomplete'')"

definition commandDeadline :: "gotime \<Rightarrow> int \<Rightarrow> gotime \<Rightarrow> gotime" where
  "commandDeadline requestDeadline timeoutSeconds now =
     (let deadline = now + wrap64 (timeoutSeconds * second) in if deadline < requestDeadline then deadline else requestDeadline)"

definition notStarted :: ExecOutcome where
  "notStarted = \<lparr>xo_Started = False, xo_ExitCode = 0, xo_Signal = [], xo_TimedOut = False, xo_Truncated = False, xo_Duration = 0,
                 xo_Stdout = [], xo_Stderr = []\<rparr>"

text \<open>The call of the runner is recorded with its time and the deadline of its context.\<close>

definition runClaimedExecution :: "HelperConfig \<Rightarrow> ExecRequest \<Rightarrow> ExecPlan \<Rightarrow> gotime \<Rightarrow> ExecOutcome helper" where
  "runClaimedExecution cfg req v now =
     atom (\<lambda>orc w. (w\<lparr>hw_runs := hw_runs w @ [\<lparr>run_ID = xr_ExecutionID req, run_Plan = v, run_At = ho_now orc,
                                              run_Deadline = commandDeadline (xr_ExpiresAt req) (sp_TimeoutSeconds v) now\<rparr>]\<rparr>,
                    if ho_runFails orc \<and> \<not> xo_Started (ho_outcome orc) then notStarted else ho_outcome orc))"

definition executeFresh :: "HelperConfig \<Rightarrow> ExecRequest \<Rightarrow> ExecPlan \<Rightarrow> gotime \<Rightarrow> ExecResponse helper" where
  "executeFresh cfg req v now =
     bindP (claimExecution cfg req) (\<lambda>r.
       case r of
         Inl rejection \<Rightarrow> Ret (NewRejected rejection)
       | Inr (rec, claimed) \<Rightarrow>
           if \<not> claimed then Ret (executionReplayResponse (xr_ExecutionID req) rec)
           else bindP (startExecution cfg (xr_ExecutionID req)) (\<lambda>e.
                  if e \<noteq> None then Ret (NewAmbiguous (xr_ExecutionID req) ''state_unavailable'')
                  else bindP (runClaimedExecution cfg req v now) (\<lambda>out.
                         bindP (completeExecution cfg (xr_ExecutionID req) out) (\<lambda>e.
                           if e \<noteq> None then Ret (NewAmbiguous (xr_ExecutionID req) ''result_unavailable'')
                           else Ret (NewCompleted (xr_ExecutionID req) out)))))"

definition readNow :: "gotime helper" where
  "readNow = atom (\<lambda>orc w. (w, ho_now orc))"

text \<open>\<^verbatim>\<open>Server.execute\<close>.\<close>

definition helperExecute :: "HelperConfig \<Rightarrow> ExecRequest \<Rightarrow> ExecResponse helper" where
  "helperExecute cfg req =
     bindP readNow (\<lambda>now.
       case validateRequestEnvelope cfg req now of
         Some rejection \<Rightarrow> Ret (NewRejected rejection)
       | None \<Rightarrow>
           (case decodePlan (hc_plans cfg) (xr_Plan req) of
              Inl _ \<Rightarrow> Ret (NewRejected ''invalid_plan'')
            | Inr v \<Rightarrow>
                bindP (lookupExistingExecution cfg req) (\<lambda>r.
                  case r of
                    Inl rejection \<Rightarrow> Ret (NewRejected rejection)
                  | Inr (Some existing) \<Rightarrow> Ret (executionReplayResponse (xr_ExecutionID req) existing)
                  | Inr None \<Rightarrow>
                      bindP (validateExecutableRequest cfg req v now) (\<lambda>rejection.
                        case rejection of
                          Some code \<Rightarrow> Ret (NewRejected code)
                        | None \<Rightarrow> executeFresh cfg req v now))))"

definition readyResponse :: ExecResponse where
  "readyResponse = \<lparr>xs_Version = protocolVersion, xs_Status = StatusReady, xs_ExecutionID = [], xs_Outcome = None, xs_ErrorCode = []\<rparr>"

definition helperHandle :: "HelperConfig \<Rightarrow> ExecResponse helper" where
  "helperHandle cfg =
     bindP (atom (\<lambda>orc w. (w, ho_peer orc))) (\<lambda>peer.
       case peer of
         None \<Rightarrow> Ret (NewRejected ''peer_not_authorized'')
       | Some uid \<Rightarrow>
           if \<not> knownPeer uid (hc_expectedPeerUID cfg) then Ret (NewRejected ''peer_not_authorized'')
           else bindP (atom (\<lambda>orc w. (w, ReadRequest (se_proto (hc_state cfg)) (ho_input orc)))) (\<lambda>r.
                  case r of
                    Inl _ \<Rightarrow> Ret (NewRejected ''invalid_request'')
                  | Inr req \<Rightarrow>
                      if xr_Type req = TypePing then Ret readyResponse
                      else if \<not> peerMayExecute uid (hc_expectedPeerUID cfg) then Ret (NewRejected ''peer_not_authorized'')
                      else helperExecute cfg req))"

text \<open>
  \<^verbatim>\<open>handleConnection\<close>: one deadline for the whole exchange, set before the request is read. The response reaches the peer when it can
  be framed and the deadline has not passed.
\<close>

definition handleConnection :: "HelperConfig \<Rightarrow> ExecResponse option helper" where
  "handleConnection cfg =
     bindP readNow (\<lambda>started.
       bindP (helperHandle cfg) (\<lambda>response.
         bindP readNow (\<lambda>now.
           Ret (case WriteResponse (se_proto (hc_state cfg)) response of
                  Inl _ \<Rightarrow> None
                | Inr _ \<Rightarrow> if now < started + hc_requestTimeout cfg then Some response else None))))"

text \<open>\<^verbatim>\<open>Serve\<close>: a connection is handled when a slot is free, and is told that the server is busy otherwise.\<close>

definition acceptConnection :: "HelperConfig \<Rightarrow> nat \<Rightarrow> ExecResponse option helper" where
  "acceptConnection cfg busy =
     (if int busy < hc_maxConnections cfg then handleConnection cfg else Ret (Some (NewRejected ''server_busy'')))"

end
