(* ===== verification/SudoExecutorSafety.thy ===== *)
theory SudoExecutorSafety
  imports SudoExecutor
begin

text \<open>
  The helper as a system: any number of connections, interleaved at their actions, with a crash at any point. A connection that
  claimed an execution owns the record of it until it has answered (\<open>Phase\<close>), and it knows of the checks it made. Each action keeps
  the invariant and what the other connections own, so that the logic of interleaved programs (\<open>ownership\<close>) applies.
\<close>

section \<open>What a connection owns\<close>

datatype Phase = Idle | Claimed string | Started string | Ran string

type_synonym checked = "(ExecPlan \<times> FileSystem \<times> IdentityResolver) list"

fun phaseID :: "Phase \<Rightarrow> string option" where
  "phaseID Idle = None"
| "phaseID (Claimed i) = Some i"
| "phaseID (Started i) = Some i"
| "phaseID (Ran i) = Some i"

definition recordsOf :: "stateDisk \<Rightarrow> executionRecord list" where
  "recordsOf disk = (case disk of None \<Rightarrow> [] | Some (data, _) \<Rightarrow> ef_Executions data)"

definition onDisk :: "stateDisk \<Rightarrow> string \<Rightarrow> ExecStatus \<Rightarrow> bool" where
  "onDisk disk i status \<longleftrightarrow> (\<exists>rec\<in>set (recordsOf disk). er_ID rec = i \<and> er_Status rec = status)"

text \<open>A run that is over for longer than completed records are kept.\<close>

definition longAgo :: "HelperRun \<Rightarrow> gotime \<Rightarrow> bool" where
  "longAgo run t \<longleftrightarrow> run_At run + completedRetention < t"

definition priorRuns :: "string \<Rightarrow> HelperWorld \<Rightarrow> gotime \<Rightarrow> bool" where
  "priorRuns i w t \<longleftrightarrow> (\<forall>run\<in>set (hw_runs w). run_ID run = i \<longrightarrow> longAgo run t)"

fun phaseOwns :: "gotime \<Rightarrow> HelperWorld \<Rightarrow> Phase \<Rightarrow> bool" where
  "phaseOwns t w Idle = True"
| "phaseOwns t w (Claimed i) = (onDisk (hw_disk w) i ExecutionClaimed \<and> priorRuns i w t)"
| "phaseOwns t w (Started i) = (onDisk (hw_disk w) i ExecutionStarted \<and> priorRuns i w t)"
| "phaseOwns t w (Ran i) = onDisk (hw_disk w) i ExecutionStarted"

definition helperOwns :: "gotime \<Rightarrow> HelperWorld \<Rightarrow> Phase \<times> checked \<Rightarrow> bool" where
  "helperOwns t w \<gamma> \<longleftrightarrow> phaseOwns t w (fst \<gamma>) \<and> set (snd \<gamma>) \<subseteq> set (hw_checks w)"

definition helperApart :: "Phase \<times> checked \<Rightarrow> Phase \<times> checked \<Rightarrow> bool" where
  "helperApart \<gamma> \<delta> \<longleftrightarrow> phaseID (fst \<gamma>) = None \<or> phaseID (fst \<delta>) = None \<or> phaseID (fst \<gamma>) \<noteq> phaseID (fst \<delta>)"

text \<open>The record of a run is kept until the run is long ago.\<close>

definition runKept :: "stateDisk \<Rightarrow> gotime \<Rightarrow> HelperRun \<Rightarrow> bool" where
  "runKept disk t run \<longleftrightarrow>
     longAgo run t
     \<or> (\<exists>rec\<in>set (recordsOf disk). er_ID rec = run_ID run
          \<and> (er_Status rec = ExecutionStarted \<or> er_Status rec = ExecutionComplete \<and> run_At run \<le> er_CompletedAt rec))"

text \<open>What has run was checked against the catalog, the identities and the files.\<close>

definition passed :: "HelperConfig \<Rightarrow> ExecPlan \<Rightarrow> FileSystem \<Rightarrow> IdentityResolver \<Rightarrow> bool" where
  "passed cfg v fs identities \<longleftrightarrow>
     ValidateForHelper (filesNow cfg fs) v (hc_catalog cfg) identities = None \<and> host_ValidateExecution fs v = None"

definition runChecked :: "HelperConfig \<Rightarrow> checked \<Rightarrow> HelperRun \<Rightarrow> bool" where
  "runChecked cfg cs run \<longleftrightarrow> (\<exists>fs identities. (run_Plan run, fs, identities) \<in> set cs \<and> passed cfg (run_Plan run) fs identities)"

definition spaced :: "HelperRun \<Rightarrow> HelperRun \<Rightarrow> bool" where
  "spaced a b \<longleftrightarrow> (run_ID a = run_ID b \<longrightarrow> run_At a + completedRetention < run_At b)"

definition helperInv :: "HelperConfig \<Rightarrow> gotime \<Rightarrow> HelperWorld \<Rightarrow> bool" where
  "helperInv cfg t w \<longleftrightarrow>
     (\<forall>run\<in>set (hw_runs w). run_At run \<le> t \<and> runKept (hw_disk w) t run \<and> runChecked cfg (hw_checks w) run)
     \<and> sorted_wrt spaced (hw_runs w)"

text \<open>The clock of the helper does not run backwards.\<close>

definition clocked :: "gotime \<Rightarrow> gotime \<Rightarrow> HelperOracle \<Rightarrow> bool" where
  "clocked t t' orc \<longleftrightarrow> t \<le> ho_now orc \<and> ho_now orc \<le> ho_later orc \<and> ho_later orc \<le> t'"

interpretation helper: ownership "helperInv cfg" helperOwns helperApart "(Idle, [])" clocked
  for cfg
  by unfold_locales (auto simp: helperOwns_def helperApart_def)

lemmas keepsI = helper.keeps_def[THEN iffD2, OF conjI]

section \<open>Time and the state file\<close>

lemma longAgo_mono: "longAgo run t \<Longrightarrow> t \<le> t' \<Longrightarrow> longAgo run t'"
  by (simp add: longAgo_def)

lemma priorRuns_mono: "priorRuns i w t \<Longrightarrow> t \<le> t' \<Longrightarrow> priorRuns i w t'"
  by (auto simp: priorRuns_def intro: longAgo_mono)

text \<open>
  A step between two contents of the state file that leaves the records of other executions, except those completed long enough
  ago.
\<close>

definition diskMoves :: "string \<Rightarrow> gotime \<Rightarrow> executionRecord list \<Rightarrow> executionRecord list \<Rightarrow> bool" where
  "diskMoves i t recs recs' \<longleftrightarrow>
     (\<forall>rec\<in>set recs. er_ID rec \<noteq> i \<longrightarrow>
        rec \<in> set recs' \<or> (er_Status rec = ExecutionComplete \<and> er_CompletedAt rec + completedRetention < t))"

lemma phaseOwns_other:
  assumes "phaseOwns t w \<delta>" "phaseID \<delta> \<noteq> Some i" "diskMoves i t' (recordsOf (hw_disk w)) (recordsOf (hw_disk w'))"
    and "hw_runs w' = hw_runs w" "t \<le> t'"
  shows "phaseOwns t' w' \<delta>"
proof -
  have "onDisk (hw_disk w') j status" if "onDisk (hw_disk w) j status" "j \<noteq> i" "status \<noteq> ExecutionComplete" for j status
    using that assms(3) unfolding onDisk_def diskMoves_def by metis
  moreover have "priorRuns j w' t'" if "priorRuns j w t" for j
    using priorRuns_mono[OF that assms(5)] assms(4) by (simp add: priorRuns_def)
  ultimately show ?thesis
    using assms(1,2) by (cases \<delta>) auto
qed

lemma helperInv_disk:
  assumes "helperInv cfg t w" "diskMoves i t' (recordsOf (hw_disk w)) (recordsOf (hw_disk w'))" "t \<le> t'"
    and "hw_runs w' = hw_runs w" "hw_checks w' = hw_checks w"
    and "\<And>run. run \<in> set (hw_runs w) \<Longrightarrow> run_ID run = i \<Longrightarrow> runKept (hw_disk w') t' run"
  shows "helperInv cfg t' w'"
proof -
  have "runKept (hw_disk w') t' run" if run: "run \<in> set (hw_runs w)" for run
  proof (cases "run_ID run = i \<or> longAgo run t")
    case False
    then obtain rec where rec: "rec \<in> set (recordsOf (hw_disk w))" "er_ID rec = run_ID run"
      "er_Status rec = ExecutionStarted \<or> er_Status rec = ExecutionComplete \<and> run_At run \<le> er_CompletedAt rec"
      using assms(1) run by (auto simp: helperInv_def runKept_def)
    show ?thesis
    proof (cases "rec \<in> set (recordsOf (hw_disk w'))")
      case True
      then show ?thesis
        using rec by (auto simp: runKept_def)
    next
      case gone: False
      then have "er_Status rec = ExecutionComplete" "er_CompletedAt rec + completedRetention < t'"
        using False rec assms(2) unfolding diskMoves_def by auto
      then have "longAgo run t'"
        using rec(3) by (auto simp: longAgo_def)
      then show ?thesis
        by (simp add: runKept_def)
    qed
  next
    case True
    then show ?thesis
      using assms(6)[OF run] longAgo_mono[OF _ assms(3)] by (auto simp: runKept_def)
  qed
  then show ?thesis
    using assms(1,3,4,5) by (auto simp: helperInv_def runKept_def dest!: bspec)
qed

lemma diskMoves_same [simp]: "diskMoves i t recs recs"
  by (simp add: diskMoves_def)

text \<open>A step that leaves the state file and the runs alone.\<close>

lemma still_keeps:
  assumes "helperInv cfg t w" "helperOwns t w \<gamma>" "clocked t t' orc"
    and "hw_disk w' = hw_disk w" "hw_runs w' = hw_runs w" "set (hw_checks w) \<subseteq> set (hw_checks w')"
    and "fst \<gamma>' = fst \<gamma>" "set (snd \<gamma>') \<subseteq> set (hw_checks w')"
  shows "helper.keeps cfg t w \<gamma> t' w' \<gamma>'"
proof -
  have t: "t \<le> t'"
    using assms(3) by (auto simp: clocked_def)
  have owns: "phaseOwns t' w' \<delta>" if "phaseOwns t w \<delta>" for \<delta>
  proof (cases "phaseID \<delta>")
    case None
    then show ?thesis
      by (cases \<delta>) auto
  next
    case (Some i)
    obtain j where "j \<noteq> i"
      by (metis list.distinct(1))
    then show ?thesis
      using phaseOwns_other[OF that, of j t' w'] Some assms(4,5) t by simp
  qed
  have "helperInv cfg t' w'"
    using assms(1,4,5,6) t longAgo_mono[OF _ t] by (fastforce simp: helperInv_def runKept_def runChecked_def)
  then show ?thesis
    using owns assms(2,6,7,8) unfolding helper.keeps_def helperOwns_def helperApart_def by auto
qed

section \<open>The calls on the state\<close>

lemma validateExecutionLoop_distinct:
  "validateExecutionLoop env k seen recs = None \<Longrightarrow> distinct (map er_ID recs) \<and> set (map er_ID recs) \<inter> set seen = {}"
  by (induction env k seen recs rule: validateExecutionLoop.induct) (auto split: if_splits)

lemma loadState_records:
  "loadState env readable disk = Inr data \<Longrightarrow> ef_Executions data = recordsOf disk \<and> distinct (map er_ID (recordsOf disk))"
  using validateExecutionLoop_distinct
  by (fastforce simp: loadState_def recordsOf_def validateExecutionFile_def split: if_splits option.splits prod.splits)

lemma saveState_cases:
  assumes "saveState env write data disk = (disk', e)"
  shows "disk' = disk \<and> e \<noteq> None \<or> recordsOf disk' = ef_Executions data"
  using assms by (auto simp: saveState_def Let_def recordsOf_def split: if_splits option.splits writeResult.splits)

lemma find_record: "findExecution i recs = Some rec \<Longrightarrow> rec \<in> set recs \<and> er_ID rec = i"
  by (auto simp: findExecution_def find_Some_iff)

lemma find_no_record: "findExecution i recs = None \<longleftrightarrow> (\<forall>rec\<in>set recs. er_ID rec \<noteq> i)"
  by (auto simp: findExecution_def find_None_iff)

lemma updateFirst_set:
  assumes "distinct (map er_ID recs)" "rec \<in> set recs" "er_ID rec = i"
  shows "set (updateFirst i rec' recs) = insert rec' (set recs - {rec})"
  using assms by (induction recs) (auto simp: image_iff)

text \<open>\<open>claimState\<close> leaves the file alone, or no record of the execution is younger than the retention, and it now has one.\<close>

lemma claimState_effect:
  assumes "claimState env readable write pruneNow claimNow i digest grant reservation disk = (disk', r)" and "pruneNow \<le> t'"
  obtains "disk' = disk" "\<And>rec. r \<noteq> Inr (rec, True)"
    | "diskMoves i t' (recordsOf disk) (recordsOf disk')" "onDisk disk' i ExecutionClaimed"
      "\<forall>rec\<in>set (recordsOf disk). er_ID rec = i \<longrightarrow> er_Status rec = ExecutionComplete \<and> er_CompletedAt rec + completedRetention < t'"
proof (cases "loadState env readable disk")
  case (Inl e)
  then show ?thesis
    using that(1) assms(1) by (auto simp: claimState_def)
next
  case (Inr data)
  note recs = loadState_records[OF Inr]
  define kept where "kept = pruneCompleted (recordsOf disk) (pruneNow - completedRetention)"
  have kept: "rec \<in> set kept \<or> er_Status rec = ExecutionComplete \<and> er_CompletedAt rec + completedRetention < t'"
    if "rec \<in> set (recordsOf disk)" for rec
    using that assms(2) by (auto simp: kept_def pruneCompleted_def)
  show ?thesis
  proof (cases "findExecution i kept")
    case (Some rec)
    then show ?thesis
      using that(1) assms(1) Inr recs by (auto simp: claimState_def Let_def kept_def split: if_splits)
  next
    case None
    let ?rec = "\<lparr>er_ID = i, er_PlanDigest = digest, er_GrantID = grant, er_ReservationID = reservation, er_Status = ExecutionClaimed,
      er_ClaimedAt = claimNow, er_StartedAt = 0, er_CompletedAt = 0, er_Outcome = None\<rparr>"
    show ?thesis
    proof (cases "length kept \<ge> maxStateRecords")
      case True
      then show ?thesis
        using that(1) assms(1) Inr recs None by (auto simp: claimState_def Let_def kept_def)
    next
      case False
      obtain e where save: "saveState env write (data\<lparr>ef_Executions := kept @ [?rec]\<rparr>) disk = (disk', e)"
        "r = (case e of Some x \<Rightarrow> Inl x | None \<Rightarrow> Inr (?rec, True))"
        using assms(1) Inr recs None False by (auto simp: claimState_def Let_def kept_def split: prod.splits option.splits)
      from saveState_cases[OF save(1)] show ?thesis
      proof
        assume "disk' = disk \<and> e \<noteq> None"
        then show ?thesis
          using that(1) save(2) by auto
      next
        assume "recordsOf disk' = ef_Executions (data\<lparr>ef_Executions := kept @ [?rec]\<rparr>)"
        then have disk': "recordsOf disk' = kept @ [?rec]"
          by simp
        show ?thesis
        proof (rule that(2))
          show "diskMoves i t' (recordsOf disk) (recordsOf disk')"
            using kept disk' by (auto simp: diskMoves_def)
          show "onDisk disk' i ExecutionClaimed"
            using disk' by (auto simp: onDisk_def)
          show "\<forall>rec\<in>set (recordsOf disk). er_ID rec = i \<longrightarrow>
              er_Status rec = ExecutionComplete \<and> er_CompletedAt rec + completedRetention < t'"
            using kept None find_no_record by blast
        qed
      qed
    qed
  qed
qed

text \<open>An update leaves the file alone, or replaces the one record of the execution by its mutation.\<close>

lemma updateState_effect:
  assumes "updateState env readable write i mutate disk = (disk', e)" and "\<And>rec rec'. mutate rec = Inr rec' \<Longrightarrow> er_ID rec' = er_ID rec"
  obtains "disk' = disk" "e \<noteq> None"
    | rec rec' where "rec \<in> set (recordsOf disk)" "er_ID rec = i" "mutate rec = Inr rec'" "rec' \<in> set (recordsOf disk')"
      "\<And>t. diskMoves i t (recordsOf disk) (recordsOf disk')" "\<forall>x\<in>set (recordsOf disk). er_ID x = i \<longrightarrow> x = rec"
proof (cases "loadState env readable disk")
  case (Inl e')
  then show ?thesis
    using that(1) assms(1) by (auto simp: updateState_def)
next
  case (Inr data)
  note recs = loadState_records[OF Inr]
  show ?thesis
  proof (cases "findExecution i (recordsOf disk)")
    case None
    then show ?thesis
      using that(1) assms(1) Inr recs by (auto simp: updateState_def)
  next
    case (Some rec)
    note rec = find_record[OF Some]
    show ?thesis
    proof (cases "mutate rec")
      case (Inl e')
      then show ?thesis
        using that(1) assms(1) Inr recs Some by (auto simp: updateState_def)
    next
      case mutated: (Inr rec')
      then have save: "saveState env write (data\<lparr>ef_Executions := updateFirst i rec' (recordsOf disk)\<rparr>) disk = (disk', e)"
        using assms(1) Inr recs Some by (auto simp: updateState_def)
      have unique: "\<forall>x\<in>set (recordsOf disk). er_ID x = i \<longrightarrow> x = rec"
        using recs rec by (metis distinct_map inj_onD)
      from saveState_cases[OF save] show ?thesis
      proof
        assume "recordsOf disk' = ef_Executions (data\<lparr>ef_Executions := updateFirst i rec' (recordsOf disk)\<rparr>)"
        then have "set (recordsOf disk') = insert rec' (set (recordsOf disk) - {rec})"
          using updateFirst_set[of "recordsOf disk" rec i rec'] recs rec by simp
        then show ?thesis
          using that(2)[OF _ _ mutated _ _ unique] rec by (auto simp: diskMoves_def)
      qed (use that(1) in blast)
    qed
  qed
qed

section \<open>The actions of a connection\<close>

lemma claim_guarded:
  "helper.guarded cfg (Idle, cs) (claimExecution cfg req)
     (\<lambda>r \<gamma>. snd \<gamma> = cs \<and> (\<forall>rec. r = Inr (rec, True) \<longrightarrow> fst \<gamma> = Claimed (xr_ExecutionID req)))"
  unfolding claimExecution_def
proof (rule helper.guarded_atom)
  fix t t' x and orc :: HelperOracle and w w' :: HelperWorld
  let ?i = "xr_ExecutionID req"
  let ?claim = "claimState (hc_state cfg) (ho_readable orc) (ho_write orc) (ho_now orc) (ho_later orc) ?i (xr_PlanDigest req)
    (xr_GrantID req) (xr_ReservationID req) (hw_disk w)"
  assume inv: "helperInv cfg t w" and owns: "helperOwns t w (Idle, cs)" and clock: "clocked t t' orc"
    and step: "(case ?claim of (disk, r) \<Rightarrow> (w\<lparr>hw_disk := disk\<rparr>, executionStateResult r)) = (w', x)"
  obtain disk r where claim: "?claim = (disk, r)" and w': "w' = w\<lparr>hw_disk := disk\<rparr>" and x: "x = executionStateResult r"
    using step by (auto split: prod.splits)
  have t: "t \<le> t'" "ho_now orc \<le> t'"
    using clock by (auto simp: clocked_def)
  from claim t(2) show "\<exists>\<gamma>'. helper.keeps cfg t w (Idle, cs) t' w' \<gamma>'
      \<and> snd \<gamma>' = cs \<and> (\<forall>rec. x = Inr (rec, True) \<longrightarrow> fst \<gamma>' = Claimed ?i)"
  proof (cases rule: claimState_effect)
    case 1
    have "helper.keeps cfg t w (Idle, cs) t' w' (Idle, cs)"
      using still_keeps[OF inv owns clock] w' 1 owns by (simp add: helperOwns_def)
    then show ?thesis
      using 1(2) x by (auto simp: executionStateResult_def split: sum.splits)
  next
    case 2
    have absent: "\<not> onDisk (hw_disk w) ?i ExecutionClaimed" "\<not> onDisk (hw_disk w) ?i ExecutionStarted"
      using 2(3) by (auto simp: onDisk_def)
    have ago: "longAgo run t'" if "run \<in> set (hw_runs w)" "run_ID run = ?i" for run
      using that 2(3) inv longAgo_mono[OF _ t(1)] by (fastforce simp: helperInv_def runKept_def longAgo_def)
    then have prior: "priorRuns ?i w' t'"
      by (simp add: priorRuns_def w')
    have moves: "diskMoves ?i t' (recordsOf (hw_disk w)) (recordsOf (hw_disk w'))"
      using 2(1) w' by simp
    have "helper.keeps cfg t w (Idle, cs) t' w' (Claimed ?i, cs)"
      unfolding helper.keeps_def
    proof (intro conjI allI impI)
      show "helperInv cfg t' w'"
        using helperInv_disk[OF inv moves t(1)] ago w' by (simp add: runKept_def)
      show "helperOwns t' w' (Claimed ?i, cs)"
        using owns 2(2) prior w' by (simp add: helperOwns_def)
      fix \<delta> assume \<delta>: "helperOwns t w \<delta>"
      have "phaseID (fst \<delta>) \<noteq> Some ?i"
        using \<delta> absent by (cases "fst \<delta>") (auto simp: helperOwns_def)
      then show "helperOwns t' w' \<delta>" "helperApart (Claimed ?i, cs) \<delta>"
        using \<delta> phaseOwns_other[OF _ _ moves _ t(1)] w' by (auto simp: helperOwns_def helperApart_def)
    qed
    then show ?thesis
      by auto
  qed
qed

text \<open>A mutation of the own record.\<close>

lemma record_keeps:
  assumes inv: "helperInv cfg t w" and owns: "helperOwns t w (\<phi>, cs)" and clock: "clocked t t' orc" and own: "phaseID \<phi> = Some i"
    and moves: "\<And>t. diskMoves i t (recordsOf (hw_disk w)) (recordsOf disk)" and \<phi>': "phaseID \<phi>' = Some i" "phaseOwns t' (w\<lparr>hw_disk := disk\<rparr>) \<phi>'"
    and runs: "\<And>run. run \<in> set (hw_runs w) \<Longrightarrow> run_ID run = i \<Longrightarrow> runKept disk t' run"
  shows "helper.keeps cfg t w (\<phi>, cs) t' (w\<lparr>hw_disk := disk\<rparr>) (\<phi>', cs)"
  unfolding helper.keeps_def
proof (intro conjI allI impI)
  have t: "t \<le> t'"
    using clock by (auto simp: clocked_def)
  have moves': "diskMoves i t' (recordsOf (hw_disk w)) (recordsOf (hw_disk (w\<lparr>hw_disk := disk\<rparr>)))"
    using moves by simp
  show "helperInv cfg t' (w\<lparr>hw_disk := disk\<rparr>)"
    using helperInv_disk[OF inv moves' t] runs by simp
  show "helperOwns t' (w\<lparr>hw_disk := disk\<rparr>) (\<phi>', cs)"
    using owns \<phi>'(2) by (simp add: helperOwns_def)
  fix \<delta> assume \<delta>: "helperOwns t w \<delta>" "helperApart (\<phi>, cs) \<delta>"
  then show "helperOwns t' (w\<lparr>hw_disk := disk\<rparr>) \<delta>" "helperApart (\<phi>', cs) \<delta>"
    using own \<phi>'(1) phaseOwns_other[OF _ _ moves' _ t, of "fst \<delta>"] by (auto simp: helperOwns_def helperApart_def)
qed

lemma start_guarded:
  "helper.guarded cfg (Claimed i, cs) (startExecution cfg i) (\<lambda>e \<gamma>. snd \<gamma> = cs \<and> (e = None \<longrightarrow> fst \<gamma> = Started i))"
  unfolding startExecution_def
proof (rule helper.guarded_atom)
  fix t t' x and orc :: HelperOracle and w w' :: HelperWorld
  let ?mark = "markStarted (hc_state cfg) (ho_readable orc) (ho_write orc) (ho_now orc) i (hw_disk w)"
  assume inv: "helperInv cfg t w" and owns: "helperOwns t w (Claimed i, cs)" and clock: "clocked t t' orc"
    and step: "(case ?mark of (disk, e) \<Rightarrow> (w\<lparr>hw_disk := disk\<rparr>, e)) = (w', x)"
  then obtain disk where mark: "?mark = (disk, x)" and w': "w' = w\<lparr>hw_disk := disk\<rparr>"
    by (auto split: prod.splits)
  have prior: "priorRuns i w t'"
    using owns clock priorRuns_mono[of i w t t'] by (auto simp: helperOwns_def clocked_def)
  show "\<exists>\<gamma>'. helper.keeps cfg t w (Claimed i, cs) t' w' \<gamma>' \<and> snd \<gamma>' = cs \<and> (x = None \<longrightarrow> fst \<gamma>' = Started i)"
  proof (rule updateState_effect[OF mark[unfolded markStarted_def]])
    assume "disk = hw_disk w" "x \<noteq> None"
    then have "helper.keeps cfg t w (Claimed i, cs) t' w' (Claimed i, cs)"
      using still_keeps[OF inv owns clock] w' owns by (simp add: helperOwns_def)
    then show ?thesis
      using \<open>x \<noteq> None\<close> by auto
  next
    fix rec rec'
    assume upd: "er_ID rec = i" "(if er_Status rec \<noteq> ExecutionClaimed then Inl StateNotClaimable
        else Inr (rec\<lparr>er_Status := ExecutionStarted, er_StartedAt := ho_now orc\<rparr>)) = Inr rec'" "rec' \<in> set (recordsOf disk)"
      "\<And>t. diskMoves i t (recordsOf (hw_disk w)) (recordsOf disk)"
    have "onDisk disk i ExecutionStarted"
      using upd(1,2,3) by (auto simp: onDisk_def split: if_splits intro: bexI[of _ rec'])
    then have "helper.keeps cfg t w (Claimed i, cs) t' w' (Started i, cs)"
      unfolding w' using prior
      by (intro record_keeps[OF inv owns clock _ upd(4)]) (auto simp: priorRuns_def runKept_def)
    then show ?thesis
      by auto
  qed (auto split: if_splits)
qed

lemma complete_guarded: "helper.guarded cfg (Ran i, cs) (completeExecution cfg i out) (\<lambda>_ _. True)"
  unfolding completeExecution_def
proof (rule helper.guarded_atom)
  fix t t' x and orc :: HelperOracle and w w' :: HelperWorld
  let ?complete = "completeState (hc_state cfg) (ho_readable orc) (ho_write orc) (ho_now orc) i out (hw_disk w)"
  assume inv: "helperInv cfg t w" and owns: "helperOwns t w (Ran i, cs)" and clock: "clocked t t' orc"
    and step: "(case ?complete of (disk, e) \<Rightarrow> (w\<lparr>hw_disk := disk\<rparr>, e)) = (w', x)"
  then obtain disk where complete: "?complete = (disk, x)" and w': "w' = w\<lparr>hw_disk := disk\<rparr>"
    by (auto split: prod.splits)
  have "\<exists>\<gamma>'. helper.keeps cfg t w (Ran i, cs) t' w' \<gamma>'"
  proof (rule updateState_effect[OF complete[unfolded completeState_def]])
    assume "disk = hw_disk w"
    then have "helper.keeps cfg t w (Ran i, cs) t' w' (Ran i, cs)"
      using still_keeps[OF inv owns clock] w' owns by (simp add: helperOwns_def)
    then show ?thesis
      by blast
  next
    fix rec rec'
    assume upd: "er_ID rec = i" "(if er_Status rec \<noteq> ExecutionStarted then Inl StateNotCompletable
        else Inr (rec\<lparr>er_Status := ExecutionComplete, er_CompletedAt := ho_now orc, er_Outcome := Some out\<rparr>)) = Inr rec'"
      "rec' \<in> set (recordsOf disk)" "\<And>t. diskMoves i t (recordsOf (hw_disk w)) (recordsOf disk)"
    have rec': "er_ID rec' = i" "er_Status rec' = ExecutionComplete" "er_CompletedAt rec' = ho_now orc"
      using upd(1,2) by (auto split: if_splits)
    have late: "run_At run \<le> ho_now orc" if "run \<in> set (hw_runs w)" for run
      using that inv clock by (auto simp: helperInv_def clocked_def)
    have kept: "runKept disk t' run" if "run \<in> set (hw_runs w)" "run_ID run = i" for run
      using that late rec' upd(3) by (auto simp: runKept_def)
    have t: "t \<le> t'"
      using clock by (auto simp: clocked_def)
    have moves: "diskMoves i t' (recordsOf (hw_disk w)) (recordsOf (hw_disk w'))"
      using upd(4) w' by simp
    have "helper.keeps cfg t w (Ran i, cs) t' w' (Idle, cs)"
      unfolding helper.keeps_def
    proof (intro conjI allI impI)
      show "helperInv cfg t' w'"
        using helperInv_disk[OF inv moves t] kept w' by simp
      show "helperOwns t' w' (Idle, cs)"
        using owns w' by (simp add: helperOwns_def)
      fix \<delta> assume "helperOwns t w \<delta>" "helperApart (Ran i, cs) \<delta>"
      then show "helperOwns t' w' \<delta>" "helperApart (Idle, cs) \<delta>"
        using phaseOwns_other[OF _ _ moves _ t, of "fst \<delta>"] w' by (auto simp: helperOwns_def helperApart_def)
    qed
    then show ?thesis
      by blast
  qed (auto split: if_splits)
  then show "\<exists>\<gamma>'. helper.keeps cfg t w (Ran i, cs) t' w' \<gamma>' \<and> True"
    by simp
qed

lemma run_guarded:
  assumes "\<exists>fs identities. (v, fs, identities) \<in> set cs \<and> passed cfg v fs identities"
  shows "helper.guarded cfg (Started (xr_ExecutionID req), cs) (runClaimedExecution cfg req v now)
    (\<lambda>_ \<gamma>. \<gamma> = (Ran (xr_ExecutionID req), cs))"
  unfolding runClaimedExecution_def
proof (rule helper.guarded_atom)
  fix t t' x and orc :: HelperOracle and w w' :: HelperWorld
  let ?i = "xr_ExecutionID req"
  let ?run = "\<lparr>run_ID = ?i, run_Plan = v, run_At = ho_now orc, run_Deadline = commandDeadline (xr_ExpiresAt req) (sp_TimeoutSeconds v) now\<rparr>"
  assume inv: "helperInv cfg t w" and owns: "helperOwns t w (Started ?i, cs)" and clock: "clocked t t' orc"
    and step: "(w\<lparr>hw_runs := hw_runs w @ [?run]\<rparr>, if ho_runFails orc \<and> \<not> xo_Started (ho_outcome orc) then notStarted else ho_outcome orc) = (w', x)"
  have w': "w' = w\<lparr>hw_runs := hw_runs w @ [?run]\<rparr>"
    using step by simp
  have t: "t \<le> t'" "t \<le> ho_now orc" "ho_now orc \<le> t'"
    using clock by (auto simp: clocked_def)
  have disk: "onDisk (hw_disk w) ?i ExecutionStarted" and prior: "priorRuns ?i w t" and cs: "set cs \<subseteq> set (hw_checks w)"
    using owns by (simp_all add: helperOwns_def)
  have "helper.keeps cfg t w (Started ?i, cs) t' w' (Ran ?i, cs)"
    unfolding helper.keeps_def
  proof (intro conjI allI impI)
    have new: "runKept (hw_disk w) t' ?run" "runChecked cfg (hw_checks w) ?run"
      using disk assms cs by (auto simp: runKept_def onDisk_def runChecked_def)
    have old: "run_At run \<le> t'" "runKept (hw_disk w) t' run" "runChecked cfg (hw_checks w) run" "spaced run ?run"
      if "run \<in> set (hw_runs w)" for run
      using that inv prior t longAgo_mono[OF _ t(1)] by (auto simp: helperInv_def runKept_def priorRuns_def spaced_def longAgo_def)
    show "helperInv cfg t' w'"
      using new old inv t(3) by (auto simp: helperInv_def w' sorted_wrt_append)
    show "helperOwns t' w' (Ran ?i, cs)"
      using disk cs by (simp add: helperOwns_def w')
    fix \<delta> assume \<delta>: "helperOwns t w \<delta>" "helperApart (Started ?i, cs) \<delta>"
    have "phaseOwns t' w' (fst \<delta>)"
      using \<delta> priorRuns_mono[OF _ t(1)] by (cases "fst \<delta>") (auto simp: helperOwns_def helperApart_def w' priorRuns_def)
    then show "helperOwns t' w' \<delta>" "helperApart (Ran ?i, cs) \<delta>"
      using \<delta> by (auto simp: helperOwns_def helperApart_def w')
  qed
  then show "\<exists>\<gamma>'. helper.keeps cfg t w (Started ?i, cs) t' w' \<gamma>' \<and> \<gamma>' = (Ran ?i, cs)"
    by blast
qed

lemma look_guarded:
  "helper.guarded cfg \<gamma> readNow (\<lambda>_ \<delta>. \<delta> = \<gamma>)"
  "helper.guarded cfg \<gamma> (lookupExistingExecution cfg' req) (\<lambda>_ \<delta>. \<delta> = \<gamma>)"
  "helper.guarded cfg \<gamma> (atom (\<lambda>orc w. (w, f orc))) (\<lambda>_ \<delta>. \<delta> = \<gamma>)"
  unfolding readNow_def lookupExistingExecution_def
  by (rule helper.guarded_atom, rule exI[of _ \<gamma>], rule conjI, rule still_keeps; force simp: helperOwns_def)+

lemma check_guarded:
  "helper.guarded cfg (Idle, cs) (validateExecutableRequest cfg req v now)
     (\<lambda>r \<gamma>. fst \<gamma> = Idle \<and> (r = None \<longrightarrow> (\<exists>fs identities. (v, fs, identities) \<in> set (snd \<gamma>) \<and> passed cfg v fs identities)))"
  unfolding validateExecutableRequest_def
proof (rule helper.guarded_atom)
  fix t t' x and orc :: HelperOracle and w w' :: HelperWorld
  let ?check = "(v, ho_files orc, ho_identities orc)"
  assume "helperInv cfg t w" and owns: "helperOwns t w (Idle, cs)" and "clocked t t' orc"
    and step: "(w\<lparr>hw_checks := hw_checks w @ [?check]\<rparr>, checkRequest cfg req v now (ho_files orc) (ho_identities orc)) = (w', x)"
  then have "helper.keeps cfg t w (Idle, cs) t' w' (Idle, cs @ [?check])"
    using owns by (intro still_keeps) (auto simp: helperOwns_def)
  moreover have "x = None \<Longrightarrow> passed cfg v (ho_files orc) (ho_identities orc)"
    using step by (auto simp: checkRequest_def passed_def split: if_splits)
  ultimately show "\<exists>\<gamma>'. helper.keeps cfg t w (Idle, cs) t' w' \<gamma>'
      \<and> fst \<gamma>' = Idle \<and> (x = None \<longrightarrow> (\<exists>fs identities. (v, fs, identities) \<in> set (snd \<gamma>') \<and> passed cfg v fs identities))"
    by (intro exI[of _ "(Idle, cs @ [?check])"]) auto
qed

section \<open>Connections\<close>

lemmas then_guarded = helper.guarded_bind[OF helper.guarded_mono]

lemma executeFresh_guarded:
  assumes "\<exists>fs identities. (v, fs, identities) \<in> set cs \<and> passed cfg v fs identities"
  shows "helper.guarded cfg (Idle, cs) (executeFresh cfg req v now) (\<lambda>_ _. True)"
proof -
  have finish: "helper.guarded cfg \<gamma> (bindP (runClaimedExecution cfg req v now) (\<lambda>out. bindP (completeExecution cfg (xr_ExecutionID req) out) (\<lambda>e.
      if e \<noteq> None then Ret (NewAmbiguous (xr_ExecutionID req) ''result_unavailable'') else Ret (NewCompleted (xr_ExecutionID req) out)))) (\<lambda>_ _. True)"
    if "\<gamma> = (Started (xr_ExecutionID req), cs)" for \<gamma>
    unfolding that
    by (rule then_guarded[OF run_guarded[OF assms]]) (auto intro!: then_guarded[OF complete_guarded] helper.guarded_Ret)
  show ?thesis
    unfolding executeFresh_def
  proof (rule then_guarded[OF claim_guarded], goal_cases)
    case (1 r \<gamma>)
    have go: "helper.guarded cfg (Claimed (xr_ExecutionID req), cs) (bindP (startExecution cfg (xr_ExecutionID req)) (\<lambda>e.
        if e \<noteq> None then Ret (NewAmbiguous (xr_ExecutionID req) ''state_unavailable'')
        else bindP (runClaimedExecution cfg req v now) (\<lambda>out. bindP (completeExecution cfg (xr_ExecutionID req) out) (\<lambda>e.
          if e \<noteq> None then Ret (NewAmbiguous (xr_ExecutionID req) ''result_unavailable'') else Ret (NewCompleted (xr_ExecutionID req) out))))) (\<lambda>_ _. True)"
      by (rule then_guarded[OF start_guarded]) (auto intro!: finish helper.guarded_Ret prod_eqI simp del: not_None_eq)
    then show ?case
      using 1 by (cases \<gamma>) (auto intro!: helper.guarded_Ret simp del: not_None_eq split: sum.splits prod.splits)
  qed
qed

lemma helperExecute_guarded: "helper.guarded cfg (Idle, cs) (helperExecute cfg req) (\<lambda>_ _. True)"
  unfolding helperExecute_def
proof (rule then_guarded[OF look_guarded(1)], goal_cases)
  case (1 now \<gamma>)
  have fresh: "helper.guarded cfg (Idle, cs) (bindP (validateExecutableRequest cfg req v now)
      (\<lambda>rejection. case rejection of Some code \<Rightarrow> Ret (NewRejected code) | None \<Rightarrow> executeFresh cfg req v now)) (\<lambda>_ _. True)" for v
  proof (rule then_guarded[OF check_guarded], goal_cases)
    case (1 r \<delta>)
    then show ?case
      using executeFresh_guarded[of v "snd \<delta>" cfg req now] by (cases \<delta>) (auto intro: helper.guarded_Ret split: option.splits)
  qed
  show ?case
    unfolding 1 using fresh
    by (auto intro!: then_guarded[OF look_guarded(2)] helper.guarded_Ret split: option.splits sum.splits)
qed

lemma helperHandle_guarded: "helper.guarded cfg (Idle, cs) (helperHandle cfg) (\<lambda>_ _. True)"
  unfolding helperHandle_def
  by (auto intro!: then_guarded[OF look_guarded(3)] helper.guarded_Ret helperExecute_guarded split: option.splits sum.splits)

lemma connection_guarded: "helper.guarded cfg (Idle, []) (acceptConnection cfg busy) (\<lambda>_ _. True)"
  unfolding acceptConnection_def handleConnection_def
  by (auto intro!: then_guarded[OF look_guarded(1)] then_guarded[OF helperHandle_guarded] helper.guarded_Ret
      helper.guarded_bind[OF helper.guarded_mono[OF look_guarded(1)]])

end
