(* ===== verification/SudoExample.thy ===== *)
theory SudoExample
  imports SudoExecutorSafety
begin

text \<open>
  A small host on which the theorems on the sudo broker are applied: one command, one request, one exchange with the helper.
\<close>

definition demoJSON :: "string \<Rightarrow> jsonValue option" where
  "demoJSON text = Some (case text of c # s \<Rightarrow> if c = CHR 0x22 then JString s else JNumber text | [] \<Rightarrow> JNull)"

definition demoFiles :: FileSystem where
  "demoFiles =
     \<lparr>fs_Lstat = (\<lambda>p. Some \<lparr>fi_Kind = (if p = ''/usr/bin/uptime'' then RegularFile else Directory), fi_Perm = 493, fi_Uid = 0\<rparr>),
      fs_Stat = (\<lambda>p. Some \<lparr>fi_Kind = (if p = ''/usr/bin/uptime'' then RegularFile else Directory), fi_Perm = 493, fi_Uid = 0\<rparr>),
      fs_EvalSymlinks = (\<lambda>p. if IsAbs p \<and> Clean p = p then Some p else None), fs_Getxattr = (\<lambda>_ _. XattrAbsent)\<rparr>"

definition demoSlot :: Argument where
  "demoSlot = \<lparr>arg_Literal = None, arg_Slot = ''count'', arg_Type = ''integer'', arg_Minimum = Some 1, arg_Maximum = Some 9,
               arg_Values = [], arg_Roots = [], arg_MustExist = False, arg_FileType = []\<rparr>"

definition demoDocument :: document where
  "demoDocument =
     \<lparr>doc_Version = 1,
      doc_Commands = Some [\<lparr>rc_ID = ''uptime'', rc_Executable = ''/usr/bin/uptime'', rc_Arguments = Some [demoSlot],
        rc_TargetUsers = Some [''root''], rc_WorkingDirectory = ''/'', rc_TimeoutSeconds = 30, rc_MaxOutputBytes = Some 1024,
        rc_Environment = [], rc_Description = [], rc_Risk = ''low''\<rparr>]\<rparr>"

definition digestText :: "char \<Rightarrow> string" where
  "digestText c = replicate 64 c"

definition demoCatalogEnv :: CatalogEnv where
  "demoCatalogEnv =
     \<lparr>ce_json = demoJSON, ce_quote = (\<lambda>s. CHR 0x22 # s), ce_document = (\<lambda>_. Some demoDocument), ce_commands = (\<lambda>_ _. Some ''catalog''),
      ce_digest = (\<lambda>_. digestText CHR ''a''), ce_fs = demoFiles\<rparr>"

definition demoCommand :: Command where
  "demoCommand =
     \<lparr>cc_ID = ''uptime'', cc_Executable = ''/usr/bin/uptime'', cc_Arguments = [demoSlot], cc_TargetUsers = [''root''],
      cc_WorkingDirectory = ''/'', cc_TimeoutSeconds = 30, cc_MaxOutputBytes = 1024, cc_Environment = [], cc_Description = [],
      cc_Risk = ''low''\<rparr>"

definition demoSnapshot :: Snapshot where
  "demoSnapshot = \<lparr>sn_commands = [(''uptime'', demoCommand)], sn_digest = digestText CHR ''a''\<rparr>"

definition demoResolved :: Resolved where
  "demoResolved =
     \<lparr>rs_CommandID = ''uptime'', rs_TargetUser = ''root'', rs_Executable = ''/usr/bin/uptime'', rs_Arguments = [''/usr/bin/uptime'', ''3''],
      rs_WorkingDirectory = ''/'', rs_Environment = [], rs_TimeoutSeconds = 30, rs_MaxOutputBytes = 1024,
      rs_SlotValues = [(''count'', ''3'')], rs_CatalogDigest = digestText CHR ''a''\<rparr>"

definition demoIdentity :: Identity where
  "demoIdentity = \<lparr>id_Name = ''root'', id_UID = 0, id_GID = 0, id_SupplementaryGIDs = []\<rparr>"

definition demoIdentities :: IdentityResolver where
  "demoIdentities name = (if name = ''root'' then Some demoIdentity else None)"

definition demoGrantRequest :: GrantRequest where
  "demoGrantRequest =
     \<lparr>rq_Client = ''agent'', rq_ClientRequestID = ''op_00001'', rq_Operation = OperationExecCommand,
      rq_Target = req_Target (sudo_Request ''agent'' demoResolved), rq_Attrs = req_Attrs (sudo_Request ''agent'' demoResolved),
      rq_Metadata = [(MetadataMode, ''window'')], rq_Reason = ''check'', rq_Duration = 300 * second, rq_PendingTimeout = 60 * second,
      rq_MaxUses = 1, rq_MaxUsesSpecified = True, rq_MaxUsesDefaulted = False\<rparr>"

definition demoPlan :: ExecPlan where
  "demoPlan =
     \<lparr>sp_Schema = SchemaV1, sp_RequestID = ''op_00001'', sp_ClientID = ''agent'', sp_Operation = OperationExecCommand,
      sp_AuthorizationMode = ''window'', sp_CommandID = ''uptime'', sp_TargetUser = ''root'', sp_TargetUID = 0, sp_TargetGID = 0,
      sp_SupplementaryGIDs = [], sp_Executable = ''/usr/bin/uptime'', sp_Arguments = [''3''], sp_WorkingDirectory = ''/'',
      sp_Environment = [''LANG=C'', ''LC_ALL=C''], sp_TimeoutSeconds = 30, sp_MaxOutputBytes = 1024,
      sp_SlotValues = [(''count'', ''3'')], sp_CatalogDigest = digestText CHR ''a'', sp_RequestedDurationSeconds = 300,
      sp_RequestedMaxUses = 1, sp_RequestedMaxUsesDefaulted = False, sp_CreatedAt = 50\<rparr>"

definition demoPlanEnv :: PlanEnv where
  "demoPlanEnv =
     \<lparr>ple_json = demoJSON, ple_decode = (\<lambda>_. Some demoPlan), ple_encode = (\<lambda>_. Some ''plan''),
      ple_agent = \<lparr>ae_object = Some, ae_compact = Some, ae_digest = (\<lambda>_. digestText CHR ''b''), ae_fits = (\<lambda>_. True)\<rparr>\<rparr>"

definition demoStoredPlan :: PlanRecord where
  "demoStoredPlan = \<lparr>pr_Digest = digestText CHR ''b'', pr_SchemaName = SchemaV1, pr_Canonical = ''plan'', pr_CreatedAt = 50\<rparr>"

definition demoPlanDB :: AgentDB where
  "demoPlanDB = \<lparr>ad_ops = [], ad_plans = [demoStoredPlan]\<rparr>"

definition demoImmutable :: ImmutablePlan where
  "demoImmutable =
     \<lparr>plan_Digest = digestText CHR ''b'', plan_SchemaName = SchemaV1, plan_Canonical = ''plan'', plan_CreatedAt = 50\<rparr>"

definition demoBoundRequest :: GrantRequest where
  "demoBoundRequest =
     demoGrantRequest\<lparr>rq_Metadata := mapSet MetadataDigest (digestText CHR ''b'') (mapSet MetadataSchema SchemaV1 [(MetadataMode, ''window'')])\<rparr>"

definition demoValidator :: Validator where
  "demoValidator =
     \<lparr>va_env = demoPlanEnv, va_db = demoPlanDB, va_ok = True, va_cenv = demoCatalogEnv, va_catalog = demoSnapshot,
      va_identities = demoIdentities, va_ready = None\<rparr>"

lemma demo_parse: "Catalog_Parse demoCatalogEnv ''document'' = Inr demoSnapshot"
  by code_simp

lemma demo_integer: "parseInt64 ''3'' = Some 3" "formatInt 3 = ''3''"
proof -
  show three: "formatInt 3 = ''3''"
    by code_simp
  show "parseInt64 ''3'' = Some 3"
    using parseInt64_formatInt[of 3] three by simp
qed

lemma demo_argument: "resolveArgument demoCatalogEnv demoSlot ''3'' = Inr ''3''"
  by (simp add: resolveArgument_def resolveIntegerArgument_def demo_integer demoSlot_def boundOf_def RejectDuplicateKeys_def
      demoCatalogEnv_def demoJSON_def)

lemma demo_resolve: "Resolve demoCatalogEnv demoSnapshot ''uptime'' ''root'' [(''count'', ''3'')] = Inr demoResolved"
  by (simp add: Resolve_def snapshotCommand_def demoSnapshot_def demoCommand_def resolveCommandArgument_def demo_argument
      rejectUnexpectedInputs_def demoResolved_def bindR_def guardR_def)
     (simp add: demoSlot_def demo_argument[unfolded demoSlot_def] failIf_def)

lemma demo_build: "Build demoGrantRequest demoResolved demoIdentity 50 = Inr demoPlan"
  by code_simp

lemma demo_plan_valid: "validatePlan demoPlan = None"
  by code_simp

lemma demo_bind: "PrepareBind demoPlanEnv demoGrantRequest demoPlan = Inr (demoBoundRequest, demoImmutable)"
  using demo_plan_valid
  by (simp add: PrepareBind_def encodePlan_def demoPlanEnv_def demoBoundRequest_def demoImmutable_def demoGrantRequest_def demoPlan_def guardR_def
      bindR_def Let_def)

lemma demo_stored: "Plan (ple_agent demoPlanEnv) True (digestText CHR ''b'') demoPlanDB = Inr demoStoredPlan"
  by code_simp

lemma demo_json: "jsonLaws demoCatalogEnv"
proof -
  have quote: "formatInt v \<noteq> []" "hd (formatInt v) \<noteq> CHR 0x22" for v
    using itoa_digits[of "nat v"] itoa_nonempty[of "nat v"] by (cases "itoaNat (nat v)"; auto simp: formatInt_def isDigit_def byte_def)+
  have "\<exists>n. demoJSON (formatInt v) = Some (JNumber n)" for v
    using quote[of v] by (cases "formatInt v") (auto simp: demoJSON_def)
  then show ?thesis
    by (auto simp: jsonLaws_def demoCatalogEnv_def demoJSON_def)
qed

lemma demo_files: "stableFiles demoFiles"
  by (auto simp: stableFiles_def filesClean_def demoFiles_def split: if_splits)

section \<open>One exchange with the helper\<close>

definition demoExecRequest :: ExecRequest where
  "demoExecRequest =
     \<lparr>xr_Version = protocolVersion, xr_Type = TypeExecute, xr_ExecutionID = ''op_00001'', xr_Plan = ''plan'',
      xr_PlanDigest = digestText CHR ''b'', xr_GrantID = ''grant_1'', xr_ReservationID = ''op_00001'', xr_ExpiresAt = 300 * second\<rparr>"

definition demoOutcome :: ExecOutcome where
  "demoOutcome = notStarted\<lparr>xo_Started := True, xo_Stdout := ''up''\<rparr>"

text \<open>Requests and responses are written as one letter; the reply of an authority that is not known is \<^verbatim>\<open>r\<close>.\<close>

definition demoProtocol :: ProtocolEnv where
  "demoProtocol =
     \<lparr>px_json = demoJSON, px_requestText = (\<lambda>_. Some ''q''), px_request = (\<lambda>_. Some demoExecRequest),
      px_responseText = (\<lambda>resp. if resp = NewRejected ''peer_not_authorized'' then Some ''r''
                                 else if resp = NewCompleted ''op_00001'' demoOutcome then Some ''c''
                                 else if resp = NewCompleted ''op_00001'' notStarted then Some ''n'' else None),
      px_response = (\<lambda>body. if body = ''r'' then Some (NewRejected ''peer_not_authorized'')
                            else if body = ''c'' then Some (NewCompleted ''op_00001'' demoOutcome)
                            else if body = ''n'' then Some (NewCompleted ''op_00001'' notStarted) else None)\<rparr>"

definition demoStateEnv :: StateEnv where
  "demoStateEnv = \<lparr>se_proto = demoProtocol, se_encoded = (\<lambda>_. Some 100)\<rparr>"

definition demoHelper :: HelperConfig where
  "demoHelper =
     \<lparr>hc_catalog = demoSnapshot, hc_cenv = demoCatalogEnv, hc_plans = demoPlanEnv, hc_state = demoStateEnv, hc_expectedPeerUID = 1000,
      hc_requestTimeout = 10 * second, hc_maxConnections = 32\<rparr>"

definition demoOracle :: "ExecOutcome \<Rightarrow> HelperOracle" where
  "demoOracle out =
     \<lparr>ho_now = 100, ho_later = 100, ho_peer = Some 1000, ho_input = putUint32 1 @ ''q'', ho_files = demoFiles,
      ho_identities = demoIdentities, ho_readable = True, ho_write = WriteDone, ho_outcome = out, ho_runFails = False\<rparr>"

definition demoWorld :: HelperWorld where
  "demoWorld = \<lparr>hw_disk = None, hw_runs = [], hw_checks = []\<rparr>"

definition demoRun :: HelperRun where
  "demoRun = \<lparr>run_ID = ''op_00001'', run_Plan = demoPlan, run_At = 100, run_Deadline = 100 + 30 * second\<rparr>"

definition demoRecord :: "ExecStatus \<Rightarrow> gotime \<Rightarrow> gotime \<Rightarrow> ExecOutcome option \<Rightarrow> executionRecord" where
  "demoRecord status started completed out =
     \<lparr>er_ID = ''op_00001'', er_PlanDigest = digestText CHR ''b'', er_GrantID = ''grant_1'', er_ReservationID = ''op_00001'',
      er_Status = status, er_ClaimedAt = 100, er_StartedAt = started, er_CompletedAt = completed, er_Outcome = out\<rparr>"

definition demoDisk :: "executionRecord \<Rightarrow> stateDisk" where
  "demoDisk rec = Some (\<lparr>ef_Version = 1, ef_Executions = [rec]\<rparr>, 101)"

lemma demo_maps: "snapshotMaps demoSnapshot"
  by (simp add: snapshotMaps_def demoSnapshot_def demoCommand_def isMap_def)

lemma demo_utf8: "validUTF8 ''3''"
  by (rule validUTF8_ascii) (simp add: byte_def)

lemma demo_request_valid: "protocol_validateRequest demoExecRequest = None"
proof -
  have "boundedID ''op_00001''" "boundedID ''grant_1''"
    by code_simp+
  then show ?thesis
    by (simp add: protocol_validateRequest_def validateExecuteRequest_def demoExecRequest_def TypePing_def TypeExecute_def
        digestText_def second_def)
qed

lemma demo_request: "ReadRequest demoProtocol (putUint32 1 @ ''q'') = Inr demoExecRequest"
  using demo_request_valid
  by (simp add: ReadRequest_def readValidated_def readFrame_def readFrameSize_def readFrameData_def decodeFrameData_def demoProtocol_def
      putUint32_def readUint32_def byte_def MaxFrameSize_def RejectDuplicateKeys_def demoJSON_def bindR_def guardR_def Let_def)

lemma demo_executable: "checkRequest demoHelper demoExecRequest demoPlan 100 demoFiles demoIdentities = None"
proof -
  have drift: "ValidateForHelper demoCatalogEnv demoPlan demoSnapshot demoIdentities = None"
  proof -
    have "validateCatalogBinding demoCatalogEnv demoPlan demoSnapshot = None"
      by (rule built_plan_bound[OF Parse_wf[OF demo_parse] demo_maps _ demo_json demo_resolve _ demo_build])
         (simp_all add: demo_utf8 demo_files demoCatalogEnv_def demoResolved_def)
    moreover have "validateHelperIdentity demoIdentities demoPlan = None"
      by code_simp
    ultimately show ?thesis
      using demo_plan_valid by (simp add: ValidateForHelper_def)
  qed
  have files: "filesNow demoHelper demoFiles = demoCatalogEnv"
    by (simp add: filesNow_def demoHelper_def demoCatalogEnv_def)
  have host: "host_ValidateExecution demoFiles demoPlan = None"
    by code_simp
  show ?thesis
    using drift files host
    by (simp add: checkRequest_def demoExecRequest_def demoHelper_def demoPlan_def timeSub_def wrap64_def second_def)
qed

lemma demo_record [simp]:
  "er_ID (demoRecord status a b out) = ''op_00001''" "er_Status (demoRecord status a b out) = status"
  "er_StartedAt (demoRecord status a b out) = a" "er_CompletedAt (demoRecord status a b out) = b"
  "er_ClaimedAt (demoRecord status a b out) = 100" "er_Outcome (demoRecord status a b out) = out"
  "er_PlanDigest (demoRecord status a b out) = digestText CHR ''b''" "er_GrantID (demoRecord status a b out) = ''grant_1''"
  "er_ReservationID (demoRecord status a b out) = ''op_00001''"
  "(demoRecord status a b out)\<lparr>er_Status := status', er_StartedAt := a'\<rparr> = demoRecord status' a' b out"
  "(demoRecord status a b out)\<lparr>er_Status := status', er_CompletedAt := b', er_Outcome := out'\<rparr> = demoRecord status' a b' out'"
  by (simp_all add: demoRecord_def)

lemma demo_states:
  "lookupState demoStateEnv True ''op_00001'' (digestText CHR ''b'') ''grant_1'' ''op_00001'' None = Inr None"
  "claimState demoStateEnv True WriteDone 100 100 ''op_00001'' (digestText CHR ''b'') ''grant_1'' ''op_00001'' None =
     (demoDisk (demoRecord ExecutionClaimed 0 0 None), Inr (demoRecord ExecutionClaimed 0 0 None, True))"
  "markStarted demoStateEnv True WriteDone 100 ''op_00001'' (demoDisk (demoRecord ExecutionClaimed 0 0 None)) =
     (demoDisk (demoRecord ExecutionStarted 100 0 None), None)"
  "completeState demoStateEnv True WriteDone 100 ''op_00001'' out (demoDisk (demoRecord ExecutionStarted 100 0 None)) =
     (demoDisk (demoRecord ExecutionComplete 100 100 (Some out)), None)"
proof -
  have "validateExecutionBinding (demoRecord status a b out)" for status a b out
  proof -
    have "boundedStateID ''op_00001''" "boundedStateID ''grant_1''" "plandigest_Valid (digestText CHR ''b'')"
      by code_simp+
    then show ?thesis
      by (simp add: validateExecutionBinding_def)
  qed
  then have loads: "loadState demoStateEnv True (demoDisk (demoRecord ExecutionClaimed 0 0 None)) =
      Inr \<lparr>ef_Version = 1, ef_Executions = [demoRecord ExecutionClaimed 0 0 None]\<rparr>"
    "loadState demoStateEnv True (demoDisk (demoRecord ExecutionStarted 100 0 None)) =
      Inr \<lparr>ef_Version = 1, ef_Executions = [demoRecord ExecutionStarted 100 0 None]\<rparr>"
    "loadState demoStateEnv True None = Inr \<lparr>ef_Version = 1, ef_Executions = []\<rparr>"
    by (simp_all add: loadState_def demoDisk_def maxStateBytes_def validateExecutionFile_def maxStateRecords_def validateExecutionRecord_def
        guardR_def) (simp_all add: validateClaimedExecution_def validateStartedExecution_def)
  show "lookupState demoStateEnv True ''op_00001'' (digestText CHR ''b'') ''grant_1'' ''op_00001'' None = Inr None"
    by (simp add: lookupState_def loads findExecution_def bindR_def)
  show "claimState demoStateEnv True WriteDone 100 100 ''op_00001'' (digestText CHR ''b'') ''grant_1'' ''op_00001'' None =
     (demoDisk (demoRecord ExecutionClaimed 0 0 None), Inr (demoRecord ExecutionClaimed 0 0 None, True))"
    by (simp add: claimState_def loads pruneCompleted_def findExecution_def Let_def saveState_def maxStateRecords_def)
       (simp add: demoStateEnv_def maxStateBytes_def demoDisk_def demoRecord_def)
  show "markStarted demoStateEnv True WriteDone 100 ''op_00001'' (demoDisk (demoRecord ExecutionClaimed 0 0 None)) =
     (demoDisk (demoRecord ExecutionStarted 100 0 None), None)"
    by (simp add: markStarted_def updateState_def loads findExecution_def saveState_def maxStateRecords_def Let_def)
       (simp add: demoStateEnv_def maxStateBytes_def demoDisk_def)
  show "completeState demoStateEnv True WriteDone 100 ''op_00001'' out (demoDisk (demoRecord ExecutionStarted 100 0 None)) =
     (demoDisk (demoRecord ExecutionComplete 100 100 (Some out)), None)"
    by (simp add: completeState_def updateState_def loads findExecution_def saveState_def maxStateRecords_def Let_def)
       (simp add: demoStateEnv_def maxStateBytes_def demoDisk_def)
qed

lemma demo_distinct:
  "NewRejected code \<noteq> NewCompleted i out" "NewCompleted i out = NewCompleted i out' \<longleftrightarrow> out = out'" "demoOutcome \<noteq> notStarted"
  by (simp_all add: NewRejected_def NewCompleted_def StatusCompleted_def StatusRejected_def demoOutcome_def notStarted_def)

lemma demo_response:
  "WriteResponse demoProtocol (NewCompleted ''op_00001'' demoOutcome) = Inr (putUint32 1 @ ''c'')"
  "WriteResponse demoProtocol (NewCompleted ''op_00001'' notStarted) = Inr (putUint32 1 @ ''n'')"
proof -
  have "boundedID ''op_00001''"
    by code_simp
  then have "validateResponse (NewCompleted ''op_00001'' demoOutcome) = None" "validateResponse (NewCompleted ''op_00001'' notStarted) = None"
    by (simp_all add: validateResponse_def NewCompleted_def protocolVersion_def StatusCompleted_def StatusReady_def validateCompletedResponse_def
        validOutcome_def demoOutcome_def notStarted_def MaxFrameSize_def noControlRunes.simps[of "[]"])
  then show "WriteResponse demoProtocol (NewCompleted ''op_00001'' demoOutcome) = Inr (putUint32 1 @ ''c'')"
    "WriteResponse demoProtocol (NewCompleted ''op_00001'' notStarted) = Inr (putUint32 1 @ ''n'')"
    by (simp_all add: WriteResponse_def writeValidated_def writeFrame_def demoProtocol_def guardR_def MaxFrameSize_def
        demo_distinct demo_distinct[symmetric])
qed

definition demoServed :: "ExecOutcome \<Rightarrow> HelperWorld" where
  "demoServed out =
     \<lparr>hw_disk = demoDisk (demoRecord ExecutionComplete 100 100 (Some out)), hw_runs = [demoRun],
      hw_checks = [(demoPlan, demoFiles, demoIdentities)]\<rparr>"

lemma demo_decoded: "decodePlan demoPlanEnv ''plan'' = Inr demoPlan"
  using demo_plan_valid
  by (simp add: decodePlan_def demoPlanEnv_def RejectDuplicateKeys_def demoJSON_def guardR_def)

definition demoOracles :: "ExecOutcome \<Rightarrow> HelperOracle list" where
  "demoOracles out = (let o1 = demoOracle out in [o1, o1, o1, o1, o1, o1, o1, o1, o1, o1, o1])"

lemma demo_exchange:
  assumes "out = demoOutcome \<or> out = notStarted"
  shows "runProg (demoOracles out) demoWorld (acceptConnection demoHelper 0) = (demoServed out, Ret (Some (NewCompleted ''op_00001'' out)))"
proof -
  have envelope: "validateRequestEnvelope demoHelper demoExecRequest 100 = None"
    by (simp add: validateRequestEnvelope_def digestOf_def demoExecRequest_def demoHelper_def demoPlanEnv_def second_def)
  have peers: "knownPeer 1000 (hc_expectedPeerUID demoHelper)" "peerMayExecute 1000 (hc_expectedPeerUID demoHelper)"
    by (simp_all add: knownPeer_def peerMayExecute_def demoHelper_def)
  have req: "xr_Type demoExecRequest \<noteq> TypePing" "xr_ExecutionID demoExecRequest = ''op_00001''"
    "xr_PlanDigest demoExecRequest = digestText CHR ''b''" "xr_GrantID demoExecRequest = ''grant_1''"
    "xr_ReservationID demoExecRequest = ''op_00001''" "xr_Plan demoExecRequest = ''plan''"
    by (simp_all add: demoExecRequest_def TypePing_def TypeExecute_def)
  have cfg: "hc_state demoHelper = demoStateEnv" "se_proto demoStateEnv = demoProtocol" "hc_plans demoHelper = demoPlanEnv"
    "0 < hc_maxConnections demoHelper" "0 < hc_requestTimeout demoHelper"
    by (simp_all add: demoHelper_def demoStateEnv_def second_def)
  have deadline: "commandDeadline (xr_ExpiresAt demoExecRequest) (sp_TimeoutSeconds demoPlan) 100 = 100 + 30 * second"
    by (simp add: commandDeadline_def demoExecRequest_def demoPlan_def wrap64_def second_def)
  have supplied: "ho_now (demoOracle out) = 100" "ho_later (demoOracle out) = 100" "ho_peer (demoOracle out) = Some 1000"
    "ho_input (demoOracle out) = putUint32 1 @ ''q''" "ho_files (demoOracle out) = demoFiles" "ho_identities (demoOracle out) = demoIdentities"
    "ho_readable (demoOracle out)" "ho_write (demoOracle out) = WriteDone" "ho_outcome (demoOracle out) = out" "\<not> ho_runFails (demoOracle out)"
    by (simp_all add: demoOracle_def)
  obtain frame where framed: "WriteResponse demoProtocol (NewCompleted ''op_00001'' out) = Inr frame"
    using assms demo_response by blast
  show ?thesis
    by (simp add: acceptConnection_def handleConnection_def helperHandle_def helperExecute_def readNow_def lookupExistingExecution_def
        validateExecutableRequest_def executeFresh_def claimExecution_def startExecution_def runClaimedExecution_def completeExecution_def
        cfg supplied peers req envelope deadline demo_request demo_decoded demo_executable demo_states framed demoOracles_def Let_def demoWorld_def
        executionStateResult_def bindP_assoc del: One_nat_def) (simp add: demoServed_def demoRun_def)
qed

end
