(* ===== verification/SudoOperations.thy ===== *)
theory SudoOperations
  imports SudoExecutor OperationRuntime
begin

text \<open>
  The adapter of the sudo broker, \<^verbatim>\<open>brokers/sudo/internal/operations/operations.go\<close>, its client of the privileged helper,
  \<^verbatim>\<open>executorclient/client.go\<close>, and the callbacks it hands to the operation runtime, \<^verbatim>\<open>routes/agent_operations.go\<close>.

  \<^item> \<^verbatim>\<open>encoding/json\<close> on the target and the arguments of a request, and on the view of a result, is a parameter (\<open>CommandEnv\<close>).
  \<^item> What happens on the socket of the helper is a parameter of the call (\<open>Exchange\<close>): whether it can be dialled and written, and the
    bytes that come back.
\<close>

section \<open>Input\<close>

definition maxInputBytes :: nat where "maxInputBytes = 32768"

record commandTarget =
  ct_Kind :: string
  ct_Name :: string

record commandArguments =
  ca_CommandID :: string
  ca_Arguments :: "string gomap option"

record CommandInput =
  ci_Target :: string
  ci_Arguments :: string
  ci_TargetUser :: string
  ci_CommandID :: string
  ci_CommandArgs :: "string gomap"

record CommandPlan =
  cp_ExecutionID :: string
  cp_Target :: string
  cp_Arguments :: string
  cp_Resolved :: Resolved
  cp_Authorization :: Request
  cp_Command :: ExecPlan
  cp_GrantID :: string
  cp_ReservationID :: string
  cp_GrantExpiresAt :: gotime

record CommandEnv =
  cv_json :: "string \<Rightarrow> jsonValue option"
  cv_target :: "string \<Rightarrow> commandTarget option"
  cv_arguments :: "string \<Rightarrow> commandArguments option"
  cv_view :: "string \<Rightarrow> ExecOutcome \<Rightarrow> string option"

text \<open>\<^verbatim>\<open>strictjson.Decode\<close> with a closed schema.\<close>

definition strictDecode :: "(string \<Rightarrow> jsonValue option) \<Rightarrow> (string \<Rightarrow> 'v option) \<Rightarrow> string \<Rightarrow> 'v option" where
  "strictDecode json typed data = (if \<not> RejectDuplicateKeys json data then None else typed data)"

definition decodeCommandTarget :: "CommandEnv \<Rightarrow> string \<Rightarrow> commandTarget option" where
  "decodeCommandTarget env data =
     (if data = [] \<or> length data > maxInputBytes then None
      else (case strictDecode (cv_json env) (cv_target env) data of
              None \<Rightarrow> None
            | Some target \<Rightarrow> if ct_Kind target \<noteq> TargetUser \<or> blank (ct_Name target) then None else Some target))"

definition decodeCommandArguments :: "CommandEnv \<Rightarrow> string \<Rightarrow> (string \<times> string gomap) option" where
  "decodeCommandArguments env data =
     (if data = [] \<or> length data > maxInputBytes then None
      else (case strictDecode (cv_json env) (cv_arguments env) data of
              None \<Rightarrow> None
            | Some arguments \<Rightarrow>
                if blank (ca_CommandID arguments) then None
                else map_option (\<lambda>values. (ca_CommandID arguments, values)) (ca_Arguments arguments)))"

definition command_Decode :: "CommandEnv \<Rightarrow> string \<Rightarrow> string \<Rightarrow> string + CommandInput" where
  "command_Decode env targetData argumentData =
     (case decodeCommandTarget env targetData of
        None \<Rightarrow> Inl ''command target must contain an exact Unix user''
      | Some target \<Rightarrow>
          (case decodeCommandArguments env argumentData of
             None \<Rightarrow> Inl ''invalid command arguments''
           | Some (commandID, values) \<Rightarrow>
               Inr \<lparr>ci_Target = targetData, ci_Arguments = argumentData, ci_TargetUser = trimSpace (ct_Name target),
                    ci_CommandID = trimSpace commandID, ci_CommandArgs = values\<rparr>))"

definition emptyCommand :: ExecPlan where
  "emptyCommand =
     \<lparr>sp_Schema = [], sp_RequestID = [], sp_ClientID = [], sp_Operation = [], sp_AuthorizationMode = [], sp_CommandID = [],
      sp_TargetUser = [], sp_TargetUID = 0, sp_TargetGID = 0, sp_SupplementaryGIDs = [], sp_Executable = [], sp_Arguments = [],
      sp_WorkingDirectory = [], sp_Environment = [], sp_TimeoutSeconds = 0, sp_MaxOutputBytes = 0, sp_SlotValues = [],
      sp_CatalogDigest = [], sp_RequestedDurationSeconds = 0, sp_RequestedMaxUses = 0, sp_RequestedMaxUsesDefaulted = False,
      sp_CreatedAt = 0\<rparr>"

definition command_Resolve :: "CatalogEnv \<Rightarrow> Snapshot \<Rightarrow> CommandInput \<Rightarrow> catalogError + CommandPlan" where
  "command_Resolve cenv snapshot input =
     bindR (Resolve cenv snapshot (ci_CommandID input) (ci_TargetUser input) (ci_CommandArgs input)) (\<lambda>resolved.
       Inr \<lparr>cp_ExecutionID = [], cp_Target = ci_Target input, cp_Arguments = ci_Arguments input, cp_Resolved = resolved,
            cp_Authorization = sudo_Request [] resolved, cp_Command = emptyCommand, cp_GrantID = [], cp_ReservationID = [],
            cp_GrantExpiresAt = 0\<rparr>)"

definition command_Present :: "CommandPlan \<Rightarrow> Presentation" where
  "command_Present v =
     \<lparr>pres_Title = ''Run approved Unix command'',
      pres_Summary = ''Run '' @ rs_CommandID (cp_Resolved v) @ '' once as '' @ rs_TargetUser (cp_Resolved v)\<rparr>"

definition equalSlots :: "string gomap \<Rightarrow> string gomap \<Rightarrow> bool" where
  "equalSlots left right = (length left = length right \<and> list_all (\<lambda>(name, v). stringAt right name = v) left)"

definition storedPlanMatches :: "Operation \<Rightarrow> ExecPlan \<Rightarrow> Resolved \<Rightarrow> bool" where
  "storedPlanMatches operation command resolved =
     (sp_RequestID command = ao_ID operation \<and> sp_ClientID command = ao_ClientID operation
      \<and> sp_Operation command = ao_Operation operation \<and> sp_CommandID command = rs_CommandID resolved
      \<and> sp_TargetUser command = rs_TargetUser resolved \<and> sp_CatalogDigest command = rs_CatalogDigest resolved
      \<and> equalSlots (sp_SlotValues command) (rs_SlotValues resolved))"

definition LoadStored :: "CommandEnv \<Rightarrow> CatalogEnv \<Rightarrow> Operation \<Rightarrow> ExecPlan \<Rightarrow> Snapshot \<Rightarrow> string + CommandPlan" where
  "LoadStored env cenv operation command snapshot =
     bindR (command_Decode env (ao_Target operation) (ao_Arguments operation)) (\<lambda>input.
       let mismatch = Inl ''stored sudo operation does not match its immutable plan''
       in case Resolve cenv snapshot (ci_CommandID input) (ci_TargetUser input) (ci_CommandArgs input) of
            Inl _ \<Rightarrow> mismatch
          | Inr resolved \<Rightarrow>
              if \<not> storedPlanMatches operation command resolved then mismatch
              else Inr \<lparr>cp_ExecutionID = ao_ID operation, cp_Target = ao_Target operation, cp_Arguments = ao_Arguments operation,
                        cp_Resolved = resolved, cp_Authorization = sudo_Request (ao_ClientID operation) resolved,
                        cp_Command = command, cp_GrantID = [], cp_ReservationID = [], cp_GrantExpiresAt = 0\<rparr>)"

section \<open>Binding a reservation\<close>

definition validReservationGrant :: "Grant \<Rightarrow> bool" where
  "validReservationGrant grant = (g_ID grant \<noteq> [] \<and> g_Revision grant \<ge> 1 \<and> g_ExpiresAt grant \<noteq> 0)"

definition validReservationUse :: "CommandPlan \<Rightarrow> UseReservation \<Rightarrow> bool" where
  "validReservationUse v reservation =
     (u_State (res_Use reservation) = UseReserved \<and> u_GrantID (res_Use reservation) = g_ID (res_Grant reservation)
      \<and> u_Operation (res_Use reservation) = req_Operation (cp_Authorization v))"

definition reservationModeMatchesExecution :: "Grant \<Rightarrow> string \<Rightarrow> bool" where
  "reservationModeMatchesExecution grant executionID =
     (let mode = stringAt (g_Metadata grant) MetadataMode
      in if mode = ''execution'' then g_ClientRequestID grant = executionID else mode = ''window'')"

text \<open>\<^verbatim>\<open>reflect.DeepEqual\<close> on maps of slices.\<close>

definition deepEqual :: "string list gomap \<Rightarrow> string list gomap \<Rightarrow> bool" where
  "deepEqual left right = (length left = length right \<and> list_all (\<lambda>(k, v). map_of right k = Some v) left)"

definition reservationMatchesCommandPlan :: "Grant \<Rightarrow> Request \<Rightarrow> bool" where
  "reservationMatchesCommandPlan grant req =
     (g_Client grant = req_Client req \<and> g_Operation grant = req_Operation req \<and> target_Kind (g_Target grant) = target_Kind (req_Target req)
      \<and> deepEqual (target_Fields (g_Target grant)) (target_Fields (req_Target req)) \<and> deepEqual (g_Attrs grant) (req_Attrs req))"

definition validCommandReservation :: "CommandPlan \<Rightarrow> UseReservation \<Rightarrow> bool" where
  "validCommandReservation v reservation =
     (validReservationGrant (res_Grant reservation) \<and> validReservationUse v reservation
      \<and> reservationMatchesCommandPlan (res_Grant reservation) (cp_Authorization v)
      \<and> reservationModeMatchesExecution (res_Grant reservation) (cp_ExecutionID v))"

definition command_BindReservation :: "CommandPlan \<Rightarrow> UseReservation \<Rightarrow> string + CommandPlan" where
  "command_BindReservation v reservation =
     (if \<not> validCommandReservation v reservation then Inl ''sudo execution reservation is invalid''
      else Inr (v\<lparr>cp_GrantID := g_ID (res_Grant reservation), cp_ReservationID := u_RequestID (res_Use reservation),
                  cp_GrantExpiresAt := g_ExpiresAt (res_Grant reservation)\<rparr>))"

section \<open>The client of the helper\<close>

record Exchange =
  ex_configured :: bool
  ex_dials :: bool
  ex_writes :: bool
  ex_reply :: string

text \<open>A failed call; \<open>NotCalled\<close> is an error that is no \<^verbatim>\<open>CallError\<close>.\<close>

datatype clientError = NotCalled string | CallError bool string

definition WasDispatched :: "clientError \<Rightarrow> bool" where
  "WasDispatched e = (case e of CallError dispatched _ \<Rightarrow> dispatched | NotCalled _ \<Rightarrow> False)"

definition exchangeTimeout :: "duration \<Rightarrow> duration \<Rightarrow> duration" where
  "exchangeTimeout configured0 minimum =
     (let configured = (if configured0 \<le> 0 then 10 * second else configured0) in if configured < minimum then minimum else configured)"

definition mismatchedExecutionID :: "ExecRequest \<Rightarrow> ExecResponse \<Rightarrow> bool" where
  "mismatchedExecutionID req resp =
     (xr_Type req = TypeExecute \<and> xs_ExecutionID resp \<noteq> [] \<and> xs_ExecutionID resp \<noteq> xr_ExecutionID req)"

definition client_exchange :: "ProtocolEnv \<Rightarrow> Exchange \<Rightarrow> ExecRequest \<Rightarrow> clientError + ExecResponse" where
  "client_exchange env ex req =
     (if \<not> ex_configured ex then Inl (NotCalled ''sudo helper socket is not configured'')
      else if \<not> ex_dials ex then Inl (CallError False ''sudo helper is unavailable'')
      else if (case WriteRequest env req of Inl _ \<Rightarrow> True | Inr _ \<Rightarrow> \<not> ex_writes ex) then Inl (CallError True ''write'')
      else (case ReadResponse env (ex_reply ex) of
              Inl _ \<Rightarrow> Inl (CallError True ''read'')
            | Inr resp \<Rightarrow>
                if mismatchedExecutionID req resp then Inl (CallError True ''sudo helper returned a mismatched execution id'') else Inr resp))"

definition client_Ready :: "ProtocolEnv \<Rightarrow> Exchange \<Rightarrow> clientError option" where
  "client_Ready env ex =
     (case client_exchange env ex Ping of
        Inl e \<Rightarrow> Some e
      | Inr resp \<Rightarrow> failIf (xs_Status resp \<noteq> StatusReady) (NotCalled ''sudo helper is not ready''))"

definition client_Execute ::
  "PlanEnv \<Rightarrow> ProtocolEnv \<Rightarrow> Exchange \<Rightarrow> string \<Rightarrow> ExecPlan \<Rightarrow> string \<Rightarrow> string \<Rightarrow> gotime \<Rightarrow> clientError + ExecResponse" where
  "client_Execute plans env ex executionID v grantID reservationID expiresAt =
     (case encodePlan plans v of
        Inl _ \<Rightarrow> Inl (NotCalled ''sudo plan is invalid'')
      | Inr canonical \<Rightarrow>
          client_exchange env ex
            \<lparr>xr_Version = protocolVersion, xr_Type = TypeExecute, xr_ExecutionID = executionID, xr_Plan = canonical,
             xr_PlanDigest = ae_digest (ple_agent plans) canonical, xr_GrantID = grantID, xr_ReservationID = reservationID,
             xr_ExpiresAt = expiresAt\<rparr>)"

section \<open>Execution\<close>

definition errExecutionRejected :: execError where "errExecutionRejected = ExecError ''sudo helper rejected execution''"
definition errResultUnknown :: execError where "errResultUnknown = ExecError ''sudo helper result is unknown''"

text \<open>\<^verbatim>\<open>errors.Is(err, errExecutionRejected)\<close>.\<close>

fun isRejected :: "execError \<Rightarrow> bool" where
  "isRejected (ExecError m) = (ExecError m = errExecutionRejected)"
| "isRejected (PossiblePartialError e) = isRejected e"
| "isRejected (WrappedError m e) = isRejected e"

definition noOutcome :: Outcome where
  "noOutcome = \<lparr>oc_Proven = False, oc_Result = [], oc_UpstreamStatus = 0\<rparr>"

definition validateExecutionAuthority :: "CommandPlan \<Rightarrow> execError option" where
  "validateExecutionAuthority v =
     failIf (cp_ExecutionID v = [] \<or> cp_GrantID v = [] \<or> cp_ReservationID v = [] \<or> cp_GrantExpiresAt v = 0)
       (ExecError ''sudo execution authority is incomplete'')"

definition helperDispatchFailure :: "clientError \<Rightarrow> Outcome \<times> execError option" where
  "helperDispatchFailure e =
     (let err = ExecError (case e of NotCalled m \<Rightarrow> m | CallError _ m \<Rightarrow> m)
      in (noOutcome, Some (if WasDispatched e then PossiblePartialError err else err)))"

definition completedStarted :: "ExecResponse \<Rightarrow> bool" where
  "completedStarted resp =
     (xs_Status resp = StatusCompleted \<and> (case xs_Outcome resp of Some out \<Rightarrow> xo_Started out | None \<Rightarrow> False))"

definition definitiveHelperRejection :: "ExecResponse \<Rightarrow> bool" where
  "definitiveHelperRejection resp = (xs_Status resp = StatusRejected \<or> xs_Status resp = StatusCompleted \<and> xs_Outcome resp \<noteq> None)"

definition outcomeFromHelperResponse :: "CommandEnv \<Rightarrow> ExecResponse \<Rightarrow> Outcome \<times> execError option" where
  "outcomeFromHelperResponse env resp =
     (if completedStarted resp then
        (case cv_view env (xs_ExecutionID resp) (the (xs_Outcome resp)) of
           Some encoded \<Rightarrow> (\<lparr>oc_Proven = True, oc_Result = encoded, oc_UpstreamStatus = 0\<rparr>, None)
         | None \<Rightarrow> (noOutcome, Some (ExecError ''json'')))
      else if definitiveHelperRejection resp then (noOutcome, Some (WrappedError (xs_ErrorCode resp) errExecutionRejected))
      else (noOutcome, Some (PossiblePartialError (WrappedError (xs_ErrorCode resp) errResultUnknown))))"

definition command_Execute :: "CommandEnv \<Rightarrow> PlanEnv \<Rightarrow> ProtocolEnv \<Rightarrow> Exchange \<Rightarrow> CommandPlan \<Rightarrow> Outcome \<times> execError option" where
  "command_Execute env plans proto ex v =
     (case validateExecutionAuthority v of
        Some e \<Rightarrow> (noOutcome, Some e)
      | None \<Rightarrow>
          (case client_Execute plans proto ex (cp_ExecutionID v) (cp_Command v) (cp_GrantID v) (cp_ReservationID v) (cp_GrantExpiresAt v) of
             Inl e \<Rightarrow> helperDispatchFailure e
           | Inr resp \<Rightarrow> outcomeFromHelperResponse env resp))"

definition command_Reconcile :: "CommandPlan \<Rightarrow> Outcome \<times> execError option" where
  "command_Reconcile v = (noOutcome, Some errResultUnknown)"

definition DefinitiveFailure :: "execError option \<Rightarrow> bool" where
  "DefinitiveFailure err = (case err of None \<Rightarrow> False | Some e \<Rightarrow> \<not> IsPossiblePartial e)"

definition sudo_ExecutionFailure :: "execError option \<Rightarrow> execError option \<Rightarrow> ExecutionFailure" where
  "sudo_ExecutionFailure executionErr reconcileErr =
     (case executionErr of
        Some e \<Rightarrow>
          if isRejected e then \<lparr>fl_Code = ''execution_rejected'', fl_Message = ''Command did not start'', fl_ReleaseApproval = True\<rparr>
          else if \<not> IsPossiblePartial e then
            \<lparr>fl_Code = ''helper_unavailable'', fl_Message = ''Privileged helper is unavailable'', fl_ReleaseApproval = True\<rparr>
          else \<lparr>fl_Code = ''execution_result_unknown'', fl_Message = ''Command result is unknown; it was not retried'',
                fl_ReleaseApproval = False\<rparr>
      | None \<Rightarrow> \<lparr>fl_Code = ''execution_result_unknown'', fl_Message = ''Command result is unknown; it was not retried'',
                 fl_ReleaseApproval = False\<rparr>)"

section \<open>Callbacks of the runtime\<close>

definition modeValid :: "string \<Rightarrow> bool" where
  "modeValid mode = (mode = ''window'' \<or> mode = ''execution'')"

definition sudoRuntimeGrantMode :: "(CommandPlan, Request) Preparation \<Rightarrow> string + string" where
  "sudoRuntimeGrantMode prep =
     (let mode = (case pp_ReusedGrant prep of
                    Some grant \<Rightarrow> stringAt (g_Metadata grant) MetadataMode
                  | None \<Rightarrow> (case dec_GrantPolicy (pp_Decision prep) of
                              Some policy \<Rightarrow> modeText (gp_Mode policy) | None \<Rightarrow> ''window''))
      in if \<not> modeValid mode then Inl ''sudo command approval mode is invalid'' else Inr mode)"

definition reusedSudoGrantBounds :: "Grant \<Rightarrow> string \<Rightarrow> string + (duration \<times> duration \<times> Limit)" where
  "reusedSudoGrantBounds grant mode =
     (if mode \<noteq> ''window'' then Inl ''only sudo window grants may be reused''
      else Inr (if g_Duration grant \<le> 0 then g_RequestedDuration grant else g_Duration grant, g_PendingTimeout grant, g_MaxUses grant))"

definition validSudoPolicyDuration :: "GrantPolicy \<Rightarrow> bool" where
  "validSudoPolicyDuration policy = (gp_DefaultMinutes policy \<ge> 1 \<and> gp_DefaultMinutes policy \<le> gp_MaxMinutes policy)"

definition validSudoPolicyUses :: "GrantPolicy \<Rightarrow> string \<Rightarrow> bool" where
  "validSudoPolicyUses policy mode = (mode \<noteq> ''execution'' \<or> gp_DefaultMaxUses policy = 1 \<and> gp_MaxUses policy = 1)"

definition newSudoGrantBounds :: "GrantPolicy option \<Rightarrow> string \<Rightarrow> string + (duration \<times> duration \<times> Limit)" where
  "newSudoGrantBounds policy0 mode =
     (case policy0 of
        None \<Rightarrow> Inl ''sudo command policy approval mode is invalid''
      | Some policy \<Rightarrow>
          if modeText (gp_Mode policy) \<noteq> mode then Inl ''sudo command policy approval mode is invalid''
          else if \<not> validSudoPolicyDuration policy then Inl ''requested duration exceeds policy bounds''
          else if \<not> validSudoPolicyUses policy mode then Inl ''sudo execution policy must be single-use''
          else Inr (wrap64 (gp_DefaultMinutes policy * minute), wrap64 (gp_RequestTTLMinutes policy * minute), gp_DefaultMaxUses policy))"

definition sudoRuntimeGrantBounds :: "(CommandPlan, Request) Preparation \<Rightarrow> string \<Rightarrow> string + (duration \<times> duration \<times> Limit)" where
  "sudoRuntimeGrantBounds prep mode =
     (case pp_ReusedGrant prep of
        Some grant \<Rightarrow> reusedSudoGrantBounds grant mode
      | None \<Rightarrow> newSudoGrantBounds (dec_GrantPolicy (pp_Decision prep)) mode)"

definition modeOf :: "string \<Rightarrow> GrantMode" where
  "modeOf mode = (if mode = ''execution'' then GrantModeExecution else GrantModeWindow)"

definition prepareRuntimePlan ::
  "PlanEnv \<Rightarrow> IdentityResolver \<Rightarrow> (CommandPlan, Request) Preparation \<Rightarrow> string + GrantIntent" where
  "prepareRuntimePlan plans identities prep =
     (if pp_Direct prep then Inl ''sudo operations require explicit approval''
      else bindR (sudoRuntimeGrantMode prep) (\<lambda>mode.
           bindR (sudoRuntimeGrantBounds prep mode) (\<lambda>(duration, pending, maxUses).
             let resolved = cp_Resolved (pp_Plan prep);
                 req = \<lparr>rq_Client = pp_Client prep, rq_ClientRequestID = pp_OperationID prep,
                        rq_Operation = pp_DescriptorName prep, rq_Target = req_Target (pp_Core prep),
                        rq_Attrs = req_Attrs (pp_Core prep), rq_Metadata = [(MetadataMode, mode)],
                        rq_Reason = pp_Reason prep, rq_Duration = duration, rq_PendingTimeout = pending,
                        rq_MaxUses = maxUses, rq_MaxUsesSpecified = True, rq_MaxUsesDefaulted = False\<rparr>
             in case identities (rs_TargetUser resolved) of
                  None \<Rightarrow> Inl ''target user cannot be resolved''
                | Some identity \<Rightarrow>
                    (case Build req resolved identity (pp_CreatedAt prep) of
                       Inl _ \<Rightarrow> Inl ''sudo plan input is invalid''
                     | Inr command \<Rightarrow>
                         (case PrepareBind plans req command of
                            Inl _ \<Rightarrow> Inl ''sudo plan is invalid''
                          | Inr (req', immutable) \<Rightarrow>
                              Inr \<lparr>in_Mode = modeOf mode, in_Authorization = pp_Core prep, in_Request = req', in_Plan = immutable\<rparr>)))))"

text \<open>\<open>grant\<close> is what \<^verbatim>\<open>grants.Get\<close> answers for the approval of the operation.\<close>

definition loadRuntimePlan ::
  "CommandEnv \<Rightarrow> Validator \<Rightarrow> Operation \<Rightarrow> grantError + Grant \<Rightarrow> string + CommandPlan" where
  "loadRuntimePlan env v operation grant0 =
     (if ao_ApprovalID operation = [] then Inl ''sudo operation has no approval''
      else (case grant0 of
              Inl _ \<Rightarrow> Inl ''sudo approval plan binding is invalid''
            | Inr grant \<Rightarrow>
                (case ValidateInvocation v (ao_PlanDigest operation) grant (ao_ID operation) of
                   Inl _ \<Rightarrow> Inl ''sudo plan is invalid''
                 | Inr command \<Rightarrow> LoadStored env (va_cenv v) operation command (va_catalog v))))"

definition sudo_PlanDigest :: "Grant \<Rightarrow> string" where
  "sudo_PlanDigest grant = stringAt (g_Metadata grant) MetadataDigest"

definition runtimeValidateExecution :: "Validator \<Rightarrow> Grant \<Rightarrow> bool" where
  "runtimeValidateExecution v grant = (case ValidateGrant v grant of Inl _ \<Rightarrow> False | Inr _ \<Rightarrow> True)"

definition auditDecision :: "string \<Rightarrow> string \<Rightarrow> string" where
  "auditDecision outcome detail =
     (if outcome \<noteq> ''allowed'' then (if detail = ''execution_result_unknown'' then ''ambiguous'' else ''rejected'') else ''executed'')"

section \<open>The adapter and its runtime\<close>

text \<open>\<open>exchanges k\<close> is what happens on the socket of the helper at the \<open>k\<close>-th call.\<close>

definition commandAdapter ::
  "CommandEnv \<Rightarrow> PlanEnv \<Rightarrow> ProtocolEnv \<Rightarrow> CatalogEnv \<Rightarrow> Snapshot \<Rightarrow> (nat \<Rightarrow> Exchange) \<Rightarrow> (CommandInput, CommandPlan, Request) Adapter" where
  "commandAdapter env plans proto cenv snapshot exchanges =
     \<lparr>ap_Name = OperationExecCommand, ap_Decode = command_Decode env,
      ap_Resolve = (\<lambda>_ input. case command_Resolve cenv snapshot input of
                               Inl _ \<Rightarrow> Inl (ExecError ''command cannot be resolved'') | Inr v \<Rightarrow> Inr v),
      ap_Authorize = cp_Authorization, ap_Present = command_Present,
      ap_Execute = (\<lambda>k. command_Execute env plans proto (exchanges k)), ap_Reconcile = (\<lambda>_. command_Reconcile),
      ap_ValidateClient = None, ap_RequiresApproval = Some True, ap_BindReservation = Some command_BindReservation\<rparr>"

text \<open>
  \<^verbatim>\<open>newOperationRuntime\<close>: the stores and services come with \<open>services\<close>, \<open>grantOf\<close> is \<^verbatim>\<open>grants.Get\<close>.
\<close>

definition newOperationRuntime ::
  "CommandEnv \<Rightarrow> PlanEnv \<Rightarrow> Validator \<Rightarrow> (string \<Rightarrow> grantError + Grant) \<Rightarrow> (CommandInput, CommandPlan, Request) Adapter
    \<Rightarrow> (CommandInput, CommandPlan, Request) RuntimeOptions \<Rightarrow> (CommandInput, CommandPlan, Request) RuntimeOptions" where
  "newOperationRuntime env plans v grantOf adapter services =
     services\<lparr>ro_Broker := ''sudo-broker'', ro_Registry := (\<lambda>name. if name = ap_Name adapter then Some adapter else None),
       ro_Project := (\<lambda>req. req),
       ro_SetClient := (\<lambda>p client. p\<lparr>cp_Authorization := (cp_Authorization p)\<lparr>req_Client := client\<rparr>\<rparr>),
       ro_InputData := (\<lambda>input. (ci_Target input, ci_Arguments input)), ro_PlanData := (\<lambda>p. (cp_Target p, cp_Arguments p)),
       ro_Prepare := prepareRuntimePlan plans (va_identities v),
       ro_Load := (\<lambda>operation _. loadRuntimePlan env v operation (grantOf (ao_ApprovalID operation))),
       ro_PlanDigest := sudo_PlanDigest, ro_ValidateExecution := runtimeValidateExecution v,
       ro_MapSubmissionError := (\<lambda>e. operationAPIError 400 ''operation_input_invalid'' (case e of ExecError m \<Rightarrow> m | _ \<Rightarrow> [])),
       ro_DefinitiveFailure := DefinitiveFailure, ro_ExecutionFailure := sudo_ExecutionFailure\<rparr>"

end
