(* ===== verification/SudoExchange.thy ===== *)
theory SudoExchange
  imports SudoExample SudoOperations
begin

text \<open>
  The broker and its privileged helper together: frames are read as they were written, an approval is given back only when the
  command did not start, and a state file that cannot be loaded stays that way.
\<close>

section \<open>Frames\<close>

lemma readUint32_putUint32:
  assumes "n < 4294967296"
  shows "readUint32 (putUint32 n) = n"
proof -
  have "byte (char_of m) = m mod 256" for m :: nat
    by (simp add: byte_def)
  moreover have "n div 16777216 mod 256 = n div 16777216"
    using assms by (simp add: less_mult_imp_div_less)
  moreover have "n = n div 16777216 * 16777216 + n div 65536 mod 256 * 65536 + n div 256 mod 256 * 256 + n mod 256"
  proof -
    have "n = n div 256 * 256 + n mod 256" "n div 256 = n div 65536 * 256 + n div 256 mod 256"
      "n div 65536 = n div 16777216 * 256 + n div 65536 mod 256"
      using div_mult2_eq[of n 256 256] div_mult2_eq[of n 65536 256] by (simp_all add: div_mult_mod_eq)
    then show ?thesis
      by linarith
  qed
  ultimately show ?thesis
    by (simp add: readUint32_def putUint32_def)
qed

lemma readValidated_written:
  assumes "writeValidated encode validate v = Inr frame" "encode v = Some text" "RejectDuplicateKeys json text" "typed text = Some v"
  shows "readValidated json typed validate (frame @ rest) = Inr v"
proof -
  have frame: "frame = putUint32 (length text) @ text" "text \<noteq> []" "length text \<le> MaxFrameSize" "validate v = None"
    using assms(1,2) by (auto simp: writeValidated_def writeFrame_def split: if_splits)
  have header: "length (putUint32 (length text)) = 4" "readUint32 (putUint32 (length text)) = length text"
    using frame(3) readUint32_putUint32[of "length text"] by (simp_all add: MaxFrameSize_def) (simp add: putUint32_def)
  then have "readFrameSize (frame @ rest) = Inr (length text, text @ rest)"
    using frame by (simp add: readFrameSize_def Let_def)
  then show ?thesis
    using frame(4) assms(3,4)
    by (simp add: readValidated_def readFrame_def readFrameData_def decodeFrameData_def bindR_def guardR_def)
qed

lemma written_reads_back:
  assumes "writeValidated encode validate v = Inr frame"
    and "\<And>body. encode v = Some body \<Longrightarrow> RejectDuplicateKeys json body \<and> typed body = Some v"
  shows "readValidated json typed validate (frame @ rest) = Inr v \<and> length frame \<le> MaxFrameSize + 4"
proof -
  obtain body where body: "encode v = Some body" "frame = putUint32 (length body) @ body" "length body \<le> MaxFrameSize"
    using assms(1) by (auto simp: writeValidated_def writeFrame_def split: option.splits if_splits)
  then show ?thesis
    using readValidated_written[OF assms(1) body(1)] assms(2) by (simp add: putUint32_def)
qed

section \<open>What an answer tells\<close>

text \<open>In this exchange the helper started the command.\<close>

definition startedIn :: "(HelperOracle \<times> HelperWorld \<times> HelperWorld) list \<Rightarrow> bool" where
  "startedIn log \<longleftrightarrow> (\<exists>(orc, w, w')\<in>set log. hw_runs w' \<noteq> hw_runs w \<and> xo_Started (ho_outcome orc))"

lemma startedIn_simps [simp]:
  "\<not> startedIn []" "startedIn (s1 @ s2) \<longleftrightarrow> startedIn s1 \<or> startedIn s2"
  "startedIn [(orc, w, w')] \<longleftrightarrow> hw_runs w' \<noteq> hw_runs w \<and> xo_Started (ho_outcome orc)"
  by (auto simp: startedIn_def)

definition mayHaveStarted :: "ExecResponse \<Rightarrow> bool" where
  "mayHaveStarted resp \<longleftrightarrow> completedStarted resp \<or> xs_Status resp = StatusAmbiguous"

lemma mayHaveStarted_simps [simp]:
  "mayHaveStarted (NewAmbiguous i code)" "mayHaveStarted (NewCompleted i out) \<longleftrightarrow> xo_Started out"
  by (auto simp: mayHaveStarted_def NewAmbiguous_def NewCompleted_def completedStarted_def StatusCompleted_def StatusAmbiguous_def)

text \<open>A program that starts nothing, and one that does not hide that it did.\<close>

definition startless :: "'a helper \<Rightarrow> bool" where
  "startless p \<longleftrightarrow> (\<forall>log x. mayAnswer p log x \<longrightarrow> \<not> startedIn log)"

definition honest :: "ExecResponse helper \<Rightarrow> bool" where
  "honest p \<longleftrightarrow> (\<forall>log resp. mayAnswer p log resp \<longrightarrow> startedIn log \<longrightarrow> mayHaveStarted resp)"

lemma startless_atom: "(\<And>orc w. hw_runs (fst (f orc w)) = hw_runs w) \<Longrightarrow> startless (atom f)"
  by (auto simp: startless_def mayAnswer_atom)

lemma startless_actions [intro]:
  "startless readNow" "startless (lookupExistingExecution cfg req)" "startless (claimExecution cfg req)" "startless (startExecution cfg i)"
  "startless (completeExecution cfg i out)" "startless (validateExecutableRequest cfg req v t)" "startless (atom (\<lambda>orc w. (w, f orc)))"
  unfolding readNow_def lookupExistingExecution_def claimExecution_def startExecution_def completeExecution_def
    validateExecutableRequest_def
  by (rule startless_atom, simp split: prod.split)+

lemma honest_Ret [intro]: "honest (Ret resp)"
  by (auto simp: honest_def)

lemma honest_bind [intro]: "startless p \<Longrightarrow> (\<And>x. honest (k x)) \<Longrightarrow> honest (bindP p k)"
  by (fastforce simp: honest_def startless_def mayAnswer_bind)

lemma honest_cases [intro]:
  "(\<And>e. honest (f e)) \<Longrightarrow> (\<And>x. honest (g x)) \<Longrightarrow> honest (case_sum f g r)"
  "honest p \<Longrightarrow> (\<And>x. honest (g x)) \<Longrightarrow> honest (case_option p g m)"
  "(\<And>a b. honest (h a b)) \<Longrightarrow> honest (case_prod h pair)"
  "honest p \<Longrightarrow> honest q \<Longrightarrow> honest (if b then p else q)"
  by (auto split: sum.split option.split prod.split)

lemma honest_run:
  "honest (bindP (runClaimedExecution cfg req v now) (\<lambda>out. bindP (completeExecution cfg i out) (\<lambda>e.
     if e \<noteq> None then Ret (NewAmbiguous i code) else Ret (NewCompleted i out))))"
proof -
  have "mayHaveStarted resp"
    if run: "mayAnswer (runClaimedExecution cfg req v now) s1 out"
      and after: "mayAnswer (bindP (completeExecution cfg i out) (\<lambda>e. if e \<noteq> None then Ret (NewAmbiguous i code) else Ret (NewCompleted i out))) s2 resp"
      and started: "startedIn s1 \<or> startedIn s2" for s1 s2 out resp
  proof -
    obtain c1 c2 e where answer: "s2 = c1 @ c2" "mayAnswer (completeExecution cfg i out) c1 e"
      "mayAnswer (if e \<noteq> None then Ret (NewAmbiguous i code) else Ret (NewCompleted i out)) c2 resp"
      using after unfolding mayAnswer_bind by blast
    then have end': "c2 = []" "resp = (if e \<noteq> None then NewAmbiguous i code else NewCompleted i out)"
      by (auto split: if_splits)
    have "\<not> startedIn s2"
      using answer(1,2) end'(1) startless_actions(5)[of cfg i out, unfolded startless_def, rule_format, of c1 e] by simp
    then have "xo_Started out"
      using run started by (auto simp: runClaimedExecution_def mayAnswer_atom)
    then show ?thesis
      using end'(2) by simp
  qed
  then show ?thesis
    unfolding honest_def mayAnswer_bind[of "runClaimedExecution cfg req v now"] by (metis startedIn_simps(2))
qed

lemma executeFresh_honest: "honest (executeFresh cfg req v now)"
  unfolding executeFresh_def by (intro honest_bind honest_cases honest_Ret startless_actions honest_run)

lemma helperExecute_honest: "honest (helperExecute cfg req)"
  unfolding helperExecute_def by (intro honest_bind honest_cases honest_Ret startless_actions executeFresh_honest)

lemma helperHandle_honest: "honest (helperHandle cfg)"
  unfolding helperHandle_def by (intro honest_bind honest_cases honest_Ret startless_actions helperExecute_honest)

text \<open>The exchange of one connection: what reaches the broker is the frame of the answer, or nothing that can be read.\<close>

definition served :: "ProtocolEnv \<Rightarrow> ExecResponse option \<Rightarrow> string \<Rightarrow> bool" where
  "served env answer reply \<longleftrightarrow>
     (case answer of None \<Rightarrow> (\<exists>e. ReadResponse env reply = Inl e) | Some resp \<Rightarrow> WriteResponse env resp = Inr reply)"

lemma connection_honest:
  assumes "mayAnswer (acceptConnection cfg busy) log (Some resp)" "startedIn log"
  shows "mayHaveStarted resp"
proof (cases "int busy < hc_maxConnections cfg")
  case True
  then obtain s1 s2 s3 now t resp' where answer: "log = s1 @ s2 @ s3" "mayAnswer readNow s1 t" "mayAnswer (helperHandle cfg) s2 resp'"
    "mayAnswer readNow s3 now" "Some resp = (case WriteResponse (se_proto (hc_state cfg)) resp' of
       Inl _ \<Rightarrow> None | Inr _ \<Rightarrow> if now < t + hc_requestTimeout cfg then Some resp' else None)"
    using assms(1) unfolding acceptConnection_def handleConnection_def if_P[OF True] mayAnswer_bind mayAnswer_Ret_iff by blast
  then have "resp' = resp"
    by (auto split: sum.splits if_splits)
  then show ?thesis
    using assms(2) answer(1-4) helperHandle_honest[of cfg] startless_actions(1) by (auto simp: honest_def startless_def)
qed (use assms in \<open>auto simp: acceptConnection_def\<close>)

section \<open>What the broker makes of it\<close>

definition commandCalls :: "PlanEnv \<Rightarrow> Exchange \<Rightarrow> CommandPlan \<Rightarrow> bool" where
  "commandCalls plans ex v \<longleftrightarrow>
     validateExecutionAuthority v = None \<and> (\<exists>c. encodePlan plans (cp_Command v) = Inr c) \<and> ex_configured ex \<and> ex_dials ex"

text \<open>When the broker reaches the helper, one connection is served, with other connections in between; else there is none.\<close>

definition exchanged ::
  "HelperConfig \<Rightarrow> PlanEnv \<Rightarrow> Exchange \<Rightarrow> CommandPlan \<Rightarrow> (HelperOracle \<times> HelperWorld \<times> HelperWorld) list \<Rightarrow> bool" where
  "exchanged cfg plans ex v log \<longleftrightarrow>
     (if commandCalls plans ex v
      then \<exists>busy answer. mayAnswer (acceptConnection cfg busy) log answer \<and> served (se_proto (hc_state cfg)) answer (ex_reply ex)
      else log = [])"

text \<open>\<^verbatim>\<open>encoding/json\<close> reads a response back as it was written.\<close>

definition responsesReadBack :: "ProtocolEnv \<Rightarrow> bool" where
  "responsesReadBack env \<longleftrightarrow>
     (\<forall>resp text. px_responseText env resp = Some text \<longrightarrow> RejectDuplicateKeys (px_json env) text \<and> px_response env text = Some resp)"

lemma served_read:
  assumes "responsesReadBack env" "served env answer reply" "ReadResponse env reply = Inr resp"
  shows "answer = Some resp"
proof (cases answer)
  case (Some sent)
  then have written: "WriteResponse env sent = Inr reply"
    using assms(2) by (simp add: served_def)
  then obtain body where "px_responseText env sent = Some body"
    by (auto simp: WriteResponse_def writeValidated_def writeFrame_def split: option.splits)
  then have "ReadResponse env (reply @ []) = Inr sent"
    unfolding ReadResponse_def
    using readValidated_written[OF written[unfolded WriteResponse_def]] assms(1) unfolding responsesReadBack_def by blast
  then show ?thesis
    using assms(3) Some by simp
qed (use assms in \<open>auto simp: served_def\<close>)

lemma client_Execute_read:
  assumes "ex_configured ex" "ex_dials ex" "encodePlan plans v = Inr c" "client_Execute plans env ex i v g r t = Inr resp"
  shows "ReadResponse env (ex_reply ex) = Inr resp"
  using assms by (auto simp: client_Execute_def client_exchange_def split: if_splits sum.splits)

lemma client_Execute_failed:
  assumes "ex_configured ex" "ex_dials ex" "encodePlan plans v = Inr c" "client_Execute plans env ex i v g r t = Inl e"
  shows "WasDispatched e" "\<And>m. e = CallError True m \<Longrightarrow> ExecError m \<noteq> errExecutionRejected"
  using assms by (auto simp: client_Execute_def client_exchange_def WasDispatched_def errExecutionRejected_def split: if_splits sum.splits)

lemma released_response:
  assumes "\<And>i out. cv_view env i out \<noteq> None" "outcomeFromHelperResponse env resp = (outcome, err)"
    and "fl_ReleaseApproval (sudo_ExecutionFailure err e)"
  shows "\<not> mayHaveStarted resp"
  using assms(1)[of "xs_ExecutionID resp" "the (xs_Outcome resp)"] assms(2,3)
  by (auto simp: outcomeFromHelperResponse_def sudo_ExecutionFailure_def errResultUnknown_def errExecutionRejected_def mayHaveStarted_def
      definitiveHelperRejection_def StatusAmbiguous_def StatusCompleted_def StatusRejected_def split: if_splits option.splits)

lemma released_not_started:
  assumes "exchanged cfg plans ex v log" "responsesReadBack (se_proto (hc_state cfg))" "\<And>i out. cv_view env i out \<noteq> None"
    and "command_Execute env plans (se_proto (hc_state cfg)) ex v = (outcome, err)" "fl_ReleaseApproval (sudo_ExecutionFailure err e)"
  shows "\<not> startedIn log"
proof (cases "commandCalls plans ex v")
  case True
  note called = True[unfolded commandCalls_def]
  then obtain c where c: "encodePlan plans (cp_Command v) = Inr c"
    by blast
  obtain busy answer where answer: "mayAnswer (acceptConnection cfg busy) log answer" "served (se_proto (hc_state cfg)) answer (ex_reply ex)"
    using assms(1) True by (auto simp: exchanged_def)
  let ?call = "client_Execute plans (se_proto (hc_state cfg)) ex (cp_ExecutionID v) (cp_Command v) (cp_GrantID v) (cp_ReservationID v)
    (cp_GrantExpiresAt v)"
  show ?thesis
  proof (cases ?call)
    case (Inl failure)
    then have "\<not> fl_ReleaseApproval (sudo_ExecutionFailure err e)"
      using client_Execute_failed[OF _ _ c Inl] called assms(4)
      by (cases failure) (auto simp: command_Execute_def helperDispatchFailure_def sudo_ExecutionFailure_def WasDispatched_def Let_def)
    then show ?thesis
      using assms(5) by simp
  next
    case (Inr resp)
    then have "answer = Some resp"
      using served_read[OF assms(2) answer(2)] client_Execute_read[OF _ _ c Inr] called by simp
    moreover have "outcomeFromHelperResponse env resp = (outcome, err)"
      using assms(4) Inr called by (simp add: command_Execute_def)
    ultimately show ?thesis
      using released_response[OF assms(3) _ assms(5)] connection_honest answer(1) by blast
  qed
qed (use assms(1) in \<open>simp add: exchanged_def\<close>)

section \<open>A state file that cannot be loaded\<close>

definition sealed :: "StateEnv \<Rightarrow> stateDisk \<Rightarrow> bool" where
  "sealed env disk \<longleftrightarrow> (\<forall>readable. \<exists>e. loadState env readable disk = Inl e)"

lemma sealed_loadState: "sealed env disk \<Longrightarrow> loadState env True disk \<noteq> Inr data \<and> loadState env readable disk \<noteq> Inr data"
  by (auto simp: sealed_def) (metis sum.distinct(1))+

lemma sealed_calls:
  assumes "sealed env disk"
  shows "\<exists>e. lookupState env readable i digest g r disk = Inl e"
    and "\<exists>e. claimState env readable write t t' i digest g r disk = (disk, Inl e)"
    and "\<exists>e. updateState env readable write i mutate disk = (disk, Some e)"
  using assms[unfolded sealed_def, rule_format, of readable]
  by (auto simp: lookupState_def claimState_def updateState_def bindR_def)

interpretation sealedHelper: ownership "\<lambda>t (w :: HelperWorld). hw_disk w = disk \<and> hw_runs w = runs" "\<lambda>_ _ _. True" "\<lambda>_ _. True" "()" clocked
  for disk :: stateDisk and runs :: "HelperRun list"
  by unfold_locales simp_all

abbreviation "sealedly \<equiv> sealedHelper.guarded"

lemma sealed_atom:
  fixes f :: "HelperOracle \<Rightarrow> HelperWorld \<Rightarrow> HelperWorld \<times> 'a"
  assumes "\<And>orc w. hw_disk w = disk \<Longrightarrow> hw_disk (fst (f orc w)) = disk \<and> hw_runs (fst (f orc w)) = hw_runs w \<and> Q (snd (f orc w))"
  shows "sealedly disk runs () (atom f) (\<lambda>x _. Q x)"
proof (rule sealedHelper.guarded_atom)
  fix t t' x and orc :: HelperOracle and w w' :: HelperWorld
  assume "hw_disk w = disk \<and> hw_runs w = runs" "f orc w = (w', x)"
  then show "\<exists>\<gamma>'. sealedHelper.keeps disk runs t w () t' w' \<gamma>' \<and> Q x"
    using assms[of w orc] by (simp add: sealedHelper.keeps_def)
qed

lemma sealed_actions:
  shows "sealedly disk runs () readNow (\<lambda>_ _. True)"
    and "sealedly disk runs () (atom (\<lambda>orc w. (w, f orc))) (\<lambda>_ _. True)"
  unfolding readNow_def by (rule sealed_atom; simp)+

lemma sealed_lookup:
  assumes "sealed (hc_state cfg) disk"
  shows "sealedly disk runs () (lookupExistingExecution cfg req) (\<lambda>x _. \<exists>e. x = Inl e)"
  unfolding lookupExistingExecution_def
proof (rule sealed_atom, goal_cases)
  case (1 orc w)
  let ?looked = "executionStateResult (lookupState (hc_state cfg) (ho_readable orc) (xr_ExecutionID req) (xr_PlanDigest req)
    (xr_GrantID req) (xr_ReservationID req) (hw_disk w))"
  obtain e where "?looked = Inl e"
    using sealed_calls(1)[OF assms, of "ho_readable orc" "xr_ExecutionID req" "xr_PlanDigest req" "xr_GrantID req" "xr_ReservationID req"] 1
    by (auto simp: executionStateResult_def)
  then show ?case
    using 1 by simp
qed

lemmas sealed_then = sealedHelper.guarded_bind[OF sealedHelper.guarded_mono]

lemma sealed_execute:
  assumes "sealed (hc_state cfg) disk"
  shows "sealedly disk runs () (helperExecute cfg req) (\<lambda>_ _. True)"
  unfolding helperExecute_def
  by (rule sealed_then[OF sealed_actions(1)])
     (auto intro!: sealed_then[OF sealed_lookup[OF assms]] sealedHelper.guarded_Ret split: option.splits sum.splits)

lemma sealed_handle:
  assumes "sealed (hc_state cfg) disk"
  shows "sealedly disk runs () (helperHandle cfg) (\<lambda>_ _. True)"
  unfolding helperHandle_def
  by (auto intro!: sealed_then[OF sealed_actions(2)] sealedHelper.guarded_Ret sealed_execute[OF assms]
      split: option.splits sum.splits)

lemma sealed_connection:
  assumes "sealed (hc_state cfg) disk"
  shows "sealedly disk runs () (acceptConnection cfg busy) (\<lambda>_ _. True)"
  unfolding acceptConnection_def handleConnection_def
  by (auto intro!: sealed_then[OF sealed_actions(1)] sealed_then[OF sealed_handle[OF assms]] sealedHelper.guarded_Ret)

lemma sealed_interleaved:
  assumes "sealed (hc_state cfg) (hw_disk w0)"
    and "interleaved clocked (\<lambda>ths p. p = acceptConnection cfg (liveThreads ths)) t0 w0 t w ths"
  shows "hw_disk w = hw_disk w0 \<and> hw_runs w = hw_runs w0"
  using sealedHelper.interleaved_invariant[OF assms(2), of "hw_disk w0" "hw_runs w0"] sealed_connection[OF assms(1)] by blast

text \<open>A claim may leave such a file: the state takes fewer IDs than the protocol, and a smaller file than it writes.\<close>

lemma validateExecutionLoop_valid:
  "validateExecutionLoop env k seen recs = None \<Longrightarrow> rec \<in> set recs \<Longrightarrow> validateExecutionRecord env rec"
  by (induction env k seen recs rule: validateExecutionLoop.induct) (auto split: if_splits)

lemma claimState_claimed:
  assumes "claimState env readable write t t' i digest g r disk = (disk', Inr (rec, True))"
  obtains data n where "disk' = Some (data, n)" "rec \<in> set (ef_Executions data)" "er_ID rec = i" "er_GrantID rec = g" "er_ReservationID rec = r"
proof -
  have "\<exists>data n. disk' = Some (data, n) \<and> rec \<in> set (ef_Executions data)" "er_ID rec = i" "er_GrantID rec = g" "er_ReservationID rec = r"
    using assms
    by (auto simp: claimState_def saveState_def Let_def split: sum.splits option.splits if_splits prod.splits writeResult.splits)
  then show ?thesis
    using that by blast
qed

lemma claim_seals:
  assumes "claimState env readable write t t' i digest g r disk = (disk', Inr (rec, True))"
    and "\<not> boundedStateID i \<or> \<not> boundedStateID g \<or> \<not> boundedStateID r \<or> maxStateBytes < snd (the disk')"
  shows "sealed env disk'"
proof -
  obtain data n where disk': "disk' = Some (data, n)" "rec \<in> set (ef_Executions data)" "er_ID rec = i" "er_GrantID rec = g"
    "er_ReservationID rec = r"
    using claimState_claimed[OF assms(1)] by blast
  have "\<not> validateExecutionRecord env rec \<or> maxStateBytes < n"
    using assms(2) disk' by (auto simp: validateExecutionRecord_def validateExecutionBinding_def)
  then have "validateExecutionLoop env 0 [] (ef_Executions data) \<noteq> None \<or> maxStateBytes < n"
    using validateExecutionLoop_valid disk'(2) by blast
  then show ?thesis
    using disk'(1) by (auto simp: sealed_def loadState_def validateExecutionFile_def guardR_def split: option.split)
qed

end
