(* ===== verification/SudoProperties.thy ===== *)
theory SudoProperties
  imports SudoExchange
begin

text \<open>
  The properties of the sudo broker and its privileged helper, each with an instance on the host of \<open>SudoExample\<close>.
\<close>

section \<open>The helper\<close>

text \<open>
  C4. The helper never runs an execution twice while it remembers it: whatever connections arrive, however their actions interleave
  with writes of the state that fail before or after the new content is in place and with crashes of the helper, two runs with the same execution
  ID are further apart than completed records are kept.
\<close>

theorem helper_runs_once:
  assumes "interleaved clocked (\<lambda>ths p. p = acceptConnection cfg (liveThreads ths)) t0 w0 t w ths"
    and "hw_runs w0 = []"
  shows "sorted_wrt (\<lambda>a b. run_ID a = run_ID b \<longrightarrow> run_At a + completedRetention < run_At b) (hw_runs w)"
proof -
  have "helperInv cfg t w"
    using helper.interleaved_invariant[OF assms(1)] assms(2) connection_guarded by (auto simp: helperInv_def)
  then show ?thesis
    by (simp add: helperInv_def spaced_def[abs_def])
qed

lemma demo_reachable:
  "interleaved clocked (\<lambda>ths p. p = acceptConnection demoHelper (liveThreads ths)) 100 demoWorld 100 (demoServed demoOutcome)
     [Ret (Some (NewCompleted ''op_00001'' demoOutcome))]"
proof -
  have start: "interleaved clocked (\<lambda>ths p. p = acceptConnection demoHelper (liveThreads ths)) 100 demoWorld 100 demoWorld
      ([] @ [acceptConnection demoHelper 0])"
    by (rule spawn[OF first]) (simp add: liveThreads_def)
  have "clocked 100 100 orc" if "orc \<in> set (demoOracles demoOutcome)" for orc
    using that by (simp add: clocked_def demoOracle_def demoOracles_def Let_def)
  from interleaved_alone[OF start this demo_exchange] show ?thesis
    by simp
qed

theorem helper_runs_once_witness:
  "sorted_wrt (\<lambda>a b. run_ID a = run_ID b \<longrightarrow> run_At a + completedRetention < run_At b) (hw_runs (demoServed demoOutcome))
    \<and> hw_runs (demoServed demoOutcome) = [demoRun]"
  using helper_runs_once[OF demo_reachable] by (simp add: demoWorld_def demoServed_def)

text \<open>
  C5. What the helper runs its catalog declares: each command that was handed to the runner has a plan that was checked before,
  against some state of the files and of the identities, where the executable and the working directory lie on paths that only
  root can change, and, with an installation whose paths are clean, the command, its arguments, target user, directory, environment, time and
  output limits are those of a catalog entry and of the identity of the user.
\<close>

theorem helper_runs_declared:
  assumes "interleaved clocked (\<lambda>ths p. p = acceptConnection cfg (liveThreads ths)) t0 w0 t w ths"
    and "hw_runs w0 = []" and "Catalog_Parse env data = Inr (hc_catalog cfg)" and "run \<in> set (hw_runs w)"
  shows "\<exists>fs identities. (run_Plan run, fs, identities) \<in> set (hw_checks w)
    \<and> trustedPath fs (sp_Executable (run_Plan run)) True \<and> trustedPath fs (sp_WorkingDirectory (run_Plan run)) False
    \<and> (filesClean fs \<longrightarrow> planDeclared (filesNow cfg fs) (hc_catalog cfg) identities (run_Plan run))"
proof -
  have "helperInv cfg t w"
    using helper.interleaved_invariant[OF assms(1)] assms(2) connection_guarded by (auto simp: helperInv_def)
  then obtain fs identities where checked: "(run_Plan run, fs, identities) \<in> set (hw_checks w)" "passed cfg (run_Plan run) fs identities"
    using assms(4) by (auto simp: helperInv_def runChecked_def)
  have "planDeclared (filesNow cfg fs) (hc_catalog cfg) identities (run_Plan run)" if "filesClean fs"
    using checked(2) that by (intro ValidateForHelper_declared[OF Parse_wf[OF assms(3)]]) (simp_all add: passed_def filesNow_def)
  then show ?thesis
    using checked host_ValidateExecution_trusted by (auto simp: passed_def)
qed

theorem helper_runs_declared_witness:
  "planDeclared (filesNow demoHelper demoFiles) demoSnapshot demoIdentities demoPlan \<and> trustedPath demoFiles ''/usr/bin/uptime'' True"
proof -
  have "filesClean demoFiles"
    using demo_files by (simp add: stableFiles_def)
  then show ?thesis
    using helper_runs_declared[OF demo_reachable _ _, of demoCatalogEnv "''document''" demoRun] demo_parse
    by (simp add: demoWorld_def demoServed_def demoHelper_def demoRun_def) (simp add: demoPlan_def)
qed

text \<open>
  C7. An approval is given back only when the command did not start: when the broker turns the outcome of a call of the helper
  into a failure that releases the approval, then in that exchange, whatever other connections did in between, no command
  was started. Without a connection there is nothing to start; a connection that broke, or an answer that could not be read, keeps the approval.
\<close>

theorem released_approval_did_not_start:
  assumes "exchanged cfg plans ex v log" "responsesReadBack (se_proto (hc_state cfg))" "\<And>i out. cv_view env i out \<noteq> None"
    and "command_Execute env plans (se_proto (hc_state cfg)) ex v = (outcome, err)" "fl_ReleaseApproval (sudo_ExecutionFailure err e)"
  shows "\<forall>(orc, w, w')\<in>set log. hw_runs w' \<noteq> hw_runs w \<longrightarrow> \<not> xo_Started (ho_outcome orc)"
  using released_not_started[OF assms(1,2) assms(3) assms(4,5)] by (auto simp: startedIn_def)

lemma demo_written: "WriteRequest demoProtocol demoExecRequest = Inr (putUint32 1 @ ''q'')"
  using demo_request_valid
  by (simp add: WriteRequest_def writeValidated_def writeFrame_def demoProtocol_def guardR_def MaxFrameSize_def)

definition demoCommandEnv :: CommandEnv where
  "demoCommandEnv = \<lparr>cv_json = demoJSON, cv_target = (\<lambda>_. None), cv_arguments = (\<lambda>_. None), cv_view = (\<lambda>_ _. Some ''view'')\<rparr>"

definition demoCommandPlan :: CommandPlan where
  "demoCommandPlan =
     \<lparr>cp_ExecutionID = ''op_00001'', cp_Target = [], cp_Arguments = [], cp_Resolved = demoResolved,
      cp_Authorization = sudo_Request ''agent'' demoResolved, cp_Command = demoPlan, cp_GrantID = ''grant_1'',
      cp_ReservationID = ''op_00001'', cp_GrantExpiresAt = 300 * second\<rparr>"

definition demoSocket :: "string \<Rightarrow> Exchange" where
  "demoSocket reply = \<lparr>ex_configured = True, ex_dials = True, ex_writes = True, ex_reply = reply\<rparr>"

text \<open>A run that did not get as far as starting the command: the approval is released.\<close>

theorem released_approval_did_not_start_witness:
  "\<not> startedIn (logOf (demoOracles notStarted) demoWorld (acceptConnection demoHelper 0))"
proof -
  have "\<forall>(orc, w, w')\<in>set (logOf (demoOracles notStarted) demoWorld (acceptConnection demoHelper 0)).
     hw_runs w' \<noteq> hw_runs w \<longrightarrow> \<not> xo_Started (ho_outcome orc)"
  proof (rule released_approval_did_not_start[where ex = "demoSocket (putUint32 1 @ ''n'')" and plans = demoPlanEnv and v = demoCommandPlan
      and env = demoCommandEnv and cfg = demoHelper])
    have proto: "se_proto (hc_state demoHelper) = demoProtocol"
      by (simp add: demoHelper_def demoStateEnv_def)
    have authority: "validateExecutionAuthority demoCommandPlan = None"
      by (simp add: validateExecutionAuthority_def demoCommandPlan_def second_def)
    have encoded: "encodePlan demoPlanEnv demoPlan = Inr ''plan''"
      using demo_plan_valid by (simp add: encodePlan_def demoPlanEnv_def guardR_def)
    have "mayAnswer (acceptConnection demoHelper 0) (logOf (demoOracles notStarted) demoWorld (acceptConnection demoHelper 0))
        (Some (NewCompleted ''op_00001'' notStarted))"
      using runProg_mayAnswer[OF demo_exchange] by blast
    then show "exchanged demoHelper demoPlanEnv (demoSocket (putUint32 1 @ ''n'')) demoCommandPlan
        (logOf (demoOracles notStarted) demoWorld (acceptConnection demoHelper 0))"
      using authority encoded demo_response(2)
      by (auto simp: exchanged_def commandCalls_def proto served_def demoSocket_def demoCommandPlan_def
          intro!: exI[of _ 0] exI[of _ "Some (NewCompleted ''op_00001'' notStarted)"])
    show backs: "responsesReadBack (se_proto (hc_state demoHelper))"
      using demo_distinct by (auto simp: proto responsesReadBack_def demoProtocol_def demoJSON_def RejectDuplicateKeys_def)
    have read: "ReadResponse demoProtocol (putUint32 1 @ ''n'') = Inr (NewCompleted ''op_00001'' notStarted)"
      using written_reads_back[OF demo_response(2)[unfolded WriteResponse_def], of "px_json demoProtocol" "px_response demoProtocol" "[]"] backs
      by (simp add: ReadResponse_def responsesReadBack_def proto)
    obtain frame where "WriteRequest demoProtocol demoExecRequest = Inr frame"
      using demo_written by blast
    then have "client_Execute demoPlanEnv demoProtocol (demoSocket (putUint32 1 @ ''n'')) ''op_00001'' demoPlan ''grant_1'' ''op_00001''
        (300 * second) = Inr (NewCompleted ''op_00001'' notStarted)"
      using encoded read
      by (simp add: client_Execute_def client_exchange_def demoSocket_def demoExecRequest_def demoPlanEnv_def mismatchedExecutionID_def NewCompleted_def)
    then show "command_Execute demoCommandEnv demoPlanEnv (se_proto (hc_state demoHelper)) (demoSocket (putUint32 1 @ ''n'')) demoCommandPlan =
        (noOutcome, Some (WrappedError [] errExecutionRejected))"
      using authority
      by (simp add: command_Execute_def proto demoCommandPlan_def outcomeFromHelperResponse_def completedStarted_def definitiveHelperRejection_def
          NewCompleted_def notStarted_def)
    show "fl_ReleaseApproval (sudo_ExecutionFailure (Some (WrappedError [] errExecutionRejected)) None)"
      by (simp add: sudo_ExecutionFailure_def errExecutionRejected_def)
  qed (simp add: demoCommandEnv_def)
  then show ?thesis
    by (auto simp: startedIn_def)
qed

text \<open>
  C25. A claim can stop the helper for good. The state takes fewer execution, grant and reservation IDs than the protocol (which
  admits control characters), and it reads a smaller file than it writes (the last line break is not counted); after a claim with such an ID, or of
  such a size, the state cannot be loaded, so no later connection, in any interleaving, runs a command or changes the state.
\<close>

theorem claim_can_stop_the_helper:
  assumes "claimState (hc_state cfg) readable write pruneNow claimNow i digest g r disk = (disk', Inr (rec, True))"
    and "\<not> boundedStateID i \<or> \<not> boundedStateID g \<or> \<not> boundedStateID r \<or> maxStateBytes < snd (the disk')"
    and "hw_disk w0 = disk'" "interleaved clocked (\<lambda>ths p. p = acceptConnection cfg (liveThreads ths)) t0 w0 t w ths"
  shows "hw_disk w = disk' \<and> hw_runs w = hw_runs w0"
  using sealed_interleaved[OF _ assms(4)] claim_seals[OF assms(1,2)] assms(3) by simp

definition controlID :: string where
  "controlID = [CHR ''a'', CHR 0x01, CHR ''b'']"

definition controlRecord :: executionRecord where
  "controlRecord = (demoRecord ExecutionClaimed 0 0 None)\<lparr>er_ID := controlID\<rparr>"

lemma demo_control:
  "claimState demoStateEnv True WriteDone 100 100 controlID (digestText CHR ''b'') ''grant_1'' ''op_00001'' None =
     (demoDisk controlRecord, Inr (controlRecord, True))"
  by (simp add: claimState_def loadState_def validateExecutionFile_def maxStateRecords_def guardR_def pruneCompleted_def findExecution_def Let_def
      saveState_def) (simp add: demoStateEnv_def maxStateBytes_def demoDisk_def controlRecord_def demoRecord_def)

theorem claim_can_stop_the_helper_witness:
  "boundedID controlID \<and> \<not> boundedStateID controlID
    \<and> hw_disk (demoWorld\<lparr>hw_disk := demoDisk controlRecord\<rparr>) = demoDisk controlRecord \<and> hw_runs (demoWorld\<lparr>hw_disk := demoDisk controlRecord\<rparr>) = []"
proof -
  have ids: "boundedID controlID" "\<not> boundedStateID controlID"
    by code_simp+
  have "interleaved clocked (\<lambda>ths p. p = acceptConnection demoHelper (liveThreads ths)) 100 (demoWorld\<lparr>hw_disk := demoDisk controlRecord\<rparr>)
      100 (demoWorld\<lparr>hw_disk := demoDisk controlRecord\<rparr>) ([] @ [acceptConnection demoHelper 0])"
    by (rule spawn[OF first]) (simp add: liveThreads_def)
  from claim_can_stop_the_helper[OF _ _ _ this] demo_control ids show ?thesis
    by (simp add: demoHelper_def demoWorld_def)
qed

text \<open>
  C36. Frames read back: a request or a response that was written is read as itself, whatever follows it in the connection, and its
  frame is at most four bytes longer than the limit, where JSON reads back the two values.
\<close>

theorem frames_read_back:
  assumes "WriteRequest env req = Inr frame" "WriteResponse env resp = Inr frame'"
    and "\<And>body. px_requestText env req = Some body \<Longrightarrow> RejectDuplicateKeys (px_json env) body \<and> px_request env body = Some req"
    and "\<And>body. px_responseText env resp = Some body \<Longrightarrow> RejectDuplicateKeys (px_json env) body \<and> px_response env body = Some resp"
  shows "ReadRequest env (frame @ rest) = Inr req \<and> ReadResponse env (frame' @ rest) = Inr resp
    \<and> length frame \<le> MaxFrameSize + 4 \<and> length frame' \<le> MaxFrameSize + 4"
  using written_reads_back[OF assms(1)[unfolded WriteRequest_def] assms(3)] written_reads_back[OF assms(2)[unfolded WriteResponse_def] assms(4)]
  by (simp add: ReadRequest_def ReadResponse_def)

theorem frames_read_back_witness:
  "ReadRequest demoProtocol ((putUint32 1 @ ''q'') @ ''x'') = Inr demoExecRequest
    \<and> ReadResponse demoProtocol ((putUint32 1 @ ''c'') @ ''x'') = Inr (NewCompleted ''op_00001'' demoOutcome)"
proof -
  have "RejectDuplicateKeys (px_json demoProtocol) ''q''" "RejectDuplicateKeys (px_json demoProtocol) ''c''"
    "px_requestText demoProtocol demoExecRequest = Some ''q''" "px_request demoProtocol ''q'' = Some demoExecRequest"
    "px_responseText demoProtocol (NewCompleted ''op_00001'' demoOutcome) = Some ''c''"
    "px_response demoProtocol ''c'' = Some (NewCompleted ''op_00001'' demoOutcome)"
    using demo_distinct demo_distinct[symmetric] by (simp_all add: demoProtocol_def demoJSON_def RejectDuplicateKeys_def)
  then show ?thesis
    using frames_read_back[OF demo_written demo_response(1), of "''x''"] by simp
qed

section \<open>Plans and grants\<close>

text \<open>
  C15. A plan that was just made is accepted wherever it is checked: the request of a resolved command is built into a plan, bound
  and granted; then, while the catalog, the files it names and the identity of the target user stay as they are, the activation of
  the grant under every constraint within the request, the check before a use, and the check of the operation that owns the plan
  all succeed, in the window and in the execution mode, and give the plan back. JSON reads back what it wrote, and the resolved values are valid UTF-8.
\<close>

theorem fresh_plan_is_accepted:
  assumes "Catalog_Parse env0 data = Inr s" "snapshotMaps s" "stableFiles (ce_fs cenv)" "jsonLaws cenv"
    and "Resolve cenv s cid user inputs = Inr r" "\<forall>(_, v)\<in>set (rs_SlotValues r). validUTF8 v"
    and "identities user = Some identity" "sorted (id_SupplementaryGIDs identity)"
    and "rq_Target req = req_Target (sudo_Request client r)" "rq_Attrs req = req_Attrs (sudo_Request client r)"
    and "Build req r identity now = Inr p" "PrepareBind penv req p = Inr (req', plan)"
    and "Plan (ple_agent penv) ok (plan_Digest plan) db = Inr stored"
    and "pr_SchemaName stored = plan_SchemaName plan" "pr_Canonical stored = plan_Canonical plan"
    and "RejectDuplicateKeys (ple_json penv) (plan_Canonical plan)" "ple_decode penv (plan_Canonical plan) = Some p"
    and "v = \<lparr>va_env = penv, va_db = db, va_ok = ok, va_cenv = cenv, va_catalog = s, va_identities = identities, va_ready = None\<rparr>"
    and "g = newGrant i t req'"
  shows "(constraintsWithinGrant c (rq_Duration req) (rq_MaxUses req) \<longrightarrow> ValidateActivation v g c = None) \<and> ValidateGrant v g = Inr p
    \<and> ValidateInvocation v (plan_Digest plan) g (rq_ClientRequestID req) = Inr p"
  by (rule fresh_plan_checks[OF assms])

definition demoGranted :: Grant where
  "demoGranted = newGrant ''grant_1'' 60 demoBoundRequest"

definition demoShorter :: ApprovalConstraints where
  "demoShorter = \<lparr>c_Duration = 120 * second, c_MaxUses = 0, c_MaxUsesSpecified = False\<rparr>"

lemma demo_within: "constraintsWithinGrant demoShorter (rq_Duration demoGrantRequest) (rq_MaxUses demoGrantRequest)"
  by (simp add: constraintsWithinGrant_def demoShorter_def demoGrantRequest_def IsFinite_def second_def)

lemma demo_parts:
  "plan_Digest demoImmutable = digestText CHR ''b''" "plan_SchemaName demoImmutable = SchemaV1" "plan_Canonical demoImmutable = ''plan''"
  "pr_SchemaName demoStoredPlan = SchemaV1" "pr_Canonical demoStoredPlan = ''plan''" "rq_ClientRequestID demoGrantRequest = ''op_00001''"
  "rq_Target demoGrantRequest = req_Target (sudo_Request ''agent'' demoResolved)"
  "rq_Attrs demoGrantRequest = req_Attrs (sudo_Request ''agent'' demoResolved)"
  "demoIdentities ''root'' = Some demoIdentity" "sorted (id_SupplementaryGIDs demoIdentity)" "rs_SlotValues demoResolved = [(''count'', ''3'')]"
  "ce_fs demoCatalogEnv = demoFiles" "RejectDuplicateKeys (ple_json demoPlanEnv) ''plan''" "ple_decode demoPlanEnv ''plan'' = Some demoPlan"
  by (simp_all add: demoImmutable_def demoStoredPlan_def demoGrantRequest_def demoIdentities_def demoIdentity_def demoResolved_def
      demoCatalogEnv_def demoPlanEnv_def RejectDuplicateKeys_def demoJSON_def)

lemma demo_found: "Plan (ple_agent demoPlanEnv) True (plan_Digest demoImmutable) demoPlanDB = Inr demoStoredPlan"
  using demo_stored by (simp add: demo_parts)

lemma demo_checks:
  "(constraintsWithinGrant demoShorter (rq_Duration demoGrantRequest) (rq_MaxUses demoGrantRequest)
     \<longrightarrow> ValidateActivation demoValidator demoGranted demoShorter = None)
   \<and> ValidateGrant demoValidator demoGranted = Inr demoPlan \<and> ValidateInvocation demoValidator (plan_Digest demoImmutable) demoGranted
       (rq_ClientRequestID demoGrantRequest) = Inr demoPlan"
  by (rule fresh_plan_checks[OF demo_parse demo_maps _ demo_json demo_resolve _ _ _ _ _ demo_build demo_bind demo_found _ _ _ _ demoValidator_def
      demoGranted_def]) (simp_all add: demo_parts demo_files demo_utf8)

theorem fresh_plan_is_accepted_witness:
  "ValidateActivation demoValidator demoGranted demoShorter = None \<and> ValidateInvocation demoValidator (digestText CHR ''b'') demoGranted ''op_00001'' = Inr demoPlan"
  using fresh_plan_is_accepted[OF demo_parse demo_maps _ demo_json demo_resolve _ _ _ _ _ demo_build demo_bind demo_found _ _ _ _ demoValidator_def
      demoGranted_def, where c = demoShorter] demo_files demo_utf8 demo_within
  by (simp add: demo_parts)

text \<open>
  C22. An operator who narrows a window approval of a sudo command gets an approval that the requesting operation cannot use: the
  activation is accepted, since it compares the plan with the requested duration, but when the runtime loads the plan of any
  operation with that digest, the plan is held against the approved duration, and the window is said not to cover it.
\<close>

theorem narrowed_window_refuses_its_plan:
  assumes "stringAt (g_Metadata g) MetadataMode = ''window''" and "ValidateActivation v g c = None" and "0 < g_RequestedDuration g"
    and "0 < c_Duration c" and "durationSeconds (c_Duration c) \<noteq> durationSeconds (g_RequestedDuration g)"
  shows "ValidateInvocation v (stringAt (g_Metadata g) MetadataDigest) (applyApprovalConstraints g c) requestID = Inl PlanWindowMismatch"
  by (rule narrowed_window_mismatch[OF assms])

theorem narrowed_window_refuses_its_plan_witness:
  "ValidateInvocation demoValidator (digestText CHR ''b'') (applyApprovalConstraints demoGranted demoShorter) ''op_00001'' = Inl PlanWindowMismatch"
proof -
  have metadata: "stringAt (g_Metadata demoGranted) MetadataMode = ''window''" "stringAt (g_Metadata demoGranted) MetadataDigest = digestText CHR ''b''"
    using metadata_keys metadata_keys[symmetric]
    by (simp_all add: demoGranted_def newGrant_fields demoBoundRequest_def stringAt_mapSet stringAt_def)
  have "g_RequestedDuration demoGranted = 300 * second" "c_Duration demoShorter = 120 * second"
    by (simp_all add: demoGranted_def newGrant_fields demoBoundRequest_def demoGrantRequest_def demoShorter_def)
  then show ?thesis
    using narrowed_window_refuses_its_plan[OF metadata(1), of demoValidator demoShorter] demo_checks demo_within metadata(2)
    by (simp add: durationSeconds_def second_def)
qed

end
