(* ===== verification/GitProtocol.thy ===== *)
theory GitProtocol
  imports GoStrings "HOL-Library.Sublist"
begin

text \<open>
  The Git smart HTTP protocol as the brokers read it: \<^verbatim>\<open>git/protocol/pktline.go\<close>, \<^verbatim>\<open>receive_pack.go\<close> and \<^verbatim>\<open>refusal.go\<close>.

  \<^item> The pkt-line format is that of the go-git package, a parameter: \<open>pk_scan\<close> is one step of its scanner on input that is not empty,
    \<open>pk_encode\<close> its encoder, \<open>pk_maxPayload\<close> its constant. A scanned line takes its four length bytes and its payload off the input.
  \<^item> \<^verbatim>\<open>strings.Fields\<close> splits at every rune that \<^verbatim>\<open>unicode.IsSpace\<close> accepts (\<open>spaceRunes\<close>).
\<close>

section \<open>Words\<close>

function fieldsLoop :: "string \<Rightarrow> string \<Rightarrow> string list" where
  "fieldsLoop word s =
     (if s = [] then (if word = [] then [] else [rev word])
      else (case List.find (\<lambda>w. w \<noteq> [] \<and> prefix w s) spaceRunes of
              Some w \<Rightarrow> (if word = [] then [] else [rev word]) @ fieldsLoop [] (drop (length w) s)
            | None \<Rightarrow> fieldsLoop (rev (take (runeWidth s) s) @ word) (drop (runeWidth s) s)))"
  by pat_completeness auto
termination
  by (relation "measure (\<lambda>(word, s). length s)") (auto simp: find_Some_iff prefix_def)

declare fieldsLoop.simps [simp del]

definition goFields :: "string \<Rightarrow> string list" where
  "goFields s = fieldsLoop [] s"

text \<open>The part before the first byte \<open>c\<close>, and the part after it if there is one.\<close>

definition cutByte :: "char \<Rightarrow> string \<Rightarrow> string \<times> string option" where
  "cutByte c s = (case dropWhile (\<lambda>x. x \<noteq> c) s of [] \<Rightarrow> (s, None) | _ # rest \<Rightarrow> (takeWhile (\<lambda>x. x \<noteq> c) s, Some rest))"

definition nul :: char where "nul = CHR 0x00"
definition newline :: string where "newline = [CHR 0x0A]"

fun joinWords :: "string list \<Rightarrow> string" where
  "joinWords [] = []"
| "joinWords [w] = w"
| "joinWords (w # ws) = w @ '' '' @ joinWords ws"

section \<open>Packet lines\<close>

text \<open>\<open>ScanEOF\<close>: the input ended where a payload should begin; the scanner then reports \<^verbatim>\<open>io.EOF\<close> as its error.\<close>

datatype pktScan = ScanLine string | ScanEOF | ScanError

record PktCodec =
  pk_scan :: "string \<Rightarrow> pktScan"
  pk_encode :: "string \<Rightarrow> string option"
  pk_maxPayload :: nat

datatype pktRead = Payload string string | Flush string | InputEnd | ReadError

definition ReadPktLine :: "PktCodec \<Rightarrow> string \<Rightarrow> pktRead" where
  "ReadPktLine codec s =
     (if s = [] then InputEnd
      else (case pk_scan codec s of
              ScanError \<Rightarrow> ReadError
            | ScanEOF \<Rightarrow> InputEnd
            | ScanLine p \<Rightarrow> if p = [] then Flush (drop 4 s) else Payload p (drop (4 + length p) s)))"

text \<open>\<^verbatim>\<open>Scanner.Next\<close>; \<open>InputEnd\<close> is \<^verbatim>\<open>ErrDone\<close>.\<close>

definition scannerNext :: "PktCodec \<Rightarrow> string \<Rightarrow> pktRead" where
  "scannerNext codec s =
     (if s = [] then InputEnd
      else (case pk_scan codec s of
              ScanError \<Rightarrow> ReadError
            | ScanEOF \<Rightarrow> ReadError
            | ScanLine p \<Rightarrow> if p = [] then Flush (drop 4 s) else Payload p (drop (4 + length p) s)))"

lemma ReadPktLine_shorter:
  "ReadPktLine codec s = Payload p rest \<Longrightarrow> length rest < length s" "ReadPktLine codec s = Flush rest \<Longrightarrow> length rest < length s"
  "scannerNext codec s = Payload p rest \<Longrightarrow> length rest < length s" "scannerNext codec s = Flush rest \<Longrightarrow> length rest < length s"
  by (auto simp: ReadPktLine_def scannerNext_def split: if_splits pktScan.splits)

definition AppendPktLine :: "PktCodec \<Rightarrow> string \<Rightarrow> string \<Rightarrow> string option" where
  "AppendPktLine codec dst payload = map_option (\<lambda>frame. dst @ frame) (pk_encode codec payload)"

definition flushPkt :: string where "flushPkt = ''0000''"

definition AppendFlushPkt :: "string \<Rightarrow> string" where
  "AppendFlushPkt dst = dst @ flushPkt"

definition removeCapability :: "string \<Rightarrow> string \<Rightarrow> string \<times> bool" where
  "removeCapability payload capability =
     (case cutByte nul payload of
        (_, None) \<Rightarrow> (payload, False)
      | (head, Some tail) \<Rightarrow>
          (head @ [nul] @ joinWords (filter (\<lambda>f. f \<noteq> capability \<and> \<not> prefix (capability @ ''='') f) (goFields tail))
             @ (if hasSuffix payload newline then newline else []), True))"

text \<open>\<open>None\<close> is an error of the scanner or the encoder.\<close>

function removeCapabilityLoop :: "PktCodec \<Rightarrow> string \<Rightarrow> bool \<Rightarrow> string \<Rightarrow> string \<Rightarrow> string option" where
  "removeCapabilityLoop codec capability rewritten out s =
     (case scannerNext codec s of
        InputEnd \<Rightarrow> Some out
      | ReadError \<Rightarrow> None
      | Flush rest \<Rightarrow> removeCapabilityLoop codec capability rewritten (AppendFlushPkt out) rest
      | Payload p rest \<Rightarrow>
          (let (p', rewritten') = (if rewritten then (p, True) else removeCapability p capability)
           in case AppendPktLine codec out p' of
                None \<Rightarrow> None
              | Some out' \<Rightarrow> removeCapabilityLoop codec capability rewritten' out' rest))"
  by pat_completeness auto
termination
  by (relation "measure (\<lambda>(codec, capability, rewritten, out, s). length s)") (auto dest: ReadPktLine_shorter)

declare removeCapabilityLoop.simps [simp del]

definition RemoveAdvertisementCapability :: "PktCodec \<Rightarrow> string \<Rightarrow> string \<Rightarrow> string option" where
  "RemoveAdvertisementCapability codec data capability = removeCapabilityLoop codec capability False [] data"

section \<open>Receive-pack commands\<close>

definition sha1ObjectIDLength :: nat where "sha1ObjectIDLength = 40"
definition sha256ObjectIDLength :: nat where "sha256ObjectIDLength = 64"

datatype RefUpdateKind = BranchCreate | BranchUpdate | RefDelete | TagCreate | TagUpdate | RefOther

record ReceivePackCommand =
  rf_Old :: string
  rf_New :: string
  rf_Ref :: string
  rf_Kind :: RefUpdateKind

record ReceivePackRequest =
  rp_Commands :: "ReceivePackCommand list"
  rp_Capabilities :: "bool gomap"

datatype commandError = PktUnread | CommandFields | CommandObjectID | CommandMixed | CommandRef | CommandShallow

definition isHexChar :: "char \<Rightarrow> bool" where
  "isHexChar c = ((CHR ''0'' \<le> c \<and> c \<le> CHR ''9'') \<or> (CHR ''a'' \<le> c \<and> c \<le> CHR ''f'') \<or> (CHR ''A'' \<le> c \<and> c \<le> CHR ''F''))"

definition isObjectID :: "string \<Rightarrow> bool" where
  "isObjectID v = ((length v = sha1ObjectIDLength \<or> length v = sha256ObjectIDLength) \<and> list_all isHexChar v)"

definition isZeroObjectID :: "string \<Rightarrow> bool" where
  "isZeroObjectID v = (isObjectID v \<and> list_all (\<lambda>c. c = CHR ''0'') v)"

definition hasValidRefShape :: "string \<Rightarrow> bool" where
  "hasValidRefShape ref =
     (prefix ''refs/'' ref \<and> ref \<noteq> ''refs/'' \<and> ref \<noteq> ''@'' \<and> \<not> containsSub ''..'' ref \<and> \<not> containsSub [CHR ''@'', CHR 0x7B] ref
      \<and> \<not> hasSuffix ref ''/'' \<and> \<not> hasSuffix ref ''.'')"

definition validRefComponent :: "string \<Rightarrow> bool" where
  "validRefComponent component = (\<not> (component = [] \<or> prefix ''.'' component \<or> hasSuffix component ''.lock''))"

definition hasValidRefComponents :: "string \<Rightarrow> bool" where
  "hasValidRefComponents ref = list_all validRefComponent (splitOn CHR ''/'' ref)"

definition validRefChar :: "char \<Rightarrow> bool" where
  "validRefChar c = (\<not> (byte c \<le> 32 \<or> byte c = 127 \<or> c \<in> set (''~^:?*['' @ [CHR 0x5C])))"

definition hasValidRefChars :: "string \<Rightarrow> bool" where
  "hasValidRefChars ref = list_all validRefChar ref"

definition isValidRefName :: "string \<Rightarrow> bool" where
  "isValidRefName ref = (hasValidRefShape ref \<and> hasValidRefComponents ref \<and> hasValidRefChars ref)"

definition classifyCreateOrUpdate :: "string \<Rightarrow> RefUpdateKind \<Rightarrow> RefUpdateKind \<Rightarrow> RefUpdateKind" where
  "classifyCreateOrUpdate old create update = (if isZeroObjectID old then create else update)"

definition classify :: "string \<Rightarrow> string \<Rightarrow> string \<Rightarrow> RefUpdateKind" where
  "classify old new ref =
     (if isZeroObjectID new then RefDelete
      else if prefix ''refs/tags/'' ref then classifyCreateOrUpdate old TagCreate TagUpdate
      else if prefix ''refs/heads/'' ref then classifyCreateOrUpdate old BranchCreate BranchUpdate
      else RefOther)"

definition parseShallow :: "string list \<Rightarrow> commandError + bool" where
  "parseShallow parts =
     (case parts of
        [a, b] \<Rightarrow> if a = ''shallow'' then (if isObjectID b then Inr True else Inl CommandShallow) else Inr False
      | _ \<Rightarrow> Inr False)"

text \<open>\<open>None\<close> is a line that holds no command.\<close>

definition parseCommandFields :: "string list \<Rightarrow> commandError + ReceivePackCommand option" where
  "parseCommandFields parts =
     (case parseShallow parts of
        Inl e \<Rightarrow> Inl e
      | Inr True \<Rightarrow> Inr None
      | Inr False \<Rightarrow>
          (case parts of
             [old, new, ref] \<Rightarrow>
               if \<not> isObjectID old \<or> \<not> isObjectID new then Inl CommandObjectID
               else if length old \<noteq> length new then Inl CommandMixed
               else if \<not> isValidRefName ref then Inl CommandRef
               else Inr (Some \<lparr>rf_Old = old, rf_New = new, rf_Ref = ref, rf_Kind = classify old new ref\<rparr>)
           | _ \<Rightarrow> Inl CommandFields))"

definition addCapabilities :: "string list \<Rightarrow> bool gomap \<Rightarrow> bool gomap" where
  "addCapabilities names caps = fold (\<lambda>name. mapSet name True) names caps"

definition parseCommandPayloadWithCapabilities ::
  "string \<Rightarrow> bool \<Rightarrow> bool gomap \<Rightarrow> bool gomap \<times> (commandError + ReceivePackCommand option)" where
  "parseCommandPayloadWithCapabilities payload first caps =
     (let (line, tail) = cutByte nul (trimSuffix payload newline);
          caps' = (case tail of Some t \<Rightarrow> if first then addCapabilities (goFields t) caps else caps | None \<Rightarrow> caps);
          parts = goFields line
      in (caps', if parts = [] then Inr None else parseCommandFields parts))"

text \<open>The request and the input that is left.\<close>

function receivePackLoop ::
  "PktCodec \<Rightarrow> bool \<Rightarrow> ReceivePackRequest \<Rightarrow> string \<Rightarrow> commandError + (ReceivePackRequest \<times> string)" where
  "receivePackLoop codec first req s =
     (case ReadPktLine codec s of
        InputEnd \<Rightarrow> Inr (req, [])
      | Flush rest \<Rightarrow> Inr (req, rest)
      | ReadError \<Rightarrow> Inl PktUnread
      | Payload p rest \<Rightarrow>
          (case parseCommandPayloadWithCapabilities p first (rp_Capabilities req) of
             (_, Inl e) \<Rightarrow> Inl e
           | (caps, Inr None) \<Rightarrow> receivePackLoop codec first (req\<lparr>rp_Capabilities := caps\<rparr>) rest
           | (caps, Inr (Some command)) \<Rightarrow>
               receivePackLoop codec False (req\<lparr>rp_Capabilities := caps, rp_Commands := rp_Commands req @ [command]\<rparr>) rest))"
  by pat_completeness auto
termination
  by (relation "measure (\<lambda>(codec, first, req, s). length s)") (auto dest: ReadPktLine_shorter)

declare receivePackLoop.simps [simp del]

definition ParseReceivePackRequest :: "PktCodec \<Rightarrow> string \<Rightarrow> commandError + (ReceivePackRequest \<times> string)" where
  "ParseReceivePackRequest codec body = receivePackLoop codec True \<lparr>rp_Commands = [], rp_Capabilities = []\<rparr> body"

definition ParseReceivePackCommands :: "PktCodec \<Rightarrow> string \<Rightarrow> commandError + ReceivePackCommand list" where
  "ParseReceivePackCommands codec body = map_sum id (\<lambda>(req, rest). rp_Commands req) (ParseReceivePackRequest codec body)"

section \<open>Refusals\<close>

record ReceivePackFailure =
  rpf_Ref :: string
  rpf_Reason :: string

definition cleanReceivePackReason :: "string \<Rightarrow> string" where
  "cleanReceivePackReason reason =
     (let reason' = map (\<lambda>c. if c = CHR 0x0A \<or> c = CHR 0x0D then CHR '' '' else c) (trimSpace reason)
      in if reason' = [] then ''refused'' else reason')"

definition receivePackFailureReasons :: "ReceivePackFailure list \<Rightarrow> string gomap \<times> string" where
  "receivePackFailureReasons failures =
     (fold (\<lambda>f. mapSet (rpf_Ref f) (cleanReceivePackReason (rpf_Reason f))) failures [],
      case failures of [] \<Rightarrow> ''push refused'' | f # _ \<Rightarrow> cleanReceivePackReason (rpf_Reason f))"

definition receivePackUsesSideBand :: "bool gomap \<Rightarrow> bool" where
  "receivePackUsesSideBand caps = (map_of caps ''side-band-64k'' = Some True \<or> map_of caps ''side-band'' = Some True)"

definition maxSideBandDataPayload :: "PktCodec \<Rightarrow> nat" where
  "maxSideBandDataPayload codec = pk_maxPayload codec - 1"

text \<open>\<^verbatim>\<open>min(len(payload), maxSideBandDataPayload)\<close> is positive, since the limit of go-git is.\<close>

function appendReceivePackBandBytes :: "PktCodec \<Rightarrow> string \<Rightarrow> char \<Rightarrow> string \<Rightarrow> string option" where
  "appendReceivePackBandBytes codec dst band payload =
     (if payload = [] then Some dst
      else (let n = max 1 (min (length payload) (maxSideBandDataPayload codec))
            in case AppendPktLine codec dst (band # take n payload) of
                 None \<Rightarrow> None
               | Some dst' \<Rightarrow> appendReceivePackBandBytes codec dst' band (drop n payload)))"
  by pat_completeness auto
termination
  by (relation "measure (\<lambda>(codec, dst, band, payload). length payload)") auto

declare appendReceivePackBandBytes.simps [simp del]

fun refusalLoop :: "PktCodec \<Rightarrow> string \<Rightarrow> string gomap \<Rightarrow> ReceivePackCommand list \<Rightarrow> string \<Rightarrow> string option" where
  "refusalLoop codec service reasons [] dst = Some dst"
| "refusalLoop codec service reasons (command # commands) dst =
     (let found = stringAt reasons (rf_Ref command);
          reason = (if found = [] then ''push refused by '' @ service @ '' because another ref failed'' else found)
      in case AppendPktLine codec dst (''ng '' @ rf_Ref command @ '' '' @ service @ '': '' @ reason @ newline) of
           None \<Rightarrow> None
         | Some dst' \<Rightarrow> refusalLoop codec service reasons commands dst')"

definition appendReceivePackFailures ::
  "PktCodec \<Rightarrow> string \<Rightarrow> string \<Rightarrow> ReceivePackCommand list \<Rightarrow> string gomap \<Rightarrow> string option" where
  "appendReceivePackFailures codec dst service commands reasons =
     (case AppendPktLine codec dst (''unpack ok'' @ newline) of
        None \<Rightarrow> None | Some dst' \<Rightarrow> refusalLoop codec service reasons commands dst')"

definition wrapReceivePackSideBand :: "PktCodec \<Rightarrow> string \<Rightarrow> string \<Rightarrow> string \<Rightarrow> string option" where
  "wrapReceivePackSideBand codec service reason status =
     (case appendReceivePackBandBytes codec [] (char_of (2::nat)) (service @ '': '' @ reason @ newline) of
        None \<Rightarrow> None
      | Some out \<Rightarrow> map_option AppendFlushPkt (appendReceivePackBandBytes codec out (char_of (1::nat)) status))"

definition BuildReceivePackRefusal ::
  "PktCodec \<Rightarrow> string \<Rightarrow> ReceivePackRequest \<Rightarrow> ReceivePackFailure list \<Rightarrow> string option" where
  "BuildReceivePackRefusal codec service req failures =
     (let (reasons, firstReason) = receivePackFailureReasons failures
      in case appendReceivePackFailures codec [] service (rp_Commands req) reasons of
           None \<Rightarrow> None
         | Some status0 \<Rightarrow>
             (let status = AppendFlushPkt status0
              in if \<not> receivePackUsesSideBand (rp_Capabilities req) then Some status
                 else wrapReceivePackSideBand codec service firstReason status))"

end
