(* ===== verification/GitHubPush.thy ===== *)
theory GitHubPush
  imports GitProtocol
begin

text \<open>
  How the GitHub broker classifies the ref updates of a push: \<^verbatim>\<open>brokers/github/internal/httpapi/receive_pack.go\<close>,
  \<^verbatim>\<open>git_pack_classification.go\<close> and \<^verbatim>\<open>classifyReceivePackCommand\<close> of \<^verbatim>\<open>server.go\<close>, with the limits of \<^verbatim>\<open>git/protocol/pack.go\<close>.

  Reading the objects of a pack is the work of go-git behind \<^verbatim>\<open>ExtractCommitAndTagObjects\<close>, and a parameter (\<open>extract\<close>); \<open>None\<close> is an error.
  The failure that the code keeps beside a graph goes to the log and nowhere else.
\<close>

section \<open>Pack limits\<close>

record PackLimits =
  pl_MaxPackBytes :: int
  pl_MaxObjects :: int
  pl_MaxObjectBytes :: int
  pl_MaxInflatedBytes :: int

record PackObject =
  po_Type :: string
  po_Data :: string
  po_Hash :: string

definition maxInt64 :: int where "maxInt64 = 9223372036854775807"

definition validatePackLimits :: "string \<Rightarrow> PackLimits \<Rightarrow> bool" where
  "validatePackLimits pack limits =
     (\<not> (pl_MaxPackBytes limits \<le> 0 \<or> pl_MaxObjects limits = 0 \<or> pl_MaxObjectBytes limits \<le> 0 \<or> pl_MaxInflatedBytes limits \<le> 0)
      \<and> \<not> int (length pack) > pl_MaxPackBytes limits)"

definition addInflatedBytes :: "int \<Rightarrow> int \<Rightarrow> int \<Rightarrow> int option" where
  "addInflatedBytes sofar n maximum = (if n < 0 \<or> sofar > wrap64 (maximum - n) then None else Some (wrap64 (sofar + n)))"

text \<open>
  The variable-length sizes at the head of a delta: seven bits a byte, the last byte below 128. The result is the value and the offset
  after it. \<^verbatim>\<open>uint64(b) << shift\<close> keeps 64 bits.
\<close>

function deltaSizeLoop :: "string \<Rightarrow> int \<Rightarrow> nat \<Rightarrow> nat \<Rightarrow> nat \<Rightarrow> (int \<times> nat) option" where
  "deltaSizeLoop data maximum offset shift acc =
     (if offset \<ge> length data \<or> shift \<ge> 63 then None
      else (let current = byte (data ! offset);
                acc' = or acc ((current mod 128 * 2 ^ shift) mod 2 ^ 64)
            in if int acc' > maxInt64 then None
               else if int acc' > maximum then None
               else if current < 128 then Some (int acc', Suc offset)
               else deltaSizeLoop data maximum (Suc offset) (shift + 7) acc'))"
  by pat_completeness auto
termination
  by (relation "measure (\<lambda>(data, maximum, offset, shift, acc). length data - offset)") auto

declare deltaSizeLoop.simps [simp del]

definition deltaSize :: "string \<Rightarrow> nat \<Rightarrow> int \<Rightarrow> (int \<times> nat) option" where
  "deltaSize data offset maximum = deltaSizeLoop data maximum offset 0 0"

definition deltaTargetSize :: "string \<Rightarrow> int \<Rightarrow> int option" where
  "deltaTargetSize delta maximum =
     (case deltaSize delta 0 maximum of None \<Rightarrow> None
      | Some (_, offset) \<Rightarrow> map_option fst (deltaSize delta offset maximum))"

section \<open>The commit graph of a push\<close>

definition maxGitHubPushObjects :: int where "maxGitHubPushObjects = 1000000"
definition maxGitHubPushObjectBytes :: int where "maxGitHubPushObjectBytes = 67108864"

definition githubPushPackLimits :: "int \<Rightarrow> PackLimits" where
  "githubPushPackLimits maxPackBytes0 =
     (let maxPackBytes = (if maxPackBytes0 \<le> 0 then 26214400 else maxPackBytes0);
          inflated = (if maxPackBytes > maxInt64 div 8 then maxInt64 else maxPackBytes * 8)
      in \<lparr>pl_MaxPackBytes = maxPackBytes, pl_MaxObjects = maxGitHubPushObjects,
          pl_MaxObjectBytes = min maxPackBytes maxGitHubPushObjectBytes, pl_MaxInflatedBytes = inflated\<rparr>)"

record receivePackGraph =
  gr_parents :: "string list gomap"
  gr_valid :: bool

definition emptyGraph :: receivePackGraph where
  "emptyGraph = \<lparr>gr_parents = [], gr_valid = False\<rparr>"

definition parentLine :: "string \<Rightarrow> string option" where
  "parentLine line =
     (if prefix ''parent '' line \<and> length (drop 7 line) = 40 \<and> list_all isHexChar (drop 7 line) then Some (drop 7 line) else None)"

definition commitParents :: "string \<Rightarrow> string list" where
  "commitParents data = List.map_filter parentLine (takeWhile (\<lambda>line. line \<noteq> []) (splitOn CHR 0x0A data))"

definition inspectReceivePackGraph ::
  "(PackLimits \<Rightarrow> string \<Rightarrow> PackObject list option) \<Rightarrow> string \<Rightarrow> int \<Rightarrow> receivePackGraph" where
  "inspectReceivePackGraph extract pack maxPackBytes =
     (if length pack < 4 \<or> take 4 pack \<noteq> ''PACK'' then emptyGraph
      else (case extract (githubPushPackLimits maxPackBytes) pack of
              None \<Rightarrow> emptyGraph
            | Some objects \<Rightarrow>
                \<lparr>gr_parents = fold (\<lambda>object m. if po_Type object = ''commit''
                                              then mapSet (po_Hash object) (commitParents (po_Data object)) m else m) objects [],
                 gr_valid = True\<rparr>))"

text \<open>The stack of \<^verbatim>\<open>commitGraphContains\<close> grows and shrinks at its end.\<close>

function graphLoop :: "string list gomap \<Rightarrow> string \<Rightarrow> string list \<Rightarrow> string list \<Rightarrow> bool" where
  "graphLoop parents wanted seen pending =
     (if pending = [] then False
      else (let current = last pending
            in if current = wanted then True
               else if current \<in> set seen then graphLoop parents wanted seen (butlast pending)
               else graphLoop parents wanted (current # seen) (butlast pending @ sliceAt parents current)))"
  by pat_completeness auto
termination
proof (relation "measures [\<lambda>(parents, wanted, seen, pending). card (fst ` set parents - set seen),
    \<lambda>(parents, wanted, seen, pending). length pending]", goal_cases)
  case (3 parents wanted seen pending current)
  show ?case
  proof (cases "current \<in> fst ` set parents")
    case True
    then have "card (fst ` set parents - insert current (set seen)) < card (fst ` set parents - set seen)"
      using 3(4) by (intro psubset_card_mono) auto
    then show ?thesis
      by simp
  next
    case False
    then have "map_of parents current = None"
      by (simp add: map_of_eq_None_iff)
    then have "sliceAt parents current = []"
      by (simp add: sliceAt_def)
    moreover have "fst ` set parents - insert current (set seen) = fst ` set parents - set seen"
      using False by auto
    ultimately show ?thesis
      using 3(1) by simp
  qed
qed auto

declare graphLoop.simps [simp del]

definition commitGraphContains :: "string list gomap \<Rightarrow> string \<Rightarrow> string \<Rightarrow> bool" where
  "commitGraphContains parents start wanted = graphLoop parents wanted [] [start]"

definition provesFastForward :: "receivePackGraph \<Rightarrow> string \<Rightarrow> string \<Rightarrow> bool" where
  "provesFastForward graph old new =
     (gr_valid graph \<and> length old = 40 \<and> length new = 40 \<and> commitGraphContains (gr_parents graph) new old)"

section \<open>Classification\<close>

record githubCommand =
  gc_OldOID :: string
  gc_NewOID :: string
  gc_Ref :: string

definition receivePackRequestFromBody :: "PktCodec \<Rightarrow> string \<Rightarrow> commandError + (githubCommand list \<times> ReceivePackRequest \<times> string)" where
  "receivePackRequestFromBody codec body =
     bindR (ParseReceivePackRequest codec body) (\<lambda>(req, pack).
       Inr (map (\<lambda>c. \<lparr>gc_OldOID = rf_Old c, gc_NewOID = rf_New c, gc_Ref = rf_Ref c\<rparr>) (rp_Commands req), req, pack))"

definition isZeroOID :: "string \<Rightarrow> bool" where
  "isZeroOID v = ((length v = 40 \<or> length v = 64) \<and> list_all (\<lambda>c. c = CHR ''0'') v)"

definition OperationGitRefDelete :: string where "OperationGitRefDelete = ''git.ref.delete''"
definition OperationGitTagUpdate :: string where "OperationGitTagUpdate = ''git.tag.update''"
definition OperationGitPushBranchCreate :: string where "OperationGitPushBranchCreate = ''git.push.branch_create''"
definition OperationGitPushFastForward :: string where "OperationGitPushFastForward = ''git.push.fast_forward''"
definition OperationGitPushForce :: string where "OperationGitPushForce = ''git.push.force''"

text \<open>\<open>None\<close> is the refusal of a ref that is no tag and no branch.\<close>

definition classifyReceivePackCommand :: "githubCommand \<Rightarrow> receivePackGraph \<Rightarrow> string option" where
  "classifyReceivePackCommand command graph =
     (if isZeroOID (gc_NewOID command) then Some OperationGitRefDelete
      else if prefix ''refs/tags/'' (gc_Ref command) then Some OperationGitTagUpdate
      else if \<not> prefix ''refs/heads/'' (gc_Ref command) then None
      else if isZeroOID (gc_OldOID command) then Some OperationGitPushBranchCreate
      else if provesFastForward graph (gc_OldOID command) (gc_NewOID command) then Some OperationGitPushFastForward
      else Some OperationGitPushForce)"

end
