(* ===== verification/HuggingFacePush.thy ===== *)
theory HuggingFacePush
  imports GitProtocol
begin

text \<open>
  How the Hugging Face broker reads a push and keeps it append-only: \<^verbatim>\<open>brokers/huggingface/internal/gitproxy/receive.go\<close>,
  \<^verbatim>\<open>enforce.go\<close> and \<^verbatim>\<open>report.go\<close>.

  The mirror is the interface of the code (\<open>Mirror\<close>) over a state of its own; \<open>extract\<close>, the parser of packs, reads the
  commits and tags of a pack. \<open>None\<close> is an error value of the code.
\<close>

section \<open>Reading a push\<close>

definition zeroSHA :: string where "zeroSHA = replicate 40 CHR ''0''"

record hfCommand =
  hf_Old :: string
  hf_New :: string
  hf_Ref :: string

record hfRequest =
  hq_Commands :: "hfCommand list"
  hq_Capabilities :: "bool gomap"
  hq_Pack :: string

record RefFailure =
  fr_Ref :: string
  fr_Reason :: string

datatype receiveError = ReceiveScan | ReceiveNoFlush | ReceiveOptionsNoFlush | ReceiveShallow | ReceiveFields | ReceiveObjectID | ReceiveRef

definition validSHA :: "string \<Rightarrow> bool" where
  "validSHA v = (length v = 40 \<and> list_all isHexChar v)"

definition IsZeroSHA :: "string \<Rightarrow> bool" where
  "IsZeroSHA v = (v = zeroSHA)"

definition ValidRefName :: "string \<Rightarrow> bool" where
  "ValidRefName ref =
     (prefix ''refs/'' ref \<and> \<not> containsSub ''..'' ref \<and> \<not> containsAny ref [CHR '' '', CHR 0x09, CHR 0x0D, CHR 0x0A])"

definition parseCommandLine :: "string \<Rightarrow> receiveError + hfCommand" where
  "parseCommandLine line =
     (case goFields line of
        [old, new, ref] \<Rightarrow>
          if \<not> validSHA old \<or> \<not> validSHA new then Inl ReceiveObjectID
          else if \<not> ValidRefName ref then Inl ReceiveRef
          else Inr \<lparr>hf_Old = old, hf_New = new, hf_Ref = ref\<rparr>
      | _ \<Rightarrow> Inl ReceiveFields)"

definition parseShallowLine :: "string \<Rightarrow> receiveError + bool" where
  "parseShallowLine line =
     (if \<not> prefix ''shallow '' line then Inr False else if \<not> validSHA (drop 8 line) then Inl ReceiveShallow else Inr True)"

definition splitCommandCapabilities :: "string \<Rightarrow> bool gomap \<Rightarrow> string \<times> bool gomap" where
  "splitCommandCapabilities line caps =
     (let (commandPart, capabilityPart) = cutByte nul line
      in (commandPart, addCapabilities (goFields (case capabilityPart of None \<Rightarrow> [] | Some t \<Rightarrow> t)) caps))"

definition appendReceiveCommand :: "hfRequest \<Rightarrow> string \<Rightarrow> bool \<Rightarrow> receiveError + (hfRequest \<times> bool)" where
  "appendReceiveCommand req line first =
     bindR (parseShallowLine line) (\<lambda>shallow.
       if shallow then Inr (req, first)
       else (let (line', caps) = (if first then splitCommandCapabilities line (hq_Capabilities req) else (line, hq_Capabilities req))
             in bindR (parseCommandLine line') (\<lambda>command.
                  Inr (req\<lparr>hq_Capabilities := caps, hq_Commands := hq_Commands req @ [command]\<rparr>, False))))"

definition looksLikePktLine :: "string \<Rightarrow> bool" where
  "looksLikePktLine s = (\<not> length s < 4 \<and> list_all isHexChar (take 4 s))"

function skipOptionsLoop :: "PktCodec \<Rightarrow> string \<Rightarrow> receiveError + string" where
  "skipOptionsLoop codec s =
     (case scannerNext codec s of
        InputEnd \<Rightarrow> Inl ReceiveOptionsNoFlush
      | ReadError \<Rightarrow> Inl ReceiveScan
      | Flush rest \<Rightarrow> Inr rest
      | Payload p rest \<Rightarrow> skipOptionsLoop codec rest)"
  by pat_completeness auto
termination
  by (relation "measure (\<lambda>(codec, s). length s)") (auto dest: ReadPktLine_shorter)

declare skipOptionsLoop.simps [simp del]

definition skipPushOptions :: "PktCodec \<Rightarrow> string \<Rightarrow> bool \<Rightarrow> receiveError + string" where
  "skipPushOptions codec s enabled = (if \<not> enabled \<or> \<not> looksLikePktLine s then Inr s else skipOptionsLoop codec s)"

function receiveLoop :: "PktCodec \<Rightarrow> hfRequest \<Rightarrow> bool \<Rightarrow> string \<Rightarrow> receiveError + hfRequest" where
  "receiveLoop codec req first s =
     (case scannerNext codec s of
        InputEnd \<Rightarrow> Inl ReceiveNoFlush
      | ReadError \<Rightarrow> Inl ReceiveScan
      | Flush rest \<Rightarrow>
          bindR (skipPushOptions codec rest (map_of (hq_Capabilities req) ''push-options'' = Some True)) (\<lambda>pack.
            Inr (req\<lparr>hq_Pack := pack\<rparr>))
      | Payload p rest \<Rightarrow>
          (case appendReceiveCommand req (trimSuffix p newline) first of
             Inl e \<Rightarrow> Inl e
           | Inr (req', first') \<Rightarrow> receiveLoop codec req' first' rest))"
  by pat_completeness auto
termination
  by (relation "measure (\<lambda>(codec, req, first, s). length s)") (auto dest: ReadPktLine_shorter)

declare receiveLoop.simps [simp del]

definition ParseReceivePack :: "PktCodec \<Rightarrow> string \<Rightarrow> receiveError + hfRequest" where
  "ParseReceivePack codec body = receiveLoop codec \<lparr>hq_Commands = [], hq_Capabilities = [], hq_Pack = []\<rparr> True body"

section \<open>Append-only rules\<close>

definition isTagRef :: "string \<Rightarrow> bool" where
  "isTagRef ref = prefix ''refs/tags/'' ref"

definition staticFailure :: "hfCommand \<Rightarrow> RefFailure option" where
  "staticFailure c =
     (if IsZeroSHA (hf_New c) then Some \<lparr>fr_Ref = hf_Ref c, fr_Reason = ''deletion refused''\<rparr>
      else if prefix ''refs/replace/'' (hf_Ref c) then Some \<lparr>fr_Ref = hf_Ref c, fr_Reason = ''replace refs refused''\<rparr>
      else if prefix ''refs/tags/'' (hf_Ref c) \<and> \<not> IsZeroSHA (hf_Old c)
      then Some \<lparr>fr_Ref = hf_Ref c, fr_Reason = ''tag update refused''\<rparr>
      else None)"

definition CheckStaticRules :: "hfCommand list \<Rightarrow> RefFailure list" where
  "CheckStaticRules commands = List.map_filter staticFailure commands"

definition unsupportedStaticFailures :: "hfCommand list \<Rightarrow> RefFailure list" where
  "unsupportedStaticFailures commands =
     map (\<lambda>c. \<lparr>fr_Ref = hf_Ref c, fr_Reason = ''replace refs refused''\<rparr>) (filter (\<lambda>c. prefix ''refs/replace/'' (hf_Ref c)) commands)"

record GitObject =
  go_Type :: string
  go_Data :: string
  go_SHA :: string

text \<open>What reads the commits and tags of a pack, given how to read the objects it builds on.\<close>

type_synonym packReader = "(string \<Rightarrow> (GitObject \<times> bool) option) \<Rightarrow> string \<Rightarrow> GitObject list option"

record 'm Mirror =
  mi_Ensure :: "'m \<Rightarrow> 'm \<times> bool"
  mi_ReadObject :: "'m \<Rightarrow> string \<Rightarrow> (string \<times> string \<times> bool) option"
  mi_CurrentRef :: "'m \<Rightarrow> string \<Rightarrow> (string \<times> bool) option"
  mi_StoreObject :: "'m \<Rightarrow> string \<Rightarrow> string \<Rightarrow> 'm \<times> string option"
  mi_IsAncestor :: "'m \<Rightarrow> string \<Rightarrow> string \<Rightarrow> bool option"
  mi_AdvanceRef :: "'m \<Rightarrow> string \<Rightarrow> string \<Rightarrow> 'm \<times> bool"
  mi_DeleteRef :: "'m \<Rightarrow> string \<Rightarrow> 'm \<times> bool"

text \<open>\<^verbatim>\<open>strings.EqualFold\<close>; one side is hexadecimal, so that only letters of ASCII fold.\<close>

definition foldByte :: "char \<Rightarrow> nat" where
  "foldByte c = (if CHR ''A'' \<le> c \<and> c \<le> CHR ''Z'' then byte c + 32 else byte c)"

definition equalFold :: "string \<Rightarrow> string \<Rightarrow> bool" where
  "equalFold a b = (map foldByte a = map foldByte b)"

definition clientOldStale :: "string \<Rightarrow> string \<Rightarrow> bool \<Rightarrow> bool" where
  "clientOldStale old current exists' =
     (if IsZeroSHA old then exists' else if \<not> exists' then True else \<not> equalFold current old)"

fun checkClientOldValues :: "'m Mirror \<Rightarrow> 'm \<Rightarrow> hfCommand list \<Rightarrow> RefFailure list option" where
  "checkClientOldValues mirror m [] = Some []"
| "checkClientOldValues mirror m (c # cs) =
     (case mi_CurrentRef mirror m (hf_Ref c) of
        None \<Rightarrow> None
      | Some (current, exists') \<Rightarrow>
          map_option (\<lambda>fs. if clientOldStale (hf_Old c) current exists'
                           then \<lparr>fr_Ref = hf_Ref c, fr_Reason = ''client ref is stale''\<rparr> # fs else fs)
            (checkClientOldValues mirror m cs))"

definition needsAncestry :: "hfCommand \<Rightarrow> bool" where
  "needsAncestry c = (\<not> IsZeroSHA (hf_Old c) \<and> \<not> IsZeroSHA (hf_New c) \<and> \<not> prefix ''refs/tags/'' (hf_Ref c))"

definition needsAncestryObjects :: "hfCommand list \<Rightarrow> bool" where
  "needsAncestryObjects commands = list_ex needsAncestry commands"

fun storeExtractedObjects :: "'m Mirror \<Rightarrow> GitObject list \<Rightarrow> 'm \<Rightarrow> 'm \<times> bool" where
  "storeExtractedObjects mirror [] m = (m, True)"
| "storeExtractedObjects mirror (object # objects) m =
     (case mi_StoreObject mirror m (go_Type object) (go_Data object) of
        (m', None) \<Rightarrow> (m', False)
      | (m', Some sha) \<Rightarrow> if \<not> equalFold sha (go_SHA object) then (m', False) else storeExtractedObjects mirror objects m')"

definition extractIncomingObjects :: "'m Mirror \<Rightarrow> packReader \<Rightarrow> string \<Rightarrow> 'm \<Rightarrow> GitObject list option" where
  "extractIncomingObjects mirror extract pack m =
     extract (\<lambda>sha. map_option (\<lambda>(ty, data, found).
                if found then (\<lparr>go_Type = ty, go_Data = data, go_SHA = sha\<rparr>, True) else (\<lparr>go_Type = [], go_Data = [], go_SHA = []\<rparr>, False))
              (mi_ReadObject mirror m sha)) pack"

definition storeIncomingObjects :: "'m Mirror \<Rightarrow> packReader \<Rightarrow> string \<Rightarrow> 'm \<Rightarrow> 'm \<times> bool" where
  "storeIncomingObjects mirror extract pack m =
     (case extractIncomingObjects mirror extract pack m of None \<Rightarrow> (m, False) | Some objects \<Rightarrow> storeExtractedObjects mirror objects m)"

definition failureForAll :: "hfCommand list \<Rightarrow> string \<Rightarrow> RefFailure list" where
  "failureForAll commands reason = map (\<lambda>c. \<lparr>fr_Ref = hf_Ref c, fr_Reason = reason\<rparr>) commands"

text \<open>The failures, and whether the error beside them is nil.\<close>

type_synonym pushVerdict = "RefFailure list \<times> bool"

definition storeObjectsForAncestry ::
  "'m Mirror \<Rightarrow> packReader \<Rightarrow> hfRequest \<Rightarrow> 'm \<Rightarrow> 'm \<times> pushVerdict" where
  "storeObjectsForAncestry mirror extract req m =
     (if \<not> needsAncestryObjects (hq_Commands req) then (m, [], True)
      else (case storeIncomingObjects mirror extract (hq_Pack req) m of
              (m', True) \<Rightarrow> (m', [], True)
            | (m', False) \<Rightarrow> (m', failureForAll (hq_Commands req) ''could not inspect incoming pack'', False)))"

fun checkAncestry :: "'m Mirror \<Rightarrow> 'm \<Rightarrow> hfCommand list \<Rightarrow> RefFailure list option" where
  "checkAncestry mirror m [] = Some []"
| "checkAncestry mirror m (c # cs) =
     (if \<not> needsAncestry c then checkAncestry mirror m cs
      else (case mi_IsAncestor mirror m (hf_Old c) (hf_New c) of
              None \<Rightarrow> None
            | Some ok \<Rightarrow>
                map_option (\<lambda>fs. if ok then fs else \<lparr>fr_Ref = hf_Ref c, fr_Reason = ''history rewrite refused''\<rparr> # fs)
                  (checkAncestry mirror m cs)))"

text \<open>An override is the judgement of an operator on one command and its failure; the last command of a ref is the one that is asked for.\<close>

definition unappliedFailures ::
  "hfCommand list \<Rightarrow> RefFailure list \<Rightarrow> (hfCommand \<Rightarrow> string \<Rightarrow> bool) option \<Rightarrow> RefFailure list" where
  "unappliedFailures commands failures override =
     (case override of
        None \<Rightarrow> failures
      | Some f \<Rightarrow>
          (let byRef = fold (\<lambda>c. mapSet (hf_Ref c) c) commands []
           in filter (\<lambda>failure. case map_of byRef (fr_Ref failure) of
                        None \<Rightarrow> True | Some c \<Rightarrow> \<not> f c (fr_Reason failure)) failures))"

definition checkStaticWithOverrides :: "hfCommand list \<Rightarrow> (hfCommand \<Rightarrow> string \<Rightarrow> bool) option \<Rightarrow> RefFailure list" where
  "checkStaticWithOverrides commands override = unappliedFailures commands (CheckStaticRules commands) override"

definition checkAncestryWithOverrides ::
  "'m Mirror \<Rightarrow> 'm \<Rightarrow> hfCommand list \<Rightarrow> (hfCommand \<Rightarrow> string \<Rightarrow> bool) option \<Rightarrow> pushVerdict" where
  "checkAncestryWithOverrides mirror m commands override =
     (case checkAncestry mirror m commands of
        None \<Rightarrow> ([], False) | Some failures \<Rightarrow> (unappliedFailures commands failures override, True))"

text \<open>Stale refs, then the objects of the pack: \<^verbatim>\<open>preparePushClassification\<close>, which \<^verbatim>\<open>CheckPushWithOverrides\<close> writes out.\<close>

definition preparePushClassification ::
  "'m Mirror \<Rightarrow> packReader \<Rightarrow> hfRequest \<Rightarrow> 'm \<Rightarrow> 'm \<times> pushVerdict" where
  "preparePushClassification mirror extract req m =
     (case checkClientOldValues mirror m (hq_Commands req) of
        None \<Rightarrow> (m, [], False)
      | Some stale \<Rightarrow> if stale \<noteq> [] then (m, stale, True) else storeObjectsForAncestry mirror extract req m)"

definition CheckPushWithOverrides ::
  "'m Mirror \<Rightarrow> packReader \<Rightarrow> hfRequest \<Rightarrow> (hfCommand \<Rightarrow> string \<Rightarrow> bool) option \<Rightarrow> 'm
    \<Rightarrow> 'm \<times> pushVerdict" where
  "CheckPushWithOverrides mirror extract req override m =
     (let commands = hq_Commands req; failures = checkStaticWithOverrides commands override
      in if failures \<noteq> [] then (m, failures, True)
         else (case mi_Ensure mirror m of
                 (m1, False) \<Rightarrow> (m1, [], False)
               | (m1, True) \<Rightarrow>
                   (case preparePushClassification mirror extract req m1 of
                      (m2, fs, ok) \<Rightarrow>
                        if \<not> ok \<or> fs \<noteq> [] then (m2, fs, ok) else (m2, checkAncestryWithOverrides mirror m2 commands override))))"

definition CheckPush ::
  "'m Mirror \<Rightarrow> packReader \<Rightarrow> hfRequest \<Rightarrow> 'm \<Rightarrow> 'm \<times> pushVerdict" where
  "CheckPush mirror extract req m = CheckPushWithOverrides mirror extract req None m"

section \<open>Classification\<close>

datatype hfUpdateKind = Append | HistoryRewrite | HFRefDelete | HFTagUpdate

definition classifyDeletedCommand :: "hfCommand \<Rightarrow> hfUpdateKind" where
  "classifyDeletedCommand c = (if isTagRef (hf_Ref c) then HFTagUpdate else HFRefDelete)"

definition updatingExistingTag :: "hfCommand \<Rightarrow> bool" where
  "updatingExistingTag c = (isTagRef (hf_Ref c) \<and> \<not> IsZeroSHA (hf_Old c))"

definition createsRefOrTag :: "hfCommand \<Rightarrow> bool" where
  "createsRefOrTag c = (IsZeroSHA (hf_Old c) \<or> isTagRef (hf_Ref c))"

definition classifyBranchUpdate :: "'m Mirror \<Rightarrow> 'm \<Rightarrow> hfCommand \<Rightarrow> hfUpdateKind option" where
  "classifyBranchUpdate mirror m c =
     map_option (\<lambda>ok. if ok then Append else HistoryRewrite) (mi_IsAncestor mirror m (hf_Old c) (hf_New c))"

definition classifyCommand :: "'m Mirror \<Rightarrow> 'm \<Rightarrow> hfCommand \<Rightarrow> hfUpdateKind option" where
  "classifyCommand mirror m c =
     (if IsZeroSHA (hf_New c) then Some (classifyDeletedCommand c)
      else if updatingExistingTag c then Some HFTagUpdate
      else if createsRefOrTag c then Some Append
      else classifyBranchUpdate mirror m c)"

fun classifyCommands :: "'m Mirror \<Rightarrow> 'm \<Rightarrow> hfCommand list \<Rightarrow> (hfCommand \<times> hfUpdateKind) list option" where
  "classifyCommands mirror m [] = Some []"
| "classifyCommands mirror m (c # cs) =
     (case classifyCommand mirror m c of
        None \<Rightarrow> None
      | Some kind \<Rightarrow> map_option (\<lambda>rest. (c, kind) # rest) (classifyCommands mirror m cs))"

text \<open>The classes, the failures, and whether the error is nil.\<close>

definition ClassifyPush ::
  "'m Mirror \<Rightarrow> packReader \<Rightarrow> hfRequest \<Rightarrow> 'm
    \<Rightarrow> 'm \<times> (hfCommand \<times> hfUpdateKind) list \<times> pushVerdict" where
  "ClassifyPush mirror extract req m =
     (let commands = hq_Commands req; unsupported = unsupportedStaticFailures commands
      in if unsupported \<noteq> [] then (m, [], unsupported, True)
         else (case mi_Ensure mirror m of
                 (m1, False) \<Rightarrow> (m1, [], [], False)
               | (m1, True) \<Rightarrow>
                   (case preparePushClassification mirror extract req m1 of
                      (m2, fs, ok) \<Rightarrow>
                        if \<not> ok \<or> fs \<noteq> [] then (m2, [], fs, ok)
                        else (case classifyCommands mirror m2 commands of
                                None \<Rightarrow> (m2, [], [], False) | Some classes \<Rightarrow> (m2, classes, [], True)))))"

text \<open>After the upstream accepted the push; \<open>False\<close> is an error.\<close>

fun AdvanceAccepted :: "'m Mirror \<Rightarrow> hfCommand list \<Rightarrow> 'm \<Rightarrow> 'm \<times> bool" where
  "AdvanceAccepted mirror [] m = (m, True)"
| "AdvanceAccepted mirror (c # cs) m =
     (case (if IsZeroSHA (hf_New c) then mi_DeleteRef mirror m (hf_Ref c) else mi_AdvanceRef mirror m (hf_Ref c) (hf_New c)) of
        (m', False) \<Rightarrow> (m', False)
      | (m', True) \<Rightarrow> AdvanceAccepted mirror cs m')"

section \<open>Reports\<close>

text \<open>The kind of a command is not set and not used in a refusal.\<close>

definition BuildRefusalReport :: "PktCodec \<Rightarrow> hfRequest \<Rightarrow> RefFailure list \<Rightarrow> string option" where
  "BuildRefusalReport codec req failures =
     BuildReceivePackRefusal codec ''hf-broker''
       \<lparr>rp_Commands = map (\<lambda>c. \<lparr>rf_Old = hf_Old c, rf_New = hf_New c, rf_Ref = hf_Ref c, rf_Kind = RefOther\<rparr>) (hq_Commands req),
        rp_Capabilities = hq_Capabilities req\<rparr>
       (map (\<lambda>f. \<lparr>rpf_Ref = fr_Ref f, rpf_Reason = fr_Reason f\<rparr>) failures)"

text \<open>What a side band packet adds to the status, and its fatal message.\<close>

definition receivePackSideBandPayload :: "string \<Rightarrow> string \<times> string" where
  "receivePackSideBandPayload payload =
     (case payload of
        [] \<Rightarrow> ([], [])
      | c # rest \<Rightarrow> if byte c = 1 then (rest, []) else if byte c = 3 then ([], rest) else ([], []))"

function sideBandLoop :: "PktCodec \<Rightarrow> string \<Rightarrow> string \<Rightarrow> (string \<times> string) option" where
  "sideBandLoop codec status s =
     (case scannerNext codec s of
        InputEnd \<Rightarrow> Some (status, [])
      | ReadError \<Rightarrow> None
      | Flush rest \<Rightarrow> sideBandLoop codec status rest
      | Payload p rest \<Rightarrow>
          (let (more', fatal) = receivePackSideBandPayload p
           in if fatal \<noteq> [] then Some ([], fatal) else sideBandLoop codec (status @ more') rest))"
  by pat_completeness auto
termination
  by (relation "measure (\<lambda>(codec, status, s). length s)") (auto dest: ReadPktLine_shorter)

declare sideBandLoop.simps [simp del]

definition collectReceivePackSideBand :: "PktCodec \<Rightarrow> string \<Rightarrow> (string \<times> string) option" where
  "collectReceivePackSideBand codec body = sideBandLoop codec [] body"

record receivePackStatus =
  st_unpackOK :: bool
  st_refs :: "bool gomap"

definition cutPrefix :: "string \<Rightarrow> string \<Rightarrow> string" where
  "cutPrefix p s = (if prefix p s then drop (length p) s else s)"

text \<open>The second component is the reason of a refusal, empty when there is none.\<close>

definition consumeLine :: "receivePackStatus \<Rightarrow> string \<Rightarrow> receivePackStatus \<times> string" where
  "consumeLine s line0 =
     (let line = trimSpace line0
      in if line = [] then (s, [])
         else if line = ''unpack ok'' then (s\<lparr>st_unpackOK := True\<rparr>, [])
         else if prefix ''unpack '' line then (s, cleanReceivePackReason (cutPrefix ''unpack '' line))
         else if prefix ''ok '' line then (s\<lparr>st_refs := mapSet (trimSpace (cutPrefix ''ok '' line)) True (st_refs s)\<rparr>, [])
         else if prefix ''ng '' line then (s, cleanReceivePackReason (cutPrefix ''ng '' line))
         else (s, []))"

fun consumeLines :: "receivePackStatus \<Rightarrow> string list \<Rightarrow> receivePackStatus \<times> string" where
  "consumeLines s [] = (s, [])"
| "consumeLines s (line # lines) =
     (case consumeLine s line of (s', reason') \<Rightarrow> if reason' \<noteq> [] then (s', reason') else consumeLines s' lines)"

definition statusAccepted :: "receivePackStatus \<Rightarrow> hfRequest \<Rightarrow> bool \<times> string" where
  "statusAccepted s req =
     (if \<not> st_unpackOK s then (False, ''upstream receive-pack report missing unpack status'')
      else if \<not> list_all (\<lambda>c. map_of (st_refs s) (hf_Ref c) = Some True) (hq_Commands req)
      then (False, ''upstream receive-pack report missing ref status'')
      else (True, []))"

function statusLoop :: "PktCodec \<Rightarrow> hfRequest \<Rightarrow> receivePackStatus \<Rightarrow> string \<Rightarrow> (bool \<times> string) option" where
  "statusLoop codec req s body =
     (case scannerNext codec body of
        InputEnd \<Rightarrow> Some (statusAccepted s req)
      | ReadError \<Rightarrow> None
      | Flush rest \<Rightarrow> statusLoop codec req s rest
      | Payload p rest \<Rightarrow>
          (case consumeLines s (splitOn CHR 0x0A p) of
             (s', reason') \<Rightarrow> if reason' \<noteq> [] then Some (False, reason') else statusLoop codec req s' rest))"
  by pat_completeness auto
termination
  by (relation "measure (\<lambda>(codec, req, s, body). length body)") (auto dest: ReadPktLine_shorter)

declare statusLoop.simps [simp del]

definition parseReceivePackStatus :: "PktCodec \<Rightarrow> hfRequest \<Rightarrow> string \<Rightarrow> (bool \<times> string) option" where
  "parseReceivePackStatus codec req body = statusLoop codec req \<lparr>st_unpackOK = False, st_refs = []\<rparr> body"

definition ReceivePackAccepted :: "PktCodec \<Rightarrow> hfRequest \<Rightarrow> string \<Rightarrow> (bool \<times> string) option" where
  "ReceivePackAccepted codec req body =
     (case (if receivePackUsesSideBand (hq_Capabilities req) then collectReceivePackSideBand codec body else Some (body, [])) of
        None \<Rightarrow> None
      | Some (status, fatal) \<Rightarrow>
          if fatal \<noteq> [] then Some (False, cleanReceivePackReason fatal) else parseReceivePackStatus codec req status)"

end
