(* ===== verification/GitLemmas.thy ===== *)
theory GitLemmas
  imports GitHubPush HuggingFacePush
begin

text \<open>
  The words of a line, pushes as Git clients write them, and the walk over the commit graph.
\<close>

section \<open>Words\<close>

text \<open>Printable ASCII other than the space.\<close>

definition solid :: "char \<Rightarrow> bool" where
  "solid c \<longleftrightarrow> 33 \<le> byte c \<and> byte c \<le> 126"

lemma spaceRunes_heads: "w \<in> set spaceRunes \<Longrightarrow> w \<noteq> [] \<and> \<not> solid (hd w)"
proof -
  have "\<forall>w\<in>set spaceRunes. w \<noteq> [] \<and> \<not> solid (hd w)"
    by code_simp
  then show "w \<in> set spaceRunes \<Longrightarrow> w \<noteq> [] \<and> \<not> solid (hd w)"
    by blast
qed

lemma spaceRunes_found: "w \<in> set spaceRunes \<Longrightarrow> List.find (\<lambda>v. v \<noteq> [] \<and> prefix v w) spaceRunes = Some w"
proof -
  have "\<forall>w\<in>set spaceRunes. List.find (\<lambda>v. v \<noteq> [] \<and> prefix v w) spaceRunes = Some w"
    by code_simp
  then show "w \<in> set spaceRunes \<Longrightarrow> List.find (\<lambda>v. v \<noteq> [] \<and> prefix v w) spaceRunes = Some w"
    by blast
qed

lemma fieldsLoop_Nil [simp]: "fieldsLoop word [] = (if word = [] then [] else [rev word])"
  by (subst fieldsLoop.simps) simp

lemma fieldsLoop_solid: "list_all solid p \<Longrightarrow> fieldsLoop word (p @ s) = fieldsLoop (rev p @ word) s"
proof (induction p arbitrary: word)
  case (Cons c p)
  have "List.find (\<lambda>w. w \<noteq> [] \<and> prefix w (c # p @ s)) spaceRunes = None"
    using Cons.prems spaceRunes_heads by (fastforce simp: find_None_iff prefix_Cons)
  moreover have "runeWidth (c # p @ s) = 1"
    using Cons.prems by (intro runeWidth_ascii) (simp add: solid_def)
  ultimately have "fieldsLoop word ((c # p) @ s) = fieldsLoop (c # word) (p @ s)"
    by (subst fieldsLoop.simps) simp
  then show ?case
    using Cons by simp
qed simp

lemma fieldsLoop_blank: "fieldsLoop word (CHR '' '' # s) = (if word = [] then [] else [rev word]) @ fieldsLoop [] s"
proof -
  have "List.find (\<lambda>w. w \<noteq> [] \<and> prefix w (CHR '' '' # s)) spaceRunes = Some '' ''"
    by (simp add: spaceRunes_def)
  then show ?thesis
    by (subst fieldsLoop.simps) simp
qed

lemma fieldsLoop_end: "w \<in> set spaceRunes \<Longrightarrow> fieldsLoop word w = (if word = [] then [] else [rev word])"
  using spaceRunes_found spaceRunes_heads by (subst fieldsLoop.simps) auto

lemma spaceRunes_wide:
  "w \<in> set spaceRunes \<Longrightarrow> 2 \<le> length w \<Longrightarrow> list_all validRefChar w \<and> CHR 0x0A \<notin> set w \<and> nul \<notin> set w"
proof -
  have "\<forall>w\<in>set spaceRunes. 2 \<le> length w \<longrightarrow> list_all validRefChar w \<and> CHR 0x0A \<notin> set w \<and> nul \<notin> set w"
    by code_simp
  then show "w \<in> set spaceRunes \<Longrightarrow> 2 \<le> length w \<Longrightarrow> list_all validRefChar w \<and> CHR 0x0A \<notin> set w \<and> nul \<notin> set w"
    by blast
qed

definition solidWord :: "string \<Rightarrow> bool" where
  "solidWord w \<longleftrightarrow> w \<noteq> [] \<and> list_all solid w"

lemma goFields_word: "solidWord w \<Longrightarrow> goFields (w @ CHR '' '' # s) = w # goFields s"
  by (simp add: goFields_def solidWord_def fieldsLoop_solid[of w] fieldsLoop_blank)

lemma goFields_last: "solidWord w \<Longrightarrow> end' = [] \<or> end' \<in> set spaceRunes \<Longrightarrow> goFields (w @ end') = [w]"
  using fieldsLoop_solid[of w "[]" end'] by (auto simp: goFields_def solidWord_def fieldsLoop_end)

lemma goFields_joinWords: "list_all solidWord ws \<Longrightarrow> goFields (joinWords ws) = ws"
proof (induction ws rule: joinWords.induct)
  case 1
  then show ?case
    by (simp add: goFields_def)
next
  case (2 w)
  then show ?case
    using goFields_last[of w "[]"] by simp
next
  case (3 w v vs)
  then show ?case
    using goFields_word by simp
qed

lemma goFields_three:
  assumes "solidWord a" "solidWord b" "solidWord c" "end' = [] \<or> end' \<in> set spaceRunes"
  shows "goFields (a @ '' '' @ b @ '' '' @ c @ end') = [a, b, c]"
  using assms goFields_word[of a] goFields_word[of b] goFields_last[of c end'] by simp

lemma hex_solid: "isHexChar c \<Longrightarrow> solid c \<and> c \<noteq> nul"
proof -
  have bytes: "c \<le> d \<longleftrightarrow> byte c \<le> byte d" for c d :: char
    by (simp add: byte_def less_eq_char_def)
  show "isHexChar c \<Longrightarrow> solid c \<and> c \<noteq> nul"
    by (auto simp: isHexChar_def solid_def bytes byte_def nul_def)
qed

lemma objectID_solid: "isObjectID v \<Longrightarrow> solidWord v"
  using hex_solid by (auto simp: isObjectID_def solidWord_def list_all_iff sha1ObjectIDLength_def sha256ObjectIDLength_def)

lemma sha_objectID: "validSHA v \<longleftrightarrow> isObjectID v \<and> length v = 40"
  by (auto simp: validSHA_def isObjectID_def sha1ObjectIDLength_def)

lemma solid_no: "list_all solid s \<Longrightarrow> nul \<notin> set s \<and> CHR 0x0A \<notin> set s \<and> CHR '' '' \<notin> set s"
  by (auto simp: list_all_iff solid_def byte_def nul_def)

section \<open>Lines\<close>

lemma cutByte_none: "c \<notin> set s \<Longrightarrow> cutByte c s = (s, None)"
proof -
  assume "c \<notin> set s"
  then have "dropWhile (\<lambda>x. x \<noteq> c) s = []"
    by (induction s) auto
  then show "cutByte c s = (s, None)"
    unfolding cutByte_def by (simp only: list.case)
qed

lemma cutByte_some: "c \<notin> set s \<Longrightarrow> cutByte c (s @ c # t) = (s, Some t)"
proof -
  assume "c \<notin> set s"
  then have "dropWhile (\<lambda>x. x \<noteq> c) (s @ c # t) = c # t \<and> takeWhile (\<lambda>x. x \<noteq> c) (s @ c # t) = s"
    by (induction s) auto
  then show "cutByte c (s @ c # t) = (s, Some t)"
    by (simp add: cutByte_def)
qed

lemma trimSuffix_none: "s = [] \<or> last s \<noteq> CHR 0x0A \<Longrightarrow> trimSuffix s newline = s"
  by (auto simp: trimSuffix_def newline_def suffix_def)

definition commandLine :: "string \<Rightarrow> string \<Rightarrow> string \<Rightarrow> string" where
  "commandLine old new ref = old @ '' '' @ new @ '' '' @ ref"

text \<open>A command that Git clients write and the broker accepts.\<close>

definition plainCommand :: "ReceivePackCommand \<Rightarrow> bool" where
  "plainCommand c \<longleftrightarrow> isObjectID (rf_Old c) \<and> isObjectID (rf_New c) \<and> length (rf_Old c) = length (rf_New c)
     \<and> isValidRefName (rf_Ref c) \<and> list_all solid (rf_Ref c) \<and> rf_Kind c = classify (rf_Old c) (rf_New c) (rf_Ref c)"

definition lineOf :: "ReceivePackCommand \<Rightarrow> string" where
  "lineOf c = commandLine (rf_Old c) (rf_New c) (rf_Ref c)"

lemma ref_word: "isValidRefName ref \<Longrightarrow> list_all solid ref \<Longrightarrow> solidWord ref"
  by (auto simp: isValidRefName_def hasValidRefShape_def solidWord_def)

lemma lineOf_words:
  assumes "plainCommand c" "end' = [] \<or> end' \<in> set spaceRunes"
  shows "goFields (lineOf c @ end') = [rf_Old c, rf_New c, rf_Ref c]"
  using goFields_three[OF objectID_solid objectID_solid ref_word assms(2), of "rf_Old c" "rf_New c" "rf_Ref c"] assms(1)
  by (simp add: plainCommand_def lineOf_def commandLine_def)

lemma lineOf_chars:
  assumes "plainCommand c"
  shows "nul \<notin> set (lineOf c)" "CHR 0x0A \<notin> set (lineOf c)" "lineOf c \<noteq> []"
  using assms objectID_solid solid_no by (auto simp: plainCommand_def lineOf_def commandLine_def solidWord_def nul_def)

lemma parseCommandFields_three:
  "parseCommandFields [old, new, ref] =
     (if \<not> isObjectID old \<or> \<not> isObjectID new then Inl CommandObjectID
      else if length old \<noteq> length new then Inl CommandMixed
      else if \<not> isValidRefName ref then Inl CommandRef
      else Inr (Some \<lparr>rf_Old = old, rf_New = new, rf_Ref = ref, rf_Kind = classify old new ref\<rparr>))"
  by (simp add: parseCommandFields_def parseShallow_def)

lemma parseCommandFields_plain: "plainCommand c \<Longrightarrow> parseCommandFields [rf_Old c, rf_New c, rf_Ref c] = Inr (Some c)"
  by (auto simp: parseCommandFields_three plainCommand_def)

lemma parse_line:
  assumes "plainCommand c" "end' = [] \<or> end' \<in> set spaceRunes \<and> CHR 0x0A \<notin> set end' \<and> nul \<notin> set end'"
  shows "parseCommandPayloadWithCapabilities (lineOf c @ end') first caps = (caps, Inr (Some c))"
proof -
  have "lineOf c @ end' \<noteq> []" "CHR 0x0A \<notin> set (lineOf c @ end')"
    using assms lineOf_chars[OF assms(1)] by auto
  then have "trimSuffix (lineOf c @ end') newline = lineOf c @ end'"
    by (metis trimSuffix_none last_in_set)
  moreover have "cutByte nul (lineOf c @ end') = (lineOf c @ end', None)"
    using assms(2) lineOf_chars(1)[OF assms(1)] by (intro cutByte_none) auto
  ultimately show ?thesis
    using lineOf_words[OF assms(1), of end'] parseCommandFields_plain[OF assms(1)] assms(2)
    by (auto simp: parseCommandPayloadWithCapabilities_def)
qed

lemma joinWords_chars: "list_all solidWord ws \<Longrightarrow> CHR 0x0A \<notin> set (joinWords ws)"
  by (induction ws rule: joinWords.induct) (auto simp: solidWord_def dest: solid_no)

lemma first_line_cut:
  assumes "plainCommand c" "list_all solidWord caps"
  shows "cutByte nul (trimSuffix (lineOf c @ nul # joinWords caps) newline) = (lineOf c, Some (joinWords caps))"
proof -
  have "last (lineOf c @ nul # joinWords caps) \<noteq> CHR 0x0A"
    using joinWords_chars[OF assms(2)] by (auto simp: nul_def dest: last_in_set)
  then show ?thesis
    using lineOf_chars[OF assms(1)] by (simp add: trimSuffix_none cutByte_some)
qed

lemma parse_first_line:
  assumes "plainCommand c" "list_all solidWord caps"
  shows "parseCommandPayloadWithCapabilities (lineOf c @ nul # joinWords caps) True [] = (addCapabilities caps [], Inr (Some c))"
  using first_line_cut[OF assms] lineOf_words[OF assms(1), of "[]"] parseCommandFields_plain[OF assms(1)] goFields_joinWords[OF assms(2)]
  by (simp add: parseCommandPayloadWithCapabilities_def)

section \<open>Packets\<close>

text \<open>What the encoder of go-git writes its scanner reads.\<close>

definition pktLaws :: "PktCodec \<Rightarrow> bool" where
  "pktLaws codec \<longleftrightarrow>
     (\<forall>p f s. p \<noteq> [] \<longrightarrow> pk_encode codec p = Some f \<longrightarrow> length f = 4 + length p \<and> pk_scan codec (f @ s) = ScanLine p)
     \<and> (\<forall>s. pk_scan codec (flushPkt @ s) = ScanLine [])"

lemma pkt_line:
  assumes "pktLaws codec" "p \<noteq> []" "pk_encode codec p = Some f"
  shows "ReadPktLine codec (f @ s) = Payload p s" "scannerNext codec (f @ s) = Payload p s"
proof -
  have "length f = 4 + length p" "pk_scan codec (f @ s) = ScanLine p" "f @ s \<noteq> []"
    using assms by (force simp: pktLaws_def)+
  then show "ReadPktLine codec (f @ s) = Payload p s" "scannerNext codec (f @ s) = Payload p s"
    using assms(2) by (simp_all add: ReadPktLine_def scannerNext_def)
qed

lemma pkt_flush:
  assumes "pktLaws codec"
  shows "ReadPktLine codec (flushPkt @ s) = Flush s" "scannerNext codec (flushPkt @ s) = Flush s"
  using assms by (simp_all add: ReadPktLine_def scannerNext_def pktLaws_def flushPkt_def)

fun appendLines :: "PktCodec \<Rightarrow> string list \<Rightarrow> string option" where
  "appendLines codec [] = Some []"
| "appendLines codec (p # ps) =
     (case (pk_encode codec p, appendLines codec ps) of (Some f, Some rest) \<Rightarrow> Some (f @ rest) | _ \<Rightarrow> None)"

text \<open>The payloads of a push: the capabilities follow the first command.\<close>

fun pushLines :: "string list \<Rightarrow> ReceivePackCommand list \<Rightarrow> string list" where
  "pushLines caps [] = []"
| "pushLines caps (c # cs) = (lineOf c @ nul # joinWords caps) # map lineOf cs"

lemma receivePackLoop_lines:
  assumes "pktLaws codec" "list_all plainCommand cs" "appendLines codec (map lineOf cs) = Some lines"
  shows "receivePackLoop codec first req (lines @ flushPkt @ pack) = Inr (req\<lparr>rp_Commands := rp_Commands req @ cs\<rparr>, pack)"
  using assms(2,3)
proof (induction cs arbitrary: first req lines)
  case Nil
  then show ?case
    using pkt_flush[OF assms(1)] by (subst receivePackLoop.simps) simp
next
  case (Cons c cs)
  then obtain f rest where f: "pk_encode codec (lineOf c) = Some f" "appendLines codec (map lineOf cs) = Some rest" "lines = f @ rest"
    by (auto split: option.splits)
  then show ?case
    using pkt_line(1)[OF assms(1) lineOf_chars(3) f(1)] parse_line[of c "[]"] Cons
    by (subst receivePackLoop.simps) simp
qed

section \<open>The walk over the commit graph\<close>

definition parentEdges :: "string list gomap \<Rightarrow> (string \<times> string) set" where
  "parentEdges parents = {(a, b). b \<in> set (sliceAt parents a)}"

lemma graphLoop_Nil [simp]: "\<not> graphLoop parents wanted seen []"
  by (subst graphLoop.simps) simp

lemma graphLoop_snoc:
  "graphLoop parents wanted seen (rest @ [current]) =
     (current = wanted \<or> (if current \<in> set seen then graphLoop parents wanted seen rest
                         else graphLoop parents wanted (current # seen) (rest @ sliceAt parents current)))"
  by (subst graphLoop.simps) simp

lemma graph_induct [case_names stuck skip visit]:
  assumes "\<And>seen. P seen []"
    "\<And>seen rest current. current = wanted \<or> current \<in> set seen \<Longrightarrow> (current \<noteq> wanted \<Longrightarrow> P seen rest) \<Longrightarrow> P seen (rest @ [current])"
    "\<And>seen rest current. current \<noteq> wanted \<Longrightarrow> current \<notin> set seen
       \<Longrightarrow> P (current # seen) (rest @ sliceAt parents current) \<Longrightarrow> P seen (rest @ [current])"
  shows "P seen pending"
proof -
  have "ps = parents \<Longrightarrow> w = wanted \<Longrightarrow> P seen pending" for ps w
  proof (induction ps w seen pending rule: graphLoop.induct)
    case (1 ps w seen pending)
    show ?case
    proof (cases pending rule: rev_cases)
      case Nil
      then show ?thesis
        using assms(1) by simp
    next
      case (snoc rest current)
      then show ?thesis
      proof (cases "current = wanted \<or> current \<in> set seen")
        case True
        then show ?thesis
          using "1.IH"(1)[OF _ refl] "1.prems" assms(2)[of current seen rest] by (auto simp: snoc)
      next
        case False
        then show ?thesis
          using "1.IH"(2)[OF _ refl] "1.prems" assms(3)[of current seen rest] by (auto simp: snoc)
      qed
    qed
  qed
  then show ?thesis
    by blast
qed

lemma graphLoop_sound:
  "graphLoop parents wanted seen pending \<Longrightarrow> \<exists>p\<in>set pending. (p, wanted) \<in> (parentEdges parents)\<^sup>*"
proof (induction seen pending rule: graph_induct[of _ wanted parents])
  case (skip seen rest current)
  then show ?case
    by (auto simp: graphLoop_snoc split: if_splits)
next
  case (visit seen rest current)
  then have "\<exists>p\<in>set (rest @ sliceAt parents current). (p, wanted) \<in> (parentEdges parents)\<^sup>*"
    by (simp add: graphLoop_snoc)
  then show ?case
    by (auto simp: parentEdges_def intro: converse_rtrancl_into_rtrancl)
qed simp

text \<open>A walk that has left no successor behind misses nothing: what it saw and what it still has to see lie in a closed set.\<close>

definition walkCovered :: "string list gomap \<Rightarrow> string list \<Rightarrow> string list \<Rightarrow> bool" where
  "walkCovered parents seen pending \<longleftrightarrow> parentEdges parents `` set seen \<subseteq> set seen \<union> set pending"

lemma walkCovered_visit:
  "walkCovered parents seen (rest @ [current]) \<Longrightarrow> walkCovered parents (current # seen) (rest @ sliceAt parents current)"
  by (fastforce simp: walkCovered_def parentEdges_def)

lemma graphLoop_complete:
  "\<not> graphLoop parents wanted seen pending \<Longrightarrow> wanted \<notin> set seen \<Longrightarrow> walkCovered parents seen pending
    \<Longrightarrow> \<exists>closed. set seen \<union> set pending \<subseteq> closed \<and> wanted \<notin> closed \<and> parentEdges parents `` closed \<subseteq> closed"
proof (induction seen pending rule: graph_induct[of _ wanted parents])
  case (stuck seen)
  then show ?case
    by (intro exI[of _ "set seen"]) (simp add: walkCovered_def)
next
  case (skip seen rest current)
  then have "current \<noteq> wanted" "current \<in> set seen" "\<not> graphLoop parents wanted seen rest"
    by (auto simp: graphLoop_snoc)
  moreover have "walkCovered parents seen rest"
    using skip.prems(3) \<open>current \<in> set seen\<close> by (auto simp: walkCovered_def)
  ultimately obtain closed where "set seen \<union> set rest \<subseteq> closed" "wanted \<notin> closed" "parentEdges parents `` closed \<subseteq> closed"
    using skip.IH skip.prems(2) by blast
  then show ?case
    using \<open>current \<in> set seen\<close> by (intro exI[of _ closed]) auto
next
  case (visit seen rest current)
  then have "\<not> graphLoop parents wanted (current # seen) (rest @ sliceAt parents current)" "wanted \<notin> set (current # seen)"
    by (auto simp: graphLoop_snoc)
  then obtain closed where "set (current # seen) \<union> set (rest @ sliceAt parents current) \<subseteq> closed" "wanted \<notin> closed"
      "parentEdges parents `` closed \<subseteq> closed"
    using visit.IH walkCovered_visit[OF visit.prems(3)] by blast
  then show ?case
    by (intro exI[of _ closed]) auto
qed

lemma commitGraphContains_iff: "commitGraphContains parents start wanted \<longleftrightarrow> (start, wanted) \<in> (parentEdges parents)\<^sup>*"
proof
  assume "commitGraphContains parents start wanted"
  then show "(start, wanted) \<in> (parentEdges parents)\<^sup>*"
    using graphLoop_sound[of parents wanted "[]" "[start]"] by (simp add: commitGraphContains_def)
next
  assume walk: "(start, wanted) \<in> (parentEdges parents)\<^sup>*"
  show "commitGraphContains parents start wanted"
  proof (rule ccontr)
    assume "\<not> commitGraphContains parents start wanted"
    then obtain closed where "start \<in> closed" "wanted \<notin> closed" "parentEdges parents `` closed \<subseteq> closed"
      using graphLoop_complete[of parents wanted "[]" "[start]"] by (auto simp: commitGraphContains_def walkCovered_def)
    then show False
      using walk Image_closed_trancl[of "parentEdges parents" closed] by blast
  qed
qed

lemma fast_forward_edge:
  assumes "gr_valid graph" "length old = 40" "length new = 40" "\<not> isZeroOID old" "\<not> isZeroOID new" "prefix ''refs/heads/'' ref"
    "(new, old) \<in> parentEdges (gr_parents graph)"
  shows "classifyReceivePackCommand \<lparr>gc_OldOID = old, gc_NewOID = new, gc_Ref = ref\<rparr> graph = Some OperationGitPushFastForward"
proof -
  have "\<not> prefix ''refs/tags/'' ref"
    using assms(6) by (auto simp: prefix_def)
  then show ?thesis
    using assms by (simp add: classifyReceivePackCommand_def provesFastForward_def commitGraphContains_iff r_into_rtrancl)
qed

section \<open>Pushes to Hugging Face\<close>

lemma prepared_current:
  "preparePushClassification mirror extract req m = (m2, [], True) \<Longrightarrow> checkClientOldValues mirror m (hq_Commands req) = Some []"
  by (auto simp: preparePushClassification_def split: option.splits if_splits)

text \<open>What an update of class \<open>Append\<close> does: it creates a ref that does not exist, or moves a branch from its current commit to a descendant.\<close>

definition appendOnly :: "'m Mirror \<Rightarrow> 'm \<Rightarrow> 'm \<Rightarrow> hfCommand \<Rightarrow> bool" where
  "appendOnly mirror m1 m2 c =
     (hf_New c \<noteq> zeroSHA \<and> \<not> prefix ''refs/replace/'' (hf_Ref c)
      \<and> (case mi_CurrentRef mirror m1 (hf_Ref c) of
           None \<Rightarrow> False
         | Some (current, False) \<Rightarrow> hf_Old c = zeroSHA
         | Some (current, True) \<Rightarrow>
             hf_Old c \<noteq> zeroSHA \<and> equalFold current (hf_Old c) \<and> \<not> isTagRef (hf_Ref c)
             \<and> mi_IsAncestor mirror m2 (hf_Old c) (hf_New c) = Some True))"

lemma classifyCommand_append:
  "classifyCommand mirror m c = Some Append \<longleftrightarrow>
     hf_New c \<noteq> zeroSHA \<and> \<not> updatingExistingTag c \<and> (needsAncestry c \<longrightarrow> mi_IsAncestor mirror m (hf_Old c) (hf_New c) = Some True)"
  by (auto simp: classifyCommand_def classifyDeletedCommand_def classifyBranchUpdate_def createsRefOrTag_def updatingExistingTag_def
      needsAncestry_def isTagRef_def IsZeroSHA_def)

lemma append_command:
  assumes "classifyCommand mirror m2 c = Some Append" "mi_CurrentRef mirror m1 (hf_Ref c) = Some (current, exists')"
    "\<not> clientOldStale (hf_Old c) current exists'" "\<not> prefix ''refs/replace/'' (hf_Ref c)"
  shows "appendOnly mirror m1 m2 c"
  using assms
  by (cases exists') (auto simp: classifyCommand_append appendOnly_def clientOldStale_def updatingExistingTag_def needsAncestry_def
      isTagRef_def IsZeroSHA_def split: if_splits)

lemma classifyCommands_sound:
  "classifyCommands mirror m2 cs = Some classes \<Longrightarrow> checkClientOldValues mirror m1 cs = Some [] \<Longrightarrow> unsupportedStaticFailures cs = []
    \<Longrightarrow> map fst classes = cs \<and> list_all (\<lambda>(c, kind). kind = Append \<longrightarrow> appendOnly mirror m1 m2 c) classes"
proof (induction cs arbitrary: classes)
  case (Cons c cs)
  then obtain kind rest where rest: "classifyCommand mirror m2 c = Some kind" "classifyCommands mirror m2 cs = Some rest"
      "classes = (c, kind) # rest"
    by (auto split: option.splits)
  obtain current exists' where current: "mi_CurrentRef mirror m1 (hf_Ref c) = Some (current, exists')"
      "\<not> clientOldStale (hf_Old c) current exists'" "checkClientOldValues mirror m1 cs = Some []"
    using Cons.prems(2) by (auto split: option.splits if_splits)
  have unreplaced: "\<not> prefix ''refs/replace/'' (hf_Ref c)" "unsupportedStaticFailures cs = []"
    using Cons.prems(3) by (auto simp: unsupportedStaticFailures_def split: if_splits)
  show ?case
    using Cons.IH[OF rest(2) current(3) unreplaced(2)] append_command[OF _ current(1,2) unreplaced(1)] rest(1,3) by auto
qed simp

lemma static_append:
  "staticFailure c = None \<longleftrightarrow> hf_New c \<noteq> zeroSHA \<and> \<not> prefix ''refs/replace/'' (hf_Ref c) \<and> \<not> updatingExistingTag c"
  by (auto simp: staticFailure_def updatingExistingTag_def isTagRef_def IsZeroSHA_def)

lemma append_classes:
  "(\<exists>classes. classifyCommands mirror m cs = Some classes \<and> list_all (\<lambda>(c, kind). kind = Append) classes)
     \<and> unsupportedStaticFailures cs = []
   \<longleftrightarrow> CheckStaticRules cs = [] \<and> checkAncestry mirror m cs = Some []"
proof (induction cs)
  case (Cons c cs)
  have classes: "(\<exists>classes. classifyCommands mirror m (c # cs) = Some classes \<and> list_all (\<lambda>(c, kind). kind = Append) classes) \<longleftrightarrow>
      classifyCommand mirror m c = Some Append
      \<and> (\<exists>classes. classifyCommands mirror m cs = Some classes \<and> list_all (\<lambda>(c, kind). kind = Append) classes)"
    by (auto split: option.splits)
  have rules: "CheckStaticRules (c # cs) = [] \<longleftrightarrow> staticFailure c = None \<and> CheckStaticRules cs = []"
    by (auto simp: CheckStaticRules_def map_filter_simps split: option.splits)
  have ancestry: "checkAncestry mirror m (c # cs) = Some [] \<longleftrightarrow>
      (needsAncestry c \<longrightarrow> mi_IsAncestor mirror m (hf_Old c) (hf_New c) = Some True) \<and> checkAncestry mirror m cs = Some []"
    by (auto split: option.splits)
  have unsupported: "unsupportedStaticFailures (c # cs) = [] \<longleftrightarrow>
      \<not> prefix ''refs/replace/'' (hf_Ref c) \<and> unsupportedStaticFailures cs = []"
    by (simp add: unsupportedStaticFailures_def)
  show ?case
    unfolding classes rules ancestry unsupported static_append classifyCommand_append using Cons.IH by blast
qed (simp add: CheckStaticRules_def unsupportedStaticFailures_def map_filter_simps)

lemma checked_push:
  "CheckPush mirror extract req m = (m2, [], True) \<longleftrightarrow>
     CheckStaticRules (hq_Commands req) = []
     \<and> (\<exists>m1. mi_Ensure mirror m = (m1, True) \<and> preparePushClassification mirror extract req m1 = (m2, [], True))
     \<and> checkAncestry mirror m2 (hq_Commands req) = Some []"
  by (auto simp: CheckPush_def CheckPushWithOverrides_def checkStaticWithOverrides_def checkAncestryWithOverrides_def unappliedFailures_def
      Let_def split: if_splits prod.splits bool.splits option.splits)

lemma classified_iff:
  "ClassifyPush mirror extract req m = (m2, classes, [], True) \<longleftrightarrow>
     unsupportedStaticFailures (hq_Commands req) = []
     \<and> (\<exists>m1. mi_Ensure mirror m = (m1, True) \<and> preparePushClassification mirror extract req m1 = (m2, [], True))
     \<and> classifyCommands mirror m2 (hq_Commands req) = Some classes"
  by (auto simp: ClassifyPush_def Let_def split: if_splits prod.splits bool.splits option.splits)

section \<open>Limits of a pack\<close>

lemma addInflatedBytes_bounded:
  assumes "addInflatedBytes sofar n maximum = Some t" "0 \<le> sofar" "0 \<le> maximum" "maximum \<le> maxInt64" "n \<le> maxInt64"
  shows "t = sofar + n" "t \<le> maximum"
proof -
  have range: "0 \<le> n" "wrap64 (maximum - n) = maximum - n" "sofar \<le> maximum - n" "t = wrap64 (sofar + n)"
    using assms by (auto simp: addInflatedBytes_def wrap64_id maxInt64_def split: if_splits)
  then show "t = sofar + n" "t \<le> maximum"
    using assms(2-4) by (simp_all add: wrap64_id maxInt64_def)
qed

lemma deltaSizeLoop_bounded:
  "deltaSizeLoop data maximum offset shift acc = Some (v, after) \<Longrightarrow> 0 \<le> v \<and> v \<le> maximum \<and> offset < after \<and> after \<le> length data"
proof (induction data maximum offset shift acc rule: deltaSizeLoop.induct)
  case (1 data maximum offset shift acc)
  show ?case
    using "1.prems" "1.IH"[OF _ refl refl]
    by (subst (asm) deltaSizeLoop.simps) (auto simp: Let_def split: if_splits)
qed

lemma deltaTargetSize_bounded: "deltaTargetSize delta maximum = Some v \<Longrightarrow> 0 \<le> v \<and> v \<le> maximum"
  by (auto simp: deltaTargetSize_def deltaSize_def split: option.splits dest: deltaSizeLoop_bounded)

end
