(* ===== verification/GitExample.thy ===== *)
theory GitExample
  imports GitLemmas
begin

text \<open>
  A pkt-line format with the laws the readers rely on (four hexadecimal length bytes that count themselves, at most 65516 bytes of
  payload), and pushes to run them on.
\<close>

section \<open>A pkt-line format\<close>

definition pktDigit :: "nat \<Rightarrow> char" where
  "pktDigit n = ''0123456789abcdef'' ! n"

definition pktValue :: "char \<Rightarrow> nat" where
  "pktValue c = (if byte c < 58 then byte c - 48 else byte c - 87)"

lemma pktValue_pktDigit [simp]: "n < 16 \<Longrightarrow> pktValue (pktDigit n) = n"
proof -
  have "\<forall>n\<in>set [0..<16]. pktValue (pktDigit n) = n"
    by code_simp
  then show "n < 16 \<Longrightarrow> pktValue (pktDigit n) = n"
    by simp
qed

definition hex4 :: "nat \<Rightarrow> string" where
  "hex4 n = [pktDigit (n div 4096), pktDigit (n div 256 mod 16), pktDigit (n div 16 mod 16), pktDigit (n mod 16)]"

definition unhex4 :: "string \<Rightarrow> nat" where
  "unhex4 s = pktValue (s ! 0) * 4096 + pktValue (s ! 1) * 256 + pktValue (s ! 2) * 16 + pktValue (s ! 3)"

lemma length_hex4 [simp]: "length (hex4 n) = 4"
  by (simp add: hex4_def)

lemma four_digits: "n div 4096 * 4096 + n div 256 mod 16 * 256 + n div 16 mod 16 * 16 + n mod 16 = (n :: nat)"
proof -
  have "n div 256 * 16 + n div 16 mod 16 = n div 16" "n div 4096 * 16 + n div 256 mod 16 = n div 256"
    using div_mult_mod_eq[of "n div 16" 16] div_mult_mod_eq[of "n div 256" 16] div_mult2_eq[of n 16 16] div_mult2_eq[of n 256 16]
    by simp_all
  then show ?thesis
    using div_mult_mod_eq[of n 16] by linarith
qed

lemma unhex4_hex4 [simp]: "n < 65536 \<Longrightarrow> unhex4 (hex4 n @ s) = n"
  using less_mult_imp_div_less[of n 16 4096] by (simp add: hex4_def unhex4_def four_digits)

definition demoPkt :: PktCodec where
  "demoPkt =
     \<lparr>pk_scan = (\<lambda>s. if length s < 4 then ScanError else if unhex4 s = 0 then ScanLine []
                    else if unhex4 s \<le> 4 \<or> length s < unhex4 s then ScanError else ScanLine (take (unhex4 s - 4) (drop 4 s))),
      pk_encode = (\<lambda>p. if length p \<le> 65516 then Some (hex4 (length p + 4) @ p) else None),
      pk_maxPayload = 65516\<rparr>"

lemma demoPkt_laws: "pktLaws demoPkt"
proof -
  have "unhex4 (flushPkt @ s) = 0" for s
    by (simp add: unhex4_def flushPkt_def pktValue_def byte_def)
  then show ?thesis
    by (auto simp: pktLaws_def demoPkt_def flushPkt_def)
qed

section \<open>Pushes\<close>

definition idOf :: "char \<Rightarrow> string" where
  "idOf c = replicate 40 c"

lemma idOf_all [simp]: "list_all P (idOf c) \<longleftrightarrow> P c" "length (idOf c) = 40"
  by (simp_all add: idOf_def list_all_iff)

lemma idOf_objectID [simp]: "isHexChar c \<Longrightarrow> isObjectID (idOf c)"
  by (simp add: isObjectID_def sha1ObjectIDLength_def)

definition demoPush :: ReceivePackCommand where
  "demoPush = \<lparr>rf_Old = idOf CHR ''a'', rf_New = idOf CHR ''b'', rf_Ref = ''refs/heads/main'', rf_Kind = BranchUpdate\<rparr>"

lemma demoPush_plain: "plainCommand demoPush"
proof -
  have "isValidRefName ''refs/heads/main'' \<and> list_all solid ''refs/heads/main'' \<and> isHexChar CHR ''a'' \<and> isHexChar CHR ''b''"
    by code_simp
  then show ?thesis
    by (simp add: plainCommand_def demoPush_def classify_def classifyCreateOrUpdate_def isZeroObjectID_def)
qed

definition noBreakSpace :: string where
  "noBreakSpace = [CHR 0xC2, CHR 0xA0]"

definition demoUpdate :: hfCommand where
  "demoUpdate = \<lparr>hf_Old = idOf CHR ''a'', hf_New = idOf CHR ''b'', hf_Ref = ''refs/heads/main''\<rparr>"

definition demoMirror :: "unit Mirror" where
  "demoMirror =
     \<lparr>mi_Ensure = (\<lambda>m. (m, True)), mi_ReadObject = (\<lambda>m sha. Some ([], [], False)),
      mi_CurrentRef = (\<lambda>m ref. Some (idOf CHR ''a'', True)), mi_StoreObject = (\<lambda>m ty data. (m, Some [])),
      mi_IsAncestor = (\<lambda>m old new. Some (old = idOf CHR ''a'')), mi_AdvanceRef = (\<lambda>m ref new. (m, True)),
      mi_DeleteRef = (\<lambda>m ref. (m, True))\<rparr>"

definition demoPushRequest :: hfRequest where
  "demoPushRequest = \<lparr>hq_Commands = [demoUpdate], hq_Capabilities = [], hq_Pack = ''PACK''\<rparr>"

lemma demo_classified:
  "ClassifyPush demoMirror (\<lambda>read pack. Some []) demoPushRequest () = ((), [(demoUpdate, Append)], [], True)"
proof -
  have "idOf CHR ''a'' \<noteq> zeroSHA" "idOf CHR ''b'' \<noteq> zeroSHA"
    by (simp_all add: idOf_def zeroSHA_def)
  then show ?thesis
    by (simp add: ClassifyPush_def Let_def demoPushRequest_def demoUpdate_def demoMirror_def unsupportedStaticFailures_def
        preparePushClassification_def storeObjectsForAncestry_def storeIncomingObjects_def extractIncomingObjects_def
        needsAncestryObjects_def needsAncestry_def
        clientOldStale_def IsZeroSHA_def equalFold_def classifyCommand_def updatingExistingTag_def isTagRef_def createsRefOrTag_def
        classifyBranchUpdate_def)
qed

end
