(* ===== verification/GitRefusal.thy ===== *)
theory GitRefusal
  imports GitExample
begin

text \<open>
  A refusal that a broker writes, read back as the report of an upstream: framing, side band and status lines.
\<close>

section \<open>Trimming\<close>

lemma stripLeading_stop:
  "(\<forall>w\<in>set ws. c \<notin> set w) \<Longrightarrow> \<exists>x'. suffix x' x \<and> stripLeading ws (x @ c # y) = x' @ c # y"
proof (induction "length x" arbitrary: x rule: less_induct)
  case less
  show ?case
  proof (cases "List.find (\<lambda>w. w \<noteq> [] \<and> prefix w (x @ c # y)) ws")
    case None
    then show ?thesis
      by (intro exI[of _ x]) (simp add: stripLeading.simps[of ws "x @ c # y"])
  next
    case (Some w)
    then have w: "w \<in> set ws" "w \<noteq> []" "prefix w (x @ c # y)"
      by (auto simp: find_Some_iff)
    then have "c \<notin> set w"
      using less.prems by blast
    then obtain z where z: "x = w @ z"
      using w(3) by (auto simp: prefix_append prefix_Cons elim: prefixE)
    then obtain x' where "suffix x' z" "stripLeading ws (z @ c # y) = x' @ c # y"
      using less.hyps[of z] w(2) less.prems by auto
    moreover have "stripLeading ws (x @ c # y) = stripLeading ws (z @ c # y)"
      using Some z by (subst stripLeading.simps) simp
    ultimately show ?thesis
      using z by (intro exI[of _ x']) (auto simp: suffix_def)
  qed
qed

lemma solid_unspaced: "solid c \<Longrightarrow> (\<forall>w\<in>set spaceRunes. c \<notin> set w) \<and> (\<forall>w\<in>set (map rev spaceRunes). c \<notin> set w)"
proof -
  have "\<forall>w\<in>set spaceRunes. \<forall>c\<in>set w. \<not> solid c"
    by code_simp
  then show "solid c \<Longrightarrow> (\<forall>w\<in>set spaceRunes. c \<notin> set w) \<and> (\<forall>w\<in>set (map rev spaceRunes). c \<notin> set w)"
    by auto
qed

lemma trimSpace_solid:
  assumes "solid c" "solid d"
  shows "\<exists>t'. prefix t' t \<and> trimSpace (c # m @ d # t) = c # m @ d # t'"
proof -
  have "stripLeading spaceRunes (c # m @ d # t) = c # m @ d # t"
    using stripLeading_stop[of spaceRunes c "[]" "m @ d # t"] solid_unspaced[OF assms(1)] by auto
  moreover obtain x' where "suffix x' (rev t)" "stripLeading (map rev spaceRunes) (rev t @ d # rev m @ [c]) = x' @ d # rev m @ [c]"
    using stripLeading_stop[of "map rev spaceRunes" d "rev t" "rev m @ [c]"] solid_unspaced[OF assms(2)] by blast
  ultimately show ?thesis
    by (intro exI[of _ "rev x'"]) (auto simp: trimSpace_def suffix_to_prefix)
qed

section \<open>Status lines\<close>

lemma clean_reason: "cleanReceivePackReason r \<noteq> []"
  by (simp add: cleanReceivePackReason_def Let_def)

lemma consume_unpack: "consumeLine s ''unpack ok'' = (s\<lparr>st_unpackOK := True\<rparr>, [])"
proof -
  have "solid CHR ''u'' \<and> solid CHR ''k''"
    by code_simp
  then have "trimSpace ''unpack ok'' = ''unpack ok''"
    using trimSpace_solid[of "CHR ''u''" "CHR ''k''" "[]" "''npack o''"] by auto
  then show ?thesis
    by (simp add: consumeLine_def)
qed

lemma consume_refusal: "\<exists>reason. consumeLine s (''ng '' @ ref @ '' hf-broker: '' @ t) = (s, reason) \<and> reason \<noteq> []"
proof -
  have "solid CHR ''n'' \<and> solid CHR ''h''"
    by code_simp
  then obtain t' where "trimSpace (''ng '' @ ref @ '' hf-broker: '' @ t) = CHR ''n'' # (''g '' @ ref @ '' '') @ CHR ''h'' # t'"
    using trimSpace_solid[of "CHR ''n''" "CHR ''h''" "''f-broker: '' @ t" "''g '' @ ref @ '' ''"] by auto
  then show ?thesis
    using clean_reason by (simp add: consumeLine_def)
qed

lemma splitOn_head: "c \<notin> set p \<Longrightarrow> \<exists>x rest. splitOn c (p @ q) = (p @ x) # rest"
proof (induction p)
  case Nil
  then show ?case
    by (cases "splitOn c q") auto
qed auto

lemma consume_refusal_lines:
  assumes "CHR 0x0A \<notin> set ref"
  shows "\<exists>reason. consumeLines s (splitOn CHR 0x0A (''ng '' @ ref @ '' hf-broker: '' @ t)) = (s, reason) \<and> reason \<noteq> []"
proof -
  obtain x rest where "splitOn CHR 0x0A (''ng '' @ ref @ '' hf-broker: '' @ t) = ((''ng '' @ ref @ '' hf-broker: '') @ x) # rest"
    using splitOn_head[of "CHR 0x0A" "''ng '' @ ref @ '' hf-broker: ''" t] assms by auto
  then show ?thesis
    using consume_refusal[of s ref x] by auto
qed

section \<open>Reports\<close>

lemma refusalLoop_extends: "refusalLoop codec service reasons cs dst = Some out \<Longrightarrow> \<exists>rest. out = dst @ rest"
proof (induction cs arbitrary: dst)
  case (Cons c cs)
  then obtain frame where "refusalLoop codec service reasons cs (dst @ frame) = Some out"
    by (auto simp: AppendPktLine_def Let_def split: option.splits)
  then show ?case
    using Cons.IH by fastforce
qed simp

lemma statusLoop_step:
  "scannerNext codec s = Payload p rest \<Longrightarrow> consumeLines st (splitOn CHR 0x0A p) = (st', [])
    \<Longrightarrow> statusLoop codec req st s = statusLoop codec req st' rest"
  by (simp add: statusLoop.simps[of codec req st s])

lemma statusLoop_refused:
  "scannerNext codec s = Payload p rest \<Longrightarrow> consumeLines st (splitOn CHR 0x0A p) = (st', reason) \<Longrightarrow> reason \<noteq> []
    \<Longrightarrow> statusLoop codec req st s = Some (False, reason)"
  by (simp add: statusLoop.simps[of codec req st s])

lemma consume_unpack_lines: "consumeLines s (splitOn CHR 0x0A (''unpack ok'' @ newline)) = (s\<lparr>st_unpackOK := True\<rparr>, [])"
proof -
  have "splitOn CHR 0x0A (''unpack ok'' @ newline) = [''unpack ok'', []]"
    by (simp add: newline_def)
  moreover have "consumeLine s' [] = (s', [])" for s'
    by (simp add: consumeLine_def)
  ultimately show ?thesis
    using consume_unpack[of s] by simp
qed

lemma status_refused:
  assumes "pktLaws codec" "CHR 0x0A \<notin> set (rf_Ref c)"
    "appendReceivePackFailures codec [] ''hf-broker'' (c # cs) reasons = Some status"
  shows "\<exists>reason. parseReceivePackStatus codec req (status @ tail) = Some (False, reason)"
proof -
  obtain t f1 f2 rest where f: "pk_encode codec (''unpack ok'' @ newline) = Some f1"
      "pk_encode codec (''ng '' @ rf_Ref c @ '' hf-broker: '' @ t) = Some f2" "status = f1 @ f2 @ rest"
    using assms(3) refusalLoop_extends
    by (fastforce simp: appendReceivePackFailures_def AppendPktLine_def Let_def split: option.splits)
  have unpack: "scannerNext codec (f1 @ f2 @ rest @ tail) = Payload (''unpack ok'' @ newline) (f2 @ rest @ tail)"
    using pkt_line(2)[OF assms(1) _ f(1)] by simp
  have refused: "scannerNext codec (f2 @ rest @ tail) = Payload (''ng '' @ rf_Ref c @ '' hf-broker: '' @ t) (rest @ tail)"
    using pkt_line(2)[OF assms(1) _ f(2)] by simp
  obtain reason st where "consumeLines \<lparr>st_unpackOK = True, st_refs = []\<rparr> (splitOn CHR 0x0A (''ng '' @ rf_Ref c @ '' hf-broker: '' @ t)) =
      (st, reason)" "reason \<noteq> []"
    using consume_refusal_lines[OF assms(2)] by blast
  then have "statusLoop codec req \<lparr>st_unpackOK = True, st_refs = []\<rparr> (f2 @ rest @ tail) = Some (False, reason)"
    by (rule statusLoop_refused[OF refused])
  then show ?thesis
    using statusLoop_step[OF unpack consume_unpack_lines, of req "\<lparr>st_unpackOK = False, st_refs = []\<rparr>"]
    by (simp add: parseReceivePackStatus_def f(3))
qed

text \<open>The side band: what goes out in packets of band 1 is the status, band 2 is for the user alone.\<close>

lemma sideBandLoop_band:
  assumes "pktLaws codec" "appendReceivePackBandBytes codec dst band payload = Some out" "byte band = 1 \<or> byte band = 2"
  shows "\<exists>frames. out = dst @ frames \<and>
    (\<forall>status tail. sideBandLoop codec status (frames @ tail) = sideBandLoop codec (if byte band = 1 then status @ payload else status) tail)"
  using assms(2)
proof (induction "length payload" arbitrary: payload dst rule: less_induct)
  case less
  show ?case
  proof (cases "payload = []")
    case True
    then show ?thesis
      using less.prems by (simp add: appendReceivePackBandBytes.simps[of codec dst])
  next
    case False
    define n where "n = max 1 (min (length payload) (maxSideBandDataPayload codec))"
    obtain frame where frame: "pk_encode codec (band # take n payload) = Some frame"
        "appendReceivePackBandBytes codec (dst @ frame) band (drop n payload) = Some out"
      using less.prems False
      by (auto simp: appendReceivePackBandBytes.simps[of codec dst] AppendPktLine_def n_def Let_def split: option.splits)
    have "length (drop n payload) < length payload"
      using False by (simp add: n_def)
    then obtain frames where frames: "out = (dst @ frame) @ frames" "\<forall>status tail. sideBandLoop codec status (frames @ tail) =
        sideBandLoop codec (if byte band = 1 then status @ drop n payload else status) tail"
      using less.hyps frame(2) by blast
    have "sideBandLoop codec status (frame @ frames @ tail) =
        sideBandLoop codec (if byte band = 1 then status @ take n payload else status) (frames @ tail)" for status tail
      using pkt_line(2)[OF assms(1) _ frame(1), of "frames @ tail"] assms(3)
      by (auto simp: sideBandLoop.simps[of codec status "frame @ frames @ tail"] receivePackSideBandPayload_def)
    then show ?thesis
      using frames by (intro exI[of _ "frame @ frames"]) auto
  qed
qed

lemma sideBandLoop_end: "pktLaws codec \<Longrightarrow> sideBandLoop codec status flushPkt = Some (status, [])"
  using pkt_flush(2)[of codec "[]"] by (simp add: sideBandLoop.simps[of codec status] scannerNext_def)

lemma wrapped_collects:
  assumes "pktLaws codec" "wrapReceivePackSideBand codec service reason status = Some body"
  shows "collectReceivePackSideBand codec body = Some (status, [])"
proof -
  obtain out1 out2 where out: "appendReceivePackBandBytes codec [] (char_of (2::nat)) (service @ '': '' @ reason @ newline) = Some out1"
      "appendReceivePackBandBytes codec out1 (char_of (1::nat)) status = Some out2" "body = out2 @ flushPkt"
    using assms(2) by (auto simp: wrapReceivePackSideBand_def AppendFlushPkt_def split: option.splits)
  have bands: "byte (char_of (2::nat)) = 2" "byte (char_of (1::nat)) = 1"
    by (simp_all add: byte_def)
  obtain frames where "out2 = out1 @ frames" "sideBandLoop codec [] (frames @ flushPkt) = sideBandLoop codec status flushPkt"
    using sideBandLoop_band[OF assms(1) out(2)] bands by auto
  moreover have "sideBandLoop codec [] (out1 @ frames @ flushPkt) = sideBandLoop codec [] (frames @ flushPkt)"
    using sideBandLoop_band[OF assms(1) out(1)] bands by auto
  ultimately show ?thesis
    using sideBandLoop_end[OF assms(1)] out(3) by (simp add: collectReceivePackSideBand_def)
qed

lemma refusal_collects:
  assumes "pktLaws codec" "BuildReceivePackRefusal codec service req failures = Some body"
    "receivePackUsesSideBand (rp_Capabilities req)"
  shows "\<exists>status0. appendReceivePackFailures codec [] service (rp_Commands req) (fst (receivePackFailureReasons failures)) = Some status0
    \<and> collectReceivePackSideBand codec body = Some (status0 @ flushPkt, [])"
  using assms(2,3) wrapped_collects[OF assms(1)]
  by (auto simp: BuildReceivePackRefusal_def AppendFlushPkt_def Let_def split: prod.splits option.splits)

lemma refusal_bare:
  assumes "BuildReceivePackRefusal codec service req failures = Some body" "\<not> receivePackUsesSideBand (rp_Capabilities req)"
  shows "\<exists>status0. appendReceivePackFailures codec [] service (rp_Commands req) (fst (receivePackFailureReasons failures)) = Some status0
    \<and> body = status0 @ flushPkt"
  using assms by (auto simp: BuildReceivePackRefusal_def AppendFlushPkt_def Let_def split: prod.splits option.splits)

lemma refusal_status:
  assumes "pktLaws codec" "BuildRefusalReport codec req failures = Some body" "hq_Commands req = c # cs" "CHR 0x0A \<notin> set (hf_Ref c)"
  shows "\<exists>reason. ReceivePackAccepted codec req body = Some (False, reason)"
proof -
  define req' where "req' = \<lparr>rp_Commands = map (\<lambda>c. \<lparr>rf_Old = hf_Old c, rf_New = hf_New c, rf_Ref = hf_Ref c, rf_Kind = RefOther\<rparr>)
    (hq_Commands req), rp_Capabilities = hq_Capabilities req\<rparr>"
  have built: "BuildReceivePackRefusal codec ''hf-broker'' req' (map (\<lambda>f. \<lparr>rpf_Ref = fr_Ref f, rpf_Reason = fr_Reason f\<rparr>) failures) = Some body"
    using assms(2) by (simp add: BuildRefusalReport_def req'_def)
  have refused: "\<exists>reason. parseReceivePackStatus codec req (status0 @ flushPkt) = Some (False, reason)"
    if "appendReceivePackFailures codec [] ''hf-broker'' (rp_Commands req') reasons = Some status0" for status0 reasons
    using status_refused[OF assms(1) _ that[unfolded req'_def assms(3), simplified]] assms(4) by simp
  show ?thesis
  proof (cases "receivePackUsesSideBand (hq_Capabilities req)")
    case True
    then show ?thesis
      using refusal_collects[OF assms(1) built] refused by (auto simp: ReceivePackAccepted_def req'_def)
  next
    case False
    then show ?thesis
      using refusal_bare[OF built] refused by (auto simp: ReceivePackAccepted_def req'_def)
  qed
qed

end
