(* ===== verification/GitProperties.thy ===== *)
theory GitProperties
  imports GitRefusal
begin

text \<open>
  Properties of the Git gate: pushes read back, what the GitHub broker takes for a fast-forward, and what the Hugging Face broker lets
  through.
\<close>

section \<open>Reading a push\<close>

text \<open>
  C31. A push as Git clients write it is read back: one packet for each command, the capabilities behind the first, a flush packet, and
  the pack. The broker finds the same commands, the same capabilities and the pack after them.
\<close>

theorem receive_pack_read_back:
  assumes "pktLaws codec" "list_all plainCommand commands" "commands \<noteq> []" "list_all solidWord caps"
    "appendLines codec (pushLines caps commands) = Some frames"
  shows "ParseReceivePackRequest codec (frames @ AppendFlushPkt [] @ pack) =
    Inr (\<lparr>rp_Commands = commands, rp_Capabilities = addCapabilities caps []\<rparr>, pack)"
proof -
  obtain c cs where commands: "commands = c # cs"
    using assms(3) by (cases commands) auto
  then obtain f rest where f: "pk_encode codec (lineOf c @ nul # joinWords caps) = Some f"
      "appendLines codec (map lineOf cs) = Some rest" "frames = f @ rest"
    using assms(5) by (auto split: option.splits)
  have plain: "plainCommand c" "list_all plainCommand cs"
    using assms(2) by (simp_all add: commands)
  have "ReadPktLine codec (f @ rest @ flushPkt @ pack) = Payload (lineOf c @ nul # joinWords caps) (rest @ flushPkt @ pack)"
    using pkt_line(1)[OF assms(1) _ f(1)] by simp
  then show ?thesis
    using parse_first_line[OF plain(1) assms(4)] receivePackLoop_lines[OF assms(1) plain(2) f(2), of False]
    by (simp add: ParseReceivePackRequest_def AppendFlushPkt_def f(3) commands receivePackLoop.simps[of codec True])
qed

theorem receive_pack_read_back_witness:
  "\<exists>frames. ParseReceivePackRequest demoPkt (frames @ AppendFlushPkt [] @ ''PACK'') =
     Inr (\<lparr>rp_Commands = [demoPush, demoPush], rp_Capabilities = [(''report-status'', True)]\<rparr>, ''PACK'')"
proof -
  have "appendLines demoPkt (pushLines [''report-status''] [demoPush, demoPush]) \<noteq> None"
    by (simp add: demoPkt_def lineOf_def commandLine_def demoPush_def)
  then obtain frames where "appendLines demoPkt (pushLines [''report-status''] [demoPush, demoPush]) = Some frames"
    by auto
  moreover have "solidWord ''report-status''"
    by code_simp
  ultimately have "ParseReceivePackRequest demoPkt (frames @ AppendFlushPkt [] @ ''PACK'') =
      Inr (\<lparr>rp_Commands = [demoPush, demoPush], rp_Capabilities = addCapabilities [''report-status''] []\<rparr>, ''PACK'')"
    by (intro receive_pack_read_back) (simp_all add: demoPkt_laws demoPush_plain)
  then show ?thesis
    by (auto simp: addCapabilities_def)
qed

text \<open>The name Git gives to the ref: all that follows the second object ID and a space.\<close>

definition gitRefName :: "nat \<Rightarrow> string \<Rightarrow> string" where
  "gitRefName idLength line = drop (2 * idLength + 2) line"

text \<open>
  C24. The broker splits a command at every Unicode space, Git at the first two ASCII spaces. A ref that ends in a no-break space, say, is
  another ref to Git and has none of the characters refused in ref names; the broker parses it without the space, decides on that name,
  and forwards the body as it came.
\<close>

theorem trailing_space_hides_ref:
  assumes "pktLaws codec" "plainCommand c" "space \<in> set spaceRunes" "2 \<le> length space"
    "pk_encode codec (lineOf c @ space) = Some frame"
  shows "(\<exists>req. receivePackRequestFromBody codec (frame @ AppendFlushPkt [] @ pack) =
      Inr ([\<lparr>gc_OldOID = rf_Old c, gc_NewOID = rf_New c, gc_Ref = rf_Ref c\<rparr>], req, pack))
    \<and> gitRefName (length (rf_Old c)) (lineOf c @ space) = rf_Ref c @ space \<and> hasValidRefChars (rf_Ref c @ space)"
proof (intro conjI)
  note bytes = spaceRunes_wide[OF assms(3,4)]
  have "ReadPktLine codec (frame @ flushPkt @ pack) = Payload (lineOf c @ space) (flushPkt @ pack)"
    using pkt_line(1)[OF assms(1) _ assms(5)] assms(4) by fastforce
  then have "ParseReceivePackRequest codec (frame @ AppendFlushPkt [] @ pack) =
      Inr (\<lparr>rp_Commands = [c], rp_Capabilities = []\<rparr>, pack)"
    using parse_line[OF assms(2), of space True "[]"] assms(3) bytes pkt_flush(1)[OF assms(1)]
    by (simp add: ParseReceivePackRequest_def AppendFlushPkt_def receivePackLoop.simps[of codec True] receivePackLoop.simps[of codec False])
  then show "\<exists>req. receivePackRequestFromBody codec (frame @ AppendFlushPkt [] @ pack) =
      Inr ([\<lparr>gc_OldOID = rf_Old c, gc_NewOID = rf_New c, gc_Ref = rf_Ref c\<rparr>], req, pack)"
    by (simp add: receivePackRequestFromBody_def)
  show "gitRefName (length (rf_Old c)) (lineOf c @ space) = rf_Ref c @ space"
    using assms(2) by (simp add: gitRefName_def lineOf_def commandLine_def plainCommand_def)
  show "hasValidRefChars (rf_Ref c @ space)"
    using assms(2) bytes by (simp add: plainCommand_def isValidRefName_def hasValidRefChars_def)
qed

theorem trailing_space_hides_ref_witness:
  "\<exists>frame req. receivePackRequestFromBody demoPkt (frame @ AppendFlushPkt [] @ ''PACK'') =
      Inr ([\<lparr>gc_OldOID = idOf CHR ''a'', gc_NewOID = idOf CHR ''b'', gc_Ref = ''refs/heads/main''\<rparr>], req, ''PACK'')
    \<and> pk_encode demoPkt (lineOf demoPush @ noBreakSpace) = Some frame
    \<and> gitRefName 40 (lineOf demoPush @ noBreakSpace) = ''refs/heads/main'' @ noBreakSpace"
proof -
  have "pk_encode demoPkt (lineOf demoPush @ noBreakSpace) \<noteq> None"
    by (simp add: demoPkt_def lineOf_def commandLine_def demoPush_def noBreakSpace_def)
  then obtain frame where "pk_encode demoPkt (lineOf demoPush @ noBreakSpace) = Some frame"
    by auto
  moreover have "noBreakSpace \<in> set spaceRunes" "2 \<le> length noBreakSpace"
    by (simp_all add: noBreakSpace_def spaceRunes_def)
  ultimately show ?thesis
    using trailing_space_hides_ref[OF demoPkt_laws demoPush_plain, of noBreakSpace frame "''PACK''"] by (simp add: demoPush_def)
qed

section \<open>Fast-forwards\<close>

text \<open>
  C17. A push is a fast-forward for the GitHub broker exactly when it moves an existing branch to an existing commit from which the old
  one is reached over the parents of the pack: the loop over the stack of commits decides reachability, cycles and shared ancestors
  included.
\<close>

theorem fast_forward_is_reachability:
  "classifyReceivePackCommand command graph = Some OperationGitPushFastForward \<longleftrightarrow>
     prefix ''refs/heads/'' (gc_Ref command) \<and> \<not> isZeroOID (gc_NewOID command) \<and> \<not> isZeroOID (gc_OldOID command)
     \<and> gr_valid graph \<and> length (gc_OldOID command) = 40 \<and> length (gc_NewOID command) = 40
     \<and> (gc_NewOID command, gc_OldOID command) \<in> (parentEdges (gr_parents graph))\<^sup>*"
proof -
  have "\<not> (prefix ''refs/tags/'' r \<and> prefix ''refs/heads/'' r)" for r
    by (auto simp: prefix_def)
  then show ?thesis
    by (auto simp: classifyReceivePackCommand_def provesFastForward_def commitGraphContains_iff OperationGitPushFastForward_def
        OperationGitRefDelete_def OperationGitTagUpdate_def OperationGitPushBranchCreate_def OperationGitPushForce_def)
qed

text \<open>The parents Git reads: the parent lines that follow the tree line.\<close>

definition gitParents :: "string \<Rightarrow> string list" where
  "gitParents data = map (drop 7) (takeWhile (prefix ''parent '') (tl (splitOn CHR 0x0A data)))"

definition strayCommit :: "string \<Rightarrow> string \<Rightarrow> string \<Rightarrow> string \<Rightarrow> string" where
  "strayCommit tree author old rest = tree @ CHR 0x0A # author @ CHR 0x0A # (''parent '' @ old) @ CHR 0x0A # rest"

text \<open>
  C23. A parent header that does not follow the tree line is no parent to Git, but the broker counts it: a commit without history whose
  headers name the old head behind the author makes a force push a fast-forward.
\<close>

theorem stray_parent_is_fast_forward:
  assumes "validSHA old" "validSHA new" "\<not> isZeroOID old" "\<not> isZeroOID new" "prefix ''refs/heads/'' ref"
    "tree \<noteq> []" "author \<noteq> []" "CHR 0x0A \<notin> set tree" "CHR 0x0A \<notin> set author" "\<not> prefix ''parent '' author"
    "prefix ''PACK'' pack" "extract (githubPushPackLimits maxPackBytes) pack =
      Some [\<lparr>po_Type = ''commit'', po_Data = strayCommit tree author old rest, po_Hash = new\<rparr>]"
  shows "gitParents (strayCommit tree author old rest) = []
    \<and> classifyReceivePackCommand \<lparr>gc_OldOID = old, gc_NewOID = new, gc_Ref = ref\<rparr> (inspectReceivePackGraph extract pack maxPackBytes) =
        Some OperationGitPushFastForward"
proof
  have "CHR 0x0A \<notin> set old"
    using assms(1) hex_solid solid_no by (auto simp: validSHA_def list_all_iff)
  then have lines: "splitOn CHR 0x0A (strayCommit tree author old rest) = tree # author # (''parent '' @ old) # splitOn CHR 0x0A rest"
    using assms(8,9) splitOn_append[of "CHR 0x0A" "''parent '' @ old" rest] by (simp add: strayCommit_def splitOn_append)
  then show "gitParents (strayCommit tree author old rest) = []"
    using assms(10) by (simp add: gitParents_def)
  have "old \<in> set (commitParents (strayCommit tree author old rest))"
    using assms(1,6,7) lines by (simp add: commitParents_def parentLine_def validSHA_def map_filter_simps)
  moreover have "inspectReceivePackGraph extract pack maxPackBytes =
      \<lparr>gr_parents = [(new, commitParents (strayCommit tree author old rest))], gr_valid = True\<rparr>"
    using assms(11,12) by (auto simp: inspectReceivePackGraph_def prefix_def)
  ultimately show "classifyReceivePackCommand \<lparr>gc_OldOID = old, gc_NewOID = new, gc_Ref = ref\<rparr>
      (inspectReceivePackGraph extract pack maxPackBytes) = Some OperationGitPushFastForward"
    using assms(1-5) by (simp add: fast_forward_edge validSHA_def parentEdges_def sliceAt_def)
qed

theorem stray_parent_is_fast_forward_witness:
  "gitParents (strayCommit ''tree t'' ''author a'' (idOf CHR ''a'') []) = []
    \<and> classifyReceivePackCommand \<lparr>gc_OldOID = idOf CHR ''a'', gc_NewOID = idOf CHR ''b'', gc_Ref = ''refs/heads/main''\<rparr>
        (inspectReceivePackGraph
           (\<lambda>limits pack. Some [\<lparr>po_Type = ''commit'', po_Data = strayCommit ''tree t'' ''author a'' (idOf CHR ''a'') [],
                                po_Hash = idOf CHR ''b''\<rparr>]) ''PACK'' 0) =
        Some OperationGitPushFastForward"
proof (rule stray_parent_is_fast_forward)
  show "validSHA (idOf CHR ''a'')" "validSHA (idOf CHR ''b'')" "\<not> isZeroOID (idOf CHR ''a'')" "\<not> isZeroOID (idOf CHR ''b'')"
    by (simp_all add: validSHA_def isZeroOID_def isHexChar_def less_eq_char_def)
qed simp_all

section \<open>Append-only pushes\<close>

text \<open>
  C18. When the Hugging Face broker classifies a push, it classifies every command, in order, and an update it calls an append is one: it
  neither deletes nor rewrites, and the client knew the value the ref had.
\<close>

theorem append_class_is_append_only:
  assumes "ClassifyPush mirror extract req m = (m2, classes, [], True)"
  shows "map fst classes = hq_Commands req
    \<and> list_all (\<lambda>(c, kind). kind = Append \<longrightarrow> appendOnly mirror (fst (mi_Ensure mirror m)) m2 c) classes"
proof -
  obtain m1 where m1: "mi_Ensure mirror m = (m1, True)" "unsupportedStaticFailures (hq_Commands req) = []"
      "preparePushClassification mirror extract req m1 = (m2, [], True)" "classifyCommands mirror m2 (hq_Commands req) = Some classes"
    using assms unfolding classified_iff by blast
  then show ?thesis
    using classifyCommands_sound[OF m1(4) prepared_current[OF m1(3)] m1(2)] by simp
qed

theorem append_class_is_append_only_witness: "appendOnly demoMirror () () demoUpdate"
  using append_class_is_append_only[OF demo_classified] by (simp add: demoMirror_def)

text \<open>
  C33. The two gates of the package agree: a push passes the append-only check without an override exactly when the classifier calls each
  of its updates an append.
\<close>

theorem check_agrees_with_classification:
  "CheckPush mirror extract req m = (m2, [], True) \<longleftrightarrow>
     (\<exists>classes. ClassifyPush mirror extract req m = (m2, classes, [], True) \<and> list_all (\<lambda>(c, kind). kind = Append) classes)"
  unfolding checked_push classified_iff using append_classes[of mirror m2 "hq_Commands req"] by blast

text \<open>
  C32. A refusal the broker writes is never read as an accepted push: whatever the reasons and with or without the side band, the reader
  of upstream reports takes the body for a refusal.
\<close>

theorem refusal_reads_as_refusal:
  assumes "pktLaws codec" "BuildRefusalReport codec req failures = Some body" "hq_Commands req \<noteq> []"
    "list_all (\<lambda>c. ValidRefName (hf_Ref c)) (hq_Commands req)"
  shows "\<exists>reason. ReceivePackAccepted codec req body = Some (False, reason)"
proof -
  obtain c cs where c: "hq_Commands req = c # cs" "ValidRefName (hf_Ref c)"
    using assms(3,4) by (cases "hq_Commands req") auto
  then have "CHR 0x0A \<notin> set (hf_Ref c)"
    by (auto simp: ValidRefName_def containsAny_def list_ex_iff)
  then show ?thesis
    by (rule refusal_status[OF assms(1,2) c(1)])
qed

theorem refusal_reads_as_refusal_witness:
  "\<exists>body reason. BuildRefusalReport demoPkt demoPushRequest [\<lparr>fr_Ref = ''refs/heads/main'', fr_Reason = ''no''\<rparr>] = Some body
     \<and> ReceivePackAccepted demoPkt demoPushRequest body = Some (False, reason)"
proof -
  have "solid CHR ''n'' \<and> solid CHR ''o''"
    by code_simp
  then have "trimSpace ''no'' = ''no''"
    using trimSpace_solid[of "CHR ''n''" "CHR ''o''" "[]" "[]"] by auto
  then have "BuildRefusalReport demoPkt demoPushRequest [\<lparr>fr_Ref = ''refs/heads/main'', fr_Reason = ''no''\<rparr>] \<noteq> None"
    by (simp add: BuildRefusalReport_def BuildReceivePackRefusal_def demoPushRequest_def demoUpdate_def receivePackFailureReasons_def
        appendReceivePackFailures_def AppendPktLine_def demoPkt_def Let_def newline_def cleanReceivePackReason_def
        receivePackUsesSideBand_def stringAt_def)
  then obtain body where body: "BuildRefusalReport demoPkt demoPushRequest [\<lparr>fr_Ref = ''refs/heads/main'', fr_Reason = ''no''\<rparr>] = Some body"
    by auto
  have "ValidRefName ''refs/heads/main''"
    by code_simp
  then show ?thesis
    using refusal_reads_as_refusal[OF demoPkt_laws body] body by (simp add: demoPushRequest_def demoUpdate_def)
qed

end
