(* ===== verification/Spec2Isabelle.thy ===== *)
theory Spec2Isabelle
  imports GrantFeed GrantWaiting RuntimeProperties SudoProperties GitProperties
begin

text \<open>
  \<^bold>\<open>A verification library for the authorization core of unYOLO\<close>

  unYOLO keeps provider credentials in broker processes and checks each operation an agent asks for against a policy. Every broker
  runs the same request path: the request is classified into a client, an operation, a target and attributes; the policy engine
  decides (deny, active grant, allow, request, no match); where the policy offers approval, a bounded request is filed in the
  grant store; an operator decides it; the operation runtime reserves a use of the grant, runs the operation at the provider and
  commits, retains or releases the use, while the operation itself is a durable row that a client submits, watches and cancels.
  This library models that path, in Go, under \<^verbatim>\<open>src/authorization\<close>, \<^verbatim>\<open>src/operation/runtime\<close> and \<^verbatim>\<open>src/agent/runtime\<close>, and
  one broker from end to end: \<^verbatim>\<open>src/brokers/sudo\<close>, which runs cataloged commands as another Unix user through a privileged helper. Of the
  GitHub and Hugging Face brokers it models how a Git push is read and classified before the policy sees it.

  \<^bold>\<open>Theories and sources\<close>

  \<^item> \<open>GoPrelude\<close>, \<open>GoStrings\<close>: errors as sums (\<open>bindR\<close>, \<open>guardR\<close>, \<open>firstError\<close>), Go maps as association lists with
    distinct keys (\<open>gomap\<close>), strings as lists of bytes, UTF-8 decoding, \<^verbatim>\<open>strings.TrimSpace\<close>, decimal numbers and 64-bit
    wrap-around.
  \<^item> \<open>UseBudget\<close>: \<^verbatim>\<open>budget/limit.go\<close>; the arithmetic of use limits and their JSON form.
  \<^item> \<open>PathMatch\<close>, \<open>PolicyTypes\<close>, \<open>PolicyMatch\<close>, \<open>PolicyParse\<close>, \<open>PolicyAmbiguity\<close>, \<open>PolicyDecide\<close>: \<^verbatim>\<open>policy/*.go\<close>; Go's
    \<^verbatim>\<open>path.Match\<close>, the registry of operations, the match modes (globs, the path automaton, the recursive path mode,
    path prefixes, integer bounds), normalization of decoded rules, the overlap check for request rules, and \<^verbatim>\<open>Policy.Decide\<close>.
  \<^item> \<open>GrantTypes\<close>, \<open>GrantLifecycle\<close>, \<open>GrantRequests\<close>, \<open>GrantUses\<close>, \<open>GrantDecisions\<close>, \<open>GrantQuery\<close>, \<open>GrantAggregates\<close>: the
    definitions for \<^verbatim>\<open>grants/*.go\<close> and \<^verbatim>\<open>activation/failure.go\<close>; one function per operation of the store, from loading and
    validating the stored state to the save.
  \<^item> \<open>GrantInvariant\<close>, \<open>GrantPrepare\<close>, \<open>GrantMutations\<close>, \<open>GrantUseSteps\<close>, \<open>GrantDecisionSteps\<close>, \<open>GrantStore\<close>: the invariant of the
    stored state and that every operation keeps it. Locale \<open>store_mutation\<close> is the contract of a mutation run by
    \<^verbatim>\<open>updateWithPlan\<close>, \<open>lifecycle_preparation\<close> that of the work done before one; both are interpreted on each operation of the
    code. \<open>storeStep\<close> is the step relation with one rule per operation, \<open>reachable\<close> its closure from an empty store.
  \<^item> \<open>GrantProperties\<close>, \<open>GrantOperations\<close>, \<open>GrantFeed\<close>, \<open>GrantWaiting\<close>: what follows for clients of the store: budgets, life cycles,
    bounds, idempotent requests, reservations and decisions, pages of events and of grants, and the waiting loops.
  \<^item> \<open>GrantPolicy\<close>, \<open>Coordinator\<close>: the composition. \<open>GrantPolicy\<close> joins the store and the policy engine; \<open>Coordinator\<close> models
    \<^verbatim>\<open>coordinator.go\<close> and states in locale \<open>decision_engine\<close> what the coordinator relies on of a decision function, interpreted on
    \<^verbatim>\<open>Decide\<close> over parsed policies.
  \<^item> \<open>Admission\<close>: \<^verbatim>\<open>admission/*.go\<close>; rate windows, capacity and permits of a controller, with its own step relation.
  \<^item> \<open>AgentOperations\<close>, \<open>AgentStore\<close>, \<open>AgentProperties\<close>: the operation store, \<^verbatim>\<open>agent/runtime/store.go\<close>, with the two tables under it
    (\<^verbatim>\<open>internal/storage/state\<close>: operations and plans). Locale \<open>operation_change\<close> is the contract of a change run by \<^verbatim>\<open>update\<close>, interpreted
    on each change of the code; \<open>opsStep\<close> has one rule per call. What follows: an operation is never lost or rewritten, changes its
    state at most three times, and a row that is stored too long stops the workers.
  \<^item> \<open>Programs\<close>: programs of atomic actions, what they may answer while others act, and a logic for programs that share a world
    and own parts of it (locale \<open>ownership\<close>), for handlers that interleave.
  \<^item> \<open>OperationRuntime\<close>: \<^verbatim>\<open>operation/runtime/*.go\<close>; each handler is a program of atomic calls of the stores, the coordinator, admission
    control and the provider, so that handlers interleave.
  \<^item> \<open>GrantUseHistory\<close>, \<open>RuntimeSafety\<close>, \<open>RuntimeSystem\<close>: use records are never removed; a discipline of tokens for programs, proved
    along the code of every handler; \<open>sysStep\<close>, the system of any number of handlers, operators acting on the grants, and crashes; and
    the invariant of its reachable states.
  \<^item> \<open>RuntimeExecution\<close>, \<open>RuntimeExample\<close>, \<open>RuntimeProperties\<close>: a calculus for one handler run to its end; a run of the whole system; and
    the properties: at most one execution per operation, executions within budgets, executions that end.
  \<^item> \<open>GoFilepath\<close>: \<^verbatim>\<open>path/filepath\<close> on lists of path elements, and what the host tells of files.
  \<^item> \<open>SudoCatalog\<close>, \<open>SudoResolution\<close>: \<^verbatim>\<open>brokers/sudo/internal/catalog/catalog.go\<close> and the check for duplicate keys of
    \<^verbatim>\<open>internal/strictjson\<close>: the catalog of commands, its validation, and the resolution of a command with its slots. What follows: a resolved
    command is one the catalog declares, its path arguments beneath their roots, and it resolves to itself again.
  \<^item> \<open>SudoPlan\<close>, \<open>SudoBinding\<close>: \<^verbatim>\<open>plan/plan.go\<close>, \<^verbatim>\<open>sudopolicy/policy.go\<close>: the immutable plan of an execution and its checks against the catalog,
    the identity of the target user and the grant.
  \<^item> \<open>SudoHost\<close>: \<^verbatim>\<open>hostcheck\<close>: the paths of a command lie where only root can write.
  \<^item> \<open>SudoExecutor\<close>, \<open>SudoExecutorSafety\<close>: the helper: \<^verbatim>\<open>executorprotocol/protocol.go\<close>, \<^verbatim>\<open>executorserver/state.go\<close> and \<^verbatim>\<open>server.go\<close>. Its connections are
    programs; \<open>ownership\<close> is interpreted on the records of the state file that a connection has claimed, so that any number of
    connections, failed writes and crashes keep the invariant.
  \<^item> \<open>SudoOperations\<close>, \<open>SudoExchange\<close>: the adapter, the client of the helper and the callbacks of the runtime
    (\<^verbatim>\<open>operations/operations.go\<close>, \<^verbatim>\<open>executorclient/client.go\<close>, \<^verbatim>\<open>routes/agent_operations.go\<close>), and broker and helper together.
  \<^item> \<open>SudoExample\<close>, \<open>SudoProperties\<close>: a host with one command, on which the properties of the sudo broker are instantiated: executions run once and
    as declared, approvals given back only when nothing started, plans accepted where they are checked.
  \<^item> \<open>GitProtocol\<close>: \<^verbatim>\<open>git/protocol/pktline.go\<close>, \<^verbatim>\<open>receive_pack.go\<close> and \<^verbatim>\<open>refusal.go\<close>: packet lines, the commands of a push, refusals.
  \<^item> \<open>GitHubPush\<close>: the class of a ref update in the GitHub broker (\<^verbatim>\<open>httpapi/git_pack_classification.go\<close>, \<^verbatim>\<open>receive_pack.go\<close>, \<^verbatim>\<open>server.go\<close>)
    and the limits of \<^verbatim>\<open>git/protocol/pack.go\<close>; \<open>HuggingFacePush\<close>: the append-only rules of the Hugging Face broker
    (\<^verbatim>\<open>gitproxy/receive.go\<close>, \<^verbatim>\<open>enforce.go\<close>, \<^verbatim>\<open>report.go\<close>).
  \<^item> \<open>GitLemmas\<close>, \<open>GitExample\<close>, \<open>GitRefusal\<close>, \<open>GitProperties\<close>: the words of a line, the walk over commits as reachability, a packet format with the
    laws that are assumed, refusals read back, and the properties: pushes read back, fast-forwards, appends, and two ways in which broker
    and Git read a push differently.

  \<^bold>\<open>Reading the model\<close>

  State is passed explicitly. A store operation takes the stored state and returns it updated with its result; it is the body
  that the code runs under the store's lock, so operations do not interleave inside one another. The handlers of the runtime
  interleave between store operations, without any of its locks, which can only forbid interleavings. The surroundings of a call are
  arguments: the readings of the clock (\<open>Clock\<close>, one field per call site), whether a save succeeds, the random
  identifier of a new grant, the hash of a command, the results of provider callbacks. Times are integers in nanoseconds with 0 for
  the zero time; durations that the code multiplies are reduced to 64 bits where the code does not bound them. Errors
  are constructors; where the code only builds a message, the constructor names the place.

  \<^bold>\<open>What is assumed\<close>

  Properties of reachable stores assume that readings of the clock do not go backwards from one operation to the next (\<open>clockIn\<close>) and
  that a new identifier names no existing grant (\<open>freshID\<close>) and no operation seen before (\<open>oracleIn\<close>). These are hypotheses of the
  step relations. Hashing and the provider callbacks are parameters with no assumption beyond being functions. Of JSON decoding the
  operation store relies on one law, \<open>envOK\<close>: an encoded object decodes to itself. That an execution ends also assumes that the table
  takes the rows \<^verbatim>\<open>validateStored\<close> takes and that the broker's failure codes are within the limits (\<open>failuresStored\<close>). The
  properties of the helper assume that its clock does not go backwards (\<open>clocked\<close>); those of plans that JSON reads back what it wrote
  (\<open>jsonLaws\<close>, \<open>responsesReadBack\<close>), that paths found on the host are clean and, where a plan is checked again, that the files it names have
  not changed (\<open>filesClean\<close>, \<open>stableFiles\<close>). Of the packet format of go-git the readers of pushes assume that
  its scanner reads what its encoder wrote (\<open>pktLaws\<close>, which \<open>demoPkt\<close> satisfies).

  \<^bold>\<open>Loops\<close>

  Loops over slices are structural recursion. \<open>decodeRune\<close> and the loops over strings carry termination proofs on the length, the
  readers of packets on the input that is left, the walk over commits on the commits not seen and the stack. A
  waiting loop may run forever in the code; \<open>GrantWaiting\<close> gives it a list of rounds, each with its cause of waking, so that a claim
  that it returns is a claim about the list, and one that it goes on is too. A handler of the runtime is a finite tree of calls, so
  that it ends by construction once the calls return; the worker loop of \<^verbatim>\<open>Start\<close> is any sequence of such handlers. No fuel is used
  elsewhere.

  \<^bold>\<open>Not modelled\<close>

  \<^item> SQL: a save of the grant store (\<^verbatim>\<open>grants/sqlite.go\<close>) is one atomic replacement of the state that may fail, and each statement
    on the operation and plan tables may fail without effect; the length checks of their columns are a parameter.
  \<^item> Of the runtime: the defaults and checks of \<^verbatim>\<open>New\<close>, the registration of adapters, metrics, diagnostics and the clean-up of provider
    material.
  \<^item> JSON texts of policies, plans, cursors of the inbox and audit events; OpenAPI and generated wire types.
  \<^item> Of the sudo broker: the process runner (a call of the oracle that is recorded), the check of a stale socket, the HTTP routes, the
    commands and the installation.
  \<^item> Of the GitHub and Hugging Face brokers: the parser of packs and the mirror, which are parameters, and the HTTP handlers and provider
    calls around them.
  \<^item> Classification and execution in the other brokers, the Git client and server, HTTP transport, credentials, deployment, setup, command
    lines and the terminal: they use this path but do not decide in it. They are listed, with the reason, in the project manifest.
  \<^item> Locks, channels and timers: the model has the states between critical sections.
  \<^item> In the recursive path mode a pattern is matched byte by byte; a pattern with U+FFFD against a value that is not UTF-8
    is outside the model.
\<close>

end
